(* ===== verification/Idnx_Prelude.thy ===== *)
theory Idnx_Prelude
  imports Main "HOL-Library.Word" "HOL-Library.AList" "HOL-Library.List_Lexorder"
    "HOL-Library.Char_ord" "HOL-Library.Product_Lexorder"
begin

text \<open>
  What every component shares: the widths of the program's integers, the parts of Rust's string
  API the sources call (on UTF-8 bytes, one \<^typ>\<open>char\<close> per byte) and the collections of facts the
  component proofs draw on.
\<close>

named_theorems bytes_simps \<open>reading and writing big-endian fields\<close>
named_theorems graph_frame \<open>fields a graph operation leaves alone\<close>
named_theorems map_laws \<open>lookup after an update of a map\<close>

section \<open>Machine integers\<close>

type_synonym u8 = "8 word"
type_synonym u16 = "16 word"
type_synonym u32 = "32 word"
type_synonym u64 = "64 word"
type_synonym bytes = "u8 list"

section \<open>Strings\<close>

text \<open>\<open>str::split_once\<close>: the parts before and after the first separator.\<close>

fun split_once :: "char \<Rightarrow> string \<Rightarrow> (string \<times> string) option" where
  "split_once c [] = None"
| "split_once c (x # xs) =
     (if x = c then Some ([], xs)
      else map_option (\<lambda>(a, b). (x # a, b)) (split_once c xs))"

text \<open>\<open>str::split\<close> by one character: always at least one part.\<close>

fun split_on :: "char \<Rightarrow> string \<Rightarrow> string list" where
  "split_on c [] = [[]]"
| "split_on c (x # xs) =
     (if x = c then [] # split_on c xs
      else (case split_on c xs of [] \<Rightarrow> [[x]] | p # ps \<Rightarrow> (x # p) # ps))"

text \<open>\<open>str::split\<close> by a class of characters, as \<open>split(|c| \<dots>)\<close>.\<close>

fun split_by :: "(char \<Rightarrow> bool) \<Rightarrow> string \<Rightarrow> string list" where
  "split_by P [] = [[]]"
| "split_by P (x # xs) =
     (if P x then [] # split_by P xs
      else (case split_by P xs of [] \<Rightarrow> [[x]] | p # ps \<Rightarrow> (x # p) # ps))"

definition char_code :: "char \<Rightarrow> nat" where
  "char_code c = of_char c"

definition is_ascii_digit :: "char \<Rightarrow> bool" where
  "is_ascii_digit c \<longleftrightarrow> 48 \<le> char_code c \<and> char_code c \<le> 57"

definition is_ascii_uppercase :: "char \<Rightarrow> bool" where
  "is_ascii_uppercase c \<longleftrightarrow> 65 \<le> char_code c \<and> char_code c \<le> 90"

definition is_ascii_lowercase :: "char \<Rightarrow> bool" where
  "is_ascii_lowercase c \<longleftrightarrow> 97 \<le> char_code c \<and> char_code c \<le> 122"

definition is_ascii_alphanumeric :: "char \<Rightarrow> bool" where
  "is_ascii_alphanumeric c \<longleftrightarrow> is_ascii_digit c \<or> is_ascii_uppercase c \<or> is_ascii_lowercase c"

definition is_ascii_hexdigit :: "char \<Rightarrow> bool" where
  "is_ascii_hexdigit c \<longleftrightarrow> is_ascii_digit c \<or>
     (65 \<le> char_code c \<and> char_code c \<le> 70) \<or> (97 \<le> char_code c \<and> char_code c \<le> 102)"

definition ascii_lower :: "char \<Rightarrow> char" where
  "ascii_lower c = (if is_ascii_uppercase c then char_of (char_code c + 32) else c)"

definition to_ascii_lowercase :: "string \<Rightarrow> string" where
  "to_ascii_lowercase s = map ascii_lower s"

fun starts_with :: "string \<Rightarrow> string \<Rightarrow> bool" where
  "starts_with s [] = True"
| "starts_with [] (p # ps) = False"
| "starts_with (c # cs) (p # ps) = (c = p \<and> starts_with cs ps)"

definition strip_prefix :: "string \<Rightarrow> string \<Rightarrow> string option" where
  "strip_prefix s p = (if starts_with s p then Some (drop (length p) s) else None)"

fun str_contains :: "string \<Rightarrow> string \<Rightarrow> bool" where
  "str_contains [] p = (p = [])"
| "str_contains (c # cs) p = (starts_with (c # cs) p \<or> str_contains cs p)"

text \<open>\<open>u8::from_str_radix(s, 16)\<close>: an optional plus sign, then at least one digit.\<close>

definition hex_digit :: "char \<Rightarrow> nat option" where
  "hex_digit c =
     (if is_ascii_digit c then Some (char_code c - 48)
      else if 65 \<le> char_code c \<and> char_code c \<le> 70 then Some (char_code c - 55)
      else if 97 \<le> char_code c \<and> char_code c \<le> 102 then Some (char_code c - 87)
      else None)"

fun hex_value :: "nat \<Rightarrow> string \<Rightarrow> nat option" where
  "hex_value acc [] = Some acc"
| "hex_value acc (c # cs) =
     (case hex_digit c of None \<Rightarrow> None | Some d \<Rightarrow> hex_value (16 * acc + d) cs)"

definition u8_from_str_radix_16 :: "string \<Rightarrow> u8 option" where
  "u8_from_str_radix_16 s =
     (let digits = (case s of CHR ''+'' # rest \<Rightarrow> rest | _ \<Rightarrow> s)
      in if digits = [] then None
         else case hex_value 0 digits of
                None \<Rightarrow> None
              | Some v \<Rightarrow> if v < 256 then Some (word_of_nat v) else None)"

text \<open>\<open>u16::to_string\<close> and friends: decimal digits.\<close>

definition digit_char :: "int \<Rightarrow> char" where
  "digit_char d = (if d < 10 then char_of (nat d + 48) else char_of (nat d + 87))"

fun digits_aux :: "int \<Rightarrow> nat \<Rightarrow> int \<Rightarrow> string" where
  "digits_aux base 0 n = []"
| "digits_aux base (Suc fuel) n =
     (if n < base then [digit_char n]
      else digits_aux base fuel (n div base) @ [digit_char (n mod base)])"

text \<open>Every unsigned value below $10^{20}$ prints within twenty digits, the width of a \<open>u64\<close>.\<close>

definition decimal :: "int \<Rightarrow> string" where
  "decimal n = digits_aux 10 20 n"

lemma split_once_Some_iff:
  "split_once c s = Some (a, b) \<longleftrightarrow> s = a @ c # b \<and> c \<notin> set a"
proof (induction s arbitrary: a)
  case Nil
  then show ?case by simp
next
  case (Cons x xs)
  then show ?case by (cases a) auto
qed

lemma split_once_None_iff: "split_once c s = None \<longleftrightarrow> c \<notin> set s"
  by (induction s) auto

lemma split_once_first [simp]: "c \<notin> set a \<Longrightarrow> split_once c (a @ c # b) = Some (a, b)"
  by (simp add: split_once_Some_iff)

lemma split_on_nonempty [simp]: "split_on c s \<noteq> []"
  by (induction s) (auto split: list.splits)

lemma char_code_ascii_lower:
  "char_code (ascii_lower c) = (if is_ascii_uppercase c then char_code c + 32 else char_code c)"
  by (simp add: ascii_lower_def is_ascii_uppercase_def char_code_def)

lemma ascii_lower_idem [simp]: "ascii_lower (ascii_lower c) = ascii_lower c"
  by (auto simp: ascii_lower_def is_ascii_uppercase_def char_code_def)

lemma to_ascii_lowercase_idem [simp]:
  "to_ascii_lowercase (to_ascii_lowercase s) = to_ascii_lowercase s"
  by (simp add: to_ascii_lowercase_def)

lemma ascii_lower_eq_at [simp]: "ascii_lower c = CHR ''@'' \<longleftrightarrow> c = CHR ''@''"
proof
  assume low: "ascii_lower c = CHR ''@''"
  show "c = CHR ''@''"
  proof (cases "is_ascii_uppercase c")
    case True
    then have "char_code (ascii_lower c) \<ge> 97"
      unfolding char_code_ascii_lower by (simp add: is_ascii_uppercase_def)
    with low show ?thesis by (simp add: char_code_def)
  next
    case False
    with low show ?thesis by (simp add: ascii_lower_def)
  qed
next
  assume "c = CHR ''@''"
  then show "ascii_lower c = CHR ''@''"
    by (simp add: ascii_lower_def is_ascii_uppercase_def char_code_def)
qed

lemma at_in_lowercase [simp]:
  "CHR ''@'' \<in> set (to_ascii_lowercase s) \<longleftrightarrow> CHR ''@'' \<in> set s"
  unfolding to_ascii_lowercase_def by (auto simp: image_iff eq_commute)

end
