(* ===== verification/Rust_Maps.thy ===== *)
theory Rust_Maps
  imports Idnx_Prelude
begin

text \<open>
  The two map types of the Rust standard library the program keeps its state in. A
  \<open>BTreeMap\<close> is an association list sorted by key, so that iterating it visits the keys in
  order; a \<open>HashMap\<close> is an association list in no particular order. Both satisfy the
  interface \<open>rust_map\<close>, in which the \<open>entry\<close> and \<open>get_mut\<close> idioms are proved once. A
  \<open>BTreeSet\<close> is a sorted list without repetitions, kept by the library's
  \<^const>\<open>insort_insert\<close>.
\<close>

section \<open>The interface\<close>

text \<open>
  \<open>entry(k).or_insert(d)\<close> followed by a mutation of the value, and \<open>get_mut(k)\<close> followed by
  a mutation when there is one.
\<close>

definition entry_with ::
    "('m \<Rightarrow> 'k \<Rightarrow> 'v option) \<Rightarrow> ('k \<Rightarrow> 'v \<Rightarrow> 'm \<Rightarrow> 'm) \<Rightarrow> 'k \<Rightarrow> 'v \<Rightarrow> ('v \<Rightarrow> 'v) \<Rightarrow> 'm \<Rightarrow> 'm" where
  "entry_with get ins k d f m = ins k (f (case get m k of None \<Rightarrow> d | Some v \<Rightarrow> v)) m"

definition modify_with ::
    "('m \<Rightarrow> 'k \<Rightarrow> 'v option) \<Rightarrow> ('k \<Rightarrow> 'v \<Rightarrow> 'm \<Rightarrow> 'm) \<Rightarrow> 'k \<Rightarrow> ('v \<Rightarrow> 'v) \<Rightarrow> 'm \<Rightarrow> 'm" where
  "modify_with get ins k f m = (case get m k of None \<Rightarrow> m | Some v \<Rightarrow> ins k (f v) m)"

locale rust_map =
  fixes get :: "'m \<Rightarrow> 'k \<Rightarrow> 'v option"
    and ins :: "'k \<Rightarrow> 'v \<Rightarrow> 'm \<Rightarrow> 'm"
    and rem :: "'k \<Rightarrow> 'm \<Rightarrow> 'm"
    and inv :: "'m \<Rightarrow> bool"
  assumes get_ins: "get (ins k v m) = (get m)(k \<mapsto> v)"
    and get_rem: "get (rem k m) = (get m)(k := None)"
    and inv_ins: "inv m \<Longrightarrow> inv (ins k v m)"
    and inv_rem: "inv m \<Longrightarrow> inv (rem k m)"
begin

lemma get_entry:
  "get (entry_with get ins k d f m) =
     (get m)(k \<mapsto> f (case get m k of None \<Rightarrow> d | Some v \<Rightarrow> v))"
  by (simp add: entry_with_def get_ins)

lemma get_modify:
  "get (modify_with get ins k f m) k' =
     (if k' = k then map_option f (get m k) else get m k')"
  by (auto simp: modify_with_def get_ins split: option.split)

lemma inv_entry: "inv m \<Longrightarrow> inv (entry_with get ins k d f m)"
  by (simp add: entry_with_def inv_ins)

lemma inv_modify: "inv m \<Longrightarrow> inv (modify_with get ins k f m)"
  by (simp add: modify_with_def inv_ins split: option.split)

lemma dom_modify: "dom (get (modify_with get ins k f m)) = dom (get m)"
  by (auto simp: dom_def get_modify split: if_splits)

text \<open>Touching one key leaves what is stored under every other key as it was.\<close>

lemma frame_entry: "k' \<noteq> k \<Longrightarrow> get (entry_with get ins k d f m) k' = get m k'"
  by (simp add: get_entry)

end

section \<open>Ordered maps: \<open>BTreeMap\<close>\<close>

type_synonym ('k, 'v) btree_map = "('k \<times> 'v) list"

fun bm_insert :: "'k::linorder \<Rightarrow> 'v \<Rightarrow> ('k, 'v) btree_map \<Rightarrow> ('k, 'v) btree_map" where
  "bm_insert k v [] = [(k, v)]"
| "bm_insert k v (p # ps) =
     (if k < fst p then (k, v) # p # ps
      else if k = fst p then (k, v) # ps
      else p # bm_insert k v ps)"

definition bm_remove :: "'k \<Rightarrow> ('k, 'v) btree_map \<Rightarrow> ('k, 'v) btree_map" where
  "bm_remove k m = filter (\<lambda>p. fst p \<noteq> k) m"

definition bm_ok :: "('k::linorder, 'v) btree_map \<Rightarrow> bool" where
  "bm_ok m \<longleftrightarrow> sorted_wrt (<) (map fst m)"

abbreviation bm_get :: "('k, 'v) btree_map \<Rightarrow> 'k \<Rightarrow> 'v option" where
  "bm_get \<equiv> map_of"

definition bm_entry ::
    "'k::linorder \<Rightarrow> 'v \<Rightarrow> ('v \<Rightarrow> 'v) \<Rightarrow> ('k, 'v) btree_map \<Rightarrow> ('k, 'v) btree_map" where
  "bm_entry = entry_with bm_get bm_insert"

definition bm_modify ::
    "'k::linorder \<Rightarrow> ('v \<Rightarrow> 'v) \<Rightarrow> ('k, 'v) btree_map \<Rightarrow> ('k, 'v) btree_map" where
  "bm_modify = modify_with bm_get bm_insert"

lemma map_of_bm_insert: "map_of (bm_insert k v m) = (map_of m)(k \<mapsto> v)"
  by (induction m) auto

lemma keys_bm_insert: "fst ` set (bm_insert k v m) = insert k (fst ` set m)"
  by (induction m) auto

lemma map_of_bm_remove: "map_of (bm_remove k m) = (map_of m)(k := None)"
  by (induction m) (auto simp: bm_remove_def)

lemma bm_ok_insert: "bm_ok m \<Longrightarrow> bm_ok (bm_insert k v m)"
proof (induction m)
  case Nil
  then show ?case by (simp add: bm_ok_def)
next
  case (Cons p ps)
  then have tail: "bm_ok (bm_insert k v ps)" and low: "\<forall>q \<in> set ps. fst p < fst q"
    by (auto simp: bm_ok_def)
  have "\<forall>q \<in> set (bm_insert k v ps). fst p < fst q" if "fst p < k"
    using low that keys_bm_insert [of k v ps] by (metis image_iff insert_iff)
  with Cons.prems tail low show ?case
    by (auto simp: bm_ok_def)
qed

lemma bm_ok_remove: "bm_ok m \<Longrightarrow> bm_ok (bm_remove k m)"
  by (induction m) (auto simp: bm_ok_def bm_remove_def)

lemma bm_ok_Nil [simp]: "bm_ok []"
  by (simp add: bm_ok_def)

lemma bm_ok_distinct: "bm_ok m \<Longrightarrow> distinct (map fst m)"
  by (simp add: bm_ok_def strict_sorted_iff)

interpretation bm: rust_map bm_get bm_insert bm_remove bm_ok
  by unfold_locales
    (simp_all add: map_of_bm_insert map_of_bm_remove bm_ok_insert bm_ok_remove)

lemmas bm_entry_laws [map_laws] =
  bm.get_entry [folded bm_entry_def] bm.get_modify [folded bm_modify_def]
  map_of_bm_insert map_of_bm_remove

lemmas bm_ok_laws [intro] =
  bm.inv_entry [folded bm_entry_def] bm.inv_modify [folded bm_modify_def]
  bm_ok_insert bm_ok_remove

text \<open>Iterating a map, and filtering or mapping its values without touching the keys.\<close>

lemma bm_ok_map_snd: "bm_ok m \<Longrightarrow> bm_ok (map (\<lambda>(k, v). (k, f k v)) m)"
  by (simp add: bm_ok_def case_prod_unfold comp_def)

lemma set_bm_get: "bm_ok m \<Longrightarrow> (k, v) \<in> set m \<longleftrightarrow> bm_get m k = Some v"
  by (simp add: bm_ok_distinct map_of_eq_Some_iff)

text \<open>A property of every entry, kept by each way of changing a map.\<close>

definition bm_all :: "('k::linorder \<Rightarrow> 'v \<Rightarrow> bool) \<Rightarrow> ('k, 'v) btree_map \<Rightarrow> bool" where
  "bm_all P m \<longleftrightarrow> bm_ok m \<and> (\<forall>k v. bm_get m k = Some v \<longrightarrow> P k v)"

lemma bm_all_Nil [simp]: "bm_all P []"
  by (simp add: bm_all_def)

lemma bm_allD: "bm_all P m \<Longrightarrow> bm_get m k = Some v \<Longrightarrow> P k v"
  by (simp add: bm_all_def)

lemma bm_all_insert: "bm_all P m \<Longrightarrow> P k v \<Longrightarrow> bm_all P (bm_insert k v m)"
  unfolding bm_all_def map_of_bm_insert by (simp add: bm_ok_insert)

lemma bm_all_remove: "bm_all P m \<Longrightarrow> bm_all P (bm_remove k m)"
  unfolding bm_all_def map_of_bm_remove by (simp add: bm_ok_remove)

lemma bm_all_modify:
  assumes "bm_all P m" and "\<And>v. bm_get m k = Some v \<Longrightarrow> P k v \<Longrightarrow> P k (f v)"
  shows "bm_all P (bm_modify k f m)"
proof (cases "bm_get m k")
  case None
  with assms(1) show ?thesis by (simp add: bm_modify_def modify_with_def)
next
  case (Some v)
  with assms have "P k (f v)" by (blast dest: bm_allD)
  with Some assms(1) show ?thesis by (simp add: bm_modify_def modify_with_def bm_all_insert)
qed

lemma bm_all_entry:
  assumes "bm_all P m" and "bm_get m k = None \<Longrightarrow> P k (f d)" and "\<And>v. P k v \<Longrightarrow> P k (f v)"
  shows "bm_all P (bm_entry k d f m)"
proof (cases "bm_get m k")
  case None
  with assms show ?thesis by (simp add: bm_entry_def entry_with_def bm_all_insert)
next
  case (Some v)
  with assms(1) have "P k v" by (blast dest: bm_allD)
  with Some assms show ?thesis by (simp add: bm_entry_def entry_with_def bm_all_insert)
qed

lemma bm_all_set: "bm_all P m \<Longrightarrow> (k, v) \<in> set m \<Longrightarrow> P k v"
  by (simp add: bm_all_def set_bm_get)

section \<open>Hash maps: \<open>HashMap\<close>\<close>

type_synonym ('k, 'v) hash_map = "('k \<times> 'v) list"

abbreviation hm_get :: "('k, 'v) hash_map \<Rightarrow> 'k \<Rightarrow> 'v option" where
  "hm_get \<equiv> map_of"

abbreviation hm_insert :: "'k \<Rightarrow> 'v \<Rightarrow> ('k, 'v) hash_map \<Rightarrow> ('k, 'v) hash_map" where
  "hm_insert \<equiv> AList.update"

abbreviation hm_remove :: "'k \<Rightarrow> ('k, 'v) hash_map \<Rightarrow> ('k, 'v) hash_map" where
  "hm_remove \<equiv> AList.delete"

definition hm_entry ::
    "'k \<Rightarrow> 'v \<Rightarrow> ('v \<Rightarrow> 'v) \<Rightarrow> ('k, 'v) hash_map \<Rightarrow> ('k, 'v) hash_map" where
  "hm_entry = entry_with hm_get hm_insert"

definition hm_ok :: "('k, 'v) hash_map \<Rightarrow> bool" where
  "hm_ok m \<longleftrightarrow> distinct (map fst m)"

interpretation hm: rust_map hm_get hm_insert hm_remove hm_ok
  by unfold_locales
    (simp_all add: update_conv' delete_conv' hm_ok_def distinct_update distinct_delete)

lemmas hm_laws [map_laws] =
  hm.get_entry [folded hm_entry_def] update_conv' delete_conv'

lemmas hm_ok_laws [intro] = hm.inv_entry [folded hm_entry_def] hm.inv_ins hm.inv_rem

lemma hm_ok_Nil [simp]: "hm_ok []"
  by (simp add: hm_ok_def)

lemma set_hm_get: "hm_ok m \<Longrightarrow> (k, v) \<in> set m \<longleftrightarrow> hm_get m k = Some v"
  by (simp add: hm_ok_def map_of_eq_Some_iff)

section \<open>Ordered sets: \<open>BTreeSet\<close>\<close>

type_synonym 'a btree_set = "'a list"

definition bs_extend :: "'a::linorder btree_set \<Rightarrow> 'a list \<Rightarrow> 'a btree_set" where
  "bs_extend s xs = fold insort_insert xs s"

lemma set_bs_extend [simp]: "set (bs_extend s xs) = set s \<union> set xs"
  unfolding bs_extend_def by (induction xs arbitrary: s) (auto simp: set_insort_insert)

lemma distinct_bs_extend: "distinct s \<Longrightarrow> distinct (bs_extend s xs)"
  unfolding bs_extend_def by (induction xs arbitrary: s) (simp_all add: distinct_insort_insert)

section \<open>Derived orderings\<close>

text \<open>
  \<open>#[derive(Ord)]\<close> compares the variant first and then the fields from left to right. The
  model reproduces it by encoding a value as a list of numbers compared lexicographically: the
  variant's index, then each field; a string is its bytes shifted by one and a terminating zero,
  so that a proper prefix sorts first and no encoding is a prefix of another.
\<close>

definition enc_string :: "string \<Rightarrow> int list" where
  "enc_string s = map (\<lambda>c. int (char_code c) + 1) s @ [0]"

definition enc_word :: "'a::len word \<Rightarrow> int list" where
  "enc_word w = [uint w]"

lemma char_code_inject [simp]: "char_code c = char_code d \<longleftrightarrow> c = d"
  by (simp add: char_code_def)

lemma enc_string_append_inject [simp]:
  "enc_string s @ xs = enc_string t @ ys \<longleftrightarrow> s = t \<and> xs = ys"
proof (induction s arbitrary: t)
  case Nil
  then show ?case by (cases t) (auto simp: enc_string_def)
next
  case (Cons c s)
  show ?case
  proof (cases t)
    case Nil
    then show ?thesis by (simp add: enc_string_def)
  next
    case (Cons d t')
    then show ?thesis using Cons.IH [of t'] by (auto simp: enc_string_def)
  qed
qed

lemma enc_string_inject [simp]: "enc_string s = enc_string t \<longleftrightarrow> s = t"
  using enc_string_append_inject [of s "[]" t "[]"] by simp

lemma enc_word_append_inject [simp]:
  "enc_word v @ xs = enc_word w @ ys \<longleftrightarrow> v = w \<and> xs = ys"
  by (simp add: enc_word_def word_uint_eq_iff)

lemma enc_word_inject [simp]: "enc_word v = enc_word w \<longleftrightarrow> v = w"
  by (simp add: enc_word_def word_uint_eq_iff)

end
