(* ===== verification/Net_Types.thy ===== *)
theory Net_Types
  imports Rust_Maps
begin

text \<open>
  Addresses and prefixes. \<open>ip_addr\<close> is \<open>std::net::IpAddr\<close>, its predicates are the ones of the
  standard library that the sources call, and \<open>ip_to_string\<close> is its \<open>Display\<close>. \<open>ip_net\<close> is
  the value of an \<open>ipnet::IpNet\<close>: an address and a prefix length.
\<close>

unbundle bit_operations_syntax

section \<open>Addresses\<close>

datatype ip_addr = V4 "32 word" | V6 "128 word"

definition octet4 :: "nat \<Rightarrow> 32 word \<Rightarrow> int" where
  "octet4 i a = uint (drop_bit (24 - 8 * i) a AND 255)"

definition segment6 :: "nat \<Rightarrow> 128 word \<Rightarrow> 16 word" where
  "segment6 i a = ucast (drop_bit (112 - 16 * i) a)"

definition is_loopback4 :: "32 word \<Rightarrow> bool" where
  "is_loopback4 a \<longleftrightarrow> octet4 0 a = 127"

definition is_private4 :: "32 word \<Rightarrow> bool" where
  "is_private4 a \<longleftrightarrow> octet4 0 a = 10 \<or> (octet4 0 a = 172 \<and> 16 \<le> octet4 1 a \<and> octet4 1 a \<le> 31) \<or>
     (octet4 0 a = 192 \<and> octet4 1 a = 168)"

definition is_link_local4 :: "32 word \<Rightarrow> bool" where
  "is_link_local4 a \<longleftrightarrow> octet4 0 a = 169 \<and> octet4 1 a = 254"

definition is_multicast4 :: "32 word \<Rightarrow> bool" where
  "is_multicast4 a \<longleftrightarrow> 224 \<le> octet4 0 a \<and> octet4 0 a \<le> 239"

definition is_unspecified4 :: "32 word \<Rightarrow> bool" where
  "is_unspecified4 a \<longleftrightarrow> a = 0"

definition is_broadcast4 :: "32 word \<Rightarrow> bool" where
  "is_broadcast4 a \<longleftrightarrow> a = 0xFFFFFFFF"

definition is_loopback6 :: "128 word \<Rightarrow> bool" where
  "is_loopback6 a \<longleftrightarrow> a = 1"

definition is_unspecified6 :: "128 word \<Rightarrow> bool" where
  "is_unspecified6 a \<longleftrightarrow> a = 0"

definition is_multicast6 :: "128 word \<Rightarrow> bool" where
  "is_multicast6 a \<longleftrightarrow> segment6 0 a AND 0xFF00 = 0xFF00"

section \<open>Display\<close>

definition ipv4_to_string :: "32 word \<Rightarrow> string" where
  "ipv4_to_string a =
     decimal (octet4 0 a) @ ''.'' @ decimal (octet4 1 a) @ ''.'' @
     decimal (octet4 2 a) @ ''.'' @ decimal (octet4 3 a)"

definition hex_segment :: "16 word \<Rightarrow> string" where
  "hex_segment w = digits_aux 16 4 (uint w)"

fun join_with :: "string \<Rightarrow> string list \<Rightarrow> string" where
  "join_with sep [] = []"
| "join_with sep [s] = s"
| "join_with sep (s # t # ss) = s @ sep @ join_with sep (t # ss)"

definition segments6 :: "128 word \<Rightarrow> 16 word list" where
  "segments6 a = map (\<lambda>i. segment6 i a) [0 ..< 8]"

text \<open>
  The longest run of zero segments, the first of several of the same length: the state is the
  longest run so far, the current run and the index, each run as (start, length).
\<close>

fun zero_run :: "nat \<times> nat \<Rightarrow> nat \<times> nat \<Rightarrow> nat \<Rightarrow> 16 word list \<Rightarrow> nat \<times> nat" where
  "zero_run longest current i [] = longest"
| "zero_run longest current i (w # ws) =
     (if w = 0 then
        let cur = (if snd current = 0 then i else fst current, Suc (snd current))
        in zero_run (if snd longest < snd cur then cur else longest) cur (Suc i) ws
      else zero_run longest (0, 0) (Suc i) ws)"

definition ipv6_to_string :: "128 word \<Rightarrow> string" where
  "ipv6_to_string a =
     (let segs = segments6 a
      in if take 5 segs = [0, 0, 0, 0, 0] \<and> segs ! 5 = 0xFFFF
         then ''::ffff:'' @ ipv4_to_string (ucast a)
         else let (start, len) = zero_run (0, 0) (0, 0) 0 segs
              in if 1 < len
                 then join_with '':'' (map hex_segment (take start segs)) @ ''::'' @
                      join_with '':'' (map hex_segment (drop (start + len) segs))
                 else join_with '':'' (map hex_segment segs))"

fun ip_to_string :: "ip_addr \<Rightarrow> string" where
  "ip_to_string (V4 a) = ipv4_to_string a"
| "ip_to_string (V6 a) = ipv6_to_string a"

section \<open>Prefixes\<close>

datatype ip_net = V4Net "32 word" nat | V6Net "128 word" nat

fun net_addr :: "ip_net \<Rightarrow> ip_addr" where
  "net_addr (V4Net a n) = V4 a"
| "net_addr (V6Net a n) = V6 a"

fun net_prefix_len :: "ip_net \<Rightarrow> nat" where
  "net_prefix_len (V4Net a n) = n"
| "net_prefix_len (V6Net a n) = n"

section \<open>Big-endian integers\<close>

text \<open>\<open>to_be_bytes\<close> of an unsigned integer of \<open>n\<close> bytes.\<close>

definition be_bytes :: "nat \<Rightarrow> 'a::len word \<Rightarrow> bytes" where
  "be_bytes n w = map (\<lambda>i. ucast (drop_bit (8 * i) w)) (rev [0 ..< n])"

lemma length_be_bytes [simp]: "length (be_bytes n w) = n"
  by (simp add: be_bytes_def)

lemma be_bytes_inject:
  fixes v w :: "'a::len word"
  assumes "be_bytes n v = be_bytes n w" and "LENGTH('a) \<le> 8 * n"
  shows "v = w"
proof (rule bit_word_eqI)
  fix k assume k: "k < LENGTH('a)"
  let ?i = "k div 8"
  have i: "?i < n" using k assms(2) by linarith
  have "\<forall>i \<in> set (rev [0 ..< n]). (ucast (drop_bit (8 * i) v) :: u8) = ucast (drop_bit (8 * i) w)"
    using assms(1) unfolding be_bytes_def map_eq_conv .
  with i have "(ucast (drop_bit (8 * ?i) v) :: u8) = ucast (drop_bit (8 * ?i) w)" by simp
  then have "bit (ucast (drop_bit (8 * ?i) v) :: u8) (k mod 8) =
      bit (ucast (drop_bit (8 * ?i) w) :: u8) (k mod 8)" by simp
  then show "bit v k = bit w k" by (simp add: bit_simps)
qed

section \<open>The derived order\<close>

fun enc_ip :: "ip_addr \<Rightarrow> int list" where
  "enc_ip (V4 a) = 0 # enc_word a"
| "enc_ip (V6 a) = 1 # enc_word a"

fun enc_net :: "ip_net \<Rightarrow> int list" where
  "enc_net (V4Net a n) = 0 # enc_word a @ [int n]"
| "enc_net (V6Net a n) = 1 # enc_word a @ [int n]"

lemma enc_ip_append_inject [simp]:
  "enc_ip a @ xs = enc_ip b @ ys \<longleftrightarrow> a = b \<and> xs = ys"
  by (cases a; cases b) auto

lemma enc_ip_inject [simp]: "enc_ip a = enc_ip b \<longleftrightarrow> a = b"
  using enc_ip_append_inject [of a "[]" b "[]"] by simp

lemma enc_net_append_inject [simp]:
  "enc_net a @ xs = enc_net b @ ys \<longleftrightarrow> a = b \<and> xs = ys"
  by (cases a; cases b) auto

instantiation ip_addr :: linorder
begin

definition less_eq_ip_addr :: "ip_addr \<Rightarrow> ip_addr \<Rightarrow> bool" where
  "a \<le> b \<longleftrightarrow> enc_ip a \<le> enc_ip b"

definition less_ip_addr :: "ip_addr \<Rightarrow> ip_addr \<Rightarrow> bool" where
  "a < b \<longleftrightarrow> enc_ip a < enc_ip b"

instance
  by standard (auto simp: less_eq_ip_addr_def less_ip_addr_def order_less_le)

end

end
