(* ===== verification/Evidence.thy ===== *)
theory Evidence
  imports Net_Types
begin

text \<open>
  The evidence records every provider emits (\<open>src/src/topology/evidence.rs\<close>): the grade of a
  fact, where it came from, the identity of a device, the behaviours a role is scored from, the
  facts themselves and the provenance each carries.
\<close>

section \<open>Grades\<close>

datatype confidence = Inferred | Advertised | UserSupplied | Observed

fun confidence_rank :: "confidence \<Rightarrow> int" where
  "confidence_rank Inferred = 0"
| "confidence_rank Advertised = 1"
| "confidence_rank UserSupplied = 2"
| "confidence_rank Observed = 3"

fun confidence_label :: "confidence \<Rightarrow> string" where
  "confidence_label Inferred = ''inferred''"
| "confidence_label Advertised = ''advertised''"
| "confidence_label UserSupplied = ''user-supplied''"
| "confidence_label Observed = ''observed''"

fun confidence_marker :: "confidence \<Rightarrow> string" where
  "confidence_marker Inferred = ''~''"
| "confidence_marker Advertised = ''+''"
| "confidence_marker UserSupplied = ''=''"
| "confidence_marker Observed = ''*''"

lemma confidence_rank_inject [simp]: "confidence_rank a = confidence_rank b \<longleftrightarrow> a = b"
  by (cases a; cases b) auto

instantiation confidence :: linorder
begin

definition less_eq_confidence :: "confidence \<Rightarrow> confidence \<Rightarrow> bool" where
  "a \<le> b \<longleftrightarrow> confidence_rank a \<le> confidence_rank b"

definition less_confidence :: "confidence \<Rightarrow> confidence \<Rightarrow> bool" where
  "a < b \<longleftrightarrow> confidence_rank a < confidence_rank b"

instance
  by standard (auto simp: less_eq_confidence_def less_confidence_def order_less_le)

end

section \<open>Sources\<close>

datatype evidence_source =
    InterfaceAddress | KernelRoute | DefaultGateway | ResolverConfig | DhcpLease
  | ArpCache | NdpCache | ArpProbe | NdpProbe | IcmpProbe | TcpProbe | Mdns | UnicastDns
  | Ssdp | Nbns | Llmnr | Mndp | Lldp | Cdp | Stp | RouterAdvertisement | Snmp | Rip
  | VendorDiscovery | NatPmp | AiProtocol | Mcp | UserSupplied

fun source_label :: "evidence_source \<Rightarrow> string" where
  "source_label InterfaceAddress = ''interface address''"
| "source_label KernelRoute = ''kernel route''"
| "source_label evidence_source.DefaultGateway = ''default gateway''"
| "source_label ResolverConfig = ''resolver config''"
| "source_label DhcpLease = ''DHCP lease''"
| "source_label ArpCache = ''ARP cache''"
| "source_label NdpCache = ''NDP cache''"
| "source_label ArpProbe = ''ARP probe''"
| "source_label NdpProbe = ''neighbour solicitation''"
| "source_label IcmpProbe = ''ICMP probe''"
| "source_label TcpProbe = ''TCP probe''"
| "source_label Mdns = ''mDNS''"
| "source_label UnicastDns = ''unicast DNS''"
| "source_label Ssdp = ''SSDP/UPnP''"
| "source_label Nbns = ''NBNS''"
| "source_label Llmnr = ''LLMNR''"
| "source_label Mndp = ''MNDP''"
| "source_label Lldp = ''LLDP''"
| "source_label Cdp = ''CDP''"
| "source_label Stp = ''STP/BPDU''"
| "source_label evidence_source.RouterAdvertisement = ''IPv6 router advertisement''"
| "source_label Snmp = ''SNMP''"
| "source_label Rip = ''RIP''"
| "source_label VendorDiscovery = ''vendor discovery''"
| "source_label NatPmp = ''NAT-PMP''"
| "source_label AiProtocol = ''AI runtime protocol''"
| "source_label Mcp = ''MCP (negotiated)''"
| "source_label evidence_source.UserSupplied = ''user supplied''"

definition needs_privilege :: "evidence_source \<Rightarrow> bool" where
  "needs_privilege s \<longleftrightarrow> s \<in> {Lldp, Cdp, Stp, ArpProbe, NdpProbe}"

section \<open>Device identities\<close>

datatype device_key = Mac string | Address ip_addr | ScopedAddress ip_addr string

definition device_key_mac :: "string \<Rightarrow> device_key" where
  "device_key_mac raw = Mac (to_ascii_lowercase raw)"

text \<open>\<open>fe80::/10\<close>, and the link-local multicast scope \<open>ff02::/16\<close>, flags apart.\<close>

fun requires_zone :: "ip_addr \<Rightarrow> bool" where
  "requires_zone (V4 a) = False"
| "requires_zone (V6 a) =
     (segment6 0 a AND 0xFFC0 = 0xFE80 \<or> segment6 0 a AND 0xFF0F = 0xFF02)"

definition scoped_address :: "ip_addr \<Rightarrow> string option \<Rightarrow> device_key" where
  "scoped_address addr zone =
     (case zone of
        Some z \<Rightarrow> if requires_zone addr then ScopedAddress addr (to_ascii_lowercase z) else Address addr
      | None \<Rightarrow> Address addr)"

fun key_address :: "device_key \<Rightarrow> ip_addr option" where
  "key_address (Address a) = Some a"
| "key_address (ScopedAddress a z) = Some a"
| "key_address (Mac m) = None"

fun is_mac :: "device_key \<Rightarrow> bool" where
  "is_mac (Mac m) = True"
| "is_mac _ = False"

fun enc_key :: "device_key \<Rightarrow> int list" where
  "enc_key (Mac m) = 0 # enc_string m"
| "enc_key (Address a) = 1 # enc_ip a"
| "enc_key (ScopedAddress a z) = 2 # enc_ip a @ enc_string z"

lemma enc_key_append_inject [simp]:
  "enc_key a @ xs = enc_key b @ ys \<longleftrightarrow> a = b \<and> xs = ys"
  by (cases a; cases b) auto

lemma enc_key_inject [simp]: "enc_key a = enc_key b \<longleftrightarrow> a = b"
  using enc_key_append_inject [of a "[]" b "[]"] by simp

instantiation device_key :: linorder
begin

definition less_eq_device_key :: "device_key \<Rightarrow> device_key \<Rightarrow> bool" where
  "a \<le> b \<longleftrightarrow> enc_key a \<le> enc_key b"

definition less_device_key :: "device_key \<Rightarrow> device_key \<Rightarrow> bool" where
  "a < b \<longleftrightarrow> enc_key a < enc_key b"

instance
  by standard (auto simp: less_eq_device_key_def less_device_key_def order_less_le)

end

section \<open>Behaviours a role is scored from\<close>

datatype role_signal =
    DefaultGateway | DhcpRouter | RouterAdvertisement | LinkLayerCapability string
  | InternetGatewayDevice | SnmpForwarding | ObservedForwarding | KernelNextHop
  | RipRouteAdvertisement | SpanningTreeBridge | ManagementSurface

fun weight :: "role_signal \<Rightarrow> nat" where
  "weight DefaultGateway = 100"
| "weight SnmpForwarding = 90"
| "weight RipRouteAdvertisement = 90"
| "weight SpanningTreeBridge = 90"
| "weight InternetGatewayDevice = 80"
| "weight DhcpRouter = 80"
| "weight RouterAdvertisement = 70"
| "weight (LinkLayerCapability c) = 70"
| "weight KernelNextHop = 70"
| "weight ObservedForwarding = 60"
| "weight ManagementSurface = 30"

fun describe_signal :: "role_signal \<Rightarrow> string" where
  "describe_signal DefaultGateway = ''is this machine's default gateway''"
| "describe_signal DhcpRouter = ''acts as a DHCP router or server''"
| "describe_signal RouterAdvertisement = ''advertises itself as an IPv6 router (RFC 4861)''"
| "describe_signal (LinkLayerCapability c) = ''LLDP/CDP capability: '' @ c"
| "describe_signal InternetGatewayDevice = ''advertises a UPnP InternetGatewayDevice''"
| "describe_signal SnmpForwarding = ''SNMP reports IP forwarding''"
| "describe_signal RipRouteAdvertisement = ''advertised routes over RIP''"
| "describe_signal ObservedForwarding = ''observed forwarding traffic on a path''"
| "describe_signal KernelNextHop = ''is the kernel's next hop for a routed network''"
| "describe_signal SpanningTreeBridge = ''emits spanning-tree BPDUs''"
| "describe_signal ManagementSurface = ''serves DNS and a web management interface''"

fun enc_signal :: "role_signal \<Rightarrow> int list" where
  "enc_signal DefaultGateway = [0]"
| "enc_signal DhcpRouter = [1]"
| "enc_signal RouterAdvertisement = [2]"
| "enc_signal (LinkLayerCapability c) = 3 # enc_string c"
| "enc_signal InternetGatewayDevice = [4]"
| "enc_signal SnmpForwarding = [5]"
| "enc_signal ObservedForwarding = [6]"
| "enc_signal KernelNextHop = [7]"
| "enc_signal RipRouteAdvertisement = [8]"
| "enc_signal SpanningTreeBridge = [9]"
| "enc_signal ManagementSurface = [10]"

lemma enc_signal_inject [simp]: "enc_signal a = enc_signal b \<longleftrightarrow> a = b"
  by (cases a; cases b) auto

instantiation role_signal :: linorder
begin

definition less_eq_role_signal :: "role_signal \<Rightarrow> role_signal \<Rightarrow> bool" where
  "a \<le> b \<longleftrightarrow> enc_signal a \<le> enc_signal b"

definition less_role_signal :: "role_signal \<Rightarrow> role_signal \<Rightarrow> bool" where
  "a < b \<longleftrightarrow> enc_signal a < enc_signal b"

instance
  by standard (auto simp: less_eq_role_signal_def less_role_signal_def order_less_le)

end

section \<open>Capabilities\<close>

datatype capability =
    DefaultGateway | Ipv4Forwarding | Ipv6Router | NatGateway | DhcpServer | DnsServer
  | Bridge | WirelessAp | ManagementInterface | AiRuntime | AiAgent | McpServer

fun capability_label :: "capability \<Rightarrow> string" where
  "capability_label capability.DefaultGateway = ''default gateway''"
| "capability_label Ipv4Forwarding = ''IPv4 forwarding''"
| "capability_label Ipv6Router = ''IPv6 router''"
| "capability_label NatGateway = ''NAT gateway''"
| "capability_label DhcpServer = ''DHCP server''"
| "capability_label DnsServer = ''DNS server''"
| "capability_label Bridge = ''bridge''"
| "capability_label WirelessAp = ''wireless AP''"
| "capability_label ManagementInterface = ''management interface''"
| "capability_label AiRuntime = ''AI runtime''"
| "capability_label AiAgent = ''AI agent''"
| "capability_label McpServer = ''MCP server''"

section \<open>Facts and the records that carry them\<close>

datatype fact =
    Network ip_net
  | Vlan u16
  | VlanNetwork u16 ip_net
  | InterfaceNetwork string ip_net
  | DeviceAddress device_key ip_addr
  | DeviceHostname device_key string
  | DeviceVendor device_key string
  | DeviceDescription device_key string
  | DeviceRoleSignal device_key role_signal
  | DeviceCapability device_key capability "string option"
  | GatewayFor device_key ip_net
  | RoutesTo device_key ip_net "ip_addr option"
  | AttachedTo device_key ip_net
  | BridgeLink string string "string option"
  | ObservedBehind device_key device_key
  | ForwardsToward device_key ip_addr u8 "device_key option"
  | OpaqueBoundary device_key string
  | Service ip_addr u16 string "string option"
  | ResolvedAs string ip_addr

record peer_origin =
  po_peer :: string
  po_vantage :: string
  po_sequence :: u64
  po_published_at :: u64

record topology_evidence =
  ev_fact :: fact
  ev_source :: evidence_source
  ev_confidence :: confidence
  ev_vantage :: string
  ev_observed_at :: int
  ev_detail :: "string option"
  ev_origin :: "peer_origin option"

text \<open>
  A \<open>SystemTime\<close> is its distance from the Unix epoch in nanoseconds; \<open>SystemTime::now()\<close> is an
  argument.
\<close>

definition evidence_new ::
    "int \<Rightarrow> fact \<Rightarrow> evidence_source \<Rightarrow> confidence \<Rightarrow> string \<Rightarrow> topology_evidence" where
  "evidence_new now f s c v =
     \<lparr>ev_fact = f, ev_source = s, ev_confidence = c, ev_vantage = v, ev_observed_at = now,
      ev_detail = None, ev_origin = None\<rparr>"

definition from_peer :: "topology_evidence \<Rightarrow> peer_origin \<Rightarrow> topology_evidence" where
  "from_peer ev origin = ev\<lparr>ev_origin := Some origin\<rparr>"

definition is_remote :: "topology_evidence \<Rightarrow> bool" where
  "is_remote ev \<longleftrightarrow> ev_origin ev \<noteq> None"

definition with_detail :: "topology_evidence \<Rightarrow> string \<Rightarrow> topology_evidence" where
  "with_detail ev d = ev\<lparr>ev_detail := Some d\<rparr>"

text \<open>
  The display form of an origin slices the peer's name at byte 16, which panics (\<open>None\<close>) inside
  a multi-byte character: bytes \<open>0x80\<close> to \<open>0xBF\<close> continue one.
\<close>

definition is_char_boundary :: "string \<Rightarrow> nat \<Rightarrow> bool" where
  "is_char_boundary s i \<longleftrightarrow> i = length s \<or>
     (i < length s \<and> \<not> (128 \<le> char_code (s ! i) \<and> char_code (s ! i) \<le> 191))"

definition origin_short :: "peer_origin \<Rightarrow> string option" where
  "origin_short o' =
     (if 16 < length (po_peer o')
      then if is_char_boundary (po_peer o') 16
           then Some (''peer '' @ take 16 (po_peer o') @ '' via '' @ po_vantage o')
           else None
      else Some (''peer '' @ po_peer o' @ '' via '' @ po_vantage o'))"

section \<open>Facts about identities\<close>

text \<open>A MAC names one device however a source spelled it.\<close>

lemma device_key_mac_case: "device_key_mac (to_ascii_lowercase raw) = device_key_mac raw"
  by (simp add: device_key_mac_def)

lemma key_address_scoped: "key_address (scoped_address a z) = Some a"
  by (simp add: scoped_address_def split: option.split)

lemma weight_positive: "30 \<le> weight s"
  by (cases s) auto

end
