(* ===== verification/Role.thy ===== *)
theory Role
  imports Evidence
begin

text \<open>
  Role determination (\<open>src/src/topology/role.rs\<close>). The set of signals is the \<open>BTreeSet\<close> of the
  source. The total is a \<open>u32\<close> there; a device has at most ten plain signals and one capability
  per static label of the program, so the sum is far below its range and is kept as a \<^typ>\<open>nat\<close>.
\<close>

datatype device_role = Router | Switch | Layer3Switch | Host

definition INFRASTRUCTURE_THRESHOLD :: nat where
  "INFRASTRUCTURE_THRESHOLD = 70"

fun signal_routes :: "role_signal \<Rightarrow> bool" where
  "signal_routes role_signal.DefaultGateway = True"
| "signal_routes DhcpRouter = True"
| "signal_routes role_signal.RouterAdvertisement = True"
| "signal_routes InternetGatewayDevice = True"
| "signal_routes SnmpForwarding = True"
| "signal_routes ObservedForwarding = True"
| "signal_routes KernelNextHop = True"
| "signal_routes (LinkLayerCapability c) = str_contains c ''Router''"
| "signal_routes _ = False"

fun signal_bridges :: "role_signal \<Rightarrow> bool" where
  "signal_bridges SpanningTreeBridge = True"
| "signal_bridges (LinkLayerCapability c) = str_contains c ''Bridge''"
| "signal_bridges _ = False"

definition score_role :: "role_signal btree_set \<Rightarrow> device_role" where
  "score_role signals =
     (if signals = [] then Host
      else if sum_list (map weight signals) < INFRASTRUCTURE_THRESHOLD then Host
      else case (list_ex signal_routes signals, list_ex signal_bridges signals) of
             (True, True) \<Rightarrow> Layer3Switch
           | (True, False) \<Rightarrow> Router
           | (False, True) \<Rightarrow> Switch
           | (False, False) \<Rightarrow> Host)"

section \<open>What the score promises\<close>

text \<open>
  Roles ordered by what they claim: a host claims nothing, a layer-3 switch both that the device
  routes and that it bridges.
\<close>

fun role_claims :: "device_role \<Rightarrow> bool \<times> bool" where
  "role_claims Host = (False, False)"
| "role_claims Router = (True, False)"
| "role_claims Switch = (False, True)"
| "role_claims Layer3Switch = (True, True)"

definition role_le :: "device_role \<Rightarrow> device_role \<Rightarrow> bool" where
  "role_le a b \<longleftrightarrow> (fst (role_claims a) \<longrightarrow> fst (role_claims b)) \<and>
                 (snd (role_claims a) \<longrightarrow> snd (role_claims b))"

definition infrastructure :: "role_signal btree_set \<Rightarrow> bool" where
  "infrastructure s \<longleftrightarrow> INFRASTRUCTURE_THRESHOLD \<le> sum_list (map weight s)"

lemma role_claims_score:
  "role_claims (score_role s) =
     (infrastructure s \<and> list_ex signal_routes s, infrastructure s \<and> list_ex signal_bridges s)"
  by (auto simp: score_role_def infrastructure_def INFRASTRUCTURE_THRESHOLD_def split: bool.split)

lemma sum_list_weight_mono:
  assumes "distinct s" and "distinct t" and "set s \<subseteq> set t"
  shows "sum_list (map weight s) \<le> sum_list (map weight t)"
  using assms by (simp add: sum_list_distinct_conv_sum_set sum_mono2)

lemma infrastructure_mono:
  "distinct s \<Longrightarrow> distinct t \<Longrightarrow> set s \<subseteq> set t \<Longrightarrow> infrastructure s \<Longrightarrow> infrastructure t"
  using sum_list_weight_mono [of s t] by (simp add: infrastructure_def)

lemma list_ex_mono_set: "set s \<subseteq> set t \<Longrightarrow> list_ex P s \<Longrightarrow> list_ex P t"
  by (auto simp: list_ex_iff)

text \<open>
  Role determination is monotone: a device that shows more signals never loses a role, it
  may only gain the claim to route or to bridge.
\<close>

theorem more_signals_never_demote:
  assumes "distinct s" and "distinct t" and "set s \<subseteq> set t"
  shows "role_le (score_role s) (score_role t)"
  using infrastructure_mono [OF assms] list_ex_mono_set [OF assms(3)]
  by (auto simp: role_le_def role_claims_score)

theorem more_signals_never_demote_witness:
  "role_le (score_role [DhcpRouter]) (score_role [DhcpRouter, SpanningTreeBridge])"
  by (rule more_signals_never_demote) simp_all

text \<open>
  A table of routes received from a device weighs as much as its own SNMP answer, yet alone it
  leaves the device a host: the signal is not among those that route.
\<close>

lemma rip_advertiser_is_a_host:
  "weight RipRouteAdvertisement \<ge> INFRASTRUCTURE_THRESHOLD"
  "score_role [RipRouteAdvertisement] = Host"
  by (simp_all add: INFRASTRUCTURE_THRESHOLD_def score_role_def)

end
