(* ===== verification/Realm.thy ===== *)
theory Realm
  imports Evidence
begin

text \<open>
  Observation domains (\<open>src/src/topology/realm.rs\<close>): an identifier is unique only inside the
  domain that observed it, so a peer's ambiguous identifiers are qualified with the peer and its
  vantage before they name anything.
\<close>

datatype realm = Local | Peer string string

definition realm_of :: "peer_origin option \<Rightarrow> realm" where
  "realm_of origin =
     (case origin of None \<Rightarrow> Local | Some p \<Rightarrow> Peer (po_peer p) (po_vantage p))"

fun is_local :: "realm \<Rightarrow> bool" where
  "is_local Local = True"
| "is_local (Peer p v) = False"

fun suffix :: "realm \<Rightarrow> string" where
  "suffix Local = []"
| "suffix (Peer peer vantage) = ''@'' @ peer @ ''/'' @ vantage"

definition split_qualified_zone :: "string \<Rightarrow> string option \<times> realm" where
  "split_qualified_zone zone =
     (case split_once CHR ''@'' zone of
        None \<Rightarrow> (if zone = [] then None else Some zone, Local)
      | Some (base, qualifier) \<Rightarrow>
          (case split_once CHR ''/'' qualifier of
             None \<Rightarrow> (Some zone, Local)
           | Some (peer, vantage) \<Rightarrow>
               (if base = [] then None else Some base, Peer peer vantage)))"

fun realm_of_key :: "device_key \<Rightarrow> realm" where
  "realm_of_key (ScopedAddress a zone) = snd (split_qualified_zone zone)"
| "realm_of_key (Mac mac) = snd (split_qualified_zone mac)"
| "realm_of_key (Address a) = Local"

section \<open>Which identifiers are unique everywhere\<close>

text \<open>\<open>net::endpoint::is_link_local\<close>.\<close>

definition is_link_local6 :: "128 word \<Rightarrow> bool" where
  "is_link_local6 a \<longleftrightarrow> segment6 0 a AND 0xFFC0 = 0xFE80"

fun is_globally_unique_address :: "ip_addr \<Rightarrow> bool" where
  "is_globally_unique_address (V4 a) =
     (\<not> is_private4 a \<and> \<not> is_link_local4 a \<and> \<not> is_loopback4 a \<and> \<not> is_unspecified4 a \<and>
      \<not> is_broadcast4 a \<and> \<not> (octet4 0 a = 100 \<and> 64 \<le> octet4 1 a \<and> octet4 1 a < 128))"
| "is_globally_unique_address (V6 a) =
     (\<not> is_link_local6 a \<and> segment6 0 a AND 0xFE00 \<noteq> 0xFC00 \<and> \<not> is_loopback6 a \<and>
      \<not> is_unspecified6 a \<and> \<not> is_multicast6 a)"

definition is_globally_unique_prefix :: "ip_net \<Rightarrow> bool" where
  "is_globally_unique_prefix prefix = is_globally_unique_address (net_addr prefix)"

text \<open>The locally administered bit of the first octet decides; an unreadable one does not.\<close>

definition is_globally_unique_mac :: "string \<Rightarrow> bool" where
  "is_globally_unique_mac mac =
     (case split_on CHR '':'' mac of
        [] \<Rightarrow> False
      | first # _ \<Rightarrow>
          (case u8_from_str_radix_16 first of
             None \<Rightarrow> False
           | Some octet \<Rightarrow> octet AND 2 = 0))"

section \<open>Qualification\<close>

definition qualify_device :: "device_key \<Rightarrow> realm \<Rightarrow> device_key" where
  "qualify_device key realm =
     (if is_local realm then key
      else case key of
             Mac mac \<Rightarrow> if is_globally_unique_mac mac then Mac mac else Mac (mac @ suffix realm)
           | Address a \<Rightarrow>
               if is_globally_unique_address a then Address a
               else ScopedAddress a (suffix realm)
           | ScopedAddress a zone \<Rightarrow> ScopedAddress a (zone @ suffix realm))"

definition network_realm :: "ip_net \<Rightarrow> realm \<Rightarrow> realm" where
  "network_realm prefix realm = (if is_globally_unique_prefix prefix then Local else realm)"

definition address_realm :: "ip_addr \<Rightarrow> realm \<Rightarrow> realm" where
  "address_realm address realm = (if is_globally_unique_address address then Local else realm)"

definition scoped_realm :: "realm \<Rightarrow> realm" where
  "scoped_realm realm = realm"

section \<open>Reading a qualified identity back\<close>

text \<open>
  The hypotheses under which the qualifier can be read back: an interface name has no \<open>@\<close> in
  it, and a peer is named by the hexadecimal form of its key, which has no \<open>/\<close>.
\<close>

definition plain_zone :: "string \<Rightarrow> bool" where
  "plain_zone zone \<longleftrightarrow> CHR ''@'' \<notin> set zone"

fun plain_realm :: "realm \<Rightarrow> bool" where
  "plain_realm Local = True"
| "plain_realm (Peer peer vantage) = (CHR ''/'' \<notin> set peer)"

lemma split_qualified_suffix:
  assumes "plain_zone zone" and "plain_realm realm"
  shows "split_qualified_zone (zone @ suffix realm) = (if zone = [] then None else Some zone, realm)"
proof (cases realm)
  case Local
  from assms(1) have "split_once CHR ''@'' zone = None"
    by (simp add: split_once_None_iff plain_zone_def)
  with Local show ?thesis by (simp add: split_qualified_zone_def)
next
  case (Peer peer vantage)
  with assms show ?thesis
    by (simp add: split_qualified_zone_def plain_zone_def)
qed

lemma suffix_inject:
  assumes "plain_realm r" and "plain_realm s" and "plain_zone z" and "plain_zone w"
    and "z @ suffix r = w @ suffix s"
  shows "z = w \<and> r = s"
proof -
  have "(if z = [] then None else Some z, r) = (if w = [] then None else Some w, s)"
    using split_qualified_suffix [OF assms(3,1)] split_qualified_suffix [OF assms(4,2)] assms(5)
    by simp
  then show ?thesis by (auto split: if_splits)
qed

text \<open>An identity that carries no domain of its own yet, as a peer reports it.\<close>

fun plain_key :: "device_key \<Rightarrow> bool" where
  "plain_key (Mac m) = plain_zone m"
| "plain_key (Address a) = True"
| "plain_key (ScopedAddress a z) = plain_zone z"

fun globally_unique_key :: "device_key \<Rightarrow> bool" where
  "globally_unique_key (Mac m) = is_globally_unique_mac m"
| "globally_unique_key (Address a) = is_globally_unique_address a"
| "globally_unique_key (ScopedAddress a z) = False"

lemma qualify_local [simp]: "qualify_device key Local = key"
  by (simp add: qualify_device_def)

lemma qualify_globally_unique: "globally_unique_key key \<Longrightarrow> qualify_device key realm = key"
  by (cases key) (simp_all add: qualify_device_def)

lemma realm_of_qualified:
  assumes "plain_key key" and "plain_realm realm" and "\<not> globally_unique_key key"
  shows "realm_of_key (qualify_device key realm) = realm"
proof (cases realm)
  case Local
  with assms show ?thesis
    using split_qualified_suffix [of _ Local] by (cases key) auto
next
  case (Peer p v)
  then have "\<not> is_local realm" by simp
  then show ?thesis
    using assms split_qualified_suffix [of _ realm] split_qualified_suffix [of "[]" realm]
    by (cases key) (auto simp: qualify_device_def plain_zone_def)
qed

text \<open>A link-local identity always names a zone.\<close>

fun zoned_key :: "device_key \<Rightarrow> bool" where
  "zoned_key (ScopedAddress a z) = (z \<noteq> [])"
| "zoned_key _ = True"

text \<open>
  A peer's ambiguous identities never collide. The qualified form of an identity that is not
  globally unique determines the domain it was observed in and the identity itself, so two
  domains, or two devices of one domain, are never folded into one node.
\<close>

theorem qualified_identities_are_distinct:
  assumes "plain_key a" "plain_key b" "zoned_key a" "zoned_key b" "plain_realm r" "plain_realm s"
    and "\<not> is_local r" "\<not> is_local s"
    and "\<not> globally_unique_key a" "\<not> globally_unique_key b"
    and "(a, r) \<noteq> (b, s)"
  shows "qualify_device a r \<noteq> qualify_device b s"
proof
  assume eq: "qualify_device a r = qualify_device b s"
  have "r = s"
    using realm_of_qualified [OF assms(1,5,9)] realm_of_qualified [OF assms(2,6,10)] eq by simp
  moreover from this assms eq have "a = b"
    by (cases a; cases b) (auto simp: qualify_device_def)
  ultimately show False using assms(11) by simp
qed

theorem qualified_identities_are_distinct_witness:
  "qualify_device (Address (V4 0x0A000001)) (Peer ''ab'' ''site'') \<noteq>
   qualify_device (Address (V4 0x0A000001)) (Peer ''ab'' ''lab'')"
  by (rule qualified_identities_are_distinct) code_simp+

text \<open>
  The domain of a qualified identity can be read back from it, and its zone too: splitting
  the zone of a qualified link-local address returns the interface and the domain.
\<close>

theorem qualified_zone_round_trip:
  assumes "plain_zone zone" and "zone \<noteq> []" and "plain_realm realm"
  shows "split_qualified_zone (zone @ suffix realm) = (Some zone, realm)"
  using split_qualified_suffix [OF assms(1,3)] assms(2) by simp

theorem qualified_zone_round_trip_witness:
  "split_qualified_zone (''en0'' @ suffix (Peer ''ab'' ''site'')) = (Some ''en0'', Peer ''ab'' ''site'')"
  by (rule qualified_zone_round_trip) code_simp+

end
