(* ===== verification/Graph_Types.thy ===== *)
theory Graph_Types
  imports Role Realm
begin

text \<open>
  The data of the topology graph (\<open>src/src/topology/graph.rs\<close>): node identities with the order
  Rust derives for them, nodes, edges and the graph with its ownership tables; the operations of
  a single node; and the classification of a node for presentation.
\<close>

section \<open>Identities and kinds\<close>

datatype node_id =
    Interface string realm
  | Network ip_net realm
  | Vlan u16 realm
  | Device device_key
  | Service ip_addr u16 realm

datatype node_kind =
    Interface | Network | Vlan | Router | Switch | Layer3Switch | Host | Service | OpaqueBoundary

datatype relationship =
    AttachedTo | RoutesTo | GatewayFor | Advertises | CarriesNetwork | ForwardsToward
  | ObservedBehind | PossibleUplink | NatBoundary | ResolvedAs

fun kind_wire :: "node_kind \<Rightarrow> string" where
  "kind_wire node_kind.Interface = ''interface''"
| "kind_wire node_kind.Network = ''network''"
| "kind_wire node_kind.Vlan = ''vlan''"
| "kind_wire node_kind.Router = ''router''"
| "kind_wire node_kind.Switch = ''switch''"
| "kind_wire node_kind.Layer3Switch = ''layer3_switch''"
| "kind_wire node_kind.Host = ''host''"
| "kind_wire node_kind.Service = ''service''"
| "kind_wire node_kind.OpaqueBoundary = ''opaque_boundary''"

fun kind_label :: "node_kind \<Rightarrow> string" where
  "kind_label node_kind.Layer3Switch = ''layer-3 switch''"
| "kind_label node_kind.Interface = ''interface''"
| "kind_label node_kind.Network = ''network''"
| "kind_label node_kind.Vlan = ''vlan''"
| "kind_label node_kind.Router = ''router''"
| "kind_label node_kind.Switch = ''switch''"
| "kind_label node_kind.Host = ''host''"
| "kind_label node_kind.Service = ''service''"
| "kind_label node_kind.OpaqueBoundary = ''opaque boundary''"

fun relationship_label :: "relationship \<Rightarrow> string" where
  "relationship_label relationship.AttachedTo = ''attached to''"
| "relationship_label relationship.RoutesTo = ''routes to''"
| "relationship_label relationship.GatewayFor = ''gateway for''"
| "relationship_label Advertises = ''advertises''"
| "relationship_label CarriesNetwork = ''carries''"
| "relationship_label relationship.ForwardsToward = ''forwards toward''"
| "relationship_label relationship.ObservedBehind = ''observed behind''"
| "relationship_label PossibleUplink = ''possible uplink''"
| "relationship_label NatBoundary = ''NAT boundary''"
| "relationship_label relationship.ResolvedAs = ''resolved as''"

fun relationship_rank :: "relationship \<Rightarrow> int" where
  "relationship_rank relationship.AttachedTo = 0"
| "relationship_rank relationship.RoutesTo = 1"
| "relationship_rank relationship.GatewayFor = 2"
| "relationship_rank Advertises = 3"
| "relationship_rank CarriesNetwork = 4"
| "relationship_rank relationship.ForwardsToward = 5"
| "relationship_rank relationship.ObservedBehind = 6"
| "relationship_rank PossibleUplink = 7"
| "relationship_rank NatBoundary = 8"
| "relationship_rank relationship.ResolvedAs = 9"

fun enc_realm :: "realm \<Rightarrow> int list" where
  "enc_realm Local = [0]"
| "enc_realm (Peer p v) = 1 # enc_string p @ enc_string v"

fun enc_node_id :: "node_id \<Rightarrow> int list" where
  "enc_node_id (node_id.Interface n r) = 0 # enc_string n @ enc_realm r"
| "enc_node_id (node_id.Network n r) = 1 # enc_net n @ enc_realm r"
| "enc_node_id (node_id.Vlan v r) = 2 # enc_word v @ enc_realm r"
| "enc_node_id (Device k) = 3 # enc_key k"
| "enc_node_id (node_id.Service a p r) = 4 # enc_ip a @ enc_word p @ enc_realm r"

lemma relationship_rank_inject [simp]:
  "relationship_rank a = relationship_rank b \<longleftrightarrow> a = b"
  by (cases a; cases b) auto

lemma enc_realm_inject [simp]: "enc_realm a = enc_realm b \<longleftrightarrow> a = b"
  by (cases a; cases b) auto

lemma enc_node_id_inject [simp]: "enc_node_id a = enc_node_id b \<longleftrightarrow> a = b"
  by (cases a; cases b) auto

instantiation node_id :: linorder
begin

definition less_eq_node_id :: "node_id \<Rightarrow> node_id \<Rightarrow> bool" where
  "a \<le> b \<longleftrightarrow> enc_node_id a \<le> enc_node_id b"

definition less_node_id :: "node_id \<Rightarrow> node_id \<Rightarrow> bool" where
  "a < b \<longleftrightarrow> enc_node_id a < enc_node_id b"

instance
  by standard (auto simp: less_eq_node_id_def less_node_id_def order_less_le)

end

instantiation relationship :: linorder
begin

definition less_eq_relationship :: "relationship \<Rightarrow> relationship \<Rightarrow> bool" where
  "a \<le> b \<longleftrightarrow> relationship_rank a \<le> relationship_rank b"

definition less_relationship :: "relationship \<Rightarrow> relationship \<Rightarrow> bool" where
  "a < b \<longleftrightarrow> relationship_rank a < relationship_rank b"

instance
  by standard (auto simp: less_eq_relationship_def less_relationship_def order_less_le)

end

instantiation realm :: linorder
begin

definition less_eq_realm :: "realm \<Rightarrow> realm \<Rightarrow> bool" where
  "a \<le> b \<longleftrightarrow> enc_realm a \<le> enc_realm b"

definition less_realm :: "realm \<Rightarrow> realm \<Rightarrow> bool" where
  "a < b \<longleftrightarrow> enc_realm a < enc_realm b"

instance
  by standard (auto simp: less_eq_realm_def less_realm_def order_less_le)

end

text \<open>\<open>VlanRef\<close> and \<open>NetworkRef\<close>: a tag or a prefix with its domain, compared field by field.\<close>

type_synonym vlan_ref = "u16 \<times> realm"
type_synonym network_ref = "ip_net \<times> realm"

section \<open>Provenance, nodes and edges\<close>

record provenance =
  pv_source :: evidence_source
  pv_confidence :: confidence
  pv_vantage :: string
  pv_detail :: "string option"
  pv_origin :: "peer_origin option"

definition pv_is_remote :: "provenance \<Rightarrow> bool" where
  "pv_is_remote p \<longleftrightarrow> pv_origin p \<noteq> None"

definition with_note :: "provenance \<Rightarrow> string \<Rightarrow> provenance" where
  "with_note p note =
     p\<lparr>pv_detail := Some (case pv_detail p of Some e \<Rightarrow> e @ ''; '' @ note | None \<Rightarrow> note)\<rparr>"

definition from_evidence :: "topology_evidence \<Rightarrow> provenance" where
  "from_evidence ev =
     \<lparr>pv_source = ev_source ev, pv_confidence = ev_confidence ev, pv_vantage = ev_vantage ev,
      pv_detail = ev_detail ev, pv_origin = ev_origin ev\<rparr>"

record node =
  nd_id :: node_id
  nd_kind :: node_kind
  nd_addresses :: "ip_addr btree_set"
  nd_hostnames :: "string btree_set"
  nd_vendor :: "string option"
  nd_descriptions :: "string btree_set"
  nd_role_signals :: "string btree_set"
  nd_capabilities :: "string btree_set"
  nd_opaque_reason :: "string option"
  nd_confidence :: confidence
  nd_provenance :: "provenance list"
  nd_address_provenance :: "(ip_addr \<times> bool) list"
  nd_contested_addresses :: "ip_addr btree_set"
  nd_superseded_addresses :: "(ip_addr \<times> string) btree_set"

record edge =
  ed_from :: node_id
  ed_to :: node_id
  ed_relationship :: relationship
  ed_confidence :: confidence
  ed_provenance :: "provenance list"

type_synonym edge_key = "node_id \<times> node_id \<times> relationship"
type_synonym slot = "ip_addr \<times> string option \<times> realm"

record topology_graph =
  g_nodes :: "(node_id, node) btree_map"
  g_edges :: "(edge_key, edge) btree_map"
  g_address_owner :: "(slot, device_key) hash_map"
  g_address_binding :: "(slot, evidence_source) hash_map"
  g_contested :: "(slot, device_key btree_set) hash_map"
  g_vlans_without_prefix :: "vlan_ref btree_set"
  g_egress_path :: "(u8, node_id) btree_map"
  g_role_weights :: "(node_id, role_signal btree_set) hash_map"

definition graph_new :: topology_graph where
  "graph_new =
     \<lparr>g_nodes = [], g_edges = [], g_address_owner = [], g_address_binding = [],
      g_contested = [], g_vlans_without_prefix = [], g_egress_path = [], g_role_weights = []\<rparr>"

section \<open>Operations on one node\<close>

definition node_new :: "node_id \<Rightarrow> node_kind \<Rightarrow> confidence \<Rightarrow> node" where
  "node_new nid kind conf =
     \<lparr>nd_id = nid, nd_kind = kind, nd_addresses = [], nd_hostnames = [], nd_vendor = None,
      nd_descriptions = [], nd_role_signals = [], nd_capabilities = [],
      nd_opaque_reason = None, nd_confidence = conf, nd_provenance = [],
      nd_address_provenance = [], nd_contested_addresses = [], nd_superseded_addresses = []\<rparr>"

definition supersede_address :: "ip_addr \<Rightarrow> string \<Rightarrow> node \<Rightarrow> node" where
  "supersede_address address holder n =
     n\<lparr>nd_addresses := remove1 address (nd_addresses n),
       nd_address_provenance := filter (\<lambda>(a, _). a \<noteq> address) (nd_address_provenance n),
       nd_superseded_addresses := insort_insert (address, holder) (nd_superseded_addresses n)\<rparr>"

text \<open>A local observation outranks a remote one: the flag only ever goes from remote to local.\<close>

fun note_in :: "ip_addr \<Rightarrow> bool \<Rightarrow> (ip_addr \<times> bool) list \<Rightarrow> (ip_addr \<times> bool) list" where
  "note_in address remote [] = [(address, remote)]"
| "note_in address remote ((a, was) # rest) =
     (if a = address then (a, was \<and> remote) # rest else (a, was) # note_in address remote rest)"

definition note_address :: "ip_addr \<Rightarrow> bool \<Rightarrow> node \<Rightarrow> node" where
  "note_address address remote n =
     n\<lparr>nd_address_provenance := note_in address remote (nd_address_provenance n)\<rparr>"

definition hold_address :: "ip_addr \<Rightarrow> bool \<Rightarrow> node \<Rightarrow> node" where
  "hold_address address remote n =
     note_address address remote (n\<lparr>nd_addresses := insort_insert address (nd_addresses n)\<rparr>)"

definition dispute_address :: "ip_addr \<Rightarrow> bool \<Rightarrow> node \<Rightarrow> node" where
  "dispute_address address remote n =
     (let m = hold_address address remote n
      in m\<lparr>nd_contested_addresses := insort_insert address (nd_contested_addresses m)\<rparr>)"

definition locally_observed_addresses :: "node \<Rightarrow> ip_addr btree_set" where
  "locally_observed_addresses n =
     bs_extend [] (map fst (filter (\<lambda>(_, remote). \<not> remote) (nd_address_provenance n)))"

definition locally_observed :: "node \<Rightarrow> bool" where
  "locally_observed n = list_ex (\<lambda>p. \<not> pv_is_remote p) (nd_provenance n)"

definition only_remote :: "node \<Rightarrow> bool" where
  "only_remote n \<longleftrightarrow> nd_provenance n \<noteq> [] \<and> list_all pv_is_remote (nd_provenance n)"

text \<open>\<open>sort\<close> and \<open>dedup\<close> of a vector.\<close>

definition sort_dedup :: "'a::linorder list \<Rightarrow> 'a list" where
  "sort_dedup xs = remdups_adj (sort xs)"

fun collect_some :: "'a option list \<Rightarrow> 'a list option" where
  "collect_some [] = Some []"
| "collect_some (None # xs) = None"
| "collect_some (Some x # xs) = map_option (\<lambda>ys. x # ys) (collect_some xs)"

text \<open>\<open>None\<close> where the display form of an origin panics.\<close>

definition peer_origins :: "node \<Rightarrow> string list option" where
  "peer_origins n =
     map_option sort_dedup
       (collect_some (map origin_short (List.map_filter pv_origin (nd_provenance n))))"

definition observations :: "node \<Rightarrow> string list option" where
  "observations n =
     map_option
       (\<lambda>origins. let seen = (if locally_observed n then [''local''] else [])
                  in fold (\<lambda>o' seen. if o' \<in> set seen then seen else seen @ [o']) origins seen)
       (peer_origins n)"

definition evidence_sources :: "node \<Rightarrow> string list" where
  "evidence_sources n = sort_dedup (map (\<lambda>p. source_label (pv_source p)) (nd_provenance n))"

definition stable_identifiers :: "node \<Rightarrow> string list" where
  "stable_identifiers n =
     sort_dedup
       (filter (\<lambda>text. list_ex (str_contains (to_ascii_lowercase text))
                 [''serial'', ''udn:'', ''uuid:'', ''engine id'', ''enginied'', ''fingerprint'',
                  ''chassis id''])
          (nd_descriptions n))"

section \<open>Presentation categories\<close>

datatype device_category =
    OpaqueBoundary | Router | Switch | Layer3Switch | ForwardingInterface | AiSystem | Host

fun category_label :: "device_category \<Rightarrow> string" where
  "category_label device_category.OpaqueBoundary = ''opaque boundary''"
| "category_label device_category.Router = ''router''"
| "category_label device_category.Switch = ''switch''"
| "category_label device_category.Layer3Switch = ''layer-3 switch (bridges and routes)''"
| "category_label ForwardingInterface = ''forwarding interface (ownership unknown)''"
| "category_label AiSystem = ''AI system''"
| "category_label device_category.Host = ''host''"

definition forwards_traffic :: "node \<Rightarrow> bool" where
  "forwards_traffic n = list_ex (\<lambda>s. s = describe_signal ObservedForwarding) (nd_role_signals n)"

definition AI_CAPABILITY_LABELS :: "string list" where
  "AI_CAPABILITY_LABELS = [''AI runtime'', ''AI agent'', ''MCP server'']"

definition has_confirmed_ai :: "node \<Rightarrow> bool" where
  "has_confirmed_ai n =
     list_ex (\<lambda>c. list_ex (starts_with c) AI_CAPABILITY_LABELS) (nd_capabilities n)"

definition categorize :: "node \<Rightarrow> device_category option" where
  "categorize n =
     (case nd_kind n of
        node_kind.OpaqueBoundary \<Rightarrow> Some device_category.OpaqueBoundary
      | node_kind.Router \<Rightarrow> Some device_category.Router
      | node_kind.Switch \<Rightarrow> Some device_category.Switch
      | node_kind.Layer3Switch \<Rightarrow> Some device_category.Layer3Switch
      | node_kind.Host \<Rightarrow>
          Some (if forwards_traffic n then ForwardingInterface
                else if has_confirmed_ai n then AiSystem
                else device_category.Host)
      | node_kind.Interface \<Rightarrow> None
      | node_kind.Network \<Rightarrow> None
      | node_kind.Vlan \<Rightarrow> None
      | node_kind.Service \<Rightarrow> None)"

end
