(* ===== verification/Graph.thy ===== *)
theory Graph
  imports Graph_Types
begin

text \<open>
  The operations of the topology graph (\<open>src/src/topology/graph.rs\<close>): folding one piece of
  evidence into the graph (\<open>absorb\<close>, one definition per kind of fact), folding address-keyed
  identities into the hardware identity that owns the address (\<open>merge_address_identities\<close>), and
  assigning roles (\<open>finalize_roles\<close>). Each takes the graph and returns the updated one.
\<close>

section \<open>Networks worth a node, addresses worth a query\<close>

fun is_topology_network :: "ip_net \<Rightarrow> bool" where
  "is_topology_network (V4Net a n) =
     (n \<noteq> 0 \<and> \<not> is_loopback4 a \<and> \<not> is_link_local4 a \<and> \<not> is_multicast4 a \<and> \<not> is_unspecified4 a)"
| "is_topology_network (V6Net a n) =
     (n \<noteq> 0 \<and> \<not> is_loopback6 a \<and> \<not> is_multicast6 a \<and> \<not> is_unspecified6 a \<and> \<not> is_link_local6 a)"

section \<open>Qualifying a fact\<close>

text \<open>
  Remote evidence has its device identities rewritten into the domain that observed them. The
  last equation is the source's \<open>other => other\<close>.
\<close>

fun qualify_remote :: "realm \<Rightarrow> fact \<Rightarrow> fact" where
  "qualify_remote r (DeviceAddress d a) = DeviceAddress (qualify_device d r) a"
| "qualify_remote r (DeviceHostname d h) = DeviceHostname (qualify_device d r) h"
| "qualify_remote r (DeviceVendor d v) = DeviceVendor (qualify_device d r) v"
| "qualify_remote r (DeviceDescription d t) = DeviceDescription (qualify_device d r) t"
| "qualify_remote r (DeviceRoleSignal d s) = DeviceRoleSignal (qualify_device d r) s"
| "qualify_remote r (DeviceCapability d c t) = DeviceCapability (qualify_device d r) c t"
| "qualify_remote r (fact.GatewayFor d n) = fact.GatewayFor (qualify_device d r) n"
| "qualify_remote r (fact.RoutesTo d n h) = fact.RoutesTo (qualify_device d r) n h"
| "qualify_remote r (VlanNetwork v n) = VlanNetwork v n"
| "qualify_remote r (fact.AttachedTo d n) = fact.AttachedTo (qualify_device d r) n"
| "qualify_remote r (fact.ObservedBehind d v) =
     fact.ObservedBehind (qualify_device d r) (qualify_device v r)"
| "qualify_remote r (fact.OpaqueBoundary d w) = fact.OpaqueBoundary (qualify_device d r) w"
| "qualify_remote r (BridgeLink b t p) = BridgeLink b t p"
| "qualify_remote r other = other"

definition qualify_fact :: "fact \<Rightarrow> realm \<Rightarrow> fact" where
  "qualify_fact f realm = (if is_local realm then f else qualify_remote realm f)"

text \<open>
  The hardware address inside a spanning-tree identifier: six colon-separated pairs of hex
  digits after the first dot, or nothing.
\<close>

definition bridge_identity :: "string \<Rightarrow> device_key option" where
  "bridge_identity bridge_id =
     (case split_once CHR ''.'' bridge_id of
        None \<Rightarrow> None
      | Some (_, mac) \<Rightarrow>
          (let octets = split_on CHR '':'' mac
           in if length octets \<noteq> 6 \<or>
                 \<not> list_all (\<lambda>o'. length o' = 2 \<and> list_all is_ascii_hexdigit o') octets
              then None
              else Some (device_key_mac mac)))"

section \<open>Creating and updating nodes and edges\<close>

definition raise_confidence :: "confidence \<Rightarrow> confidence \<Rightarrow> confidence" where
  "raise_confidence c old = (if old < c then c else old)"

definition upsert ::
    "node_id \<Rightarrow> node_kind \<Rightarrow> confidence \<Rightarrow> provenance \<Rightarrow> topology_graph \<Rightarrow> topology_graph" where
  "upsert nid kind conf prov g =
     g\<lparr>g_nodes := bm_entry nid (node_new nid kind conf)
         (\<lambda>n. n\<lparr>nd_confidence := raise_confidence conf (nd_confidence n),
                nd_provenance := nd_provenance n @ [prov]\<rparr>)
         (g_nodes g)\<rparr>"

definition upsert_network ::
    "ip_net \<Rightarrow> realm \<Rightarrow> confidence \<Rightarrow> provenance \<Rightarrow> topology_graph \<Rightarrow> bool \<times> topology_graph" where
  "upsert_network prefix realm conf prov g =
     (if \<not> is_topology_network prefix then (False, g)
      else (True, upsert (node_id.Network prefix (network_realm prefix realm)) node_kind.Network
                    conf prov g))"

definition link ::
    "node_id \<Rightarrow> node_id \<Rightarrow> relationship \<Rightarrow> confidence \<Rightarrow> provenance \<Rightarrow> topology_graph
       \<Rightarrow> topology_graph" where
  "link from to rel conf prov g =
     g\<lparr>g_edges := bm_entry (from, to, rel)
         \<lparr>ed_from = from, ed_to = to, ed_relationship = rel, ed_confidence = conf,
          ed_provenance = []\<rparr>
         (\<lambda>e. e\<lparr>ed_confidence := raise_confidence conf (ed_confidence e),
                ed_provenance := ed_provenance e @ [prov]\<rparr>)
         (g_edges g)\<rparr>"

text \<open>\<open>if let Some(node) = self.nodes.get_mut(&id)\<close> and a change to that node.\<close>

definition modify_node :: "node_id \<Rightarrow> (node \<Rightarrow> node) \<Rightarrow> topology_graph \<Rightarrow> topology_graph" where
  "modify_node nid f g = g\<lparr>g_nodes := bm_modify nid f (g_nodes g)\<rparr>"

section \<open>Resolving identities\<close>

definition owner_in_realm ::
    "topology_graph \<Rightarrow> ip_addr \<Rightarrow> string option \<Rightarrow> realm \<Rightarrow> device_key option" where
  "owner_in_realm g address zone realm =
     hm_get (g_address_owner g) (address, zone, address_realm address realm)"

definition zone_of :: "ip_addr \<Rightarrow> string \<Rightarrow> string option" where
  "zone_of address vantage =
     (if requires_zone address then Some (to_ascii_lowercase vantage) else None)"

definition owner_of ::
    "topology_graph \<Rightarrow> ip_addr \<Rightarrow> string \<Rightarrow> realm \<Rightarrow> device_key option" where
  "owner_of g address vantage realm = owner_in_realm g address (zone_of address vantage) realm"

text \<open>The zone an address identity resolves through: a qualified zone loses its domain.\<close>

fun key_zone :: "device_key \<Rightarrow> string option" where
  "key_zone (ScopedAddress a zone) = fst (split_qualified_zone zone)"
| "key_zone _ = None"

definition canonical_key ::
    "topology_graph \<Rightarrow> device_key \<Rightarrow> ip_addr option \<Rightarrow> realm \<Rightarrow> device_key" where
  "canonical_key g key address realm =
     (if is_mac key then key
      else case Option.bind (key_address key) (\<lambda>a. owner_in_realm g a (key_zone key) realm) of
             Some owner \<Rightarrow> owner
           | None \<Rightarrow>
               (case Option.bind address (\<lambda>a. owner_in_realm g a (key_zone key) realm) of
                  Some owner \<Rightarrow> owner
                | None \<Rightarrow> key))"

section \<open>Claims on an address\<close>

definition FRESHNESS_CONFIRMED :: nat where
  "FRESHNESS_CONFIRMED = 2"

definition binding_freshness :: "evidence_source \<Rightarrow> nat" where
  "binding_freshness s = (if s = ArpProbe \<or> s = NdpProbe then FRESHNESS_CONFIRMED else 1)"

datatype address_claim = Uncontested | Supersedes | Superseded | Refines | Refined | Contested

fun describe_key :: "device_key \<Rightarrow> string" where
  "describe_key (Mac mac) = mac"
| "describe_key (Address a) = ip_to_string a"
| "describe_key (ScopedAddress a zone) = ip_to_string a @ ''%'' @ zone"

definition resolve_claim ::
    "device_key option \<Rightarrow> evidence_source option \<Rightarrow> device_key \<Rightarrow> evidence_source
       \<Rightarrow> address_claim" where
  "resolve_claim held_by held_since key source =
     (case held_by of
        None \<Rightarrow> Uncontested
      | Some previous \<Rightarrow>
          if previous = key then Uncontested
          else if is_mac previous \<noteq> is_mac key then
            (if is_mac key then Refines else Refined)
          else
            let claim = binding_freshness source;
                held = (case held_since of None \<Rightarrow> 0 | Some s \<Rightarrow> binding_freshness s)
            in if held < claim then Supersedes
               else if claim < held then Superseded
               else if FRESHNESS_CONFIRMED \<le> claim then Contested
               else Superseded)"

definition address_slot :: "ip_addr \<Rightarrow> string \<Rightarrow> realm \<Rightarrow> slot" where
  "address_slot address vantage realm =
     (address, zone_of address vantage, address_realm address realm)"

text \<open>The holder takes the binding: the last step of an uncontested, newer or refining claim.\<close>

definition bind_address ::
    "slot \<Rightarrow> device_key \<Rightarrow> evidence_source \<Rightarrow> ip_addr \<Rightarrow> bool \<Rightarrow> topology_graph \<Rightarrow> topology_graph" where
  "bind_address sl key source address remote g =
     modify_node (Device key) (hold_address address remote)
       (g\<lparr>g_address_owner := hm_insert sl key (g_address_owner g),
          g_address_binding := hm_insert sl source (g_address_binding g)\<rparr>)"

text \<open>Ownership is withdrawn and both claimants keep the address.\<close>

definition contest_address ::
    "slot \<Rightarrow> device_key \<Rightarrow> device_key \<Rightarrow> ip_addr \<Rightarrow> bool \<Rightarrow> topology_graph \<Rightarrow> topology_graph" where
  "contest_address sl previous key address remote g =
     fold (\<lambda>claimant. modify_node (Device claimant) (dispute_address address remote)) [previous, key]
       (g\<lparr>g_address_owner := hm_remove sl (g_address_owner g),
          g_address_binding := hm_remove sl (g_address_binding g),
          g_contested := hm_entry sl [] (\<lambda>s. bs_extend s [previous, key]) (g_contested g)\<rparr>)"

definition apply_claim ::
    "slot \<Rightarrow> device_key option \<Rightarrow> address_claim \<Rightarrow> device_key \<Rightarrow> evidence_source \<Rightarrow> ip_addr \<Rightarrow> bool
       \<Rightarrow> topology_graph \<Rightarrow> topology_graph" where
  "apply_claim sl held_by resolution key source address remote g =
     (case resolution of
        Uncontested \<Rightarrow> bind_address sl key source address remote g
      | Refines \<Rightarrow> bind_address sl key source address remote g
      | Supersedes \<Rightarrow>
          (case held_by of
             None \<Rightarrow> bind_address sl key source address remote g
           | Some previous \<Rightarrow>
               bind_address sl key source address remote
                 (modify_node (Device previous) (supersede_address address (describe_key key)) g))
      | Superseded \<Rightarrow>
          (case held_by of
             None \<Rightarrow> g
           | Some previous \<Rightarrow>
               modify_node (Device key) (supersede_address address (describe_key previous)) g)
      | Refined \<Rightarrow> modify_node (Device key) (hold_address address remote) g
      | Contested \<Rightarrow>
          (case held_by of
             None \<Rightarrow> g
           | Some previous \<Rightarrow> contest_address sl previous key address remote g))"

definition absorb_device_address ::
    "topology_evidence \<Rightarrow> realm \<Rightarrow> device_key \<Rightarrow> ip_addr \<Rightarrow> topology_graph \<Rightarrow> topology_graph" where
  "absorb_device_address ev realm device address g0 =
     (let key = canonical_key g0 device (Some address) realm;
          g = upsert (Device key) node_kind.Host (ev_confidence ev) (from_evidence ev) g0;
          sl = address_slot address (ev_vantage ev) realm;
          remote = (\<not> is_local realm)
      in case hm_get (g_contested g) sl of
           Some claimants \<Rightarrow>
             modify_node (Device key) (dispute_address address remote)
               (g\<lparr>g_contested := hm_insert sl (insort_insert key claimants) (g_contested g)\<rparr>)
         | None \<Rightarrow>
             let held_by = hm_get (g_address_owner g) sl;
                 held_since = hm_get (g_address_binding g) sl
             in apply_claim sl held_by (resolve_claim held_by held_since key (ev_source ev))
                  key (ev_source ev) address remote g)"

section \<open>One definition per kind of fact\<close>

definition absorb_interface_network ::
    "topology_evidence \<Rightarrow> realm \<Rightarrow> string \<Rightarrow> ip_net \<Rightarrow> topology_graph \<Rightarrow> topology_graph" where
  "absorb_interface_network ev realm iface prefix g0 =
     (let prov = from_evidence ev; conf = ev_confidence ev;
          (ok, g) = upsert_network prefix realm conf prov g0;
          iface_id = node_id.Interface iface (scoped_realm realm)
      in if \<not> ok then g
         else link iface_id (node_id.Network prefix (network_realm prefix realm))
                relationship.AttachedTo conf prov
                (upsert iface_id node_kind.Interface conf prov g))"

definition absorb_vlan ::
    "topology_evidence \<Rightarrow> realm \<Rightarrow> u16 \<Rightarrow> topology_graph \<Rightarrow> topology_graph" where
  "absorb_vlan ev realm vid g0 =
     (let g = upsert (node_id.Vlan vid (scoped_realm realm)) node_kind.Vlan (ev_confidence ev)
                (from_evidence ev) g0
      in g\<lparr>g_vlans_without_prefix :=
             insort_insert (vid, scoped_realm realm) (g_vlans_without_prefix g)\<rparr>)"

definition absorb_vlan_network ::
    "topology_evidence \<Rightarrow> realm \<Rightarrow> u16 \<Rightarrow> ip_net \<Rightarrow> topology_graph \<Rightarrow> topology_graph" where
  "absorb_vlan_network ev realm vlan network g0 =
     (let prov = from_evidence ev; conf = ev_confidence ev;
          vlan_id = node_id.Vlan vlan (scoped_realm realm);
          network_id = node_id.Network network (network_realm network realm);
          g = link vlan_id network_id CarriesNetwork conf prov
                (upsert network_id node_kind.Network conf prov
                  (upsert vlan_id node_kind.Vlan conf prov g0))
      in g\<lparr>g_vlans_without_prefix :=
             remove1 (vlan, scoped_realm realm) (g_vlans_without_prefix g)\<rparr>)"

text \<open>Facts that only add to a device: create it if needed, then change the node.\<close>

definition absorb_device ::
    "topology_evidence \<Rightarrow> realm \<Rightarrow> device_key \<Rightarrow> (node \<Rightarrow> node) \<Rightarrow> topology_graph \<Rightarrow> topology_graph" where
  "absorb_device ev realm device f g =
     (let nid = Device (canonical_key g device None realm)
      in modify_node nid f
           (upsert nid node_kind.Host (ev_confidence ev) (from_evidence ev) g))"

definition add_hostname :: "string \<Rightarrow> node \<Rightarrow> node" where
  "add_hostname h n = n\<lparr>nd_hostnames := insort_insert h (nd_hostnames n)\<rparr>"

definition add_description :: "string \<Rightarrow> node \<Rightarrow> node" where
  "add_description t n = n\<lparr>nd_descriptions := insort_insert t (nd_descriptions n)\<rparr>"

definition add_capability :: "capability \<Rightarrow> string option \<Rightarrow> node \<Rightarrow> node" where
  "add_capability c detail n =
     n\<lparr>nd_capabilities := insort_insert
         (case detail of Some d \<Rightarrow> capability_label c @ '' ('' @ d @ '')''
                       | None \<Rightarrow> capability_label c)
         (nd_capabilities n)\<rparr>"

text \<open>A peer may fill in a vendor or a boundary, never replace one established here.\<close>

definition set_vendor :: "bool \<Rightarrow> string \<Rightarrow> node \<Rightarrow> node" where
  "set_vendor remote vendor n =
     (let established_locally = nd_vendor n \<noteq> None \<and> locally_observed n
      in if remote \<and> established_locally then n else n\<lparr>nd_vendor := Some vendor\<rparr>)"

definition set_opaque :: "bool \<Rightarrow> string \<Rightarrow> node \<Rightarrow> node" where
  "set_opaque remote why n =
     (let established_locally = nd_opaque_reason n \<noteq> None \<and> locally_observed n
      in if remote \<and> established_locally then n else n\<lparr>nd_opaque_reason := Some why\<rparr>)"

definition absorb_role_signal ::
    "topology_evidence \<Rightarrow> realm \<Rightarrow> device_key \<Rightarrow> role_signal \<Rightarrow> topology_graph \<Rightarrow> topology_graph" where
  "absorb_role_signal ev realm device signal g0 =
     (let nid = Device (canonical_key g0 device None realm);
          g = modify_node nid
                (\<lambda>n. n\<lparr>nd_role_signals := insort_insert (describe_signal signal) (nd_role_signals n)\<rparr>)
                (upsert nid node_kind.Host (ev_confidence ev) (from_evidence ev) g0)
      in g\<lparr>g_role_weights := hm_entry nid [] (insort_insert signal) (g_role_weights g)\<rparr>)"

text \<open>\<open>GatewayFor\<close>, \<open>RoutesTo\<close> and \<open>AttachedTo\<close>: the device, then the network, then the edge.\<close>

definition absorb_device_network ::
    "topology_evidence \<Rightarrow> realm \<Rightarrow> device_key \<Rightarrow> ip_net \<Rightarrow> relationship \<Rightarrow> topology_graph
       \<Rightarrow> bool \<times> topology_graph" where
  "absorb_device_network ev realm device network rel g0 =
     (let prov = from_evidence ev; conf = ev_confidence ev;
          dev_id = Device (canonical_key g0 device None realm);
          (ok, g) = upsert_network network realm conf prov
                      (upsert dev_id node_kind.Host conf prov g0)
      in if \<not> ok then (False, g)
         else (True, link dev_id (node_id.Network network (network_realm network realm)) rel
                       conf prov g))"

definition absorb_routes_to ::
    "topology_evidence \<Rightarrow> realm \<Rightarrow> device_key \<Rightarrow> ip_net \<Rightarrow> ip_addr option \<Rightarrow> topology_graph
       \<Rightarrow> topology_graph" where
  "absorb_routes_to ev realm device network next_hop g0 =
     (let (ok, g) = absorb_device_network ev realm device network relationship.RoutesTo g0
      in if \<not> ok then g
         else case next_hop of
                None \<Rightarrow> g
              | Some hop \<Rightarrow>
                  upsert (Device (canonical_key g (Address hop) (Some hop) realm)) node_kind.Host
                    (ev_confidence ev) (from_evidence ev) g)"

definition port_detail :: "string option \<Rightarrow> provenance \<Rightarrow> provenance" where
  "port_detail port p =
     (case port of
        None \<Rightarrow> p
      | Some port \<Rightarrow>
          p\<lparr>pv_detail := Some (case pv_detail p of
                                Some d \<Rightarrow> d @ '' (port '' @ port @ '')''
                              | None \<Rightarrow> ''port '' @ port)\<rparr>)"

definition absorb_bridge_link ::
    "topology_evidence \<Rightarrow> realm \<Rightarrow> string \<Rightarrow> string \<Rightarrow> string option \<Rightarrow> topology_graph
       \<Rightarrow> topology_graph" where
  "absorb_bridge_link ev realm bridge_id root_id port g0 =
     (case (bridge_identity bridge_id, bridge_identity root_id) of
        (Some bridge_key, Some root_key) \<Rightarrow>
          (let prov = from_evidence ev; conf = ev_confidence ev;
               bridge = Device (qualify_device bridge_key realm);
               root = Device (qualify_device root_key realm);
               g = upsert root node_kind.Switch conf prov
                     (upsert bridge node_kind.Switch conf prov g0)
           in if bridge \<noteq> root
              then link bridge root PossibleUplink conf (port_detail port prov) g
              else g)
      | _ \<Rightarrow> g0)"

definition hop_note :: "u8 \<Rightarrow> ip_addr \<Rightarrow> string \<Rightarrow> string" where
  "hop_note distance toward vantage =
     ''hop '' @ decimal (uint distance) @ '' toward '' @ ip_to_string toward @ '' from '' @ vantage"

definition absorb_forwards_toward ::
    "topology_evidence \<Rightarrow> realm \<Rightarrow> device_key \<Rightarrow> ip_addr \<Rightarrow> u8 \<Rightarrow> device_key option
       \<Rightarrow> topology_graph \<Rightarrow> topology_graph" where
  "absorb_forwards_toward ev realm device toward distance previous g0 =
     (let prov = from_evidence ev; conf = ev_confidence ev;
          nid = Device (canonical_key g0 device None realm);
          g1 = upsert nid node_kind.Host conf prov g0;
          g = g1\<lparr>g_egress_path := bm_insert distance nid (g_egress_path g1)\<rparr>
      in case previous of
           None \<Rightarrow> g
         | Some previous \<Rightarrow>
             (let from = Device (canonical_key g previous None realm)
              in if from \<noteq> nid
                 then link from nid relationship.ForwardsToward conf
                        (with_note prov (hop_note distance toward (ev_vantage ev))) g
                 else g))"

definition absorb_observed_behind ::
    "topology_evidence \<Rightarrow> realm \<Rightarrow> device_key \<Rightarrow> device_key \<Rightarrow> topology_graph \<Rightarrow> topology_graph" where
  "absorb_observed_behind ev realm device via g =
     (let prov = from_evidence ev; conf = ev_confidence ev;
          dev_id = Device (canonical_key g device None realm);
          via_id = Device (canonical_key g via None realm)
      in link dev_id via_id relationship.ObservedBehind conf prov
           (upsert via_id node_kind.Host conf prov (upsert dev_id node_kind.Host conf prov g)))"

definition absorb_service ::
    "topology_evidence \<Rightarrow> realm \<Rightarrow> ip_addr \<Rightarrow> u16 \<Rightarrow> string \<Rightarrow> string option \<Rightarrow> topology_graph
       \<Rightarrow> topology_graph" where
  "absorb_service ev realm address port protocol detail g0 =
     (let prov = from_evidence ev; conf = ev_confidence ev;
          nid = node_id.Service address port (address_realm address realm);
          text = decimal (uint port) @ ''/'' @ protocol @
                 (case detail of Some d \<Rightarrow> '' '' @ d | None \<Rightarrow> []);
          g = modify_node nid (add_description text) (upsert nid node_kind.Service conf prov g0)
      in case owner_of g address (ev_vantage ev) realm of
           None \<Rightarrow> g
         | Some owner \<Rightarrow> link (Device owner) nid Advertises conf prov g)"

definition absorb_resolved_as ::
    "topology_evidence \<Rightarrow> realm \<Rightarrow> string \<Rightarrow> ip_addr \<Rightarrow> topology_graph \<Rightarrow> topology_graph" where
  "absorb_resolved_as ev realm name address g =
     (case owner_of g address (ev_vantage ev) realm of
        None \<Rightarrow> g
      | Some owner \<Rightarrow>
          modify_node (Device owner) (add_hostname name)
            (upsert (Device owner) node_kind.Host (ev_confidence ev) (from_evidence ev) g))"

section \<open>Absorbing evidence\<close>

definition absorb_fact ::
    "topology_evidence \<Rightarrow> realm \<Rightarrow> fact \<Rightarrow> topology_graph \<Rightarrow> topology_graph" where
  "absorb_fact ev realm f g =
     (case f of
        fact.Network prefix \<Rightarrow>
          snd (upsert_network prefix realm (ev_confidence ev) (from_evidence ev) g)
      | InterfaceNetwork iface prefix \<Rightarrow> absorb_interface_network ev realm iface prefix g
      | fact.Vlan vid \<Rightarrow> absorb_vlan ev realm vid g
      | VlanNetwork vlan network \<Rightarrow> absorb_vlan_network ev realm vlan network g
      | DeviceAddress device address \<Rightarrow> absorb_device_address ev realm device address g
      | DeviceHostname device hostname \<Rightarrow> absorb_device ev realm device (add_hostname hostname) g
      | DeviceVendor device vendor \<Rightarrow>
          absorb_device ev realm device (set_vendor (is_remote ev) vendor) g
      | DeviceDescription device text \<Rightarrow> absorb_device ev realm device (add_description text) g
      | DeviceRoleSignal device signal \<Rightarrow> absorb_role_signal ev realm device signal g
      | DeviceCapability device c detail \<Rightarrow> absorb_device ev realm device (add_capability c detail) g
      | fact.GatewayFor device network \<Rightarrow>
          snd (absorb_device_network ev realm device network relationship.GatewayFor g)
      | fact.RoutesTo device network next_hop \<Rightarrow>
          absorb_routes_to ev realm device network next_hop g
      | fact.AttachedTo device network \<Rightarrow>
          snd (absorb_device_network ev realm device network relationship.AttachedTo g)
      | BridgeLink bridge_id root_id port \<Rightarrow> absorb_bridge_link ev realm bridge_id root_id port g
      | fact.ForwardsToward device toward distance previous \<Rightarrow>
          absorb_forwards_toward ev realm device toward distance previous g
      | fact.ObservedBehind device via \<Rightarrow> absorb_observed_behind ev realm device via g
      | fact.OpaqueBoundary device why \<Rightarrow>
          absorb_device ev realm device (set_opaque (is_remote ev) why) g
      | fact.Service address port protocol detail \<Rightarrow>
          absorb_service ev realm address port protocol detail g
      | fact.ResolvedAs name address \<Rightarrow> absorb_resolved_as ev realm name address g)"

definition absorb :: "topology_evidence \<Rightarrow> topology_graph \<Rightarrow> topology_graph" where
  "absorb ev g =
     (let realm = realm_of (ev_origin ev)
      in absorb_fact ev realm (qualify_fact (ev_fact ev) realm) g)"

section \<open>Folding address identities into hardware identities\<close>

text \<open>The merges the current graph calls for, in the order of the node keys.\<close>

definition merge_target :: "topology_graph \<Rightarrow> node_id \<Rightarrow> node_id option" where
  "merge_target g nid =
     (case nid of
        Device key \<Rightarrow>
          (if is_mac key then None
           else case key_address key of
                  None \<Rightarrow> None
                | Some address \<Rightarrow>
                    (case hm_get (g_address_owner g)
                            (address, key_zone key, address_realm address (realm_of_key key)) of
                       Some owner \<Rightarrow> if is_mac owner then Some (Device owner) else None
                     | None \<Rightarrow> None))
      | _ \<Rightarrow> None)"

definition pending_merges :: "topology_graph \<Rightarrow> (node_id \<times> node_id) list" where
  "pending_merges g =
     List.map_filter (\<lambda>nid. map_option (\<lambda>to. (nid, to)) (merge_target g nid)) (map fst (g_nodes g))"

definition absorb_node :: "node \<Rightarrow> node \<Rightarrow> node" where
  "absorb_node source target =
     target\<lparr>
       nd_addresses := bs_extend (nd_addresses target) (nd_addresses source),
       nd_address_provenance :=
         fold (\<lambda>(a, remote). note_in a remote) (nd_address_provenance source)
           (nd_address_provenance target),
       nd_hostnames := bs_extend (nd_hostnames target) (nd_hostnames source),
       nd_descriptions := bs_extend (nd_descriptions target) (nd_descriptions source),
       nd_role_signals := bs_extend (nd_role_signals target) (nd_role_signals source),
       nd_capabilities := bs_extend (nd_capabilities target) (nd_capabilities source),
       nd_provenance := nd_provenance target @ nd_provenance source,
       nd_vendor := (if nd_vendor target = None then nd_vendor source else nd_vendor target),
       nd_opaque_reason :=
         (if nd_opaque_reason target = None then nd_opaque_reason source
          else nd_opaque_reason target),
       nd_confidence := raise_confidence (nd_confidence source) (nd_confidence target)\<rparr>"

definition repoint :: "node_id \<Rightarrow> node_id \<Rightarrow> edge \<Rightarrow> edge" where
  "repoint from to e =
     e\<lparr>ed_from := (if ed_from e = from then to else ed_from e),
       ed_to := (if ed_to e = from then to else ed_to e)\<rparr>"

definition repoint_edge ::
    "node_id \<Rightarrow> node_id \<Rightarrow> edge_key \<Rightarrow> (edge_key, edge) btree_map \<Rightarrow> (edge_key, edge) btree_map" where
  "repoint_edge from to key edges =
     (case bm_get edges key of
        None \<Rightarrow> edges
      | Some e0 \<Rightarrow>
          (let e = repoint from to e0; rest = bm_remove key edges;
               key' = (ed_from e, ed_to e, ed_relationship e)
           in if ed_from e = ed_to e then rest
              else case bm_get rest key' of
                     Some existing \<Rightarrow>
                       bm_insert key'
                         (existing\<lparr>ed_provenance := ed_provenance existing @ ed_provenance e\<rparr>) rest
                   | None \<Rightarrow> bm_insert key' e rest))"

definition repoint_edges ::
    "node_id \<Rightarrow> node_id \<Rightarrow> (edge_key, edge) btree_map \<Rightarrow> (edge_key, edge) btree_map" where
  "repoint_edges from to edges =
     fold (repoint_edge from to)
       (filter (\<lambda>(f, t, _). f = from \<or> t = from) (map fst edges)) edges"

definition merge_weights ::
    "node_id \<Rightarrow> node_id \<Rightarrow> (node_id, role_signal btree_set) hash_map
       \<Rightarrow> (node_id, role_signal btree_set) hash_map" where
  "merge_weights from to weights =
     (case hm_get weights from of
        None \<Rightarrow> weights
      | Some signals \<Rightarrow>
          hm_entry to [] (\<lambda>s. bs_extend s signals) (hm_remove from weights))"

definition merge_one ::
    "node_id \<times> node_id \<Rightarrow> topology_graph \<times> (device_key \<times> device_key) list
       \<Rightarrow> topology_graph \<times> (device_key \<times> device_key) list" where
  "merge_one m st =
     (let (from, to) = m; (g, aliases) = st
      in if from = to \<or> bm_get (g_nodes g) to = None then st
         else case bm_get (g_nodes g) from of
                None \<Rightarrow> st
              | Some source \<Rightarrow>
                  (g\<lparr>g_nodes := bm_modify to (absorb_node source) (bm_remove from (g_nodes g)),
                     g_role_weights := merge_weights from to (g_role_weights g),
                     g_edges := repoint_edges from to (g_edges g)\<rparr>,
                   aliases @
                     (case (from, to) of
                        (Device absorbed, Device surviving) \<Rightarrow> [(absorbed, surviving)]
                      | _ \<Rightarrow> [])))"

definition merge_address_identities ::
    "topology_graph \<Rightarrow> topology_graph \<times> (device_key \<times> device_key) list" where
  "merge_address_identities g = fold merge_one (pending_merges g) (g, [])"

section \<open>Roles\<close>

definition role_kind :: "device_role \<Rightarrow> node_kind \<Rightarrow> node_kind" where
  "role_kind role old =
     (case role of
        device_role.Router \<Rightarrow> node_kind.Router
      | device_role.Switch \<Rightarrow> node_kind.Switch
      | device_role.Layer3Switch \<Rightarrow> node_kind.Layer3Switch
      | device_role.Host \<Rightarrow> old)"

definition assign_roles :: "topology_graph \<Rightarrow> topology_graph" where
  "assign_roles g =
     fold (\<lambda>(nid, role). modify_node nid (\<lambda>n. n\<lparr>nd_kind := role_kind role (nd_kind n)\<rparr>))
       (map (\<lambda>(nid, signals). (nid, score_role signals)) (g_role_weights g)) g"

definition mark_opaque :: "topology_graph \<Rightarrow> topology_graph" where
  "mark_opaque g =
     fold (\<lambda>nid. modify_node nid (\<lambda>n. n\<lparr>nd_kind := node_kind.OpaqueBoundary\<rparr>))
       (map nd_id (filter (\<lambda>n. nd_opaque_reason n \<noteq> None) (map snd (g_nodes g)))) g"

definition finalize_roles :: "topology_graph \<Rightarrow> topology_graph" where
  "finalize_roles g = mark_opaque (assign_roles (fst (merge_address_identities g)))"

end
