(* ===== verification/Graph_Inv.thy ===== *)
theory Graph_Inv
  imports Graph
begin

text \<open>
  The well-formedness invariant of the topology graph and its preservation by every operation.
  A node is filed under its own identity, its kind fits that identity, it has provenance, and its
  grade is the strongest grade of that provenance; an edge is filed under its endpoints and has
  provenance; an address has an owner exactly when it has a binding; and a disputed address has
  at least two claimants and no owner.
\<close>

section \<open>The invariant\<close>

fun kind_fits :: "node_id \<Rightarrow> node_kind \<Rightarrow> bool" where
  "kind_fits (node_id.Interface i r) k = (k = node_kind.Interface)"
| "kind_fits (node_id.Network p r) k = (k = node_kind.Network)"
| "kind_fits (node_id.Vlan v r) k = (k = node_kind.Vlan)"
| "kind_fits (node_id.Service a p r) k = (k = node_kind.Service)"
| "kind_fits (Device d) k =
     (k \<in> {node_kind.Router, node_kind.Switch, node_kind.Layer3Switch, node_kind.Host,
            node_kind.OpaqueBoundary})"

fun is_device :: "node_id \<Rightarrow> bool" where
  "is_device (Device d) = True"
| "is_device _ = False"

definition strongest :: "provenance list \<Rightarrow> confidence" where
  "strongest ps = Max (pv_confidence ` set ps)"

definition wf_node :: "node_id \<Rightarrow> node \<Rightarrow> bool" where
  "wf_node nid n \<longleftrightarrow> nd_id n = nid \<and> kind_fits nid (nd_kind n) \<and> nd_provenance n \<noteq> [] \<and>
     nd_confidence n = strongest (nd_provenance n) \<and>
     (nd_opaque_reason n \<noteq> None \<longrightarrow> is_device nid)"

definition wf_edge :: "edge_key \<Rightarrow> edge \<Rightarrow> bool" where
  "wf_edge key e \<longleftrightarrow> key = (ed_from e, ed_to e, ed_relationship e) \<and> ed_provenance e \<noteq> [] \<and>
     ed_confidence e \<in> pv_confidence ` set (ed_provenance e)"

definition wf_nodes :: "(node_id, node) btree_map \<Rightarrow> bool" where
  "wf_nodes = bm_all wf_node"

definition wf_edges :: "(edge_key, edge) btree_map \<Rightarrow> bool" where
  "wf_edges = bm_all wf_edge"

definition wf_owners ::
    "(slot, device_key) hash_map \<Rightarrow> (slot, evidence_source) hash_map
       \<Rightarrow> (slot, device_key btree_set) hash_map \<Rightarrow> bool" where
  "wf_owners own bind con \<longleftrightarrow> hm_ok own \<and> hm_ok bind \<and> hm_ok con \<and>
     dom (hm_get own) = dom (hm_get bind) \<and>
     (\<forall>sl c. hm_get con sl = Some c \<longrightarrow> hm_get own sl = None \<and> 2 \<le> card (set c))"

definition wf_weights :: "(node_id, role_signal btree_set) hash_map \<Rightarrow> bool" where
  "wf_weights m \<longleftrightarrow> hm_ok m \<and> (\<forall>k \<in> dom (hm_get m). is_device k) \<and>
     (\<forall>k s. hm_get m k = Some s \<longrightarrow> distinct s)"

definition wf_graph :: "topology_graph \<Rightarrow> bool" where
  "wf_graph g \<longleftrightarrow> wf_nodes (g_nodes g) \<and> wf_edges (g_edges g) \<and>
     wf_owners (g_address_owner g) (g_address_binding g) (g_contested g) \<and>
     wf_weights (g_role_weights g)"

lemma wf_graph_new: "wf_graph graph_new"
  by (simp add: wf_graph_def graph_new_def wf_nodes_def wf_edges_def wf_owners_def wf_weights_def)

section \<open>What each primitive leaves alone\<close>

lemma upsert_frame [simp, graph_frame]:
  "g_edges (upsert nid k c p g) = g_edges g"
  "g_address_owner (upsert nid k c p g) = g_address_owner g"
  "g_address_binding (upsert nid k c p g) = g_address_binding g"
  "g_contested (upsert nid k c p g) = g_contested g"
  "g_role_weights (upsert nid k c p g) = g_role_weights g"
  "g_egress_path (upsert nid k c p g) = g_egress_path g"
  "g_vlans_without_prefix (upsert nid k c p g) = g_vlans_without_prefix g"
  by (simp_all add: upsert_def)

lemma modify_node_frame [simp, graph_frame]:
  "g_edges (modify_node nid f g) = g_edges g"
  "g_address_owner (modify_node nid f g) = g_address_owner g"
  "g_address_binding (modify_node nid f g) = g_address_binding g"
  "g_contested (modify_node nid f g) = g_contested g"
  "g_role_weights (modify_node nid f g) = g_role_weights g"
  "g_egress_path (modify_node nid f g) = g_egress_path g"
  "g_vlans_without_prefix (modify_node nid f g) = g_vlans_without_prefix g"
  by (simp_all add: modify_node_def)

lemma link_frame [simp, graph_frame]:
  "g_nodes (link a b r c p g) = g_nodes g"
  "g_address_owner (link a b r c p g) = g_address_owner g"
  "g_address_binding (link a b r c p g) = g_address_binding g"
  "g_contested (link a b r c p g) = g_contested g"
  "g_role_weights (link a b r c p g) = g_role_weights g"
  "g_egress_path (link a b r c p g) = g_egress_path g"
  "g_vlans_without_prefix (link a b r c p g) = g_vlans_without_prefix g"
  by (simp_all add: link_def)

section \<open>Grades\<close>

lemma raise_confidence_max: "raise_confidence c old = max old c"
  by (auto simp: raise_confidence_def max_def)

lemma strongest_append:
  "ps \<noteq> [] \<Longrightarrow> qs \<noteq> [] \<Longrightarrow> strongest (ps @ qs) = max (strongest ps) (strongest qs)"
  by (simp add: strongest_def image_Un Max_Un)

lemma strongest_single [simp]: "strongest [p] = pv_confidence p"
  by (simp add: strongest_def)

lemma pv_confidence_from_evidence [simp]: "pv_confidence (from_evidence ev) = ev_confidence ev"
  by (simp add: from_evidence_def)

lemma pv_confidence_with_note [simp]: "pv_confidence (with_note p s) = pv_confidence p"
  by (simp add: with_note_def)

lemma pv_confidence_port_detail [simp]: "pv_confidence (port_detail s p) = pv_confidence p"
  by (simp add: port_detail_def split: option.split)

section \<open>The primitives keep the invariant\<close>

lemma wf_upsert:
  assumes "wf_graph g" and "kind_fits nid kind" and "pv_confidence prov = conf"
  shows "wf_graph (upsert nid kind conf prov g)"
proof -
  have "wf_nodes (g_nodes (upsert nid kind conf prov g))"
    unfolding upsert_def
    by (simp add: wf_nodes_def, rule bm_all_entry)
      (use assms in \<open>auto simp: wf_graph_def wf_nodes_def wf_node_def node_new_def raise_confidence_max
        strongest_append\<close>)
  with assms(1) show ?thesis by (simp add: wf_graph_def)
qed

lemma wf_modify_node:
  assumes "wf_graph g" and "\<And>n. wf_node nid n \<Longrightarrow> wf_node nid (f n)"
  shows "wf_graph (modify_node nid f g)"
proof -
  have "wf_nodes (g_nodes (modify_node nid f g))"
    unfolding modify_node_def using assms
    by (auto simp: wf_graph_def wf_nodes_def intro: bm_all_modify)
  with assms(1) show ?thesis by (simp add: wf_graph_def)
qed

lemma wf_link:
  assumes "wf_graph g" and "pv_confidence prov = conf"
  shows "wf_graph (link from to rel conf prov g)"
proof -
  have "wf_edges (g_edges (link from to rel conf prov g))"
    unfolding link_def
    by (simp add: wf_edges_def, rule bm_all_entry)
      (use assms in \<open>auto simp: wf_graph_def wf_edges_def wf_edge_def raise_confidence_def\<close>)
  with assms(1) show ?thesis by (simp add: wf_graph_def)
qed

lemma wf_upsert_network:
  assumes "wf_graph g" and "pv_confidence prov = conf"
  shows "wf_graph (snd (upsert_network prefix realm conf prov g))"
  using assms by (simp add: upsert_network_def wf_upsert)

text \<open>Changes to a node that leave the invariant's fields alone.\<close>

definition same_core :: "node \<Rightarrow> node \<Rightarrow> bool" where
  "same_core n m \<longleftrightarrow> nd_id m = nd_id n \<and> nd_kind m = nd_kind n \<and>
     nd_provenance m = nd_provenance n \<and> nd_confidence m = nd_confidence n \<and>
     nd_opaque_reason m = nd_opaque_reason n"

lemma same_core_wf: "same_core n m \<Longrightarrow> wf_node nid n \<Longrightarrow> wf_node nid m"
  by (simp add: same_core_def wf_node_def)

lemma same_core_ops [simp]:
  "same_core n (hold_address a r n)"
  "same_core n (dispute_address a r n)"
  "same_core n (supersede_address a h n)"
  "same_core n (add_hostname h n)"
  "same_core n (add_description t n)"
  "same_core n (add_capability c d n)"
  "same_core n (set_vendor b v n)"
  by (simp_all add: same_core_def hold_address_def note_address_def dispute_address_def
      supersede_address_def add_hostname_def add_description_def add_capability_def
      set_vendor_def Let_def)

lemma wf_modify_core:
  assumes "wf_graph g" and "\<And>n. same_core n (f n)"
  shows "wf_graph (modify_node nid f g)"
  using assms by (blast intro: wf_modify_node same_core_wf)

section \<open>Claims on an address keep the invariant\<close>

lemma wf_owners_insert:
  assumes "wf_owners own bind con" and "hm_get con sl = None"
  shows "wf_owners (hm_insert sl k own) (hm_insert sl s bind) con"
  using assms unfolding wf_owners_def update_conv'
  by (auto simp: hm_ok_laws simp del: split_paired_All)

lemma wf_owners_contest:
  assumes "wf_owners own bind con" and "hm_get con sl = None" and "a \<noteq> b"
  shows "wf_owners (hm_remove sl own) (hm_remove sl bind)
           (hm_entry sl [] (\<lambda>s. bs_extend s [a, b]) con)"
  using assms unfolding wf_owners_def delete_conv' hm_laws(1)
  by (auto simp: hm_ok_laws simp del: split_paired_All)

lemma wf_owners_join:
  assumes "wf_owners own bind con" and "hm_get con sl = Some c"
  shows "wf_owners own bind (hm_insert sl (insort_insert k c) con)"
proof -
  have "card (set c) \<le> card (set (insort_insert k c))"
    by (intro card_mono) (auto simp: set_insort_insert)
  moreover from assms have "2 \<le> card (set c)"
    unfolding wf_owners_def by blast
  ultimately have "2 \<le> card (set (insort_insert k c))" by (rule order_trans [rotated])
  with assms show ?thesis
    unfolding wf_owners_def update_conv'
    by (auto simp: hm_ok_laws simp del: split_paired_All)
qed

lemma wf_bind_address:
  assumes "wf_graph g" and "hm_get (g_contested g) sl = None"
  shows "wf_graph (bind_address sl key s a r g)"
  unfolding bind_address_def
  by (rule wf_modify_core) (use assms in \<open>simp_all add: wf_graph_def wf_owners_insert\<close>)

lemma wf_contest_address:
  assumes "wf_graph g" and "hm_get (g_contested g) sl = None" and "previous \<noteq> key"
  shows "wf_graph (contest_address sl previous key a r g)"
  unfolding contest_address_def fold_simps comp_apply id_apply
  by (intro wf_modify_core) (use assms in \<open>simp_all add: wf_graph_def wf_owners_contest\<close>)

lemma resolve_claim_contested:
  "resolve_claim held_by since key s = Contested \<Longrightarrow>
     \<exists>previous. held_by = Some previous \<and> previous \<noteq> key \<and> is_mac previous = is_mac key \<and>
       binding_freshness s = FRESHNESS_CONFIRMED \<and>
       (\<exists>t. since = Some t \<and> binding_freshness t = FRESHNESS_CONFIRMED)"
  by (auto simp: resolve_claim_def binding_freshness_def FRESHNESS_CONFIRMED_def Let_def
      split: option.splits if_splits)

lemma wf_apply_claim:
  assumes "wf_graph g" and "hm_get (g_contested g) sl = None"
  shows "wf_graph (apply_claim sl held_by (resolve_claim held_by since key s) key s a r g)"
proof (cases "resolve_claim held_by since key s")
  case Contested
  then obtain previous where "held_by = Some previous" "previous \<noteq> key"
    using resolve_claim_contested by blast
  with Contested assms show ?thesis
    by (simp add: apply_claim_def wf_contest_address)
qed (use assms in \<open>auto simp: apply_claim_def wf_modify_core wf_bind_address split: option.split\<close>)

lemma wf_absorb_device_address:
  assumes "wf_graph g"
  shows "wf_graph (absorb_device_address ev realm device address g)"
proof -
  let ?key = "canonical_key g device (Some address) realm"
  let ?g = "upsert (Device ?key) node_kind.Host (ev_confidence ev) (from_evidence ev) g"
  have wf: "wf_graph ?g" by (rule wf_upsert) (simp_all add: assms)
  have "wf_graph (modify_node (Device ?key) (dispute_address address r)
          (?g\<lparr>g_contested := hm_insert sl (insort_insert ?key c) (g_contested ?g)\<rparr>))"
    if "hm_get (g_contested g) sl = Some c" for sl c r
    by (rule wf_modify_core) (use wf that in \<open>simp_all add: wf_graph_def wf_owners_join\<close>)
  with wf show ?thesis
    by (auto simp: absorb_device_address_def Let_def wf_apply_claim split: option.split)
qed

section \<open>Every fact keeps the invariant\<close>

lemma wf_graph_irrelevant [simp]:
  "wf_graph (g\<lparr>g_vlans_without_prefix := vs\<rparr>) = wf_graph g"
  "wf_graph (g\<lparr>g_egress_path := es\<rparr>) = wf_graph g"
  by (simp_all add: wf_graph_def)

lemma wf_absorb_device:
  assumes "wf_graph g" and "\<And>n nid. is_device nid \<Longrightarrow> wf_node nid n \<Longrightarrow> wf_node nid (f n)"
  shows "wf_graph (absorb_device ev realm device f g)"
  unfolding absorb_device_def Let_def
  by (intro wf_modify_node wf_upsert) (simp_all add: assms)

lemma wf_absorb_device_core:
  "wf_graph g \<Longrightarrow> (\<And>n. same_core n (f n)) \<Longrightarrow> wf_graph (absorb_device ev realm device f g)"
  by (blast intro: wf_absorb_device same_core_wf)

lemma wf_set_opaque: "is_device nid \<Longrightarrow> wf_node nid n \<Longrightarrow> wf_node nid (set_opaque b why n)"
  by (simp add: wf_node_def set_opaque_def Let_def)

lemma wf_absorb_device_network:
  assumes "wf_graph g"
  shows "wf_graph (snd (absorb_device_network ev realm device network rel g))"
proof -
  have "wf_graph (snd (upsert_network network realm (ev_confidence ev) (from_evidence ev)
          (upsert (Device k) node_kind.Host (ev_confidence ev) (from_evidence ev) g)))" for k
    by (intro wf_upsert_network wf_upsert) (simp_all add: assms)
  then show ?thesis
    by (auto simp: absorb_device_network_def Let_def case_prod_unfold intro: wf_link)
qed

lemma wf_absorb_routes_to:
  assumes "wf_graph g"
  shows "wf_graph (absorb_routes_to ev realm device network hop g)"
  using wf_absorb_device_network [OF assms, of ev realm device network relationship.RoutesTo]
  by (auto simp: absorb_routes_to_def Let_def case_prod_unfold intro: wf_upsert split: option.split)

lemma wf_absorb_interface_network:
  assumes "wf_graph g"
  shows "wf_graph (absorb_interface_network ev realm iface prefix g)"
proof -
  have "wf_graph (snd (upsert_network prefix realm (ev_confidence ev) (from_evidence ev) g))"
    by (rule wf_upsert_network) (simp_all add: assms)
  then show ?thesis
    by (auto simp: absorb_interface_network_def Let_def case_prod_unfold intro!: wf_link wf_upsert)
qed

lemma wf_absorb_vlans:
  assumes "wf_graph g"
  shows "wf_graph (absorb_vlan ev realm vid g)"
    and "wf_graph (absorb_vlan_network ev realm vid net g)"
  using assms by (auto simp: absorb_vlan_def absorb_vlan_network_def Let_def
      intro!: wf_link wf_upsert)

lemma wf_weights_add:
  assumes "wf_weights m" and "is_device nid"
  shows "wf_weights (hm_entry nid [] (insort_insert s) m)"
  using assms unfolding wf_weights_def hm_laws(1)
  by (auto simp: hm_ok_laws distinct_insort_insert split: option.split if_splits)

lemma wf_absorb_role_signal:
  assumes "wf_graph g"
  shows "wf_graph (absorb_role_signal ev realm device signal g)"
proof -
  let ?nid = "Device (canonical_key g device None realm)"
  have "wf_graph (modify_node ?nid (\<lambda>n. n\<lparr>nd_role_signals := f n\<rparr>)
          (upsert ?nid node_kind.Host (ev_confidence ev) (from_evidence ev) g))" for f
    by (intro wf_modify_core wf_upsert) (simp_all add: assms same_core_def)
  then show ?thesis
    by (simp add: absorb_role_signal_def Let_def wf_graph_def wf_weights_add)
qed

lemma wf_absorb_relations:
  assumes "wf_graph g"
  shows "wf_graph (absorb_bridge_link ev realm b t p g)"
    and "wf_graph (absorb_forwards_toward ev realm d toward dist prev g)"
    and "wf_graph (absorb_observed_behind ev realm d via g)"
    and "wf_graph (absorb_service ev realm addr port proto detail g)"
    and "wf_graph (absorb_resolved_as ev realm name addr g)"
  using assms
  by (auto simp: absorb_bridge_link_def absorb_forwards_toward_def absorb_observed_behind_def
      absorb_service_def absorb_resolved_as_def Let_def
      intro!: wf_link wf_upsert wf_modify_core split: option.split)

lemma wf_absorb_fact: "wf_graph g \<Longrightarrow> wf_graph (absorb_fact ev realm f g)"
  by (cases f)
    (auto simp: absorb_fact_def wf_upsert_network wf_absorb_interface_network wf_absorb_vlans
      wf_absorb_device_address wf_absorb_role_signal wf_absorb_device_network
      wf_absorb_routes_to wf_absorb_relations
      intro: wf_absorb_device_core wf_absorb_device [OF _ wf_set_opaque])

lemma wf_absorb: "wf_graph g \<Longrightarrow> wf_graph (absorb ev g)"
  by (simp add: absorb_def Let_def wf_absorb_fact)

section \<open>Merging keeps the invariant\<close>

lemma wf_absorb_node:
  assumes "wf_node from source" and "wf_node to target" and "is_device to"
  shows "wf_node to (absorb_node source target)"
  using assms by (auto simp: wf_node_def absorb_node_def raise_confidence_max strongest_append)

lemma wf_edge_repoint:
  assumes "wf_edge key e"
  shows "wf_edge (ed_from (repoint f t e), ed_to (repoint f t e), ed_relationship (repoint f t e))
           (repoint f t e)"
  using assms by (auto simp: wf_edge_def repoint_def)

lemma wf_edges_repoint_edge: "wf_edges m \<Longrightarrow> wf_edges (repoint_edge from to key m)"
proof (cases "bm_get m key")
  case None
  then show "wf_edges m \<Longrightarrow> ?thesis" by (simp add: repoint_edge_def)
next
  case (Some e)
  assume wf: "wf_edges m"
  let ?e = "repoint from to e" and ?rest = "bm_remove key m"
  let ?key = "(ed_from ?e, ed_to ?e, ed_relationship ?e)"
  have rest: "bm_all wf_edge ?rest" using wf by (simp add: wf_edges_def bm_all_remove)
  have e: "wf_edge ?key ?e"
    using wf Some by (auto simp: wf_edges_def dest: bm_allD intro: wf_edge_repoint)
  have "wf_edge ?key (x\<lparr>ed_provenance := ed_provenance x @ ps\<rparr>)"
    if "bm_get ?rest ?key = Some x" for x ps
    using bm_allD [OF rest that] by (auto simp: wf_edge_def)
  with Some rest e show "wf_edges (repoint_edge from to key m)"
    by (auto simp: repoint_edge_def wf_edges_def Let_def bm_all_insert split: option.split)
qed

lemma wf_edges_repoint_edges: "wf_edges m \<Longrightarrow> wf_edges (repoint_edges from to m)"
  unfolding repoint_edges_def
  by (rule fold_invariant [where Q = "\<lambda>_. True"]) (auto intro: wf_edges_repoint_edge)

lemma wf_merge_weights:
  assumes "wf_weights m" and "is_device to"
  shows "wf_weights (merge_weights from to m)"
  using assms unfolding wf_weights_def merge_weights_def
  by (auto simp: hm_laws hm_ok_laws distinct_bs_extend split: option.split if_splits)

lemma wf_merge_one:
  assumes "wf_graph (fst st)" and "is_device (snd m)"
  shows "wf_graph (fst (merge_one m st))"
proof -
  obtain fr to g al where m: "m = (fr, to)" and st: "st = (g, al)"
    by (cases m; cases st)
  have nodes: "wf_nodes (bm_modify to (absorb_node source) (bm_remove fr (g_nodes g)))"
    if "bm_get (g_nodes g) fr = Some source" for source
    using assms that unfolding wf_nodes_def wf_graph_def
    by (intro bm_all_modify bm_all_remove)
      (auto simp: m st dest: bm_allD intro: wf_absorb_node)
  with assms show ?thesis
    by (auto simp: merge_one_def m st wf_graph_def wf_edges_repoint_edges wf_merge_weights
        split: option.split)
qed

lemma merge_target_mac: "merge_target g nid = Some to \<Longrightarrow> \<exists>m. to = Device (Mac m)"
  by (auto simp: merge_target_def split: node_id.splits option.splits if_splits
      elim: is_mac.elims)

lemma pending_merges_iff:
  "(fr, to) \<in> set (pending_merges g) \<longleftrightarrow>
     fr \<in> fst ` set (g_nodes g) \<and> merge_target g fr = Some to"
  by (force simp: pending_merges_def List.map_filter_def)

lemma wf_merge_address_identities:
  assumes "wf_graph g"
  shows "wf_graph (fst (merge_address_identities g))"
  unfolding merge_address_identities_def
  by (rule fold_invariant [where Q = "\<lambda>m. is_device (snd m)"])
    (use assms in \<open>auto simp: wf_merge_one pending_merges_iff dest!: merge_target_mac\<close>)

section \<open>Role assignment keeps the invariant\<close>

lemma wf_assign_roles:
  assumes "wf_graph g"
  shows "wf_graph (assign_roles g)"
  unfolding assign_roles_def
proof (rule fold_invariant [where Q = "\<lambda>(nid, role). is_device nid"])
  fix x :: "node_id \<times> device_role"
  assume "x \<in> set (map (\<lambda>(nid, signals). (nid, score_role signals)) (g_role_weights g))"
  with assms show "case x of (nid, role) \<Rightarrow> is_device nid"
    by (auto simp: wf_graph_def wf_weights_def set_hm_get dom_def)
next
  fix x :: "node_id \<times> device_role" and h
  assume "case x of (nid, role) \<Rightarrow> is_device nid" and "wf_graph h"
  then show "wf_graph ((case x of (nid, role) \<Rightarrow>
      modify_node nid (\<lambda>n. n\<lparr>nd_kind := role_kind role (nd_kind n)\<rparr>)) h)"
    by (auto simp: wf_node_def role_kind_def elim!: is_device.elims
        intro!: wf_modify_node split: device_role.split)
qed (fact assms)

lemma wf_mark_opaque:
  assumes "wf_graph g"
  shows "wf_graph (mark_opaque g)"
  unfolding mark_opaque_def
proof (rule fold_invariant [where Q = is_device])
  fix x assume "x \<in> set (map nd_id (filter (\<lambda>n. nd_opaque_reason n \<noteq> None) (map snd (g_nodes g))))"
  then obtain k n where "(k, n) \<in> set (g_nodes g)" "nd_opaque_reason n \<noteq> None" "x = nd_id n"
    by auto
  with assms show "is_device x"
    by (auto simp: wf_graph_def wf_nodes_def wf_node_def dest: bm_all_set)
next
  fix x h assume "is_device x" and "wf_graph h"
  then show "wf_graph (modify_node x (\<lambda>n. n\<lparr>nd_kind := node_kind.OpaqueBoundary\<rparr>) h)"
    by (auto simp: wf_node_def elim!: is_device.elims intro!: wf_modify_node)
qed (fact assms)

lemma wf_finalize_roles: "wf_graph g \<Longrightarrow> wf_graph (finalize_roles g)"
  by (simp add: finalize_roles_def wf_mark_opaque wf_assign_roles wf_merge_address_identities)

section \<open>Every graph the engine can build\<close>

text \<open>
  The engine starts from an empty graph and calls the three mutating operations in an order it
  decides as it runs.
\<close>

inductive graph_step :: "topology_graph \<Rightarrow> topology_graph \<Rightarrow> bool" where
  step_absorb: "graph_step g (absorb ev g)"
| step_merge: "graph_step g (fst (merge_address_identities g))"
| step_finalize: "graph_step g (finalize_roles g)"

inductive reachable :: "topology_graph \<Rightarrow> bool" where
  reach_new: "reachable graph_new"
| reach_step: "reachable g \<Longrightarrow> graph_step g h \<Longrightarrow> reachable h"

inductive_cases graph_step_cases [elim]: "graph_step g h"

lemma graph_step_wf: "graph_step g h \<Longrightarrow> wf_graph g \<Longrightarrow> wf_graph h"
  by (erule graph_step_cases)
    (simp_all add: wf_absorb wf_merge_address_identities wf_finalize_roles)

lemma reachable_wf: "reachable g \<Longrightarrow> wf_graph g"
  by (induction rule: reachable.induct) (auto simp: wf_graph_new dest: graph_step_wf)

end
