(* ===== verification/Text_Safety.thy ===== *)
theory Text_Safety
  imports Idnx_Prelude
begin

text \<open>
  Text chosen by devices and peers (\<open>src/src/text.rs\<close>, \<open>src/src/output/safe.rs\<close>). A Rust
  \<open>char\<close> is a Unicode scalar value, here a \<^typ>\<open>nat\<close>; the functions that walk \<open>chars()\<close> are
  defined on lists of them. Strings elsewhere in the model are UTF-8 bytes, and
  \<open>utf8_decode\<close>/\<open>utf8_encode\<close> go between the two.
\<close>

type_synonym chars = "nat list"

section \<open>UTF-8\<close>

definition utf8_char :: "nat \<Rightarrow> nat list" where
  "utf8_char c =
     (if c < 128 then [c]
      else if c < 2048 then [192 + c div 64, 128 + c mod 64]
      else if c < 65536 then [224 + c div 4096, 128 + (c div 64) mod 64, 128 + c mod 64]
      else [240 + c div 262144, 128 + (c div 4096) mod 64, 128 + (c div 64) mod 64,
            128 + c mod 64])"

definition utf8_encode_nat :: "chars \<Rightarrow> nat list" where
  "utf8_encode_nat cs = concat (map utf8_char cs)"

text \<open>The decoder reads well-formed input; a Rust \<open>str\<close> is always well formed.\<close>

fun utf8_decode_nat :: "nat list \<Rightarrow> chars" where
  "utf8_decode_nat [] = []"
| "utf8_decode_nat (a # rest) =
     (if a < 192 then a # utf8_decode_nat rest
      else case rest of
             [] \<Rightarrow> [a]
           | b # rest2 \<Rightarrow>
               if a < 224 then ((a - 192) * 64 + (b - 128)) # utf8_decode_nat rest2
               else case rest2 of
                      [] \<Rightarrow> [a]
                    | c # rest3 \<Rightarrow>
                        if a < 240 then
                          ((a - 224) * 4096 + (b - 128) * 64 + (c - 128)) # utf8_decode_nat rest3
                        else case rest3 of
                               [] \<Rightarrow> [a]
                             | d # rest4 \<Rightarrow>
                                 ((a - 240) * 262144 + (b - 128) * 4096 + (c - 128) * 64 + (d - 128))
                                   # utf8_decode_nat rest4)"

definition utf8_encode :: "chars \<Rightarrow> string" where
  "utf8_encode cs = map char_of (utf8_encode_nat cs)"

definition utf8_decode :: "string \<Rightarrow> chars" where
  "utf8_decode s = utf8_decode_nat (map char_code s)"

lemma sextets:
  fixes c :: nat
  shows "c div 64 * 64 + c mod 64 = c"
    and "c div 4096 * 64 + c div 64 mod 64 = c div 64"
    and "c div 262144 * 64 + c div 4096 mod 64 = c div 4096"
  using div_mult_mod_eq [of c 64] div_mult_mod_eq [of "c div 64" 64]
    div_mult_mod_eq [of "c div 4096" 64]
  by (simp_all add: div_mult2_eq [symmetric])

lemma utf8_decode_char:
  assumes "c < 1114112"
  shows "utf8_decode_nat (utf8_char c @ rest) = c # utf8_decode_nat rest"
proof -
  consider "c < 128" | "128 \<le> c" "c < 2048" | "2048 \<le> c" "c < 65536" | "65536 \<le> c"
    by linarith
  then show ?thesis
  proof cases
    case 1
    then show ?thesis by (simp add: utf8_char_def)
  next
    case 2
    then have "c div 64 < 32" by simp
    with 2 show ?thesis by (simp add: utf8_char_def)
  next
    case 3
    have "c div 4096 * 4096 + c div 64 mod 64 * 64 + c mod 64 = c"
      using sextets [of c] by linarith
    moreover from 3 have "c div 4096 < 16" by simp
    ultimately show ?thesis using 3 by (simp add: utf8_char_def)
  next
    case 4
    have "c div 262144 * 262144 + c div 4096 mod 64 * 4096 + c div 64 mod 64 * 64 + c mod 64 = c"
      using sextets [of c] by linarith
    with 4 show ?thesis by (simp add: utf8_char_def)
  qed
qed

lemma utf8_roundtrip_nat:
  "\<forall>c \<in> set cs. c < 1114112 \<Longrightarrow> utf8_decode_nat (utf8_encode_nat cs) = cs"
  by (induction cs) (simp_all add: utf8_encode_nat_def utf8_decode_char)

lemma utf8_char_bytes: "c < 1114112 \<Longrightarrow> \<forall>b \<in> set (utf8_char c). b < 256"
  by (auto simp: utf8_char_def)

lemma utf8_roundtrip:
  assumes "\<forall>c \<in> set cs. c < 1114112"
  shows "utf8_decode (utf8_encode cs) = cs"
proof -
  have "\<forall>b \<in> set (utf8_encode_nat cs). b < 256"
    using assms utf8_char_bytes by (auto simp: utf8_encode_nat_def)
  then have "map char_code (utf8_encode cs) = utf8_encode_nat cs"
    by (auto simp: utf8_encode_def char_code_def map_idI)
  then show ?thesis using assms by (simp add: utf8_decode_def utf8_roundtrip_nat)
qed

section \<open>Sanitising and clipping\<close>

definition MAX_TEXT_BYTES :: nat where
  "MAX_TEXT_BYTES = 1024"

text \<open>\<open>char::is_control\<close>: the Unicode category Cc.\<close>

definition is_control :: "nat \<Rightarrow> bool" where
  "is_control c \<longleftrightarrow> c < 32 \<or> (127 \<le> c \<and> c < 160)"

abbreviation REPLACEMENT :: nat where "REPLACEMENT \<equiv> 0xFFFD"
abbreviation ELLIPSIS :: nat where "ELLIPSIS \<equiv> 0x2026"

definition sanitize_char :: "nat \<Rightarrow> nat" where
  "sanitize_char c = (if c = 9 then 32 else if is_control c then REPLACEMENT else c)"

definition sanitize :: "chars \<Rightarrow> chars" where
  "sanitize text = map sanitize_char text"

definition clip :: "chars \<Rightarrow> nat \<Rightarrow> chars" where
  "clip text limit =
     (if length text \<le> limit then text else take (limit - 1) text @ [ELLIPSIS])"

text \<open>\<open>output::safe::text\<close> and \<open>output::safe::all\<close>.\<close>

definition safe_text :: "chars \<Rightarrow> chars" where
  "safe_text value = clip (sanitize value) MAX_TEXT_BYTES"

definition safe_all :: "chars list \<Rightarrow> chars list" where
  "safe_all values = map safe_text values"

section \<open>JSON inside a script block\<close>

definition bs_u :: "nat list \<Rightarrow> chars" where
  "bs_u hex = 92 # 117 # hex"

definition escape_char :: "nat \<Rightarrow> chars" where
  "escape_char c =
     (if c = 60 then bs_u [48, 48, 51, 99]
      else if c = 62 then bs_u [48, 48, 51, 101]
      else if c = 38 then bs_u [48, 48, 50, 54]
      else if c = 0x2028 then bs_u [50, 48, 50, 56]
      else if c = 0x2029 then bs_u [50, 48, 50, 57]
      else [c])"

definition embeddable_json :: "chars \<Rightarrow> chars" where
  "embeddable_json json = concat (map escape_char json)"

section \<open>What the output may contain\<close>

lemma sanitize_char_no_control: "\<not> is_control (sanitize_char c)"
  by (simp add: sanitize_char_def is_control_def)

lemma sanitize_no_control: "c \<in> set (sanitize t) \<Longrightarrow> \<not> is_control c"
  by (auto simp: sanitize_def sanitize_char_no_control)

lemma sanitize_idem: "sanitize (sanitize t) = sanitize t"
  by (simp add: sanitize_def sanitize_char_def is_control_def)

lemma set_clip: "set (clip t n) \<subseteq> insert ELLIPSIS (set t)"
  by (auto simp: clip_def dest: in_set_takeD)

lemma length_clip: "1 \<le> n \<Longrightarrow> length (clip t n) \<le> n"
  by (simp add: clip_def)

lemma safe_text_no_control: "c \<in> set (safe_text t) \<Longrightarrow> \<not> is_control c"
  using set_clip [of "sanitize t" MAX_TEXT_BYTES] sanitize_no_control [of c t]
  by (auto simp: safe_text_def is_control_def)

lemma safe_text_length: "length (safe_text t) \<le> MAX_TEXT_BYTES"
  by (simp add: safe_text_def length_clip MAX_TEXT_BYTES_def)

lemma safe_text_idem: "safe_text (safe_text t) = safe_text t"
proof -
  have "sanitize (safe_text t) = safe_text t"
    unfolding sanitize_def
  proof (rule map_idI)
    fix c assume "c \<in> set (safe_text t)"
    then have "\<not> is_control c" by (rule safe_text_no_control)
    then show "sanitize_char c = c" by (auto simp: sanitize_char_def is_control_def)
  qed
  then show ?thesis
    using safe_text_length [of t] by (simp add: safe_text_def [of "safe_text t"] clip_def)
qed

definition html_inert :: "nat \<Rightarrow> bool" where
  "html_inert c \<longleftrightarrow> c \<notin> {60, 62, 38, 0x2028, 0x2029}"

lemma escape_char_inert: "x \<in> set (escape_char c) \<Longrightarrow> html_inert x"
  by (auto simp: escape_char_def bs_u_def html_inert_def split: if_splits)

lemma embeddable_json_inert: "x \<in> set (embeddable_json json) \<Longrightarrow> html_inert x"
  by (auto simp: embeddable_json_def escape_char_inert)

lemma embeddable_Cons: "embeddable_json (c # cs) = escape_char c @ embeddable_json cs"
  by (simp add: embeddable_json_def)

lemma escape_char_plain: "html_inert c \<Longrightarrow> escape_char c = [c]"
  by (simp add: escape_char_def html_inert_def)

section \<open>The properties of printed text\<close>

text \<open>
  Text a device chose is safe to print: after \<open>output::safe::text\<close> it has no control
  character, at most \<open>MAX_TEXT_BYTES\<close> characters, and applying it again changes nothing.
\<close>

theorem printed_text_is_safe:
  "list_all (\<lambda>c. \<not> is_control c) (safe_text t) \<and> length (safe_text t) \<le> MAX_TEXT_BYTES \<and>
   safe_text (safe_text t) = safe_text t"
  by (simp add: list_all_iff safe_text_no_control safe_text_length safe_text_idem)

text \<open>A tab is not kept but replaced by a space, so two different names print alike.\<close>

lemma tab_is_not_kept: "sanitize [97, 9, 98] = sanitize [97, 32, 98]"
  by code_simp

end
