(* ===== verification/Graph_Query.thy ===== *)
theory Graph_Query
  imports Graph_Inv Text_Safety
begin

text \<open>
  What the renderers and the engine read from the topology graph (\<open>src/src/topology/graph.rs\<close>):
  the lookups, the counts, and the devices worth interrogating. A prefix is printed by the
  \<open>ipnet\<close> crate, so its textual form is the argument \<open>net_str\<close> of the queries that sort by it.
\<close>

section \<open>Names\<close>

definition display_name :: "(ip_net \<Rightarrow> string) \<Rightarrow> node \<Rightarrow> string" where
  "display_name net_str n =
     (case nd_hostnames n of
        name # _ \<Rightarrow> utf8_encode (clip (sanitize (utf8_decode name)) MAX_TEXT_BYTES)
      | [] \<Rightarrow>
          (case nd_addresses n of
             a # _ \<Rightarrow> ip_to_string a
           | [] \<Rightarrow>
               (case nd_id n of
                  node_id.Interface i _ \<Rightarrow> i
                | node_id.Network p _ \<Rightarrow> net_str p
                | node_id.Vlan v _ \<Rightarrow> ''VLAN '' @ decimal (uint v)
                | Device d \<Rightarrow> describe_key d
                | node_id.Service a p _ \<Rightarrow> ip_to_string a @ '':'' @ decimal (uint p))))"

definition possible_same_machine ::
    "(ip_net \<Rightarrow> string) \<Rightarrow> topology_graph \<Rightarrow> node \<Rightarrow> node list" where
  "possible_same_machine net_str g n =
     (if nd_hostnames n = [] then []
      else sort_key (display_name net_str)
             (filter (\<lambda>other. nd_id other \<noteq> nd_id n \<and> is_device (nd_id other) \<and>
                        list_ex (\<lambda>h. h \<in> set (nd_hostnames n)) (nd_hostnames other))
                (map snd (g_nodes g))))"

section \<open>Networks and VLANs\<close>

abbreviation graph_values :: "topology_graph \<Rightarrow> node list" where
  "graph_values g \<equiv> map snd (g_nodes g)"

definition nodes_of_kind :: "topology_graph \<Rightarrow> node_kind \<Rightarrow> node list" where
  "nodes_of_kind g kind = filter (\<lambda>n. nd_kind n = kind) (graph_values g)"

definition network_node :: "topology_graph \<Rightarrow> ip_net \<Rightarrow> node option" where
  "network_node g prefix =
     (case bm_get (g_nodes g) (node_id.Network prefix Local) of
        Some n \<Rightarrow> Some n
      | None \<Rightarrow>
          List.find (\<lambda>n. case nd_id n of node_id.Network p _ \<Rightarrow> p = prefix | _ \<Rightarrow> False)
            (graph_values g))"

definition local_networks :: "(ip_net \<Rightarrow> string) \<Rightarrow> topology_graph \<Rightarrow> ip_net list" where
  "local_networks net_str g =
     remdups_adj (sort_key net_str
       (List.map_filter
          (\<lambda>n. case nd_id n of
                 node_id.Network p _ \<Rightarrow> if locally_observed n then Some p else None
               | _ \<Rightarrow> None)
          (graph_values g)))"

definition network_refs :: "(ip_net \<Rightarrow> string) \<Rightarrow> topology_graph \<Rightarrow> network_ref list" where
  "network_refs net_str g =
     remdups_adj (sort_key (\<lambda>(p, r). (net_str p, r))
       (List.map_filter
          (\<lambda>n. case nd_id n of node_id.Network p r \<Rightarrow> Some (p, r) | _ \<Rightarrow> None)
          (graph_values g)))"

definition network_ref_node :: "topology_graph \<Rightarrow> network_ref \<Rightarrow> node option" where
  "network_ref_node g ref = bm_get (g_nodes g) (node_id.Network (fst ref) (snd ref))"

definition networks :: "topology_graph \<Rightarrow> ip_net list" where
  "networks g =
     List.map_filter (\<lambda>nid. case nid of node_id.Network p _ \<Rightarrow> Some p | _ \<Rightarrow> None)
       (map fst (g_nodes g))"

definition egress_path :: "topology_graph \<Rightarrow> (u8 \<times> node) list" where
  "egress_path g =
     List.map_filter (\<lambda>(distance, nid). map_option (\<lambda>n. (distance, n)) (bm_get (g_nodes g) nid))
       (g_egress_path g)"

definition is_egress_only :: "topology_graph \<Rightarrow> node_id \<Rightarrow> bool" where
  "is_egress_only g nid \<longleftrightarrow>
     list_ex (\<lambda>(_, hop). hop = nid) (g_egress_path g) \<and>
     (case bm_get (g_nodes g) nid of
        None \<Rightarrow> False
      | Some n \<Rightarrow>
          list_all (\<lambda>p. pv_source p = IcmpProbe \<or> pv_source p = TcpProbe) (nd_provenance n))"

definition vlan_networks ::
    "(ip_net \<Rightarrow> string) \<Rightarrow> topology_graph \<Rightarrow> (vlan_ref \<times> ip_net \<times> provenance list) list" where
  "vlan_networks net_str g =
     sort_key (\<lambda>((v, _), p, _). (v, net_str p))
       (List.map_filter
          (\<lambda>e. if ed_relationship e \<noteq> CarriesNetwork then None
               else case (ed_from e, ed_to e) of
                      (node_id.Vlan v r, node_id.Network p _) \<Rightarrow> Some ((v, r), p, ed_provenance e)
                    | _ \<Rightarrow> None)
          (map snd (g_edges g)))"

section \<open>Counts\<close>

record topology_counts =
  routers :: nat
  switches :: nat
  layer3_switches :: nat
  opaque_boundaries :: nat
  forwarding_interfaces :: nat
  ai_systems :: nat
  other_hosts :: nat
  networks_count :: nat
  vlans_count :: nat
  services_count :: nat
  interfaces_count :: nat
  graph_nodes :: nat

definition counts_zero :: "nat \<Rightarrow> topology_counts" where
  "counts_zero n =
     \<lparr>routers = 0, switches = 0, layer3_switches = 0, opaque_boundaries = 0,
      forwarding_interfaces = 0, ai_systems = 0, other_hosts = 0, networks_count = 0,
      vlans_count = 0, services_count = 0, interfaces_count = 0, graph_nodes = n\<rparr>"

definition count_node :: "node \<Rightarrow> topology_counts \<Rightarrow> topology_counts" where
  "count_node n c =
     (case nd_kind n of
        node_kind.Network \<Rightarrow> c\<lparr>networks_count := Suc (networks_count c)\<rparr>
      | node_kind.Vlan \<Rightarrow> c\<lparr>vlans_count := Suc (vlans_count c)\<rparr>
      | node_kind.Service \<Rightarrow> c\<lparr>services_count := Suc (services_count c)\<rparr>
      | node_kind.Interface \<Rightarrow> c\<lparr>interfaces_count := Suc (interfaces_count c)\<rparr>
      | _ \<Rightarrow>
          (case categorize n of
             Some device_category.Router \<Rightarrow> c\<lparr>routers := Suc (routers c)\<rparr>
           | Some device_category.Switch \<Rightarrow> c\<lparr>switches := Suc (switches c)\<rparr>
           | Some device_category.Layer3Switch \<Rightarrow> c\<lparr>layer3_switches := Suc (layer3_switches c)\<rparr>
           | Some device_category.OpaqueBoundary \<Rightarrow>
               c\<lparr>opaque_boundaries := Suc (opaque_boundaries c)\<rparr>
           | Some ForwardingInterface \<Rightarrow>
               c\<lparr>forwarding_interfaces := Suc (forwarding_interfaces c)\<rparr>
           | Some AiSystem \<Rightarrow> c\<lparr>ai_systems := Suc (ai_systems c)\<rparr>
           | Some device_category.Host \<Rightarrow> c\<lparr>other_hosts := Suc (other_hosts c)\<rparr>
           | None \<Rightarrow> c))"

definition counts :: "topology_graph \<Rightarrow> topology_counts" where
  "counts g = fold count_node (graph_values g) (counts_zero (length (g_nodes g)))"

definition devices :: "topology_counts \<Rightarrow> nat" where
  "devices c =
     routers c + switches c + layer3_switches c + opaque_boundaries c +
     forwarding_interfaces c + ai_systems c + other_hosts c"

text \<open>An absent first address sorts before any: the empty list before a singleton.\<close>

definition devices_in ::
    "(ip_net \<Rightarrow> string) \<Rightarrow> topology_graph \<Rightarrow> device_category \<Rightarrow> node list" where
  "devices_in net_str g category =
     sort_key (\<lambda>n. (take 1 (nd_addresses n), display_name net_str n))
       (filter (\<lambda>n. categorize n = Some category) (graph_values g))"

section \<open>Edges\<close>

definition interfaces_for_network :: "topology_graph \<Rightarrow> network_ref \<Rightarrow> string list" where
  "interfaces_for_network g ref =
     List.map_filter
       (\<lambda>e. if ed_relationship e = relationship.AttachedTo \<and>
               ed_to e = node_id.Network (fst ref) (snd ref)
            then case ed_from e of node_id.Interface i _ \<Rightarrow> Some i | _ \<Rightarrow> None
            else None)
       (map snd (g_edges g))"

definition services_of :: "topology_graph \<Rightarrow> node_id \<Rightarrow> node list" where
  "services_of g device =
     sort_key (\<lambda>n. case nd_id n of
                     node_id.Service a p _ \<Rightarrow> (ip_to_string a, p)
                   | _ \<Rightarrow> ([], 0))
       (filter (\<lambda>n. nd_kind n = node_kind.Service)
          (List.map_filter
             (\<lambda>e. if ed_relationship e = Advertises \<and> ed_from e = device
                  then bm_get (g_nodes g) (ed_to e) else None)
             (map snd (g_edges g))))"

section \<open>Whom to interrogate\<close>

fun is_interrogable :: "ip_addr \<Rightarrow> bool" where
  "is_interrogable (V4 a) =
     (\<not> is_loopback4 a \<and> \<not> is_link_local4 a \<and> \<not> is_multicast4 a \<and> \<not> is_unspecified4 a)"
| "is_interrogable (V6 a) =
     (\<not> is_loopback6 a \<and> \<not> is_multicast6 a \<and> \<not> is_unspecified6 a \<and> \<not> is_link_local6 a)"

definition INFRASTRUCTURE_HOSTNAME_TOKENS :: "string list" where
  "INFRASTRUCTURE_HOSTNAME_TOKENS =
     [''router'', ''gateway'', ''gw'', ''switch'', ''ap'', ''accesspoint'', ''firewall'',
      ''modem'', ''bridge'', ''wifi'', ''wlan'', ''edgerouter'', ''unifi'', ''openwrt'']"

definition token_matches :: "string \<Rightarrow> bool" where
  "token_matches token =
     list_ex (\<lambda>keyword. token = keyword \<or>
        (case strip_prefix token keyword of
           None \<Rightarrow> False
         | Some rest \<Rightarrow> rest \<noteq> [] \<and> list_all is_ascii_digit rest))
       INFRASTRUCTURE_HOSTNAME_TOKENS"

fun adjacent_pairs :: "string list \<Rightarrow> string list" where
  "adjacent_pairs (a # b # rest) = (a @ b) # adjacent_pairs (b # rest)"
| "adjacent_pairs _ = []"

definition hostname_suggests_infrastructure :: "string \<Rightarrow> bool" where
  "hostname_suggests_infrastructure hostname =
     (let tokens = filter (\<lambda>t. t \<noteq> [])
                     (split_by (\<lambda>c. \<not> is_ascii_alphanumeric c) (to_ascii_lowercase hostname))
      in list_ex token_matches tokens \<or> list_ex token_matches (adjacent_pairs tokens))"

definition NETWORK_EQUIPMENT_VENDORS :: "string list" where
  "NETWORK_EQUIPMENT_VENDORS =
     [''asustek'', ''asus'', ''linksys'', ''netgear'', ''tp-link'', ''d-link'', ''mikrotik'',
      ''ubiquiti'', ''cisco'', ''meraki'', ''zyxel'', ''draytek'', ''fortinet'', ''juniper'',
      ''aruba'', ''ruckus'', ''belkin'', ''tenda'', ''huawei'', ''openwrt'', ''netcomm'',
      ''sagemcom'', ''technicolor'', ''arris'', ''actiontec'', ''eero'']"

definition is_infrastructure_candidate :: "node \<Rightarrow> bool" where
  "is_infrastructure_candidate n =
     (if nd_kind n = node_kind.Service then False
      else if (case nd_vendor n of
                 None \<Rightarrow> False
               | Some v \<Rightarrow> list_ex (str_contains (to_ascii_lowercase v)) NETWORK_EQUIPMENT_VENDORS)
      then True
      else if list_ex hostname_suggests_infrastructure (nd_hostnames n) then True
      else 1 < length (filter is_interrogable (nd_addresses n)))"

definition pivot_devices :: "topology_graph \<Rightarrow> device_key list" where
  "pivot_devices g =
     sort_dedup
       (List.map_filter
          (\<lambda>(nid, _). case nid of
                        Device key \<Rightarrow>
                          (case bm_get (g_nodes g) nid of
                             Some n \<Rightarrow> if locally_observed n then Some key else None
                           | None \<Rightarrow> None)
                      | _ \<Rightarrow> None)
          (g_role_weights g))"

definition device_addresses :: "topology_graph \<Rightarrow> device_key list \<Rightarrow> ip_addr list" where
  "device_addresses g keys =
     sort_dedup
       (filter is_interrogable
          (concat (map locally_observed_addresses
             (List.map_filter (\<lambda>key. bm_get (g_nodes g) (Device key)) keys))))"

definition pivot_addresses :: "topology_graph \<Rightarrow> ip_addr list" where
  "pivot_addresses g = device_addresses g (pivot_devices g)"

definition candidate_devices :: "topology_graph \<Rightarrow> device_key list" where
  "candidate_devices g =
     sort_dedup
       (List.map_filter (\<lambda>n. case nd_id n of Device key \<Rightarrow> Some key | _ \<Rightarrow> None)
          (filter (\<lambda>n. locally_observed n \<and> is_infrastructure_candidate n) (graph_values g)))"

definition candidate_addresses :: "topology_graph \<Rightarrow> ip_addr list" where
  "candidate_addresses g =
     device_addresses g (filter (\<lambda>key. key \<notin> set (pivot_devices g)) (candidate_devices g))"

text \<open>
  A hash map is iterated in no particular order: the fallback takes the first matching entry of
  the list that stands for it, and what is proved holds for every such list.
\<close>

definition device_for_address :: "topology_graph \<Rightarrow> ip_addr \<Rightarrow> device_key option" where
  "device_for_address g addr =
     (let owner = (case hm_get (g_address_owner g) (addr, None, Local) of
                     Some k \<Rightarrow> Some k
                   | None \<Rightarrow>
                       map_option snd
                         (List.find (\<lambda>((a, _, r), _). a = addr \<and> is_local r) (g_address_owner g)))
      in case owner of
           None \<Rightarrow> None
         | Some k \<Rightarrow>
             (case bm_get (g_nodes g) (Device k) of
                None \<Rightarrow> None
              | Some n \<Rightarrow> if locally_observed n then Some k else None))"

definition contested_addresses :: "topology_graph \<Rightarrow> (ip_addr \<times> device_key list) list" where
  "contested_addresses g =
     sort_key fst (map (\<lambda>((a, _, _), claimants). (a, claimants)) (g_contested g))"

section \<open>The counts partition the graph\<close>

definition counted :: "topology_counts \<Rightarrow> nat" where
  "counted c =
     devices c + networks_count c + vlans_count c + services_count c + interfaces_count c"

lemma counted_count_node: "counted (count_node n c) = Suc (counted c)"
  by (auto simp: count_node_def counted_def devices_def categorize_def split: node_kind.split)

lemma counted_fold: "counted (fold count_node ns c) = counted c + length ns"
  by (induction ns arbitrary: c) (simp_all add: counted_count_node)

lemma graph_nodes_count_node [simp]: "graph_nodes (count_node n c) = graph_nodes c"
  by (simp add: count_node_def split: node_kind.split option.split device_category.split)

lemma graph_nodes_fold [simp]: "graph_nodes (fold count_node ns c) = graph_nodes c"
  by (induction ns arbitrary: c) simp_all

lemma networks_count_fold:
  "networks_count (fold count_node ns c) =
     networks_count c + length (filter (\<lambda>n. nd_kind n = node_kind.Network) ns)"
  by (induction ns arbitrary: c)
    (auto simp: count_node_def split: node_kind.splits option.split device_category.split)

text \<open>In a well-formed graph a node's kind says which sort of identity it is filed under.\<close>

lemma kind_fits_network:
  "kind_fits nid k \<Longrightarrow> k = node_kind.Network \<longleftrightarrow> (\<exists>p r. nid = node_id.Network p r)"
  by (cases nid) auto

lemma networks_of_wf:
  assumes "wf_graph g"
  shows "length (networks g) = length (filter (\<lambda>n. nd_kind n = node_kind.Network) (graph_values g))"
proof -
  have entry: "nd_kind n = node_kind.Network \<longleftrightarrow> (\<exists>p r. k = node_id.Network p r)"
    if "(k, n) \<in> set (g_nodes g)" for k n
    using assms that bm_all_set [of wf_node "g_nodes g" k n] kind_fits_network
    by (auto simp: wf_graph_def wf_nodes_def wf_node_def)
  have "length (List.map_filter (\<lambda>nid. case nid of node_id.Network p _ \<Rightarrow> Some p | _ \<Rightarrow> None)
            (map fst m)) =
          length (filter (\<lambda>n. nd_kind n = node_kind.Network) (map snd m))"
    if "set m \<subseteq> set (g_nodes g)" for m
    using that
  proof (induction m)
    case Nil
    then show ?case by (simp add: List.map_filter_def)
  next
    case (Cons e m)
    obtain k n where e: "e = (k, n)" by (cases e)
    from Cons e entry [of k n] show ?case
      by (cases k) (auto simp: List.map_filter_def)
  qed
  then show ?thesis by (simp add: networks_def)
qed

section \<open>Interrogation stays with what this machine observed\<close>

lemma set_sort_dedup [simp]: "set (sort_dedup xs) = set xs"
  by (simp add: sort_dedup_def)

lemma set_map_filter: "set (List.map_filter f xs) = {y. \<exists>x \<in> set xs. f x = Some y}"
  by (force simp: List.map_filter_def)

lemma pivot_device_observed:
  "k \<in> set (pivot_devices g) \<Longrightarrow>
     \<exists>n. bm_get (g_nodes g) (Device k) = Some n \<and> locally_observed n"
  by (auto simp: pivot_devices_def set_map_filter split: node_id.splits option.splits if_splits)

lemma device_address_local:
  "a \<in> set (device_addresses g keys) \<Longrightarrow>
     is_interrogable a \<and>
     (\<exists>k \<in> set keys. \<exists>n. bm_get (g_nodes g) (Device k) = Some n \<and> (a, False) \<in> set (nd_address_provenance n))"
  by (auto simp: device_addresses_def set_map_filter locally_observed_addresses_def) fastforce

end
