(* ===== verification/Graph_Runs.thy ===== *)
theory Graph_Runs
  imports Graph_Query "HOL-Library.Multiset"
begin

text \<open>
  Runs of the topology graph: a run is the sequence of evidence absorbed and of merge and
  finalisation passes the engine makes. The lemmas here say what survives a run: who owns an
  address, and that a dispute stays a dispute.
\<close>

datatype graph_op = OpAbsorb topology_evidence | OpMerge | OpFinalize

fun apply_op :: "graph_op \<Rightarrow> topology_graph \<Rightarrow> topology_graph" where
  "apply_op (OpAbsorb ev) g = absorb ev g"
| "apply_op OpMerge g = fst (merge_address_identities g)"
| "apply_op OpFinalize g = finalize_roles g"

definition run :: "graph_op list \<Rightarrow> topology_graph \<Rightarrow> topology_graph" where
  "run ops g = fold apply_op ops g"

lemma apply_op_step: "graph_step g (apply_op op g)"
  by (cases op) (auto intro: graph_step.intros)

lemma apply_op_wf: "wf_graph g \<Longrightarrow> wf_graph (apply_op op g)"
  using graph_step_wf [OF apply_op_step] .

lemma run_wf: "wf_graph g \<Longrightarrow> wf_graph (run ops g)"
  unfolding run_def by (induction ops arbitrary: g) (simp_all add: apply_op_wf)

lemma run_reachable: "reachable g \<Longrightarrow> reachable (run ops g)"
  unfolding run_def
  by (induction ops arbitrary: g) (auto intro: reach_step apply_op_step)

lemma run_Nil [simp]: "run [] g = g"
  by (simp add: run_def)

lemma run_Cons [simp]: "run (op # ops) g = run ops (apply_op op g)"
  by (simp add: run_def)

text \<open>A property every operation keeps is kept by every run.\<close>

lemma run_induct:
  assumes "P g" and "\<And>op h. op \<in> set ops \<Longrightarrow> P h \<Longrightarrow> P (apply_op op h)"
  shows "P (run ops g)"
  using assms by (induction ops arbitrary: g) simp_all

section \<open>Who touches the ownership tables\<close>

definition owners_eq :: "topology_graph \<Rightarrow> topology_graph \<Rightarrow> bool" where
  "owners_eq g h \<longleftrightarrow> g_address_owner h = g_address_owner g \<and>
     g_address_binding h = g_address_binding g \<and> g_contested h = g_contested g"

lemma owners_eq_upsert_network [simp]:
  "owners_eq g (snd (upsert_network p r c pr g))"
  by (simp add: upsert_network_def owners_eq_def)

lemma owners_eq_absorb_device_network [simp]:
  "owners_eq g (snd (absorb_device_network ev r d n rel g))"
  by (simp add: absorb_device_network_def upsert_network_def owners_eq_def Let_def)

lemma owners_eq_other_facts:
  "\<not> (\<exists>d a. f = DeviceAddress d a) \<Longrightarrow> owners_eq g (absorb_fact ev r f g)"
proof (cases f)
  case (RoutesTo d n hop)
  then show ?thesis
    using owners_eq_absorb_device_network [of g ev r d n relationship.RoutesTo]
    by (auto simp: absorb_fact_def absorb_routes_to_def Let_def case_prod_unfold owners_eq_def
        split: option.split)
qed (auto simp: absorb_fact_def absorb_interface_network_def absorb_vlan_def
    absorb_vlan_network_def absorb_device_def absorb_role_signal_def absorb_bridge_link_def
    absorb_forwards_toward_def absorb_observed_behind_def absorb_service_def
    absorb_resolved_as_def absorb_device_network_def Let_def upsert_network_def owners_eq_def
    split: option.split)

lemma owners_eq_merge_one: "owners_eq (fst st) (fst (merge_one m st))"
  by (auto simp: merge_one_def owners_eq_def Let_def split: prod.splits option.split)

lemma owners_eq_refl [simp]: "owners_eq g g"
  by (simp add: owners_eq_def)

lemma owners_eq_trans: "owners_eq f g \<Longrightarrow> owners_eq g h \<Longrightarrow> owners_eq f h"
  by (simp add: owners_eq_def)

lemma owners_eq_merge: "owners_eq g (fst (merge_address_identities g))"
  unfolding merge_address_identities_def
  by (rule fold_invariant [where Q = "\<lambda>_. True"])
    (auto intro: owners_eq_trans owners_eq_merge_one)

lemma owners_eq_fold_modify:
  "owners_eq g h \<Longrightarrow> owners_eq g (fold (\<lambda>x. modify_node (i x) (f x)) xs h)"
  by (induction xs arbitrary: h) (simp_all add: owners_eq_def)

lemma owners_eq_finalize: "owners_eq g (finalize_roles g)"
proof -
  have "owners_eq g (assign_roles (fst (merge_address_identities g)))"
    unfolding assign_roles_def case_prod_unfold
    by (rule owners_eq_fold_modify [OF owners_eq_merge])
  then show ?thesis
    unfolding finalize_roles_def mark_opaque_def
    by (rule owners_eq_fold_modify [where i = "\<lambda>x. x", simplified])
qed

text \<open>The claim a \<open>DeviceAddress\<close> fact makes, and everything it does to the tables.\<close>

lemma absorb_device_address_tables:
  fixes g device address realm ev
  defines "key \<equiv> canonical_key g device (Some address) realm"
    and "sl \<equiv> address_slot address (ev_vantage ev) realm"
  defines "claim \<equiv> resolve_claim (hm_get (g_address_owner g) sl) (hm_get (g_address_binding g) sl)
             key (ev_source ev)"
    and "h \<equiv> absorb_device_address ev realm device address g"
  shows "hm_get (g_address_owner h) =
           (if hm_get (g_contested g) sl \<noteq> None then hm_get (g_address_owner g)
            else if claim = Contested then (hm_get (g_address_owner g))(sl := None)
            else if claim \<in> {Uncontested, Refines, Supersedes} then (hm_get (g_address_owner g))(sl \<mapsto> key)
            else hm_get (g_address_owner g))" (is ?owner)
    and "hm_get (g_address_binding h) =
           (if hm_get (g_contested g) sl \<noteq> None then hm_get (g_address_binding g)
            else if claim = Contested then (hm_get (g_address_binding g))(sl := None)
            else if claim \<in> {Uncontested, Refines, Supersedes}
                 then (hm_get (g_address_binding g))(sl \<mapsto> ev_source ev)
            else hm_get (g_address_binding g))" (is ?binding)
    and "hm_get (g_contested h) =
           (case hm_get (g_contested g) sl of
              Some c \<Rightarrow> (hm_get (g_contested g))(sl \<mapsto> insort_insert key c)
            | None \<Rightarrow>
                if claim = Contested
                then (hm_get (g_contested g))
                       (sl \<mapsto> bs_extend [] [the (hm_get (g_address_owner g) sl), key])
                else hm_get (g_contested g))" (is ?contested)
proof -
  have held: "hm_get (g_address_owner g) sl \<noteq> None" if "claim = Contested"
    using resolve_claim_contested [of "hm_get (g_address_owner g) sl"] that
    unfolding claim_def by fastforce
  show ?owner ?binding ?contested
    using held unfolding h_def absorb_device_address_def
    by (cases "hm_get (g_contested g) sl"; cases claim;
        auto simp: Let_def apply_claim_def bind_address_def contest_address_def hm_laws
          key_def [symmetric] sl_def [symmetric] claim_def [symmetric] split: option.splits)+
qed

lemma owner_frame:
  assumes "\<not> (\<exists>d a. ev_fact ev = DeviceAddress d a)"
  shows "owners_eq g (absorb ev g)"
proof -
  have "\<not> (\<exists>d a. qualify_fact (ev_fact ev) r = DeviceAddress d a)" for r
    using assms by (cases "ev_fact ev") (auto simp: qualify_fact_def)
  then show ?thesis by (simp add: absorb_def Let_def owners_eq_other_facts)
qed

lemma absorb_device_address_fact:
  "ev_fact ev = DeviceAddress d a \<Longrightarrow>
     absorb ev g = absorb_device_address ev (realm_of (ev_origin ev))
       (qualify_device d (realm_of (ev_origin ev))) a g"
  by (auto simp: absorb_def absorb_fact_def qualify_fact_def Let_def elim: is_local.elims)

text \<open>The three operations, as far as the ownership tables are concerned.\<close>

lemma apply_op_owners:
  "(\<exists>ev d a. op = OpAbsorb ev \<and> ev_fact ev = DeviceAddress d a) \<or> owners_eq g (apply_op op g)"
proof (cases op)
  case (OpAbsorb ev)
  then show ?thesis using owner_frame [of ev g] by auto
qed (simp_all add: owners_eq_merge owners_eq_finalize)

section \<open>Disputes\<close>

lemma apply_op_contested:
  assumes "hm_get (g_contested g) sl = Some c"
  shows "\<exists>c'. hm_get (g_contested (apply_op op g)) sl = Some c' \<and> set c \<subseteq> set c'"
  using apply_op_owners [of op g]
proof (elim disjE exE conjE)
  fix ev d a assume "op = OpAbsorb ev" and f: "ev_fact ev = DeviceAddress d a"
  then show ?thesis
    using assms
    by (auto simp: absorb_device_address_fact absorb_device_address_tables(3) set_insort_insert
        split: option.split)
next
  assume "owners_eq g (apply_op op g)"
  with assms show ?thesis by (simp add: owners_eq_def)
qed

lemma run_contested:
  "hm_get (g_contested g) sl = Some c \<Longrightarrow>
     \<exists>c'. hm_get (g_contested (run ops g)) sl = Some c' \<and> set c \<subseteq> set c'"
proof (induction ops arbitrary: g c)
  case Nil
  then show ?case by auto
next
  case (Cons op ops)
  obtain c1 where c1: "hm_get (g_contested (apply_op op g)) sl = Some c1" "set c \<subseteq> set c1"
    using apply_op_contested [OF Cons.prems] by blast
  from Cons.IH [OF c1(1)] c1(2) show ?case by auto
qed

lemma contested_unowned: "wf_graph g \<Longrightarrow> hm_get (g_contested g) sl = Some c \<Longrightarrow>
    hm_get (g_address_owner g) sl = None \<and> 2 \<le> card (set c)"
  unfolding wf_graph_def wf_owners_def by blast

lemma owned_is_bound:
  assumes "wf_graph g" and "hm_get (g_address_owner g) sl = Some k"
  shows "\<exists>t. hm_get (g_address_binding g) sl = Some t"
proof -
  from assms(1) have "dom (hm_get (g_address_owner g)) = dom (hm_get (g_address_binding g))"
    by (simp add: wf_graph_def wf_owners_def)
  with assms(2) show ?thesis by (metis domD domI)
qed

section \<open>Displacing an owner\<close>

definition confirmed :: "evidence_source \<Rightarrow> bool" where
  "confirmed s \<longleftrightarrow> s = ArpProbe \<or> s = NdpProbe"

lemma binding_freshness_confirmed:
  "binding_freshness s = (if confirmed s then FRESHNESS_CONFIRMED else 1)"
  by (simp add: binding_freshness_def confirmed_def)

text \<open>A hardware owner with a binding on file is only displaced by a validated reply.\<close>

lemma resolve_unconfirmed_mac:
  assumes "\<not> confirmed s"
  shows "resolve_claim (Some (Mac m)) (Some t) key s \<in> {Uncontested, Superseded, Refined}"
    and "resolve_claim (Some (Mac m)) (Some t) key s = Uncontested \<Longrightarrow> key = Mac m"
  using assms
  by (auto simp: resolve_claim_def binding_freshness_confirmed FRESHNESS_CONFIRMED_def Let_def
      split: if_splits)

lemma apply_op_keeps_mac_owner:
  assumes wf: "wf_graph g" and own: "hm_get (g_address_owner g) sl = Some (Mac m)"
    and unc: "\<And>ev. op = OpAbsorb ev \<Longrightarrow> \<not> confirmed (ev_source ev)"
  shows "hm_get (g_address_owner (apply_op op g)) sl = Some (Mac m)"
  using apply_op_owners [of op g]
proof (elim disjE exE conjE)
  fix ev d a assume op: "op = OpAbsorb ev" and f: "ev_fact ev = DeviceAddress d a"
  obtain t where t: "hm_get (g_address_binding g) sl = Some t"
    using owned_is_bound [OF wf own] ..
  let ?r = "realm_of (ev_origin ev)"
  let ?key = "canonical_key g (qualify_device d ?r) (Some a) ?r"
  note keep = resolve_unconfirmed_mac [OF unc [OF op], of m t ?key]
  show ?thesis
  proof (cases "sl = address_slot a (ev_vantage ev) ?r")
    case True
    then show ?thesis
      using keep own t
      by (auto simp: op absorb_device_address_fact [OF f] absorb_device_address_tables(1) Let_def)
  next
    case False
    then show ?thesis
      using own
      by (simp add: op absorb_device_address_fact [OF f] absorb_device_address_tables(1) Let_def)
  qed
next
  assume "owners_eq g (apply_op op g)"
  with own show ?thesis by (simp add: owners_eq_def)
qed

lemma run_keeps_mac_owner:
  assumes "wf_graph g" and "hm_get (g_address_owner g) sl = Some (Mac m)"
    and "\<And>ev. OpAbsorb ev \<in> set ops \<Longrightarrow> \<not> confirmed (ev_source ev)"
  shows "hm_get (g_address_owner (run ops g)) sl = Some (Mac m)"
  using assms
proof (induction ops arbitrary: g)
  case (Cons op ops)
  have "hm_get (g_address_owner (apply_op op g)) sl = Some (Mac m)"
    by (rule apply_op_keeps_mac_owner) (use Cons.prems in auto)
  with Cons show ?case by (simp add: apply_op_wf)
qed simp

section \<open>Validated claims that meet\<close>

text \<open>Evidence that says which device holds the address of a slot.\<close>

definition claims_slot :: "slot \<Rightarrow> topology_evidence \<Rightarrow> bool" where
  "claims_slot sl ev \<longleftrightarrow>
     (case ev_fact ev of
        DeviceAddress d a \<Rightarrow> sl = address_slot a (ev_vantage ev) (realm_of (ev_origin ev))
      | _ \<Rightarrow> False)"

text \<open>The claim of a hardware address stands: disputed, or as owner by a validated reply.\<close>

definition claim_stands :: "slot \<Rightarrow> device_key \<Rightarrow> topology_graph \<Rightarrow> bool" where
  "claim_stands sl k g \<longleftrightarrow>
     (case hm_get (g_contested g) sl of
        Some c \<Rightarrow> k \<in> set c
      | None \<Rightarrow> hm_get (g_address_owner g) sl = Some k \<and> (\<exists>s. hm_get (g_address_binding g) sl = Some s \<and> confirmed s))"

lemma resolve_confirmed:
  assumes "confirmed s"
  shows "resolve_claim held since (Mac m) s \<in> {Uncontested, Refines, Supersedes, Contested}"
    and "resolve_claim held since (Mac m) s = Contested \<Longrightarrow> \<exists>m'. held = Some (Mac m') \<and> m' \<noteq> m"
proof -
  have fresh: "binding_freshness t \<le> binding_freshness s" for t
    using assms by (simp add: binding_freshness_confirmed FRESHNESS_CONFIRMED_def)
  have "\<not> binding_freshness s < (case since of None \<Rightarrow> 0 | Some t \<Rightarrow> binding_freshness t)"
    using fresh by (auto simp: not_less split: option.split)
  then show "resolve_claim held since (Mac m) s \<in> {Uncontested, Refines, Supersedes, Contested}"
    using assms by (auto simp: resolve_claim_def Let_def binding_freshness_confirmed split: option.split)
  assume "resolve_claim held since (Mac m) s = Contested"
  then obtain k where "held = Some k" "k \<noteq> Mac m" "is_mac k"
    by (auto simp: resolve_claim_def Let_def split: option.splits if_splits)
  then show "\<exists>m'. held = Some (Mac m') \<and> m' \<noteq> m" by (cases k) auto
qed

lemma claim_stands_after:
  assumes "ev_fact ev = DeviceAddress d a" and "confirmed (ev_source ev)"
    and "qualify_device d (realm_of (ev_origin ev)) = Mac m"
    and "sl = address_slot a (ev_vantage ev) (realm_of (ev_origin ev))"
  shows "claim_stands sl (Mac m) (absorb ev g)"
proof -
  have "canonical_key g (Mac m) (Some a) r = Mac m" for r by (simp add: canonical_key_def)
  then show ?thesis
    using resolve_confirmed [OF assms(2), of "hm_get (g_address_owner g) sl" "hm_get (g_address_binding g) sl" m] assms
    by (auto simp: claim_stands_def absorb_device_address_fact absorb_device_address_tables Let_def set_insort_insert
        set_bs_extend split: option.split)
qed

lemma claim_stands_op:
  assumes "claim_stands sl (Mac m) g" and "\<And>ev. op = OpAbsorb ev \<Longrightarrow> claims_slot sl ev \<Longrightarrow> confirmed (ev_source ev)"
  shows "claim_stands sl (Mac m) (apply_op op g)"
  using apply_op_owners [of op g]
proof (elim disjE exE conjE)
  fix ev d a assume op: "op = OpAbsorb ev" and f: "ev_fact ev = DeviceAddress d a"
  let ?r = "realm_of (ev_origin ev)"
  let ?key = "canonical_key g (qualify_device d ?r) (Some a) ?r"
  show ?thesis
  proof (cases "sl = address_slot a (ev_vantage ev) ?r")
    case False
    then have "hm_get (g_contested (apply_op op g)) sl = hm_get (g_contested g) sl"
      "hm_get (g_address_owner (apply_op op g)) sl = hm_get (g_address_owner g) sl"
      "hm_get (g_address_binding (apply_op op g)) sl = hm_get (g_address_binding g) sl"
      by (simp_all add: op absorb_device_address_fact [OF f] absorb_device_address_tables Let_def split: option.split)
    with assms(1) show ?thesis by (simp add: claim_stands_def split: option.splits)
  next
    case True
    then have c: "confirmed (ev_source ev)" using assms(2) [OF op] f by (auto simp: claims_slot_def)
    show ?thesis
    proof (cases "hm_get (g_contested g) sl")
      case (Some s)
      with assms(1) True show ?thesis
        by (simp add: op claim_stands_def absorb_device_address_fact [OF f] absorb_device_address_tables Let_def
            set_insort_insert)
    next
      case None
      then obtain t where own: "hm_get (g_address_owner g) sl = Some (Mac m)" "hm_get (g_address_binding g) sl = Some t"
        "confirmed t" using assms(1) by (auto simp: claim_stands_def)
      have "resolve_claim (Some (Mac m)) (Some t) ?key (ev_source ev) \<in> {Uncontested, Refined, Contested}"
        "resolve_claim (Some (Mac m)) (Some t) ?key (ev_source ev) = Uncontested \<Longrightarrow> ?key = Mac m"
        using own(3) c by (auto simp: resolve_claim_def Let_def binding_freshness_confirmed split: if_splits)
      with None own c True show ?thesis
        by (auto simp: op claim_stands_def absorb_device_address_fact [OF f] absorb_device_address_tables Let_def
            set_bs_extend split: option.split)
    qed
  qed
next
  assume "owners_eq g (apply_op op g)"
  with assms(1) show ?thesis by (simp add: claim_stands_def owners_eq_def split: option.splits)
qed

lemma claim_stands_run:
  "claim_stands sl (Mac m) g \<Longrightarrow>
   (\<And>ev. OpAbsorb ev \<in> set ops \<Longrightarrow> claims_slot sl ev \<Longrightarrow> confirmed (ev_source ev)) \<Longrightarrow>
     claim_stands sl (Mac m) (run ops g)"
proof (induction ops arbitrary: g)
  case (Cons op ops)
  have "claim_stands sl (Mac m) (apply_op op g)" by (rule claim_stands_op) (use Cons.prems in auto)
  with Cons show ?case by simp
qed simp

text \<open>A second validated claim on a slot where another stands makes it disputed between the two.\<close>

lemma second_claim_disputes:
  assumes "claim_stands sl (Mac m) g" and "m' \<noteq> m"
    and f: "ev_fact ev = DeviceAddress d a" and "confirmed (ev_source ev)"
    and "qualify_device d (realm_of (ev_origin ev)) = Mac m'"
    and "sl = address_slot a (ev_vantage ev) (realm_of (ev_origin ev))"
  shows "\<exists>c. hm_get (g_contested (absorb ev g)) sl = Some c \<and> {Mac m, Mac m'} \<subseteq> set c"
proof -
  have "canonical_key g (Mac m') (Some a) r = Mac m'" for r by (simp add: canonical_key_def)
  moreover have "resolve_claim (Some (Mac m)) (Some s) (Mac m') (ev_source ev) = Contested" if "confirmed s" for s
    using that assms(2,4) by (simp add: resolve_claim_def binding_freshness_confirmed)
  ultimately show ?thesis
    using assms
    by (auto simp: claim_stands_def absorb_device_address_fact [OF f] absorb_device_address_tables Let_def
        set_insort_insert set_bs_extend split: option.splits)
qed

section \<open>Observation domains do not share slots\<close>

definition same_slot :: "slot \<Rightarrow> topology_graph \<Rightarrow> topology_graph \<Rightarrow> bool" where
  "same_slot sl g h \<longleftrightarrow>
     hm_get (g_address_owner h) sl = hm_get (g_address_owner g) sl \<and>
     hm_get (g_address_binding h) sl = hm_get (g_address_binding g) sl \<and>
     hm_get (g_contested h) sl = hm_get (g_contested g) sl"

lemma same_slot_trans: "same_slot sl f g \<Longrightarrow> same_slot sl g h \<Longrightarrow> same_slot sl f h"
  by (simp add: same_slot_def)

lemma apply_op_isolated:
  assumes "\<not> is_globally_unique_address a"
    and foreign: "\<And>ev. op = OpAbsorb ev \<Longrightarrow> realm_of (ev_origin ev) \<noteq> r"
  shows "same_slot (a, z, r) g (apply_op op g)"
  using apply_op_owners [of op g]
proof (elim disjE exE conjE)
  fix ev d b assume op: "op = OpAbsorb ev" and f: "ev_fact ev = DeviceAddress d b"
  have "address_slot b (ev_vantage ev) (realm_of (ev_origin ev)) \<noteq> (a, z, r)"
    using assms(1) foreign [OF op] by (auto simp: address_slot_def address_realm_def)
  then show ?thesis
    by (simp add: op absorb_device_address_fact [OF f] absorb_device_address_tables same_slot_def
        Let_def split: option.split)
next
  assume "owners_eq g (apply_op op g)"
  then show ?thesis by (simp add: owners_eq_def same_slot_def)
qed

lemma run_isolated:
  assumes "\<not> is_globally_unique_address a"
    and "\<And>ev. OpAbsorb ev \<in> set ops \<Longrightarrow> realm_of (ev_origin ev) \<noteq> r"
  shows "same_slot (a, z, r) g (run ops g)"
  using assms(2)
proof (induction ops arbitrary: g)
  case (Cons op ops)
  have "same_slot (a, z, r) g (apply_op op g)"
    by (rule apply_op_isolated) (use assms(1) Cons.prems in auto)
  moreover have "same_slot (a, z, r) (apply_op op g) (run ops (apply_op op g))"
    by (rule Cons.IH) (use Cons.prems in auto)
  ultimately show ?case by (auto intro: same_slot_trans)
qed (simp add: same_slot_def)

section \<open>What finalisation assigns\<close>

lemma get_modify_node:
  "bm_get (g_nodes (modify_node nid f g)) k =
     (if k = nid then map_option f (bm_get (g_nodes g) k) else bm_get (g_nodes g) k)"
  by (auto simp: modify_node_def bm_entry_laws split: option.split)

lemma get_fold_modify_alist:
  "distinct (map fst xs) \<Longrightarrow>
     bm_get (g_nodes (fold (\<lambda>x. modify_node (fst x) (f (snd x))) xs g)) k =
       (case map_of xs k of None \<Rightarrow> bm_get (g_nodes g) k
                          | Some v \<Rightarrow> map_option (f v) (bm_get (g_nodes g) k))"
proof (induction xs arbitrary: g)
  case (Cons x xs)
  then have "k = fst x \<Longrightarrow> map_of xs k = None" by (auto simp: map_of_eq_None_iff)
  with Cons show ?case by (auto simp: get_modify_node split: option.split)
qed simp

lemma get_fold_modify_const:
  assumes "\<And>n. f (f n) = f n"
  shows "bm_get (g_nodes (fold (\<lambda>x. modify_node x f) xs g)) k =
           (if k \<in> set xs then map_option f (bm_get (g_nodes g) k) else bm_get (g_nodes g) k)"
  by (induction xs arbitrary: g)
    (auto simp: get_modify_node assms option.map_comp comp_def)

lemma map_of_map_snd: "map_of (map (\<lambda>(k, v). (k, f v)) xs) k = map_option f (map_of xs k)"
  by (induction xs) auto

lemma get_assign_roles:
  assumes "wf_weights (g_role_weights g)"
  shows "bm_get (g_nodes (assign_roles g)) k =
     map_option (\<lambda>n. case hm_get (g_role_weights g) k of
                       None \<Rightarrow> n
                     | Some s \<Rightarrow> n\<lparr>nd_kind := role_kind (score_role s) (nd_kind n)\<rparr>)
       (bm_get (g_nodes g) k)"
proof -
  let ?roles = "map (\<lambda>(nid, s). (nid, score_role s)) (g_role_weights g)"
  let ?f = "\<lambda>role n. n\<lparr>nd_kind := role_kind role (nd_kind n)\<rparr>"
  have "distinct (map fst ?roles)"
    using assms by (simp add: wf_weights_def hm_ok_def comp_def case_prod_unfold)
  note fold = get_fold_modify_alist [OF this, of ?f g k]
  have "assign_roles g = fold (\<lambda>x. modify_node (fst x) (?f (snd x))) ?roles g"
    by (simp only: assign_roles_def case_prod_unfold)
  then show ?thesis
    by (cases "hm_get (g_role_weights g) k")
      (simp_all only: fold map_of_map_snd option.case option.map option.map_ident)
qed

lemma get_mark_opaque:
  assumes "wf_nodes (g_nodes g)"
  shows "bm_get (g_nodes (mark_opaque g)) k =
     map_option (\<lambda>n. if nd_opaque_reason n = None then n
                     else n\<lparr>nd_kind := node_kind.OpaqueBoundary\<rparr>)
       (bm_get (g_nodes g) k)"
proof -
  have marked: "k \<in> set (map nd_id (filter (\<lambda>n. nd_opaque_reason n \<noteq> None) (map snd (g_nodes g)))) \<longleftrightarrow>
      nd_opaque_reason n \<noteq> None" if n: "bm_get (g_nodes g) k = Some n" for n
  proof
    assume "k \<in> set (map nd_id (filter (\<lambda>n. nd_opaque_reason n \<noteq> None) (map snd (g_nodes g))))"
    then obtain j m where m: "(j, m) \<in> set (g_nodes g)" "nd_opaque_reason m \<noteq> None" "k = nd_id m"
      by auto
    have ok: "bm_ok (g_nodes g)" using assms by (simp add: wf_nodes_def bm_all_def)
    have "wf_node j m" by (rule bm_all_set [OF assms [unfolded wf_nodes_def] m(1)])
    then have "j = k" using m(3) by (simp add: wf_node_def)
    with m n ok show "nd_opaque_reason n \<noteq> None" by (auto simp: set_bm_get)
  next
    assume "nd_opaque_reason n \<noteq> None"
    moreover have "nd_id n = k"
      using bm_allD [OF assms [unfolded wf_nodes_def] n] by (simp add: wf_node_def)
    moreover have "n \<in> snd ` set (g_nodes g)" using map_of_SomeD [OF n] by force
    ultimately show "k \<in> set (map nd_id (filter (\<lambda>n. nd_opaque_reason n \<noteq> None) (map snd (g_nodes g))))"
      by auto
  qed
  show ?thesis
  proof (cases "bm_get (g_nodes g) k")
    case (Some n)
    then show ?thesis
      using marked [OF Some] unfolding mark_opaque_def
      by (subst get_fold_modify_const) (auto simp del: set_map set_filter)
  qed (simp add: mark_opaque_def get_fold_modify_const)
qed

end
