(* ===== verification/Graph_Sources.thy ===== *)
theory Graph_Sources
  imports Graph_Runs
begin

text \<open>
  Where the contents of the topology graph come from. The locale carries a property of a node's
  identity, provenance and address provenance through every operation of a run; its
  interpretations say that every node has evidence that stated it, that a network node has
  evidence that carried its prefix, and that an address marked as seen here was seen here.
\<close>

section \<open>What a fact may create\<close>

fun stated_prefixes :: "fact \<Rightarrow> ip_net list" where
  "stated_prefixes (fact.Network p) = [p]"
| "stated_prefixes (InterfaceNetwork i p) = [p]"
| "stated_prefixes (VlanNetwork v p) = [p]"
| "stated_prefixes (fact.GatewayFor d p) = [p]"
| "stated_prefixes (fact.RoutesTo d p h) = [p]"
| "stated_prefixes (fact.AttachedTo d p) = [p]"
| "stated_prefixes _ = []"

fun binds_vlan :: "fact \<Rightarrow> bool" where
  "binds_vlan (VlanNetwork v p) = True"
| "binds_vlan _ = False"

text \<open>The network nodes a fact may create: only for a prefix it states.\<close>

fun may_create :: "fact \<Rightarrow> node_id \<Rightarrow> bool" where
  "may_create f (node_id.Network p r) =
     (p \<in> set (stated_prefixes f) \<and> (is_topology_network p \<or> binds_vlan f))"
| "may_create f _ = True"

lemma qualify_fact_states [simp]:
  "stated_prefixes (qualify_fact f r) = stated_prefixes f"
  "binds_vlan (qualify_fact f r) = binds_vlan f"
  by (cases f; simp add: qualify_fact_def)+

lemma qualify_fact_address:
  "qualify_fact f r = DeviceAddress d a \<Longrightarrow> \<exists>d'. f = DeviceAddress d' a"
  by (cases f) (auto simp: qualify_fact_def split: if_splits)

lemma is_local_realm_of: "is_local (realm_of (ev_origin ev)) \<longleftrightarrow> \<not> is_remote ev"
  by (simp add: realm_of_def is_remote_def split: option.split)

text \<open>An address marked as seen here was noted as seen here.\<close>

lemma note_in_local: "(a, False) \<in> set (note_in b remote as) \<Longrightarrow>
    (a, False) \<in> set as \<or> (a = b \<and> \<not> remote)"
  by (induction b remote as rule: note_in.induct) (auto split: if_splits)

lemma fold_note_in_local:
  "(a, False) \<in> set (fold (\<lambda>(b, remote). note_in b remote) bs as) \<Longrightarrow>
     (a, False) \<in> set as \<or> (a, False) \<in> set bs"
proof (induction bs arbitrary: as)
  case (Cons b bs)
  then show ?case using note_in_local [of a "fst b" "snd b" as] by (cases b) fastforce
qed simp

section \<open>Properties kept by every operation\<close>

text \<open>
  A property that holds of every node a piece of evidence creates and survives further evidence,
  address claims and merging holds of every node of every run.
\<close>

locale node_property =
  fixes Q :: "node_id \<Rightarrow> provenance list \<Rightarrow> (ip_addr \<times> bool) list \<Rightarrow> bool"
    and E :: "topology_evidence set"
  assumes created: "ev \<in> E \<Longrightarrow> may_create (ev_fact ev) k \<Longrightarrow> Q k [from_evidence ev] []"
    and added: "ev \<in> E \<Longrightarrow> Q k ps as \<Longrightarrow> Q k (ps @ [from_evidence ev]) as"
    and noted: "ev \<in> E \<Longrightarrow> ev_fact ev = DeviceAddress d a \<Longrightarrow> Q k ps as \<Longrightarrow>
                  Q k ps (note_in a (is_remote ev) as)"
    and dropped: "Q k ps as \<Longrightarrow> Q k ps (filter (\<lambda>(b, _). b \<noteq> a) as)"
    and merged: "Q k ps as \<Longrightarrow> Q k' qs bs \<Longrightarrow>
                   Q k (ps @ qs) (fold (\<lambda>(a, remote). note_in a remote) bs as)"
begin

definition holds :: "topology_graph \<Rightarrow> bool" where
  "holds g \<longleftrightarrow> bm_all (\<lambda>k n. Q k (nd_provenance n) (nd_address_provenance n)) (g_nodes g)"

lemma holds_upsert:
  assumes "holds g" and "ev \<in> E" and "may_create (ev_fact ev) nid"
  shows "holds (upsert nid kind c (from_evidence ev) g)"
  unfolding holds_def upsert_def
  by (simp, rule bm_all_entry)
    (use assms in \<open>auto simp: holds_def node_new_def intro: created added\<close>)

lemma holds_modify:
  assumes "holds g"
    and "\<And>n. Q nid (nd_provenance n) (nd_address_provenance n) \<Longrightarrow>
           Q nid (nd_provenance (f n)) (nd_address_provenance (f n))"
  shows "holds (modify_node nid f g)"
  using assms unfolding holds_def modify_node_def by (simp add: bm_all_modify)

lemma holds_same_nodes: "g_nodes h = g_nodes g \<Longrightarrow> holds g \<Longrightarrow> holds h"
  by (simp add: holds_def)

lemma holds_frames [simp]:
  "holds (link a b rel c p g) = holds g"
  "holds (g\<lparr>g_vlans_without_prefix := vs\<rparr>) = holds g"
  "holds (g\<lparr>g_egress_path := es\<rparr>) = holds g"
  "holds (g\<lparr>g_role_weights := ws\<rparr>) = holds g"
  "holds (g\<lparr>g_contested := cs\<rparr>) = holds g"
  "holds (g\<lparr>g_address_owner := os, g_address_binding := bs\<rparr>) = holds g"
  "holds (g\<lparr>g_address_owner := os, g_address_binding := bs, g_contested := cs\<rparr>) = holds g"
  by (simp_all add: holds_def)

lemma holds_address_ops:
  assumes "holds g" and "ev \<in> E" and "ev_fact ev = DeviceAddress d a"
  shows "holds (modify_node nid (hold_address a (is_remote ev)) g)"
    and "holds (modify_node nid (dispute_address a (is_remote ev)) g)"
    and "holds (modify_node nid (supersede_address a h) g)"
  using assms by (auto intro!: holds_modify intro: noted dropped simp: hold_address_def
      note_address_def dispute_address_def supersede_address_def Let_def)

lemma holds_apply_claim:
  assumes "holds g" and "ev \<in> E" and "ev_fact ev = DeviceAddress d a"
  shows "holds (apply_claim sl held res key s a (is_remote ev) g)"
  using holds_address_ops [OF _ assms(2,3)] assms(1)
  by (cases res)
    (auto simp: apply_claim_def bind_address_def contest_address_def split: option.split)

lemma holds_upsert_network:
  assumes "holds g" and "ev \<in> E" and "p \<in> set (stated_prefixes (ev_fact ev))"
  shows "holds (snd (upsert_network p r c (from_evidence ev) g))"
  using assms by (auto simp: upsert_network_def intro: holds_upsert)

lemma holds_absorb_device:
  "holds g \<Longrightarrow> ev \<in> E \<Longrightarrow>
     (\<And>n. nd_provenance (f n) = nd_provenance n \<and> nd_address_provenance (f n) = nd_address_provenance n) \<Longrightarrow>
     holds (absorb_device ev r d f g)"
  by (simp add: absorb_device_def Let_def holds_modify holds_upsert)

lemma holds_absorb_device_network:
  "holds g \<Longrightarrow> ev \<in> E \<Longrightarrow> p \<in> set (stated_prefixes (ev_fact ev)) \<Longrightarrow>
     holds (snd (absorb_device_network ev r d p rel g))"
  by (simp add: absorb_device_network_def Let_def case_prod_unfold holds_upsert holds_upsert_network)

lemma holds_absorb_fact:
  assumes g: "holds g" and ev: "ev \<in> E"
    and sp: "stated_prefixes (ev_fact ev) = stated_prefixes f"
    and bv: "binds_vlan (ev_fact ev) = binds_vlan f"
    and da: "\<And>d a. f = DeviceAddress d a \<Longrightarrow> \<exists>d'. ev_fact ev = DeviceAddress d' a"
    and r: "is_local r \<longleftrightarrow> \<not> is_remote ev"
  shows "holds (absorb_fact ev r f g)"
proof (cases f)
  case (Vlan vid)
  then show ?thesis using g ev by (simp add: absorb_fact_def absorb_vlan_def Let_def holds_upsert)
next
  case (VlanNetwork v p)
  then show ?thesis
    using g ev sp bv
    by (simp add: absorb_fact_def absorb_vlan_network_def Let_def holds_upsert)
next
  case (InterfaceNetwork i p)
  then show ?thesis
    using g ev sp
    by (simp add: absorb_fact_def absorb_interface_network_def Let_def case_prod_unfold holds_upsert
        holds_upsert_network)
next
  case (DeviceAddress d a)
  obtain d' where d': "ev_fact ev = DeviceAddress d' a" using da [OF DeviceAddress] ..
  note ops = holds_address_ops [OF _ ev d'] holds_apply_claim [OF _ ev d']
  show ?thesis
    using g ev ops
    by (auto simp: DeviceAddress absorb_fact_def absorb_device_address_def Let_def holds_upsert r
        split: option.split)
next
  case (RoutesTo d p hop)
  then show ?thesis
    using holds_absorb_device_network [OF g ev] sp ev
    by (simp add: absorb_fact_def absorb_routes_to_def Let_def case_prod_unfold holds_upsert
        split: option.split)
next
  case (ForwardsToward d t n prev)
  then show ?thesis
    using g ev
    by (simp add: absorb_fact_def absorb_forwards_toward_def Let_def holds_upsert split: option.split)
next
  case (Service a port pr det)
  then show ?thesis
    using g ev
    by (simp add: absorb_fact_def absorb_service_def Let_def holds_upsert holds_modify
        add_description_def split: option.split)
next
  case (ResolvedAs name a)
  then show ?thesis
    using g ev
    by (simp add: absorb_fact_def absorb_resolved_as_def Let_def holds_upsert holds_modify
        add_hostname_def split: option.split)
next
  case (DeviceRoleSignal d s)
  then show ?thesis
    using g ev
    by (simp add: absorb_fact_def absorb_role_signal_def Let_def holds_upsert holds_modify)
next
  case (BridgeLink b root port)
  then show ?thesis
    using g ev
    by (simp add: absorb_fact_def absorb_bridge_link_def Let_def holds_upsert split: option.split)
next
  case (ObservedBehind d via)
  then show ?thesis
    using g ev
    by (simp add: absorb_fact_def absorb_observed_behind_def Let_def holds_upsert)
qed (use g ev sp in \<open>simp_all add: absorb_fact_def holds_absorb_device holds_absorb_device_network
    holds_upsert_network add_hostname_def add_description_def add_capability_def set_vendor_def
    set_opaque_def Let_def\<close>)

lemma holds_absorb:
  assumes "holds g" and "ev \<in> E"
  shows "holds (absorb ev g)"
  unfolding absorb_def Let_def
  by (rule holds_absorb_fact [OF assms])
    (auto simp: is_local_realm_of dest: qualify_fact_address)

lemma holds_merge_one: "holds (fst st) \<Longrightarrow> holds (fst (merge_one m st))"
  unfolding merge_one_def holds_def
  by (auto simp: absorb_node_def Let_def split: prod.splits option.split
      intro!: bm_all_modify bm_all_remove merged dest: bm_allD)

lemma holds_merge: "holds g \<Longrightarrow> holds (fst (merge_address_identities g))"
  unfolding merge_address_identities_def
  by (rule fold_invariant [where Q = "\<lambda>_. True"]) (auto intro: holds_merge_one)

lemma holds_fold_modify:
  "holds g \<Longrightarrow>
     (\<And>x n. nd_provenance (f x n) = nd_provenance n \<and>
             nd_address_provenance (f x n) = nd_address_provenance n) \<Longrightarrow>
     holds (fold (\<lambda>x. modify_node (i x) (f x)) xs g)"
  by (induction xs arbitrary: g) (simp_all add: holds_modify)

lemma holds_finalize: "holds g \<Longrightarrow> holds (finalize_roles g)"
  unfolding finalize_roles_def mark_opaque_def assign_roles_def case_prod_unfold
  by (intro holds_fold_modify [where i = "\<lambda>x. x"] holds_fold_modify holds_merge) simp_all

lemma holds_run:
  assumes "\<And>ev. OpAbsorb ev \<in> set ops \<Longrightarrow> ev \<in> E"
  shows "holds (run ops graph_new)"
proof (rule run_induct)
  show "holds graph_new" by (simp add: holds_def graph_new_def)
next
  fix op h assume op: "op \<in> set ops" and h: "holds h"
  show "holds (apply_op op h)"
    by (cases op) (use op h assms in \<open>simp_all add: holds_absorb holds_merge holds_finalize\<close>)
qed

end

definition absorbed :: "graph_op list \<Rightarrow> topology_evidence set" where
  "absorbed ops = {ev. OpAbsorb ev \<in> set ops}"

interpretation sourced: node_property
  "\<lambda>k ps as. set ps \<subseteq> from_evidence ` E" E for E
  by unfold_locales auto

interpretation stated: node_property
  "\<lambda>k ps as. case k of
            node_id.Network p r \<Rightarrow>
              \<exists>ev \<in> E. p \<in> set (stated_prefixes (ev_fact ev)) \<and>
                (is_topology_network p \<or> binds_vlan (ev_fact ev))
          | _ \<Rightarrow> True" E for E
  by unfold_locales (auto split: node_id.splits)

definition seen_here :: "topology_evidence set \<Rightarrow> ip_addr \<Rightarrow> bool" where
  "seen_here E a \<longleftrightarrow> (\<exists>ev \<in> E. \<not> is_remote ev \<and> (\<exists>d. ev_fact ev = DeviceAddress d a))"

interpretation seen: node_property
  "\<lambda>k ps as. \<forall>a. (a, False) \<in> set as \<longrightarrow> seen_here E a" E for E
  by unfold_locales (auto simp: seen_here_def dest: note_in_local fold_note_in_local)

end
