(* ===== verification/Graph_Grow.thy ===== *)
theory Graph_Grow
  imports Graph_Runs
begin

text \<open>
  What absorbing evidence may take away: no node, no observation, name or grade recorded on one.
  An address leaves a node only into the record of the addresses it handed over, and a vendor or a
  boundary this machine established is not replaced by what a peer reports.
\<close>

section \<open>How a node may change\<close>

text \<open>The addresses of a node that this machine observed itself.\<close>

definition seen_locally :: "node \<Rightarrow> ip_addr set" where
  "seen_locally n = {a. (a, False) \<in> set (nd_address_provenance n)}"

definition node_core_grows :: "bool \<Rightarrow> node \<Rightarrow> node \<Rightarrow> bool" where
  "node_core_grows remote n n' \<longleftrightarrow>
     nd_id n' = nd_id n \<and> nd_kind n' = nd_kind n \<and>
     (\<exists>ps. nd_provenance n' = nd_provenance n @ ps) \<and>
     nd_confidence n \<le> nd_confidence n' \<and>
     set (nd_hostnames n) \<subseteq> set (nd_hostnames n') \<and>
     set (nd_descriptions n) \<subseteq> set (nd_descriptions n') \<and>
     set (nd_role_signals n) \<subseteq> set (nd_role_signals n') \<and>
     set (nd_capabilities n) \<subseteq> set (nd_capabilities n') \<and>
     set (nd_contested_addresses n) \<subseteq> set (nd_contested_addresses n') \<and>
     set (nd_superseded_addresses n) \<subseteq> set (nd_superseded_addresses n') \<and>
     (nd_vendor n \<noteq> None \<longrightarrow> nd_vendor n' \<noteq> None) \<and>
     (nd_opaque_reason n \<noteq> None \<longrightarrow> nd_opaque_reason n' \<noteq> None) \<and>
     (remote \<and> locally_observed n \<longrightarrow>
        (nd_vendor n \<noteq> None \<longrightarrow> nd_vendor n' = nd_vendor n) \<and>
        (nd_opaque_reason n \<noteq> None \<longrightarrow> nd_opaque_reason n' = nd_opaque_reason n))"

text \<open>An address that is gone, or no longer counted as seen here, is on record as handed over.\<close>

definition hands_over :: "node \<Rightarrow> node \<Rightarrow> bool" where
  "hands_over n n' \<longleftrightarrow>
     set (nd_addresses n) \<subseteq> set (nd_addresses n') \<union> fst ` set (nd_superseded_addresses n') \<and>
     seen_locally n \<subseteq> seen_locally n' \<union> fst ` set (nd_superseded_addresses n')"

definition node_grows :: "bool \<Rightarrow> node \<Rightarrow> node \<Rightarrow> bool" where
  "node_grows remote n n' \<longleftrightarrow> node_core_grows remote n n' \<and> hands_over n n'"

lemma seen_locally_update [simp]:
  "seen_locally (n\<lparr>nd_addresses := as\<rparr>) = seen_locally n"
  "seen_locally (n\<lparr>nd_superseded_addresses := ss\<rparr>) = seen_locally n"
  "seen_locally (n\<lparr>nd_contested_addresses := as\<rparr>) = seen_locally n"
  "seen_locally (n\<lparr>nd_hostnames := hs\<rparr>) = seen_locally n"
  "seen_locally (n\<lparr>nd_descriptions := hs\<rparr>) = seen_locally n"
  "seen_locally (n\<lparr>nd_role_signals := hs\<rparr>) = seen_locally n"
  "seen_locally (n\<lparr>nd_capabilities := hs\<rparr>) = seen_locally n"
  "seen_locally (n\<lparr>nd_vendor := v\<rparr>) = seen_locally n"
  "seen_locally (n\<lparr>nd_opaque_reason := v\<rparr>) = seen_locally n"
  "seen_locally (n\<lparr>nd_confidence := c\<rparr>) = seen_locally n"
  "seen_locally (n\<lparr>nd_provenance := ps\<rparr>) = seen_locally n"
  by (simp_all add: seen_locally_def)

lemma seen_locally_note: "seen_locally n \<subseteq> seen_locally (note_address a r n)"
proof -
  have "(b, False) \<in> set ps \<Longrightarrow> (b, False) \<in> set (note_in a r ps)" for b ps
    by (induction a r ps rule: note_in.induct) auto
  then show ?thesis by (auto simp: seen_locally_def note_address_def)
qed

lemma seen_locally_supersede:
  "seen_locally n \<subseteq> insert a (seen_locally (supersede_address a h n))"
  by (auto simp: seen_locally_def supersede_address_def)

lemma node_grows_refl [simp]: "node_grows remote n n"
  by (simp add: node_grows_def node_core_grows_def hands_over_def)

lemma node_core_grows_trans:
  assumes "node_core_grows remote a b" and "node_core_grows remote b c"
  shows "node_core_grows remote a c"
proof -
  have "locally_observed b" if "locally_observed a"
    using that assms(1) by (auto simp: node_core_grows_def locally_observed_def)
  then show ?thesis using assms unfolding node_core_grows_def
    by (elim conjE, intro conjI; (metis append.assoc order_trans)?)
qed

lemma node_grows_trans:
  assumes "node_grows remote a b" and "node_grows remote b c"
  shows "node_grows remote a c"
proof -
  have "fst ` set (nd_superseded_addresses b) \<subseteq> fst ` set (nd_superseded_addresses c)"
    using assms(2) unfolding node_grows_def node_core_grows_def by (intro image_mono) blast
  then have "hands_over a c" using assms unfolding node_grows_def hands_over_def by blast
  then show ?thesis using assms node_core_grows_trans unfolding node_grows_def by blast
qed

definition grows :: "bool \<Rightarrow> topology_graph \<Rightarrow> topology_graph \<Rightarrow> bool" where
  "grows remote g h \<longleftrightarrow>
     (\<forall>k n. bm_get (g_nodes g) k = Some n \<longrightarrow>
        (\<exists>n'. bm_get (g_nodes h) k = Some n' \<and> node_grows remote n n'))"

lemma grows_refl [simp]: "grows remote g g"
  by (simp add: grows_def)

lemma grows_trans [trans]: "grows remote f g \<Longrightarrow> grows remote g h \<Longrightarrow> grows remote f h"
  unfolding grows_def by (meson node_grows_trans)

lemma grows_same_nodes: "g_nodes h = g_nodes g \<Longrightarrow> grows remote f g \<Longrightarrow> grows remote f h"
  by (simp add: grows_def)

lemma grows_ids: "grows remote g h \<Longrightarrow> dom (bm_get (g_nodes g)) \<subseteq> dom (bm_get (g_nodes h))"
  unfolding grows_def by blast

lemma grows_upsert:
  assumes "grows remote f g"
  shows "grows remote f (upsert nid kind c p g)"
proof -
  have "grows remote g (upsert nid kind c p g)"
    by (auto simp: grows_def upsert_def bm_entry_laws raise_confidence_def node_grows_def node_core_grows_def
        hands_over_def)
  with assms show ?thesis by (rule grows_trans)
qed

lemma grows_modify:
  assumes "grows remote f g" and "\<And>n. node_grows remote n (h n)"
  shows "grows remote f (modify_node nid h g)"
proof -
  have "grows remote g (modify_node nid h g)"
    using assms(2) by (auto simp: grows_def modify_node_def bm_entry_laws)
  with assms(1) show ?thesis by (rule grows_trans)
qed

lemma grows_link [simp]: "grows remote f (link a b rel c p g) = grows remote f g"
  by (simp add: grows_def)

lemma grows_tables [simp]:
  "grows remote f (g\<lparr>g_vlans_without_prefix := vs\<rparr>) = grows remote f g"
  "grows remote f (g\<lparr>g_egress_path := es\<rparr>) = grows remote f g"
  "grows remote f (g\<lparr>g_role_weights := ws\<rparr>) = grows remote f g"
  "grows remote f (g\<lparr>g_contested := cs\<rparr>) = grows remote f g"
  "grows remote f (g\<lparr>g_address_owner := os, g_address_binding := bs\<rparr>) = grows remote f g"
  "grows remote f (g\<lparr>g_address_owner := os, g_address_binding := bs, g_contested := cs\<rparr>) =
     grows remote f g"
  by (simp_all add: grows_def)

lemma node_grows_ops [simp]:
  "node_grows remote n (hold_address a r n)"
  "node_grows remote n (dispute_address a r n)"
  "node_grows remote n (supersede_address a h n)"
  "node_grows remote n (add_hostname s n)"
  "node_grows remote n (add_description s n)"
  "node_grows remote n (add_capability c d n)"
  "node_grows remote n (set_vendor remote s n)"
  "node_grows remote n (set_opaque remote s n)"
proof -
  have note_fields: "nd_addresses (note_address a r m) = nd_addresses m" "nd_provenance (note_address a r m) = nd_provenance m"
    for m by (simp_all add: note_address_def)
  have "seen_locally n \<subseteq> seen_locally (hold_address a r n)"
    using seen_locally_note [of "n\<lparr>nd_addresses := insort_insert a (nd_addresses n)\<rparr>" a r]
    by (simp add: hold_address_def)
  moreover have "seen_locally (dispute_address a r n) = seen_locally (hold_address a r n)"
    by (simp add: dispute_address_def Let_def)
  ultimately show "node_grows remote n (hold_address a r n)" "node_grows remote n (dispute_address a r n)"
    by (auto simp: node_grows_def node_core_grows_def hands_over_def hold_address_def note_address_def dispute_address_def Let_def set_insort_insert)
  show "node_grows remote n (supersede_address a h n)"
    using seen_locally_supersede [of n a h]
    by (auto simp: node_grows_def node_core_grows_def hands_over_def supersede_address_def set_insort_insert)
qed (auto simp: node_grows_def node_core_grows_def hands_over_def add_hostname_def add_description_def add_capability_def set_vendor_def
      set_opaque_def Let_def set_insort_insert)

section \<open>Every fact only adds\<close>

lemma grows_apply_claim:
  "grows remote f g \<Longrightarrow> grows remote f (apply_claim sl held res key s a r g)"
  by (cases res)
    (auto simp: apply_claim_def bind_address_def contest_address_def grows_modify
      split: option.split)

lemmas grows_intros = grows_upsert grows_modify grows_apply_claim

lemma grows_upsert_network:
  "grows remote f g \<Longrightarrow> grows remote f (snd (upsert_network p r c pr g))"
  by (simp add: upsert_network_def grows_upsert)

lemma grows_absorb_device_network:
  "grows remote f g \<Longrightarrow> grows remote f (snd (absorb_device_network ev r d p rel g))"
  by (simp add: absorb_device_network_def Let_def case_prod_unfold grows_upsert grows_upsert_network)

lemma grows_absorb_fact: "grows (is_remote ev) g (absorb_fact ev r fa g)"
proof (cases fa)
  case (RoutesTo d p hop)
  then show ?thesis
    using grows_absorb_device_network [OF grows_refl]
    by (simp add: absorb_fact_def absorb_routes_to_def Let_def case_prod_unfold grows_upsert
        split: option.split)
next
  case (DeviceRoleSignal d s)
  have "node_grows remote n (n\<lparr>nd_role_signals := insort_insert x (nd_role_signals n)\<rparr>)" for remote n x
    by (auto simp: node_grows_def node_core_grows_def hands_over_def set_insort_insert)
  then show ?thesis
    by (simp add: DeviceRoleSignal absorb_fact_def absorb_role_signal_def Let_def grows_intros)
qed (auto simp: absorb_fact_def absorb_interface_network_def absorb_vlan_def
    absorb_vlan_network_def absorb_device_def absorb_bridge_link_def absorb_forwards_toward_def
    absorb_observed_behind_def absorb_service_def absorb_resolved_as_def absorb_device_address_def
    Let_def case_prod_unfold grows_intros grows_upsert_network grows_absorb_device_network
    split: option.split)

lemma grows_absorb: "grows (is_remote ev) g (absorb ev g)"
  by (simp add: absorb_def Let_def grows_absorb_fact)

section \<open>Which nodes there are afterwards\<close>

lemma grows_modify_ids [simp]:
  "dom (bm_get (g_nodes (modify_node nid f g))) = dom (bm_get (g_nodes g))"
  by (simp add: modify_node_def bm.dom_modify [folded bm_modify_def])

lemma grows_apply_claim_ids [simp]:
  "dom (bm_get (g_nodes (apply_claim sl held res key s a r g))) = dom (bm_get (g_nodes g))"
  by (cases res)
    (simp_all add: apply_claim_def bind_address_def contest_address_def split: option.split)

lemma fold_modify_ids:
  "dom (bm_get (g_nodes (fold (\<lambda>x. modify_node (i x) (f x)) xs g))) = dom (bm_get (g_nodes g))"
  by (induction xs arbitrary: g) simp_all

lemma finalize_roles_ids:
  "dom (bm_get (g_nodes (finalize_roles g))) =
     dom (bm_get (g_nodes (fst (merge_address_identities g))))"
  unfolding finalize_roles_def mark_opaque_def assign_roles_def case_prod_unfold
  by (simp add: fold_modify_ids fold_modify_ids [where i = "\<lambda>x. x"])

end
