(* ===== verification/Graph_Merge.thy ===== *)
theory Graph_Merge
  imports Graph_Sources Graph_Grow
begin

text \<open>
  What \<open>merge_address_identities\<close> does to a graph: it removes exactly the address identities
  whose address a hardware identity owns, it is complete (nothing is left to merge), and it
  conserves provenance (every observation recorded before is recorded after, once).
\<close>

section \<open>Which identities are removed\<close>

abbreviation node_ids :: "topology_graph \<Rightarrow> node_id set" where
  "node_ids g \<equiv> dom (bm_get (g_nodes g))"

fun is_hardware :: "node_id \<Rightarrow> bool" where
  "is_hardware (Device key) = is_mac key"
| "is_hardware _ = False"

lemma dom_merge_one:
  "node_ids (fst (merge_one (fr, to) (g, al))) =
     (if fr \<noteq> to \<and> to \<in> node_ids g then node_ids g - {fr} else node_ids g)"
  by (auto simp: merge_one_def bm_entry_laws bm.dom_modify [folded bm_modify_def]
      map_of_bm_remove split: option.split if_splits)

lemma merge_one_absent:
  "fr \<notin> node_ids g \<or> to \<notin> node_ids g \<Longrightarrow> merge_one (fr, to) (g, al) = (g, al)"
  by (auto simp: merge_one_def domIff split: option.split)

lemma dom_fold_merge:
  assumes "\<forall>(f, t) \<in> set ms. \<not> is_hardware f \<and> is_hardware t"
  shows "node_ids (fst (fold merge_one ms st)) =
           node_ids (fst st) - {f. \<exists>t. (f, t) \<in> set ms \<and> t \<in> node_ids (fst st)}"
  using assms
proof (induction ms arbitrary: st)
  case (Cons m ms)
  obtain f t g al where m: "m = (f, t)" and st: "st = (g, al)" by (cases m, cases st)
  have hw: "\<not> is_hardware f" "is_hardware t" using Cons.prems m by auto
  have targets: "t' \<in> node_ids (fst (merge_one m st)) \<longleftrightarrow> t' \<in> node_ids g"
    if "(f', t') \<in> set ms" for f' t'
    using that Cons.prems hw by (auto simp: m st dom_merge_one)
  have "node_ids (fst (fold merge_one (m # ms) st)) =
      node_ids (fst (merge_one m st)) -
        {f. \<exists>t. (f, t) \<in> set ms \<and> t \<in> node_ids (fst (merge_one m st))}"
    using Cons by simp
  also have "\<dots> = node_ids (fst (merge_one m st)) - {f. \<exists>t. (f, t) \<in> set ms \<and> t \<in> node_ids g}"
    using targets by blast
  also have "\<dots> = node_ids g - {f'. \<exists>t. (f', t) \<in> set (m # ms) \<and> t \<in> node_ids g}"
    using hw by (auto simp: m st dom_merge_one)
  finally show ?case by (simp add: st)
qed simp

lemma merge_target_hardware:
  "merge_target g nid = Some t \<Longrightarrow> \<not> is_hardware nid \<and> is_hardware t"
  by (auto simp: merge_target_def split: node_id.splits if_splits option.splits)

lemma set_pending_merges:
  "(f, t) \<in> set (pending_merges g) \<longleftrightarrow> f \<in> node_ids g \<and> merge_target g f = Some t"
  by (auto simp: pending_merges_def set_map_filter dom_map_of_conv_image_fst image_iff)

lemma pending_merges_hardware:
  "\<forall>(f, t) \<in> set (pending_merges g). \<not> is_hardware f \<and> is_hardware t"
  by (auto simp: set_pending_merges dest: merge_target_hardware)

text \<open>The identities that survive a merging pass.\<close>

lemma dom_merge:
  "node_ids (fst (merge_address_identities g)) =
     {k \<in> node_ids g. case merge_target g k of None \<Rightarrow> True | Some t \<Rightarrow> t \<notin> node_ids g}"
  unfolding merge_address_identities_def
  by (subst dom_fold_merge [OF pending_merges_hardware])
    (auto simp: set_pending_merges split: option.splits)

lemma merge_target_merge:
  "merge_target (fst (merge_address_identities g)) = merge_target g"
proof -
  have owner: "g_address_owner (fst (merge_address_identities g)) = g_address_owner g"
    using owners_eq_merge [of g] by (simp add: owners_eq_def)
  show ?thesis unfolding merge_target_def owner ..
qed

text \<open>The hardware identities that own an address are nodes of the graph.\<close>

definition owners_present :: "topology_graph \<Rightarrow> bool" where
  "owners_present g \<longleftrightarrow>
     (\<forall>sl k. hm_get (g_address_owner g) sl = Some k \<longrightarrow> is_mac k \<longrightarrow> Device k \<in> node_ids g)"

lemma merge_target_present:
  assumes "owners_present g" and "merge_target g k = Some t"
  shows "t \<in> node_ids g"
  using assms by (auto simp: merge_target_def owners_present_def simp del: split_paired_All
      split: node_id.splits if_splits option.splits)

lemma owners_present_absorb_other:
  assumes "owners_present g" and "owners_eq g h" and "node_ids g \<subseteq> node_ids h"
  shows "owners_present h"
  using assms unfolding owners_present_def owners_eq_def by (metis subsetD)

lemma device_address_present:
  "Device (canonical_key g device (Some a) r) \<in> node_ids (absorb_device_address ev r device a g)"
  (is "?k \<in> _")
proof -
  let ?g = "upsert ?k node_kind.Host (ev_confidence ev) (from_evidence ev) g"
  have "?k \<in> node_ids ?g" by (simp add: upsert_def bm_entry_laws)
  then show ?thesis
    by (simp add: absorb_device_address_def Let_def split: option.split)
qed

lemma owners_present_device_address:
  assumes g: "owners_present g" and f: "ev_fact ev = DeviceAddress d a"
  shows "owners_present (absorb ev g)"
  unfolding owners_present_def
proof (intro allI impI)
  fix sl k assume own: "hm_get (g_address_owner (absorb ev g)) sl = Some k" and mac: "is_mac k"
  let ?r = "realm_of (ev_origin ev)"
  let ?key = "canonical_key g (qualify_device d ?r) (Some a) ?r"
  from own have "hm_get (g_address_owner g) sl = Some k \<or> k = ?key"
    by (auto simp: absorb_device_address_fact [OF f] absorb_device_address_tables(1) Let_def
        split: if_splits)
  then show "Device k \<in> node_ids (absorb ev g)"
  proof
    assume "hm_get (g_address_owner g) sl = Some k"
    then show ?thesis using g mac grows_ids [OF grows_absorb] unfolding owners_present_def by blast
  next
    assume "k = ?key"
    then show ?thesis by (simp add: absorb_device_address_fact [OF f] device_address_present)
  qed
qed

lemma owners_present_merge:
  "owners_present g \<Longrightarrow> owners_present (fst (merge_address_identities g))"
  using owners_eq_merge [of g]
  by (auto simp: owners_present_def owners_eq_def dom_merge merge_target_def simp del: split_paired_All)

lemma owners_present_finalize: "owners_present g \<Longrightarrow> owners_present (finalize_roles g)"
  using owners_present_merge [of g] owners_eq_finalize [of g] owners_eq_merge [of g]
  by (simp add: owners_present_def owners_eq_def finalize_roles_ids)

lemma owners_present_run: "owners_present (run ops graph_new)"
proof (rule run_induct)
  show "owners_present graph_new" by (simp add: owners_present_def graph_new_def)
next
  fix op h assume h: "owners_present h"
  show "owners_present (apply_op op h)"
  proof (cases op)
    case (OpAbsorb ev)
    show ?thesis
    proof (cases "\<exists>d a. ev_fact ev = DeviceAddress d a")
      case True
      then show ?thesis using owners_present_device_address [OF h] OpAbsorb by auto
    next
      case False
      then show ?thesis
        using owners_present_absorb_other [OF h owner_frame grows_ids [OF grows_absorb]] OpAbsorb
        by simp
    qed
  qed (simp_all add: h owners_present_merge owners_present_finalize)
qed

lemma merge_complete:
  assumes "owners_present g"
  shows "pending_merges (fst (merge_address_identities g)) = []"
proof -
  have "(f, t) \<notin> set (pending_merges (fst (merge_address_identities g)))" for f t
    using merge_target_present [OF assms]
    by (auto simp: set_pending_merges merge_target_merge dom_merge)
  then show ?thesis by (metis last_in_set surj_pair)
qed

lemma merge_no_pending: "pending_merges g = [] \<Longrightarrow> merge_address_identities g = (g, [])"
  by (simp add: merge_address_identities_def)

section \<open>Nothing recorded is lost\<close>

definition bm_total :: "('v \<Rightarrow> 'b::comm_monoid_add) \<Rightarrow> ('k::linorder, 'v) btree_map \<Rightarrow> 'b" where
  "bm_total F m = sum_list (map (\<lambda>(k, v). F v) m)"

lemma total_Cons: "bm_total F (x # m) = F (snd x) + bm_total F m"
  by (simp add: bm_total_def case_prod_unfold)

lemma bm_total_dom:
  "bm_ok m \<Longrightarrow> bm_total F m = (\<Sum>k \<in> dom (bm_get m). F (the (bm_get m k)))"
proof (induction m)
  case (Cons x m)
  obtain k v where x: "x = (k, v)" by (cases x)
  have "k \<notin> dom (bm_get m)" and ok: "bm_ok m"
    using bm_ok_distinct [OF Cons.prems] Cons.prems
    by (auto simp: x bm_ok_def dom_map_of_conv_image_fst)
  moreover have "dom (bm_get (x # m)) = insert k (dom (bm_get m))" by (auto simp: x)
  moreover have "(\<Sum>j \<in> dom (bm_get m). F (the (bm_get (x # m) j))) =
      (\<Sum>j \<in> dom (bm_get m). F (the (bm_get m j)))"
    by (rule sum.cong) (use \<open>k \<notin> dom (bm_get m)\<close> in \<open>auto simp: x\<close>)
  moreover have "F (the (bm_get (x # m) k)) = F v" by (simp add: x)
  ultimately have "(\<Sum>j \<in> dom (bm_get (x # m)). F (the (bm_get (x # m) j))) = F v + bm_total F m"
    using Cons.IH [OF ok] finite_dom_map_of [of m] by simp
  with total_Cons [of F x m] show ?case by (simp only: x snd_conv)
qed (simp add: bm_total_def)

lemma bm_total_remove:
  assumes "bm_ok m" and "bm_get m k = Some v"
  shows "bm_total F m = F v + bm_total F (bm_remove k m)"
proof -
  have "(\<Sum>j \<in> dom (bm_get m) - {k}. F (the (bm_get (bm_remove k m) j))) =
      (\<Sum>j \<in> dom (bm_get m) - {k}. F (the (bm_get m j)))"
    by (rule sum.cong) (simp_all add: map_of_bm_remove)
  then show ?thesis
    using assms sum.remove [of "dom (bm_get m)" k "\<lambda>j. F (the (bm_get m j))"]
    by (simp add: bm_total_dom bm_ok_remove map_of_bm_remove finite_dom_map_of domI)
qed

lemma bm_total_modify:
  assumes "bm_ok m" and "bm_get m k = Some v" and "F (f v) = F v + d"
  shows "bm_total F (bm_modify k f m) = bm_total F m + d"
proof -
  have "(\<Sum>j \<in> dom (bm_get m) - {k}. F (the (bm_get (bm_modify k f m) j))) =
      (\<Sum>j \<in> dom (bm_get m) - {k}. F (the (bm_get m j)))"
    by (rule sum.cong) (auto simp: bm_entry_laws)
  then show ?thesis
    using assms sum.remove [of "dom (bm_get m)" k "\<lambda>j. F (the (bm_get m j))"]
      sum.remove [of "dom (bm_get m)" k "\<lambda>j. F (the (bm_get (bm_modify k f m) j))"]
    by (simp add: bm_total_dom bm_ok_laws finite_dom_map_of domI bm_entry_laws
        bm.dom_modify [folded bm_modify_def] ac_simps)
qed

definition node_evidence :: "topology_graph \<Rightarrow> provenance multiset" where
  "node_evidence g = bm_total (\<lambda>n. mset (nd_provenance n)) (g_nodes g)"

lemma node_evidence_merge_one:
  assumes "bm_ok (g_nodes (fst st))"
  shows "node_evidence (fst (merge_one m st)) = node_evidence (fst st)"
proof -
  obtain fr to g al where m: "m = (fr, to)" and st: "st = (g, al)" by (cases m, cases st)
  show ?thesis
  proof (cases "fr \<noteq> to \<and> to \<in> node_ids g \<and> fr \<in> node_ids g")
    case True
    then obtain s t where s: "bm_get (g_nodes g) fr = Some s" and t: "bm_get (g_nodes g) to = Some t"
      by blast
    have ok: "bm_ok (bm_remove fr (g_nodes g))" using assms by (simp add: st bm_ok_remove)
    have t': "bm_get (bm_remove fr (g_nodes g)) to = Some t"
      using True t by (auto simp: map_of_bm_remove)
    have "bm_total (\<lambda>n. mset (nd_provenance n))
            (bm_modify to (absorb_node s) (bm_remove fr (g_nodes g))) =
          bm_total (\<lambda>n. mset (nd_provenance n)) (bm_remove fr (g_nodes g)) + mset (nd_provenance s)"
      by (rule bm_total_modify [OF ok t']) (simp add: absorb_node_def)
    with assms s t True show ?thesis
      by (simp add: m st merge_one_def node_evidence_def bm_total_remove [of "g_nodes g" fr s] ac_simps)
  next
    case False
    then have "merge_one m st = st" by (auto simp: m st merge_one_def domIff split: option.split)
    then show ?thesis by simp
  qed
qed

lemma node_evidence_merge:
  assumes "wf_graph g"
  shows "node_evidence (fst (merge_address_identities g)) = node_evidence g"
proof -
  have "node_evidence (fst (fold merge_one ms st)) = node_evidence (fst st)"
    if "bm_ok (g_nodes (fst st))" for ms st
    using that
  proof (induction ms arbitrary: st)
    case (Cons m ms)
    have "bm_ok (g_nodes (fst (merge_one m st)))"
      using Cons.prems
      by (auto simp: merge_one_def Let_def bm_ok_remove bm.inv_modify [folded bm_modify_def]
          split: prod.splits option.split)
    with Cons show ?case by (simp add: node_evidence_merge_one)
  qed simp
  from this [of "(g, [])"] assms show ?thesis
    by (simp add: merge_address_identities_def wf_graph_def wf_nodes_def bm_all_def)
qed

end
