(* ===== verification/Graph_Props.thy ===== *)
theory Graph_Props
  imports Graph_Merge
begin

text \<open>
  The properties of the topology graph, each with a concrete run that witnesses it. The sample
  evidence stands for what an address probe, a neighbour cache and a peer report.
\<close>

section \<open>Sample evidence\<close>

definition sample_mac :: "char \<Rightarrow> device_key" where
  "sample_mac c = device_key_mac (''00:1b:21:00:00:0'' @ [c])"

definition sample_ip :: ip_addr where
  "sample_ip = V4 0xC0A80105"

definition sample_here :: "fact \<Rightarrow> evidence_source \<Rightarrow> topology_evidence" where
  "sample_here f s = evidence_new 0 f s Observed ''en0''"

definition sample_peer :: "fact \<Rightarrow> topology_evidence" where
  "sample_peer f =
     from_peer (evidence_new 0 f ArpProbe Observed ''eth0'')
       \<lparr>po_peer = ''ab12'', po_vantage = ''site'', po_sequence = 1, po_published_at = 0\<rparr>"

definition sample_claim :: "char \<Rightarrow> evidence_source \<Rightarrow> graph_op" where
  "sample_claim c s = OpAbsorb (sample_here (DeviceAddress (sample_mac c) sample_ip) s)"

definition sample_slot :: slot where
  "sample_slot = (sample_ip, None, Local)"

section \<open>The invariant\<close>

text \<open>
  C1: whatever evidence is absorbed and whenever the graph is merged or finalised, the graph is
  well formed: nodes and edges are filed under their own identity with the kind that fits it,
  every one of them has provenance, a node's grade is the strongest grade of its provenance, an
  address is owned exactly when it is bound, and a disputed address has at least two claimants
  and no owner.
\<close>

theorem run_wellformed: "wf_graph (run ops graph_new)"
  by (rule run_wf [OF wf_graph_new])

section \<open>Who owns an address\<close>

text \<open>
  C3: a dispute is permanent. Once two devices contest an address, whatever evidence comes later
  the claimants stay on record and the address has no owner.
\<close>

theorem dispute_is_permanent:
  assumes "hm_get (g_contested (run ops graph_new)) sl = Some c"
  shows "\<exists>c'. hm_get (g_contested (run (ops @ later) graph_new)) sl = Some c' \<and>
           set c \<subseteq> set c' \<and> 2 \<le> card (set c') \<and>
           hm_get (g_address_owner (run (ops @ later) graph_new)) sl = None"
proof -
  have split: "run (ops @ later) graph_new = run later (run ops graph_new)" by (simp add: run_def)
  obtain c' where c': "hm_get (g_contested (run (ops @ later) graph_new)) sl = Some c'" "set c \<subseteq> set c'"
    using run_contested [OF assms, of later] unfolding split by blast
  with contested_unowned [OF run_wf [OF wf_graph_new] c'(1)] show ?thesis by blast
qed

theorem dispute_is_permanent_witness:
  "\<exists>c'. hm_get (g_contested (run ([sample_claim (CHR ''1'') ArpProbe, sample_claim (CHR ''2'') ArpProbe]
            @ [sample_claim (CHR ''1'') ArpProbe, OpMerge]) graph_new)) sample_slot = Some c' \<and>
        set [sample_mac (CHR ''1''), sample_mac (CHR ''2'')] \<subseteq> set c' \<and> 2 \<le> card (set c') \<and>
        hm_get (g_address_owner (run ([sample_claim (CHR ''1'') ArpProbe, sample_claim (CHR ''2'') ArpProbe]
            @ [sample_claim (CHR ''1'') ArpProbe, OpMerge]) graph_new)) sample_slot = None"
  by (rule dispute_is_permanent) code_simp

text \<open>
  C4: once a hardware address owns an address, only a validated reply (an ARP or NDP probe) can
  take it away: caches, announcements and every other source leave it where it is, in every later
  state of the run.
\<close>

theorem hardware_owner_kept:
  assumes "hm_get (g_address_owner (run ops graph_new)) sl = Some (Mac m)"
    and "\<forall>ev. OpAbsorb ev \<in> set later \<longrightarrow> \<not> confirmed (ev_source ev)"
  shows "hm_get (g_address_owner (run (ops @ later) graph_new)) sl = Some (Mac m)"
  using run_keeps_mac_owner [OF run_wf [OF wf_graph_new] assms(1), of later] assms(2)
  by (simp add: run_def)

theorem hardware_owner_kept_witness:
  "hm_get (g_address_owner
      (run ([sample_claim (CHR ''1'') ArpProbe] @ [sample_claim (CHR ''2'') ArpCache, OpMerge]) graph_new))
      sample_slot = Some (Mac ''00:1b:21:00:00:01'')"
  by (rule hardware_owner_kept) (code_simp, auto simp: sample_claim_def sample_here_def
      evidence_new_def confirmed_def)

text \<open>
  C5: two validated replies from different hardware addresses are a conflict. After a validated reply from
  one hardware address and another from a second, for the same address and with no unvalidated statement
  about that address between them, the address has no owner and both devices are among its recorded
  claimants, whatever else was absorbed before, between and elsewhere.
\<close>

theorem confirmed_conflict_is_disputed:
  assumes "ev_fact first = DeviceAddress d a" and "confirmed (ev_source first)"
    and "qualify_device d (realm_of (ev_origin first)) = Mac m"
    and "sl = address_slot a (ev_vantage first) (realm_of (ev_origin first))"
    and "ev_fact second = DeviceAddress d' a'" and "confirmed (ev_source second)"
    and "qualify_device d' (realm_of (ev_origin second)) = Mac m'"
    and "sl = address_slot a' (ev_vantage second) (realm_of (ev_origin second))"
    and "m' \<noteq> m"
    and "\<And>ev. OpAbsorb ev \<in> set between \<Longrightarrow> claims_slot sl ev \<Longrightarrow> confirmed (ev_source ev)"
  shows "\<exists>c. hm_get (g_contested (run (before @ OpAbsorb first # between @ [OpAbsorb second]) graph_new)) sl = Some c \<and>
           {Mac m, Mac m'} \<subseteq> set c \<and>
           hm_get (g_address_owner (run (before @ OpAbsorb first # between @ [OpAbsorb second]) graph_new)) sl = None"
proof -
  let ?g = "run between (absorb first (run before graph_new))"
  have split: "run (before @ OpAbsorb first # between @ [OpAbsorb second]) graph_new = absorb second ?g"
    by (simp add: run_def)
  have "claim_stands sl (Mac m) ?g"
    by (rule claim_stands_run [OF claim_stands_after [OF assms(1-4)] assms(10)])
  from second_claim_disputes [OF this assms(9,5-8)] obtain c where
    c: "hm_get (g_contested (absorb second ?g)) sl = Some c" "{Mac m, Mac m'} \<subseteq> set c" by blast
  have "wf_graph (absorb second ?g)"
    using run_wf [OF wf_graph_new, of "before @ OpAbsorb first # between @ [OpAbsorb second]"] by (simp only: split)
  from contested_unowned [OF this c(1)] c show ?thesis unfolding split by blast
qed

theorem confirmed_conflict_is_disputed_witness:
  "\<exists>c. hm_get (g_contested (run ([] @ sample_claim (CHR ''1'') ArpProbe # [OpFinalize] @ [sample_claim (CHR ''2'') NdpProbe])
          graph_new)) sample_slot = Some c \<and>
       {Mac ''00:1b:21:00:00:01'', Mac ''00:1b:21:00:00:02''} \<subseteq> set c \<and>
       hm_get (g_address_owner (run ([] @ sample_claim (CHR ''1'') ArpProbe # [OpFinalize] @ [sample_claim (CHR ''2'') NdpProbe])
          graph_new)) sample_slot = None"
  unfolding sample_claim_def
  by (rule confirmed_conflict_is_disputed [where d = "sample_mac (CHR ''1'')" and d' = "sample_mac (CHR ''2'')"
        and a = sample_ip and a' = sample_ip])
    ((simp add: confirmed_def sample_here_def evidence_new_def; fail) | code_simp)+

text \<open>
  Restating the owner from a cache replaces the source of the binding, so the same conflict is
  then decided for the later reply instead of being recorded.
\<close>

lemma restated_binding_hides_conflict:
  "hm_get (g_address_owner (run [sample_claim (CHR ''1'') ArpProbe, sample_claim (CHR ''1'') ArpCache,
      sample_claim (CHR ''2'') ArpProbe] graph_new)) sample_slot = Some (sample_mac (CHR ''2''))"
  "hm_get (g_contested (run [sample_claim (CHR ''1'') ArpProbe, sample_claim (CHR ''1'') ArpCache,
      sample_claim (CHR ''2'') ArpProbe] graph_new)) sample_slot = None"
  by code_simp+

text \<open>
  C6: observation domains are isolated. Evidence from other domains (from a peer, for the slots of
  this machine; from this machine or another peer, for the slots of a peer) never changes who
  owns, holds or contests an address that is not globally unique.
\<close>

theorem realms_do_not_share_addresses:
  assumes "\<not> is_globally_unique_address a"
    and "\<forall>ev. OpAbsorb ev \<in> set ops \<longrightarrow> realm_of (ev_origin ev) \<noteq> r"
  shows "same_slot (a, z, r) g (run ops g)"
  by (rule run_isolated) (use assms in auto)

theorem realms_do_not_share_addresses_witness:
  "same_slot (sample_ip, None, Local) (run [sample_claim (CHR ''1'') ArpProbe] graph_new)
     (run [OpAbsorb (sample_peer (DeviceAddress (sample_mac (CHR ''2'')) sample_ip)), OpFinalize]
       (run [sample_claim (CHR ''1'') ArpProbe] graph_new))"
  by (rule realms_do_not_share_addresses)
    (code_simp, auto simp: sample_peer_def from_peer_def realm_of_def)

section \<open>Where things come from\<close>

lemma interrogated_seen:
  assumes "a \<in> set (pivot_addresses (run ops graph_new)) \<union> set (candidate_addresses (run ops graph_new))"
  shows "is_interrogable a \<and> seen_here (absorbed ops) a"
proof -
  obtain k n where a: "is_interrogable a"
    and n: "bm_get (g_nodes (run ops graph_new)) (Device k) = Some n"
      "(a, False) \<in> set (nd_address_provenance n)"
    using assms device_address_local unfolding pivot_addresses_def candidate_addresses_def by blast
  have "seen.holds (absorbed ops) (run ops graph_new)"
    by (rule seen.holds_run) (simp add: absorbed_def)
  from bm_allD [OF this [unfolded seen.holds_def] n(1)] a n(2) show ?thesis by blast
qed

text \<open>
  C7: this machine only interrogates what it saw itself. An address offered for interrogation, of
  a pivot or of a candidate, is one that evidence observed here (never a peer's report) bound to a
  device, and it is an address worth a query.
\<close>

theorem interrogates_only_what_was_seen_here:
  assumes "a \<in> set (pivot_addresses (run ops graph_new)) \<union> set (candidate_addresses (run ops graph_new))"
  shows "is_interrogable a \<and> seen_here (absorbed ops) a"
  using assms by (rule interrogated_seen)

theorem interrogates_only_what_was_seen_here_witness:
  "is_interrogable sample_ip \<and> seen_here (absorbed [sample_claim (CHR ''1'') ArpProbe,
      OpAbsorb (sample_here (DeviceRoleSignal (sample_mac (CHR ''1'')) DhcpRouter) DhcpLease)]) sample_ip"
  by (rule interrogates_only_what_was_seen_here) code_simp

text \<open>
  Nothing in the graph is invented. Every node has provenance, and each entry of it is the
  provenance of a piece of evidence that was absorbed.
\<close>

theorem every_node_has_a_source:
  assumes "bm_get (g_nodes (run ops graph_new)) k = Some n"
  shows "nd_provenance n \<noteq> [] \<and> set (nd_provenance n) \<subseteq> from_evidence ` absorbed ops"
proof -
  have "sourced.holds (absorbed ops) (run ops graph_new)"
    by (rule sourced.holds_run) (simp add: absorbed_def)
  from bm_allD [OF this [unfolded sourced.holds_def] assms]
  have "set (nd_provenance n) \<subseteq> from_evidence ` absorbed ops" .
  moreover have "wf_node k n"
    using bm_allD [OF _ assms, of wf_node] run_wf [OF wf_graph_new, of ops]
    by (simp add: wf_graph_def wf_nodes_def)
  ultimately show ?thesis by (simp add: wf_node_def)
qed

theorem every_node_has_a_source_witness:
  "\<exists>n. bm_get (g_nodes (run [sample_claim (CHR ''1'') ArpProbe] graph_new)) (Device (sample_mac (CHR ''1''))) = Some n \<and>
       nd_provenance n \<noteq> [] \<and>
       set (nd_provenance n) \<subseteq> from_evidence ` absorbed [sample_claim (CHR ''1'') ArpProbe]"
proof -
  have "bm_get (g_nodes (run [sample_claim (CHR ''1'') ArpProbe] graph_new))
      (Device (sample_mac (CHR ''1''))) \<noteq> None" by code_simp
  then show ?thesis using every_node_has_a_source by blast
qed

text \<open>
  C8: a network is only drawn for a prefix some source stated. The prefix of every network node is
  carried by an absorbed fact, and it is a prefix worth a node unless the fact binds a VLAN to it.
\<close>

theorem networks_were_stated:
  assumes "bm_get (g_nodes (run ops graph_new)) (node_id.Network p r) = Some n"
  shows "\<exists>ev \<in> absorbed ops. p \<in> set (stated_prefixes (ev_fact ev)) \<and>
           (is_topology_network p \<or> binds_vlan (ev_fact ev))"
proof -
  have "stated.holds (absorbed ops) (run ops graph_new)"
    by (rule stated.holds_run) (simp add: absorbed_def)
  from bm_allD [OF this [unfolded stated.holds_def] assms] show ?thesis by simp
qed

theorem networks_were_stated_witness:
  "\<exists>ev \<in> absorbed [OpAbsorb (sample_here (fact.Network (V4Net 0xC0A80100 24)) KernelRoute)].
     V4Net 0xC0A80100 24 \<in> set (stated_prefixes (ev_fact ev)) \<and>
     (is_topology_network (V4Net 0xC0A80100 24) \<or> binds_vlan (ev_fact ev))"
proof -
  have "bm_get (g_nodes (run [OpAbsorb (sample_here (fact.Network (V4Net 0xC0A80100 24)) KernelRoute)]
      graph_new)) (node_id.Network (V4Net 0xC0A80100 24) Local) \<noteq> None" by code_simp
  then show ?thesis using networks_were_stated by blast
qed

text \<open>A VLAN binding draws a network the filter of every other fact refuses: the default route.\<close>

lemma vlan_binding_skips_the_filter:
  "\<not> is_topology_network (V4Net 0 0)"
  "bm_get (g_nodes (run [OpAbsorb (sample_here (VlanNetwork 10 (V4Net 0 0)) Snmp)] graph_new))
     (node_id.Network (V4Net 0 0) Local) \<noteq> None"
  by code_simp+

text \<open>
  A peer's path and the next hop of its routes name devices without the peer's domain: a private
  address in them becomes the identity this machine uses for an address of its own.
\<close>

lemma peer_path_uses_local_identity:
  "bm_get (g_nodes (run [OpAbsorb (sample_peer (fact.ForwardsToward (Address sample_ip) sample_ip 1 None))]
     graph_new)) (Device (Address sample_ip)) \<noteq> None"
  by code_simp

lemma peer_next_hop_uses_local_identity:
  "bm_get (g_nodes (run [OpAbsorb (sample_peer
       (fact.RoutesTo (sample_mac (CHR ''2'')) (V4Net 0x0A010000 16) (Some sample_ip)))]
     graph_new)) (Device (Address sample_ip)) \<noteq> None"
  by code_simp

section \<open>What absorbing keeps\<close>

text \<open>
  C17: absorbing a fact takes nothing of what is known away. No node goes; on each the provenance is
  extended, the grade does not fall, and the names, descriptions, signals, capabilities and disputes
  stay. An address of the node stays its address, and one seen here stays seen here, unless it is on
  record among the addresses the node handed over. A vendor or a boundary is never erased, and where this
  machine has observed the device, a peer's report does not replace it.
\<close>

theorem absorb_only_adds:
  assumes "bm_get (g_nodes g) k = Some n"
  shows "\<exists>n'. bm_get (g_nodes (absorb ev g)) k = Some n' \<and> node_grows (is_remote ev) n n'"
  using grows_absorb assms unfolding grows_def by blast

theorem absorb_only_adds_witness:
  "\<exists>n n'. bm_get (g_nodes (run [sample_claim (CHR ''1'') ArpProbe] graph_new)) (Device (sample_mac (CHR ''1''))) = Some n \<and>
     bm_get (g_nodes (absorb (sample_peer (DeviceVendor (sample_mac (CHR ''1'')) ''x''))
        (run [sample_claim (CHR ''1'') ArpProbe] graph_new))) (Device (sample_mac (CHR ''1''))) = Some n' \<and>
     node_grows True n n'"
proof -
  have "bm_get (g_nodes (run [sample_claim (CHR ''1'') ArpProbe] graph_new))
      (Device (sample_mac (CHR ''1''))) \<noteq> None" by code_simp
  then obtain n where "bm_get (g_nodes (run [sample_claim (CHR ''1'') ArpProbe] graph_new))
      (Device (sample_mac (CHR ''1''))) = Some n" by blast
  moreover from absorb_only_adds [OF this, of "sample_peer (DeviceVendor (sample_mac (CHR ''1'')) ''x'')"]
  have "\<exists>n'. bm_get (g_nodes (absorb (sample_peer (DeviceVendor (sample_mac (CHR ''1'')) ''x''))
        (run [sample_claim (CHR ''1'') ArpProbe] graph_new))) (Device (sample_mac (CHR ''1''))) = Some n' \<and>
     node_grows True n n'"
    by (simp add: sample_peer_def from_peer_def is_remote_def)
  ultimately show ?thesis by blast
qed

section \<open>Merging and roles\<close>

text \<open>
  C18: merging is complete and stable. After a pass no address identity is left whose address a
  hardware identity owns, and a second pass changes nothing and reports no alias.
\<close>

theorem merge_is_complete_and_stable:
  fixes ops
  defines "g \<equiv> fst (merge_address_identities (run ops graph_new))"
  shows "pending_merges g = [] \<and> merge_address_identities g = (g, [])"
  unfolding g_def using merge_complete [OF owners_present_run] by (simp add: merge_no_pending)

text \<open>
  Merging loses no observation. The multiset of the provenance recorded on the nodes is the
  same before and after a pass.
\<close>

theorem merge_conserves_provenance:
  "node_evidence (fst (merge_address_identities (run ops graph_new))) = node_evidence (run ops graph_new)"
  by (rule node_evidence_merge [OF run_wf [OF wf_graph_new]])

text \<open>
  Finalisation gives every device the kind its evidence supports and changes nothing else of
  it: an opaque boundary if one was recorded, otherwise the role its signals score, otherwise the
  kind it had after merging.
\<close>

theorem finalize_assigns_roles:
  fixes ops
  defines "m \<equiv> fst (merge_address_identities (run ops graph_new))"
  shows "bm_get (g_nodes (finalize_roles (run ops graph_new))) k =
     map_option
       (\<lambda>n. if nd_opaque_reason n \<noteq> None then n\<lparr>nd_kind := node_kind.OpaqueBoundary\<rparr>
            else case hm_get (g_role_weights m) k of
                   None \<Rightarrow> n
                 | Some s \<Rightarrow> n\<lparr>nd_kind := role_kind (score_role s) (nd_kind n)\<rparr>)
       (bm_get (g_nodes m) k)"
proof -
  have wf: "wf_graph m"
    unfolding m_def using apply_op_wf [OF run_wf [OF wf_graph_new], of OpMerge ops] by simp
  then have w: "wf_weights (g_role_weights m)" by (simp add: wf_graph_def)
  have "wf_nodes (g_nodes (assign_roles m))"
    using wf_assign_roles [OF wf] by (simp add: wf_graph_def)
  from get_mark_opaque [OF this, of k] show ?thesis
    unfolding finalize_roles_def m_def [symmetric] get_assign_roles [OF w]
    by (auto simp: option.map_comp comp_def split: option.split intro!: option.map_cong)
qed

text \<open>
  The summary counts partition the graph: every node is counted once, and the number of
  networks is the number of prefixes listed.
\<close>

theorem counts_partition_the_graph:
  fixes ops
  defines "g \<equiv> run ops graph_new"
  shows "devices (counts g) + networks_count (counts g) + vlans_count (counts g) +
           services_count (counts g) + interfaces_count (counts g) = length (g_nodes g) \<and>
         graph_nodes (counts g) = length (g_nodes g) \<and>
         networks_count (counts g) = length (networks g)"
proof -
  have "counted (counts g) = length (g_nodes g)"
    by (simp add: counts_def counted_fold) (simp add: counted_def devices_def counts_zero_def)
  moreover have "graph_nodes (counts g) = length (g_nodes g)" by (simp add: counts_def counts_zero_def)
  ultimately show ?thesis
    using networks_of_wf [OF run_wf [OF wf_graph_new], of ops] networks_count_fold
    by (simp add: counted_def g_def counts_def counts_zero_def)
qed

end
