(* ===== verification/Ip_Text.thy ===== *)
theory Ip_Text
  imports Net_Types
begin

text \<open>
  \<open>IpAddr::from_str\<close>, the parser of the Rust standard library the sources rely on when they read
  an address from text: a recursive-descent reader that hands back the rest of the input. A
  reader that fails leaves the input where it was.
\<close>

definition to_digit :: "nat \<Rightarrow> char \<Rightarrow> nat option" where
  "to_digit radix c =
     (case hex_digit c of None \<Rightarrow> None | Some d \<Rightarrow> if d < radix then Some d else None)"

fun read_digits :: "nat \<Rightarrow> int \<Rightarrow> nat \<Rightarrow> string \<Rightarrow> int \<times> nat \<times> string" where
  "read_digits radix acc n [] = (acc, n, [])"
| "read_digits radix acc n (c # cs) =
     (case to_digit radix c of
        None \<Rightarrow> (acc, n, c # cs)
      | Some d \<Rightarrow> read_digits radix (acc * int radix + int d) (Suc n) cs)"

text \<open>At most \<open>max_digits\<close> digits of a value below \<open>bound\<close>, perhaps without leading zeros.\<close>

definition read_number :: "nat \<Rightarrow> nat \<Rightarrow> bool \<Rightarrow> int \<Rightarrow> string \<Rightarrow> (int \<times> string) option" where
  "read_number radix max_digits allow_zero_prefix bound cs =
     (let (v, n, rest) = read_digits radix 0 0 cs;
          has_leading_zero = (case cs of c # _ \<Rightarrow> c = CHR ''0'' | [] \<Rightarrow> False)
      in if max_digits < n \<or> bound \<le> v then None
         else if n = 0 then None
         else if \<not> allow_zero_prefix \<and> has_leading_zero \<and> 1 < n then None
         else Some (v, rest))"

definition read_separator ::
    "char \<Rightarrow> nat \<Rightarrow> (string \<Rightarrow> ('a \<times> string) option) \<Rightarrow> string \<Rightarrow> ('a \<times> string) option" where
  "read_separator sep index inner cs =
     (if 0 < index then
        (case cs of [] \<Rightarrow> None | c # rest \<Rightarrow> if c = sep then inner rest else None)
      else inner cs)"

fun read_octets :: "nat \<Rightarrow> nat \<Rightarrow> string \<Rightarrow> (int list \<times> string) option" where
  "read_octets i 0 cs = Some ([], cs)"
| "read_octets i (Suc n) cs =
     (case read_separator CHR ''.'' i (read_number 10 3 False 256) cs of
        None \<Rightarrow> None
      | Some (v, rest) \<Rightarrow>
          (case read_octets (Suc i) n rest of
             None \<Rightarrow> None
           | Some (vs, rest') \<Rightarrow> Some (v # vs, rest')))"

definition word_of_groups :: "nat \<Rightarrow> int list \<Rightarrow> 'a::len word" where
  "word_of_groups width vs = of_int (foldl (\<lambda>acc v. acc * 2 ^ width + v) 0 vs)"

definition read_ipv4_addr :: "string \<Rightarrow> (32 word \<times> string) option" where
  "read_ipv4_addr cs =
     map_option (\<lambda>(vs, rest). (word_of_groups 8 vs, rest)) (read_octets 0 4 cs)"

text \<open>
  Up to \<open>n\<close> further groups of an IPv6 address, the last two perhaps written as an IPv4 address;
  the flag says that they were.
\<close>

fun read_groups :: "nat \<Rightarrow> nat \<Rightarrow> string \<Rightarrow> int list \<times> bool \<times> string" where
  "read_groups i 0 cs = ([], False, cs)"
| "read_groups i (Suc n) cs =
     (case (if 0 < n then read_separator CHR '':'' i read_ipv4_addr cs else None) of
        Some (a, rest) \<Rightarrow> ([uint a div 65536, uint a mod 65536], True, rest)
      | None \<Rightarrow>
          (case read_separator CHR '':'' i (read_number 16 4 True 65536) cs of
             None \<Rightarrow> ([], False, cs)
           | Some (g, rest) \<Rightarrow>
               (let (gs, v4, rest') = read_groups (Suc i) n rest in (g # gs, v4, rest'))))"

definition read_ipv6_addr :: "string \<Rightarrow> (128 word \<times> string) option" where
  "read_ipv6_addr cs =
     (let (head, head_ipv4, rest) = read_groups 0 8 cs
      in if length head = 8 then Some (word_of_groups 16 head, rest)
         else if head_ipv4 then None
         else case rest of
                c # d # rest' \<Rightarrow>
                  if c = CHR '':'' \<and> d = CHR '':'' then
                    (let (tail, _, rest'') = read_groups 0 (7 - length head) rest'
                     in Some (word_of_groups 16
                                (head @ replicate (8 - length head - length tail) 0 @ tail), rest''))
                  else None
              | _ \<Rightarrow> None)"

definition ip_from_str :: "string \<Rightarrow> ip_addr option" where
  "ip_from_str s =
     (case read_ipv4_addr s of
        Some (a, rest) \<Rightarrow> if rest = [] then Some (V4 a) else None
      | None \<Rightarrow>
          (case read_ipv6_addr s of
             Some (a, rest) \<Rightarrow> if rest = [] then Some (V6 a) else None
           | None \<Rightarrow> None))"

end
