(* ===== verification/Wire.thy ===== *)
theory Wire
  imports Evidence Ip_Text Text_Safety
begin

text \<open>
  The federation wire format (\<open>src/src/federation/wire.rs\<close>): one evidence record as a peer sends
  it, its conversion to and from the evidence of this machine, and the bytes a bundle signs.

  Three things the conversion uses are not in the sources and are arguments of it: how \<open>ipnet\<close>
  prints and reads a prefix, the \<open>Debug\<close> form of a string in an error message, and the JSON
  encoding of a record.
\<close>

record wire_externs =
  net_to_string :: "ip_net \<Rightarrow> string"
  net_from_str :: "string \<Rightarrow> ip_net option"
  debug_str :: "string \<Rightarrow> string"

definition SCHEMA_VERSION :: u16 where
  "SCHEMA_VERSION = 1"

section \<open>The wire types\<close>

datatype wire_device = WMac string | WAddress string | WScopedAddress string string

datatype wire_fact =
    WNetwork string
  | WVlan u16
  | WVlanNetwork u16 string
  | WInterfaceNetwork string string
  | WDeviceAddress wire_device string
  | WDeviceHostname wire_device string
  | WDeviceVendor wire_device string
  | WDeviceDescription wire_device string
  | WDeviceRoleSignal wire_device string "string option"
  | WDeviceCapability wire_device string "string option"
  | WGatewayFor wire_device string
  | WRoutesTo wire_device string "string option"
  | WAttachedTo wire_device string
  | WBridgeLink string string "string option"
  | WObservedBehind wire_device wire_device
  | WForwardsToward wire_device string u8 "wire_device option"
  | WOpaqueBoundary wire_device string
  | WService string u16 string "string option"
  | WResolvedAs string string

record wire_evidence =
  we_fact :: wire_fact
  we_source :: string
  we_confidence :: string
  we_vantage :: string
  we_observed_at :: u64
  we_detail :: "string option"

datatype wire_error = WireMalformed string | WireUnknown string

fun wire_error_text :: "wire_error \<Rightarrow> string" where
  "wire_error_text (WireMalformed what) = ''malformed '' @ what"
| "wire_error_text (WireUnknown what) = ''unknown '' @ what"

section \<open>Errors as values\<close>

type_synonym 'a wire_result = "wire_error + 'a"

definition res_bind :: "('e + 'a) \<Rightarrow> ('a \<Rightarrow> 'e + 'b) \<Rightarrow> 'e + 'b" where
  "res_bind r f = (case r of Inl e \<Rightarrow> Inl e | Inr a \<Rightarrow> f a)"

definition res_map :: "('a \<Rightarrow> 'b) \<Rightarrow> ('e + 'a) \<Rightarrow> 'e + 'b" where
  "res_map f r = res_bind r (\<lambda>a. Inr (f a))"

text \<open>\<open>Option::map\<close> followed by \<open>transpose\<close>.\<close>

definition res_option :: "('a \<Rightarrow> 'e + 'b) \<Rightarrow> 'a option \<Rightarrow> 'e + 'b option" where
  "res_option f x = (case x of None \<Rightarrow> Inr None | Some a \<Rightarrow> res_map Some (f a))"

lemma res_simps [simp]:
  "res_bind (Inr a) f = f a"
  "res_bind (Inl e) f = Inl e"
  "res_map g (Inr a) = Inr (g a)"
  "res_map g (Inl e) = Inl e"
  "res_option h None = Inr None"
  "res_option h (Some x) = res_map Some (h x)"
  by (simp_all add: res_bind_def res_map_def res_option_def)

section \<open>Names on the wire\<close>

definition parse_prefix :: "wire_externs \<Rightarrow> string \<Rightarrow> ip_net wire_result" where
  "parse_prefix x text =
     (case net_from_str x text of
        Some p \<Rightarrow> Inr p
      | None \<Rightarrow> Inl (WireMalformed (''prefix '' @ debug_str x text)))"

definition parse_address :: "wire_externs \<Rightarrow> string \<Rightarrow> ip_addr wire_result" where
  "parse_address x text =
     (case ip_from_str text of
        Some a \<Rightarrow> Inr a
      | None \<Rightarrow> Inl (WireMalformed (''address '' @ debug_str x text)))"

definition protocol_from_wire :: "wire_externs \<Rightarrow> string \<Rightarrow> string wire_result" where
  "protocol_from_wire x text =
     (if text = ''tcp'' then Inr ''tcp''
      else if text = ''udp'' then Inr ''udp''
      else Inl (WireUnknown (''protocol '' @ debug_str x text)))"

fun confidence_wire :: "confidence \<Rightarrow> string" where
  "confidence_wire Observed = ''observed''"
| "confidence_wire Advertised = ''advertised''"
| "confidence_wire Inferred = ''inferred''"
| "confidence_wire confidence.UserSupplied = ''user_supplied''"

text \<open>The \<open>wire_names\<close> macro: a name is read back by looking it up among the variants.\<close>

definition from_wire ::
    "wire_externs \<Rightarrow> string \<Rightarrow> ('a \<Rightarrow> string) \<Rightarrow> 'a list \<Rightarrow> string \<Rightarrow> 'a wire_result" where
  "from_wire x type_name to variants text =
     (case List.find (\<lambda>v. to v = text) variants of
        Some v \<Rightarrow> Inr v
      | None \<Rightarrow> Inl (WireUnknown (type_name @ '' '' @ debug_str x text)))"

definition confidence_from_wire :: "wire_externs \<Rightarrow> string \<Rightarrow> confidence wire_result" where
  "confidence_from_wire x text =
     from_wire x ''confidence'' confidence_wire
       [Observed, Advertised, Inferred, confidence.UserSupplied] text"

fun source_wire :: "evidence_source \<Rightarrow> string" where
  "source_wire evidence_source.InterfaceAddress = ''interface_address''"
| "source_wire evidence_source.KernelRoute = ''kernel_route''"
| "source_wire evidence_source.DefaultGateway = ''default_gateway''"
| "source_wire evidence_source.ResolverConfig = ''resolver_config''"
| "source_wire evidence_source.DhcpLease = ''dhcp_lease''"
| "source_wire evidence_source.ArpCache = ''arp_cache''"
| "source_wire evidence_source.NdpCache = ''ndp_cache''"
| "source_wire evidence_source.ArpProbe = ''arp_probe''"
| "source_wire evidence_source.NdpProbe = ''ndp_probe''"
| "source_wire evidence_source.IcmpProbe = ''icmp_probe''"
| "source_wire evidence_source.TcpProbe = ''tcp_probe''"
| "source_wire evidence_source.Mdns = ''mdns''"
| "source_wire evidence_source.UnicastDns = ''unicast_dns''"
| "source_wire evidence_source.Ssdp = ''ssdp''"
| "source_wire evidence_source.Nbns = ''nbns''"
| "source_wire evidence_source.Llmnr = ''llmnr''"
| "source_wire evidence_source.Mndp = ''mndp''"
| "source_wire evidence_source.Lldp = ''lldp''"
| "source_wire evidence_source.Cdp = ''cdp''"
| "source_wire evidence_source.Stp = ''stp''"
| "source_wire evidence_source.RouterAdvertisement = ''router_advertisement''"
| "source_wire evidence_source.Snmp = ''snmp''"
| "source_wire evidence_source.Rip = ''rip''"
| "source_wire evidence_source.VendorDiscovery = ''vendor_discovery''"
| "source_wire evidence_source.NatPmp = ''nat_pmp''"
| "source_wire evidence_source.AiProtocol = ''ai_protocol''"
| "source_wire evidence_source.Mcp = ''mcp''"
| "source_wire evidence_source.UserSupplied = ''user_supplied''"

definition all_sources :: "evidence_source list" where
  "all_sources =
     [evidence_source.InterfaceAddress, evidence_source.KernelRoute,
      evidence_source.DefaultGateway, evidence_source.ResolverConfig, evidence_source.DhcpLease,
      evidence_source.ArpCache, evidence_source.NdpCache, evidence_source.ArpProbe,
      evidence_source.NdpProbe, evidence_source.IcmpProbe, evidence_source.TcpProbe,
      evidence_source.Mdns, evidence_source.UnicastDns, evidence_source.Ssdp,
      evidence_source.Nbns, evidence_source.Llmnr, evidence_source.Mndp, evidence_source.Lldp,
      evidence_source.Cdp, evidence_source.Stp, evidence_source.RouterAdvertisement,
      evidence_source.Snmp, evidence_source.Rip, evidence_source.VendorDiscovery,
      evidence_source.NatPmp, evidence_source.AiProtocol, evidence_source.Mcp,
      evidence_source.UserSupplied]"

definition source_from_wire :: "wire_externs \<Rightarrow> string \<Rightarrow> evidence_source wire_result" where
  "source_from_wire x text = from_wire x ''EvidenceSource'' source_wire all_sources text"

fun capability_wire :: "capability \<Rightarrow> string" where
  "capability_wire capability.DefaultGateway = ''default_gateway''"
| "capability_wire capability.Ipv4Forwarding = ''ipv4_forwarding''"
| "capability_wire capability.Ipv6Router = ''ipv6_router''"
| "capability_wire capability.NatGateway = ''nat_gateway''"
| "capability_wire capability.DhcpServer = ''dhcp_server''"
| "capability_wire capability.DnsServer = ''dns_server''"
| "capability_wire capability.Bridge = ''bridge''"
| "capability_wire capability.WirelessAp = ''wireless_ap''"
| "capability_wire capability.ManagementInterface = ''management_interface''"
| "capability_wire capability.AiRuntime = ''ai_runtime''"
| "capability_wire capability.AiAgent = ''ai_agent''"
| "capability_wire capability.McpServer = ''mcp_server''"

definition all_capabilities :: "capability list" where
  "all_capabilities =
     [capability.DefaultGateway, capability.Ipv4Forwarding, capability.Ipv6Router,
      capability.NatGateway, capability.DhcpServer, capability.DnsServer, capability.Bridge,
      capability.WirelessAp, capability.ManagementInterface, capability.AiRuntime,
      capability.AiAgent, capability.McpServer]"

definition capability_from_wire :: "wire_externs \<Rightarrow> string \<Rightarrow> capability wire_result" where
  "capability_from_wire x text = from_wire x ''Capability'' capability_wire all_capabilities text"

text \<open>The plain role signals, by name; the link-layer capability carries a label.\<close>

definition plain_signals :: "(string \<times> role_signal) list" where
  "plain_signals =
     [(''default_gateway'', role_signal.DefaultGateway),
      (''dhcp_router'', role_signal.DhcpRouter),
      (''router_advertisement'', role_signal.RouterAdvertisement),
      (''internet_gateway_device'', role_signal.InternetGatewayDevice),
      (''snmp_forwarding'', role_signal.SnmpForwarding),
      (''rip_route_advertisement'', role_signal.RipRouteAdvertisement),
      (''observed_forwarding'', role_signal.ObservedForwarding),
      (''kernel_next_hop'', role_signal.KernelNextHop),
      (''spanning_tree_bridge'', role_signal.SpanningTreeBridge),
      (''management_surface'', role_signal.ManagementSurface)]"

fun role_signal_wire :: "role_signal \<Rightarrow> string \<times> string option" where
  "role_signal_wire role_signal.DefaultGateway = (''default_gateway'', None)"
| "role_signal_wire role_signal.DhcpRouter = (''dhcp_router'', None)"
| "role_signal_wire role_signal.RouterAdvertisement = (''router_advertisement'', None)"
| "role_signal_wire role_signal.InternetGatewayDevice = (''internet_gateway_device'', None)"
| "role_signal_wire role_signal.SnmpForwarding = (''snmp_forwarding'', None)"
| "role_signal_wire role_signal.RipRouteAdvertisement = (''rip_route_advertisement'', None)"
| "role_signal_wire role_signal.ObservedForwarding = (''observed_forwarding'', None)"
| "role_signal_wire role_signal.KernelNextHop = (''kernel_next_hop'', None)"
| "role_signal_wire role_signal.SpanningTreeBridge = (''spanning_tree_bridge'', None)"
| "role_signal_wire role_signal.ManagementSurface = (''management_surface'', None)"
| "role_signal_wire (LinkLayerCapability label) = (''link_layer_capability'', Some label)"

definition link_layer_labels :: "string list" where
  "link_layer_labels = [''Router'', ''Bridge'', ''Switch'', ''WLAN AP'']"

definition role_signal_from_wire ::
    "wire_externs \<Rightarrow> string \<Rightarrow> string option \<Rightarrow> role_signal wire_result" where
  "role_signal_from_wire x text label =
     (case map_of plain_signals text of
        Some s \<Rightarrow> Inr s
      | None \<Rightarrow>
          if text = ''link_layer_capability'' then
            (case label of
               Some l \<Rightarrow>
                 if l \<in> set link_layer_labels then Inr (LinkLayerCapability l)
                 else Inl (WireUnknown (''link-layer capability '' @ debug_str x l))
             | None \<Rightarrow> Inl (WireMalformed ''link-layer capability''))
          else Inl (WireUnknown (''role signal '' @ debug_str x text)))"

section \<open>Devices\<close>

fun from_key :: "device_key \<Rightarrow> wire_device" where
  "from_key (Mac mac) = WMac mac"
| "from_key (Address address) = WAddress (ip_to_string address)"
| "from_key (ScopedAddress address zone) = WScopedAddress (ip_to_string address) zone"

fun to_key :: "wire_externs \<Rightarrow> wire_device \<Rightarrow> device_key wire_result" where
  "to_key x (WMac mac) = Inr (device_key_mac mac)"
| "to_key x (WAddress address) = res_map Address (parse_address x address)"
| "to_key x (WScopedAddress address zone) =
     res_map (\<lambda>a. ScopedAddress a zone) (parse_address x address)"

section \<open>Records\<close>

fun fact_to_wire :: "wire_externs \<Rightarrow> fact \<Rightarrow> wire_fact" where
  "fact_to_wire x (fact.Network p) = WNetwork (net_to_string x p)"
| "fact_to_wire x (fact.Vlan v) = WVlan v"
| "fact_to_wire x (fact.VlanNetwork v n) = WVlanNetwork v (net_to_string x n)"
| "fact_to_wire x (fact.InterfaceNetwork i p) = WInterfaceNetwork i (net_to_string x p)"
| "fact_to_wire x (fact.DeviceAddress d a) = WDeviceAddress (from_key d) (ip_to_string a)"
| "fact_to_wire x (fact.DeviceHostname d h) = WDeviceHostname (from_key d) h"
| "fact_to_wire x (fact.DeviceVendor d v) = WDeviceVendor (from_key d) v"
| "fact_to_wire x (fact.DeviceDescription d t) = WDeviceDescription (from_key d) t"
| "fact_to_wire x (fact.DeviceRoleSignal d s) =
     (let (signal, label) = role_signal_wire s in WDeviceRoleSignal (from_key d) signal label)"
| "fact_to_wire x (fact.DeviceCapability d c t) =
     WDeviceCapability (from_key d) (capability_wire c) t"
| "fact_to_wire x (fact.GatewayFor d n) = WGatewayFor (from_key d) (net_to_string x n)"
| "fact_to_wire x (fact.RoutesTo d n h) =
     WRoutesTo (from_key d) (net_to_string x n) (map_option ip_to_string h)"
| "fact_to_wire x (fact.AttachedTo d n) = WAttachedTo (from_key d) (net_to_string x n)"
| "fact_to_wire x (fact.BridgeLink b r p) = WBridgeLink b r p"
| "fact_to_wire x (fact.ObservedBehind d v) = WObservedBehind (from_key d) (from_key v)"
| "fact_to_wire x (fact.OpaqueBoundary d w) = WOpaqueBoundary (from_key d) w"
| "fact_to_wire x (fact.Service a p pr t) = WService (ip_to_string a) p pr t"
| "fact_to_wire x (fact.ResolvedAs n a) = WResolvedAs n (ip_to_string a)"
| "fact_to_wire x (fact.ForwardsToward d t n p) =
     WForwardsToward (from_key d) (ip_to_string t) n (map_option from_key p)"

text \<open>
  \<open>duration_since(UNIX_EPOCH)\<close> in whole seconds, zero before the epoch; a \<open>u64\<close> holds every
  second a \<open>SystemTime\<close> can.
\<close>

definition unix_seconds :: "int \<Rightarrow> u64" where
  "unix_seconds t = (if t < 0 then 0 else word_of_int (t div 1000000000))"

definition we_from_evidence :: "wire_externs \<Rightarrow> topology_evidence \<Rightarrow> wire_evidence" where
  "we_from_evidence x ev =
     \<lparr>we_fact = fact_to_wire x (ev_fact ev),
      we_source = source_wire (ev_source ev),
      we_confidence = confidence_wire (ev_confidence ev),
      we_vantage = ev_vantage ev,
      we_observed_at = unix_seconds (ev_observed_at ev),
      we_detail = ev_detail ev\<rparr>"

fun fact_from_wire :: "wire_externs \<Rightarrow> wire_fact \<Rightarrow> fact wire_result" where
  "fact_from_wire x (WNetwork p) = res_map fact.Network (parse_prefix x p)"
| "fact_from_wire x (WVlan v) = Inr (fact.Vlan v)"
| "fact_from_wire x (WVlanNetwork v n) = res_map (fact.VlanNetwork v) (parse_prefix x n)"
| "fact_from_wire x (WInterfaceNetwork i p) = res_map (fact.InterfaceNetwork i) (parse_prefix x p)"
| "fact_from_wire x (WDeviceAddress d a) =
     res_bind (to_key x d) (\<lambda>k. res_map (fact.DeviceAddress k) (parse_address x a))"
| "fact_from_wire x (WDeviceHostname d h) = res_map (\<lambda>k. fact.DeviceHostname k h) (to_key x d)"
| "fact_from_wire x (WDeviceVendor d v) = res_map (\<lambda>k. fact.DeviceVendor k v) (to_key x d)"
| "fact_from_wire x (WDeviceDescription d t) =
     res_map (\<lambda>k. fact.DeviceDescription k t) (to_key x d)"
| "fact_from_wire x (WDeviceRoleSignal d s l) =
     res_bind (to_key x d) (\<lambda>k. res_map (fact.DeviceRoleSignal k) (role_signal_from_wire x s l))"
| "fact_from_wire x (WDeviceCapability d c t) =
     res_bind (to_key x d)
       (\<lambda>k. res_map (\<lambda>c. fact.DeviceCapability k c t) (capability_from_wire x c))"
| "fact_from_wire x (WGatewayFor d n) =
     res_bind (to_key x d) (\<lambda>k. res_map (fact.GatewayFor k) (parse_prefix x n))"
| "fact_from_wire x (WRoutesTo d n h) =
     res_bind (to_key x d)
       (\<lambda>k. res_bind (parse_prefix x n)
          (\<lambda>p. res_map (fact.RoutesTo k p) (res_option (parse_address x) h)))"
| "fact_from_wire x (WAttachedTo d n) =
     res_bind (to_key x d) (\<lambda>k. res_map (fact.AttachedTo k) (parse_prefix x n))"
| "fact_from_wire x (WBridgeLink b r p) = Inr (fact.BridgeLink b r p)"
| "fact_from_wire x (WObservedBehind d v) =
     res_bind (to_key x d) (\<lambda>k. res_map (fact.ObservedBehind k) (to_key x v))"
| "fact_from_wire x (WForwardsToward d t n p) =
     res_bind (to_key x d)
       (\<lambda>k. res_bind (parse_address x t)
          (\<lambda>a. res_map (fact.ForwardsToward k a n) (res_option (to_key x) p)))"
| "fact_from_wire x (WOpaqueBoundary d w) = res_map (\<lambda>k. fact.OpaqueBoundary k w) (to_key x d)"
| "fact_from_wire x (WService a p pr t) =
     res_bind (parse_address x a)
       (\<lambda>a. res_map (\<lambda>pr. fact.Service a p pr t) (protocol_from_wire x pr))"
| "fact_from_wire x (WResolvedAs n a) = res_map (fact.ResolvedAs n) (parse_address x a)"

text \<open>
  \<open>UNIX_EPOCH + Duration::from_secs(s)\<close>: a \<open>SystemTime\<close> counts its seconds in an \<open>i64\<close>, and the
  addition panics past its end. \<open>None\<close> is that panic.
\<close>

definition epoch_plus_seconds :: "u64 \<Rightarrow> int option" where
  "epoch_plus_seconds s = (if uint s < 2 ^ 63 then Some (uint s * 1000000000) else None)"

definition to_evidence ::
    "wire_externs \<Rightarrow> int \<Rightarrow> wire_evidence \<Rightarrow> topology_evidence wire_result option" where
  "to_evidence x now w =
     (case res_bind (fact_from_wire x (we_fact w))
             (\<lambda>f. res_bind (source_from_wire x (we_source w))
                (\<lambda>s. res_map (\<lambda>c. evidence_new now f s c (we_vantage w))
                       (confidence_from_wire x (we_confidence w)))) of
        Inl e \<Rightarrow> Some (Inl e)
      | Inr ev \<Rightarrow>
          map_option (\<lambda>t. Inr (ev\<lparr>ev_observed_at := t, ev_detail := we_detail w\<rparr>))
            (epoch_plus_seconds (we_observed_at w)))"

section \<open>The text a peer controls\<close>

fun device_text_fields :: "wire_device \<Rightarrow> (string \<times> string) list" where
  "device_text_fields (WMac mac) = [(''mac'', mac)]"
| "device_text_fields (WAddress address) = [(''device address'', address)]"
| "device_text_fields (WScopedAddress address zone) =
     [(''device address'', address), (''device zone'', zone)]"

definition opt_field :: "string \<Rightarrow> string option \<Rightarrow> (string \<times> string) list" where
  "opt_field name v = (case v of None \<Rightarrow> [] | Some t \<Rightarrow> [(name, t)])"

fun fact_text_fields :: "wire_fact \<Rightarrow> (string \<times> string) list" where
  "fact_text_fields (WNetwork p) = [(''prefix'', p)]"
| "fact_text_fields (WVlan v) = []"
| "fact_text_fields (WVlanNetwork v n) = [(''network'', n)]"
| "fact_text_fields (WInterfaceNetwork i p) = [(''interface'', i), (''prefix'', p)]"
| "fact_text_fields (WDeviceAddress d a) = device_text_fields d @ [(''address'', a)]"
| "fact_text_fields (WDeviceHostname d h) = device_text_fields d @ [(''hostname'', h)]"
| "fact_text_fields (WDeviceVendor d v) = device_text_fields d @ [(''vendor'', v)]"
| "fact_text_fields (WDeviceDescription d t) = device_text_fields d @ [(''description'', t)]"
| "fact_text_fields (WDeviceRoleSignal d s l) =
     device_text_fields d @ [(''role signal'', s)] @ opt_field ''role signal label'' l"
| "fact_text_fields (WDeviceCapability d c t) =
     device_text_fields d @ [(''capability'', c)] @ opt_field ''capability detail'' t"
| "fact_text_fields (WGatewayFor d n) = device_text_fields d @ [(''network'', n)]"
| "fact_text_fields (WRoutesTo d n h) =
     device_text_fields d @ [(''network'', n)] @ opt_field ''next hop'' h"
| "fact_text_fields (WAttachedTo d n) = device_text_fields d @ [(''network'', n)]"
| "fact_text_fields (WBridgeLink b r p) =
     [(''bridge id'', b), (''root id'', r)] @ opt_field ''bridge port'' p"
| "fact_text_fields (WObservedBehind d v) = device_text_fields d @ device_text_fields v"
| "fact_text_fields (WForwardsToward d t n p) =
     device_text_fields d @ [(''probe destination'', t)] @
     (case p of None \<Rightarrow> [] | Some q \<Rightarrow> device_text_fields q)"
| "fact_text_fields (WOpaqueBoundary d w) = device_text_fields d @ [(''boundary reason'', w)]"
| "fact_text_fields (WService a p pr t) =
     [(''address'', a), (''protocol'', pr)] @ opt_field ''service detail'' t"
| "fact_text_fields (WResolvedAs n a) = [(''resolved name'', n), (''address'', a)]"

definition evidence_text_fields :: "wire_evidence \<Rightarrow> (string \<times> string) list" where
  "evidence_text_fields w =
     fact_text_fields (we_fact w) @
     [(''source'', we_source w), (''confidence'', we_confidence w), (''vantage'', we_vantage w)] @
     opt_field ''detail'' (we_detail w)"

section \<open>The bytes that are signed\<close>

definition char_byte :: "char \<Rightarrow> u8" where
  "char_byte c = of_char c"

definition push_field :: "bytes \<Rightarrow> bytes" where
  "push_field bs = be_bytes 8 (of_nat (length bs) :: u64) @ bs"

text \<open>The JSON encoding of a record is the last argument.\<close>

definition signing_payload ::
    "u16 \<Rightarrow> string \<Rightarrow> string \<Rightarrow> u64 \<Rightarrow> u64 \<Rightarrow> 'r list \<Rightarrow> ('r \<Rightarrow> bytes) \<Rightarrow> bytes" where
  "signing_payload version peer vantage sequence published_at records to_json =
     map char_byte ''idnx-federation-v1'' @ [10] @
     be_bytes 2 version @
     push_field (map char_byte peer) @
     push_field (map char_byte vantage) @
     be_bytes 8 sequence @
     be_bytes 8 published_at @
     be_bytes 8 (of_nat (length records) :: u64) @
     concat (map (\<lambda>r. push_field (to_json r)) records)"

section \<open>Names are read back\<close>

lemma source_round_trip [simp]: "source_from_wire x (source_wire s) = Inr s"
  by (cases s) (simp_all add: source_from_wire_def from_wire_def all_sources_def)

lemma capability_round_trip [simp]: "capability_from_wire x (capability_wire c) = Inr c"
  by (cases c) (simp_all add: capability_from_wire_def from_wire_def all_capabilities_def)

lemma confidence_round_trip [simp]: "confidence_from_wire x (confidence_wire c) = Inr c"
  by (cases c) (simp_all add: confidence_from_wire_def from_wire_def)

text \<open>A label the receiver would refuse does not come back; every other signal does.\<close>

fun signal_known :: "role_signal \<Rightarrow> bool" where
  "signal_known (LinkLayerCapability l) = (l \<in> set link_layer_labels)"
| "signal_known _ = True"

lemma role_signal_round_trip:
  "signal_known s \<Longrightarrow>
     role_signal_from_wire x (fst (role_signal_wire s)) (snd (role_signal_wire s)) = Inr s"
  by (cases s) (simp_all add: role_signal_from_wire_def plain_signals_def)

section \<open>The signed bytes determine the bundle\<close>

lemma push_field_inject:
  assumes "length a < 2 ^ 64" and "length b < 2 ^ 64" and eq: "push_field a @ r = push_field b @ s"
  shows "a = b \<and> r = s"
proof -
  have split: "be_bytes 8 (of_nat (length a) :: u64) = be_bytes 8 (of_nat (length b) :: u64)"
    "a @ r = b @ s"
    using eq by (simp_all add: push_field_def)
  have "(of_nat (length a) :: u64) = of_nat (length b)"
    using be_bytes_inject [OF split(1)] by simp
  then have "length a = length b"
    using assms(1,2) by (simp add: word_of_nat_eq_iff take_bit_nat_eq_self)
  with split(2) show ?thesis by simp
qed

lemma fields_inject:
  assumes "length rs = length ss" and "\<forall>r \<in> set rs \<union> set ss. length (f r) < 2 ^ 64"
    and "inj_on f (set rs \<union> set ss)"
    and "concat (map (\<lambda>r. push_field (f r)) rs) = concat (map (\<lambda>r. push_field (f r)) ss)"
  shows "rs = ss"
  using assms
proof (induction rs ss rule: list_induct2)
  case (Cons r rs s ss)
  have heads: "f r = f s"
    "concat (map (\<lambda>r. push_field (f r)) rs) = concat (map (\<lambda>r. push_field (f r)) ss)"
    using push_field_inject [of "f r" "f s"] Cons.prems(1,3) by auto
  moreover have "inj_on f (set rs \<union> set ss)"
    using Cons.prems(2) by (rule inj_on_subset) auto
  moreover have "\<forall>r \<in> set rs \<union> set ss. length (f r) < 2 ^ 64" using Cons.prems(1) by simp
  ultimately have "rs = ss" using Cons.IH by blast
  moreover have "r = s" by (rule inj_onD [OF Cons.prems(2) heads(1)]) simp_all
  ultimately show ?case by simp
qed simp

lemma char_byte_inject [simp]: "char_byte c = char_byte d \<longleftrightarrow> c = d"
proof
  assume "char_byte c = char_byte d"
  then have "(of_nat (of_char c) :: u8) = of_nat (of_char d)"
    by (simp only: char_byte_def of_nat_of_char)
  moreover have "of_char c < (256 :: nat)" "of_char d < (256 :: nat)" by simp_all
  ultimately have "(of_char c :: nat) = of_char d"
    by (simp add: word_of_nat_eq_iff take_bit_nat_eq_self)
  then show "c = d" by simp
qed simp

lemma map_char_byte_inject [simp]: "map char_byte s = map char_byte t \<longleftrightarrow> s = t"
  by (simp add: inj_map_eq_map inj_def)

lemma signing_payload_inject:
  assumes "inj_on f (set rs \<union> set rs')"
    and "\<forall>r \<in> set rs \<union> set rs'. length (f r) < 2 ^ 64"
    and "length rs < 2 ^ 64" "length rs' < 2 ^ 64"
    and "length p < 2 ^ 64" "length p' < 2 ^ 64" "length v < 2 ^ 64" "length v' < 2 ^ 64"
    and eq: "signing_payload ver p v sq t rs f = signing_payload ver' p' v' sq' t' rs' f"
  shows "ver = ver' \<and> p = p' \<and> v = v' \<and> sq = sq' \<and> t = t' \<and> rs = rs'"
proof -
  let ?n = "of_nat (length rs) :: u64" and ?n' = "of_nat (length rs') :: u64"
  let ?c = "concat (map (\<lambda>r. push_field (f r)) rs)" and ?c' = "concat (map (\<lambda>r. push_field (f r)) rs')"
  let ?r = "push_field (map char_byte v) @ be_bytes 8 sq @ be_bytes 8 t @ be_bytes 8 ?n @ ?c"
  let ?r' = "push_field (map char_byte v') @ be_bytes 8 sq' @ be_bytes 8 t' @ be_bytes 8 ?n' @ ?c'"
  have ver: "be_bytes 2 ver = be_bytes 2 ver'"
    and p: "push_field (map char_byte p) @ ?r = push_field (map char_byte p') @ ?r'"
    using eq by (simp_all add: signing_payload_def)
  from push_field_inject [OF _ _ p] assms have "p = p'" and r: "?r = ?r'" by simp_all
  from push_field_inject [OF _ _ r] assms have "v = v'"
    and rest: "be_bytes 8 sq @ be_bytes 8 t @ be_bytes 8 ?n @ ?c =
               be_bytes 8 sq' @ be_bytes 8 t' @ be_bytes 8 ?n' @ ?c'" by simp_all
  from rest have nums: "be_bytes 8 sq = be_bytes 8 sq'" "be_bytes 8 t = be_bytes 8 t'"
    "be_bytes 8 ?n = be_bytes 8 ?n'" and c: "?c = ?c'" by simp_all
  have "?n = ?n'" using be_bytes_inject [OF nums(3)] by simp
  then have "length rs = length rs'"
    using assms(3,4) by (simp add: word_of_nat_eq_iff take_bit_nat_eq_self)
  from fields_inject [OF this assms(2,1) c] have "rs = rs'" .
  with \<open>p = p'\<close> \<open>v = v'\<close> show ?thesis
    using be_bytes_inject [OF ver] be_bytes_inject [OF nums(1)] be_bytes_inject [OF nums(2)] by simp
qed

text \<open>
  C29: the signature covers everything. Two bundles that differ in their version, peer, vantage,
  sequence, time or records have different signed bytes, provided the encoding of a record is
  injective and no field is longer than a 64-bit length can say.
\<close>

theorem different_bundles_sign_differently:
  assumes "inj_on f (set rs \<union> set rs')"
    and "\<forall>r \<in> set rs \<union> set rs'. length (f r) < 2 ^ 64"
    and "length rs < 2 ^ 64" "length rs' < 2 ^ 64"
    and "length p < 2 ^ 64" "length p' < 2 ^ 64" "length v < 2 ^ 64" "length v' < 2 ^ 64"
    and "(ver, p, v, sq, t, rs) \<noteq> (ver', p', v', sq', t', rs')"
  shows "signing_payload ver p v sq t rs f \<noteq> signing_payload ver' p' v' sq' t' rs' f"
  using signing_payload_inject [OF assms(1-8)] assms(9) by blast

theorem different_bundles_sign_differently_witness:
  "signing_payload 1 ''ab'' ''en0'' 7 9 [[1, 2]] (\<lambda>r. r) \<noteq>
   signing_payload 1 ''ab'' ''en0'' 8 9 [[1, 2]] (\<lambda>r. r)"
  by (rule different_bundles_sign_differently) simp_all

end
