(* ===== verification/Identity.thy ===== *)
theory Identity
  imports Idnx_Prelude
begin

text \<open>
  Peer identity (\<open>src/src/federation/identity.rs\<close>). A peer is an Ed25519 public key; the curve is
  the crate \<open>ed25519-dalek\<close>, so what the sources use of it is an argument: which 32 bytes are a
  key, which signature a key accepts, and what a seed signs. A key is its 32 bytes.
\<close>

unbundle bit_operations_syntax

record ed25519 =
  ed_valid_key :: "bytes \<Rightarrow> bool"
  ed_verify :: "bytes \<Rightarrow> bytes \<Rightarrow> bytes \<Rightarrow> bool"
  ed_public :: "bytes \<Rightarrow> bytes"
  ed_sign :: "bytes \<Rightarrow> bytes \<Rightarrow> bytes"

datatype identity_error = Malformed | BadSignature

datatype peer_id = PeerId bytes

datatype peer_key = PeerKey bytes

section \<open>Hexadecimal\<close>

definition hex_nibble :: "u8 \<Rightarrow> char" where
  "hex_nibble n = digit_char (uint n)"

fun encode_hex :: "bytes \<Rightarrow> string" where
  "encode_hex [] = []"
| "encode_hex (b # bs) = hex_nibble (drop_bit 4 b) # hex_nibble (b AND 15) # encode_hex bs"

definition nibble :: "char \<Rightarrow> u8 option" where
  "nibble byte = map_option word_of_nat (hex_digit byte)"

fun decode_pairs :: "string \<Rightarrow> bytes option" where
  "decode_pairs (hi # lo # rest) =
     (case (nibble hi, nibble lo, decode_pairs rest) of
        (Some h, Some l, Some bs) \<Rightarrow> Some ((push_bit 4 h OR l) # bs)
      | _ \<Rightarrow> None)"
| "decode_pairs _ = Some []"

definition decode_hex :: "string \<Rightarrow> bytes option" where
  "decode_hex text = (if length text mod 2 \<noteq> 0 then None else decode_pairs text)"

section \<open>Keys\<close>

definition peer_from_hex :: "ed25519 \<Rightarrow> string \<Rightarrow> identity_error + peer_id" where
  "peer_from_hex ed text =
     (case decode_hex text of
        None \<Rightarrow> Inl Malformed
      | Some bs \<Rightarrow>
          if length bs \<noteq> 32 then Inl Malformed
          else if ed_valid_key ed bs then Inr (PeerId bs)
          else Inl Malformed)"

fun peer_to_hex :: "peer_id \<Rightarrow> string" where
  "peer_to_hex (PeerId bs) = encode_hex bs"

definition peer_short :: "peer_id \<Rightarrow> string" where
  "peer_short p = take 16 (peer_to_hex p)"

fun peer_verify :: "ed25519 \<Rightarrow> peer_id \<Rightarrow> bytes \<Rightarrow> bytes \<Rightarrow> identity_error + unit" where
  "peer_verify ed (PeerId key) msg signature =
     (if length signature \<noteq> 64 then Inl BadSignature
      else if ed_verify ed key msg signature then Inr ()
      else Inl BadSignature)"

definition key_from_seed :: "bytes \<Rightarrow> identity_error + peer_key" where
  "key_from_seed seed = (if length seed \<noteq> 32 then Inl Malformed else Inr (PeerKey seed))"

fun key_seed :: "peer_key \<Rightarrow> bytes" where
  "key_seed (PeerKey seed) = seed"

fun key_id :: "ed25519 \<Rightarrow> peer_key \<Rightarrow> peer_id" where
  "key_id ed (PeerKey seed) = PeerId (ed_public ed seed)"

fun key_sign :: "ed25519 \<Rightarrow> peer_key \<Rightarrow> bytes \<Rightarrow> bytes" where
  "key_sign ed (PeerKey seed) msg = ed_sign ed seed msg"

section \<open>Text and bytes\<close>

lemma nibble_hex_nibble: "n < 16 \<Longrightarrow> nibble (hex_nibble n) = Some n"
proof -
  assume "n < 16"
  then have "uint n \<in> {0..15}" by (simp add: word_less_def)
  then have "uint n \<in> set [0..15]" by simp
  then have "uint n = 0 \<or> uint n = 1 \<or> uint n = 2 \<or> uint n = 3 \<or> uint n = 4 \<or> uint n = 5 \<or>
      uint n = 6 \<or> uint n = 7 \<or> uint n = 8 \<or> uint n = 9 \<or> uint n = 10 \<or> uint n = 11 \<or>
      uint n = 12 \<or> uint n = 13 \<or> uint n = 14 \<or> uint n = 15"
    by (simp add: upto_rec1)
  then have "map_option int (hex_digit (hex_nibble n)) = Some (uint n)"
    by (elim disjE)
      (simp_all add: hex_nibble_def digit_char_def hex_digit_def is_ascii_digit_def char_code_def)
  then obtain d where "hex_digit (hex_nibble n) = Some d" "int d = uint n" by auto
  moreover from this have "word_of_nat d = n"
    by (metis of_int_of_nat_eq word_of_int_uint)
  ultimately show ?thesis by (simp add: nibble_def)
qed

lemma nibbles_join: "push_bit 4 (drop_bit 4 b) OR (b AND 15) = (b :: u8)"
proof -
  have "b AND 15 = take_bit 4 b" by (simp add: take_bit_eq_mask mask_eq_exp_minus_1)
  then show ?thesis
    by (auto intro!: bit_word_eqI simp: bit_simps)
qed

lemma drop_bit_4_less: "drop_bit 4 (b :: u8) < 16"
proof -
  have "uint (drop_bit 4 b) = uint b div 16"
    unfolding unsigned_drop_bit_eq drop_bit_eq_div [where 'a = int]
    by (simp add: bintr_uint)
  moreover have "uint b < 256" using unsigned_less [of b] by simp
  ultimately show ?thesis by (simp add: word_less_def)
qed

lemma and_15_less: "(b :: u8) AND 15 < 16"
proof -
  have "b AND 15 = take_bit 4 b" by (simp add: take_bit_eq_mask mask_eq_exp_minus_1)
  then have "uint (b AND 15) = take_bit 4 (uint b)" by (simp only: unsigned_take_bit_eq)
  then show ?thesis by (simp add: word_less_def take_bit_eq_mod)
qed

lemma length_encode_hex [simp]: "length (encode_hex bs) = 2 * length bs"
  by (induction bs) simp_all

lemma decode_pairs_encode: "decode_pairs (encode_hex bs) = Some bs"
  by (induction bs)
    (simp_all add: nibble_hex_nibble drop_bit_4_less and_15_less nibbles_join)

lemma decode_encode_hex: "decode_hex (encode_hex bs) = Some bs"
  by (simp add: decode_hex_def decode_pairs_encode)

lemma encode_hex_inject: "encode_hex a = encode_hex b \<longleftrightarrow> a = b"
  by (metis decode_encode_hex option.inject)

lemma peer_to_hex_inject [simp]: "peer_to_hex p = peer_to_hex q \<longleftrightarrow> p = q"
  by (cases p; cases q) (simp add: encode_hex_inject)

text \<open>The hexadecimal name of a peer has no slash in it, so it can head a qualified zone.\<close>

lemma digit_char_hex: "0 \<le> d \<Longrightarrow> d < 16 \<Longrightarrow> digit_char d \<noteq> CHR ''/''"
proof -
  assume "0 \<le> d" "d < 16"
  then have "char_code (digit_char d) \<noteq> 47"
    by (auto simp: digit_char_def char_code_def)
  then show ?thesis by (auto simp: char_code_def)
qed

lemma encode_hex_plain: "CHR ''/'' \<notin> set (encode_hex bs)"
proof (induction bs)
  case (Cons b bs)
  have "digit_char (uint (drop_bit 4 b)) \<noteq> CHR ''/''" "digit_char (uint (b AND 15)) \<noteq> CHR ''/''"
    using drop_bit_4_less [of b] and_15_less [of b]
    by (simp_all add: digit_char_hex word_less_def)
  with Cons show ?case by (auto simp: hex_nibble_def)
qed simp

end
