(* ===== verification/Bundle.thy ===== *)
theory Bundle
  imports Wire Identity
begin

text \<open>
  Signed evidence bundles (\<open>src/src/federation/bundle.rs\<close>). What the federation uses of other
  crates is one argument: the curve, the JSON encoding of a record, and the externals of the wire
  format.
\<close>

record federation_env =
  fe_curve :: ed25519
  fe_to_json :: "wire_evidence \<Rightarrow> bytes"
  fe_wire :: wire_externs

record evidence_bundle =
  bu_schema_version :: u16
  bu_peer :: string
  bu_vantage :: string
  bu_sequence :: u64
  bu_published_at :: u64
  bu_records :: "wire_evidence list"
  bu_signature :: string

datatype bundle_error = UnsupportedSchema u16 | BundleIdentity identity_error

text \<open>The time of publication is an argument.\<close>

definition publish ::
    "federation_env \<Rightarrow> int \<Rightarrow> peer_key \<Rightarrow> string \<Rightarrow> u64 \<Rightarrow> topology_evidence list \<Rightarrow> evidence_bundle" where
  "publish env now key vantage sequence evidence =
     (let records = map (we_from_evidence (fe_wire env)) evidence;
          peer = peer_to_hex (key_id (fe_curve env) key);
          published_at = unix_seconds now;
          signature = key_sign (fe_curve env) key
            (signing_payload SCHEMA_VERSION peer vantage sequence published_at records
               (fe_to_json env))
      in \<lparr>bu_schema_version = SCHEMA_VERSION, bu_peer = peer, bu_vantage = vantage,
          bu_sequence = sequence, bu_published_at = published_at, bu_records = records,
          bu_signature = encode_hex signature\<rparr>)"

definition bundle_payload :: "federation_env \<Rightarrow> evidence_bundle \<Rightarrow> bytes" where
  "bundle_payload env b =
     signing_payload (bu_schema_version b) (bu_peer b) (bu_vantage b) (bu_sequence b)
       (bu_published_at b) (bu_records b) (fe_to_json env)"

definition bundle_verify :: "federation_env \<Rightarrow> evidence_bundle \<Rightarrow> bundle_error + peer_id" where
  "bundle_verify env b =
     (if bu_schema_version b \<noteq> SCHEMA_VERSION then Inl (UnsupportedSchema (bu_schema_version b))
      else case peer_from_hex (fe_curve env) (bu_peer b) of
             Inl e \<Rightarrow> Inl (BundleIdentity e)
           | Inr peer \<Rightarrow>
               (case decode_hex (bu_signature b) of
                  None \<Rightarrow> Inl (BundleIdentity BadSignature)
                | Some signature \<Rightarrow>
                    (case peer_verify (fe_curve env) peer (bundle_payload env b) signature of
                       Inl e \<Rightarrow> Inl (BundleIdentity e)
                     | Inr _ \<Rightarrow> Inr peer)))"

section \<open>What a signature establishes\<close>

text \<open>
  What Ed25519 documents, for one seed: its public key is a key of 32 bytes, a signature has 64,
  and the key accepts what the seed signed.
\<close>

definition ed25519_correct :: "ed25519 \<Rightarrow> bytes \<Rightarrow> bool" where
  "ed25519_correct ed seed \<longleftrightarrow>
     ed_valid_key ed (ed_public ed seed) \<and> length (ed_public ed seed) = 32 \<and>
     (\<forall>m. length (ed_sign ed seed m) = 64 \<and> ed_verify ed (ed_public ed seed) m (ed_sign ed seed m))"

lemma bundle_verify_publish:
  assumes "ed25519_correct (fe_curve env) seed"
  shows "bundle_verify env (publish env now (PeerKey seed) vantage sequence evidence) =
           Inr (key_id (fe_curve env) (PeerKey seed))"
  using assms
  by (simp add: bundle_verify_def publish_def Let_def peer_from_hex_def decode_encode_hex
      ed25519_correct_def bundle_payload_def)

text \<open>
  A bundle a peer publishes verifies at the receiver, as that peer, whatever it carries.
\<close>

theorem published_bundle_verifies:
  assumes "ed25519_correct (fe_curve env) seed"
  shows "bundle_verify env (publish env now (PeerKey seed) vantage sequence evidence) =
           Inr (key_id (fe_curve env) (PeerKey seed))"
  by (rule bundle_verify_publish [OF assms])

text \<open>A curve of the right shape on which everything verifies, and encodings for the witnesses.\<close>

definition sample_curve :: ed25519 where
  "sample_curve =
     \<lparr>ed_valid_key = (\<lambda>k. True), ed_verify = (\<lambda>k m s. s = k @ k), ed_public = (\<lambda>seed. seed),
      ed_sign = (\<lambda>seed m. seed @ seed)\<rparr>"

definition sample_env :: federation_env where
  "sample_env =
     \<lparr>fe_curve = sample_curve, fe_to_json = (\<lambda>r. map char_byte (we_vantage r)),
      fe_wire = \<lparr>net_to_string = (\<lambda>p. []), net_from_str = (\<lambda>s. None), debug_str = (\<lambda>s. s)\<rparr>\<rparr>"

definition sample_seed :: bytes where
  "sample_seed = replicate 32 7"

lemma sample_curve_correct: "ed25519_correct (fe_curve sample_env) sample_seed"
  by (simp add: ed25519_correct_def sample_env_def sample_curve_def sample_seed_def)

theorem published_bundle_verifies_witness:
  "bundle_verify sample_env (publish sample_env 0 (PeerKey sample_seed) ''en0'' 1 []) =
     Inr (key_id (fe_curve sample_env) (PeerKey sample_seed))"
  by (rule published_bundle_verifies) (rule sample_curve_correct)

lemma verified_bundle:
  assumes "bundle_verify env b = Inr peer"
  shows "bu_schema_version b = SCHEMA_VERSION" and "peer_from_hex (fe_curve env) (bu_peer b) = Inr peer"
    and "\<exists>signature. decode_hex (bu_signature b) = Some signature \<and>
           peer_verify (fe_curve env) peer (bundle_payload env b) signature = Inr ()"
  using assms by (auto simp: bundle_verify_def split: if_splits sum.splits option.splits)

end
