(* ===== verification/Ledger.thy ===== *)
theory Ledger
  imports Bundle Realm
begin

text \<open>
  Accepting evidence from peers (\<open>src/src/federation/ledger.rs\<close>): the ledger of paired peers,
  replay cursors and reservations, and the transaction prepare / commit / abandon on it. The
  ledger is passed explicitly; an operation that fails returns its error beside the ledger.
  \<open>None\<close> is a panic.
\<close>

datatype reject_reason =
    Unverifiable bundle_error
  | NotPaired string
  | Stale u64 u64
  | Busy string
  | Undecodable "string list"

record prepared =
  pr_peer :: peer_id
  pr_vantage :: string
  pr_sequence :: u64
  pr_evidence :: "topology_evidence list"
  pr_token :: u64

record receipt =
  rc_peer :: peer_id
  rc_sequence :: u64
  rc_token :: u64

record accepted =
  ac_peer :: peer_id
  ac_vantage :: string
  ac_sequence :: u64
  ac_evidence :: "topology_evidence list"

definition into_accepted :: "prepared \<Rightarrow> accepted" where
  "into_accepted p =
     \<lparr>ac_peer = pr_peer p, ac_vantage = pr_vantage p, ac_sequence = pr_sequence p,
      ac_evidence = pr_evidence p\<rparr>"

definition pr_split :: "prepared \<Rightarrow> accepted \<times> receipt" where
  "pr_split p =
     (into_accepted p,
      \<lparr>rc_peer = pr_peer p, rc_sequence = pr_sequence p, rc_token = pr_token p\<rparr>)"

record peer_ledger =
  pl_trusted :: "(string, peer_id) hash_map"
  pl_highest_sequence :: "(string, u64) hash_map"
  pl_in_flight :: "(string, u64) hash_map"
  pl_next_token :: u64

definition ledger_new :: peer_ledger where
  "ledger_new =
     \<lparr>pl_trusted = [], pl_highest_sequence = [], pl_in_flight = [], pl_next_token = 0\<rparr>"

definition pair :: "peer_id \<Rightarrow> peer_ledger \<Rightarrow> peer_ledger" where
  "pair peer l = l\<lparr>pl_trusted := hm_insert (peer_to_hex peer) peer (pl_trusted l)\<rparr>"

definition is_paired :: "peer_ledger \<Rightarrow> peer_id \<Rightarrow> bool" where
  "is_paired l peer \<longleftrightarrow> hm_get (pl_trusted l) (peer_to_hex peer) \<noteq> None"

definition paired_peers :: "peer_ledger \<Rightarrow> peer_id list" where
  "paired_peers l = sort_key peer_to_hex (map snd (pl_trusted l))"

text \<open>
  The loop over the records: what was converted, each record attributed, and the text of every
  error. A record whose time cannot be represented panics.
\<close>

fun convert_records ::
    "wire_externs \<Rightarrow> int \<Rightarrow> peer_origin \<Rightarrow> wire_evidence list
       \<Rightarrow> (topology_evidence list \<times> string list) option" where
  "convert_records x now origin [] = Some ([], [])"
| "convert_records x now origin (r # rs) =
     (case to_evidence x now r of
        None \<Rightarrow> None
      | Some res \<Rightarrow>
          (case convert_records x now origin rs of
             None \<Rightarrow> None
           | Some (evidence, undecodable) \<Rightarrow>
               Some (case res of
                       Inr ev \<Rightarrow> (from_peer ev origin # evidence, undecodable)
                     | Inl e \<Rightarrow> (evidence, wire_error_text e # undecodable))))"

definition bundle_origin :: "string \<Rightarrow> evidence_bundle \<Rightarrow> peer_origin" where
  "bundle_origin key b =
     \<lparr>po_peer = key, po_vantage = bu_vantage b, po_sequence = bu_sequence b,
      po_published_at = bu_published_at b\<rparr>"

definition prepare ::
    "federation_env \<Rightarrow> int \<Rightarrow> evidence_bundle \<Rightarrow> peer_ledger
       \<Rightarrow> ((reject_reason + prepared) \<times> peer_ledger) option" where
  "prepare env now b l =
     (case bundle_verify env b of
        Inl e \<Rightarrow> Some (Inl (Unverifiable e), l)
      | Inr peer \<Rightarrow>
          let key = peer_to_hex peer in
          if \<not> is_paired l peer then Some (Inl (NotPaired key), l)
          else if (case hm_get (pl_highest_sequence l) key of
                     None \<Rightarrow> False | Some seen \<Rightarrow> bu_sequence b \<le> seen)
          then Some (Inl (Stale (the (hm_get (pl_highest_sequence l) key)) (bu_sequence b)), l)
          else
            (case convert_records (fe_wire env) now (bundle_origin key b) (bu_records b) of
               None \<Rightarrow> None
             | Some (evidence, undecodable) \<Rightarrow>
                 Some
                   (if undecodable \<noteq> []
                    then (Inl (Undecodable (remdups_adj (sort undecodable))), l)
                    else if hm_get (pl_in_flight l) key \<noteq> None then (Inl (Busy key), l)
                    else
                      let token = pl_next_token l + 1
                      in (Inr \<lparr>pr_peer = peer, pr_vantage = bu_vantage b,
                               pr_sequence = bu_sequence b, pr_evidence = evidence,
                               pr_token = token\<rparr>,
                          l\<lparr>pl_next_token := token,
                            pl_in_flight := hm_insert key token (pl_in_flight l)\<rparr>))))"

definition raise_cursor :: "string \<Rightarrow> u64 \<Rightarrow> peer_ledger \<Rightarrow> peer_ledger" where
  "raise_cursor key sequence l =
     l\<lparr>pl_highest_sequence :=
         hm_entry key 0 (\<lambda>e. if e < sequence then sequence else e) (pl_highest_sequence l)\<rparr>"

definition release :: "string \<Rightarrow> peer_ledger \<Rightarrow> peer_ledger" where
  "release key l = l\<lparr>pl_in_flight := hm_remove key (pl_in_flight l)\<rparr>"

definition owns_reservation :: "receipt \<Rightarrow> peer_ledger \<Rightarrow> bool" where
  "owns_reservation r l \<longleftrightarrow> hm_get (pl_in_flight l) (peer_to_hex (rc_peer r)) = Some (rc_token r)"

definition commit :: "receipt \<Rightarrow> peer_ledger \<Rightarrow> bool \<times> peer_ledger" where
  "commit r l =
     (let key = peer_to_hex (rc_peer r)
      in if \<not> owns_reservation r l then (False, l)
         else (True, release key (raise_cursor key (rc_sequence r) l)))"

definition abandon :: "receipt \<Rightarrow> peer_ledger \<Rightarrow> bool \<times> peer_ledger" where
  "abandon r l =
     (if \<not> owns_reservation r l then (False, l)
      else (True, release (peer_to_hex (rc_peer r)) l))"

definition is_busy :: "peer_ledger \<Rightarrow> peer_id \<Rightarrow> bool" where
  "is_busy l peer \<longleftrightarrow> hm_get (pl_in_flight l) (peer_to_hex peer) \<noteq> None"

definition restore_cursor :: "peer_id \<Rightarrow> u64 \<Rightarrow> peer_ledger \<Rightarrow> peer_ledger" where
  "restore_cursor peer sequence l = raise_cursor (peer_to_hex peer) sequence l"

definition accept_immediately ::
    "federation_env \<Rightarrow> int \<Rightarrow> evidence_bundle \<Rightarrow> peer_ledger
       \<Rightarrow> ((reject_reason + accepted) \<times> peer_ledger) option" where
  "accept_immediately env now b l =
     (case prepare env now b l of
        None \<Rightarrow> None
      | Some (Inl e, l') \<Rightarrow> Some (Inl e, l')
      | Some (Inr p, l') \<Rightarrow>
          (let (acc, r) = pr_split p in Some (Inr acc, snd (commit r l'))))"

end
