(* ===== verification/Ledger_Props.thy ===== *)
theory Ledger_Props
  imports Ledger
begin

text \<open>
  The ledger as a state machine: runs of its operations, and what no run can do. A bundle is
  never applied twice, a receipt never works twice, a rejection changes nothing, an abandoned
  bundle can be offered again, and accepted evidence is attributed to the peer that signed it.
\<close>

section \<open>Runs\<close>

datatype ledger_op =
    OpPair peer_id
  | OpPrepare int evidence_bundle
  | OpCommit receipt
  | OpAbandon receipt
  | OpRestore peer_id u64

text \<open>A panic in the task that prepares leaves the ledger as it was: it happens before any change.\<close>

fun ledger_step :: "federation_env \<Rightarrow> ledger_op \<Rightarrow> peer_ledger \<Rightarrow> peer_ledger" where
  "ledger_step env (OpPair peer) l = pair peer l"
| "ledger_step env (OpPrepare now b) l =
     (case prepare env now b l of None \<Rightarrow> l | Some (res, l') \<Rightarrow> l')"
| "ledger_step env (OpCommit r) l = snd (commit r l)"
| "ledger_step env (OpAbandon r) l = snd (abandon r l)"
| "ledger_step env (OpRestore peer sequence) l = restore_cursor peer sequence l"

definition ledger_run :: "federation_env \<Rightarrow> ledger_op list \<Rightarrow> peer_ledger \<Rightarrow> peer_ledger" where
  "ledger_run env ops l = fold (ledger_step env) ops l"

lemma ledger_run_simps [simp]:
  "ledger_run env [] l = l"
  "ledger_run env (op # ops) l = ledger_run env ops (ledger_step env op l)"
  by (simp_all add: ledger_run_def)

lemma ledger_run_append: "ledger_run env (xs @ ys) l = ledger_run env ys (ledger_run env xs l)"
  by (simp add: ledger_run_def)

section \<open>What each operation changes\<close>

lemma prepare_cases:
  assumes "prepare env now b l = Some (res, l')"
  obtains (rejected) e where "res = Inl e" and "l' = l"
  | (reserved) peer evidence where
      "bundle_verify env b = Inr peer" and "is_paired l peer"
      "\<And>seen. hm_get (pl_highest_sequence l) (peer_to_hex peer) = Some seen \<Longrightarrow> seen < bu_sequence b"
      "convert_records (fe_wire env) now (bundle_origin (peer_to_hex peer) b) (bu_records b) =
         Some (evidence, [])"
      "hm_get (pl_in_flight l) (peer_to_hex peer) = None"
      "res = Inr \<lparr>pr_peer = peer, pr_vantage = bu_vantage b, pr_sequence = bu_sequence b,
                  pr_evidence = evidence, pr_token = pl_next_token l + 1\<rparr>"
      "l' = l\<lparr>pl_next_token := pl_next_token l + 1,
              pl_in_flight := hm_insert (peer_to_hex peer) (pl_next_token l + 1) (pl_in_flight l)\<rparr>"
proof (cases "\<exists>e. res = Inl e")
  case True
  with assms have "l' = l"
    by (auto simp: prepare_def Let_def split: sum.splits if_splits option.splits)
  with True rejected show ?thesis by blast
next
  case False
  then obtain p where p: "res = Inr p" by (cases res) auto
  from assms obtain peer where peer: "bundle_verify env b = Inr peer"
    by (cases "bundle_verify env b") (auto simp: prepare_def p)
  with assms obtain evidence where
    conv: "convert_records (fe_wire env) now (bundle_origin (peer_to_hex peer) b) (bu_records b) =
       Some (evidence, [])"
    by (auto simp: prepare_def p Let_def split: if_splits option.splits)
  have stale: "\<not> (case hm_get (pl_highest_sequence l) (peer_to_hex peer) of
                    None \<Rightarrow> False | Some seen \<Rightarrow> bu_sequence b \<le> seen)"
    using assms peer by (auto simp: prepare_def p Let_def split: if_splits)
  show ?thesis
  proof (rule reserved)
    show "bundle_verify env b = Inr peer" by (rule peer)
    show "is_paired l peer" using assms peer by (auto simp: prepare_def p Let_def split: if_splits)
    show "seen < bu_sequence b" if "hm_get (pl_highest_sequence l) (peer_to_hex peer) = Some seen" for seen
      using stale that by simp
    show "convert_records (fe_wire env) now (bundle_origin (peer_to_hex peer) b) (bu_records b) =
       Some (evidence, [])" by (rule conv)
    show "hm_get (pl_in_flight l) (peer_to_hex peer) = None"
      using assms peer conv stale by (auto simp: prepare_def p Let_def split: if_splits)
    show "res = Inr \<lparr>pr_peer = peer, pr_vantage = bu_vantage b, pr_sequence = bu_sequence b,
                  pr_evidence = evidence, pr_token = pl_next_token l + 1\<rparr>"
      and "l' = l\<lparr>pl_next_token := pl_next_token l + 1,
              pl_in_flight := hm_insert (peer_to_hex peer) (pl_next_token l + 1) (pl_in_flight l)\<rparr>"
      using assms peer conv stale by (auto simp: prepare_def p Let_def split: if_splits)
  qed
qed

section \<open>The cursor never goes back\<close>

definition cursor_at_least :: "peer_id \<Rightarrow> u64 \<Rightarrow> peer_ledger \<Rightarrow> bool" where
  "cursor_at_least peer n l \<longleftrightarrow>
     (\<exists>seen. hm_get (pl_highest_sequence l) (peer_to_hex peer) = Some seen \<and> n \<le> seen)"

lemma cursor_raise:
  "cursor_at_least peer n l \<Longrightarrow> cursor_at_least peer n (raise_cursor key sequence l)"
  by (auto simp: cursor_at_least_def raise_cursor_def hm_laws)

lemma cursor_release [simp]: "cursor_at_least peer n (release key l) = cursor_at_least peer n l"
  by (simp add: cursor_at_least_def release_def)

lemma cursor_step: "cursor_at_least peer n l \<Longrightarrow> cursor_at_least peer n (ledger_step env op l)"
proof (cases op)
  case (OpPrepare now b)
  moreover assume "cursor_at_least peer n l"
  ultimately show ?thesis
    by (cases "prepare env now b l") (auto elim!: prepare_cases simp: cursor_at_least_def)
qed (auto simp: commit_def abandon_def restore_cursor_def pair_def Let_def cursor_raise
    cursor_at_least_def [of _ _ "l\<lparr>pl_trusted := _\<rparr>"] cursor_at_least_def [of _ _ l])

lemma cursor_run: "cursor_at_least peer n l \<Longrightarrow> cursor_at_least peer n (ledger_run env ops l)"
  by (induction ops arbitrary: l) (simp_all add: cursor_step)

lemma commit_raises:
  "commit r l = (True, l') \<Longrightarrow> cursor_at_least (rc_peer r) (rc_sequence r) l'"
  by (auto simp: commit_def Let_def cursor_at_least_def raise_cursor_def release_def hm_laws
      split: if_splits)

lemma stale_is_refused:
  assumes "cursor_at_least peer n l" and "bundle_verify env b = Inr peer" and "bu_sequence b \<le> n"
    and "is_paired l peer"
  shows "\<exists>seen. prepare env now b l = Some (Inl (Stale seen (bu_sequence b)), l) \<and> bu_sequence b \<le> seen"
  using assms by (auto simp: prepare_def cursor_at_least_def Let_def)

text \<open>
  C22: a bundle is never applied twice. Once a transaction has committed, a bundle of the same
  peer at or below its sequence is refused as stale, whatever operations the ledger went through
  in between, and the refusal changes nothing.
\<close>

theorem replay_is_refused:
  assumes "commit r l = (True, l')"
    and "bundle_verify env b = Inr (rc_peer r)" and "bu_sequence b \<le> rc_sequence r"
    and "is_paired (ledger_run env ops l') (rc_peer r)"
  shows "\<exists>seen. bu_sequence b \<le> seen \<and>
           prepare env now b (ledger_run env ops l') =
             Some (Inl (Stale seen (bu_sequence b)), ledger_run env ops l')"
  using stale_is_refused [OF cursor_run [OF commit_raises [OF assms(1)]] assms(2-4)] by blast

definition sample_bundle :: "u64 \<Rightarrow> evidence_bundle" where
  "sample_bundle n = publish sample_env 0 (PeerKey sample_seed) ''en0'' n
     [evidence_new 0 (fact.Vlan 10) Snmp Observed ''en0'']"

definition sample_ledger :: peer_ledger where
  "sample_ledger = pair (PeerId sample_seed) ledger_new"

definition sample_receipt :: "u64 \<Rightarrow> receipt" where
  "sample_receipt n = \<lparr>rc_peer = PeerId sample_seed, rc_sequence = n, rc_token = 1\<rparr>"

definition sample_open :: "u64 \<Rightarrow> peer_ledger" where
  "sample_open n = ledger_step sample_env (OpPrepare 0 (sample_bundle n)) sample_ledger"

lemma sample_bundle_verified [simp]:
  "bundle_verify sample_env (sample_bundle n) = Inr (PeerId sample_seed)"
  unfolding sample_bundle_def bundle_verify_publish [OF sample_curve_correct]
  by (simp add: sample_env_def sample_curve_def)

lemma sample_bundle_fields [simp]:
  "bu_sequence (sample_bundle n) = n"
  "bu_vantage (sample_bundle n) = ''en0''"
  by (simp_all add: sample_bundle_def publish_def Let_def)

lemma sample_records [simp]:
  "convert_records (fe_wire sample_env) now origin (bu_records (sample_bundle n)) =
     Some ([from_peer (evidence_new 0 (fact.Vlan 10) Snmp Observed ''en0'') origin], [])"
  using source_round_trip [of "fe_wire sample_env" Snmp]
    confidence_round_trip [of "fe_wire sample_env" Observed]
  by (simp add: sample_bundle_def publish_def Let_def to_evidence_def we_from_evidence_def
      evidence_new_def unix_seconds_def epoch_plus_seconds_def)

lemma sample_paired [simp]: "is_paired sample_ledger (PeerId sample_seed)"
  by (simp add: is_paired_def sample_ledger_def pair_def hm_laws)

lemma sample_prepare:
  "prepare sample_env now (sample_bundle n) sample_ledger =
     Some (Inr \<lparr>pr_peer = PeerId sample_seed, pr_vantage = ''en0'', pr_sequence = n,
                pr_evidence = [from_peer (evidence_new 0 (fact.Vlan 10) Snmp Observed ''en0'')
                   (bundle_origin (peer_to_hex (PeerId sample_seed)) (sample_bundle n))],
                pr_token = 1\<rparr>, sample_open n)"
  by (simp add: sample_open_def prepare_def Let_def)
    (simp add: sample_ledger_def pair_def ledger_new_def)

lemma sample_owns: "owns_reservation (sample_receipt n) (sample_open n)"
  by (simp add: owns_reservation_def sample_receipt_def sample_open_def prepare_def Let_def)
    (simp add: sample_ledger_def pair_def ledger_new_def)

lemma sample_commit:
  "commit (sample_receipt n) (sample_open n) =
     (True, snd (commit (sample_receipt n) (sample_open n)))"
  by (simp add: commit_def sample_owns Let_def)

lemma trusted_kept:
  "pl_trusted (release k l) = pl_trusted l" "pl_trusted (raise_cursor k n l) = pl_trusted l"
  "pl_trusted (sample_open n) = pl_trusted sample_ledger"
  by (simp_all add: release_def raise_cursor_def sample_open_def prepare_def Let_def)

theorem replay_is_refused_witness:
  "\<exists>seen. bu_sequence (sample_bundle 4) \<le> seen \<and>
     prepare sample_env 0 (sample_bundle 4)
       (ledger_run sample_env [OpRestore (PeerId sample_seed) 2]
          (snd (commit (sample_receipt 4) (sample_open 4)))) =
       Some (Inl (Stale seen (bu_sequence (sample_bundle 4))),
         ledger_run sample_env [OpRestore (PeerId sample_seed) 2]
           (snd (commit (sample_receipt 4) (sample_open 4))))"
proof (rule replay_is_refused [OF sample_commit])
  show "is_paired (ledger_run sample_env [OpRestore (PeerId sample_seed) 2]
      (snd (commit (sample_receipt 4) (sample_open 4)))) (rc_peer (sample_receipt 4))"
    using sample_paired
    by (simp add: is_paired_def restore_cursor_def commit_def Let_def sample_owns trusted_kept
        sample_receipt_def)
qed (simp_all add: sample_receipt_def)

section \<open>A receipt works once\<close>

definition tokens_issued :: "peer_ledger \<Rightarrow> bool" where
  "tokens_issued l \<longleftrightarrow> (\<forall>k t. hm_get (pl_in_flight l) k = Some t \<longrightarrow> t \<le> pl_next_token l)"

text \<open>A reservation with this token is neither held nor can be taken any more.\<close>

definition token_spent :: "string \<Rightarrow> u64 \<Rightarrow> peer_ledger \<Rightarrow> bool" where
  "token_spent k t l \<longleftrightarrow> t \<le> pl_next_token l \<and> hm_get (pl_in_flight l) k \<noteq> Some t"

lemma next_token_frame [simp]:
  "pl_next_token (release k l) = pl_next_token l"
  "pl_next_token (raise_cursor k n l) = pl_next_token l"
  "pl_next_token (pair p l) = pl_next_token l"
  by (simp_all add: release_def raise_cursor_def pair_def)

lemma in_flight_frame [simp]:
  "pl_in_flight (raise_cursor k n l) = pl_in_flight l"
  "pl_in_flight (pair p l) = pl_in_flight l"
  by (simp_all add: raise_cursor_def pair_def)

lemma in_flight_release:
  "hm_get (pl_in_flight (release k l)) = (hm_get (pl_in_flight l))(k := None)"
  by (simp add: release_def hm_laws)

lemma next_token_less: "unat (n :: u64) + 1 < 2 ^ 64 \<Longrightarrow> n < n + 1"
  by (simp add: word_less_nat_alt unat_word_ariths)

lemma step_tokens:
  assumes "unat (pl_next_token l) + 1 < 2 ^ 64"
  shows "tokens_issued l \<Longrightarrow> tokens_issued (ledger_step env op l)"
    and "token_spent k t l \<Longrightarrow> token_spent k t (ledger_step env op l)"
    and "unat (pl_next_token (ledger_step env op l)) \<le> Suc (unat (pl_next_token l))"
proof -
  note less = next_token_less [OF assms]
  have suc: "unat (pl_next_token l + 1) = Suc (unat (pl_next_token l))"
    using assms by (simp add: unat_word_ariths)
  have le: "t \<le> pl_next_token l \<Longrightarrow> t \<le> pl_next_token l + 1" for t
    by (rule order_trans [OF _ less_imp_le [OF less]])
  show "tokens_issued l \<Longrightarrow> tokens_issued (ledger_step env op l)"
  proof (cases op)
    case (OpPrepare now b)
    moreover assume "tokens_issued l"
    ultimately show ?thesis
      by (cases "prepare env now b l")
        (auto elim!: prepare_cases simp: tokens_issued_def hm_laws split: if_splits, blast intro: le)
  qed (auto simp: tokens_issued_def commit_def abandon_def restore_cursor_def Let_def
      in_flight_release split: if_splits)
  show "token_spent k t l \<Longrightarrow> token_spent k t (ledger_step env op l)"
  proof (cases op)
    case (OpPrepare now b)
    moreover assume "token_spent k t l"
    ultimately show ?thesis
      using less
      by (cases "prepare env now b l")
        (auto elim!: prepare_cases simp: token_spent_def hm_laws leD intro: le split: if_splits)
  qed (auto simp: token_spent_def commit_def abandon_def restore_cursor_def Let_def
      in_flight_release split: if_splits)
  show "unat (pl_next_token (ledger_step env op l)) \<le> Suc (unat (pl_next_token l))"
  proof (cases op)
    case (OpPrepare now b)
    then show ?thesis
      using suc by (cases "prepare env now b l") (auto elim!: prepare_cases)
  qed (simp_all add: commit_def abandon_def restore_cursor_def Let_def)
qed

lemma run_tokens:
  assumes "unat (pl_next_token l) + length ops < 2 ^ 64"
  shows "tokens_issued l \<Longrightarrow> tokens_issued (ledger_run env ops l)"
    and "token_spent k t l \<Longrightarrow> token_spent k t (ledger_run env ops l)"
    and "unat (pl_next_token (ledger_run env ops l)) \<le> unat (pl_next_token l) + length ops"
proof -
  have "(tokens_issued l \<longrightarrow> tokens_issued (ledger_run env ops l)) \<and>
      (token_spent k t l \<longrightarrow> token_spent k t (ledger_run env ops l)) \<and>
      unat (pl_next_token (ledger_run env ops l)) \<le> unat (pl_next_token l) + length ops"
    using assms
  proof (induction ops arbitrary: l)
    case (Cons op ops)
    have b: "unat (pl_next_token l) + 1 < 2 ^ 64" using Cons.prems by simp
    note st = step_tokens [OF b, where env = env and op = op]
    have "unat (pl_next_token (ledger_step env op l)) + length ops < 2 ^ 64"
      using st(3) Cons.prems by simp
    from Cons.IH [OF this] st show ?case by auto
  qed simp
  then show "tokens_issued l \<Longrightarrow> tokens_issued (ledger_run env ops l)"
    and "token_spent k t l \<Longrightarrow> token_spent k t (ledger_run env ops l)"
    and "unat (pl_next_token (ledger_run env ops l)) \<le> unat (pl_next_token l) + length ops"
    by blast+
qed

lemma spent_receipt_is_void:
  "token_spent (peer_to_hex (rc_peer r)) (rc_token r) l \<Longrightarrow>
     commit r l = (False, l) \<and> abandon r l = (False, l)"
  by (simp add: commit_def abandon_def owns_reservation_def token_spent_def Let_def)

lemma used_receipt_is_spent:
  assumes "tokens_issued l" and "commit r l = (True, l') \<or> abandon r l = (True, l')"
  shows "token_spent (peer_to_hex (rc_peer r)) (rc_token r) l'"
proof -
  from assms(2) have own: "owns_reservation r l" and l': "pl_next_token l' = pl_next_token l"
    "hm_get (pl_in_flight l') (peer_to_hex (rc_peer r)) = None"
    by (auto simp: commit_def abandon_def Let_def in_flight_release split: if_splits)
  with assms(1) show ?thesis by (auto simp: token_spent_def tokens_issued_def owns_reservation_def)
qed

text \<open>
  C23: a receipt works once. Whatever the ledger does before and after (up to the range of the
  64-bit token counter), a receipt that has committed or abandoned its transaction neither
  commits nor abandons anything again, so a task that finishes late cannot release the
  reservation of a newer one.
\<close>

theorem receipt_works_once:
  assumes "length before + length after < 2 ^ 64"
    and "commit r (ledger_run env before ledger_new) = (True, l') \<or>
         abandon r (ledger_run env before ledger_new) = (True, l')"
  shows "commit r (ledger_run env after l') = (False, ledger_run env after l') \<and>
         abandon r (ledger_run env after l') = (False, ledger_run env after l')"
proof -
  let ?l = "ledger_run env before ledger_new"
  have new: "pl_next_token ledger_new = 0" "tokens_issued ledger_new"
    by (simp_all add: ledger_new_def tokens_issued_def)
  have b: "unat (pl_next_token ledger_new) + length before < 2 ^ 64" using assms(1) by (simp add: new)
  have "tokens_issued ?l" using run_tokens(1) [OF b new(2)] .
  from used_receipt_is_spent [OF this assms(2)]
  have spent: "token_spent (peer_to_hex (rc_peer r)) (rc_token r) l'" .
  have "unat (pl_next_token ?l) \<le> length before" using run_tokens(3) [OF b, of env] by (simp add: new)
  moreover have "pl_next_token l' = pl_next_token ?l"
    using assms(2) by (auto simp: commit_def abandon_def Let_def split: if_splits)
  ultimately have "unat (pl_next_token l') + length after < 2 ^ 64" using assms(1) by simp
  from spent_receipt_is_void [OF run_tokens(2) [OF this spent]] show ?thesis .
qed

lemma sample_open_run:
  "ledger_run sample_env [OpPair (PeerId sample_seed), OpPrepare 0 (sample_bundle n)] ledger_new =
     sample_open n"
  by (simp add: sample_open_def sample_ledger_def)

theorem receipt_works_once_witness:
  "commit (sample_receipt 4) (ledger_run sample_env [OpPrepare 0 (sample_bundle 5)]
      (snd (commit (sample_receipt 4) (sample_open 4)))) =
     (False, ledger_run sample_env [OpPrepare 0 (sample_bundle 5)]
      (snd (commit (sample_receipt 4) (sample_open 4)))) \<and>
   abandon (sample_receipt 4) (ledger_run sample_env [OpPrepare 0 (sample_bundle 5)]
      (snd (commit (sample_receipt 4) (sample_open 4)))) =
     (False, ledger_run sample_env [OpPrepare 0 (sample_bundle 5)]
      (snd (commit (sample_receipt 4) (sample_open 4))))"
  by (rule receipt_works_once [where before = "[OpPair (PeerId sample_seed), OpPrepare 0 (sample_bundle 4)]"])
    (simp, simp only: sample_open_run, rule disjI1, rule sample_commit)

section \<open>Rejected, prepared, abandoned\<close>

lemma to_evidence_now: "to_evidence x now w = to_evidence x now' w"
proof -
  let ?c = "\<lambda>now f s. res_map (\<lambda>c. evidence_new now f s c (we_vantage w))
    (confidence_from_wire x (we_confidence w))"
  show ?thesis
    by (cases "fact_from_wire x (we_fact w)"; cases "source_from_wire x (we_source w)";
        cases "confidence_from_wire x (we_confidence w)")
      (simp_all add: to_evidence_def evidence_new_def)
qed

lemma convert_records_now: "convert_records x now o' rs = convert_records x now' o' rs"
proof (induction rs)
  case (Cons r rs)
  show ?case unfolding convert_records.simps Cons.IH to_evidence_now [of x now r now'] ..
qed simp

lemma convert_records_attributed:
  "convert_records x now o' rs = Some (evidence, errs) \<Longrightarrow>
     list_all (\<lambda>ev. ev_origin ev = Some o') evidence \<and> length evidence + length errs = length rs"
  by (induction rs arbitrary: evidence errs)
    (auto simp: from_peer_def split: option.splits sum.splits)

text \<open>The conversion of one record, and when a bundle can be taken.\<close>

definition converts_to :: "wire_externs \<Rightarrow> int \<Rightarrow> peer_origin \<Rightarrow> wire_evidence \<Rightarrow> topology_evidence \<Rightarrow> bool" where
  "converts_to x now origin w ev \<longleftrightarrow>
     (case to_evidence x now w of Some (Inr e) \<Rightarrow> ev = from_peer e origin | _ \<Rightarrow> False)"

definition acceptable :: "federation_env \<Rightarrow> int \<Rightarrow> evidence_bundle \<Rightarrow> peer_ledger \<Rightarrow> bool" where
  "acceptable env now b l \<longleftrightarrow>
     (case bundle_verify env b of
        Inl _ \<Rightarrow> False
      | Inr peer \<Rightarrow>
          is_paired l peer \<and> \<not> cursor_at_least peer (bu_sequence b) l \<and> \<not> is_busy l peer \<and>
          list_all (\<lambda>w. case to_evidence (fe_wire env) now w of Some (Inr _) \<Rightarrow> True | _ \<Rightarrow> False) (bu_records b))"

lemma convert_records_each:
  "convert_records x now origin rs = Some (evidence, []) \<longleftrightarrow> list_all2 (converts_to x now origin) rs evidence"
proof (induction rs arbitrary: evidence)
  case (Cons r rs)
  show ?case
  proof (cases "to_evidence x now r")
    case (Some res)
    then have one: "converts_to x now origin r ev \<longleftrightarrow> (\<exists>e. res = Inr e \<and> ev = from_peer e origin)" for ev
      by (simp add: converts_to_def split: sum.split)
    show ?thesis
    proof (cases "convert_records x now origin rs")
      case None
      then show ?thesis using Cons.IH Some by (simp add: list_all2_Cons1)
    next
      case (Some rest)
      then show ?thesis
        using Cons.IH \<open>to_evidence x now r = Some res\<close>
        by (cases rest; cases res) (auto simp: list_all2_Cons1 one)
    qed
  qed (simp add: converts_to_def list_all2_Cons1)
qed (auto simp: list_all2_Nil)

lemma all_records_convert:
  assumes "list_all (\<lambda>w. case to_evidence x now w of Some (Inr _) \<Rightarrow> True | _ \<Rightarrow> False) rs"
  shows "\<exists>evidence. convert_records x now origin rs = Some (evidence, [])"
  using assms by (induction rs) (auto split: option.splits sum.splits)

lemma records_converted:
  "list_all2 (converts_to x now origin) rs evidence \<Longrightarrow>
     list_all (\<lambda>w. case to_evidence x now w of Some (Inr _) \<Rightarrow> True | _ \<Rightarrow> False) rs"
  by (induction rule: list_all2_induct) (auto simp: converts_to_def split: option.splits sum.splits)

lemma acceptable_is_prepared:
  assumes "acceptable env now b l"
  shows "\<exists>p l'. prepare env now b l = Some (Inr p, l')"
proof -
  obtain peer where peer: "bundle_verify env b = Inr peer" "is_paired l peer"
      "\<not> cursor_at_least peer (bu_sequence b) l" "\<not> is_busy l peer"
      "list_all (\<lambda>w. case to_evidence (fe_wire env) now w of Some (Inr _) \<Rightarrow> True | _ \<Rightarrow> False) (bu_records b)"
    using assms by (auto simp: acceptable_def split: sum.splits)
  obtain evidence where "convert_records (fe_wire env) now (bundle_origin (peer_to_hex peer) b) (bu_records b) =
      Some (evidence, [])"
    using all_records_convert [OF peer(5)] by blast
  moreover have "\<not> (case hm_get (pl_highest_sequence l) (peer_to_hex peer) of
      None \<Rightarrow> False | Some seen \<Rightarrow> bu_sequence b \<le> seen)"
    using peer(3) by (simp add: cursor_at_least_def split: option.split)
  ultimately show ?thesis using peer by (simp add: prepare_def Let_def is_busy_def)
qed

text \<open>
  C24: preparing takes a bundle whole or not at all, and never records it as seen. Whatever the outcome,
  the pairings and the cursors of the ledger stay as they were. The bundle is taken exactly when it
  verifies, its peer is paired, has no transaction open and has not had this sequence or a later one, and
  every record converts; the evidence is then that of its records, one for one and in order, each
  attributed to the peer's key with the vantage, sequence and time of the bundle. A refusal leaves the
  whole ledger as it was.
\<close>

theorem prepare_is_all_or_nothing:
  assumes "prepare env now b l = Some (res, l')"
  shows "pl_trusted l' = pl_trusted l \<and> pl_highest_sequence l' = pl_highest_sequence l \<and>
     (case res of
        Inl _ \<Rightarrow> l' = l \<and> \<not> acceptable env now b l
      | Inr p \<Rightarrow>
          acceptable env now b l \<and> bundle_verify env b = Inr (pr_peer p) \<and> pr_vantage p = bu_vantage b \<and>
          pr_sequence p = bu_sequence b \<and>
          list_all2 (converts_to (fe_wire env) now
              \<lparr>po_peer = peer_to_hex (pr_peer p), po_vantage = bu_vantage b, po_sequence = bu_sequence b,
               po_published_at = bu_published_at b\<rparr>)
            (bu_records b) (pr_evidence p))"
  using assms
proof (cases rule: prepare_cases)
  case (rejected e)
  then have "\<not> acceptable env now b l" using assms acceptable_is_prepared by fastforce
  with rejected show ?thesis by simp
next
  case (reserved peer evidence)
  have "\<not> cursor_at_least peer (bu_sequence b) l" "\<not> is_busy l peer"
    using reserved(3,5) by (auto simp: cursor_at_least_def is_busy_def)
  moreover note each = reserved(4) [unfolded convert_records_each]
  ultimately have "acceptable env now b l"
    using reserved(1,2) records_converted [OF each] by (simp add: acceptable_def)
  with reserved each show ?thesis by (simp add: bundle_origin_def)
qed

theorem prepare_is_all_or_nothing_witness:
  "\<exists>p l'. prepare sample_env 0 (sample_bundle 4) sample_ledger = Some (Inr p, l') \<and>
      pl_highest_sequence l' = pl_highest_sequence sample_ledger \<and> acceptable sample_env 0 (sample_bundle 4) sample_ledger \<and>
      pr_sequence p = 4 \<and> length (pr_evidence p) = 1"
proof -
  obtain p where p: "prepare sample_env 0 (sample_bundle 4) sample_ledger = Some (Inr p, sample_open 4)"
    using sample_prepare by blast
  have "bu_sequence (sample_bundle 4) = 4" "length (bu_records (sample_bundle 4)) = 1"
    by (simp_all add: sample_bundle_def publish_def Let_def)
  with prepare_is_all_or_nothing [OF p] p show ?thesis by (auto dest: list_all2_lengthD)
qed

text \<open>
  A transaction that could not finish costs nothing. Abandoning a prepared bundle releases
  its reservation, and offering the same bundle again is accepted with the same evidence, at any
  later time.
\<close>

theorem abandoned_bundle_can_be_offered_again:
  assumes "prepare env now b l = Some (Inr p, l1)"
  shows "\<exists>l2. abandon (snd (pr_split p)) l1 = (True, l2) \<and>
           (\<exists>p' l3. prepare env now' b l2 = Some (Inr p', l3) \<and>
              pr_evidence p' = pr_evidence p \<and> pr_peer p' = pr_peer p \<and> pr_sequence p' = pr_sequence p)"
  using assms
proof (cases rule: prepare_cases)
  case (reserved peer evidence)
  let ?key = "peer_to_hex peer"
  have p: "pr_peer p = peer" "pr_token p = pl_next_token l + 1" "pr_evidence p = evidence"
    "pr_sequence p = bu_sequence b" using reserved(6) by auto
  have ab: "abandon (snd (pr_split p)) l1 = (True, release ?key l1)"
    by (simp add: abandon_def owns_reservation_def pr_split_def p reserved(7) hm_laws)
  have get: "hm_get (pl_in_flight (release ?key l1)) ?key = None" by (simp add: in_flight_release)
  have same: "pl_trusted (release ?key l1) = pl_trusted l"
    "pl_highest_sequence (release ?key l1) = pl_highest_sequence l"
    by (simp_all add: release_def reserved(7))
  have paired: "is_paired (release ?key l1) peer"
    using reserved(2) by (simp add: is_paired_def same)
  have fresh: "\<not> (case hm_get (pl_highest_sequence l) ?key of None \<Rightarrow> False | Some seen \<Rightarrow> bu_sequence b \<le> seen)"
    using reserved(3) by (auto split: option.split)
  have "\<exists>p' l3. prepare env now' b (release ?key l1) = Some (Inr p', l3) \<and>
      pr_evidence p' = evidence \<and> pr_peer p' = peer \<and> pr_sequence p' = bu_sequence b"
    using reserved(1,4) paired fresh get
    by (simp add: prepare_def Let_def same convert_records_now [of _ now' _ _ now])
  with ab show ?thesis by (simp add: p)
qed simp

theorem abandoned_bundle_can_be_offered_again_witness:
  "\<exists>p l2. abandon (snd (pr_split p)) (sample_open 4) = (True, l2) \<and>
     (\<exists>p' l3. prepare sample_env 1 (sample_bundle 4) l2 = Some (Inr p', l3) \<and>
        pr_evidence p' = pr_evidence p \<and> pr_peer p' = pr_peer p \<and> pr_sequence p' = pr_sequence p)"
  using abandoned_bundle_can_be_offered_again [OF sample_prepare [of 0 4], of 1] by blast

section \<open>A record that stops the receiver\<close>

text \<open>
  A verified bundle of a paired peer with a time past the range of the clock is not rejected: the
  conversion panics.
\<close>

lemma far_future_record_panics:
  assumes "we_observed_at w = 0x8000000000000000" and "we_fact w = WVlan 10"
    and "we_source w = ''snmp''" and "we_confidence w = ''observed''"
  shows "to_evidence x now w = None"
  using source_round_trip [of x Snmp] confidence_round_trip [of x Observed] assms
  by (simp add: to_evidence_def epoch_plus_seconds_def)

end
