(* ===== verification/Limits.thy ===== *)
theory Limits
  imports Idnx_Prelude
begin

text \<open>Hard limits on what arrives from a peer (\<open>src/src/federation/limits.rs\<close>).\<close>

definition MAX_ENVELOPE_BYTES :: nat where
  "MAX_ENVELOPE_BYTES = 1024 * 1024"

definition MAX_BUNDLE_BYTES :: nat where
  "MAX_BUNDLE_BYTES = MAX_ENVELOPE_BYTES"

definition MAX_RECORDS :: nat where
  "MAX_RECORDS = 20000"

definition MAX_VANTAGE_BYTES :: nat where
  "MAX_VANTAGE_BYTES = 64"

datatype limit_error =
    TooLarge nat nat
  | TooManyRecords nat nat
  | TextTooLong string nat nat

definition check_frame_length :: "nat \<Rightarrow> nat \<Rightarrow> limit_error + unit" where
  "check_frame_length claimed limit =
     (if limit < claimed then Inl (TooLarge limit claimed) else Inr ())"

definition check_text :: "string \<Rightarrow> string \<Rightarrow> nat \<Rightarrow> limit_error + unit" where
  "check_text field text limit =
     (if limit < length text then Inl (TextTooLong field limit (length text)) else Inr ())"

definition check_record_count :: "nat \<Rightarrow> limit_error + unit" where
  "check_record_count claimed =
     (if MAX_RECORDS < claimed then Inl (TooManyRecords MAX_RECORDS claimed) else Inr ())"

end
