(* ===== verification/Net_Bytes.thy ===== *)
theory Net_Bytes
  imports Net_Types
begin

text \<open>
  What the packet decoders share: reading big-endian fields, netmasks
  (\<open>src/src/net/interface.rs\<close>) and the Internet checksum (\<open>src/src/probes/path.rs\<close>). An
  \<open>Ipv4Net\<close> or \<open>Ipv6Net\<close> is truncated to its prefix by the crate \<open>ipnet\<close>, so the two truncation
  functions are an argument of what uses them.
\<close>

record ipnet_ops =
  trunc4 :: "32 word \<Rightarrow> nat \<Rightarrow> 32 word"
  trunc6 :: "128 word \<Rightarrow> nat \<Rightarrow> 128 word"

section \<open>Big-endian fields\<close>

definition be16 :: "u8 \<Rightarrow> u8 \<Rightarrow> u16" where
  "be16 a b = push_bit 8 (ucast a) OR ucast b"

definition be32 :: "u8 \<Rightarrow> u8 \<Rightarrow> u8 \<Rightarrow> u8 \<Rightarrow> u32" where
  "be32 a b c d = push_bit 24 (ucast a) OR push_bit 16 (ucast b) OR push_bit 8 (ucast c) OR ucast d"

text \<open>Fields of a slice at an offset; the callers check the length first.\<close>

definition u16_at :: "bytes \<Rightarrow> nat \<Rightarrow> u16" where
  "u16_at bs i = be16 (bs ! i) (bs ! (i + 1))"

definition u32_at :: "bytes \<Rightarrow> nat \<Rightarrow> u32" where
  "u32_at bs i = be32 (bs ! i) (bs ! (i + 1)) (bs ! (i + 2)) (bs ! (i + 3))"

definition u16_bytes :: "u16 \<Rightarrow> bytes" where
  "u16_bytes w = [ucast (drop_bit 8 w), ucast w]"

definition u32_bytes :: "u32 \<Rightarrow> bytes" where
  "u32_bytes w = [ucast (drop_bit 24 w), ucast (drop_bit 16 w), ucast (drop_bit 8 w), ucast w]"

text \<open>\<open>format!("{b:02x}")\<close>.\<close>

definition hex_byte :: "u8 \<Rightarrow> string" where
  "hex_byte b = [digit_char (uint (drop_bit 4 b)), digit_char (uint (b AND 15))]"

text \<open>A hardware address, two digits a byte.\<close>

definition mac_text :: "bytes \<Rightarrow> string" where
  "mac_text bs = join_with '':'' (map hex_byte bs)"

lemma be16_bytes [bytes_simps]: "be16 (ucast (drop_bit 8 w)) (ucast w) = w"
  unfolding be16_def by (rule bit_word_eqI) (auto simp: bit_simps)

lemma be32_bytes [bytes_simps]:
  "be32 (ucast (drop_bit 24 w)) (ucast (drop_bit 16 w)) (ucast (drop_bit 8 w)) (ucast w) = w"
  unfolding be32_def
proof (rule bit_word_eqI)
  fix n assume "n < LENGTH(32)"
  then consider "n < 8" | "8 \<le> n \<and> n < 16" | "16 \<le> n \<and> n < 24" | "24 \<le> n \<and> n < 32" by fastforce
  then show "bit (push_bit 24 (ucast (ucast (drop_bit 24 w) :: u8)) OR
      push_bit 16 (ucast (ucast (drop_bit 16 w) :: u8)) OR
      push_bit 8 (ucast (ucast (drop_bit 8 w) :: u8)) OR ucast (ucast w :: u8) :: u32) n = bit w n"
    by cases (auto simp: bit_simps)
qed

lemma be16_inject [bytes_simps]: "be16 a b = be16 c d \<longleftrightarrow> a = c \<and> b = d"
proof
  assume eq: "be16 a b = be16 c d"
  have hi: "ucast (drop_bit 8 (be16 x y)) = x" for x y
    unfolding be16_def by (rule bit_word_eqI) (auto simp: bit_simps dest: bit_imp_le_length)
  have lo: "ucast (be16 x y) = y" for x y
    unfolding be16_def by (rule bit_word_eqI) (auto simp: bit_simps)
  from eq show "a = c \<and> b = d" using hi lo by metis
qed simp

section \<open>Netmasks\<close>

definition leading_ones :: "'a::len word \<Rightarrow> nat" where
  "leading_ones w = length (takeWhile (bit w) (rev [0 ..< LENGTH('a)]))"

definition trailing_zeros :: "'a::len word \<Rightarrow> nat" where
  "trailing_zeros w = length (takeWhile (\<lambda>i. \<not> bit w i) [0 ..< LENGTH('a)])"

definition contiguous_prefix_len :: "32 word \<Rightarrow> nat option" where
  "contiguous_prefix_len netmask =
     (if leading_ones netmask + trailing_zeros netmask = 32 then Some (leading_ones netmask) else None)"

definition contiguous_prefix_len_v6 :: "128 word \<Rightarrow> nat option" where
  "contiguous_prefix_len_v6 netmask =
     (if leading_ones netmask + trailing_zeros netmask = 128 then Some (leading_ones netmask) else None)"

text \<open>The mask with \<open>n\<close> leading ones: what every one of them should accept, and nothing else.\<close>

definition netmask :: "nat \<Rightarrow> 'a::len word" where
  "netmask n = NOT (mask (LENGTH('a) - n))"

text \<open>Truncation as the crate documents it: the host bits cleared.\<close>

definition ipnet_model :: ipnet_ops where
  "ipnet_model = \<lparr>trunc4 = (\<lambda>a n. a AND netmask n), trunc6 = (\<lambda>a n. a AND netmask n)\<rparr>"

lemma bit_netmask:
  "n \<le> LENGTH('a) \<Longrightarrow> bit (netmask n :: 'a::len word) i \<longleftrightarrow> LENGTH('a) - n \<le> i \<and> i < LENGTH('a)"
  by (auto simp: netmask_def bit_simps)

lemma takeWhile_upt_rev:
  assumes "k \<le> m" and "\<forall>i. k \<le> i \<and> i < m \<longrightarrow> P i" and "k = 0 \<or> \<not> P (k - 1)"
  shows "takeWhile P (rev [0 ..< m]) = rev [k ..< m]"
proof -
  have split: "rev [0 ..< m] = rev [k ..< m] @ rev [0 ..< k]"
    using assms(1) upt_add_eq_append [of 0 k "m - k"] by simp
  have "takeWhile P (rev [0 ..< k]) = []"
  proof (cases k)
    case (Suc j)
    then show ?thesis using assms(3) by simp
  qed simp
  moreover have "\<forall>x \<in> set (rev [k ..< m]). P x" using assms(2) by simp
  ultimately show ?thesis unfolding split by (simp only: takeWhile_append2 append_Nil2)
qed

lemma leading_ones_le: "leading_ones (w :: 'a::len word) \<le> LENGTH('a)"
  unfolding leading_ones_def using length_takeWhile_le [of "bit w" "rev [0 ..< LENGTH('a)]"] by simp

lemma leading_ones_bits:
  assumes "LENGTH('a) - leading_ones w \<le> i" and "i < LENGTH('a)"
  shows "bit (w :: 'a::len word) i"
proof -
  let ?l = "rev [0 ..< LENGTH('a)]"
  have "LENGTH('a) - 1 - i < leading_ones w" using assms leading_ones_le [of w] by linarith
  then have "bit w (takeWhile (bit w) ?l ! (LENGTH('a) - 1 - i))"
    unfolding leading_ones_def using nth_mem set_takeWhileD by fast
  moreover have "takeWhile (bit w) ?l ! (LENGTH('a) - 1 - i) = ?l ! (LENGTH('a) - 1 - i)"
    using \<open>LENGTH('a) - 1 - i < leading_ones w\<close> unfolding leading_ones_def by (rule takeWhile_nth)
  moreover have "?l ! (LENGTH('a) - 1 - i) = i" using assms(2) by (simp add: rev_nth)
  ultimately show ?thesis by simp
qed

lemma trailing_zeros_bits:
  assumes "i < trailing_zeros w"
  shows "\<not> bit (w :: 'a::len word) i"
proof -
  have le: "trailing_zeros w \<le> LENGTH('a)"
    unfolding trailing_zeros_def using length_takeWhile_le [of _ "[0 ..< LENGTH('a)]"] by fastforce
  have "takeWhile (\<lambda>i. \<not> bit w i) [0 ..< LENGTH('a)] ! i = [0 ..< LENGTH('a)] ! i"
    using assms unfolding trailing_zeros_def by (rule takeWhile_nth)
  then have "takeWhile (\<lambda>i. \<not> bit w i) [0 ..< LENGTH('a)] ! i = i" using assms le by simp
  moreover have "takeWhile (\<lambda>i. \<not> bit w i) [0 ..< LENGTH('a)] ! i \<in>
      set (takeWhile (\<lambda>i. \<not> bit w i) [0 ..< LENGTH('a)])"
    using assms unfolding trailing_zeros_def by (rule nth_mem)
  ultimately show ?thesis using set_takeWhileD by metis
qed

lemma leading_ones_netmask:
  assumes "n \<le> LENGTH('a)"
  shows "leading_ones (netmask n :: 'a::len word) = n"
  unfolding leading_ones_def
  by (subst takeWhile_upt_rev [where k = "LENGTH('a) - n"]) (use assms in \<open>auto simp: bit_netmask\<close>)

lemma takeWhile_upt:
  assumes "k \<le> m" and "\<forall>i < k. P i" and "k = m \<or> \<not> P k"
  shows "takeWhile P [0 ..< m] = [0 ..< k]"
proof -
  have "[0 ..< m] = [0 ..< k] @ [k ..< m]" using assms(1) upt_add_eq_append [of 0 k "m - k"] by simp
  moreover have "takeWhile P [k ..< m] = []"
    using assms(1,3) by (cases "k = m") (simp_all add: upt_rec)
  moreover have "\<forall>x \<in> set [0 ..< k]. P x" using assms(2) by simp
  ultimately show ?thesis by (simp only: takeWhile_append2 append_Nil2)
qed

lemma trailing_zeros_netmask:
  assumes "n \<le> LENGTH('a)"
  shows "trailing_zeros (netmask n :: 'a::len word) = LENGTH('a) - n"
  unfolding trailing_zeros_def
  by (subst takeWhile_upt [where k = "LENGTH('a) - n"]) (use assms in \<open>auto simp: bit_netmask\<close>)

lemma contiguous_is_netmask:
  assumes "leading_ones w + trailing_zeros w = LENGTH('a)"
  shows "w = (netmask (leading_ones w) :: 'a::len word)"
proof (rule bit_word_eqI)
  fix i assume i: "i < LENGTH('a)"
  show "bit w i = bit (netmask (leading_ones w) :: 'a word) i"
  proof (cases "LENGTH('a) - leading_ones w \<le> i")
    case True
    then show ?thesis using leading_ones_bits [of w i] i leading_ones_le [of w] by (simp add: bit_netmask)
  next
    case False
    then have "i < trailing_zeros w" using assms by linarith
    then show ?thesis using trailing_zeros_bits [of i w] False leading_ones_le [of w] by (simp add: bit_netmask)
  qed
qed

lemma contiguous_prefix_len_iff:
  "contiguous_prefix_len m = Some n \<longleftrightarrow> n \<le> 32 \<and> m = netmask n"
proof
  assume "contiguous_prefix_len m = Some n"
  then have "leading_ones m + trailing_zeros m = LENGTH(32)" "n = leading_ones m"
    by (auto simp: contiguous_prefix_len_def split: if_splits)
  with contiguous_is_netmask [OF this(1)] leading_ones_le [of m] show "n \<le> 32 \<and> m = netmask n" by simp
next
  assume "n \<le> 32 \<and> m = netmask n"
  then show "contiguous_prefix_len m = Some n"
    using leading_ones_netmask [where 'a = 32, of n] trailing_zeros_netmask [where 'a = 32, of n]
    by (simp add: contiguous_prefix_len_def)
qed

section \<open>The Internet checksum\<close>

fun sum_pairs :: "bytes \<Rightarrow> u32" where
  "sum_pairs [] = 0"
| "sum_pairs [l] = ucast (be16 l 0)"
| "sum_pairs (a # b # rest) = ucast (be16 a b) + sum_pairs rest"

text \<open>One turn of the folding loop, and the loop: it runs at most twice on 32 bits.\<close>

definition fold_once :: "u32 \<Rightarrow> u32" where
  "fold_once s = (s AND 0xFFFF) + drop_bit 16 s"

function fold_carries :: "u32 \<Rightarrow> u32" where
  "fold_carries s = (if drop_bit 16 s = 0 then s else fold_carries (fold_once s))"
  by pat_completeness auto

lemma uint_fold_once: "uint (fold_once s) = uint s mod 65536 + uint s div 65536"
proof -
  have lo: "uint (s AND 0xFFFF) = uint s mod 65536"
  proof -
    have "s AND 0xFFFF = take_bit 16 s" by (simp add: take_bit_eq_mask mask_eq_exp_minus_1)
    then have "uint (s AND 0xFFFF) = take_bit 16 (uint s)" by (simp only: unsigned_take_bit_eq)
    then show ?thesis by (simp add: take_bit_eq_mod)
  qed
  have hi: "uint (drop_bit 16 s) = uint s div 65536"
    unfolding unsigned_drop_bit_eq drop_bit_eq_div [where 'a = int] by (simp add: bintr_uint)
  have "uint s < 2 ^ 32" using unsigned_less [of s] by simp
  then have "uint s mod 65536 + uint s div 65536 < 2 ^ 32" by simp
  moreover have "0 \<le> uint s mod 65536 + uint s div 65536"
    by (intro add_nonneg_nonneg) (simp_all add: pos_imp_zdiv_nonneg_iff)
  ultimately have "(uint s mod 65536 + uint s div 65536) mod 2 ^ 32 = uint s mod 65536 + uint s div 65536"
    by (rule mod_pos_pos_trivial [rotated])
  then show ?thesis unfolding fold_once_def uint_word_ariths lo hi by simp
qed

text \<open>The arithmetic of one turn: \<open>r + q\<close> for \<open>65536 * q + r\<close>.\<close>

lemma fold_int:
  fixes s :: int
  shows "(s mod 65536 + s div 65536) mod 65535 = s mod 65535"
    and "65536 \<le> s \<Longrightarrow> s mod 65536 + s div 65536 < s"
    and "65536 \<le> s \<Longrightarrow> 0 < s mod 65536 + s div 65536"
proof -
  let ?q = "s div 65536" and ?r = "s mod 65536"
  have s: "s = 65536 * ?q + ?r" by simp
  have "s = (?r + ?q) + 65535 * ?q" using s by linarith
  then show "(?r + ?q) mod 65535 = s mod 65535" by (metis mod_mult_self2)
  assume "65536 \<le> s"
  then have "1 \<le> ?q" by (simp add: pos_imp_zdiv_pos_iff)
  moreover have "0 \<le> ?r" by simp
  ultimately show "?r + ?q < s" "0 < ?r + ?q" using s by linarith+
qed

lemma drop_bit_16_zero: "drop_bit 16 (s :: u32) = 0 \<longleftrightarrow> uint s < 65536"
proof -
  have "uint (drop_bit 16 s) = uint s div 65536"
    unfolding unsigned_drop_bit_eq drop_bit_eq_div [where 'a = int] by (simp add: bintr_uint)
  moreover have "drop_bit 16 s = 0 \<longleftrightarrow> uint (drop_bit 16 s) = 0" by (simp only: uint_0_iff)
  ultimately show ?thesis by (auto simp: zdiv_eq_0_iff)
qed

termination fold_carries
proof (relation "measure unat")
  fix s :: u32 assume "drop_bit 16 s \<noteq> 0"
  then have "65536 \<le> uint s" by (simp add: drop_bit_16_zero)
  then have "uint (fold_once s) < uint s" unfolding uint_fold_once by (rule fold_int(2))
  then show "(fold_once s, s) \<in> measure unat" by (simp add: unat_mono word_less_def)
qed simp

declare fold_carries.simps [simp del]

definition internet_checksum :: "bytes \<Rightarrow> u16" where
  "internet_checksum data = NOT (ucast (fold_carries (sum_pairs data)))"

text \<open>Folding keeps the value modulo $2^{16} - 1$, and only zero folds to zero.\<close>

lemma fold_carries_spec:
  "uint (fold_carries s) < 65536 \<and> uint (fold_carries s) mod 65535 = uint s mod 65535 \<and>
     (uint (fold_carries s) = 0 \<longleftrightarrow> uint s = 0)"
proof (induction s rule: fold_carries.induct)
  case (1 s)
  show ?case
  proof (cases "drop_bit 16 s = 0")
    case True
    then show ?thesis by (simp add: fold_carries.simps [of s] drop_bit_16_zero)
  next
    case False
    have big: "65536 \<le> uint s" using False by (simp add: drop_bit_16_zero)
    note IH = "1.IH" [OF False]
    have "uint (fold_once s) mod 65535 = uint s mod 65535" unfolding uint_fold_once by (rule fold_int(1))
    moreover have "uint (fold_once s) \<noteq> 0" using fold_int(3) [OF big] unfolding uint_fold_once by simp
    ultimately show ?thesis using IH big False by (simp add: fold_carries.simps [of s])
  qed
qed

lemma uint_ucast_u16: "uint (ucast (w :: u16) :: u32) = uint w"
  by (simp add: unsigned_ucast_eq bintr_uint)

lemma u16_range: "0 \<le> uint (w :: u16)" "uint (w :: u16) \<le> 65535"
  using unsigned_less [where 'a = int, of w] by simp_all

lemma multiple_below:
  fixes x :: int
  assumes "x mod 65535 = 0" "x \<noteq> 0" "x < 65536" "0 \<le> x"
  shows "x = 65535"
proof -
  from assms(1) obtain k where k: "x = 65535 * k" by (auto elim: dvdE simp: mod_eq_0_iff_dvd)
  with assms have "0 < k" "k < 2" by simp_all
  with k show ?thesis by simp
qed

lemma sum_pairs_bound:
  "length bs \<le> 131072 \<Longrightarrow> 2 * uint (sum_pairs bs) \<le> int (length bs + 1) * 65535"
proof (induction bs rule: sum_pairs.induct)
  case (2 l)
  show ?case using u16_range(2) [of "be16 l 0"] by (simp add: uint_ucast_u16)
next
  case (3 a b rest)
  have w: "uint (be16 a b) \<le> 65535" by (rule u16_range)
  have IH: "2 * uint (sum_pairs rest) \<le> int (length rest + 1) * 65535" using 3 by simp
  have "uint (ucast (be16 a b) + sum_pairs rest) \<le> uint (be16 a b) + uint (sum_pairs rest)"
    by (simp add: uint_word_ariths uint_ucast_u16 zmod_le_nonneg_dividend)
  with w IH show ?case by simp
qed simp

lemma uint_sum_pairs_Cons:
  assumes "length rest \<le> 131000"
  shows "uint (ucast (w :: u16) + sum_pairs rest) = uint w + uint (sum_pairs rest)"
proof -
  have "2 * uint (sum_pairs rest) \<le> 131001 * 65535"
    using sum_pairs_bound [of rest] assms by simp
  moreover have "uint w \<le> 65535" by (rule u16_range)
  moreover have "0 \<le> uint w" "0 \<le> uint (sum_pairs rest)" by simp_all
  ultimately have "(uint w + uint (sum_pairs rest)) mod 2 ^ 32 = uint w + uint (sum_pairs rest)"
    by (intro mod_pos_pos_trivial) simp_all
  then show ?thesis by (simp add: uint_word_ariths uint_ucast_u16)
qed

lemma uint_not_u16: "uint (NOT (w :: u16)) = 65535 - uint w"
proof -
  have "uint (NOT w) = take_bit 16 (NOT (uint w))" by (simp add: unsigned_not_eq)
  also have "\<dots> = (- uint w - 1) mod 65536" by (simp add: not_eq_complement take_bit_eq_mod)
  also have "\<dots> = (65535 - uint w) mod 65536"
    using mod_add_self2 [of "- uint w - 1" "65536 :: int"] by (simp add: algebra_simps)
  also have "\<dots> = 65535 - uint w"
    by (rule mod_pos_pos_trivial) (use u16_range [of w] in linarith)+
  finally show ?thesis .
qed

lemma uint_internet_checksum: "uint (internet_checksum bs) = 65535 - uint (fold_carries (sum_pairs bs))"
proof -
  have "uint (ucast (fold_carries (sum_pairs bs)) :: u16) = uint (fold_carries (sum_pairs bs))"
    using fold_carries_spec [of "sum_pairs bs"]
    by (simp add: unsigned_ucast_eq take_bit_eq_mod mod_pos_pos_trivial)
  then show ?thesis by (simp add: internet_checksum_def uint_not_u16)
qed

text \<open>Adding the checksum of a message to its sum gives all ones.\<close>

lemma checksum_of_sum:
  assumes "uint (sum_pairs ws) = uint (sum_pairs zs) + uint (internet_checksum zs)"
  shows "internet_checksum ws = 0"
proof -
  let ?z = "sum_pairs zs" and ?w = "sum_pairs ws"
  have w: "uint ?w = uint ?z - uint (fold_carries ?z) + 65535"
    using assms unfolding uint_internet_checksum [of zs] by simp
  have m: "uint (fold_carries ?z) mod 65535 = uint ?z mod 65535" using fold_carries_spec [of ?z] by blast
  have "(uint ?z - uint (fold_carries ?z)) mod 65535 = 0"
    using m by (metis mod_eq_dvd_iff dvd_imp_mod_0)
  then have w0: "uint ?w mod 65535 = 0" unfolding w by simp
  have "uint ?w \<noteq> 0"
  proof
    assume "uint ?w = 0"
    then have "uint (fold_carries ?z) = uint ?z + 65535" using w by simp
    moreover have "uint (fold_carries ?z) < 65536" "uint (fold_carries ?z) = 0 \<longleftrightarrow> uint ?z = 0"
      using fold_carries_spec [of ?z] by blast+
    moreover have "0 \<le> uint ?z" by simp
    ultimately show False by linarith
  qed
  with w0 fold_carries_spec [of ?w]
  have "uint (fold_carries ?w) mod 65535 = 0" "uint (fold_carries ?w) \<noteq> 0" "uint (fold_carries ?w) < 65536"
    by (simp_all only: simp_thms)
  moreover have "0 \<le> uint (fold_carries ?w)" by simp
  ultimately have "uint (fold_carries ?w) = 65535" by (rule multiple_below)
  then show ?thesis using uint_internet_checksum [of ws] by (simp add: uint_0_iff)
qed

text \<open>A message with its checksum written into two zero bytes at an even offset adds up.\<close>

lemma sum_pairs_append:
  "even (length xs) \<Longrightarrow> sum_pairs (xs @ ys) = sum_pairs xs + sum_pairs ys"
  by (induction xs rule: sum_pairs.induct) (simp_all add: add.assoc)

lemma be16_0 [simp]: "be16 0 0 = 0"
  by (simp add: be16_def)

lemma checksum_written_at:
  assumes "length pre + length rest \<le> 130000" and "even (length pre)"
  shows "internet_checksum (pre @ u16_bytes (internet_checksum (pre @ 0 # 0 # rest)) @ rest) = 0"
proof (rule checksum_of_sum [where zs = "pre @ 0 # 0 # rest"])
  let ?k = "internet_checksum (pre @ 0 # 0 # rest)"
  have sums: "sum_pairs (pre @ u16_bytes ?k @ rest) = ucast ?k + sum_pairs (pre @ rest)"
      "sum_pairs (pre @ 0 # 0 # rest) = sum_pairs (pre @ rest)"
    using assms(2) by (simp_all add: sum_pairs_append u16_bytes_def be16_bytes algebra_simps)
  have "uint (ucast ?k + sum_pairs (pre @ rest)) = uint ?k + uint (sum_pairs (pre @ rest))"
    using assms(1) by (intro uint_sum_pairs_Cons) simp
  then show "uint (sum_pairs (pre @ u16_bytes ?k @ rest)) = uint (sum_pairs (pre @ 0 # 0 # rest)) + uint ?k"
    unfolding sums by simp
qed

lemma checksum_written:
  assumes "length rest \<le> 130000 - 2"
  shows "internet_checksum (t # c # u16_bytes (internet_checksum (t # c # 0 # 0 # rest)) @ rest) = 0"
  using checksum_written_at [of "[t, c]" rest] assms by simp

end
