(* ===== verification/Tlv.thy ===== *)
theory Tlv
  imports Net_Bytes "HOL-Library.Sublist"
begin

text \<open>
  Type-length-value sequences. Every link-layer decoder of the program walks such a sequence with
  an offset; here a format is a function that reads the next element and returns what is left,
  \<open>None\<close> where the loop breaks. The facts about walking are proved once, in the locale
  \<open>tlv_format\<close>, for every format that makes progress.
\<close>

text \<open>The walk, on a bound for the number of elements.\<close>

fun tlvs :: "(bytes \<Rightarrow> ('t \<times> bytes \<times> bytes) option) \<Rightarrow> nat \<Rightarrow> bytes \<Rightarrow> ('t \<times> bytes) list" where
  "tlvs next_tlv 0 bs = []"
| "tlvs next_tlv (Suc n) bs =
     (case next_tlv bs of
        None \<Rightarrow> []
      | Some (t, v, rest) \<Rightarrow> (t, v) # tlvs next_tlv n rest)"

text \<open>An element takes at least one byte, so the length of the input is bound enough.\<close>

definition walk :: "(bytes \<Rightarrow> ('t \<times> bytes \<times> bytes) option) \<Rightarrow> bytes \<Rightarrow> ('t \<times> bytes) list" where
  "walk next_tlv bs = tlvs next_tlv (length bs) bs"

locale tlv_reader =
  fixes next_tlv :: "bytes \<Rightarrow> ('t \<times> bytes \<times> bytes) option"
  assumes next_split: "next_tlv bs = Some (t, v, rest) \<Longrightarrow> \<exists>head. head \<noteq> [] \<and> bs = head @ v @ rest"
begin

lemma next_shorter: "next_tlv bs = Some (t, v, rest) \<Longrightarrow> length rest < length bs"
  using next_split by fastforce

lemma next_Nil [simp]: "next_tlv [] = None"
  using next_split by (cases "next_tlv []") fastforce+

lemma tlvs_bound_irrelevant:
  "length bs \<le> n \<Longrightarrow> length bs \<le> m \<Longrightarrow> tlvs next_tlv n bs = tlvs next_tlv m bs"
proof (induction n arbitrary: m bs)
  case 0
  then show ?case by (cases m) simp_all
next
  case (Suc n)
  show ?case
  proof (cases m)
    case 0
    then show ?thesis using Suc.prems by simp
  next
    case (Suc k)
    show ?thesis
    proof (cases "next_tlv bs")
      case None
      then show ?thesis using Suc by simp
    next
      case (Some e)
      obtain t v rest where e: "e = (t, v, rest)" by (cases e)
      have "length rest < length bs" using next_shorter Some e by simp
      then have "tlvs next_tlv n rest = tlvs next_tlv k rest"
        using Suc.prems Suc by (intro Suc.IH) simp_all
      then show ?thesis using Some e Suc by simp
    qed
  qed
qed

lemma walk_unfold:
  "walk next_tlv bs =
     (case next_tlv bs of None \<Rightarrow> [] | Some (t, v, rest) \<Rightarrow> (t, v) # walk next_tlv rest)"
proof (cases "next_tlv bs")
  case None
  then show ?thesis by (cases bs) (simp_all add: walk_def)
next
  case (Some e)
  obtain t v rest where e: "e = (t, v, rest)" by (cases e)
  have short: "length rest < length bs" using next_shorter Some e by simp
  then obtain k where k: "length bs = Suc k" by (cases "length bs") simp_all
  have "tlvs next_tlv k rest = walk next_tlv rest"
    unfolding walk_def using short k by (intro tlvs_bound_irrelevant) simp_all
  then show ?thesis using Some e k by (simp add: walk_def)
qed

lemma walk_inside: "(t, v) \<in> set (walk next_tlv bs) \<Longrightarrow> sublist v bs"
proof (induction bs rule: measure_induct_rule [where f = length])
  case (less bs)
  then obtain t' v' rest where n: "next_tlv bs = Some (t', v', rest)" "(t, v) = (t', v') \<or> (t, v) \<in> set (walk next_tlv rest)"
    using walk_unfold [of bs] by (auto split: option.splits)
  obtain head where bs: "bs = head @ v' @ rest" using next_split [OF n(1)] by blast
  have "sublist v' bs" unfolding bs by (rule sublist_appendI)
  moreover have "sublist rest bs" unfolding bs using sublist_appendI [of rest "head @ v'" "[]"] by simp
  ultimately show ?case
    using n(2) less.IH [OF next_shorter [OF n(1)]] sublist_order.order_trans by blast
qed

end

text \<open>A format with its encoder: an element that was written is the next one read.\<close>

locale tlv_format = tlv_reader next_tlv for next_tlv :: "bytes \<Rightarrow> ('t \<times> bytes \<times> bytes) option" +
  fixes enc :: "'t \<Rightarrow> bytes \<Rightarrow> bytes" and ok :: "'t \<times> bytes \<Rightarrow> bool"
  assumes next_enc: "ok (t, v) \<Longrightarrow> next_tlv (enc t v @ rest) = Some (t, v, rest)"
begin

lemma walk_enc:
  "list_all ok ts \<Longrightarrow>
     walk next_tlv (concat (map (\<lambda>(t, v). enc t v) ts) @ rest) = ts @ walk next_tlv rest"
proof (induction ts)
  case (Cons e ts)
  obtain t v where e: "e = (t, v)" by (cases e)
  have "next_tlv (concat (map (\<lambda>(t, v). enc t v) (e # ts)) @ rest) =
      Some (t, v, concat (map (\<lambda>(t, v). enc t v) ts) @ rest)"
    using Cons.prems next_enc by (simp add: e)
  then show ?case using Cons by (subst walk_unfold) (simp add: e)
qed simp

end

end
