(* ===== verification/Rust_Text.thy ===== *)
theory Rust_Text
  imports Text_Safety
begin

text \<open>
  What the protocol decoders use of the standard library's text functions:
  \<open>String::from_utf8_lossy\<close>, which replaces every maximal invalid part by U+FFFD, and \<open>str::trim\<close>,
  on Unicode scalar values.
\<close>

section \<open>Lossy decoding\<close>

definition continuation :: "nat \<Rightarrow> bool" where
  "continuation b \<longleftrightarrow> 128 \<le> b \<and> b < 192"

text \<open>The second byte that may follow a leading byte of three and of four.\<close>

definition second_of_three :: "nat \<Rightarrow> nat \<Rightarrow> bool" where
  "second_of_three a b \<longleftrightarrow>
     (if a = 0xE0 then 0xA0 \<le> b \<and> b < 192
      else if a = 0xED then 128 \<le> b \<and> b < 0xA0 else continuation b)"

definition second_of_four :: "nat \<Rightarrow> nat \<Rightarrow> bool" where
  "second_of_four a b \<longleftrightarrow>
     (if a = 0xF0 then 0x90 \<le> b \<and> b < 192
      else if a = 0xF4 then 128 \<le> b \<and> b < 0x90 else continuation b)"

fun from_utf8_lossy :: "nat list \<Rightarrow> chars" where
  "from_utf8_lossy [] = []"
| "from_utf8_lossy (a # rest) =
     (if a < 128 then a # from_utf8_lossy rest
      else if 0xC2 \<le> a \<and> a < 0xE0 then
        (case rest of
           [] \<Rightarrow> [REPLACEMENT]
         | b # rest2 \<Rightarrow>
             if continuation b then ((a - 192) * 64 + (b - 128)) # from_utf8_lossy rest2
             else REPLACEMENT # from_utf8_lossy rest)
      else if 0xE0 \<le> a \<and> a < 0xF0 then
        (case rest of
           [] \<Rightarrow> [REPLACEMENT]
         | b # rest2 \<Rightarrow>
             if second_of_three a b then
               (case rest2 of
                  [] \<Rightarrow> [REPLACEMENT]
                | c # rest3 \<Rightarrow>
                    if continuation c
                    then ((a - 224) * 4096 + (b - 128) * 64 + (c - 128)) # from_utf8_lossy rest3
                    else REPLACEMENT # from_utf8_lossy rest2)
             else REPLACEMENT # from_utf8_lossy rest)
      else if 0xF0 \<le> a \<and> a < 0xF5 then
        (case rest of
           [] \<Rightarrow> [REPLACEMENT]
         | b # rest2 \<Rightarrow>
             if second_of_four a b then
               (case rest2 of
                  [] \<Rightarrow> [REPLACEMENT]
                | c # rest3 \<Rightarrow>
                    if continuation c then
                      (case rest3 of
                         [] \<Rightarrow> [REPLACEMENT]
                       | d # rest4 \<Rightarrow>
                           if continuation d
                           then ((a - 240) * 262144 + (b - 128) * 4096 + (c - 128) * 64 + (d - 128))
                                  # from_utf8_lossy rest4
                           else REPLACEMENT # from_utf8_lossy rest3)
                    else REPLACEMENT # from_utf8_lossy rest2)
             else REPLACEMENT # from_utf8_lossy rest)
      else REPLACEMENT # from_utf8_lossy rest)"

section \<open>Trimming\<close>

text \<open>\<open>char::is_whitespace\<close>: the property White\_Space.\<close>

definition is_whitespace :: "nat \<Rightarrow> bool" where
  "is_whitespace c \<longleftrightarrow>
     (9 \<le> c \<and> c \<le> 13) \<or> c = 32 \<or> c = 0x85 \<or> c = 0xA0 \<or> c = 0x1680 \<or>
     (0x2000 \<le> c \<and> c \<le> 0x200A) \<or> c = 0x2028 \<or> c = 0x2029 \<or> c = 0x202F \<or> c = 0x205F \<or> c = 0x3000"

definition trim :: "chars \<Rightarrow> chars" where
  "trim cs = rev (dropWhile is_whitespace (rev (dropWhile is_whitespace cs)))"

definition text_of :: "bytes \<Rightarrow> string" where
  "text_of bs = utf8_encode (from_utf8_lossy (map unat bs))"

definition trimmed_text_of :: "bytes \<Rightarrow> string" where
  "trimmed_text_of bs = utf8_encode (trim (from_utf8_lossy (map unat bs)))"

section \<open>Well-formed text is read back\<close>

definition scalar :: "nat \<Rightarrow> bool" where
  "scalar c \<longleftrightarrow> c < 0xD800 \<or> (0xE000 \<le> c \<and> c < 0x110000)"

lemma continuation_sextet [simp]: "continuation (128 + n mod 64)"
  using mod_less_divisor [of 64 n] by (simp add: continuation_def)

lemma lossy_char:
  assumes "scalar c"
  shows "from_utf8_lossy (utf8_char c @ rest) = c # from_utf8_lossy rest"
proof -
  have c: "c < 0x110000" "\<not> (0xD800 \<le> c \<and> c < 0xE000)" using assms by (auto simp: scalar_def)
  consider "c < 128" | "128 \<le> c" "c < 2048" | "2048 \<le> c" "c < 65536" | "65536 \<le> c"
    by linarith
  then show ?thesis
  proof cases
    case 1
    then show ?thesis by (simp add: utf8_char_def)
  next
    case 2
    then have "2 \<le> c div 64" "c div 64 < 32" by simp_all
    with 2 sextets(1) [of c] show ?thesis by (simp add: utf8_char_def)
  next
    case 3
    have q: "c div 4096 < 16" using 3 by simp
    have s: "c div 4096 * 64 + c div 64 mod 64 = c div 64" by (rule sextets)
    have m: "c div 64 mod 64 < 64" by simp
    have "second_of_three (224 + c div 4096) (128 + c div 64 mod 64)"
    proof (cases "c div 4096 = 0")
      case True
      then have "32 \<le> c div 64 mod 64" using s 3 by simp
      then show ?thesis using True m by (simp add: second_of_three_def)
    next
      case False
      have "c div 4096 = 13 \<Longrightarrow> c div 64 mod 64 < 32"
      proof -
        assume t: "c div 4096 = 13"
        then have "c < 57344" "53248 \<le> c" by (simp_all add: div_eq_0_iff)
        then have "c < 0xD800" using c(2) by simp
        then have "c div 64 < 864" by simp
        then show ?thesis using s t by simp
      qed
      then show ?thesis using False m by (auto simp: second_of_three_def continuation_def)
    qed
    moreover have "c div 4096 * 4096 + c div 64 mod 64 * 64 + c mod 64 = c"
      using sextets [of c] by linarith
    ultimately show ?thesis using 3 q by (simp add: utf8_char_def)
  next
    case 4
    have q: "c div 262144 < 5" using c(1) by simp
    have s: "c div 262144 * 64 + c div 4096 mod 64 = c div 4096" by (rule sextets)
    have m: "c div 4096 mod 64 < 64" by simp
    have "second_of_four (240 + c div 262144) (128 + c div 4096 mod 64)"
    proof (cases "c div 262144 = 0")
      case True
      then have "16 \<le> c div 4096 mod 64" using s 4 by simp
      then show ?thesis using True m by (simp add: second_of_four_def)
    next
      case False
      have "c div 262144 = 4 \<Longrightarrow> c div 4096 mod 64 < 16"
      proof -
        assume "c div 262144 = 4"
        moreover have "c div 4096 < 272" using c(1) by simp
        ultimately show ?thesis using s by simp
      qed
      then show ?thesis using False m by (auto simp: second_of_four_def continuation_def)
    qed
    moreover have "c div 262144 * 262144 + c div 4096 mod 64 * 4096 + c div 64 mod 64 * 64 + c mod 64 = c"
      using sextets [of c] by linarith
    ultimately show ?thesis using 4 q by (simp add: utf8_char_def)
  qed
qed

lemma lossy_encode: "list_all scalar cs \<Longrightarrow> from_utf8_lossy (utf8_encode_nat cs) = cs"
  by (induction cs) (simp_all add: utf8_encode_nat_def lossy_char)

definition utf8_bytes :: "chars \<Rightarrow> bytes" where
  "utf8_bytes cs = map word_of_nat (utf8_encode_nat cs)"

lemma scalar_small: "scalar c \<Longrightarrow> c < 1114112"
  by (auto simp: scalar_def)

lemma unat_utf8_bytes: "list_all scalar cs \<Longrightarrow> map unat (utf8_bytes cs) = utf8_encode_nat cs"
proof -
  assume "list_all scalar cs"
  then have "\<forall>b \<in> set (utf8_encode_nat cs). b < 256"
    using utf8_char_bytes scalar_small by (auto simp: utf8_encode_nat_def list_all_iff)
  then show ?thesis by (auto simp: utf8_bytes_def unat_of_nat intro!: map_idI)
qed

lemma text_of_utf8 [simp]: "list_all scalar cs \<Longrightarrow> text_of (utf8_bytes cs) = utf8_encode cs"
  by (simp add: text_of_def unat_utf8_bytes lossy_encode)

lemma trimmed_text_of_utf8 [simp]:
  "list_all scalar cs \<Longrightarrow> trimmed_text_of (utf8_bytes cs) = utf8_encode (trim cs)"
  by (simp add: trimmed_text_of_def unat_utf8_bytes lossy_encode)

end
