(* ===== verification/Snmp_Ber.thy ===== *)
theory Snmp_Ber
  imports Tlv Rust_Text
begin

text \<open>
  Object identifiers, values and the BER codec of the SNMP client (\<open>src/src/probes/snmp.rs\<close>). An
  \<open>i64\<close> or \<open>i32\<close> is its word in two's complement; a \<open>Reader\<close> is the list of bytes that it has not
  read yet, so the bound of a container is the end of its list.
\<close>

section \<open>Object identifiers\<close>

type_synonym oid = "u32 list"

definition oid_starts_with :: "oid \<Rightarrow> oid \<Rightarrow> bool" where
  "oid_starts_with oid root =
     (if length oid < length root then False else take (length root) oid = root)"

definition oid_text :: "oid \<Rightarrow> string" where
  "oid_text oid = join_with ''.'' (map (\<lambda>n. decimal (uint n)) oid)"

datatype parse_int_error = EmptyInt | InvalidDigit | PosOverflow

fun parse_int_error_text :: "parse_int_error \<Rightarrow> string" where
  "parse_int_error_text EmptyInt = ''cannot parse integer from empty string''"
| "parse_int_error_text InvalidDigit = ''invalid digit found in string''"
| "parse_int_error_text PosOverflow = ''number too large to fit in target type''"

text \<open>\<open>u32::from_str\<close>: a plus sign is taken, and the first bad digit or overflow decides.\<close>

fun u32_digits :: "nat \<Rightarrow> string \<Rightarrow> parse_int_error + u32" where
  "u32_digits acc [] = Inr (word_of_nat acc)"
| "u32_digits acc (c # cs) =
     (if \<not> is_ascii_digit c then Inl InvalidDigit
      else
        let v = acc * 10 + (char_code c - 48)
        in if 2 ^ 32 \<le> v then Inl PosOverflow else u32_digits v cs)"

definition u32_from_str :: "string \<Rightarrow> parse_int_error + u32" where
  "u32_from_str s =
     (case s of
        [] \<Rightarrow> Inl EmptyInt
      | c # cs \<Rightarrow> if c = CHR ''+'' \<and> cs \<noteq> [] then u32_digits 0 cs else u32_digits 0 s)"

text \<open>\<open>collect\<close> into a \<open>Result\<close>: the first error, or all the values.\<close>

fun collect_results :: "('e + 'a) list \<Rightarrow> 'e + 'a list" where
  "collect_results [] = Inr []"
| "collect_results (Inl e # rs) = Inl e"
| "collect_results (Inr a # rs) =
     (case collect_results rs of Inl e \<Rightarrow> Inl e | Inr xs \<Rightarrow> Inr (a # xs))"

definition oid_from_str :: "string \<Rightarrow> string + oid" where
  "oid_from_str s =
     (let trimmed = dropWhile (\<lambda>c. c = CHR ''.'') s
      in if trimmed = [] then Inl ''Empty OID string''
         else case collect_results (map u32_from_str (split_on CHR ''.'' trimmed)) of
                Inl e \<Rightarrow> Inl (''Invalid OID component: '' @ parse_int_error_text e)
              | Inr vec \<Rightarrow>
                  if 2 \<le> length vec then Inr vec else Inl ''OID must have at least 2 components'')"

section \<open>Values and messages\<close>

definition TAG_INTEGER :: u8 where "TAG_INTEGER = 0x02"
definition TAG_OCTET_STRING :: u8 where "TAG_OCTET_STRING = 0x04"
definition TAG_NULL :: u8 where "TAG_NULL = 0x05"
definition TAG_OBJECT_IDENTIFIER :: u8 where "TAG_OBJECT_IDENTIFIER = 0x06"
definition TAG_SEQUENCE :: u8 where "TAG_SEQUENCE = 0x30"
definition TAG_IP_ADDRESS :: u8 where "TAG_IP_ADDRESS = 0x40"
definition TAG_COUNTER32 :: u8 where "TAG_COUNTER32 = 0x41"
definition TAG_GAUGE32 :: u8 where "TAG_GAUGE32 = 0x42"
definition TAG_TIMETICKS :: u8 where "TAG_TIMETICKS = 0x43"
definition TAG_NO_SUCH_OBJECT :: u8 where "TAG_NO_SUCH_OBJECT = 0x80"
definition TAG_NO_SUCH_INSTANCE :: u8 where "TAG_NO_SUCH_INSTANCE = 0x81"
definition TAG_END_OF_MIB_VIEW :: u8 where "TAG_END_OF_MIB_VIEW = 0x82"
definition PDU_GET_REQUEST :: u8 where "PDU_GET_REQUEST = 0xA0"
definition PDU_GET_NEXT_REQUEST :: u8 where "PDU_GET_NEXT_REQUEST = 0xA1"
definition PDU_GET_RESPONSE :: u8 where "PDU_GET_RESPONSE = 0xA2"
definition MAX_VARBINDS :: nat where "MAX_VARBINDS = 128"

lemmas ber_tags =
  TAG_INTEGER_def TAG_OCTET_STRING_def TAG_NULL_def TAG_OBJECT_IDENTIFIER_def TAG_SEQUENCE_def
  TAG_IP_ADDRESS_def TAG_COUNTER32_def TAG_GAUGE32_def TAG_TIMETICKS_def

datatype ber_value =
    BerInteger "64 word" | BerOctetString bytes | BerNull | BerOid oid | BerIpAddress "32 word"
  | BerCounter32 u32 | BerGauge32 u32 | BerTimeTicks u32 | BerUnknown u8 bytes

definition is_end_of_mib_view :: "ber_value \<Rightarrow> bool" where
  "is_end_of_mib_view v \<longleftrightarrow> (case v of BerUnknown t _ \<Rightarrow> t = TAG_END_OF_MIB_VIEW | _ \<Rightarrow> False)"

definition is_absent :: "ber_value \<Rightarrow> bool" where
  "is_absent v \<longleftrightarrow>
     (case v of BerUnknown t _ \<Rightarrow> t = TAG_NO_SUCH_OBJECT \<or> t = TAG_NO_SUCH_INSTANCE | _ \<Rightarrow> False)"

text \<open>
  \<open>String::from_utf8\<close>: text is well-formed iff decoding it replaces nothing, and U+FFFD in the
  place of an invalid part never writes that part again.
\<close>

definition from_utf8 :: "bytes \<Rightarrow> string option" where
  "from_utf8 bs =
     (if utf8_encode_nat (from_utf8_lossy (map unat bs)) = map unat bs
      then Some (text_of bs) else None)"

definition signed_decimal :: "int \<Rightarrow> string" where
  "signed_decimal i = (if i < 0 then CHR ''-'' # decimal (- i) else decimal i)"

fun as_str :: "ber_value \<Rightarrow> string option" where
  "as_str (BerOctetString bs) =
     (case from_utf8 bs of Some s \<Rightarrow> Some s | None \<Rightarrow> Some (mac_text bs))"
| "as_str (BerOid o') = Some (oid_text o')"
| "as_str (BerIpAddress ip) = Some (ip_to_string (V4 ip))"
| "as_str (BerInteger i) = Some (signed_decimal (sint i))"
| "as_str (BerCounter32 c) = Some (decimal (uint c))"
| "as_str (BerGauge32 g) = Some (decimal (uint g))"
| "as_str (BerTimeTicks t) = Some (decimal (uint t) @ '' ticks'')"
| "as_str _ = None"

fun as_mac :: "ber_value \<Rightarrow> string option" where
  "as_mac (BerOctetString bs) = (if length bs = 6 then Some (mac_text bs) else None)"
| "as_mac _ = None"

fun as_ipv4 :: "ber_value \<Rightarrow> 32 word option" where
  "as_ipv4 (BerIpAddress ip) = Some ip"
| "as_ipv4 (BerOctetString bs) = (if length bs = 4 then Some (u32_at bs 0) else None)"
| "as_ipv4 _ = None"

fun as_u32 :: "ber_value \<Rightarrow> u32 option" where
  "as_u32 (BerInteger i) = Some (ucast i)"
| "as_u32 (BerCounter32 c) = Some c"
| "as_u32 (BerGauge32 g) = Some g"
| "as_u32 (BerTimeTicks t) = Some t"
| "as_u32 _ = None"

record snmp_pdu =
  sp_pdu_type :: u8
  sp_request_id :: "32 word"
  sp_error_status :: "32 word"
  sp_error_index :: "32 word"
  sp_varbinds :: "(oid \<times> ber_value) list"

record snmp_message =
  sm_version :: "32 word"
  sm_community :: string
  sm_pdu :: snmp_pdu

section \<open>Encoding\<close>

definition encode_length :: "nat \<Rightarrow> bytes" where
  "encode_length len =
     (if len < 128 then [word_of_nat len]
      else if len < 256 then [0x81, word_of_nat len]
      else if len < 65536 then [0x82, word_of_nat (len div 256), word_of_nat (len mod 256)]
      else [0x83, word_of_nat (len div 65536), word_of_nat (len div 256 mod 256), word_of_nat (len mod 256)])"

definition encode_tlv :: "u8 \<Rightarrow> bytes \<Rightarrow> bytes" where
  "encode_tlv tag value = tag # encode_length (length value) @ value"

text \<open>The loop of \<open>encode_integer\<close>: bytes from the lowest, until the sign is unambiguous.\<close>

function integer_bytes :: "64 word \<Rightarrow> bytes" where
  "integer_bytes v =
     (let byte = (ucast v :: u8); v' = signed_drop_bit 8 v
      in if v' = 0 \<and> byte AND 0x80 = 0 \<or> v' = -1 \<and> byte AND 0x80 \<noteq> 0 then [byte]
         else byte # integer_bytes v')"
  by pat_completeness auto

lemma integer_step:
  fixes v :: "64 word"
  assumes "\<not> (signed_drop_bit 8 v = 0 \<and> (ucast v :: u8) AND 0x80 = 0)"
    and "\<not> (signed_drop_bit 8 v = -1 \<and> (ucast v :: u8) AND 0x80 \<noteq> 0)"
  shows "nat \<bar>2 * sint (signed_drop_bit 8 v) + 1\<bar> < nat \<bar>2 * sint v + 1\<bar>"
proof -
  have s: "sint (signed_drop_bit 8 v) = sint v div 256"
    by (simp add: sint_signed_drop_bit_eq drop_bit_eq_div)
  have "v \<noteq> 0" using assms(1) by auto
  moreover have "v \<noteq> -1"
  proof
    assume v: "v = -1"
    have "signed_drop_bit 8 (-1 :: 64 word) = -1" by simp
    moreover have "(ucast (-1 :: 64 word) :: u8) = -1" by (rule bit_word_eqI) (simp add: bit_simps)
    then have "(ucast (-1 :: 64 word) :: u8) AND 0x80 \<noteq> 0" by simp
    ultimately show False using assms(2) v by blast
  qed
  ultimately have "sint v \<noteq> 0" "sint v \<noteq> -1"
    by (auto simp: signed_word_eqI)
  then show ?thesis unfolding s by linarith
qed

termination integer_bytes
  by (relation "measure (\<lambda>v. nat \<bar>2 * sint v + 1\<bar>)") (use integer_step in auto)

declare integer_bytes.simps [simp del]

definition encode_integer :: "64 word \<Rightarrow> bytes" where
  "encode_integer v = encode_tlv TAG_INTEGER (rev (integer_bytes v))"

definition encode_octet_string :: "bytes \<Rightarrow> bytes" where
  "encode_octet_string v = encode_tlv TAG_OCTET_STRING v"

definition encode_null :: bytes where
  "encode_null = [TAG_NULL, 0x00]"

text \<open>
  A sub-identifier in base 128, the highest digit first: what the loops over \<open>stack\<close> leave. The
  first two components share a byte, in the wrapping arithmetic of a release build.
\<close>

function high_septets :: "u32 \<Rightarrow> bytes" where
  "high_septets v =
     (if v = 0 then []
      else high_septets (drop_bit 7 v) @ [ucast (v AND 0x7F OR 0x80)])"
  by pat_completeness auto

lemma drop_septet_less: "v \<noteq> 0 \<Longrightarrow> unat (drop_bit 7 v) < unat (v :: u32)"
proof -
  assume "v \<noteq> 0"
  then have "0 < unat v" by (simp add: unat_gt_0)
  then show ?thesis unfolding unat_drop_bit_eq by (simp add: drop_bit_eq_div)
qed

termination high_septets
  by (relation "measure unat") (simp_all add: drop_septet_less)

declare high_septets.simps [simp del]

definition encode_subid :: "u32 \<Rightarrow> bytes" where
  "encode_subid sub =
     (if sub < 128 then [ucast sub]
      else high_septets (drop_bit 7 sub) @ [ucast (sub AND 0x7F)])"

definition encode_oid :: "oid \<Rightarrow> bytes" where
  "encode_oid oid =
     (if length oid < 2 then [TAG_OBJECT_IDENTIFIER, 0x00]
      else encode_tlv TAG_OBJECT_IDENTIFIER
             (ucast (oid ! 0 * 40 + oid ! 1) # concat (map encode_subid (drop 2 oid))))"

definition build_snmp_request :: "32 word \<Rightarrow> string \<Rightarrow> 32 word \<Rightarrow> u8 \<Rightarrow> oid \<Rightarrow> bytes" where
  "build_snmp_request version community request_id pdu_type oid =
     (let varbind = encode_tlv TAG_SEQUENCE (encode_oid oid @ encode_null);
          varbind_list = encode_tlv TAG_SEQUENCE varbind;
          pdu = encode_tlv pdu_type
                  (encode_integer (scast request_id) @ encode_integer 0 @ encode_integer 0 @ varbind_list)
      in encode_tlv TAG_SEQUENCE
           (encode_integer (scast version) @ encode_octet_string (map (\<lambda>c. word_of_nat (char_code c)) community)
            @ pdu))"

section \<open>Decoding\<close>

fun decode_subids :: "u32 \<Rightarrow> bytes \<Rightarrow> oid" where
  "decode_subids current [] = []"
| "decode_subids current (b # bs) =
     (let current' = push_bit 7 current OR ucast (b AND 0x7F)
      in if b AND 0x80 = 0 then current' # decode_subids 0 bs else decode_subids current' bs)"

definition decode_oid_value :: "bytes \<Rightarrow> oid" where
  "decode_oid_value data =
     (case data of
        [] \<Rightarrow> []
      | b # bs \<Rightarrow> let first = (ucast b :: u32) in first div 40 # first mod 40 # decode_subids 0 bs)"

definition decode_integer_value :: "bytes \<Rightarrow> 64 word" where
  "decode_integer_value data =
     (if data = [] then 0
      else foldl (\<lambda>v b. push_bit 8 v OR ucast b) (if hd data AND 0x80 \<noteq> 0 then -1 else 0) data)"

type_synonym 'a outcome = "string + 'a"

text \<open>The operator \<open>?\<close>.\<close>

definition and_then :: "'a outcome \<Rightarrow> ('a \<Rightarrow> 'b outcome) \<Rightarrow> 'b outcome" where
  "and_then r f = (case r of Inl e \<Rightarrow> Inl e | Inr a \<Rightarrow> f a)"

lemma and_then_simps [simp]: "and_then (Inl e) f = Inl e" "and_then (Inr a) f = f a"
  by (simp_all add: and_then_def)

lemma and_then_Inr_iff: "and_then r f = Inr b \<longleftrightarrow> (\<exists>a. r = Inr a \<and> f a = Inr b)"
  by (cases r) simp_all

text \<open>
  \<open>Reader::length\<close>. With at most four bytes the checked shift and addition of a 64-bit \<open>usize\<close>
  never overflow, nor does adding the result to a cursor.
\<close>

definition reader_length :: "string \<Rightarrow> bytes \<Rightarrow> (nat \<times> bytes) outcome" where
  "reader_length what reader =
     (case reader of
        [] \<Rightarrow> Inl (what @ '': the container ended before its length'')
      | first # rest \<Rightarrow>
          if first AND 0x80 = 0 then Inr (unat first, rest)
          else
            let count = unat (first AND 0x7f)
            in if count = 0 \<or> 4 < count then Inl (what @ '': unsupported length encoding'')
               else if length rest < count then Inl (what @ '': its length field is truncated'')
               else Inr (foldl (\<lambda>len b. len * 256 + unat b) 0 (take count rest), drop count rest))"

definition reader_tlv :: "string \<Rightarrow> bytes \<Rightarrow> (u8 \<times> bytes \<times> bytes) outcome" where
  "reader_tlv what reader =
     (case reader of
        [] \<Rightarrow> Inl (what @ '': the container ended before its tag'')
      | tag # rest \<Rightarrow>
          and_then (reader_length what rest) (\<lambda>(len, rest').
            if length rest' < len
            then Inl (what @ '': declares '' @ decimal (int len) @ '' bytes and its container holds '' @
                      decimal (int (length rest')))
            else Inr (tag, take len rest', drop len rest')))"

definition hex_literal :: "u8 \<Rightarrow> string" where
  "hex_literal b = ''0x'' @ hex_byte b"

definition reader_expect :: "u8 \<Rightarrow> string \<Rightarrow> bytes \<Rightarrow> (bytes \<times> bytes) outcome" where
  "reader_expect tag what reader =
     and_then (reader_tlv what reader) (\<lambda>(found, value, rest).
       if found \<noteq> tag
       then Inl (what @ '': expected tag '' @ hex_literal tag @ '', found '' @ hex_literal found)
       else Inr (value, rest))"

definition reader_finished :: "string \<Rightarrow> bytes \<Rightarrow> unit outcome" where
  "reader_finished what reader =
     (if reader = [] then Inr ()
      else Inl (what @ '': '' @ decimal (int (length reader)) @ '' byte(s) remain after its declared fields''))"

definition reader_integer :: "string \<Rightarrow> bytes \<Rightarrow> (64 word \<times> bytes) outcome" where
  "reader_integer what reader =
     and_then (reader_expect TAG_INTEGER what reader) (\<lambda>(value, rest).
       Inr (decode_integer_value value, rest))"

definition decode_value :: "u8 \<Rightarrow> bytes \<Rightarrow> ber_value" where
  "decode_value tag bs =
     (if tag = TAG_INTEGER then BerInteger (decode_integer_value bs)
      else if tag = TAG_OCTET_STRING then BerOctetString bs
      else if tag = TAG_NULL then BerNull
      else if tag = TAG_OBJECT_IDENTIFIER then BerOid (decode_oid_value bs)
      else if tag = TAG_IP_ADDRESS \<and> length bs = 4 then BerIpAddress (u32_at bs 0)
      else if tag = TAG_COUNTER32 then BerCounter32 (ucast (decode_integer_value bs))
      else if tag = TAG_GAUGE32 then BerGauge32 (ucast (decode_integer_value bs))
      else if tag = TAG_TIMETICKS then BerTimeTicks (ucast (decode_integer_value bs))
      else BerUnknown tag bs)"

definition decode_varbind :: "bytes \<Rightarrow> ((oid \<times> ber_value) \<times> bytes) outcome" where
  "decode_varbind list =
     and_then (reader_expect TAG_SEQUENCE ''a varbind'' list) (\<lambda>(varbind, list').
     and_then (reader_expect TAG_OBJECT_IDENTIFIER ''a varbind's OID'' varbind) (\<lambda>(name, varbind').
     and_then (reader_tlv ''a varbind's value'' varbind') (\<lambda>(tag, value, varbind'').
     and_then (reader_finished ''a varbind'' varbind'') (\<lambda>_.
       Inr ((decode_oid_value name, decode_value tag value), list')))))"

lemma and_then_cong [fundef_cong]:
  "r = r' \<Longrightarrow> (\<And>a. r' = Inr a \<Longrightarrow> f a = f' a) \<Longrightarrow> and_then r f = and_then r' f'"
  by (cases r') simp_all

text \<open>
  The loop over the varbinds that are left, after \<open>n\<close> of them; it stops with an error at the
  first one beyond \<open>MAX_VARBINDS\<close>, so it ends.
\<close>

function decode_varbinds :: "nat \<Rightarrow> bytes \<Rightarrow> ((oid \<times> ber_value) list) outcome" where
  "decode_varbinds n list =
     (if list = [] then Inr []
      else
        and_then (decode_varbind list) (\<lambda>p.
          if MAX_VARBINDS < Suc n
          then Inl (''the varbind list carries more than the '' @ decimal (int MAX_VARBINDS) @ '' this reads'')
          else and_then (decode_varbinds (Suc n) (snd p)) (\<lambda>varbinds. Inr (fst p # varbinds))))"
  by pat_completeness auto

termination decode_varbinds
  by (relation "measure (\<lambda>(n, _). MAX_VARBINDS - n)") auto

declare decode_varbinds.simps [simp del]

definition decode_pdu_body :: "u8 \<Rightarrow> bytes \<Rightarrow> snmp_pdu outcome" where
  "decode_pdu_body pdu_type pdu =
     and_then (reader_integer ''the request id'' pdu) (\<lambda>(request_id, pdu).
     and_then (reader_integer ''the error status'' pdu) (\<lambda>(error_status, pdu).
     and_then (reader_integer ''the error index'' pdu) (\<lambda>(error_index, pdu).
     and_then (reader_expect TAG_SEQUENCE ''the varbind list'' pdu) (\<lambda>(list, pdu).
     and_then (reader_finished ''the PDU'' pdu) (\<lambda>_.
     and_then (decode_varbinds 0 list) (\<lambda>varbinds.
       Inr \<lparr>sp_pdu_type = pdu_type, sp_request_id = ucast request_id, sp_error_status = ucast error_status,
            sp_error_index = ucast error_index, sp_varbinds = varbinds\<rparr>))))))"

definition decode_snmp_response :: "bytes \<Rightarrow> snmp_message outcome" where
  "decode_snmp_response data =
     and_then (reader_expect TAG_SEQUENCE ''the message'' data) (\<lambda>(message, outer).
     and_then (reader_finished ''the datagram'' outer) (\<lambda>_.
     and_then (reader_integer ''the version'' message) (\<lambda>(version, message).
     and_then (reader_expect TAG_OCTET_STRING ''the community'' message) (\<lambda>(community, message).
     and_then (reader_tlv ''the PDU'' message) (\<lambda>(pdu_type, pdu, message).
     and_then (reader_finished ''the message'' message) (\<lambda>_.
     and_then (decode_pdu_body pdu_type pdu) (\<lambda>decoded.
       Inr \<lparr>sm_version = ucast version, sm_community = text_of community, sm_pdu = decoded\<rparr>)))))))"

end
