(* ===== verification/Snmp_Codec.thy ===== *)
theory Snmp_Codec
  imports Snmp_Ber
begin

text \<open>
  The BER codec of the SNMP client is exact: what is written is what is read, and nothing that is
  read comes from outside the container that declares it.
\<close>

section \<open>Integers\<close>

lemma shift_or_byte: "push_bit 8 v OR ucast (b :: u8) = v * 256 + (ucast b :: 'a::len word)"
proof -
  have "push_bit 8 v OR ucast b = push_bit 8 v + (ucast b :: 'a word)"
    by (subst disjunctive_add) (auto simp: bit_simps dest: bit_imp_le_length)
  then show ?thesis by (simp add: push_bit_eq_mult)
qed

lemma shift_word_of_int:
  "push_bit 8 (word_of_int a) OR ucast (b :: u8) = (word_of_int (a * 256 + uint b) :: 64 word)"
  unfolding shift_or_byte unfolding ucast_eq by simp

lemma fold_bytes_int:
  "foldl (\<lambda>v b. push_bit 8 v OR ucast b) (word_of_int a :: 64 word) bs =
     word_of_int (foldl (\<lambda>a (b :: u8). a * 256 + uint b) a bs)"
  by (induction bs arbitrary: a) (simp_all add: shift_word_of_int del: of_int_add of_int_mult)

definition sign_of :: "bytes \<Rightarrow> int" where
  "sign_of bs = (if hd bs AND 0x80 \<noteq> 0 then -1 else 0)"

lemma decode_integer_int:
  "bs \<noteq> [] \<Longrightarrow> decode_integer_value bs = word_of_int (foldl (\<lambda>a b. a * 256 + uint b) (sign_of bs) bs)"
  using fold_bytes_int [of 0 bs] fold_bytes_int [of "-1" bs]
  by (simp add: decode_integer_value_def sign_of_def)

lemma integer_bytes_nonempty [simp]: "integer_bytes v \<noteq> []"
  by (subst integer_bytes.simps) (simp add: Let_def)

lemma integer_bytes_value:
  "foldl (\<lambda>a b. a * 256 + uint b) (sign_of (rev (integer_bytes v))) (rev (integer_bytes v)) = sint v"
proof (induction v rule: integer_bytes.induct)
  case (1 v)
  let ?b = "ucast v :: u8" and ?v = "signed_drop_bit 8 v"
  have s: "sint ?v = sint v div 256"
    by (simp add: sint_signed_drop_bit_eq drop_bit_eq_div)
  have b: "uint ?b = sint v mod 256"
    unfolding unsigned_ucast_eq uint_sint [of v] by (simp add: take_bit_eq_mod mod_mod_cancel)
  have v: "sint v = sint ?v * 256 + uint ?b" unfolding s b by simp
  show ?case
  proof (cases "?v = 0 \<and> ?b AND 0x80 = 0 \<or> ?v = -1 \<and> ?b AND 0x80 \<noteq> 0")
    case True
    then have e: "integer_bytes v = [?b]" by (subst integer_bytes.simps) (simp add: Let_def)
    show ?thesis unfolding e using True v by (auto simp: sign_of_def)
  next
    case False
    then have e: "integer_bytes v = ?b # integer_bytes ?v"
      by (subst integer_bytes.simps) (simp only: Let_def if_False)
    have "hd (rev (integer_bytes v)) = hd (rev (integer_bytes ?v))" unfolding e by simp
    then have "sign_of (rev (integer_bytes v)) = sign_of (rev (integer_bytes ?v))"
      by (simp add: sign_of_def)
    then show ?thesis using 1 [OF refl refl False] v unfolding e by simp
  qed
qed

lemma decode_encode_integer: "decode_integer_value (rev (integer_bytes v)) = v"
  by (simp add: decode_integer_int integer_bytes_value)

section \<open>Object identifiers\<close>

lemma bit_0x80: "bit (0x80 :: u8) i \<longleftrightarrow> i = 7"
  using bit_exp_iff [of 7 i, where 'a = u8] by auto

lemma septet_bits: "bit (ucast ((v :: u32) AND 0x7F OR 0x80) :: u8) i \<longleftrightarrow> i < 8 \<and> (i = 7 \<or> bit v i)"
proof -
  have m: "v AND 0x7F = take_bit 7 v" by (simp add: take_bit_eq_mask mask_eq_exp_minus_1)
  have b: "bit (0x80 :: u32) i \<longleftrightarrow> i = 7" for i using bit_exp_iff [of 7 i, where 'a = u32] by auto
  show ?thesis unfolding m bit_unsigned_iff bit_or_iff b bit_take_bit_iff by auto
qed

lemma high_bit: "(b :: u8) AND 0x80 = 0 \<longleftrightarrow> \<not> bit b 7"
  using and_exp_eq_0_iff_not_bit [of b 7] by simp

lemma low_septet: "(b :: u8) AND 0x7F = take_bit 7 b"
  by (simp add: take_bit_eq_mask mask_eq_exp_minus_1)

lemma join_septet:
  fixes v :: u32
  assumes "\<And>i. i < 7 \<Longrightarrow> bit b i \<longleftrightarrow> bit v i"
  shows "push_bit 7 (drop_bit 7 v) OR ucast ((b :: u8) AND 0x7F) = v"
proof (rule bit_word_eqI)
  fix i assume "i < LENGTH(32)"
  then show "bit (push_bit 7 (drop_bit 7 v) OR ucast (b AND 0x7F)) i = bit v i"
    using assms [of i] unfolding low_septet by (cases "i < 7") (auto simp: bit_simps)
qed

lemma decode_high_septets: "decode_subids 0 (high_septets v @ rest) = decode_subids v rest"
proof (induction v arbitrary: rest rule: high_septets.induct)
  case (1 v)
  show ?case
  proof (cases "v = 0")
    case True
    then show ?thesis by (subst high_septets.simps) simp
  next
    case False
    let ?b = "ucast (v AND 0x7F OR 0x80) :: u8"
    have "push_bit 7 (drop_bit 7 v) OR ucast (?b AND 0x7F) = v"
      by (rule join_septet) (simp add: septet_bits)
    moreover have "\<not> ?b AND 0x80 = 0" unfolding high_bit septet_bits by simp
    ultimately show ?thesis
      using 1 [OF False, of "?b # rest"] False by (subst high_septets.simps) (simp add: Let_def)
  qed
qed

lemma decode_encode_subid: "decode_subids 0 (encode_subid v @ rest) = v # decode_subids 0 rest"
proof -
  have m: "v AND 0x7F = take_bit 7 v" by (simp add: take_bit_eq_mask mask_eq_exp_minus_1)
  let ?b = "ucast (v AND 0x7F) :: u8"
  have bits: "bit ?b i \<longleftrightarrow> i < 7 \<and> bit v i" for i unfolding m by (auto simp: bit_simps)
  have joined: "push_bit 7 (drop_bit 7 v) OR ucast (?b AND 0x7F) = v"
    by (rule join_septet) (simp add: bits)
  have stop: "?b AND 0x80 = 0" unfolding high_bit bits by simp
  show ?thesis
  proof (cases "v < 128")
    case True
    then have "unat v < 128" by (simp add: word_less_nat_alt)
    then have z: "drop_bit 7 v = 0"
      unfolding word_unat_eq_iff unat_drop_bit_eq by (simp add: drop_bit_eq_div)
    have "take_bit 7 v = v"
      unfolding word_unat_eq_iff unsigned_take_bit_eq using \<open>unat v < 128\<close> by (simp add: take_bit_eq_mod)
    then have "ucast v = ?b" using m by simp
    then show ?thesis using True joined stop z by (simp add: encode_subid_def Let_def)
  next
    case False
    then show ?thesis using joined stop by (simp add: encode_subid_def decode_high_septets Let_def)
  qed
qed

lemma decode_encode_subids: "decode_subids 0 (concat (map encode_subid vs)) = vs"
  by (induction vs) (simp_all add: decode_encode_subid)

text \<open>The first two components that fit the byte they share.\<close>

definition oid_ok :: "oid \<Rightarrow> bool" where
  "oid_ok oid \<longleftrightarrow> 2 \<le> length oid \<and> oid ! 0 < 6 \<and> oid ! 1 < 40"

definition oid_body :: "oid \<Rightarrow> bytes" where
  "oid_body oid = ucast (oid ! 0 * 40 + oid ! 1) # concat (map encode_subid (drop 2 oid))"

lemma decode_oid_body:
  assumes "oid_ok oid"
  shows "decode_oid_value (oid_body oid) = oid"
proof -
  obtain a b rest where oid: "oid = a # b # rest"
    using assms by (cases oid; cases "tl oid") (auto simp: oid_ok_def)
  have ab: "unat a < 6" "unat b < 40" using assms by (simp_all add: oid oid_ok_def word_less_nat_alt)
  have n: "unat (a * 40 + b) = unat a * 40 + unat b"
    using ab by (simp add: unat_word_ariths)
  have "unat (ucast (ucast (a * 40 + b) :: u8) :: u32) = unat (a * 40 + b)"
    unfolding unsigned_ucast_eq unsigned_take_bit_eq n using ab by (simp add: take_bit_eq_mod)
  then have c: "(ucast (ucast (a * 40 + b) :: u8) :: u32) = a * 40 + b"
    by (simp add: word_unat_eq_iff)
  have "(a * 40 + b) div 40 = a" "(a * 40 + b) mod 40 = b"
    unfolding word_unat_eq_iff unat_div unat_mod n using ab by simp_all
  then show ?thesis
    by (simp add: oid_body_def oid decode_oid_value_def Let_def c decode_encode_subids)
qed

section \<open>Lengths and containers\<close>

lemma unat_byte: "n < 256 \<Longrightarrow> unat (word_of_nat n :: u8) = n"
  by (simp add: unat_of_nat)

lemma reader_length_encoded:
  assumes "n < 16777216"
  shows "reader_length what (encode_length n @ rest) = Inr (n, rest)"
proof -
  consider "n < 128" | "128 \<le> n" "n < 256" | "256 \<le> n" "n < 65536" | "65536 \<le> n" by linarith
  then show ?thesis
  proof cases
    case 1
    have "take_bit 7 (word_of_nat n :: u8) = word_of_nat n"
      unfolding word_unat_eq_iff unsigned_take_bit_eq using 1 by (simp add: unat_byte take_bit_eq_mod)
    then have "\<not> bit (word_of_nat n :: u8) 7" by (metis bit_take_bit_iff less_irrefl)
    then show ?thesis
      using 1 by (simp add: encode_length_def reader_length_def high_bit unat_byte)
  next
    case 2
    then show ?thesis by (simp add: encode_length_def reader_length_def unat_byte Let_def)
  next
    case 3
    then show ?thesis
      by (simp add: encode_length_def reader_length_def unat_byte Let_def)
  next
    case 4
    then have "n div 65536 < 256" using assms by simp
    moreover have "(n div 65536 * 256 + n div 256 mod 256) * 256 + n mod 256 = n"
      by (simp add: div_mult2_eq [of n 256 256, simplified] mult.commute)
    ultimately show ?thesis
      using 4 by (simp add: encode_length_def reader_length_def unat_byte Let_def)
  qed
qed

lemma reader_tlv_encoded:
  "length v < 16777216 \<Longrightarrow> reader_tlv what (encode_tlv tag v @ rest) = Inr (tag, v, rest)"
  by (simp add: reader_tlv_def encode_tlv_def reader_length_encoded)

lemma reader_expect_encoded [simp]:
  "length v < 16777216 \<Longrightarrow> reader_expect tag what (encode_tlv tag v @ rest) = Inr (v, rest)"
  by (simp add: reader_expect_def reader_tlv_encoded)

lemma reader_length_split:
  assumes "reader_length what bs = Inr (n, rest)"
  shows "\<exists>head. bs = head @ rest"
proof -
  obtain first bs' where bs: "bs = first # bs'" using assms by (cases bs) (auto simp: reader_length_def)
  then have "rest = bs' \<or> (\<exists>k. rest = drop k bs')"
    using assms by (auto simp: reader_length_def Let_def split: if_splits)
  then have "\<exists>h. bs' = h @ rest" by (metis append_Nil append_take_drop_id)
  then show ?thesis using bs by (metis append_Cons)
qed

lemma reader_tlv_split:
  assumes "reader_tlv what bs = Inr (tag, v, rest)"
  shows "\<exists>head. head \<noteq> [] \<and> bs = head @ v @ rest"
proof -
  obtain t bs' n rest' where bs: "bs = t # bs'" and n: "reader_length what bs' = Inr (n, rest')"
      and v: "v = take n rest'" "rest = drop n rest'"
    using assms by (auto simp: reader_tlv_def and_then_Inr_iff split: list.splits if_splits prod.splits)
  obtain head where "bs' = head @ rest'" using reader_length_split [OF n] by blast
  then have "bs = (t # head) @ v @ rest" unfolding bs v by simp
  then show ?thesis by blast
qed

text \<open>A container as an element format: what is next in it, whatever the field is called.\<close>

definition ber_next :: "bytes \<Rightarrow> (u8 \<times> bytes \<times> bytes) option" where
  "ber_next bs = (case reader_tlv '''' bs of Inl _ \<Rightarrow> None | Inr e \<Rightarrow> Some e)"

definition ber_ok :: "u8 \<times> bytes \<Rightarrow> bool" where
  "ber_ok e \<longleftrightarrow> length (snd e) < 16777216"

interpretation ber: tlv_format ber_next encode_tlv ber_ok
proof
  show "\<exists>head. head \<noteq> [] \<and> bs = head @ v @ rest" if "ber_next bs = Some (t, v, rest)" for bs t v rest
    using that by (intro reader_tlv_split) (auto simp: ber_next_def split: sum.splits)
  show "ber_next (encode_tlv t v @ rest) = Some (t, v, rest)" if "ber_ok (t, v)" for t v rest
    using that by (simp add: ber_next_def ber_ok_def reader_tlv_encoded)
qed

section \<open>Messages\<close>

lemma integer_bytes_length:
  "- (128 * 256 ^ k) \<le> sint v \<Longrightarrow> sint v < 128 * 256 ^ k \<Longrightarrow> length (integer_bytes v) \<le> Suc k"
proof (induction v arbitrary: k rule: integer_bytes.induct)
  case (1 v)
  let ?b = "ucast v :: u8" and ?v = "signed_drop_bit 8 v"
  have s: "sint ?v = sint v div 256" by (simp add: sint_signed_drop_bit_eq drop_bit_eq_div)
  show ?case
  proof (cases "?v = 0 \<and> ?b AND 0x80 = 0 \<or> ?v = -1 \<and> ?b AND 0x80 \<noteq> 0")
    case True
    then have "integer_bytes v = [?b]" by (subst integer_bytes.simps) (simp add: Let_def)
    then show ?thesis by simp
  next
    case False
    then have e: "integer_bytes v = ?b # integer_bytes ?v"
      by (subst integer_bytes.simps) (simp only: Let_def if_False)
    show ?thesis
    proof (cases k)
      case 0
      have small: "-128 \<le> sint v" "sint v < 128" using 1 0 by simp_all
      have b: "bit ?b 7 \<longleftrightarrow> bit v 7" by (simp add: bit_simps)
      have bv: "bit v 7 \<longleftrightarrow> bit (sint v) 7" by (simp add: bit_sint_iff)
      have "sint v div 128 = (if sint v < 0 then -1 else 0)" using small by (auto simp: div_eq_minus1 div_pos_pos_trivial)
      then have "bit (sint v) 7 \<longleftrightarrow> sint v < 0" by (simp add: bit_iff_odd)
      moreover have "?v = (if sint v < 0 then -1 else 0)"
        using small s by (intro signed_word_eqI) (auto simp: div_eq_minus1 div_pos_pos_trivial)
      ultimately show ?thesis using False high_bit [of ?b] b bv by (simp split: if_splits)
    next
      case (Suc j)
      have "length (integer_bytes ?v) \<le> Suc j"
      proof (rule 1(1) [OF refl refl False])
        show "- (128 * 256 ^ j) \<le> sint ?v" "sint ?v < 128 * 256 ^ j"
          unfolding s using 1(2,3) Suc div_mult_mod_eq [of "sint v" 256] pos_mod_bound [of 256 "sint v"]
            pos_mod_sign [of 256 "sint v"] by simp_all
      qed
      then show ?thesis unfolding e Suc by simp
    qed
  qed
qed

lemma integer_bytes_short: "length (integer_bytes v) \<le> 8"
  using integer_bytes_length [of 7 v] sint_greater_eq [of v] sint_less [of v] by simp

lemma length_encode_tlv: "length (encode_tlv t v) \<le> length v + 5"
  by (simp add: encode_tlv_def encode_length_def)

lemma reader_integer_encoded [simp]: "reader_integer what (encode_integer v @ rest) = Inr (v, rest)"
  using integer_bytes_short [of v]
  by (simp add: reader_integer_def encode_integer_def decode_encode_integer)

text \<open>Values as an agent writes them: a 32-bit quantity as the integer with that value.\<close>

fun encode_value :: "ber_value \<Rightarrow> bytes" where
  "encode_value (BerInteger i) = encode_integer i"
| "encode_value (BerOctetString bs) = encode_octet_string bs"
| "encode_value BerNull = encode_null"
| "encode_value (BerOid oid) = encode_oid oid"
| "encode_value (BerIpAddress a) = encode_tlv TAG_IP_ADDRESS (u32_bytes a)"
| "encode_value (BerCounter32 c) = encode_tlv TAG_COUNTER32 (rev (integer_bytes (ucast c)))"
| "encode_value (BerGauge32 g) = encode_tlv TAG_GAUGE32 (rev (integer_bytes (ucast g)))"
| "encode_value (BerTimeTicks t) = encode_tlv TAG_TIMETICKS (rev (integer_bytes (ucast t)))"
| "encode_value (BerUnknown t bs) = encode_tlv t bs"

fun value_ok :: "ber_value \<Rightarrow> bool" where
  "value_ok (BerOid oid) = oid_ok oid"
| "value_ok (BerUnknown t bs) =
     (t \<notin> set [TAG_INTEGER, TAG_OCTET_STRING, TAG_NULL, TAG_OBJECT_IDENTIFIER, TAG_IP_ADDRESS,
        TAG_COUNTER32, TAG_GAUGE32, TAG_TIMETICKS])"
| "value_ok _ = True"

definition encode_varbind :: "oid \<times> ber_value \<Rightarrow> bytes" where
  "encode_varbind vb = encode_tlv TAG_SEQUENCE (encode_oid (fst vb) @ encode_value (snd vb))"

definition encode_message :: "32 word \<Rightarrow> bytes \<Rightarrow> snmp_pdu \<Rightarrow> bytes" where
  "encode_message version community pdu =
     encode_tlv TAG_SEQUENCE
       (encode_integer (scast version) @ encode_octet_string community @
        encode_tlv (sp_pdu_type pdu)
          (encode_integer (scast (sp_request_id pdu)) @ encode_integer (scast (sp_error_status pdu)) @
           encode_integer (scast (sp_error_index pdu)) @
           encode_tlv TAG_SEQUENCE (concat (map encode_varbind (sp_varbinds pdu)))))"

lemma encode_oid_body: "oid_ok oid \<Longrightarrow> encode_oid oid = encode_tlv TAG_OBJECT_IDENTIFIER (oid_body oid)"
  by (simp add: encode_oid_def oid_body_def oid_ok_def)

lemma length_encode_tlv_ge: "length v \<le> length (encode_tlv t v)"
  by (simp add: encode_tlv_def)

lemma ucast_down_up: "ucast (ucast c :: 64 word) = (c :: u32)"
  by (rule bit_word_eqI) (auto simp: bit_simps)

text \<open>A value is the element with its tag, and the tag and the contents give it back.\<close>

lemma encode_value_tlv:
  assumes "value_ok v"
  obtains t bs where "encode_value v = encode_tlv t bs" and "decode_value t bs = v"
proof (cases v)
  case BerNull
  then show ?thesis
    by (intro that [of TAG_NULL "[]"])
      (simp_all add: encode_null_def encode_tlv_def encode_length_def decode_value_def ber_tags)
next
  case (BerOid oid)
  then show ?thesis
    using assms by (intro that [of TAG_OBJECT_IDENTIFIER "oid_body oid"])
      (simp_all add: encode_oid_body decode_value_def ber_tags decode_oid_body)
next
  case (BerIpAddress a)
  then show ?thesis
    by (intro that [of TAG_IP_ADDRESS "u32_bytes a"])
      (simp_all add: decode_value_def ber_tags u32_at_def u32_bytes_def be32_bytes)
qed (use that assms in \<open>auto simp: encode_integer_def encode_octet_string_def decode_value_def ber_tags
      decode_encode_integer ucast_down_up\<close>)

lemma decode_varbind_encoded:
  assumes "oid_ok (fst vb)" and "value_ok (snd vb)" and "length (encode_varbind vb) < 16777216"
  shows "decode_varbind (encode_varbind vb @ rest) = Inr (vb, rest)"
proof -
  obtain t bs where v: "encode_value (snd vb) = encode_tlv t bs" "decode_value t bs = snd vb"
    using encode_value_tlv [OF assms(2)] by metis
  let ?o = "encode_tlv TAG_OBJECT_IDENTIFIER (oid_body (fst vb))"
  have e: "encode_varbind vb = encode_tlv TAG_SEQUENCE (?o @ encode_tlv t bs)"
    by (simp add: encode_varbind_def v(1) encode_oid_body [OF assms(1)])
  have body: "length (?o @ encode_tlv t bs) < 16777216"
    using assms(3) length_encode_tlv_ge [of "?o @ encode_tlv t bs" TAG_SEQUENCE] unfolding e by linarith
  then have "length (oid_body (fst vb)) < 16777216" "length bs < 16777216"
    using length_encode_tlv_ge [of "oid_body (fst vb)" TAG_OBJECT_IDENTIFIER] length_encode_tlv_ge [of bs t]
    by simp_all
  then show ?thesis
    unfolding e decode_varbind_def
    using reader_expect_encoded [OF body] reader_tlv_encoded [of bs _ t "[]"]
    by (simp add: reader_finished_def decode_oid_body [OF assms(1)] v(2))
qed

definition varbind_ok :: "oid \<times> ber_value \<Rightarrow> bool" where
  "varbind_ok vb \<longleftrightarrow> oid_ok (fst vb) \<and> value_ok (snd vb)"

lemma decode_varbinds_encoded:
  "list_all varbind_ok vbs \<Longrightarrow> n + length vbs \<le> MAX_VARBINDS \<Longrightarrow>
     length (concat (map encode_varbind vbs)) < 16777216 \<Longrightarrow>
     decode_varbinds n (concat (map encode_varbind vbs)) = Inr vbs"
proof (induction vbs arbitrary: n)
  case Nil
  then show ?case by (subst decode_varbinds.simps) simp
next
  case (Cons vb vbs)
  have "decode_varbind (encode_varbind vb @ concat (map encode_varbind vbs)) =
      Inr (vb, concat (map encode_varbind vbs))"
    using Cons.prems by (intro decode_varbind_encoded) (simp_all add: varbind_ok_def)
  moreover have "encode_varbind vb \<noteq> []" by (simp add: encode_varbind_def encode_tlv_def)
  ultimately show ?case
    using Cons by (subst decode_varbinds.simps) simp
qed

lemma scast_ucast_i32: "ucast (scast (w :: 32 word) :: 64 word) = w"
  by (rule bit_word_eqI) (auto simp: bit_simps)

lemma length_encode_integer: "length (encode_integer v) \<le> 13"
  using length_encode_tlv [of TAG_INTEGER "rev (integer_bytes v)"] integer_bytes_short [of v]
  by (simp add: encode_integer_def)

lemma decode_message_encoded:
  assumes "list_all varbind_ok (sp_varbinds pdu)" and "length (sp_varbinds pdu) \<le> MAX_VARBINDS"
    and "length (concat (map encode_varbind (sp_varbinds pdu))) + length community < 16000000"
  shows "decode_snmp_response (encode_message version community pdu) =
     Inr \<lparr>sm_version = version, sm_community = text_of community, sm_pdu = pdu\<rparr>"
proof -
  let ?vs = "concat (map encode_varbind (sp_varbinds pdu))"
  let ?list = "encode_tlv TAG_SEQUENCE ?vs"
  let ?ints = "encode_integer (scast (sp_request_id pdu)) @ encode_integer (scast (sp_error_status pdu)) @
      encode_integer (scast (sp_error_index pdu))"
  let ?pdu = "encode_tlv (sp_pdu_type pdu) (?ints @ ?list)"
  let ?body = "encode_integer (scast version) @ encode_tlv TAG_OCTET_STRING community @ ?pdu"
  have ints: "length ?ints \<le> 39"
    using length_encode_integer [of "scast (sp_request_id pdu)"]
      length_encode_integer [of "scast (sp_error_status pdu)"]
      length_encode_integer [of "scast (sp_error_index pdu)"] by simp
  have list: "length ?list \<le> length ?vs + 5" by (rule length_encode_tlv)
  have inner: "length (?ints @ ?list) < 16777216" using ints list assms(3) by simp
  have "length ?pdu \<le> length (?ints @ ?list) + 5" by (rule length_encode_tlv)
  moreover have "length (encode_tlv TAG_OCTET_STRING community) \<le> length community + 5"
    by (rule length_encode_tlv)
  ultimately have body: "length ?body < 16777216"
    using ints list assms(3) length_encode_integer [of "scast version"] by simp
  have vs: "length ?vs < 16777216" "length community < 16777216" using assms(3) by simp_all
  have pdu: "decode_pdu_body (sp_pdu_type pdu) (?ints @ ?list) = Inr pdu"
    using reader_expect_encoded [OF vs(1), of TAG_SEQUENCE _ "[]"]
      decode_varbinds_encoded [OF assms(1) _ vs(1), of 0] assms(2)
    by (simp add: decode_pdu_body_def reader_finished_def scast_ucast_i32)
  show ?thesis
    unfolding encode_message_def encode_octet_string_def decode_snmp_response_def
    using reader_expect_encoded [OF body, of TAG_SEQUENCE _ "[]"] pdu
      reader_tlv_encoded [OF inner, of _ "sp_pdu_type pdu" "[]"] vs(2)
    by (simp add: reader_finished_def scast_ucast_i32)
qed

lemma community_bytes:
  assumes "list_all scalar cs"
  shows "map (\<lambda>c. word_of_nat (char_code c)) (utf8_encode cs) = utf8_bytes cs"
proof -
  have "\<forall>b \<in> set (utf8_encode_nat cs). b < 256"
    using assms utf8_char_bytes scalar_small by (auto simp: utf8_encode_nat_def list_all_iff)
  then show ?thesis by (simp add: utf8_encode_def utf8_bytes_def char_code_def)
qed

text \<open>
  C33: the BER codec is exact on messages. Whatever a community in well-formed text, a version, a
  PDU type, the three integers and up to 128 varbinds of any kind are, decoding the encoded message
  gives them back; and the request the client builds is the encoding of that message with one
  varbind, the OID it asks for.
\<close>

theorem snmp_message_round_trip:
  assumes "list_all varbind_ok (sp_varbinds pdu)" and "length (sp_varbinds pdu) \<le> MAX_VARBINDS"
    and "length (concat (map encode_varbind (sp_varbinds pdu))) + length (utf8_bytes community) < 16000000"
    and "list_all scalar community"
  shows "decode_snmp_response (encode_message version (utf8_bytes community) pdu) =
       Inr \<lparr>sm_version = version, sm_community = utf8_encode community, sm_pdu = pdu\<rparr> \<and>
     build_snmp_request version (utf8_encode community) request_id pdu_type oid =
       encode_message version (utf8_bytes community)
         \<lparr>sp_pdu_type = pdu_type, sp_request_id = request_id, sp_error_status = 0, sp_error_index = 0,
          sp_varbinds = [(oid, BerNull)]\<rparr>"
  using decode_message_encoded [OF assms(1-3)] assms(4)
  by (simp add: build_snmp_request_def encode_message_def encode_varbind_def encode_octet_string_def
      community_bytes Let_def)

theorem snmp_message_round_trip_witness:
  "let pdu = \<lparr>sp_pdu_type = 0xA2, sp_request_id = 7, sp_error_status = 0, sp_error_index = 0,
         sp_varbinds = [([1, 3, 6, 1, 300], BerNull)]\<rparr>
   in decode_snmp_response (encode_message 1 (utf8_bytes [112, 117, 98]) pdu) =
       Inr \<lparr>sm_version = 1, sm_community = utf8_encode [112, 117, 98], sm_pdu = pdu\<rparr> \<and>
     build_snmp_request 1 (utf8_encode [112, 117, 98]) 7 PDU_GET_REQUEST [1, 3] =
       encode_message 1 (utf8_bytes [112, 117, 98])
         \<lparr>sp_pdu_type = PDU_GET_REQUEST, sp_request_id = 7, sp_error_status = 0, sp_error_index = 0,
          sp_varbinds = [([1, 3], BerNull)]\<rparr>"
proof -
  let ?vb = "([1, 3, 6, 1, 300], BerNull) :: oid \<times> ber_value"
  have "drop_bit 7 (300 :: u32) = 2" "drop_bit 7 (2 :: u32) = 0" by simp_all
  then have h: "length (high_septets (drop_bit 7 300)) = 1"
    by (subst high_septets.simps) (simp add: high_septets.simps [of 0])
  have "length (encode_oid [1, 3, 6, 1, 300]) \<le> 12"
    using length_encode_tlv [of TAG_OBJECT_IDENTIFIER "oid_body [1, 3, 6, 1, 300]"] h
    by (simp add: encode_oid_def oid_body_def encode_subid_def)
  then have "length (encode_varbind ?vb) < 1000"
    using length_encode_tlv [of TAG_SEQUENCE "encode_oid [1, 3, 6, 1, 300] @ encode_null"]
    by (simp add: encode_varbind_def encode_null_def)
  then show ?thesis
    unfolding Let_def
    by (intro snmp_message_round_trip)
      (simp_all add: varbind_ok_def oid_ok_def MAX_VARBINDS_def utf8_bytes_def utf8_encode_nat_def
        utf8_char_def scalar_def)
qed

section \<open>Nothing from outside\<close>

lemma sublist_of_tlv:
  assumes "reader_tlv what bs = Inr (t, v, rest)"
  shows "sublist v bs" "sublist rest bs"
proof -
  obtain head where bs: "bs = head @ v @ rest" using reader_tlv_split [OF assms] by blast
  show "sublist v bs" unfolding bs by (rule sublist_appendI)
  show "sublist rest bs" unfolding bs using sublist_appendI [of rest "head @ v" "[]"] by simp
qed

lemma sublist_of_expect:
  assumes "reader_expect t what bs = Inr (v, rest)"
  shows "sublist v bs" "sublist rest bs"
  using assms sublist_of_tlv
  by (auto simp: reader_expect_def and_then_Inr_iff split: if_splits)

lemma sublist_of_integer: "reader_integer what bs = Inr (i, rest) \<Longrightarrow> sublist rest bs"
  using sublist_of_expect by (auto simp: reader_integer_def and_then_Inr_iff)

text \<open>The bytes that a value keeps verbatim.\<close>

fun value_bytes :: "ber_value \<Rightarrow> bytes" where
  "value_bytes (BerOctetString bs) = bs"
| "value_bytes (BerUnknown t bs) = bs"
| "value_bytes _ = []"

lemma sublist_decode_value: "sublist bs data \<Longrightarrow> sublist (value_bytes (decode_value t bs)) data"
  by (simp add: decode_value_def)

lemmas sublist_trans = sublist_order.order_trans

lemma decode_varbind_inside:
  assumes "decode_varbind bs = Inr (vb, rest)"
  shows "sublist (value_bytes (snd vb)) bs" "sublist rest bs"
proof -
  obtain varbind name varbind' t v varbind'' where
      e: "reader_expect TAG_SEQUENCE ''a varbind'' bs = Inr (varbind, rest)"
      "reader_expect TAG_OBJECT_IDENTIFIER ''a varbind's OID'' varbind = Inr (name, varbind')"
      "reader_tlv ''a varbind's value'' varbind' = Inr (t, v, varbind'')"
      and vb: "vb = (decode_oid_value name, decode_value t v)"
    using assms by (auto simp: decode_varbind_def and_then_Inr_iff split: prod.splits)
  have "sublist v bs"
    using sublist_of_tlv(1) [OF e(3)] sublist_of_expect(2) [OF e(2)] sublist_of_expect(1) [OF e(1)]
      sublist_trans by blast
  then show "sublist (value_bytes (snd vb)) bs" unfolding vb by (simp add: sublist_decode_value)
  show "sublist rest bs" by (rule sublist_of_expect(2) [OF e(1)])
qed

lemma decode_varbinds_inside:
  "decode_varbinds n bs = Inr vbs \<Longrightarrow>
     n + length vbs \<le> max n MAX_VARBINDS \<and> list_all (\<lambda>vb. sublist (value_bytes (snd vb)) bs) vbs"
proof (induction n bs arbitrary: vbs rule: decode_varbinds.induct)
  case (1 n bs)
  show ?case
  proof (cases "bs = []")
    case True
    then show ?thesis using 1(2) by (subst (asm) decode_varbinds.simps) simp
  next
    case False
    then obtain vb rest vbs' where d: "decode_varbind bs = Inr (vb, rest)" "\<not> MAX_VARBINDS < Suc n"
        "decode_varbinds (Suc n) rest = Inr vbs'" "vbs = vb # vbs'"
      using 1(2) by (subst (asm) decode_varbinds.simps)
        (auto simp: and_then_Inr_iff split: if_splits)
    have "Suc n + length vbs' \<le> max (Suc n) MAX_VARBINDS \<and>
        list_all (\<lambda>vb. sublist (value_bytes (snd vb)) rest) vbs'"
      using 1(1) [OF False d(1,2)] d(3) by simp
    moreover have "list_all (\<lambda>vb. sublist (value_bytes (snd vb)) rest) vbs' \<Longrightarrow>
        list_all (\<lambda>vb. sublist (value_bytes (snd vb)) bs) vbs'"
      using decode_varbind_inside(2) [OF d(1)] sublist_trans by (auto simp: list_all_iff)
    ultimately show ?thesis using d(2,4) decode_varbind_inside(1) [OF d(1)] by (simp add: max_def)
  qed
qed

text \<open>
  A declared length is never believed past its container. In a datagram that is accepted,
  every octet string and every value of an unknown kind is a contiguous part of the datagram, and
  there are at most 128 varbinds.
\<close>

theorem snmp_values_stay_inside:
  assumes "decode_snmp_response data = Inr m"
  shows "length (sp_varbinds (sm_pdu m)) \<le> MAX_VARBINDS \<and>
     list_all (\<lambda>vb. sublist (value_bytes (snd vb)) data) (sp_varbinds (sm_pdu m))"
proof -
  obtain message outer v m1 c m2 t pdu m3 r p1 s p2 i p3 list p4 where
    e: "reader_expect TAG_SEQUENCE ''the message'' data = Inr (message, outer)"
      "reader_integer ''the version'' message = Inr (v, m1)"
      "reader_expect TAG_OCTET_STRING ''the community'' m1 = Inr (c, m2)"
      "reader_tlv ''the PDU'' m2 = Inr (t, pdu, m3)"
      "reader_integer ''the request id'' pdu = Inr (r, p1)"
      "reader_integer ''the error status'' p1 = Inr (s, p2)"
      "reader_integer ''the error index'' p2 = Inr (i, p3)"
      "reader_expect TAG_SEQUENCE ''the varbind list'' p3 = Inr (list, p4)"
      "decode_varbinds 0 list = Inr (sp_varbinds (sm_pdu m))"
    using assms
    by (auto simp: decode_snmp_response_def decode_pdu_body_def and_then_Inr_iff split: prod.splits)
  have "sublist message data" by (rule sublist_of_expect [OF e(1)])
  then have "sublist m1 data" using sublist_of_integer [OF e(2)] sublist_trans by blast
  then have "sublist m2 data" using sublist_of_expect(2) [OF e(3)] sublist_trans by blast
  then have "sublist pdu data" using sublist_of_tlv(1) [OF e(4)] sublist_trans by blast
  then have "sublist p1 data" using sublist_of_integer [OF e(5)] sublist_trans by blast
  then have "sublist p2 data" using sublist_of_integer [OF e(6)] sublist_trans by blast
  then have "sublist p3 data" using sublist_of_integer [OF e(7)] sublist_trans by blast
  then have "sublist list data" using sublist_of_expect(1) [OF e(8)] sublist_trans by blast
  then show ?thesis
    using decode_varbinds_inside [OF e(9)] sublist_trans by (auto simp: list_all_iff)
qed

theorem snmp_values_stay_inside_witness:
  "sublist [9, 8, 7] (encode_message 1 [112] \<lparr>sp_pdu_type = 0xA2, sp_request_id = 7, sp_error_status = 0,
      sp_error_index = 0, sp_varbinds = [([1, 3], BerOctetString [9, 8, 7])]\<rparr>)"
proof -
  let ?pdu = "\<lparr>sp_pdu_type = 0xA2, sp_request_id = 7, sp_error_status = 0, sp_error_index = 0,
      sp_varbinds = [([1, 3], BerOctetString [9, 8, 7])]\<rparr>"
  have "decode_snmp_response (encode_message 1 [112] ?pdu) =
      Inr \<lparr>sm_version = 1, sm_community = text_of [112], sm_pdu = ?pdu\<rparr>"
    by (rule decode_message_encoded)
      (simp_all add: varbind_ok_def oid_ok_def MAX_VARBINDS_def encode_varbind_def encode_oid_def
        encode_octet_string_def encode_tlv_def encode_length_def)
  from snmp_values_stay_inside [OF this] show ?thesis by simp
qed

section \<open>OIDs in text\<close>

lemma digit_char_code: "0 \<le> d \<Longrightarrow> d < 10 \<Longrightarrow> char_code (digit_char d) = nat d + 48"
  by (simp add: digit_char_def char_code_def)

lemma digit_char_digit: "0 \<le> d \<Longrightarrow> d < 10 \<Longrightarrow> is_ascii_digit (digit_char d)"
  by (simp add: is_ascii_digit_def digit_char_code nat_less_iff)

lemma u32_digits_decimal:
  "0 \<le> n \<Longrightarrow> n < 10 ^ f \<Longrightarrow> n < 2 ^ 32 \<Longrightarrow> 0 < f \<Longrightarrow>
     u32_digits 0 (digits_aux 10 f n @ cs) = u32_digits (nat n) cs"
proof (induction f arbitrary: n cs)
  case (Suc f)
  show ?case
  proof (cases "n < 10")
    case True
    then have "nat n < 2 ^ 32" by simp
    with True show ?thesis using Suc.prems by (simp add: digit_char_digit digit_char_code Let_def)
  next
    case False
    let ?d = "n mod 10"
    have d: "0 \<le> ?d" "?d < 10" by simp_all
    have "nat (n div 10) * 10 + nat ?d = nat n"
      using Suc.prems(1) by (simp add: nat_div_distrib nat_mod_distrib)
    moreover have "nat n < 2 ^ 32" using Suc.prems by (simp add: nat_less_iff)
    moreover have "0 < f" using False Suc.prems by (cases f) simp_all
    ultimately show ?thesis
      using False Suc.prems d Suc.IH [of "n div 10" "digit_char ?d # cs"]
      by (simp add: digit_char_digit digit_char_code Let_def)
  qed
qed simp

lemma decimal_digits: "0 \<le> n \<Longrightarrow> set (digits_aux 10 f n) \<subseteq> {c. is_ascii_digit c}"
  by (induction f arbitrary: n) (auto simp: digit_char_digit)

lemma digits_nonempty: "0 < f \<Longrightarrow> digits_aux b f n \<noteq> []"
  by (cases f) simp_all

lemma decimal_nonempty: "decimal n \<noteq> []"
  unfolding decimal_def by (rule digits_nonempty) simp

lemma u32_from_decimal: "u32_from_str (decimal (uint (w :: u32))) = Inr w"
proof -
  obtain c cs where d: "decimal (uint w) = c # cs" using decimal_nonempty by (cases "decimal (uint w)") auto
  have "is_ascii_digit c" using decimal_digits [of "uint w" 20] d by (auto simp: decimal_def)
  then have "c \<noteq> CHR ''+''" by (auto simp: is_ascii_digit_def char_code_def)
  moreover have "uint w < 2 ^ 32" using uint_lt2p [of w] by simp
  then have "u32_digits 0 (decimal (uint w)) = Inr w"
    using u32_digits_decimal [of "uint w" 20 "[]"] by (simp add: decimal_def)
  ultimately show ?thesis using d by (simp add: u32_from_str_def)
qed

lemma split_on_none: "c \<notin> set s \<Longrightarrow> split_on c s = [s]"
  by (induction s) auto

lemma split_on_append: "c \<notin> set s \<Longrightarrow> split_on c (s @ c # t) = s # split_on c t"
  by (induction s) auto

lemma split_join: "ps \<noteq> [] \<Longrightarrow> list_all (\<lambda>p. c \<notin> set p) ps \<Longrightarrow> split_on c (join_with [c] ps) = ps"
  by (induction "[c]" ps rule: join_with.induct) (simp_all add: split_on_none split_on_append)

lemma collect_Inr: "collect_results (map (\<lambda>a. Inr a) xs) = Inr xs"
  by (induction xs) simp_all

text \<open>
  An OID's text is read back as the OID, whatever its sub-identifiers are (at least two of
  them), with any number of leading dots.
\<close>

theorem oid_text_round_trip:
  assumes "2 \<le> length oid"
  shows "oid_from_str (replicate n CHR ''.'' @ oid_text oid) = Inr oid"
proof -
  let ?ps = "map (\<lambda>w. decimal (uint w)) oid"
  have dot: "CHR ''.'' \<notin> set (decimal (uint (w :: u32)))" for w
    using decimal_digits [of "uint w" 20] by (auto simp: decimal_def is_ascii_digit_def char_code_def)
  obtain a b rest where oid: "oid = a # b # rest" using assms by (cases oid; cases "tl oid") auto
  obtain c cs where c: "oid_text oid = c # cs" "c \<noteq> CHR ''.''"
    using decimal_nonempty [of "uint a"] dot [of a]
    by (cases "decimal (uint a)") (auto simp: oid_text_def oid)
  have trimmed: "dropWhile (\<lambda>c. c = CHR ''.'') (replicate n CHR ''.'' @ oid_text oid) = oid_text oid"
    using c by (induction n) simp_all
  have parts: "split_on CHR ''.'' (oid_text oid) = ?ps"
    unfolding oid_text_def using dot by (intro split_join) (auto simp: oid list_all_iff)
  have "collect_results (map u32_from_str ?ps) = Inr oid"
    using collect_Inr [of oid] by (simp add: comp_def u32_from_decimal)
  then show ?thesis
    unfolding oid_from_str_def Let_def trimmed parts using c assms by simp
qed

theorem oid_text_round_trip_witness:
  "oid_from_str (replicate 1 CHR ''.'' @ oid_text [1, 3, 6, 1, 4294967295]) = Inr [1, 3, 6, 1, 4294967295]"
  by (rule oid_text_round_trip) simp

section \<open>Where the codec is not exact\<close>

text \<open>The byte of the first two components wraps, so an OID below arc 2 is read as another one.\<close>

lemma oid_first_components_wrap: "decode_oid_value (oid_body [2, 999, 3]) = [1, 15, 3]"
  by (simp add: oid_body_def decode_oid_value_def encode_subid_def)

text \<open>A sub-identifier beyond 32 bits loses its high bits, and one that never ends is dropped.\<close>

lemma oid_subid_wraps: "decode_oid_value [0x2B, 0x90, 0x80, 0x80, 0x80, 0x00] = [1, 3, 0]"
  by (simp add: decode_oid_value_def)

lemma oid_tail_dropped: "decode_oid_value [0x2B, 0x06, 0x81] = decode_oid_value [0x2B, 0x06]"
  by (simp add: decode_oid_value_def)

end
