(* ===== verification/Usm.thy ===== *)
theory Usm
  imports Snmp_Ber
begin

text \<open>
  Keys, authentication and privacy of SNMPv3 (\<open>src/src/probes/usm.rs\<close>). The primitives are other
  crates: SHA-256, HMAC-SHA-256 and AES-128-CFB are the fields of \<open>usm_ops\<close>, and feeding a hasher in
  parts is hashing their concatenation. A secret (\<open>src/src/secret.rs\<close>) is its bytes.
\<close>

record usm_ops =
  sha256 :: "bytes \<Rightarrow> bytes"
  hmac_sha256 :: "bytes \<Rightarrow> bytes \<Rightarrow> bytes"
  aes_cfb_encrypt :: "bytes \<Rightarrow> bytes \<Rightarrow> bytes \<Rightarrow> bytes"
  aes_cfb_decrypt :: "bytes \<Rightarrow> bytes \<Rightarrow> bytes \<Rightarrow> bytes"

datatype auth_protocol = HmacSha256

fun tag_len :: "auth_protocol \<Rightarrow> nat" where
  "tag_len HmacSha256 = 24"

fun auth_protocol_label :: "auth_protocol \<Rightarrow> string" where
  "auth_protocol_label HmacSha256 = ''usmHMAC192SHA256AuthProtocol''"

datatype priv_protocol = AesCfb128

fun priv_protocol_label :: "priv_protocol \<Rightarrow> string" where
  "priv_protocol_label AesCfb128 = ''usmAesCfb128PrivProtocol''"

datatype security_level = AuthNoPriv | AuthPriv

fun security_level_flags :: "security_level \<Rightarrow> u8" where
  "security_level_flags AuthNoPriv = 0x01"
| "security_level_flags AuthPriv = 0x03"

fun security_level_label :: "security_level \<Rightarrow> string" where
  "security_level_label AuthNoPriv = ''authNoPriv''"
| "security_level_label AuthPriv = ''authPriv''"

section \<open>Keys\<close>

definition MIN_PASSPHRASE_OCTETS :: nat where "MIN_PASSPHRASE_OCTETS = 8"
definition EXPANDED :: nat where "EXPANDED = 1048576"

text \<open>What the loop feeds to the hasher: the passphrase again and again, \<open>n\<close> octets of it.\<close>

function expand_passphrase :: "bytes \<Rightarrow> nat \<Rightarrow> bytes" where
  "expand_passphrase password n =
     (if n = 0 \<or> password = [] then []
      else
        let k = min n (length password)
        in take k password @ expand_passphrase password (n - k))"
  by pat_completeness auto

termination expand_passphrase
  by (relation "measure snd") auto

declare expand_passphrase.simps [simp del]

definition password_to_key :: "usm_ops \<Rightarrow> bytes \<Rightarrow> auth_protocol \<Rightarrow> bytes outcome" where
  "password_to_key ops passphrase protocol =
     (if length passphrase < MIN_PASSPHRASE_OCTETS
      then Inl (''passphrase shorter than the '' @ decimal (int MIN_PASSPHRASE_OCTETS) @
                '' octets RFC 3414 requires'')
      else Inr (sha256 ops (expand_passphrase passphrase EXPANDED)))"

definition localize_key :: "usm_ops \<Rightarrow> bytes \<Rightarrow> bytes \<Rightarrow> auth_protocol \<Rightarrow> bytes" where
  "localize_key ops master engine_id protocol = sha256 ops (master @ engine_id @ master)"

definition derive_auth_key :: "usm_ops \<Rightarrow> bytes \<Rightarrow> bytes \<Rightarrow> auth_protocol \<Rightarrow> bytes outcome" where
  "derive_auth_key ops auth_passphrase engine_id protocol =
     and_then (password_to_key ops auth_passphrase protocol) (\<lambda>master.
       Inr (localize_key ops master engine_id protocol))"

definition derive_privacy_key ::
    "usm_ops \<Rightarrow> bytes \<Rightarrow> bytes \<Rightarrow> auth_protocol \<Rightarrow> priv_protocol \<Rightarrow> bytes outcome" where
  "derive_privacy_key ops privacy_passphrase engine_id auth_protocol privacy_protocol =
     and_then (password_to_key ops privacy_passphrase auth_protocol) (\<lambda>master.
       Inr (take 16 (localize_key ops master engine_id auth_protocol)))"

section \<open>Authentication and privacy\<close>

definition authenticate :: "usm_ops \<Rightarrow> bytes \<Rightarrow> bytes \<Rightarrow> auth_protocol \<Rightarrow> bytes" where
  "authenticate ops key message protocol = take (tag_len protocol) (hmac_sha256 ops key message)"

definition verify_tag :: "usm_ops \<Rightarrow> bytes \<Rightarrow> bytes \<Rightarrow> bytes \<Rightarrow> auth_protocol \<Rightarrow> bool" where
  "verify_tag ops key message claimed protocol =
     (if length claimed \<noteq> tag_len protocol then False
      else authenticate ops key message protocol = claimed)"

definition privacy_iv :: "u32 \<Rightarrow> u32 \<Rightarrow> bytes \<Rightarrow> bytes" where
  "privacy_iv engine_boots engine_time salt = u32_bytes engine_boots @ u32_bytes engine_time @ salt"

definition encrypt :: "usm_ops \<Rightarrow> bytes \<Rightarrow> u32 \<Rightarrow> u32 \<Rightarrow> bytes \<Rightarrow> bytes \<Rightarrow> bytes outcome" where
  "encrypt ops key engine_boots engine_time salt plaintext =
     (if length key \<noteq> 16 then Inl ''the privacy key is not 128 bits''
      else Inr (aes_cfb_encrypt ops key (privacy_iv engine_boots engine_time salt) plaintext))"

definition decrypt :: "usm_ops \<Rightarrow> bytes \<Rightarrow> u32 \<Rightarrow> u32 \<Rightarrow> bytes \<Rightarrow> bytes \<Rightarrow> bytes outcome" where
  "decrypt ops key engine_boots engine_time salt ciphertext =
     (if length key \<noteq> 16 then Inl ''the privacy key is not 128 bits''
      else Inr (aes_cfb_decrypt ops key (privacy_iv engine_boots engine_time salt) ciphertext))"

section \<open>The expansion\<close>

text \<open>
  The megabyte that is hashed is the passphrase repeated: octet \<open>i\<close> of it is octet \<open>i\<close> of the
  passphrase, counted around.
\<close>

lemma expand_passphrase_is_cyclic:
  "password \<noteq> [] \<Longrightarrow>
     length (expand_passphrase password n) = n \<and>
     (\<forall>i < n. expand_passphrase password n ! i = password ! (i mod length password))"
proof (induction password n rule: expand_passphrase.induct)
  case (1 password n)
  show ?case
  proof (cases "n = 0")
    case True
    then show ?thesis by (subst expand_passphrase.simps, subst expand_passphrase.simps) simp
  next
    case False
    let ?k = "min n (length password)"
    have e: "expand_passphrase password n = take ?k password @ expand_passphrase password (n - ?k)"
      using False 1(2) by (subst expand_passphrase.simps) (simp add: Let_def)
    have IH: "length (expand_passphrase password (n - ?k)) = n - ?k"
        "\<And>i. i < n - ?k \<Longrightarrow> expand_passphrase password (n - ?k) ! i = password ! (i mod length password)"
      using 1(1) [OF _ refl 1(2)] False 1(2) by simp_all
    have "expand_passphrase password n ! i = password ! (i mod length password)" if "i < n" for i
    proof (cases "i < ?k")
      case True
      then show ?thesis unfolding e by (simp add: nth_append)
    next
      case False
      then have k: "?k = length password" "i - length password < n - length password"
        using that by auto
      have "(i - length password) mod length password = i mod length password"
        using False k by (simp add: le_mod_geq)
      then show ?thesis unfolding e using False IH(2) [of "i - ?k"] k by (simp add: nth_append)
    qed
    moreover have "length (expand_passphrase password n) = n" unfolding e using IH(1) by simp
    ultimately show ?thesis by blast
  qed
qed

lemma privacy_iv_inject:
  "length salt = length salt' \<Longrightarrow>
     privacy_iv boots time salt = privacy_iv boots' time' salt' \<longleftrightarrow>
     boots = boots' \<and> time = time' \<and> salt = salt'"
  by (auto simp: privacy_iv_def u32_bytes_def) (metis be32_bytes)+

end
