(* ===== verification/Snmp_V3.thy ===== *)
theory Snmp_V3
  imports Snmp_Codec Usm
begin

text \<open>
  The SNMPv3 message layer (\<open>src/src/probes/snmp_v3.rs\<close>): the encoder that tracks where the digest
  belongs, the decoder that locates every field in the datagram it arrived in, and the Report
  classes. A range of the code is a pair of offsets.
\<close>

section \<open>Messages\<close>

record scoped_pdu =
  sc_context_engine_id :: bytes
  sc_context_name :: bytes
  sc_pdu :: snmp_pdu

record usm_parameters =
  up_engine_id :: bytes
  up_engine_boots :: u32
  up_engine_time :: u32
  up_user_name :: bytes
  up_authentication :: bytes
  up_privacy :: bytes

text \<open>A decoded message: the datagram it was read from, and where in it two fields are.\<close>

record decoded_message =
  dm_datagram :: bytes
  dm_message_id :: "32 word"
  dm_flags :: u8
  dm_security_model :: "64 word"
  dm_usm :: usm_parameters
  dm_authentication_range :: "nat \<times> nat"
  dm_scoped_pdu :: "nat \<times> nat"
  dm_encrypted :: bool

datatype report_reason =
    UnknownEngineId | UnknownUserName | UnsupportedSecurityLevel | WrongDigest | NotInTimeWindow
  | DecryptionError | UnknownSecurityModel | InvalidMessage | OtherReport

definition PDU_REPORT :: u8 where "PDU_REPORT = 0xA8"

definition report_reason_from_oid :: "oid \<Rightarrow> report_reason" where
  "report_reason_from_oid oid =
     (if oid = [1, 3, 6, 1, 6, 3, 15, 1, 1, 1, 0] then UnsupportedSecurityLevel
      else if oid = [1, 3, 6, 1, 6, 3, 15, 1, 1, 2, 0] then NotInTimeWindow
      else if oid = [1, 3, 6, 1, 6, 3, 15, 1, 1, 3, 0] then UnknownUserName
      else if oid = [1, 3, 6, 1, 6, 3, 15, 1, 1, 4, 0] then UnknownEngineId
      else if oid = [1, 3, 6, 1, 6, 3, 15, 1, 1, 5, 0] then WrongDigest
      else if oid = [1, 3, 6, 1, 6, 3, 15, 1, 1, 6, 0] then DecryptionError
      else if oid = [1, 3, 6, 1, 6, 3, 11, 2, 1, 1, 0] then UnknownSecurityModel
      else if oid = [1, 3, 6, 1, 6, 3, 11, 2, 1, 2, 0] then InvalidMessage
      else OtherReport)"

definition MIN_ENGINE_ID :: nat where "MIN_ENGINE_ID = 5"
definition MAX_ENGINE_ID :: nat where "MAX_ENGINE_ID = 32"

record provisional_engine =
  pe_engine_id :: bytes
  pe_boots :: u32
  pe_time :: u32
  pe_reason :: "report_reason option"

definition provisional_from_message ::
    "decoded_message \<Rightarrow> report_reason option \<Rightarrow> string + provisional_engine" where
  "provisional_from_message m reason =
     (let engine_id = up_engine_id (dm_usm m) in
      if \<not> (MIN_ENGINE_ID \<le> length engine_id \<and> length engine_id \<le> MAX_ENGINE_ID)
      then Inl (''discovery returned a '' @ decimal (int (length engine_id)) @
                ''-octet engine ID; RFC 3411 defines 5..=32'')
      else Inr \<lparr>pe_engine_id = engine_id, pe_boots = up_engine_boots (dm_usm m),
                pe_time = up_engine_time (dm_usm m), pe_reason = reason\<rparr>)"

section \<open>Invariants of both directions\<close>

definition VERSION_3 :: "64 word" where "VERSION_3 = 3"
definition SECURITY_MODEL_USM :: "64 word" where "SECURITY_MODEL_USM = 3"
definition MAX_MESSAGE_BYTES :: nat where "MAX_MESSAGE_BYTES = 8192"
definition MAX_COUNTER :: int where "MAX_COUNTER = 2147483647"
definition MIN_MAX_SIZE :: int where "MIN_MAX_SIZE = 484"
definition MAX_USER_NAME :: nat where "MAX_USER_NAME = 32"
definition AES_SALT_LEN :: nat where "AES_SALT_LEN = 8"
definition FLAG_AUTH :: u8 where "FLAG_AUTH = 0x01"
definition FLAG_PRIV :: u8 where "FLAG_PRIV = 0x02"
definition FLAG_REPORTABLE :: u8 where "FLAG_REPORTABLE = 0x04"

definition check_message_invariants ::
    "int \<Rightarrow> int \<Rightarrow> u8 \<Rightarrow> 64 word \<Rightarrow> usm_parameters \<Rightarrow> unit outcome" where
  "check_message_invariants message_id max_size flags security_model usm =
     (let authenticated = (flags AND FLAG_AUTH \<noteq> 0); encrypted = (flags AND FLAG_PRIV \<noteq> 0);
          expected_auth = (if authenticated then tag_len HmacSha256 else 0);
          expected_priv = (if encrypted then AES_SALT_LEN else 0)
      in if \<not> (0 \<le> message_id \<and> message_id \<le> MAX_COUNTER)
         then Inl ''msgID outside the range RFC 3412 defines''
         else if \<not> (MIN_MAX_SIZE \<le> max_size \<and> max_size \<le> MAX_COUNTER)
         then Inl (''msgMaxSize '' @ signed_decimal max_size @ '' outside the 484..=2^31-1 RFC 3412 defines'')
         else if security_model \<noteq> SECURITY_MODEL_USM
         then Inl (''security model '' @ signed_decimal (sint security_model) @
                   '' is not the User-based Security Model'')
         else if encrypted \<and> \<not> authenticated then Inl ''msgFlags claims privacy without authentication''
         else if MAX_USER_NAME < length (up_user_name usm)
         then Inl ''msgUserName is longer than the 32 octets USM defines''
         else if \<not> (uint (up_engine_boots usm) \<le> MAX_COUNTER) \<or> \<not> (uint (up_engine_time usm) \<le> MAX_COUNTER)
         then Inl ''engine boots or time outside the range RFC 3414 defines''
         else if length (up_authentication usm) \<noteq> expected_auth
         then Inl (''msgAuthenticationParameters is '' @ decimal (int (length (up_authentication usm))) @
                   '' octet(s) where '' @ decimal (int expected_auth) @ '' were required'')
         else if length (up_privacy usm) \<noteq> expected_priv
         then Inl (''msgPrivacyParameters is '' @ decimal (int (length (up_privacy usm))) @
                   '' octet(s) where '' @ decimal (int expected_priv) @ '' were required'')
         else if authenticated \<and>
                 \<not> (MIN_ENGINE_ID \<le> length (up_engine_id usm) \<and> length (up_engine_id usm) \<le> MAX_ENGINE_ID)
         then Inl (''an authenticated message carries a '' @ decimal (int (length (up_engine_id usm))) @
                   ''-octet engine ID; RFC 3411 defines 5..=32'')
         else if authenticated \<and> up_user_name usm = [] then Inl ''an authenticated message names no user''
         else Inr ())"

datatype level = Discovery | Secured security_level

definition level_flags :: "level \<Rightarrow> bool \<Rightarrow> u8" where
  "level_flags l reportable =
     (case l of Discovery \<Rightarrow> 0 | Secured s \<Rightarrow> security_level_flags s) OR
     (if reportable then FLAG_REPORTABLE else 0)"

definition level_authenticated :: "level \<Rightarrow> bool" where
  "level_authenticated l \<longleftrightarrow> l \<noteq> Discovery"

definition level_encrypted :: "level \<Rightarrow> bool" where
  "level_encrypted l \<longleftrightarrow> l = Secured AuthPriv"

section \<open>Encoding\<close>

record encoded =
  en_bytes :: bytes
  en_authentication_range :: "nat \<times> nat"

definition usm_default :: usm_parameters where
  "usm_default =
     \<lparr>up_engine_id = [], up_engine_boots = 0, up_engine_time = 0, up_user_name = [],
      up_authentication = [], up_privacy = []\<rparr>"

definition encode_v3_message ::
    "32 word \<Rightarrow> level \<Rightarrow> bool \<Rightarrow> usm_parameters \<Rightarrow> bytes \<Rightarrow> encoded outcome" where
  "encode_v3_message message_id l reportable usm scoped_pdu =
     (let encrypted = level_encrypted l; flags = level_flags l reportable;
          auth_len = (if level_authenticated l then tag_len HmacSha256 else 0);
          outgoing = usm\<lparr>up_authentication := replicate auth_len 0\<rparr>
      in and_then (check_message_invariants (sint message_id) (int MAX_MESSAGE_BYTES) flags
                     SECURITY_MODEL_USM outgoing) (\<lambda>_.
         if up_authentication usm \<noteq> []
         then Inl ''the digest is written by sign(), not supplied to the encoder''
         else
           let header = encode_tlv TAG_SEQUENCE
                 (encode_integer (scast message_id) @ encode_integer (word_of_nat MAX_MESSAGE_BYTES) @
                  encode_octet_string [flags] @ encode_integer SECURITY_MODEL_USM);
               before = encode_octet_string (up_engine_id usm) @ encode_integer (ucast (up_engine_boots usm)) @
                  encode_integer (ucast (up_engine_time usm)) @ encode_octet_string (up_user_name usm);
               auth_header = encode_octet_string (replicate auth_len 0);
               auth_offset_in_usm_body = length before + (length auth_header - auth_len);
               usm_body = before @ auth_header @ encode_octet_string (up_privacy usm);
               usm_sequence = encode_tlv TAG_SEQUENCE usm_body;
               usm_octets = encode_octet_string usm_sequence;
               usm_prefix = (length usm_octets - length usm_sequence) + (length usm_sequence - length usm_body);
               data = (if encrypted then encode_octet_string scoped_pdu else scoped_pdu);
               start_body = encode_integer VERSION_3 @ header;
               body = start_body @ usm_octets @ data;
               message = encode_tlv TAG_SEQUENCE body;
               body_offset = length message - length body;
               start = body_offset + length start_body + usm_prefix + auth_offset_in_usm_body
           in if MAX_MESSAGE_BYTES < length message
              then Inl (''the encoded message is '' @ decimal (int (length message)) @
                        '' octets, beyond the 8192-octet limit this declares'')
              else Inr \<lparr>en_bytes = message,
                        en_authentication_range = (if auth_len = 0 then (0, 0) else (start, start + auth_len))\<rparr>))"

text \<open>\<open>copy_from_slice\<close> and \<open>fill\<close> on a range.\<close>

definition splice :: "bytes \<Rightarrow> nat \<times> nat \<Rightarrow> bytes \<Rightarrow> bytes" where
  "splice bs r v = take (fst r) bs @ v @ drop (snd r) bs"

definition slice :: "bytes \<Rightarrow> nat \<times> nat \<Rightarrow> bytes" where
  "slice bs r = take (snd r - fst r) (drop (fst r) bs)"

definition sign :: "usm_ops \<Rightarrow> bytes \<Rightarrow> auth_protocol \<Rightarrow> encoded \<Rightarrow> bytes outcome" where
  "sign ops key protocol e =
     (let (s, t) = en_authentication_range e in
      if t \<le> s then Inl ''an unauthenticated message has no digest field to sign''
      else if t - s \<noteq> tag_len protocol
      then Inl ''the digest field is not the length this protocol produces''
      else Inr (splice (en_bytes e) (s, t) (authenticate ops key (en_bytes e) protocol)))"

definition encode_scoped_pdu :: "bytes \<Rightarrow> bytes \<Rightarrow> u8 \<Rightarrow> 32 word \<Rightarrow> oid \<Rightarrow> bytes" where
  "encode_scoped_pdu context_engine_id context_name pdu_type request_id oid =
     (let varbind = encode_tlv TAG_SEQUENCE (encode_oid oid @ encode_null);
          varbinds = encode_tlv TAG_SEQUENCE varbind;
          pdu = encode_tlv pdu_type
                  (encode_integer (scast request_id) @ encode_integer 0 @ encode_integer 0 @ varbinds)
      in encode_tlv TAG_SEQUENCE
           (encode_octet_string context_engine_id @ encode_octet_string context_name @ pdu))"

definition discovery_request :: "32 word \<Rightarrow> 32 word \<Rightarrow> encoded outcome" where
  "discovery_request message_id request_id =
     encode_v3_message message_id Discovery True usm_default
       (encode_scoped_pdu [] [] PDU_GET_REQUEST request_id [1, 3, 6, 1, 2, 1, 1, 1, 0])"

section \<open>Decoding\<close>

definition decode_scoped_pdu :: "bytes \<Rightarrow> scoped_pdu outcome" where
  "decode_scoped_pdu bs =
     and_then (reader_expect TAG_SEQUENCE ''the scoped PDU'' bs) (\<lambda>(scoped, outer).
     and_then (reader_finished ''the scoped PDU'' outer) (\<lambda>_.
     and_then (reader_expect TAG_OCTET_STRING ''contextEngineID'' scoped) (\<lambda>(context_engine_id, scoped).
     and_then (reader_expect TAG_OCTET_STRING ''contextName'' scoped) (\<lambda>(context_name, scoped).
     and_then (reader_tlv ''the PDU'' scoped) (\<lambda>(pdu_type, pdu, scoped).
     and_then (reader_finished ''the scoped PDU'' scoped) (\<lambda>_.
     and_then (decode_pdu_body pdu_type pdu) (\<lambda>decoded.
       Inr \<lparr>sc_context_engine_id = context_engine_id, sc_context_name = context_name,
            sc_pdu = decoded\<rparr>)))))))"

text \<open>A TLV at an absolute offset: its tag and the range of its content, where the next one begins.\<close>

record located_tlv =
  lt_tag :: u8
  lt_start :: nat
  lt_end :: nat

abbreviation lt_content :: "located_tlv \<Rightarrow> nat \<times> nat" where
  "lt_content t \<equiv> (lt_start t, lt_end t)"

definition read_tlv :: "bytes \<Rightarrow> nat \<Rightarrow> nat \<Rightarrow> string \<Rightarrow> located_tlv outcome" where
  "read_tlv bs at limit what =
     (if limit \<le> at \<or> length bs < limit then Inl (what @ '': no bytes where one was expected'')
      else if limit \<le> at + 1 then Inl (what @ '': length byte missing'')
      else
        let tag = bs ! at; first = bs ! (at + 1); cursor = at + 2
        in and_then
             (if first AND 0x80 = 0 then Inr (unat first, cursor)
              else
                let count = unat (first AND 0x7F)
                in if count = 0 \<or> 4 < count then Inl (what @ '': unsupported length form'')
                   else if limit < cursor + count then Inl (what @ '': truncated length'')
                   else Inr (foldl (\<lambda>len b. len * 256 + unat b) 0 (take count (drop cursor bs)), cursor + count))
             (\<lambda>(len, cursor).
                if limit < cursor + len then Inl (what @ '': declared length runs past its container'')
                else Inr \<lparr>lt_tag = tag, lt_start = cursor, lt_end = cursor + len\<rparr>))"

definition expect_tlv :: "bytes \<Rightarrow> nat \<Rightarrow> nat \<Rightarrow> u8 \<Rightarrow> string \<Rightarrow> located_tlv outcome" where
  "expect_tlv bs at limit tag what =
     and_then (read_tlv bs at limit what) (\<lambda>t.
       if lt_tag t \<noteq> tag
       then Inl (what @ '': tag '' @ hex_literal (lt_tag t) @ '' where '' @ hex_literal tag @ '' was required'')
       else Inr t)"

definition read_integer :: "bytes \<Rightarrow> located_tlv \<Rightarrow> string \<Rightarrow> (64 word) outcome" where
  "read_integer bs t what =
     (let raw = slice bs (lt_content t)
      in if raw = [] \<or> 8 < length raw
         then Inl (what @ '': integer of '' @ decimal (int (length raw)) @ '' octet(s)'')
         else Inr (foldl (\<lambda>v b. push_bit 8 v OR ucast b) (if hd raw AND 0x80 \<noteq> 0 then -1 else 0) raw))"

definition decode_v3_message :: "bytes \<Rightarrow> decoded_message outcome" where
  "decode_v3_message datagram =
     (if MAX_MESSAGE_BYTES < length datagram then Inl ''message exceeds the 8192-byte bound this reads''
      else
        let limit = length datagram in
        and_then (expect_tlv datagram 0 limit TAG_SEQUENCE ''the message'') (\<lambda>message.
        if lt_end message \<noteq> limit then Inl ''trailing bytes after the message''
        else
        let inside = lt_end message in
        and_then (expect_tlv datagram (lt_start message) inside TAG_INTEGER ''msgVersion'') (\<lambda>version_tlv.
        and_then (read_integer datagram version_tlv ''msgVersion'') (\<lambda>version.
        if version \<noteq> VERSION_3
        then Inl (''message declared version '' @ signed_decimal (sint version) @ '', not 3'')
        else
        and_then (expect_tlv datagram (lt_end version_tlv) inside TAG_SEQUENCE ''msgGlobalData'') (\<lambda>header.
        let header_end = lt_end header in
        and_then (expect_tlv datagram (lt_start header) header_end TAG_INTEGER ''msgID'') (\<lambda>id_tlv.
        and_then (read_integer datagram id_tlv ''msgID'') (\<lambda>message_id.
        and_then (expect_tlv datagram (lt_end id_tlv) header_end TAG_INTEGER ''msgMaxSize'') (\<lambda>max_size.
        and_then (expect_tlv datagram (lt_end max_size) header_end TAG_OCTET_STRING ''msgFlags'') (\<lambda>flags_tlv.
        if lt_end flags_tlv - lt_start flags_tlv \<noteq> 1 then Inl ''msgFlags is not a single octet''
        else
        let flags = datagram ! lt_start flags_tlv in
        and_then (expect_tlv datagram (lt_end flags_tlv) header_end TAG_INTEGER ''msgSecurityModel'') (\<lambda>model_tlv.
        and_then (read_integer datagram model_tlv ''msgSecurityModel'') (\<lambda>security_model.
        if lt_end model_tlv \<noteq> header_end then Inl ''trailing bytes in msgGlobalData''
        else
        and_then (read_integer datagram max_size ''msgMaxSize'') (\<lambda>max_size_value.
        if security_model \<noteq> SECURITY_MODEL_USM
        then Inl (''security model '' @ signed_decimal (sint security_model) @
                  '' is not the User-based Security Model'')
        else
        and_then (expect_tlv datagram (lt_end header) inside TAG_OCTET_STRING ''msgSecurityParameters'') (\<lambda>params.
        let params_end = lt_end params in
        and_then (expect_tlv datagram (lt_start params) params_end TAG_SEQUENCE ''usmSecurityParameters'') (\<lambda>usm_seq.
        let usm_end = lt_end usm_seq in
        and_then (expect_tlv datagram (lt_start usm_seq) usm_end TAG_OCTET_STRING ''msgAuthoritativeEngineID'') (\<lambda>engine_tlv.
        and_then (expect_tlv datagram (lt_end engine_tlv) usm_end TAG_INTEGER ''msgAuthoritativeEngineBoots'') (\<lambda>boots_tlv.
        and_then (expect_tlv datagram (lt_end boots_tlv) usm_end TAG_INTEGER ''msgAuthoritativeEngineTime'') (\<lambda>time_tlv.
        and_then (expect_tlv datagram (lt_end time_tlv) usm_end TAG_OCTET_STRING ''msgUserName'') (\<lambda>user_tlv.
        and_then (expect_tlv datagram (lt_end user_tlv) usm_end TAG_OCTET_STRING ''msgAuthenticationParameters'') (\<lambda>auth_tlv.
        and_then (expect_tlv datagram (lt_end auth_tlv) usm_end TAG_OCTET_STRING ''msgPrivacyParameters'') (\<lambda>priv_tlv.
        if lt_end priv_tlv \<noteq> usm_end \<or> lt_end usm_seq \<noteq> params_end
        then Inl ''trailing bytes in the security parameters''
        else
        and_then (read_integer datagram boots_tlv ''msgAuthoritativeEngineBoots'') (\<lambda>boots.
        and_then (read_integer datagram time_tlv ''msgAuthoritativeEngineTime'') (\<lambda>time.
        if \<not> (0 \<le> sint boots \<and> sint boots \<le> MAX_COUNTER) \<or> \<not> (0 \<le> sint time \<and> sint time \<le> MAX_COUNTER)
        then Inl ''engine boots or time outside the range RFC 3414 defines''
        else
        let usm = \<lparr>up_engine_id = slice datagram (lt_content engine_tlv), up_engine_boots = ucast boots,
                   up_engine_time = ucast time, up_user_name = slice datagram (lt_content user_tlv),
                   up_authentication = slice datagram (lt_content auth_tlv),
                   up_privacy = slice datagram (lt_content priv_tlv)\<rparr> in
        and_then (check_message_invariants (sint message_id) (sint max_size_value) flags security_model usm) (\<lambda>_.
        and_then (read_tlv datagram (lt_end params) inside ''msgData'') (\<lambda>data.
        if lt_end data \<noteq> inside then Inl ''trailing bytes after msgData''
        else
        let encrypted = (flags AND FLAG_PRIV \<noteq> 0) in
        and_then (if encrypted \<and> lt_tag data = TAG_OCTET_STRING then Inr (lt_content data)
                  else if \<not> encrypted \<and> lt_tag data = TAG_SEQUENCE then Inr (lt_end params, lt_end data)
                  else Inl ''msgData does not match the privacy flag'') (\<lambda>scoped.
        if \<not> (- (2 ^ 31) \<le> sint message_id \<and> sint message_id < 2 ^ 31) then Inl ''msgID out of range''
        else Inr \<lparr>dm_datagram = datagram, dm_message_id = ucast message_id, dm_flags = flags,
                  dm_security_model = security_model, dm_usm = usm,
                  dm_authentication_range = lt_content auth_tlv, dm_scoped_pdu = scoped,
                  dm_encrypted = encrypted\<rparr>)))))))))))))))))))))))))"

definition message_reportable :: "decoded_message \<Rightarrow> bool" where
  "message_reportable m \<longleftrightarrow> dm_flags m AND FLAG_REPORTABLE \<noteq> 0"

definition message_authenticated :: "decoded_message \<Rightarrow> bool" where
  "message_authenticated m \<longleftrightarrow> dm_flags m AND FLAG_AUTH \<noteq> 0"

definition scoped_pdu_bytes :: "decoded_message \<Rightarrow> bytes" where
  "scoped_pdu_bytes m = slice (dm_datagram m) (dm_scoped_pdu m)"

definition verify_message :: "usm_ops \<Rightarrow> bytes \<Rightarrow> auth_protocol \<Rightarrow> decoded_message \<Rightarrow> bool" where
  "verify_message ops key protocol m =
     (let (s, t) = dm_authentication_range m in
      if t - s \<noteq> tag_len protocol then False
      else verify_tag ops key (splice (dm_datagram m) (s, t) (replicate (t - s) 0))
             (up_authentication (dm_usm m)) protocol)"

fun report_reason_describe :: "report_reason \<Rightarrow> string" where
  "report_reason_describe UnknownEngineId =
     ''the agent is not authoritative for the engine ID used (expected during discovery)''"
| "report_reason_describe UnknownUserName = ''the agent does not know the configured user''"
| "report_reason_describe UnsupportedSecurityLevel =
     ''the agent does not accept that user at the requested security level''"
| "report_reason_describe WrongDigest =
     ''the agent rejected the message digest; the authentication key or protocol does not match what it holds''"
| "report_reason_describe NotInTimeWindow =
     ''the message fell outside the agent's time window; one resynchronisation follows''"
| "report_reason_describe DecryptionError =
     ''the agent could not decrypt the message; the privacy key or protocol does not match what it holds''"
| "report_reason_describe UnknownSecurityModel = ''the agent does not implement the User-based Security Model''"
| "report_reason_describe InvalidMessage = ''the agent rejected the message as malformed''"
| "report_reason_describe OtherReport = ''the agent reported a condition this client does not classify''"

end
