(* ===== verification/Usm_State.thy ===== *)
theory Usm_State
  imports Snmp_V3
begin

text \<open>
  Timeliness and correlation of SNMPv3 exchanges (\<open>src/src/probes/usm_state.rs\<close>), with the salts
  of \<open>src/src/probes/usm.rs\<close>. An \<open>Instant\<close> is a number of nanoseconds, and an operation that reads
  the monotonic clock takes the reading as its argument \<open>now\<close>; the randomness the operating system
  gives is an argument too.
\<close>

section \<open>Salts\<close>

record salt_source =
  ss_counter :: u64
  ss_issued :: u64

definition salt_seeded :: "u64 \<Rightarrow> salt_source" where
  "salt_seeded seed = \<lparr>ss_counter = seed, ss_issued = 0\<rparr>"

text \<open>What the operating system answers, an error or eight bytes, is the argument.\<close>

definition salt_new :: "string + u64 \<Rightarrow> string + salt_source" where
  "salt_new randomness =
     (case randomness of
        Inl error \<Rightarrow> Inl (''no randomness available for privacy salts: '' @ error)
      | Inr seed \<Rightarrow> Inr (salt_seeded seed))"

definition take_salt :: "salt_source \<Rightarrow> (string + bytes) \<times> salt_source" where
  "take_salt s =
     (if ss_issued s = 0xFFFFFFFFFFFFFFFF
      then (Inl ''the privacy salt sequence for this engine is exhausted'', s)
      else let c = ss_counter s + 1
           in (Inr (be_bytes 8 c), \<lparr>ss_counter = c, ss_issued = ss_issued s + 1\<rparr>))"

section \<open>Engine state\<close>

definition TIME_WINDOW_SECONDS :: int where "TIME_WINDOW_SECONDS = 150"
definition BOOTS_CEILING :: u32 where "BOOTS_CEILING = 2147483647"

datatype timeliness = InWindow | Outside | Unusable

record engine_state =
  es_engine_id :: bytes
  es_boots :: u32
  es_synchronised_time :: u32
  es_recorded_at :: int
  es_highest_time :: u32
  es_confirmed :: bool
  es_salts :: salt_source

definition from_discovery :: "string + u64 \<Rightarrow> int \<Rightarrow> provisional_engine \<Rightarrow> string + engine_state" where
  "from_discovery randomness now e =
     (case salt_new randomness of
        Inl error \<Rightarrow> Inl error
      | Inr salts \<Rightarrow>
          Inr \<lparr>es_engine_id = pe_engine_id e, es_boots = pe_boots e, es_synchronised_time = pe_time e,
               es_recorded_at = now, es_highest_time = pe_time e, es_confirmed = False,
               es_salts = salts\<rparr>)"

text \<open>\<open>Instant::elapsed().as_secs()\<close>; an earlier reading counts as no time.\<close>

definition elapsed_secs :: "int \<Rightarrow> int \<Rightarrow> int" where
  "elapsed_secs now since = max 0 (now - since) div 1000000000"

definition estimated_time :: "int \<Rightarrow> engine_state \<Rightarrow> u32" where
  "estimated_time now s =
     (let v = min (2 ^ 64 - 1) (uint (es_synchronised_time s) + elapsed_secs now (es_recorded_at s))
      in min (if v < 2 ^ 32 then word_of_int v else BOOTS_CEILING) BOOTS_CEILING)"

definition next_salt :: "engine_state \<Rightarrow> (string + bytes) \<times> engine_state" where
  "next_salt s = (let (r, salts) = take_salt (es_salts s) in (r, s\<lparr>es_salts := salts\<rparr>))"

definition timely :: "int \<Rightarrow> engine_state \<Rightarrow> u32 \<Rightarrow> u32 \<Rightarrow> timeliness" where
  "timely now s message_boots message_time =
     (if message_boots = BOOTS_CEILING \<or> es_boots s = BOOTS_CEILING then Unusable
      else if message_boots < es_boots s then Outside
      else if message_boots > es_boots s then Outside
      else
        let estimate = uint (estimated_time now s); reported = uint message_time
        in if reported < estimate - TIME_WINDOW_SECONDS then Outside
           else if reported > estimate + TIME_WINDOW_SECONDS then Outside
           else InWindow)"

definition absorb_authenticated :: "int \<Rightarrow> u32 \<Rightarrow> u32 \<Rightarrow> engine_state \<Rightarrow> engine_state" where
  "absorb_authenticated now message_boots message_time s =
     (if message_boots < es_boots s then s
      else
        (if message_boots > es_boots s
         then s\<lparr>es_boots := message_boots, es_synchronised_time := message_time,
                es_recorded_at := now, es_highest_time := message_time\<rparr>
         else if message_time > es_highest_time s
         then s\<lparr>es_synchronised_time := message_time, es_recorded_at := now,
                es_highest_time := message_time\<rparr>
         else s)\<lparr>es_confirmed := True\<rparr>)"

section \<open>Correlation\<close>

type_synonym socket_v4 = "32 word \<times> u16"

record expectation =
  ex_source :: socket_v4
  ex_engine_id :: bytes
  ex_message_id :: "32 word"
  ex_request_id :: "32 word"
  ex_pdu_type :: u8
  ex_oid :: "oid option"

datatype refusal =
    WrongSource | WrongEngine | WrongMessageId | WrongRequestId | WrongPduType | WrongVarbind
  | NotAuthenticated | DigestFailed | Untimely | Malformed string

fun refusal_describe :: "refusal \<Rightarrow> string" where
  "refusal_describe WrongSource = ''the answer came from a different address''"
| "refusal_describe WrongEngine = ''the answer came from a different authoritative engine''"
| "refusal_describe WrongMessageId = ''the answer did not carry the message id sent''"
| "refusal_describe WrongRequestId = ''the answer did not carry the request id sent''"
| "refusal_describe WrongPduType = ''the answer was not the PDU type expected''"
| "refusal_describe WrongVarbind = ''the answer was about a different object''"
| "refusal_describe NotAuthenticated = ''the answer was not authenticated where authentication was required''"
| "refusal_describe DigestFailed = ''the answer's digest did not verify''"
| "refusal_describe Untimely = ''the answer fell outside the engine's time window''"
| "refusal_describe (Malformed why) = ''the answer could not be read: '' @ why"

definition correlate :: "decoded_message \<Rightarrow> socket_v4 \<Rightarrow> expectation \<Rightarrow> refusal + unit" where
  "correlate m source e =
     (if source \<noteq> ex_source e then Inl WrongSource
      else if dm_message_id m \<noteq> ex_message_id e then Inl WrongMessageId
      else if up_engine_id (dm_usm m) \<noteq> ex_engine_id e then Inl WrongEngine
      else Inr ())"

definition correlate_scoped :: "scoped_pdu \<Rightarrow> bytes \<Rightarrow> expectation \<Rightarrow> refusal + unit" where
  "correlate_scoped sc engine_id e =
     (if sc_context_engine_id sc \<noteq> [] \<and> sc_context_engine_id sc \<noteq> engine_id then Inl WrongEngine
      else if sp_pdu_type (sc_pdu sc) \<noteq> ex_pdu_type e then Inl WrongPduType
      else if sp_request_id (sc_pdu sc) \<noteq> ex_request_id e then Inl WrongRequestId
      else case ex_oid e of
             None \<Rightarrow> Inr ()
           | Some expected \<Rightarrow>
               if sp_error_status (sc_pdu sc) = 0
               then (case sp_varbinds (sc_pdu sc) of
                       [(found, _)] \<Rightarrow> if found = expected then Inr () else Inl WrongVarbind
                     | _ \<Rightarrow> Inl WrongVarbind)
               else Inr ())"

definition is_discovery_report :: "report_reason \<Rightarrow> bool" where
  "is_discovery_report reason \<longleftrightarrow> reason = UnknownEngineId"

definition discovery_report_reason :: "scoped_pdu \<Rightarrow> expectation \<Rightarrow> refusal + report_reason" where
  "discovery_report_reason sc e =
     (if sp_pdu_type (sc_pdu sc) \<noteq> PDU_REPORT then Inl WrongPduType
      else if sp_request_id (sc_pdu sc) \<noteq> ex_request_id e then Inl WrongRequestId
      else case sp_varbinds (sc_pdu sc) of
             [(oid, _)] \<Rightarrow>
               (let reason = report_reason_from_oid oid
                in if \<not> is_discovery_report reason then Inl WrongVarbind else Inr reason)
           | _ \<Rightarrow> Inl WrongVarbind)"

record resync_budget =
  rb_spent :: bool

definition spend :: "resync_budget \<Rightarrow> bool \<times> resync_budget" where
  "spend b = (if rb_spent b then (False, b) else (True, b\<lparr>rb_spent := True\<rparr>))"

section \<open>Salts do not repeat\<close>

fun take_salts :: "nat \<Rightarrow> salt_source \<Rightarrow> (string + bytes) list \<times> salt_source" where
  "take_salts 0 s = ([], s)"
| "take_salts (Suc n) s =
     (let (r, s') = take_salt s; (rs, s'') = take_salts n s' in (r # rs, s''))"

lemma take_salts_eq:
  "unat (ss_issued s) + n < 2 ^ 64 \<Longrightarrow>
     take_salts n s =
       (map (\<lambda>i. Inr (be_bytes 8 (ss_counter s + word_of_nat i))) [1 ..< Suc n],
        \<lparr>ss_counter = ss_counter s + word_of_nat n, ss_issued = ss_issued s + word_of_nat n\<rparr>)"
proof (induction n arbitrary: s)
  case (Suc n)
  let ?s' = "\<lparr>ss_counter = ss_counter s + 1, ss_issued = ss_issued s + 1\<rparr>"
  have max: "unat (0xFFFFFFFFFFFFFFFF :: u64) = 2 ^ 64 - 1" by simp
  then have "ss_issued s \<noteq> 0xFFFFFFFFFFFFFFFF" using Suc.prems by auto
  then have t: "take_salt s = (Inr (be_bytes 8 (ss_counter s + 1)), ?s')"
    by (simp add: take_salt_def Let_def)
  have "unat (ss_issued s + 1) = unat (ss_issued s) + 1"
    using Suc.prems by (subst unat_add_lem [THEN iffD1]) simp_all
  then have IH: "take_salts n ?s' =
      (map (\<lambda>i. Inr (be_bytes 8 (ss_counter s + 1 + word_of_nat i))) [1 ..< Suc n],
       \<lparr>ss_counter = ss_counter s + 1 + word_of_nat n, ss_issued = ss_issued s + 1 + word_of_nat n\<rparr>)"
    using Suc.IH [of ?s'] Suc.prems by simp
  have upt: "[1 ..< Suc (Suc n)] = 1 # map Suc [1 ..< Suc n]"
    by (simp add: upt_conv_Cons map_Suc_upt del: upt_Suc)
  show ?case
    unfolding take_salts.simps t IH Let_def prod.case upt
    by (simp add: comp_def add.assoc del: upt_Suc)
qed simp

text \<open>
  No privacy salt is used twice. Whatever the seed, a source issues up to $2^{64} - 1$ salts
  without an error and all of them are different, although the counter wraps; after that many it
  refuses and stays as it is.
\<close>

theorem salts_never_repeat:
  assumes "n < 2 ^ 64"
  shows "\<exists>salts s. take_salts n (salt_seeded seed) = (map Inr salts, s) \<and> length salts = n \<and> distinct salts \<and>
     (n = 2 ^ 64 - 1 \<longrightarrow> (\<exists>e. take_salt s = (Inl e, s)))"
proof -
  let ?salts = "map (\<lambda>i. be_bytes 8 (seed + word_of_nat i)) [1 ..< Suc n]"
  let ?s = "\<lparr>ss_counter = seed + word_of_nat n, ss_issued = word_of_nat n\<rparr> :: salt_source"
  have "take_salts n (salt_seeded seed) = (map Inr ?salts, ?s)"
    using take_salts_eq [of "salt_seeded seed" n] assms by (simp add: salt_seeded_def comp_def)
  moreover have "distinct ?salts"
  proof -
    have "inj_on (\<lambda>i. be_bytes 8 (seed + word_of_nat i)) {1 ..< Suc n}"
    proof (rule inj_onI)
      fix i j assume ij: "i \<in> {1 ..< Suc n}" "j \<in> {1 ..< Suc n}"
        "be_bytes 8 (seed + word_of_nat i) = be_bytes 8 (seed + word_of_nat j)"
      from be_bytes_inject [OF ij(3)] have "(word_of_nat i :: u64) = word_of_nat j" by simp
      then have "unat (word_of_nat i :: u64) = unat (word_of_nat j :: u64)" by simp
      then show "i = j" using ij(1,2) assms by (simp add: unat_of_nat)
    qed
    then show ?thesis by (simp add: distinct_map del: upt_Suc)
  qed
  moreover have "n = 2 ^ 64 - 1 \<Longrightarrow> \<exists>e. take_salt ?s = (Inl e, ?s)"
    by (simp add: take_salt_def)
  ultimately show ?thesis by (intro exI [of _ ?salts] exI [of _ ?s]) (simp del: upt_Suc)
qed

theorem salts_never_repeat_witness:
  "(3 :: nat) < 2 ^ 64 \<and>
   (\<exists>salts s. take_salts 3 (salt_seeded 0xFFFFFFFFFFFFFFFE) = (map Inr salts, s) \<and> length salts = 3 \<and> distinct salts)"
  using salts_never_repeat [of 3 "0xFFFFFFFFFFFFFFFE"] by (auto simp del: take_salts.simps)

section \<open>The engine's clock\<close>

text \<open>
  What reaches the counters in a run: authenticated messages at readings of the clock. The order
  of \<open>(boots, time)\<close> is lexicographic.
\<close>

definition absorb_run :: "(int \<times> u32 \<times> u32) list \<Rightarrow> engine_state \<Rightarrow> engine_state" where
  "absorb_run ms s = fold (\<lambda>(now, b, t). absorb_authenticated now b t) ms s"

definition mark :: "engine_state \<Rightarrow> u32 \<times> u32" where
  "mark s = (es_boots s, es_highest_time s)"

lemma absorb_mark:
  "mark (absorb_authenticated now b t s) = max (mark s) (b, t)"
  by (auto simp: absorb_authenticated_def mark_def max_def less_eq_prod_def less_prod_def)

lemma mark_absorb_run: "mark (absorb_run ms s) = fold (\<lambda>(now, bt). max bt) ms (mark s)"
  unfolding absorb_run_def
  by (induction ms arbitrary: s) (simp_all add: absorb_mark case_prod_unfold max.commute)

lemma synchronised_is_highest:
  "es_synchronised_time s = es_highest_time s \<Longrightarrow>
     es_synchronised_time (absorb_run ms s) = es_highest_time (absorb_run ms s)"
  unfolding absorb_run_def
  by (induction ms arbitrary: s) (auto simp: absorb_authenticated_def)

lemma uint_min_u32: "uint (min (v :: u32) w) = min (uint v) (uint w)"
  by (auto simp: min_def word_le_def)

lemma uint_estimated_time:
  "uint (estimated_time now s) =
     min (uint (es_synchronised_time s) + elapsed_secs now (es_recorded_at s)) 2147483647"
proof -
  let ?v = "uint (es_synchronised_time s) + elapsed_secs now (es_recorded_at s)"
  have "0 \<le> elapsed_secs now (es_recorded_at s)"
    by (simp add: elapsed_secs_def pos_imp_zdiv_nonneg_iff)
  then have "0 \<le> ?v" by simp
  moreover have "0 \<le> v \<Longrightarrow> v < 2 ^ 32 \<Longrightarrow> uint (word_of_int v :: u32) = v" for v
    by (simp add: uint_word_of_int mod_pos_pos_trivial)
  ultimately have "?v < 2 ^ 32 \<Longrightarrow> uint (word_of_int ?v :: u32) = ?v" by blast
  then show ?thesis
    unfolding estimated_time_def Let_def uint_min_u32 by (auto simp: BOOTS_CEILING_def min_def)
qed

lemma Max_insert_max:
  "finite A \<Longrightarrow> Max (insert (max a m) A) = max a (Max (insert m A))"
  by (cases "A = {}") (simp_all add: max.assoc)

lemma fold_max_Max: "fold (\<lambda>(now, bt). max bt) ms m = Max (insert m (snd ` set ms))"
proof (induction ms arbitrary: m)
  case (Cons x ms)
  have "Max (insert m (insert (snd x) (snd ` set ms))) = max (snd x) (Max (insert m (snd ` set ms)))"
    unfolding insert_commute [of m] by (rule Max_insert) simp_all
  with Cons show ?case by (simp add: case_prod_unfold Max_insert_max)
qed simp

text \<open>
  An engine's counters are the latest that authenticated messages carried. After any run of
  them the pair of boots and time is the maximum, in the order of the engine's own clock, of the
  discovered one and those received, so no message sets it back; and a message is in the window
  exactly if the boots are equal, below the ceiling, and its time is at most 150 seconds from that
  value advanced by the time since it was recorded (and capped at the ceiling).
\<close>

theorem engine_clock_is_the_latest:
  assumes "from_discovery randomness start e = Inr s0" and "s = absorb_run ms s0"
  shows "(es_boots s, es_highest_time s) = Max (insert (pe_boots e, pe_time e) (snd ` set ms)) \<and>
     (timely now s b t = InWindow \<longleftrightarrow>
        b = es_boots s \<and> b \<noteq> BOOTS_CEILING \<and>
        \<bar>uint t - min (uint (es_highest_time s) + elapsed_secs now (es_recorded_at s)) 2147483647\<bar> \<le> 150)"
proof
  have s0: "es_synchronised_time s0 = es_highest_time s0" "mark s0 = (pe_boots e, pe_time e)"
    using assms(1) by (auto simp: from_discovery_def mark_def split: sum.splits)
  show "(es_boots s, es_highest_time s) = Max (insert (pe_boots e, pe_time e) (snd ` set ms))"
    using mark_absorb_run [of ms s0] unfolding fold_max_Max s0(2) by (simp add: assms(2) mark_def)
  have "es_synchronised_time s = es_highest_time s"
    unfolding assms(2) by (rule synchronised_is_highest) (rule s0)
  then show "timely now s b t = InWindow \<longleftrightarrow>
      b = es_boots s \<and> b \<noteq> BOOTS_CEILING \<and>
      \<bar>uint t - min (uint (es_highest_time s) + elapsed_secs now (es_recorded_at s)) 2147483647\<bar> \<le> 150"
    unfolding timely_def Let_def uint_estimated_time TIME_WINDOW_SECONDS_def by auto
qed

definition sample_engine :: provisional_engine where
  "sample_engine = \<lparr>pe_engine_id = [1, 2, 3, 4, 5], pe_boots = 3, pe_time = 100, pe_reason = None\<rparr>"

theorem engine_clock_is_the_latest_witness:
  "\<exists>s. from_discovery (Inr 7) 0 sample_engine = Inr s \<and>
     (es_boots (absorb_run [(0, 4, 10), (0, 3, 900)] s), es_highest_time (absorb_run [(0, 4, 10), (0, 3, 900)] s)) =
       Max (insert (3, 100) (snd ` set [(0 :: int, 4, 10), (0, 3, 900)]))"
proof -
  obtain s where s: "from_discovery (Inr 7) 0 sample_engine = Inr s"
    by (simp add: from_discovery_def salt_new_def)
  from engine_clock_is_the_latest [OF s refl, of "[(0, 4, 10), (0, 3, 900)]"] s show ?thesis
    by (auto simp: sample_engine_def)
qed

text \<open>
  Discovery takes an engine identifier only from the Report it asked for: a Report PDU with
  the request's identifier and the single object \<open>usmStatsUnknownEngineIDs.0\<close>, and the engine it
  then yields has an identifier of 5 to 32 octets and unconfirmed counters.
\<close>

theorem discovery_is_exact:
  "(case discovery_report_reason sc e of
      Inl _ \<Rightarrow> True
    | Inr reason \<Rightarrow>
        reason = UnknownEngineId \<and> sp_pdu_type (sc_pdu sc) = 0xA8 \<and>
        sp_request_id (sc_pdu sc) = ex_request_id e \<and>
        map fst (sp_varbinds (sc_pdu sc)) = [[1, 3, 6, 1, 6, 3, 15, 1, 1, 4, 0]]) \<and>
   (case provisional_from_message m r of
      Inl _ \<Rightarrow> True
    | Inr engine \<Rightarrow>
        (case from_discovery randomness now engine of
           Inl _ \<Rightarrow> True
         | Inr s \<Rightarrow> length (es_engine_id s) \<in> {5 .. 32} \<and> \<not> es_confirmed s))"
  by (auto simp: discovery_report_reason_def report_reason_from_oid_def is_discovery_report_def
      PDU_REPORT_def provisional_from_message_def from_discovery_def Let_def MIN_ENGINE_ID_def
      MAX_ENGINE_ID_def split: list.splits prod.splits if_splits sum.splits)

end
