(* ===== verification/Icmp.thy ===== *)
theory Icmp
  imports Net_Bytes
begin

text \<open>
  The ICMP exchanges: the outcome of an attempt (\<open>src/src/probes/attempt.rs\<close>), the router path
  (\<open>src/src/probes/path.rs\<close>) and address masks (\<open>src/src/probes/icmp_mask.rs\<close>). Sockets and timers
  are outside the model: what a socket delivered is an argument, in the order it arrived.
\<close>

section \<open>Attempts\<close>

datatype 'a attempt_outcome =
    Unavailable string
  | NotApplicable string
  | NotSent string
  | NoResponse string
  | InvalidResponse string nat
  | Answered string 'a

fun transmitted :: "'a attempt_outcome \<Rightarrow> bool" where
  "transmitted (NoResponse s) = True"
| "transmitted (InvalidResponse s n) = True"
| "transmitted (Answered s r) = True"
| "transmitted _ = False"

fun attempt_result :: "'a attempt_outcome \<Rightarrow> 'a option" where
  "attempt_result (Answered s r) = Some r"
| "attempt_result _ = None"

fun describe_failure :: "'a attempt_outcome \<Rightarrow> string option" where
  "describe_failure (Unavailable r) = Some r"
| "describe_failure (NotApplicable r) = Some r"
| "describe_failure (NotSent r) = Some r"
| "describe_failure _ = None"

fun describe_attempt :: "'a attempt_outcome \<Rightarrow> string \<Rightarrow> string" where
  "describe_attempt (Unavailable r) probe = probe @ '' unavailable: '' @ r"
| "describe_attempt (NotApplicable r) probe = probe @ '' not applicable: '' @ r"
| "describe_attempt (NotSent r) probe = probe @ '' not sent: '' @ r"
| "describe_attempt (NoResponse s) probe = probe @ '' no response ('' @ s @ '')''"
| "describe_attempt (InvalidResponse s n) probe =
     probe @ '' '' @ decimal (int n) @ '' reply/replies failed validation ('' @ s @ '')''"
| "describe_attempt (Answered s r) probe = probe @ '' answered ('' @ s @ '')''"

section \<open>Echo requests and their errors\<close>

definition PATH_PROBE_DESTINATION :: "32 word" where
  "PATH_PROBE_DESTINATION = 0xC0000201"

definition ICMP_ECHO_REQUEST :: u8 where "ICMP_ECHO_REQUEST = 8"
definition ICMP_TIME_EXCEEDED :: u8 where "ICMP_TIME_EXCEEDED = 11"
definition libc_icmp_protocol :: u8 where "libc_icmp_protocol = 1"

record probe_identity =
  pi_identifier :: u16
  pi_sequence :: u16
  pi_destination :: "32 word"

definition path_payload :: bytes where
  "path_payload = map of_char ''idnx-path''"

definition echo_request :: "u16 \<Rightarrow> u16 \<Rightarrow> bytes" where
  "echo_request identifier sequence =
     (let body = u16_bytes identifier @ u16_bytes sequence @ path_payload;
          packet = [ICMP_ECHO_REQUEST, 0, 0, 0] @ body
      in [ICMP_ECHO_REQUEST, 0] @ u16_bytes (internet_checksum packet) @ body)"

text \<open>The length of an IPv4 header from its first byte.\<close>

definition ihl_bytes :: "u8 \<Rightarrow> nat" where
  "ihl_bytes first = unat (first AND 15) * 4"

definition icmp_message :: "bytes \<Rightarrow> bytes option" where
  "icmp_message datagram =
     (case datagram of
        [] \<Rightarrow> None
      | first # _ \<Rightarrow>
          if drop_bit 4 first = 4
          then if ihl_bytes first \<le> length datagram then Some (drop (ihl_bytes first) datagram) else None
          else Some datagram)"

definition matches_probe :: "bytes \<Rightarrow> probe_identity \<Rightarrow> bool" where
  "matches_probe datagram identity =
     (case icmp_message datagram of
        None \<Rightarrow> False
      | Some icmp \<Rightarrow>
          if icmp = [] \<or> hd icmp \<noteq> ICMP_TIME_EXCEEDED then False
          else case drop 8 icmp of
                 [] \<Rightarrow> False
               | first # more_bytes \<Rightarrow>
                   let embedded = first # more_bytes; header_length = ihl_bytes first in
                   if drop_bit 4 first \<noteq> 4 then False
                   else if header_length < 20 \<or> length embedded < header_length + 8 then False
                   else if embedded ! 9 \<noteq> libc_icmp_protocol then False
                   else if take 4 (drop 16 embedded) \<noteq> u32_bytes (pi_destination identity) then False
                   else
                     let inner = drop header_length embedded in
                     if hd inner \<noteq> ICMP_ECHO_REQUEST then False
                     else u16_at inner 4 = pi_identifier identity \<and>
                          u16_at inner 6 = pi_sequence identity)"

section \<open>The path\<close>

record path_hop =
  ph_distance :: u8
  ph_address :: ip_addr
  ph_toward :: ip_addr
  ph_previous :: "ip_addr option"

text \<open>
  The loop of \<open>probe_hop\<close>: the datagrams that arrived on the probe's socket before its deadline,
  with their sources. No socket, a socket that cannot be bound and a request that cannot be sent
  give no datagram.
\<close>

fun probe_hop :: "probe_identity \<Rightarrow> (bytes \<times> ip_addr) list \<Rightarrow> ip_addr option" where
  "probe_hop identity [] = None"
| "probe_hop identity ((datagram, source) # rest) =
     (if matches_probe (take 1500 datagram) identity then Some source else probe_hop identity rest)"

text \<open>The process id and the value of the run counter are the arguments.\<close>

definition probe_identifier :: "u32 \<Rightarrow> u16 \<Rightarrow> u16" where
  "probe_identifier process ordinal = (ucast process XOR word_rotl 8 ordinal) XOR 0x9E37"

definition hop_identity :: "u16 \<Rightarrow> u8 \<Rightarrow> probe_identity" where
  "hop_identity identifier distance =
     \<lparr>pi_identifier = identifier, pi_sequence = ucast distance, pi_destination = PATH_PROBE_DESTINATION\<rparr>"

text \<open>The loop over the distances \<open>1..=max_hops\<close>; \<open>replies\<close> is what arrived for each of them.\<close>

fun path_from ::
    "u16 \<Rightarrow> (u8 \<Rightarrow> (bytes \<times> ip_addr) list) \<Rightarrow> u8 list \<Rightarrow> path_hop list \<Rightarrow> ip_addr option
       \<Rightarrow> path_hop list" where
  "path_from identifier replies [] hops previous = hops"
| "path_from identifier replies (d # ds) hops previous =
     (case probe_hop (hop_identity identifier d) (replies d) of
        None \<Rightarrow> path_from identifier replies ds hops previous
      | Some address \<Rightarrow>
          if list_ex (\<lambda>h. ph_address h = address) hops then hops
          else path_from identifier replies ds
                 (hops @ [\<lparr>ph_distance = d, ph_address = address,
                           ph_toward = V4 PATH_PROBE_DESTINATION, ph_previous = previous\<rparr>])
                 (Some address))"

definition discover_path :: "u16 \<Rightarrow> (u8 \<Rightarrow> (bytes \<times> ip_addr) list) \<Rightarrow> u8 \<Rightarrow> path_hop list" where
  "discover_path identifier replies max_hops =
     path_from identifier replies (map word_of_nat [1 ..< Suc (unat max_hops)]) [] None"

section \<open>Address masks\<close>

definition ADDRESS_MASK_REQUEST :: u8 where "ADDRESS_MASK_REQUEST = 17"
definition ADDRESS_MASK_REPLY :: u8 where "ADDRESS_MASK_REPLY = 18"
definition MESSAGE_LEN :: nat where "MESSAGE_LEN = 12"

record mask_query =
  mq_identifier :: u16
  mq_sequence :: u16
  mq_target :: "32 word"

record mask_reply =
  mr_address :: "32 word"
  mr_mask :: "32 word"
  mr_prefix :: ip_net
  mr_raw :: bytes

definition mask_request :: "mask_query \<Rightarrow> bytes" where
  "mask_request q =
     (let body = u16_bytes (mq_identifier q) @ u16_bytes (mq_sequence q) @ [0, 0, 0, 0]
      in [ADDRESS_MASK_REQUEST, 0] @
         u16_bytes (internet_checksum ([ADDRESS_MASK_REQUEST, 0, 0, 0] @ body)) @ body)"

definition prefix_length :: "32 word \<Rightarrow> nat option" where
  "prefix_length m = contiguous_prefix_len m"

definition parse_reply :: "ipnet_ops \<Rightarrow> bytes \<Rightarrow> mask_query \<Rightarrow> ip_addr \<Rightarrow> mask_reply option" where
  "parse_reply ops datagram q source =
     (case source of
        V6 _ \<Rightarrow> None
      | V4 a \<Rightarrow>
          if a \<noteq> mq_target q then None
          else case icmp_message datagram of
                 None \<Rightarrow> None
               | Some icmp \<Rightarrow>
                   if length icmp < MESSAGE_LEN then None
                   else if icmp ! 0 \<noteq> ADDRESS_MASK_REPLY \<or> icmp ! 1 \<noteq> 0 then None
                   else if u16_at icmp 4 \<noteq> mq_identifier q then None
                   else if u16_at icmp 6 \<noteq> mq_sequence q then None
                   else if internet_checksum (take MESSAGE_LEN icmp) \<noteq> 0 then None
                   else
                     let mask = u32_at icmp 8 in
                     case prefix_length mask of
                       None \<Rightarrow> None
                     | Some n \<Rightarrow>
                         if n = 0 \<or> n = 32 then None
                         else Some \<lparr>mr_address = mq_target q, mr_mask = mask,
                                    mr_prefix = V4Net (trunc4 ops (mq_target q) n) n,
                                    mr_raw = take MESSAGE_LEN icmp\<rparr>)"

text \<open>
  The receive loop of \<open>ask\<close>: the datagrams that arrived before the deadline, with their sources.
\<close>

fun ask_replies ::
    "ipnet_ops \<Rightarrow> mask_query \<Rightarrow> string \<Rightarrow> nat \<Rightarrow> (bytes \<times> ip_addr) list \<Rightarrow> mask_reply attempt_outcome" where
  "ask_replies ops q sent rejected [] =
     (if 0 < rejected then InvalidResponse sent rejected else NoResponse sent)"
| "ask_replies ops q sent rejected ((datagram, source) # rest) =
     (case parse_reply ops (take 1500 datagram) q source of
        Some reply \<Rightarrow> Answered sent reply
      | None \<Rightarrow>
          ask_replies ops q sent (if source = V4 (mq_target q) then Suc rejected else rejected) rest)"

text \<open>How far the socket calls of \<open>ask\<close> got.\<close>

datatype socket_state = NoSocket | NotBound | SendFailed | RequestSent

definition ask ::
    "ipnet_ops \<Rightarrow> socket_state \<Rightarrow> 32 word \<Rightarrow> u16 \<Rightarrow> u16 \<Rightarrow> (bytes \<times> ip_addr) list
       \<Rightarrow> mask_reply attempt_outcome" where
  "ask ops socket target identifier sequence datagrams =
     (let q = \<lparr>mq_identifier = identifier, mq_sequence = sequence, mq_target = target\<rparr>;
          sent = ''ICMP address mask request to '' @ ip_to_string (V4 target)
      in case socket of
           NoSocket \<Rightarrow>
             Unavailable ''an ICMP socket could not be opened: address mask requests need root''
         | NotBound \<Rightarrow>
             NotSent ''the ICMP socket could not be bound to the selected interface''
         | SendFailed \<Rightarrow>
             NotSent (''the request to '' @ ip_to_string (V4 target) @ '' could not be sent'')
         | RequestSent \<Rightarrow> ask_replies ops q sent 0 datagrams)"

section \<open>Requests\<close>

text \<open>
  Every request this machine sends carries a valid checksum, for every identifier, sequence
  and target: the receiver's sum over the echo request and over the address mask request is zero.
\<close>

theorem requests_carry_their_checksum:
  "internet_checksum (echo_request i s) = 0 \<and> internet_checksum (mask_request q) = 0"
proof -
  have "length (u16_bytes i @ u16_bytes s @ path_payload) \<le> 130000 - 2"
    by (simp add: u16_bytes_def path_payload_def)
  from checksum_written [OF this, of ICMP_ECHO_REQUEST 0]
  have "internet_checksum (echo_request i s) = 0" by (simp add: echo_request_def Let_def)
  moreover have "length (u16_bytes (mq_identifier q) @ u16_bytes (mq_sequence q) @ [0, 0, 0, 0]) \<le> 130000 - 2"
    by (simp add: u16_bytes_def)
  from checksum_written [OF this, of ADDRESS_MASK_REQUEST 0]
  have "internet_checksum (mask_request q) = 0" by (simp add: mask_request_def Let_def)
  ultimately show ?thesis ..
qed

section \<open>Which probe an error belongs to\<close>

lemma u32_bytes_inject [simp]: "u32_bytes v = u32_bytes w \<longleftrightarrow> v = w"
proof
  assume "u32_bytes v = u32_bytes w"
  then have eq: "(ucast (drop_bit 24 v) :: u8) = ucast (drop_bit 24 w)"
      "(ucast (drop_bit 16 v) :: u8) = ucast (drop_bit 16 w)"
      "(ucast (drop_bit 8 v) :: u8) = ucast (drop_bit 8 w)" "(ucast v :: u8) = ucast w"
    unfolding u32_bytes_def by (simp_all only: list.inject)
  have "v = be32 (ucast (drop_bit 24 v)) (ucast (drop_bit 16 v)) (ucast (drop_bit 8 v)) (ucast v)"
    by (rule be32_bytes [symmetric])
  also have "\<dots> = w" unfolding eq by (rule be32_bytes)
  finally show "v = w" .
qed simp

definition embedded_packet :: "bytes \<Rightarrow> bytes" where
  "embedded_packet d = drop 8 (the (icmp_message d))"

definition embedded_echo :: "bytes \<Rightarrow> bytes" where
  "embedded_echo d = drop (ihl_bytes (hd (embedded_packet d))) (embedded_packet d)"

lemma matches_probe_fields:
  assumes "matches_probe d p"
  shows "take 4 (drop 16 (embedded_packet d)) = u32_bytes (pi_destination p) \<and>
     u16_at (embedded_echo d) 4 = pi_identifier p \<and> u16_at (embedded_echo d) 6 = pi_sequence p"
proof -
  obtain icmp where icmp: "icmp_message d = Some icmp"
    using assms by (cases "icmp_message d") (simp_all add: matches_probe_def)
  obtain first more_bytes where e: "drop 8 icmp = first # more_bytes"
    using assms by (cases "drop 8 icmp") (simp_all add: matches_probe_def icmp split: if_splits)
  show ?thesis
    using assms unfolding matches_probe_def embedded_packet_def embedded_echo_def
    by (simp only: icmp option.case option.sel e list.case list.sel Let_def split: if_splits)
qed

lemma matches_probe_unique:
  assumes "matches_probe d p" and "matches_probe d q"
  shows "pi_identifier p = pi_identifier q \<and> pi_sequence p = pi_sequence q \<and>
     pi_destination p = pi_destination q"
  using matches_probe_fields [OF assms(1)] matches_probe_fields [OF assms(2)] by simp

text \<open>An IPv4 header of \<open>4 * n\<close> bytes for an ICMP packet to \<open>dst\<close>, the fields unused here free.\<close>

definition ipv4_header :: "u8 \<Rightarrow> bytes \<Rightarrow> bytes \<Rightarrow> 32 word \<Rightarrow> bytes \<Rightarrow> bytes" where
  "ipv4_header first a b dst options = first # a @ [libc_icmp_protocol] @ b @ u32_bytes dst @ options"

definition time_exceeded :: "bytes \<Rightarrow> bytes \<Rightarrow> bytes" where
  "time_exceeded seven original = ICMP_TIME_EXCEEDED # seven @ original"

lemma matches_probe_embedded:
  assumes "icmp_message d = Some icmp" and "icmp \<noteq> []" "hd icmp = ICMP_TIME_EXCEEDED"
    and "drop 8 icmp = e" and "e = first # tl e" and "drop_bit 4 first = 4"
    and "\<not> ihl_bytes first < 20" "\<not> length e < ihl_bytes first + 8"
    and "e ! 9 = libc_icmp_protocol" "take 4 (drop 16 e) = u32_bytes (pi_destination p)"
    and "drop (ihl_bytes first) e = inner" "hd inner = ICMP_ECHO_REQUEST"
    and "u16_at inner 4 = pi_identifier p" "u16_at inner 6 = pi_sequence p"
  shows "matches_probe d p"
proof -
  obtain more_bytes where e: "drop 8 icmp = first # more_bytes" "e = first # more_bytes"
    using assms(4,5) by (cases e) auto
  show ?thesis
    using assms(6-14) unfolding matches_probe_def e(2)
    by (simp only: assms(1,3) option.case if_False e(1) list.case Let_def simp_thms assms(2))
qed

lemma matches_own_error:
  assumes "drop_bit 4 first = (4 :: u8)" and "length a = 8" and "length b = 6"
    and "ihl_bytes first = 20 + length options" and "length seven = 7"
  shows "matches_probe
      (time_exceeded seven (ipv4_header first a b dst options @ echo_request i s @ rest))
      \<lparr>pi_identifier = i, pi_sequence = s, pi_destination = dst\<rparr>"
proof -
  let ?e = "ipv4_header first a b dst options @ echo_request i s @ rest"
  obtain a0 a1 a2 a3 a4 a5 a6 a7 where a: "a = [a0, a1, a2, a3, a4, a5, a6, a7]"
    using assms(2) by (auto simp: length_Suc_conv numeral_eq_Suc)
  obtain b0 b1 b2 b3 b4 b5 where b: "b = [b0, b1, b2, b3, b4, b5]"
    using assms(3) by (auto simp: length_Suc_conv numeral_eq_Suc)
  have msg: "icmp_message (time_exceeded seven ?e) = Some (time_exceeded seven ?e)"
    by (simp add: icmp_message_def time_exceeded_def ICMP_TIME_EXCEEDED_def)
  have embedded: "drop 8 (time_exceeded seven ?e) = ?e"
    using assms(5) by (simp add: time_exceeded_def)
  have head: "?e = first # tl ?e" by (simp add: ipv4_header_def)
  have len: "length (ipv4_header first a b dst options) = 20 + length options"
    by (simp add: ipv4_header_def a b u32_bytes_def)
  have inner: "drop (ihl_bytes first) ?e = echo_request i s @ rest" using len assms(4) by simp
  have echo: "echo_request i s @ rest = ICMP_ECHO_REQUEST # 0 # (u16_bytes (internet_checksum
      ([ICMP_ECHO_REQUEST, 0, 0, 0] @ u16_bytes i @ u16_bytes s @ path_payload)) @
        u16_bytes i @ u16_bytes s @ path_payload @ rest)"
    by (simp add: echo_request_def Let_def)
  have fields: "u16_at (echo_request i s @ rest) 4 = i" "u16_at (echo_request i s @ rest) 6 = s"
    unfolding echo u16_at_def u16_bytes_def by (simp_all add: be16_bytes)
  show ?thesis
  proof (rule matches_probe_embedded [OF msg _ _ embedded head assms(1) _ _ _ _ inner])
    show "?e ! 9 = libc_icmp_protocol"
      "take 4 (drop 16 ?e) = u32_bytes (pi_destination \<lparr>pi_identifier = i, pi_sequence = s, pi_destination = dst\<rparr>)"
      by (simp_all add: ipv4_header_def a b u32_bytes_def)
    show "\<not> ihl_bytes first < 20" "\<not> length ?e < ihl_bytes first + 8"
      using assms(4) len by (simp_all add: echo_request_def Let_def u16_bytes_def)
    show "hd (echo_request i s @ rest) = ICMP_ECHO_REQUEST" by (simp add: echo)
  qed (simp_all add: time_exceeded_def fields)
qed

text \<open>
  A router's error is read as the answer to the one probe that caused it. A Time Exceeded
  that quotes our echo request (whatever the header options, the router's own checksum and the
  bytes after it) matches the probe with that identifier, sequence and destination, and no other.
\<close>

theorem error_belongs_to_its_probe:
  assumes "drop_bit 4 first = (4 :: u8)" and "length a = 8" and "length b = 6"
    and "ihl_bytes first = 20 + length options" and "length seven = 7"
  shows "matches_probe
      (time_exceeded seven (ipv4_header first a b dst options @ echo_request i s @ rest))
      \<lparr>pi_identifier = i', pi_sequence = s', pi_destination = dst'\<rparr> \<longleftrightarrow>
    i' = i \<and> s' = s \<and> dst' = dst"
  using matches_own_error [OF assms, of dst i s rest] matches_probe_unique by fastforce

theorem error_belongs_to_its_probe_witness:
  "\<not> matches_probe
      (time_exceeded [0, 0, 0, 0, 0, 0, 0]
        (ipv4_header 0x45 [0, 0, 0, 0, 0, 0, 0, 1] [0, 0, 10, 0, 0, 1] PATH_PROBE_DESTINATION [] @
         echo_request 0x1234 2 @ []))
      \<lparr>pi_identifier = 0x1234, pi_sequence = 3, pi_destination = PATH_PROBE_DESTINATION\<rparr>"
  by (subst error_belongs_to_its_probe) (simp_all add: ihl_bytes_def)

section \<open>What a path is\<close>

fun hops_linked :: "ip_addr option \<Rightarrow> path_hop list \<Rightarrow> bool" where
  "hops_linked previous [] = True"
| "hops_linked previous (h # hs) = (ph_previous h = previous \<and> hops_linked (Some (ph_address h)) hs)"

definition last_address :: "ip_addr option \<Rightarrow> path_hop list \<Rightarrow> ip_addr option" where
  "last_address previous hops = (if hops = [] then previous else Some (ph_address (last hops)))"

lemma hops_linked_snoc:
  "hops_linked previous (hops @ [h]) \<longleftrightarrow>
     hops_linked previous hops \<and> ph_previous h = last_address previous hops"
  by (induction hops arbitrary: previous) (auto simp: last_address_def)

text \<open>Each hop is the source of a reply to the probe of its own distance.\<close>

definition hop_answered :: "u16 \<Rightarrow> (u8 \<Rightarrow> (bytes \<times> ip_addr) list) \<Rightarrow> path_hop \<Rightarrow> bool" where
  "hop_answered identifier replies h \<longleftrightarrow>
     list_ex (\<lambda>(datagram, source). source = ph_address h \<and>
         matches_probe (take 1500 datagram) (hop_identity identifier (ph_distance h)))
       (replies (ph_distance h))"

lemma probe_hop_answered:
  "probe_hop identity ds = Some a \<Longrightarrow>
     list_ex (\<lambda>(datagram, source). source = a \<and> matches_probe (take 1500 datagram) identity) ds"
  by (induction identity ds rule: probe_hop.induct) (auto split: if_splits)

definition path_ok :: "u16 \<Rightarrow> (u8 \<Rightarrow> (bytes \<times> ip_addr) list) \<Rightarrow> path_hop list \<Rightarrow> bool" where
  "path_ok identifier replies hops \<longleftrightarrow>
     hops_linked None hops \<and> distinct (map ph_address hops) \<and>
     sorted_wrt (<) (map ph_distance hops) \<and> list_all (hop_answered identifier replies) hops"

lemma path_from_spec:
  assumes "path_ok identifier replies hops" and "previous = last_address None hops"
    and "sorted_wrt (<) ds" and "\<forall>h \<in> set hops. \<forall>d \<in> set ds. ph_distance h < d"
  shows "path_ok identifier replies (path_from identifier replies ds hops previous)"
  using assms
proof (induction ds arbitrary: hops previous)
  case (Cons d ds)
  show ?case
  proof (cases "probe_hop (hop_identity identifier d) (replies d)")
    case None
    then show ?thesis using Cons.IH [of hops previous] Cons.prems by simp
  next
    case (Some address)
    show ?thesis
    proof (cases "list_ex (\<lambda>h. ph_address h = address) hops")
      case True
      then show ?thesis using Some Cons.prems by simp
    next
      case False
      let ?h = "\<lparr>ph_distance = d, ph_address = address, ph_toward = V4 PATH_PROBE_DESTINATION,
                 ph_previous = previous\<rparr>"
      have "address \<notin> ph_address ` set hops" using False by (auto simp: list_ex_iff)
      moreover have "hop_answered identifier replies ?h"
        using probe_hop_answered [OF Some] by (simp add: hop_answered_def)
      ultimately have "path_ok identifier replies (hops @ [?h])"
        using Cons.prems by (auto simp: path_ok_def hops_linked_snoc sorted_wrt_append)
      then have "path_ok identifier replies (path_from identifier replies ds (hops @ [?h]) (Some address))"
        by (rule Cons.IH) (use Cons.prems in \<open>auto simp: last_address_def\<close>)
      then show ?thesis using Some False by simp
    qed
  qed
qed simp

lemma distances_sorted: "sorted_wrt (<) (map word_of_nat [1 ..< Suc (unat (m :: u8))] :: u8 list)"
proof -
  have "x < y \<and> y < 256 \<longrightarrow> (word_of_nat x :: u8) < word_of_nat y" for x y
    by (simp add: word_less_nat_alt unat_of_nat)
  moreover have "unat m < 256" using unsigned_less [where 'a = nat, of m] by simp
  ultimately show ?thesis
    unfolding sorted_wrt_map
    by (intro sorted_wrt_mono_rel [OF _ sorted_wrt_upt]) (simp del: upt_Suc)
qed

text \<open>
  A discovered path is a path. Its hops are in strictly increasing distance, no router
  appears twice, each hop names the one before it, and each hop is the source of a datagram that
  answers the probe of its own distance (and, by the previous property, of no other).
\<close>

theorem discovered_path_is_a_path:
  "hops_linked None (discover_path identifier replies m) \<and>
   distinct (map ph_address (discover_path identifier replies m)) \<and>
   sorted_wrt (<) (map ph_distance (discover_path identifier replies m)) \<and>
   list_all (hop_answered identifier replies) (discover_path identifier replies m)"
proof -
  have "path_ok identifier replies (discover_path identifier replies m)"
    unfolding discover_path_def
    by (rule path_from_spec) (simp_all only: distances_sorted path_ok_def hops_linked.simps last_address_def
      list.map distinct.simps sorted_wrt.simps list.set ball_empty simp_thms if_True list.pred_inject)
  then show ?thesis by (simp add: path_ok_def)
qed

text \<open>Two runs of one process, less than $2^{16}$ apart, use different identifiers.\<close>

lemma probe_identifier_inject:
  "probe_identifier process m = probe_identifier process n \<longleftrightarrow> m = n"
proof
  assume eq: "probe_identifier process m = probe_identifier process n"
  have cancel: "((p XOR x) XOR c) XOR (p XOR c) = x" for p x c :: u16
    by (rule bit_word_eqI) (auto simp: bit_simps)
  have rotl: "probe_identifier process x XOR (ucast process XOR 0x9E37) = word_rotl 8 x" for x
    unfolding probe_identifier_def by (rule cancel)
  have "word_rotl 8 m = word_rotl 8 n" unfolding rotl [symmetric] eq ..
  then have "word_rotr 8 (word_rotl 8 m) = word_rotr 8 (word_rotl 8 n)" by simp
  then show "m = n" by simp
qed simp

section \<open>What a mask reply establishes\<close>

text \<open>
  An address mask answer is only read from the interface that was asked, and only as a
  network. The reply comes from the target, carries the identifier and sequence that were sent
  and a valid checksum, its mask is a run of ones followed by zeros, neither empty nor a single
  host, and the prefix is the target's own network under that mask.
\<close>

theorem mask_reply_is_the_answer:
  assumes "parse_reply ops datagram q source = Some r"
  shows "source = V4 (mq_target q) \<and> mr_address r = mq_target q \<and>
     u16_at (mr_raw r) 4 = mq_identifier q \<and> u16_at (mr_raw r) 6 = mq_sequence q \<and>
     internet_checksum (mr_raw r) = 0 \<and>
     (\<exists>n. 1 \<le> n \<and> n \<le> 31 \<and> mr_mask r = netmask n \<and> mr_mask r = u32_at (mr_raw r) 8 \<and>
          mr_prefix r = V4Net (trunc4 ops (mq_target q) n) n)"
proof -
  from assms obtain icmp n where icmp: "icmp_message datagram = Some icmp" "12 \<le> length icmp"
    and s: "source = V4 (mq_target q)" and f: "u16_at icmp 4 = mq_identifier q" "u16_at icmp 6 = mq_sequence q"
    and c: "internet_checksum (take 12 icmp) = 0"
    and n: "contiguous_prefix_len (u32_at icmp 8) = Some n" "n \<noteq> 0" "n \<noteq> 32"
    and r: "r = \<lparr>mr_address = mq_target q, mr_mask = u32_at icmp 8,
                 mr_prefix = V4Net (trunc4 ops (mq_target q) n) n, mr_raw = take 12 icmp\<rparr>"
    by (auto simp: parse_reply_def MESSAGE_LEN_def prefix_length_def Let_def
        split: ip_addr.splits if_splits option.splits)
  have at: "u16_at (take 12 icmp) 4 = u16_at icmp 4" "u16_at (take 12 icmp) 6 = u16_at icmp 6"
    "u32_at (take 12 icmp) 8 = u32_at icmp 8"
    using icmp(2) by (simp_all add: u16_at_def u32_at_def)
  have "1 \<le> n" "n \<le> 31" "u32_at icmp 8 = netmask n"
    using n by (auto simp: contiguous_prefix_len_iff)
  with s f c at show ?thesis by (auto simp: r)
qed

definition sample_query :: mask_query where
  "sample_query = \<lparr>mq_identifier = 0x1234, mq_sequence = 7, mq_target = 0x0A000001\<rparr>"

definition sample_reply :: bytes where
  "sample_reply = [18, 0, 0xDC, 0xC3, 0x12, 0x34, 0, 7, 255, 255, 255, 0]"

theorem mask_reply_is_the_answer_witness:
  "\<exists>r. parse_reply ipnet_model sample_reply sample_query (V4 0x0A000001) = Some r \<and>
     V4 0x0A000001 = V4 (mq_target sample_query) \<and> mr_address r = mq_target sample_query \<and>
     (\<exists>n. 1 \<le> n \<and> n \<le> 31 \<and> mr_mask r = netmask n)"
proof -
  have "parse_reply ipnet_model sample_reply sample_query (V4 0x0A000001) \<noteq> None" by code_simp
  then obtain r where "parse_reply ipnet_model sample_reply sample_query (V4 0x0A000001) = Some r" by blast
  with mask_reply_is_the_answer [OF this] show ?thesis by blast
qed

end
