(* ===== verification/Ospf.thy ===== *)
theory Ospf
  imports Icmp
begin

text \<open>
  The passive OSPFv2 and OSPFv3 decoders (\<open>src/src/probes/ospf.rs\<close>). A slice that a loop walks
  with a cursor is the list that is left of it, and \<open>for _ in 0..count.min(n)\<close> is a recursion on
  that number.
\<close>

section \<open>Constants and data\<close>

definition HELLO :: u8 where "HELLO = 1"
definition LINK_STATE_UPDATE :: u8 where "LINK_STATE_UPDATE = 4"
definition LSA_ROUTER :: u8 where "LSA_ROUTER = 1"
definition LSA_NETWORK :: u8 where "LSA_NETWORK = 2"
definition LSA_SUMMARY_NETWORK :: u8 where "LSA_SUMMARY_NETWORK = 3"
definition LSA_SUMMARY_ASBR :: u8 where "LSA_SUMMARY_ASBR = 4"
definition LSA_EXTERNAL :: u8 where "LSA_EXTERNAL = 5"
definition LSA_NSSA :: u8 where "LSA_NSSA = 7"
definition LSA_V3_INTER_AREA_PREFIX :: u16 where "LSA_V3_INTER_AREA_PREFIX = 0x2003"
definition LSA_V3_EXTERNAL :: u16 where "LSA_V3_EXTERNAL = 0x4005"
definition LSA_V3_NSSA :: u16 where "LSA_V3_NSSA = 0x2007"
definition LSA_V3_INTRA_AREA_PREFIX :: u16 where "LSA_V3_INTRA_AREA_PREFIX = 0x2009"
definition MAX_AGE :: u16 where "MAX_AGE = 3600"

datatype authentication = AuthNone | AuthSimple | AuthCryptographic | AuthUnknown u16

definition auth_from_type :: "u16 \<Rightarrow> authentication" where
  "auth_from_type v =
     (if v = 0 then AuthNone else if v = 1 then AuthSimple
      else if v = 2 then AuthCryptographic else AuthUnknown v)"

fun routes_are_verifiable :: "authentication \<Rightarrow> bool" where
  "routes_are_verifiable AuthNone = True"
| "routes_are_verifiable AuthSimple = True"
| "routes_are_verifiable _ = False"

fun auth_label :: "authentication \<Rightarrow> string" where
  "auth_label AuthNone = ''none''"
| "auth_label AuthSimple = ''simple password''"
| "auth_label AuthCryptographic = ''cryptographic digest''"
| "auth_label (AuthUnknown v) = ''unknown type '' @ decimal (uint v)"

record advertised_prefix =
  ap_prefix :: ip_net
  ap_metric :: u32
  ap_lsa_type :: string
  ap_withdrawn :: bool

record ospf_packet =
  op_protocol :: string
  op_router_id :: "32 word"
  op_area :: "32 word"
  op_authentication :: authentication
  op_hello :: bool
  op_neighbours :: "32 word list"
  op_prefixes :: "advertised_prefix list"
  op_sequences :: "u32 list"
  op_raw :: bytes

definition current_prefixes :: "ospf_packet \<Rightarrow> advertised_prefix list" where
  "current_prefixes p =
     filter (\<lambda>x. routes_are_verifiable (op_authentication p) \<and> \<not> ap_withdrawn x) (op_prefixes p)"

record decoded_lsa =
  dl_length :: nat
  dl_sequence :: u32
  dl_prefixes :: "advertised_prefix list"

section \<open>OSPFv2\<close>

definition v2_lsa_name :: "u8 \<Rightarrow> string" where
  "v2_lsa_name kind =
     (if kind = LSA_ROUTER then ''router'' else if kind = LSA_NETWORK then ''network''
      else if kind = LSA_SUMMARY_NETWORK then ''summary (network)''
      else if kind = LSA_SUMMARY_ASBR then ''summary (ASBR)''
      else if kind = LSA_EXTERNAL then ''AS external''
      else if kind = LSA_NSSA then ''NSSA external'' else ''unknown'')"

text \<open>\<open>if let Some(bits) = prefix_length(mask) && let Ok(prefix) = Ipv4Net::new(...)\<close> and the push.\<close>

definition masked_prefix ::
    "ipnet_ops \<Rightarrow> 32 word \<Rightarrow> 32 word \<Rightarrow> u32 \<Rightarrow> string \<Rightarrow> bool \<Rightarrow> advertised_prefix list" where
  "masked_prefix ops address m metric lsa_type withdrawn =
     (case prefix_length m of
        None \<Rightarrow> []
      | Some bits \<Rightarrow>
          if 32 < bits then []
          else [\<lparr>ap_prefix = V4Net (trunc4 ops address bits) bits, ap_metric = metric,
                 ap_lsa_type = lsa_type, ap_withdrawn = withdrawn\<rparr>])"

fun stub_links :: "ipnet_ops \<Rightarrow> bool \<Rightarrow> nat \<Rightarrow> bytes \<Rightarrow> advertised_prefix list" where
  "stub_links ops withdrawn 0 rest = []"
| "stub_links ops withdrawn (Suc n) rest =
     (if length rest < 12 then []
      else
        let link = take 12 rest in
        (if link ! 8 = 3
         then masked_prefix ops (u32_at link 0) (u32_at link 4) (ucast (u16_at link 10))
                ''router (stub link)'' withdrawn
         else []) @
        stub_links ops withdrawn n (drop (12 + 4 * unat (link ! 9)) rest))"

definition read_v2_lsa :: "ipnet_ops \<Rightarrow> bytes \<Rightarrow> decoded_lsa option" where
  "read_v2_lsa ops body =
     (if length body < 20 then None
      else
        let age = u16_at body 0; kind = body ! 3; link_state_id = u32_at body 4;
            seqno = u32_at body 12; len = unat (u16_at body 18)
        in if len < 20 \<or> length body < len then None
           else
             let withdrawn = (MAX_AGE \<le> age); contents = drop 20 (take len body);
                 prefixes =
                   (if kind = LSA_SUMMARY_NETWORK \<or> kind = LSA_SUMMARY_ASBR \<or> kind = LSA_EXTERNAL \<or>
                       kind = LSA_NSSA
                    then (if 8 \<le> length contents
                          then masked_prefix ops link_state_id (u32_at contents 0)
                                 (be32 0 (contents ! 5) (contents ! 6) (contents ! 7))
                                 (v2_lsa_name kind) withdrawn
                          else [])
                    else if kind = LSA_ROUTER
                    then (if 4 \<le> length contents
                          then stub_links ops withdrawn (unat (min (u16_at contents 2) 128)) (drop 4 contents)
                          else [])
                    else if kind = LSA_NETWORK \<and> 4 \<le> length contents
                    then masked_prefix ops link_state_id (u32_at contents 0) 0 ''network'' withdrawn
                    else [])
             in Some \<lparr>dl_length = len, dl_sequence = seqno, dl_prefixes = prefixes\<rparr>)"

text \<open>The loop over the LSAs of an update, the same for both versions: sequences and prefixes.\<close>

fun read_lsas ::
    "(bytes \<Rightarrow> decoded_lsa option) \<Rightarrow> nat \<Rightarrow> bytes \<Rightarrow> u32 list \<times> advertised_prefix list" where
  "read_lsas reader 0 rest = ([], [])"
| "read_lsas reader (Suc n) rest =
     (case reader rest of
        None \<Rightarrow> ([], [])
      | Some lsa \<Rightarrow>
          let (sequences, prefixes) =
                (if length rest \<le> dl_length lsa then ([], [])
                 else read_lsas reader n (drop (dl_length lsa) rest))
          in (dl_sequence lsa # sequences, dl_prefixes lsa @ prefixes))"

text \<open>\<open>body[20..].as_chunks::<4>().0\<close>: the whole groups of four.\<close>

fun neighbour_ids :: "bytes \<Rightarrow> 32 word list" where
  "neighbour_ids (a # b # c # d # rest) = be32 a b c d # neighbour_ids rest"
| "neighbour_ids _ = []"

text \<open>The \<open>match payload[1]\<close> of both parsers; \<open>None\<close> is its early return.\<close>

definition decode_body ::
    "(bytes \<Rightarrow> decoded_lsa option) \<Rightarrow> u8 \<Rightarrow> bytes \<Rightarrow> ospf_packet \<Rightarrow> ospf_packet option" where
  "decode_body reader kind body decoded =
     (if kind = HELLO \<and> 20 \<le> length body
      then Some (decoded\<lparr>op_neighbours := neighbour_ids (drop 20 body)\<rparr>)
      else if kind = LINK_STATE_UPDATE
      then (if length body < 4 then None
            else
              let (sequences, prefixes) = read_lsas reader (unat (min (u32_at body 0) 256)) (drop 4 body)
              in Some (decoded\<lparr>op_sequences := sequences, op_prefixes := prefixes\<rparr>))
      else Some decoded)"

definition zero_authentication :: "bytes \<Rightarrow> bytes" where
  "zero_authentication packet = take 16 packet @ replicate 8 0 @ drop 24 packet"

definition parse_v2 :: "ipnet_ops \<Rightarrow> bytes \<Rightarrow> ospf_packet option" where
  "parse_v2 ops payload =
     (if length payload < 24 \<or> payload ! 0 \<noteq> 2 then None
      else
        let len = unat (u16_at payload 2) in
        if len < 24 \<or> length payload < len then None
        else
          let packet = zero_authentication (take len payload) in
          if internet_checksum packet \<noteq> 0 then None
          else decode_body (read_v2_lsa ops) (payload ! 1) (drop 24 packet)
                 \<lparr>op_protocol = ''OSPFv2'', op_router_id = u32_at payload 4, op_area = u32_at payload 8,
                  op_authentication = auth_from_type (u16_at payload 14), op_hello = (payload ! 1 = HELLO),
                  op_neighbours = [], op_prefixes = [], op_sequences = [], op_raw = packet\<rparr>)"

section \<open>OSPFv3\<close>

definition v3_lsa_name :: "u16 \<Rightarrow> string" where
  "v3_lsa_name kind =
     (if kind = LSA_V3_INTRA_AREA_PREFIX then ''intra-area prefix''
      else if kind = LSA_V3_INTER_AREA_PREFIX then ''inter-area prefix''
      else if kind = LSA_V3_EXTERNAL then ''AS external''
      else if kind = LSA_V3_NSSA then ''NSSA external'' else ''unknown'')"

text \<open>\<open>Ipv6Addr::from\<close> on sixteen bytes.\<close>

definition ipv6_of_bytes :: "bytes \<Rightarrow> 128 word" where
  "ipv6_of_bytes bs = fold (\<lambda>b a. push_bit 8 a OR ucast b) bs 0"

definition div_ceil :: "nat \<Rightarrow> nat \<Rightarrow> nat" where
  "div_ceil a b = (a + b - 1) div b"

definition read_v3_prefix :: "ipnet_ops \<Rightarrow> bytes \<Rightarrow> bool \<Rightarrow> (ip_net \<times> u32 \<times> nat) option" where
  "read_v3_prefix ops bs carries_metric =
     (if length bs < 4 then None
      else
        let prefix_len = unat (bs ! 0) in
        if 128 < prefix_len then None
        else
          let significant = div_ceil prefix_len 8; padded = div_ceil significant 4 * 4 in
          if length bs < 4 + padded then None
          else
            let metric = (if carries_metric then ucast (u16_at bs 2) else 0);
                raw = take significant (drop 4 bs) @ replicate (16 - significant) 0
            in Some (V6Net (trunc6 ops (ipv6_of_bytes raw) prefix_len) prefix_len, metric, 4 + padded))"

fun v3_prefixes :: "ipnet_ops \<Rightarrow> string \<Rightarrow> bool \<Rightarrow> nat \<Rightarrow> bytes \<Rightarrow> advertised_prefix list" where
  "v3_prefixes ops name withdrawn 0 rest = []"
| "v3_prefixes ops name withdrawn (Suc n) rest =
     (case read_v3_prefix ops rest True of
        None \<Rightarrow> []
      | Some (prefix, metric, used) \<Rightarrow>
          \<lparr>ap_prefix = prefix, ap_metric = metric, ap_lsa_type = name, ap_withdrawn = withdrawn\<rparr>
          # v3_prefixes ops name withdrawn n (drop used rest))"

definition read_v3_lsa :: "ipnet_ops \<Rightarrow> bytes \<Rightarrow> decoded_lsa option" where
  "read_v3_lsa ops body =
     (if length body < 20 then None
      else
        let age = u16_at body 0; kind = u16_at body 2; seqno = u32_at body 12;
            len = unat (u16_at body 18)
        in if len < 20 \<or> length body < len then None
           else
             let withdrawn = (MAX_AGE \<le> age); contents = drop 20 (take len body);
                 name = v3_lsa_name kind;
                 prefixes =
                   (if kind = LSA_V3_INTRA_AREA_PREFIX
                    then (if 12 \<le> length contents
                          then v3_prefixes ops name withdrawn (unat (min (u16_at contents 0) 128))
                                 (drop 12 contents)
                          else [])
                    else if (kind = LSA_V3_INTER_AREA_PREFIX \<or> kind = LSA_V3_EXTERNAL \<or>
                             kind = LSA_V3_NSSA) \<and> 8 \<le> length contents
                    then (case read_v3_prefix ops (drop 4 contents) False of
                            None \<Rightarrow> []
                          | Some (prefix, _, _) \<Rightarrow>
                              [\<lparr>ap_prefix = prefix,
                                ap_metric = be32 0 (contents ! 1) (contents ! 2) (contents ! 3),
                                ap_lsa_type = name, ap_withdrawn = withdrawn\<rparr>])
                    else [])
             in Some \<lparr>dl_length = len, dl_sequence = seqno, dl_prefixes = prefixes\<rparr>)"

definition parse_v3 :: "ipnet_ops \<Rightarrow> bytes \<Rightarrow> ospf_packet option" where
  "parse_v3 ops payload =
     (if length payload < 16 \<or> payload ! 0 \<noteq> 3 then None
      else
        let len = unat (u16_at payload 2) in
        if len < 16 \<or> length payload < len then None
        else decode_body (read_v3_lsa ops) (payload ! 1) (drop 16 (take len payload))
               \<lparr>op_protocol = ''OSPFv3'', op_router_id = u32_at payload 4, op_area = u32_at payload 8,
                op_authentication = AuthNone, op_hello = (payload ! 1 = HELLO), op_neighbours = [],
                op_prefixes = [], op_sequences = [], op_raw = take len payload\<rparr>)"

section \<open>Authentication data\<close>

text \<open>
  C35: the authentication field never leaves the decoder. Two OSPFv2 packets that differ only in
  the eight bytes that hold a password or a digest are read as the same packet, kept bytes
  included: nothing that is kept, printed or sent on can depend on them.
\<close>

theorem authentication_never_leaves:
  assumes "take 16 p = take 16 q" and "drop 24 p = drop 24 q" and "length p = length q"
  shows "parse_v2 ops p = parse_v2 ops q"
proof (cases "length q < 24")
  case True
  then show ?thesis using assms(3) by (simp add: parse_v2_def)
next
  case False
  have n: "p ! i = q ! i" if "i < 16" for i
    using arg_cong [OF assms(1), of "\<lambda>l. l ! i"] that by simp
  have at: "p ! 0 = q ! 0" "p ! 1 = q ! 1" "u16_at p 2 = u16_at q 2" "u16_at p 14 = u16_at q 14"
      "u32_at p 4 = u32_at q 4" "u32_at p 8 = u32_at q 8"
    by (simp_all add: u16_at_def u32_at_def n)
  have z: "zero_authentication (take len p) = zero_authentication (take len q)" if "24 \<le> len" for len
    using assms(1,2) that by (simp add: zero_authentication_def drop_take min_def)
  show ?thesis
    unfolding parse_v2_def at assms(3) Let_def using z [of "unat (u16_at q 2)"] by (simp add: not_less)
qed

section \<open>Hellos and currency\<close>

lemma decode_body_cases:
  assumes "decode_body reader kind body d = Some p"
  shows "op_authentication p = op_authentication d \<and> op_hello p = op_hello d \<and> op_raw p = op_raw d \<and>
     (op_prefixes p = op_prefixes d \<or>
      kind = LINK_STATE_UPDATE \<and>
      (op_sequences p, op_prefixes p) = read_lsas reader (unat (min (u32_at body 0) 256)) (drop 4 body))"
  using assms by (auto simp: decode_body_def Let_def split: if_splits prod.splits)

lemma parse_v2_body:
  assumes "parse_v2 ops payload = Some p"
  obtains d where "decode_body (read_v2_lsa ops) (payload ! 1)
      (drop 24 (zero_authentication (take (unat (u16_at payload 2)) payload))) d = Some p"
    and "op_prefixes d = []" "op_hello d \<longleftrightarrow> payload ! 1 = HELLO"
    and "op_authentication d = auth_from_type (u16_at payload 14)"
    and "op_raw d = zero_authentication (take (unat (u16_at payload 2)) payload)"
  using assms by (force simp: parse_v2_def Let_def split: if_splits)

lemma parse_v3_body:
  assumes "parse_v3 ops payload = Some p"
  obtains d where "decode_body (read_v3_lsa ops) (payload ! 1)
      (drop 16 (take (unat (u16_at payload 2)) payload)) d = Some p"
    and "op_prefixes d = []" "op_hello d \<longleftrightarrow> payload ! 1 = HELLO" "op_authentication d = AuthNone"
  using assms by (force simp: parse_v3_def Let_def split: if_splits)

lemma hello_is_not_update: "HELLO \<noteq> LINK_STATE_UPDATE"
  by (simp add: HELLO_def LINK_STATE_UPDATE_def)

text \<open>
  What a packet may establish. A hello carries no prefix in either version; a packet under a
  digest (or an unknown scheme) has no current prefix; and what is current was advertised in the
  packet by an LSA that was not at MaxAge.
\<close>

theorem hello_and_unverifiable_create_no_network:
  assumes "parse_v2 ops payload = Some p \<or> parse_v3 ops payload = Some p"
  shows "(op_hello p \<longrightarrow> op_prefixes p = []) \<and>
     (\<not> routes_are_verifiable (op_authentication p) \<longrightarrow> current_prefixes p = []) \<and>
     set (current_prefixes p) \<subseteq> {x \<in> set (op_prefixes p). \<not> ap_withdrawn x}"
proof -
  have "op_hello p \<Longrightarrow> op_prefixes p = []"
    using assms
  proof
    assume "op_hello p" "parse_v2 ops payload = Some p"
    from this(2) show "op_prefixes p = []"
      by (rule parse_v2_body) (use \<open>op_hello p\<close> decode_body_cases hello_is_not_update in fastforce)
  next
    assume "op_hello p" "parse_v3 ops payload = Some p"
    from this(2) show "op_prefixes p = []"
      by (rule parse_v3_body) (use \<open>op_hello p\<close> decode_body_cases hello_is_not_update in fastforce)
  qed
  then show ?thesis by (auto simp: current_prefixes_def)
qed

section \<open>Bounds\<close>

definition prefix4_ok :: "ipnet_ops \<Rightarrow> advertised_prefix \<Rightarrow> bool" where
  "prefix4_ok ops x \<longleftrightarrow> (\<exists>a n. n \<le> 32 \<and> ap_prefix x = V4Net (trunc4 ops a n) n)"

definition prefix6_ok :: "ipnet_ops \<Rightarrow> advertised_prefix \<Rightarrow> bool" where
  "prefix6_ok ops x \<longleftrightarrow> (\<exists>a n. n \<le> 128 \<and> ap_prefix x = V6Net (trunc6 ops a n) n)"

text \<open>What the loop over the LSAs needs of a reader: each LSA yields at most \<open>k\<close> good prefixes.\<close>

locale lsa_reader =
  fixes reader :: "bytes \<Rightarrow> decoded_lsa option" and ok :: "advertised_prefix \<Rightarrow> bool" and k :: nat
  assumes read_ok: "reader body = Some lsa \<Longrightarrow> list_all ok (dl_prefixes lsa) \<and> length (dl_prefixes lsa) \<le> k"
    and read_progress: "reader body = Some lsa \<Longrightarrow> 20 \<le> dl_length lsa \<and> dl_length lsa \<le> length body"
begin

lemma read_lsas_ok:
  "list_all ok (snd (read_lsas reader n rest)) \<and> length (snd (read_lsas reader n rest)) \<le> n * k \<and>
   length (fst (read_lsas reader n rest)) \<le> n \<and> 20 * length (fst (read_lsas reader n rest)) \<le> length rest"
proof (induction n arbitrary: rest)
  case (Suc n)
  show ?case
  proof (cases "reader rest")
    case (Some lsa)
    have lsa: "list_all ok (dl_prefixes lsa)" "length (dl_prefixes lsa) \<le> k"
      using read_ok [OF Some] by simp_all
    have len: "20 \<le> dl_length lsa" "dl_length lsa \<le> length rest" using read_progress [OF Some] by simp_all
    show ?thesis
    proof (cases "length rest \<le> dl_length lsa")
      case True
      then show ?thesis using Some lsa len by simp
    next
      case False
      obtain ss ps where r: "read_lsas reader n (drop (dl_length lsa) rest) = (ss, ps)" by fastforce
      have "list_all ok ps \<and> length ps \<le> n * k \<and> length ss \<le> n \<and>
          20 * length ss \<le> length (drop (dl_length lsa) rest)"
        using Suc.IH [of "drop (dl_length lsa) rest"] unfolding r fst_conv snd_conv .
      moreover from this have "20 * length ss \<le> length rest - dl_length lsa" by simp
      then have "20 + 20 * length ss \<le> length rest" using len False by linarith
      ultimately show ?thesis using Some lsa False r by simp
    qed
  qed simp
qed simp

end

lemma masked_prefix_ok:
  "list_all (prefix4_ok ops) (masked_prefix ops a m metric t w)" "length (masked_prefix ops a m metric t w) \<le> 1"
  by (auto simp: masked_prefix_def prefix4_ok_def split: option.splits)

lemma stub_links_ok:
  "list_all (prefix4_ok ops) (stub_links ops w n rest) \<and> length (stub_links ops w n rest) \<le> n"
proof (induction n arbitrary: rest)
  case (Suc n)
  have "length (masked_prefix ops a m metric t w @ stub_links ops w n xs) \<le> Suc n" for a m metric t xs
    using masked_prefix_ok(2) [of ops a m metric t w] Suc [of xs] by simp
  then show ?case using Suc by (auto simp: Let_def masked_prefix_ok(1) le_SucI)
qed simp

lemma read_v3_prefix_ok:
  "read_v3_prefix ops bs c = Some (prefix, metric, used) \<Longrightarrow>
     (\<exists>a n. n \<le> 128 \<and> prefix = V6Net (trunc6 ops a n) n) \<and> used \<le> length bs"
  by (auto simp: read_v3_prefix_def Let_def split: if_splits)

lemma v3_prefixes_ok:
  "list_all (prefix6_ok ops) (v3_prefixes ops name w n rest) \<and> length (v3_prefixes ops name w n rest) \<le> n"
proof (induction n arbitrary: rest)
  case (Suc n)
  show ?case
  proof (cases "read_v3_prefix ops rest True")
    case (Some t)
    obtain prefix metric used where t: "t = (prefix, metric, used)" by (cases t)
    show ?thesis using Suc read_v3_prefix_ok [OF Some [unfolded t]] Some t by (auto simp: prefix6_ok_def)
  qed simp
qed simp

lemma unat_min_128: "unat (min (w :: u16) 128) \<le> 128"
proof -
  have "min w 128 \<le> 128" by simp
  then show ?thesis using word_le_nat_alt [of "min w 128" 128] by simp
qed

lemma unat_min_256: "unat (min (w :: u32) 256) \<le> 256"
proof -
  have "min w 256 \<le> 256" by simp
  then show ?thesis using word_le_nat_alt [of "min w 256" 256] by simp
qed

interpretation v2: lsa_reader "read_v2_lsa ops" "prefix4_ok ops" 128 for ops
proof
  fix body lsa assume r: "read_v2_lsa ops body = Some lsa"
  then show "20 \<le> dl_length lsa \<and> dl_length lsa \<le> length body"
    by (auto simp: read_v2_lsa_def Let_def split: if_splits)
  have m: "list_all (prefix4_ok ops) (masked_prefix ops a m metric t w) \<and>
      length (masked_prefix ops a m metric t w) \<le> 128" for a m metric t w
    using masked_prefix_ok [of ops a m metric t w] by simp
  have s: "list_all (prefix4_ok ops) (stub_links ops w (unat (min v 128)) xs) \<and>
      length (stub_links ops w (unat (min v 128)) xs) \<le> 128" for w and v :: u16 and xs
    using stub_links_ok [of ops w "unat (min v 128)" xs] unat_min_128 [of v] by simp
  from r show "list_all (prefix4_ok ops) (dl_prefixes lsa) \<and> length (dl_prefixes lsa) \<le> 128"
    using m s by (auto simp: read_v2_lsa_def Let_def split: if_splits)
qed

interpretation v3: lsa_reader "read_v3_lsa ops" "prefix6_ok ops" 128 for ops
proof
  fix body lsa assume r: "read_v3_lsa ops body = Some lsa"
  then show "20 \<le> dl_length lsa \<and> dl_length lsa \<le> length body"
    by (auto simp: read_v3_lsa_def Let_def split: if_splits)
  have s: "list_all (prefix6_ok ops) (v3_prefixes ops t w (unat (min v 128)) xs) \<and>
      length (v3_prefixes ops t w (unat (min v 128)) xs) \<le> 128" for t w and v :: u16 and xs
    using v3_prefixes_ok [of ops t w "unat (min v 128)" xs] unat_min_128 [of v] by simp
  from r show "list_all (prefix6_ok ops) (dl_prefixes lsa) \<and> length (dl_prefixes lsa) \<le> 128"
    using s by (auto simp: read_v3_lsa_def Let_def prefix6_ok_def dest!: read_v3_prefix_ok
        split: if_splits option.splits)
qed

lemma decode_body_ok:
  assumes "lsa_reader reader ok k" and "decode_body reader kind body d = Some p" and "op_prefixes d = []"
  shows "list_all ok (op_prefixes p) \<and> length (op_prefixes p) \<le> 256 * k"
proof -
  let ?n = "unat (min (u32_at body 0) 256)"
  have "?n * k \<le> 256 * k" using unat_min_256 [of "u32_at body 0"] by (rule mult_le_mono1)
  with lsa_reader.read_lsas_ok [OF assms(1), of ?n "drop 4 body"]
  have "list_all ok (snd (read_lsas reader ?n (drop 4 body))) \<and>
      length (snd (read_lsas reader ?n (drop 4 body))) \<le> 256 * k" by linarith
  moreover have "op_prefixes p = [] \<or> op_prefixes p = snd (read_lsas reader ?n (drop 4 body))"
    using decode_body_cases [OF assms(2)] assms(3) by (metis snd_conv)
  ultimately show ?thesis by auto
qed

text \<open>
  No packet can inflate the topology. Whatever bytes arrive, an OSPFv2 packet yields at most
  256 * 128 prefixes, each an IPv4 network of at most 32 bits, and an OSPFv3 packet at most as
  many, each an IPv6 network of at most 128 bits.
\<close>

theorem prefixes_are_bounded:
  "(case parse_v2 ops payload of
      None \<Rightarrow> True
    | Some p \<Rightarrow> list_all (prefix4_ok ops) (op_prefixes p) \<and> length (op_prefixes p) \<le> 32768) \<and>
   (case parse_v3 ops payload of
      None \<Rightarrow> True
    | Some p \<Rightarrow> list_all (prefix6_ok ops) (op_prefixes p) \<and> length (op_prefixes p) \<le> 32768)"
proof (intro conjI)
  show "case parse_v2 ops payload of None \<Rightarrow> True
    | Some p \<Rightarrow> list_all (prefix4_ok ops) (op_prefixes p) \<and> length (op_prefixes p) \<le> 32768"
    by (auto split: option.splits elim!: parse_v2_body dest: decode_body_ok [OF v2.lsa_reader_axioms])
  show "case parse_v3 ops payload of None \<Rightarrow> True
    | Some p \<Rightarrow> list_all (prefix6_ok ops) (op_prefixes p) \<and> length (op_prefixes p) \<le> 32768"
    by (auto split: option.splits elim!: parse_v3_body dest: decode_body_ok [OF v3.lsa_reader_axioms])
qed

section \<open>Updates\<close>

text \<open>
  A summary, external or NSSA advertisement as a router fills it in, and a link-state update that
  carries several, with the header checksum computed over the packet with a zeroed authentication
  field.
\<close>

record summary_lsa =
  sl_age :: u16
  sl_options :: u8
  sl_kind :: u8
  sl_id :: "32 word"
  sl_router :: "32 word"
  sl_sequence :: u32
  sl_checksum :: u16
  sl_length :: nat
  sl_metric :: u32

definition encode_lsa :: "summary_lsa \<Rightarrow> bytes" where
  "encode_lsa l =
     u16_bytes (sl_age l) @ [sl_options l, sl_kind l] @ u32_bytes (sl_id l) @ u32_bytes (sl_router l) @
     u32_bytes (sl_sequence l) @ u16_bytes (sl_checksum l) @ u16_bytes 28 @
     u32_bytes (netmask (sl_length l)) @ u32_bytes (sl_metric l)"

definition lsa_ok :: "summary_lsa \<Rightarrow> bool" where
  "lsa_ok l \<longleftrightarrow> sl_length l \<le> 32 \<and>
     (sl_kind l = LSA_SUMMARY_NETWORK \<or> sl_kind l = LSA_EXTERNAL \<or> sl_kind l = LSA_NSSA)"

definition prefix_of :: "ipnet_ops \<Rightarrow> summary_lsa \<Rightarrow> advertised_prefix" where
  "prefix_of ops l =
     \<lparr>ap_prefix = V4Net (trunc4 ops (sl_id l) (sl_length l)) (sl_length l),
      ap_metric = take_bit 24 (sl_metric l), ap_lsa_type = v2_lsa_name (sl_kind l),
      ap_withdrawn = (MAX_AGE \<le> sl_age l)\<rparr>"

definition update_body :: "summary_lsa list \<Rightarrow> bytes" where
  "update_body ls = u32_bytes (word_of_nat (length ls)) @ concat (map encode_lsa ls)"

definition update_head :: "32 word \<Rightarrow> 32 word \<Rightarrow> summary_lsa list \<Rightarrow> bytes" where
  "update_head router area ls =
     [2, LINK_STATE_UPDATE] @ u16_bytes (word_of_nat (24 + length (update_body ls))) @
     u32_bytes router @ u32_bytes area"

definition encode_update :: "32 word \<Rightarrow> 32 word \<Rightarrow> u16 \<Rightarrow> bytes \<Rightarrow> summary_lsa list \<Rightarrow> bytes" where
  "encode_update router area autype auth ls =
     update_head router area ls @
     u16_bytes (internet_checksum (update_head router area ls @ 0 # 0 #
       u16_bytes autype @ replicate 8 0 @ update_body ls)) @
     u16_bytes autype @ auth @ update_body ls"

lemma length_encode_lsa [simp]: "length (encode_lsa l) = 28"
  by (simp add: encode_lsa_def u16_bytes_def u32_bytes_def)

lemma length_update_body [simp]: "length (update_body ls) = 4 + 28 * length ls"
  unfolding update_body_def by (induction ls) (simp_all add: u32_bytes_def)

lemma length_update_head [simp]: "length (update_head router area ls) = 12"
  by (simp add: update_head_def u16_bytes_def u32_bytes_def)

lemma encode_lsa_fields:
  "u16_at (encode_lsa l @ rest) 0 = sl_age l" "(encode_lsa l @ rest) ! 3 = sl_kind l"
  "u32_at (encode_lsa l @ rest) 4 = sl_id l" "u32_at (encode_lsa l @ rest) 12 = sl_sequence l"
  "u16_at (encode_lsa l @ rest) 18 = 28"
  using be16_bytes [of 28] unfolding encode_lsa_def u16_at_def u32_at_def u16_bytes_def u32_bytes_def
  by (simp_all add: be16_bytes be32_bytes)

lemma be32_metric: "be32 0 (ucast (drop_bit 16 w)) (ucast (drop_bit 8 w)) (ucast w) = take_bit 24 w"
  unfolding be32_def
proof (rule bit_word_eqI)
  fix n assume "n < LENGTH(32)"
  then consider "n < 8" | "8 \<le> n \<and> n < 16" | "16 \<le> n \<and> n < 24" | "24 \<le> n \<and> n < 32" by fastforce
  then show "bit (push_bit 24 (ucast (0 :: u8)) OR push_bit 16 (ucast (ucast (drop_bit 16 w) :: u8)) OR
      push_bit 8 (ucast (ucast (drop_bit 8 w) :: u8)) OR ucast (ucast w :: u8) :: u32) n = bit (take_bit 24 w) n"
    by cases (auto simp: bit_simps)
qed

lemma encode_lsa_contents:
  "drop 20 (take 28 (encode_lsa l @ rest)) = u32_bytes (netmask (sl_length l)) @ u32_bytes (sl_metric l)"
  by (simp add: encode_lsa_def u16_bytes_def u32_bytes_def)

lemma lsa_contents_fields:
  "u32_at (u32_bytes a @ u32_bytes b) 0 = a"
  "be32 0 ((u32_bytes a @ u32_bytes b) ! 5) ((u32_bytes a @ u32_bytes b) ! 6)
     ((u32_bytes a @ u32_bytes b) ! 7) = take_bit 24 b"
  "length (u32_bytes a @ u32_bytes b) = 8"
  by (simp_all add: u32_bytes_def u32_at_def be32_bytes be32_metric)

lemma masked_prefix_netmask:
  "n \<le> 32 \<Longrightarrow> masked_prefix ops a (netmask n) metric t w =
     [\<lparr>ap_prefix = V4Net (trunc4 ops a n) n, ap_metric = metric, ap_lsa_type = t, ap_withdrawn = w\<rparr>]"
  using contiguous_prefix_len_iff [of "netmask n" n] by (simp add: masked_prefix_def prefix_length_def)

lemma read_encode_lsa:
  assumes "lsa_ok l"
  shows "read_v2_lsa ops (encode_lsa l @ rest) =
     Some \<lparr>dl_length = 28, dl_sequence = sl_sequence l, dl_prefixes = [prefix_of ops l]\<rparr>"
proof -
  have "sl_kind l = LSA_SUMMARY_NETWORK \<or> sl_kind l = LSA_SUMMARY_ASBR \<or> sl_kind l = LSA_EXTERNAL \<or>
      sl_kind l = LSA_NSSA" and "sl_length l \<le> 32"
    using assms by (auto simp: lsa_ok_def)
  moreover have len: "unat (28 :: u16) = 28" by simp
  ultimately show ?thesis
    unfolding read_v2_lsa_def encode_lsa_fields Let_def len encode_lsa_contents lsa_contents_fields
    by (simp add: masked_prefix_netmask prefix_of_def)
qed

lemma read_lsas_encoded:
  "list_all lsa_ok ls \<Longrightarrow> read_lsas (read_v2_lsa ops) (length ls) (concat (map encode_lsa ls)) =
     (map sl_sequence ls, map (prefix_of ops) ls)"
proof (induction ls)
  case (Cons l ls)
  then show ?case using read_encode_lsa [of l ops "[]"] by (cases ls) (simp_all add: read_encode_lsa)
qed simp

lemma update_fields:
  assumes "length ls \<le> 256"
  shows "unat (u16_at (encode_update r a t auth ls) 2) = 28 + 28 * length ls"
    and "encode_update r a t auth ls ! 0 = 2" "encode_update r a t auth ls ! 1 = LINK_STATE_UPDATE"
    and "u32_at (encode_update r a t auth ls) 4 = r" "u32_at (encode_update r a t auth ls) 8 = a"
    and "u16_at (encode_update r a t auth ls) 14 = t"
proof -
  have "unat (word_of_nat (28 + 28 * length ls) :: u16) = 28 + 28 * length ls"
    using assms by (simp add: unat_of_nat del: of_nat_add of_nat_mult)
  then show "unat (u16_at (encode_update r a t auth ls) 2) = 28 + 28 * length ls"
    unfolding encode_update_def update_head_def u16_at_def
    by (simp add: u16_bytes_def be16_bytes del: of_nat_add of_nat_mult)
qed (simp_all add: encode_update_def update_head_def u16_at_def u32_at_def u16_bytes_def u32_bytes_def
    be16_bytes be32_bytes)

lemma update_count:
  assumes "length ls \<le> 256"
  shows "unat (min (u32_at (update_body ls) 0) 256) = length ls"
proof -
  have "u32_at (update_body ls) 0 = word_of_nat (length ls)"
    by (simp add: update_body_def u32_at_def u32_bytes_def be32_bytes)
  moreover have "unat (word_of_nat (length ls) :: u32) = length ls"
    using assms by (simp add: unat_of_nat del: of_nat_add of_nat_mult)
  moreover have "word_of_nat (length ls) \<le> (256 :: u32)"
    using assms calculation(2) by (simp add: word_le_nat_alt)
  ultimately show ?thesis by (simp add: min_absorb1)
qed

lemma zeroed_update:
  assumes "length auth = 8"
  shows "zero_authentication (encode_update r a t auth ls) = encode_update r a t (replicate 8 0) ls"
proof -
  obtain pre where pre: "length pre = 16"
    "\<And>x. encode_update r a t x ls = pre @ x @ update_body ls"
    by (rule that [of "update_head r a ls @ u16_bytes (internet_checksum (update_head r a ls @ 0 # 0 #
       u16_bytes t @ replicate 8 0 @ update_body ls)) @ u16_bytes t"])
      (simp_all add: encode_update_def u16_bytes_def)
  show ?thesis using pre(1) assms by (simp add: zero_authentication_def pre(2))
qed

lemma update_checksum: "length ls \<le> 256 \<Longrightarrow> internet_checksum (encode_update r a t (replicate 8 0) ls) = 0"
  unfolding encode_update_def by (rule checksum_written_at) (simp_all add: u16_bytes_def)

text \<open>
  What a router floods is what is read. An OSPFv2 update of at most 256 summary, external and
  NSSA advertisements, under any authentication field, decodes to the router and area it names, its
  sequence numbers and exactly its prefixes in order, withdrawn where the age is MaxAge; the kept
  bytes are the packet with that field zeroed.
\<close>

theorem update_round_trip:
  assumes "length ls \<le> 256" and "list_all lsa_ok ls" and "length auth = 8"
  shows "parse_v2 ops (encode_update router area autype auth ls) =
     Some \<lparr>op_protocol = ''OSPFv2'', op_router_id = router, op_area = area,
           op_authentication = auth_from_type autype, op_hello = False, op_neighbours = [],
           op_prefixes = map (prefix_of ops) ls, op_sequences = map sl_sequence ls,
           op_raw = encode_update router area autype (replicate 8 0) ls\<rparr>"
proof -
  let ?p = "encode_update router area autype auth ls"
  have len: "length ?p = 28 + 28 * length ls" using assms(3) by (simp add: encode_update_def u16_bytes_def)
  have body: "drop 24 (encode_update router area autype (replicate 8 0) ls) = update_body ls"
    by (simp add: encode_update_def u16_bytes_def)
  have rest: "drop 4 (update_body ls) = concat (map encode_lsa ls)"
    by (simp add: update_body_def u32_bytes_def)
  have kind: "LINK_STATE_UPDATE \<noteq> HELLO" by (rule hello_is_not_update [symmetric])
  show ?thesis
    unfolding parse_v2_def update_fields [OF assms(1)] Let_def decode_body_def
    using kind by (simp add: len zeroed_update [OF assms(3)] update_checksum [OF assms(1)] body
        update_count [OF assms(1)] rest read_lsas_encoded [OF assms(2)])
qed

definition sample_lsa :: summary_lsa where
  "sample_lsa = \<lparr>sl_age = 1, sl_options = 2, sl_kind = 3, sl_id = 0x0A140000, sl_router = 0x01010101,
     sl_sequence = 0x80000001, sl_checksum = 0, sl_length = 16, sl_metric = 10\<rparr>"

definition sample_auth :: bytes where
  "sample_auth = [115, 51, 99, 114, 51, 116, 0, 0]"

theorem update_round_trip_witness:
  "length [sample_lsa, sample_lsa] \<le> 256 \<and> list_all lsa_ok [sample_lsa, sample_lsa] \<and> length sample_auth = 8 \<and>
   map_option op_prefixes (parse_v2 ipnet_model (encode_update 1 0 1 sample_auth [sample_lsa, sample_lsa])) =
     Some [prefix_of ipnet_model sample_lsa, prefix_of ipnet_model sample_lsa]"
proof -
  have ok: "list_all lsa_ok [sample_lsa, sample_lsa]" and a: "length sample_auth = 8" by code_simp+
  have n: "length [sample_lsa, sample_lsa] \<le> 256" by simp
  from update_round_trip [OF n ok a, of ipnet_model 1 0 1] ok a n show ?thesis by simp
qed

theorem authentication_never_leaves_witness:
  "encode_update 1 0 1 sample_auth [sample_lsa] \<noteq> encode_update 1 0 1 (rev sample_auth) [sample_lsa] \<and>
   parse_v2 ipnet_model (encode_update 1 0 1 sample_auth [sample_lsa]) =
     parse_v2 ipnet_model (encode_update 1 0 1 (rev sample_auth) [sample_lsa])"
proof -
  let ?p = "encode_update 1 0 1 sample_auth [sample_lsa]"
    and ?q = "encode_update 1 0 1 (rev sample_auth) [sample_lsa]"
  have "take 16 ?p = take 16 ?q" "drop 24 ?p = drop 24 ?q" "length ?p = length ?q"
    by (simp_all add: encode_update_def u16_bytes_def sample_auth_def)
  from authentication_never_leaves [OF this, of ipnet_model] show ?thesis
    by (simp add: encode_update_def sample_auth_def)
qed

theorem hello_and_unverifiable_create_no_network_witness:
  "(\<exists>p :: ospf_packet. parse_v2 ipnet_model (encode_update 1 0 2 sample_auth [sample_lsa]) = Some p \<and>
     \<not> routes_are_verifiable (op_authentication p) \<and> op_prefixes p \<noteq> [] \<and> current_prefixes p = [])"
proof -
  let ?u = "encode_update 1 0 2 sample_auth [sample_lsa]"
  have "map_option (\<lambda>p. \<not> routes_are_verifiable (op_authentication p) \<and> op_prefixes p \<noteq> [])
      (parse_v2 ipnet_model ?u) = Some True" by code_simp
  then obtain p where p: "parse_v2 ipnet_model ?u = Some p"
    "\<not> routes_are_verifiable (op_authentication p)" "op_prefixes p \<noteq> []" by auto
  from p(1) have "parse_v2 ipnet_model ?u = Some p \<or> parse_v3 ipnet_model ?u = Some p" ..
  from hello_and_unverifiable_create_no_network [OF this] p show ?thesis by blast
qed

end
