(* ===== verification/Inet_Route.thy ===== *)
theory Inet_Route
  imports Snmp_Ber Ospf
begin

text \<open>
  The index of the version-neutral routing table, \<open>inetCidrRouteTable\<close>, and what one row of it
  may claim (\<open>src/src/probes/inet_route.rs\<close>). The cursor \<open>at\<close> is the list of sub-identifiers that
  are left.
\<close>

section \<open>The index\<close>

datatype inet_address_type = InetUnknown | Ipv4 | Ipv6 | Ipv4z | Ipv6z

definition type_from_subid :: "u32 \<Rightarrow> inet_address_type option" where
  "type_from_subid subid =
     (if subid = 0 then Some InetUnknown else if subid = 1 then Some Ipv4
      else if subid = 2 then Some Ipv6 else if subid = 3 then Some Ipv4z
      else if subid = 4 then Some Ipv6z else None)"

fun address_len :: "inet_address_type \<Rightarrow> nat" where
  "address_len InetUnknown = 0"
| "address_len Ipv4 = 4"
| "address_len Ipv6 = 16"
| "address_len Ipv4z = 8"
| "address_len Ipv6z = 20"

fun max_prefix_len :: "inet_address_type \<Rightarrow> nat" where
  "max_prefix_len InetUnknown = 0"
| "max_prefix_len Ipv4 = 32"
| "max_prefix_len Ipv4z = 32"
| "max_prefix_len Ipv6 = 128"
| "max_prefix_len Ipv6z = 128"

fun inet_type_label :: "inet_address_type \<Rightarrow> string" where
  "inet_type_label InetUnknown = ''unknown''"
| "inet_type_label Ipv4 = ''ipv4''"
| "inet_type_label Ipv6 = ''ipv6''"
| "inet_type_label Ipv4z = ''ipv4z''"
| "inet_type_label Ipv6z = ''ipv6z''"

record inet_address =
  ia_family :: inet_address_type
  ia_address :: "ip_addr option"
  ia_zone :: "u32 option"

definition usable_as_identity :: "inet_address \<Rightarrow> bool" where
  "usable_as_identity a \<longleftrightarrow> ia_address a \<noteq> None \<and> ia_zone a = None"

definition describe_address :: "inet_address \<Rightarrow> string" where
  "describe_address a =
     (case (ia_address a, ia_zone a) of
        (Some address, Some zone) \<Rightarrow>
          ip_to_string address @ '' zone '' @ decimal (uint zone) @ '' ('' @ inet_type_label (ia_family a) @ '')''
      | (Some address, None) \<Rightarrow> ip_to_string address
      | (None, _) \<Rightarrow> inet_type_label (ia_family a))"

record inet_route_index =
  ix_destination :: inet_address
  ix_prefix_len :: nat
  ix_policy :: oid
  ix_next_hop :: inet_address

definition trunc_net :: "ipnet_ops \<Rightarrow> ip_addr \<Rightarrow> nat \<Rightarrow> ip_net option" where
  "trunc_net ops address n =
     (case address of
        V4 a \<Rightarrow> if 32 < n then None else Some (V4Net (trunc4 ops a n) n)
      | V6 a \<Rightarrow> if 128 < n then None else Some (V6Net (trunc6 ops a n) n))"

definition index_prefix :: "ipnet_ops \<Rightarrow> inet_route_index \<Rightarrow> ip_net option" where
  "index_prefix ops ix =
     (case ia_address (ix_destination ix) of
        None \<Rightarrow> None
      | Some address \<Rightarrow>
          if ia_zone (ix_destination ix) \<noteq> None then None
          else trunc_net ops address (ix_prefix_len ix))"

text \<open>\<open>u8::try_from\<close> on every sub-identifier that holds an octet.\<close>

definition octets_of :: "u32 list \<Rightarrow> bytes option" where
  "octets_of subids = (if list_all (\<lambda>s. s < 256) subids then Some (map ucast subids) else None)"

definition address_of :: "inet_address_type \<Rightarrow> bytes \<Rightarrow> inet_address" where
  "address_of family bs =
     (case family of
        InetUnknown \<Rightarrow> \<lparr>ia_family = family, ia_address = None, ia_zone = None\<rparr>
      | Ipv4 \<Rightarrow> \<lparr>ia_family = family, ia_address = Some (V4 (u32_at bs 0)), ia_zone = None\<rparr>
      | Ipv6 \<Rightarrow> \<lparr>ia_family = family, ia_address = Some (V6 (ipv6_of_bytes bs)), ia_zone = None\<rparr>
      | Ipv4z \<Rightarrow>
          \<lparr>ia_family = family, ia_address = Some (V4 (u32_at bs 0)), ia_zone = Some (u32_at bs 4)\<rparr>
      | Ipv6z \<Rightarrow>
          \<lparr>ia_family = family, ia_address = Some (V6 (ipv6_of_bytes (take 16 bs))),
           ia_zone = Some (u32_at bs 16)\<rparr>)"

definition read_address :: "u32 list \<Rightarrow> (inet_address \<times> u32 list) option" where
  "read_address subids =
     (case subids of
        [] \<Rightarrow> None
      | t # rest \<Rightarrow>
          (case type_from_subid t of
             None \<Rightarrow> None
           | Some family \<Rightarrow>
               (case rest of
                  [] \<Rightarrow> None
                | declared # rest' \<Rightarrow>
                    if unat declared \<noteq> address_len family then None
                    else if length rest' < unat declared then None
                    else
                      (case octets_of (take (unat declared) rest') of
                         None \<Rightarrow> None
                       | Some bs \<Rightarrow> Some (address_of family bs, drop (unat declared) rest')))))"

definition parse_index :: "u32 list \<Rightarrow> inet_route_index option" where
  "parse_index subids =
     (case read_address subids of
        None \<Rightarrow> None
      | Some (destination, []) \<Rightarrow> None
      | Some (destination, n # rest) \<Rightarrow>
          if 256 \<le> n \<or> max_prefix_len (ia_family destination) < unat n then None
          else
            (case rest of
               [] \<Rightarrow> None
             | policy_len # rest' \<Rightarrow>
                 if length rest' < unat policy_len then None
                 else
                   (case read_address (drop (unat policy_len) rest') of
                      Some (next_hop, []) \<Rightarrow>
                        Some \<lparr>ix_destination = destination, ix_prefix_len = unat n,
                              ix_policy = take (unat policy_len) rest', ix_next_hop = next_hop\<rparr>
                    | _ \<Rightarrow> None)))"

section \<open>Rows\<close>

datatype 'a column = Missing | Valid 'a | Invalid string

fun column_valid :: "'a column \<Rightarrow> 'a option" where
  "column_valid (Valid v) = Some v"
| "column_valid _ = None"

fun describe_column :: "string \<Rightarrow> 'a column \<Rightarrow> string" where
  "describe_column name Missing = name @ '' not returned''"
| "describe_column name (Valid _) = []"
| "describe_column name (Invalid reason) = name @ '' unreadable: '' @ reason"

datatype route_type = RtOther | RtReject | RtLocal | RtRemote | RtBlackhole

definition route_type_from_value :: "64 word \<Rightarrow> route_type option" where
  "route_type_from_value v =
     (if v = 1 then Some RtOther else if v = 2 then Some RtReject else if v = 3 then Some RtLocal
      else if v = 4 then Some RtRemote else if v = 5 then Some RtBlackhole else None)"

fun route_type_label :: "route_type \<Rightarrow> string" where
  "route_type_label RtOther = ''other(1)''"
| "route_type_label RtReject = ''reject(2)''"
| "route_type_label RtLocal = ''local(3)''"
| "route_type_label RtRemote = ''remote(4)''"
| "route_type_label RtBlackhole = ''blackhole(5)''"

definition discards :: "route_type \<Rightarrow> bool" where
  "discards t \<longleftrightarrow> t = RtReject \<or> t = RtBlackhole"

record inet_route =
  ir_index :: inet_route_index
  ir_instance :: oid
  ir_if_index :: "64 word option"
  ir_route_type :: "route_type column"
  ir_proto :: "64 word option"
  ir_metric :: "64 word option"
  ir_status :: "64 word column"

definition route_active :: "inet_route \<Rightarrow> bool" where
  "route_active r \<longleftrightarrow> ir_status r = Valid 1"

fun is_unspecified :: "ip_addr \<Rightarrow> bool" where
  "is_unspecified (V4 a) = is_unspecified4 a"
| "is_unspecified (V6 a) = is_unspecified6 a"

definition usable_next_hop :: "inet_route \<Rightarrow> ip_addr option" where
  "usable_next_hop r =
     (if \<not> usable_as_identity (ix_next_hop (ir_index r)) then None
      else
        (case ia_address (ix_next_hop (ir_index r)) of
           None \<Rightarrow> None
         | Some address \<Rightarrow> if is_unspecified address then None else Some address))"

definition describe_route :: "inet_route \<Rightarrow> string" where
  "describe_route r =
     join_with '', ''
       ([''inetCidrRoute '' @ describe_address (ix_destination (ir_index r)) @ ''/'' @
           decimal (int (ix_prefix_len (ir_index r))) @ '' via '' @ describe_address (ix_next_hop (ir_index r))] @
        (if ix_policy (ir_index r) = [] then [] else [''policy '' @ oid_text (ix_policy (ir_index r))]) @
        [case ir_route_type r of
           Valid kind \<Rightarrow> ''type '' @ route_type_label kind
         | other \<Rightarrow> describe_column ''type'' other] @
        (case ir_proto r of None \<Rightarrow> [] | Some p \<Rightarrow> [''proto '' @ signed_decimal (sint p)]) @
        (case ir_if_index r of None \<Rightarrow> [] | Some i \<Rightarrow> [''ifIndex '' @ signed_decimal (sint i)]) @
        (case ir_metric r of None \<Rightarrow> [] | Some m \<Rightarrow> [''metric '' @ signed_decimal (sint m)]) @
        [case ir_status r of
           Valid status \<Rightarrow> ''status '' @ signed_decimal (sint status)
         | other \<Rightarrow> describe_column ''status'' other] @
        [''instance '' @ oid_text (ir_instance r)])"

section \<open>The index is read exactly\<close>

definition encode_address :: "inet_address_type \<Rightarrow> bytes \<Rightarrow> u32 list" where
  "encode_address family bs =
     (case family of InetUnknown \<Rightarrow> 0 | Ipv4 \<Rightarrow> 1 | Ipv6 \<Rightarrow> 2 | Ipv4z \<Rightarrow> 3 | Ipv6z \<Rightarrow> 4)
     # word_of_nat (length bs) # map ucast bs"

lemma octets_of_bytes: "octets_of (map ucast (bs :: bytes)) = Some bs"
proof -
  have "(ucast b :: u32) < 256" for b :: u8
  proof -
    have "unat b < 2 ^ LENGTH(8)" by (rule unsigned_less)
    then show ?thesis by (simp add: word_less_nat_alt unsigned_ucast_eq take_bit_eq_mod)
  qed
  then have "list_all (\<lambda>s. s < 256) (map (ucast :: u8 \<Rightarrow> u32) bs)" by (simp add: list_all_iff)
  moreover have "map (\<lambda>b. ucast (ucast b :: u32)) bs = bs"
    by (rule map_idI) (rule bit_word_eqI, auto simp: bit_simps)
  ultimately show ?thesis by (simp add: octets_of_def comp_def)
qed

lemma read_encode_address:
  assumes "length bs = address_len family"
  shows "read_address (encode_address family bs @ rest) = Some (address_of family bs, rest)"
proof -
  have "unat (word_of_nat (length bs) :: u32) = length bs"
    using assms by (cases family) (simp_all add: unat_of_nat)
  then show ?thesis
    using assms octets_of_bytes [of bs]
    by (cases family) (simp_all add: read_address_def encode_address_def type_from_subid_def)
qed

text \<open>
  The index of a route is read as the agent encoded it, and only then. Destination, prefix
  length, policy and next hop come back exactly; one sub-identifier more at the end and the row is
  refused, and so is a prefix length the family does not admit.
\<close>

theorem route_index_round_trip:
  assumes "length dst = address_len family" and "length hop = address_len hop_family"
    and "length policy < 2 ^ 32" and "n < 256"
    and "index = encode_address family dst @ word_of_nat n # word_of_nat (length policy) # policy @
           encode_address hop_family hop"
  shows "parse_index index =
       (if n \<le> max_prefix_len family
        then Some \<lparr>ix_destination = address_of family dst, ix_prefix_len = n, ix_policy = policy,
                   ix_next_hop = address_of hop_family hop\<rparr>
        else None) \<and>
     (trailing \<noteq> [] \<longrightarrow> parse_index (index @ trailing) = None)"
proof -
  have fam: "ia_family (address_of family dst) = family" by (cases family) (simp_all add: address_of_def)
  have n: "unat (word_of_nat n :: u32) = n" "\<not> 256 \<le> (word_of_nat n :: u32)"
    using assms(4) by (simp_all add: unat_of_nat word_le_nat_alt)
  have p: "unat (word_of_nat (length policy) :: u32) = length policy"
    using assms(3) by (simp add: unat_of_nat)
  have hop: "read_address (encode_address hop_family hop @ t) = Some (address_of hop_family hop, t)" for t
    by (rule read_encode_address [OF assms(2)])
  have dst: "read_address (encode_address family dst @ t) = Some (address_of family dst, t)" for t
    by (rule read_encode_address [OF assms(1)])
  have "parse_index (index @ t) =
      (if n \<le> max_prefix_len family \<and> t = []
        then Some \<lparr>ix_destination = address_of family dst, ix_prefix_len = n, ix_policy = policy,
                   ix_next_hop = address_of hop_family hop\<rparr>
        else None)" for t
    using hop [of t] hop [of "[]"] unfolding assms(5) parse_index_def
    by (simp add: dst fam n p split: list.split)
  from this [of "[]"] this [of trailing] show ?thesis by simp
qed

theorem route_index_round_trip_witness:
  "parse_index (encode_address Ipv4 [10, 1, 0, 0] @ word_of_nat 16 # word_of_nat (length [0 :: u32, 0]) #
       [0, 0] @ encode_address Ipv4z [10, 0, 0, 1, 0, 0, 0, 3]) =
     Some \<lparr>ix_destination = address_of Ipv4 [10, 1, 0, 0], ix_prefix_len = 16, ix_policy = [0, 0],
           ix_next_hop = address_of Ipv4z [10, 0, 0, 1, 0, 0, 0, 3]\<rparr>"
  using route_index_round_trip [of "[10, 1, 0, 0]" Ipv4 "[10, 0, 0, 1, 0, 0, 0, 3]" Ipv4z "[0, 0]" 16, OF _ _ _ _ refl]
  by simp

end
