(* ===== verification/Snmp.thy ===== *)
theory Snmp
  imports Snmp_Codec Inet_Route Rust_Maps
begin

text \<open>
  The SNMP client (\<open>src/src/probes/snmp.rs\<close>): one validated exchange, the walk of a subtree and
  the tables it harvests. What the network and the clock do during an exchange is a record: the
  error of the bind or of the send, if any, the clock, and the receive events up to the timeout,
  which may depend on the request. The iteration order of a \<open>HashMap\<close> is an argument \<open>order\<close> on
  its keys.
\<close>

section \<open>One exchange\<close>

record snmp_target =
  st_device :: "32 word"
  st_transport :: "32 word \<times> u16"
  st_community :: string

definition direct_target :: "32 word \<Rightarrow> u16 \<Rightarrow> string \<Rightarrow> snmp_target" where
  "direct_target device port community =
     \<lparr>st_device = device, st_transport = (device, port), st_community = community\<rparr>"

datatype socket_source = FromV4 "32 word \<times> u16" | FromV6 "128 word \<times> u16"

text \<open>A receive: a datagram, or an error with its code and its text.\<close>

datatype recv_event = Received socket_source bytes | RecvError "int option" string

record exchange =
  ex_bind_error :: "string option"
  ex_clock :: "64 word"
  ex_send_error :: "string option"
  ex_events :: "bytes \<Rightarrow> recv_event list"

definition MAX_RESPONSE_BYTES :: nat where "MAX_RESPONSE_BYTES = 8192"

definition oversized_response :: string where
  "oversized_response =
     ''response exceeds the '' @ decimal (int MAX_RESPONSE_BYTES) @ ''-byte bound this reads''"

definition oversized_datagram :: "int option \<Rightarrow> bool" where
  "oversized_datagram raw_os_error \<longleftrightarrow> raw_os_error = Some 10040"

definition snmp_request_id :: "64 word \<Rightarrow> oid \<Rightarrow> 32 word" where
  "snmp_request_id clock oid =
     ucast ((clock XOR push_bit 16 (sum_list (map ucast oid))) AND 0x7FFFFFFF)"

text \<open>The checks on a decoded message, in their order.\<close>

definition validate_response ::
    "snmp_target \<Rightarrow> 32 word \<Rightarrow> u8 \<Rightarrow> oid \<Rightarrow> snmp_message \<Rightarrow> snmp_message outcome" where
  "validate_response target request_id pdu_type oid message =
     (let pdu = sm_pdu message in
      if sm_version message \<noteq> 1
      then Inl (''response used SNMP version '' @ signed_decimal (sint (sm_version message)) @
                '' where v2c was asked'')
      else if sm_community message \<noteq> st_community target then Inl ''response carried a different community''
      else if sp_pdu_type pdu \<noteq> PDU_GET_RESPONSE
      then Inl (''response was PDU type '' @ hex_literal (sp_pdu_type pdu) @ '', not a GetResponse'')
      else if sp_request_id pdu \<noteq> request_id then Inl ''response did not carry the request id it answers''
      else if sp_error_status pdu = 0 \<and> length (sp_varbinds pdu) \<noteq> 1
      then Inl (''response carried '' @ decimal (int (length (sp_varbinds pdu))) @
                '' varbinds where one OID was asked'')
      else if pdu_type = PDU_GET_REQUEST \<and> sp_error_status pdu = 0 \<and>
              (case sp_varbinds pdu of [] \<Rightarrow> None | (found, _) # _ \<Rightarrow> Some found) \<noteq> Some oid
      then Inl ''response answered about a different OID than the one asked''
      else Inr message)"

text \<open>The receive loop; when nothing more arrives, the request has timed out.\<close>

fun await_response ::
    "snmp_target \<Rightarrow> 32 word \<Rightarrow> u8 \<Rightarrow> oid \<Rightarrow> recv_event list \<Rightarrow> snmp_message outcome" where
  "await_response target request_id pdu_type oid [] = Inl ''SNMP request timed out''"
| "await_response target request_id pdu_type oid (RecvError code text # events) =
     (if oversized_datagram code then Inl oversized_response else Inl (''UDP recv error: '' @ text))"
| "await_response target request_id pdu_type oid (Received source datagram # events) =
     (if source \<noteq> FromV4 (st_transport target)
      then await_response target request_id pdu_type oid events
      else
        let buf = take (MAX_RESPONSE_BYTES + 1) datagram
        in if MAX_RESPONSE_BYTES < length buf then Inl oversized_response
           else and_then (decode_snmp_response buf) (validate_response target request_id pdu_type oid))"

definition snmp_request :: "snmp_target \<Rightarrow> u8 \<Rightarrow> oid \<Rightarrow> exchange \<Rightarrow> snmp_message outcome" where
  "snmp_request target pdu_type oid ex =
     (case ex_bind_error ex of
        Some e \<Rightarrow> Inl (''UDP bind error: '' @ e)
      | None \<Rightarrow>
          let request_id = snmp_request_id (ex_clock ex) oid;
              req_bytes = build_snmp_request 1 (st_community target) request_id pdu_type oid
          in case ex_send_error ex of
               Some e \<Rightarrow> Inl (''UDP send error: '' @ e)
             | None \<Rightarrow> await_response target request_id pdu_type oid (ex_events ex req_bytes))"

section \<open>The walk\<close>

datatype walk_end =
    EndOfMibView | LeftSubtree | AgentError "32 word" | OidDidNotAdvance
  | WalkInvalid string | WalkBounded string

record snmp_walk =
  wk_rows :: "(oid \<times> ber_value) list"
  wk_end :: walk_end

definition walk_complete :: "snmp_walk \<Rightarrow> bool" where
  "walk_complete w \<longleftrightarrow> wk_end w = EndOfMibView \<or> wk_end w = LeftSubtree"

text \<open>
  The steps that are left, with the number of the next one: \<open>expired\<close> says whether the total budget
  is spent when a step begins, and \<open>world\<close> is the exchange of each step.
\<close>

fun walk_steps ::
    "snmp_target \<Rightarrow> oid \<Rightarrow> (nat \<Rightarrow> bool) \<Rightarrow> (nat \<Rightarrow> exchange) \<Rightarrow> nat \<Rightarrow> nat \<Rightarrow> oid \<Rightarrow>
       (oid \<times> ber_value) list \<Rightarrow> snmp_walk" where
  "walk_steps target root expired world 0 step current rows =
     \<lparr>wk_rows = rows, wk_end = WalkBounded ''the walk's step limit''\<rparr>"
| "walk_steps target root expired world (Suc steps) step current rows =
     (if expired step then \<lparr>wk_rows = rows, wk_end = WalkBounded ''the walk's total time budget''\<rparr>
      else
        case snmp_request target PDU_GET_NEXT_REQUEST current (world step) of
          Inl reason \<Rightarrow> \<lparr>wk_rows = rows, wk_end = WalkInvalid reason\<rparr>
        | Inr message \<Rightarrow>
            if sp_error_status (sm_pdu message) \<noteq> 0
            then \<lparr>wk_rows = rows, wk_end = AgentError (sp_error_status (sm_pdu message))\<rparr>
            else
              case sp_varbinds (sm_pdu message) of
                [] \<Rightarrow> \<lparr>wk_rows = rows, wk_end = WalkInvalid ''response carried no varbind''\<rparr>
              | (next_oid, v) # _ \<Rightarrow>
                  if is_end_of_mib_view v then \<lparr>wk_rows = rows, wk_end = EndOfMibView\<rparr>
                  else if is_absent v then \<lparr>wk_rows = rows, wk_end = LeftSubtree\<rparr>
                  else if \<not> oid_starts_with next_oid root then \<lparr>wk_rows = rows, wk_end = LeftSubtree\<rparr>
                  else if next_oid \<le> current then \<lparr>wk_rows = rows, wk_end = OidDidNotAdvance\<rparr>
                  else walk_steps target root expired world steps (Suc step) next_oid
                         (rows @ [(next_oid, v)]))"

definition snmp_walk_target ::
    "snmp_target \<Rightarrow> oid \<Rightarrow> (nat \<Rightarrow> bool) \<Rightarrow> (nat \<Rightarrow> exchange) \<Rightarrow> nat \<Rightarrow> snmp_walk" where
  "snmp_walk_target target root expired world max_steps =
     walk_steps target root expired world max_steps 0 root []"

definition snmp_walk_rows ::
    "32 word \<Rightarrow> u16 \<Rightarrow> string \<Rightarrow> oid \<Rightarrow> (nat \<Rightarrow> bool) \<Rightarrow> (nat \<Rightarrow> exchange) \<Rightarrow> nat \<Rightarrow>
       (oid \<times> ber_value) list" where
  "snmp_walk_rows device port community root expired world max_steps =
     wk_rows (snmp_walk_target (direct_target device port community) root expired world max_steps)"

section \<open>Harvesting\<close>

record snmp_arp_entry =
  ae_ip :: "32 word"
  ae_mac :: string
  ae_if_index :: u32

record snmp_route_entry =
  re_dest_network :: "32 word"
  re_mask :: "32 word"
  re_next_hop :: "32 word"
  re_route_type :: "64 word option"

definition route_usable :: "snmp_route_entry \<Rightarrow> bool" where
  "route_usable r \<longleftrightarrow> re_route_type r \<noteq> Some 2"

definition route_direct :: "snmp_route_entry \<Rightarrow> bool" where
  "route_direct r \<longleftrightarrow> re_route_type r = Some 3"

record snmp_device_info =
  di_device :: "32 word option"
  di_forwarding :: "bool option"
  di_table_status :: "(string \<times> string) list"
  di_sys_descr :: "string option"
  di_sys_name :: "string option"
  di_arp_cache :: "snmp_arp_entry list"
  di_routes :: "snmp_route_entry list"
  di_local_ips :: "(32 word \<times> 32 word) list"

definition OID_SYS_DESCR :: string where "OID_SYS_DESCR = ''1.3.6.1.2.1.1.1.0''"
definition OID_SYS_NAME :: string where "OID_SYS_NAME = ''1.3.6.1.2.1.1.5.0''"
definition OID_IP_NET_TO_MEDIA_TABLE :: string where "OID_IP_NET_TO_MEDIA_TABLE = ''1.3.6.1.2.1.4.22.1''"
definition OID_IP_ROUTE_TABLE :: string where "OID_IP_ROUTE_TABLE = ''1.3.6.1.2.1.4.21.1''"
definition OID_INET_CIDR_ROUTE_TABLE :: string where "OID_INET_CIDR_ROUTE_TABLE = ''1.3.6.1.2.1.4.24.7.1''"
definition OID_IP_FORWARDING :: string where "OID_IP_FORWARDING = ''1.3.6.1.2.1.4.1.0''"
definition OID_IP_ADDR_TABLE :: string where "OID_IP_ADDR_TABLE = ''1.3.6.1.2.1.4.20.1''"

definition walk_status :: "snmp_walk \<Rightarrow> string" where
  "walk_status w =
     decimal (int (length (wk_rows w))) @
     (case wk_end w of
        EndOfMibView \<Rightarrow> '' row(s), complete''
      | LeftSubtree \<Rightarrow> '' row(s), complete''
      | AgentError status \<Rightarrow>
          '' row(s), incomplete: the agent reported error status '' @ signed_decimal (sint status)
      | OidDidNotAdvance \<Rightarrow> '' row(s), incomplete: the agent stopped advancing the OID''
      | WalkInvalid reason \<Rightarrow> '' row(s), incomplete: '' @ reason
      | WalkBounded bound \<Rightarrow> '' row(s), incomplete: stopped at '' @ bound)"

text \<open>One table's environment: the budget and the exchange of every step.\<close>

type_synonym walk_world = "(nat \<Rightarrow> bool) \<times> (nat \<Rightarrow> exchange)"

definition walk_table ::
    "snmp_target \<Rightarrow> oid \<Rightarrow> walk_world \<Rightarrow> string \<Rightarrow> snmp_device_info \<Rightarrow>
       (oid \<times> ber_value) list \<times> snmp_device_info" where
  "walk_table target root ww name info =
     (let w = snmp_walk_target target root (fst ww) (snd ww) 512
      in (wk_rows w, info\<lparr>di_table_status := di_table_status info @ [(name, walk_status w)]\<rparr>))"

text \<open>Rows of one table by their instance: \<open>entry(key).or_insert(...)\<close> and the assignment of a column.\<close>

definition assemble ::
    "(oid \<Rightarrow> 'e) \<Rightarrow> (u32 \<Rightarrow> ber_value \<Rightarrow> 'e \<Rightarrow> 'e) \<Rightarrow> (oid \<times> ber_value) list \<Rightarrow> (oid, 'e) hash_map" where
  "assemble fresh assign rows =
     fold (\<lambda>(oid, val) m.
        if 11 \<le> length oid
        then hm_entry (drop 10 oid) (fresh (drop 10 oid)) (assign (oid ! 9) val) m
        else m) rows []"

text \<open>Iterating a \<open>HashMap\<close>, its keys in the order they come.\<close>

definition iterate :: "(oid list \<Rightarrow> oid list) \<Rightarrow> (oid, 'e) hash_map \<Rightarrow> 'e list" where
  "iterate order m = List.map_filter (hm_get m) (order (map fst m))"

definition arp_column ::
    "u32 \<Rightarrow> ber_value \<Rightarrow> 32 word option \<times> string option \<times> u32 \<Rightarrow> 32 word option \<times> string option \<times> u32" where
  "arp_column column val e =
     (case e of (ip, mac, if_index) \<Rightarrow>
        if column = 2 then (ip, as_mac val, if_index)
        else if column = 3 then (as_ipv4 val, mac, if_index) else e)"

definition arp_entry :: "32 word option \<times> string option \<times> u32 \<Rightarrow> snmp_arp_entry option" where
  "arp_entry e =
     (case e of
        (Some ip, Some mac, if_idx) \<Rightarrow>
          if \<not> is_loopback4 ip \<and> \<not> is_broadcast4 ip \<and> mac \<noteq> ''00:00:00:00:00:00''
          then Some \<lparr>ae_ip = ip, ae_mac = mac, ae_if_index = if_idx\<rparr> else None
      | _ \<Rightarrow> None)"

definition arp_cache_of ::
    "(oid list \<Rightarrow> oid list) \<Rightarrow> (oid \<times> ber_value) list \<Rightarrow> snmp_arp_entry list" where
  "arp_cache_of order rows =
     List.map_filter arp_entry (iterate order (assemble (\<lambda>key. (None, None, key ! 0)) arp_column rows))"

type_synonym route_tuple = "32 word option \<times> 32 word option \<times> 32 word option \<times> 64 word option"

definition route_column :: "u32 \<Rightarrow> ber_value \<Rightarrow> route_tuple \<Rightarrow> route_tuple" where
  "route_column col val e =
     (case e of (dest, mask', hop, kind) \<Rightarrow>
        if col = 1 then (as_ipv4 val, mask', hop, kind)
        else if col = 7 then (dest, mask', as_ipv4 val, kind)
        else if col = 8 then
          (case val of BerInteger k \<Rightarrow> (dest, mask', hop, Some k) | _ \<Rightarrow> e)
        else if col = 11 then (dest, as_ipv4 val, hop, kind) else e)"

definition route_entry :: "route_tuple \<Rightarrow> snmp_route_entry option" where
  "route_entry e =
     (case e of
        (Some dest, Some mask', Some hop, kind) \<Rightarrow>
          if is_loopback4 dest then None
          else Some \<lparr>re_dest_network = dest, re_mask = mask', re_next_hop = hop, re_route_type = kind\<rparr>
      | _ \<Rightarrow> None)"

definition routes_of ::
    "(oid list \<Rightarrow> oid list) \<Rightarrow> (oid \<times> ber_value) list \<Rightarrow> snmp_route_entry list" where
  "routes_of order rows =
     List.map_filter route_entry (iterate order (assemble (\<lambda>_. (None, None, None, None)) route_column rows))"

definition address_column ::
    "u32 \<Rightarrow> ber_value \<Rightarrow> 32 word option \<times> 32 word option \<Rightarrow> 32 word option \<times> 32 word option" where
  "address_column col val e =
     (if col = 1 then (as_ipv4 val, snd e) else if col = 3 then (fst e, as_ipv4 val) else e)"

definition local_ip :: "32 word option \<times> 32 word option \<Rightarrow> (32 word \<times> 32 word) option" where
  "local_ip e =
     (case e of
        (Some ip, Some mask') \<Rightarrow> if is_loopback4 ip then None else Some (ip, mask')
      | _ \<Rightarrow> None)"

definition local_ips_of ::
    "(oid list \<Rightarrow> oid list) \<Rightarrow> (oid \<times> ber_value) list \<Rightarrow> (32 word \<times> 32 word) list" where
  "local_ips_of order rows =
     List.map_filter local_ip (iterate order (assemble (\<lambda>_. (None, None)) address_column rows))"

text \<open>The environment of a harvest: its three requests and its walks, by number.\<close>

record harvest_world =
  hw_get :: "nat \<Rightarrow> exchange"
  hw_walk :: "nat \<Rightarrow> walk_world"

definition first_value :: "snmp_message outcome \<Rightarrow> ber_value option" where
  "first_value r =
     (case r of
        Inl _ \<Rightarrow> None
      | Inr m \<Rightarrow> (case sp_varbinds (sm_pdu m) of [] \<Rightarrow> None | (_, v) # _ \<Rightarrow> Some v))"

definition get_value :: "snmp_target \<Rightarrow> string \<Rightarrow> exchange \<Rightarrow> ber_value option" where
  "get_value target name ex =
     (case oid_from_str name of
        Inl _ \<Rightarrow> None
      | Inr oid \<Rightarrow> first_value (snmp_request target PDU_GET_REQUEST oid ex))"

definition forwarding_of :: "ber_value option \<Rightarrow> bool option" where
  "forwarding_of v =
     (case v of
        Some (BerInteger i) \<Rightarrow> if i = 1 then Some True else if i = 2 then Some False else None
      | _ \<Rightarrow> None)"

text \<open>\<open>if let Ok(root) = Oid::from_str(...)\<close>, the walk, and what is kept of its rows.\<close>

definition harvest_table ::
    "snmp_target \<Rightarrow> string \<Rightarrow> walk_world \<Rightarrow> string \<Rightarrow>
       ((oid \<times> ber_value) list \<Rightarrow> snmp_device_info \<Rightarrow> snmp_device_info) \<Rightarrow> snmp_device_info \<Rightarrow>
       snmp_device_info" where
  "harvest_table target root_text ww name keep info =
     (case oid_from_str root_text of
        Inl _ \<Rightarrow> info
      | Inr root \<Rightarrow> (case walk_table target root ww name info of (rows, info') \<Rightarrow> keep rows info'))"

definition harvest_snmp_target ::
    "(oid list \<Rightarrow> oid list) \<Rightarrow> snmp_target \<Rightarrow> harvest_world \<Rightarrow> snmp_device_info option" where
  "harvest_snmp_target order target hw =
     (case get_value target OID_SYS_DESCR (hw_get hw 0) of
        None \<Rightarrow> None
      | Some descr \<Rightarrow>
          (case oid_from_str OID_SYS_NAME of
             Inl _ \<Rightarrow> None
           | Inr _ \<Rightarrow>
               let info =
                     \<lparr>di_device = Some (st_device target),
                      di_forwarding = forwarding_of (get_value target OID_IP_FORWARDING (hw_get hw 2)),
                      di_table_status = [], di_sys_descr = as_str descr,
                      di_sys_name = Option.bind (get_value target OID_SYS_NAME (hw_get hw 1)) as_str,
                      di_arp_cache = [], di_routes = [], di_local_ips = []\<rparr>
               in Some
                    (harvest_table target OID_IP_ADDR_TABLE (hw_walk hw 2) ''ipAddrTable''
                       (\<lambda>rows i. i\<lparr>di_local_ips := local_ips_of order rows\<rparr>)
                    (harvest_table target OID_IP_ROUTE_TABLE (hw_walk hw 1) ''ipRouteTable''
                       (\<lambda>rows i. i\<lparr>di_routes := routes_of order rows\<rparr>)
                    (harvest_table target OID_IP_NET_TO_MEDIA_TABLE (hw_walk hw 0) ''ipNetToMediaTable''
                       (\<lambda>rows i. i\<lparr>di_arp_cache := arp_cache_of order rows\<rparr>) info)))))"

definition harvest_snmp_device ::
    "(oid list \<Rightarrow> oid list) \<Rightarrow> 32 word \<Rightarrow> u16 \<Rightarrow> string \<Rightarrow> harvest_world \<Rightarrow> snmp_device_info option" where
  "harvest_snmp_device order device port community hw =
     harvest_snmp_target order (direct_target device port community) hw"

text \<open>The two columns that decide about a row are read strictly, the others only as integers.\<close>

definition inet_column :: "u32 \<Rightarrow> ber_value \<Rightarrow> inet_route \<Rightarrow> inet_route" where
  "inet_column column val r =
     (let number = (case val of BerInteger n \<Rightarrow> Some n | _ \<Rightarrow> None) in
      if column = 7 then (case number of None \<Rightarrow> r | Some n \<Rightarrow> r\<lparr>ir_if_index := Some n\<rparr>)
      else if column = 9 then (case number of None \<Rightarrow> r | Some n \<Rightarrow> r\<lparr>ir_proto := Some n\<rparr>)
      else if column = 12 then (case number of None \<Rightarrow> r | Some n \<Rightarrow> r\<lparr>ir_metric := Some n\<rparr>)
      else if column = 8 then
        r\<lparr>ir_route_type :=
            (case number of
               None \<Rightarrow> Invalid ''inetCidrRouteType was not an integer''
             | Some n \<Rightarrow>
                 (case route_type_from_value n of
                    Some kind \<Rightarrow> Valid kind
                  | None \<Rightarrow> Invalid (''inetCidrRouteType '' @ signed_decimal (sint n))))\<rparr>
      else if column = 17 then
        r\<lparr>ir_status :=
            (case number of
               None \<Rightarrow> Invalid ''inetCidrRouteStatus was not an integer''
             | Some n \<Rightarrow>
                 if 1 \<le> sint n \<and> sint n \<le> 6 then Valid n
                 else Invalid (''inetCidrRouteStatus '' @ signed_decimal (sint n)))\<rparr>
      else r)"

definition inet_row ::
    "nat \<Rightarrow> oid \<times> ber_value \<Rightarrow> (oid, inet_route) btree_map \<Rightarrow> (oid, inet_route) btree_map" where
  "inet_row n row m =
     (case row of (oid, val) \<Rightarrow>
        if length oid \<le> n then m
        else
          let index_subids = drop (Suc n) oid in
          case parse_index index_subids of
            None \<Rightarrow> m
          | Some index \<Rightarrow>
              bm_entry index_subids
                \<lparr>ir_index = index, ir_instance = oid, ir_if_index = None, ir_route_type = Missing,
                 ir_proto = None, ir_metric = None, ir_status = Missing\<rparr>
                (inet_column (oid ! n) val) m)"

definition inet_routes_of :: "oid \<Rightarrow> (oid \<times> ber_value) list \<Rightarrow> inet_route list" where
  "inet_routes_of root rows = map snd (fold (inet_row (length root)) rows [])"

definition harvest_inet_routes ::
    "snmp_target \<Rightarrow> walk_world \<Rightarrow> snmp_device_info \<Rightarrow> inet_route list \<times> snmp_device_info" where
  "harvest_inet_routes target ww info =
     (case oid_from_str OID_INET_CIDR_ROUTE_TABLE of
        Inl _ \<Rightarrow> ([], info)
      | Inr root \<Rightarrow>
          (case walk_table target root ww ''inetCidrRouteTable'' info of
             (rows, info') \<Rightarrow> (inet_routes_of root rows, info')))"

record snmp_harvest =
  sh_device :: snmp_device_info
  sh_inet_routes :: "inet_route list"

definition harvest_snmp_harvest ::
    "(oid list \<Rightarrow> oid list) \<Rightarrow> snmp_target \<Rightarrow> harvest_world \<Rightarrow> snmp_harvest option" where
  "harvest_snmp_harvest order target hw =
     map_option (\<lambda>device.
        case harvest_inet_routes target (hw_walk hw 3) device of
          (inet_routes, device') \<Rightarrow> \<lparr>sh_device = device', sh_inet_routes = inet_routes\<rparr>)
       (harvest_snmp_target order target hw)"

end
