(* ===== verification/Snmp_Props.thy ===== *)
theory Snmp_Props
  imports Snmp "HOL-Library.Multiset"
begin

text \<open>
  What an SNMP exchange, a walk and a harvest guarantee: only an answer to the request is taken,
  the rows of a walk are the subtree in order, and a table says of the device what its rows say.
\<close>

section \<open>Answers\<close>

lemma validated:
  assumes "validate_response target request_id pdu_type oid message = Inr m"
  shows "m = message \<and> sm_version m = 1 \<and> sm_community m = st_community target \<and>
     sp_pdu_type (sm_pdu m) = PDU_GET_RESPONSE \<and> sp_request_id (sm_pdu m) = request_id \<and>
     (sp_error_status (sm_pdu m) = 0 \<longrightarrow> length (sp_varbinds (sm_pdu m)) = 1 \<and>
        (pdu_type = PDU_GET_REQUEST \<longrightarrow> map fst (sp_varbinds (sm_pdu m)) = [oid]))"
  using assms
  by (auto simp: validate_response_def Let_def length_Suc_conv split: if_splits list.splits)

lemma awaited:
  "await_response target request_id pdu_type oid events = Inr m \<Longrightarrow>
     \<exists>d. Received (FromV4 (st_transport target)) d \<in> set events \<and> length d \<le> MAX_RESPONSE_BYTES \<and>
       decode_snmp_response d = Inr m \<and> validate_response target request_id pdu_type oid m = Inr m"
proof (induction target request_id pdu_type oid events rule: await_response.induct)
  case (3 target request_id pdu_type oid source d events)
  show ?case
  proof (cases "source = FromV4 (st_transport target)")
    case True
    then have len: "length d \<le> MAX_RESPONSE_BYTES"
      and "and_then (decode_snmp_response d) (validate_response target request_id pdu_type oid) = Inr m"
      using 3(2) by (auto simp: Let_def min_def split: if_splits)
    then obtain m' where "decode_snmp_response d = Inr m'"
        "validate_response target request_id pdu_type oid m' = Inr m"
      by (auto simp: and_then_Inr_iff)
    moreover from this validated have "m' = m" by blast
    ultimately show ?thesis using True len by auto
  next
    case False
    then show ?thesis using 3 by auto
  qed
qed (auto split: if_splits)

text \<open>
  C31: an exchange returns only an answer to its request. A message that is accepted is one datagram
  that came from the address the request was sent to, within the size bound, in version 2c, with the
  community and the request id of this request, and a GetResponse. Where it reports no error status it
  has exactly one varbind, and for a GET that varbind is about the OID that was asked; of the varbinds
  of an answer that reports an error nothing is said.
\<close>

theorem accepted_answer_is_for_the_request:
  assumes "snmp_request target pdu_type oid ex = Inr m"
  shows "\<exists>d. Received (FromV4 (st_transport target)) d \<in>
         set (ex_events ex (build_snmp_request 1 (st_community target)
                (snmp_request_id (ex_clock ex) oid) pdu_type oid)) \<and>
       length d \<le> MAX_RESPONSE_BYTES \<and> decode_snmp_response d = Inr m \<and>
       sm_version m = 1 \<and> sm_community m = st_community target \<and>
       sp_pdu_type (sm_pdu m) = PDU_GET_RESPONSE \<and>
       sp_request_id (sm_pdu m) = snmp_request_id (ex_clock ex) oid \<and>
       (sp_error_status (sm_pdu m) = 0 \<longrightarrow> length (sp_varbinds (sm_pdu m)) = 1 \<and>
          (pdu_type = PDU_GET_REQUEST \<longrightarrow> map fst (sp_varbinds (sm_pdu m)) = [oid]))"
proof -
  have "await_response target (snmp_request_id (ex_clock ex) oid) pdu_type oid
      (ex_events ex (build_snmp_request 1 (st_community target) (snmp_request_id (ex_clock ex) oid)
        pdu_type oid)) = Inr m"
    using assms by (auto simp: snmp_request_def Let_def split: option.splits)
  from awaited [OF this] show ?thesis using validated by blast
qed

section \<open>The order of a walk\<close>

definition walk_inv :: "oid \<Rightarrow> oid \<Rightarrow> (oid \<times> ber_value) list \<Rightarrow> bool" where
  "walk_inv root current rows \<longleftrightarrow>
     sorted_wrt (<) (root # map fst rows) \<and> last (root # map fst rows) = current \<and>
     list_all (\<lambda>row. oid_starts_with (fst row) root) rows"

lemma sorted_wrt_snoc_last:
  fixes x :: "'a::linorder"
  shows "sorted_wrt (<) xs \<Longrightarrow> xs \<noteq> [] \<Longrightarrow> last xs < x \<Longrightarrow> sorted_wrt (<) (xs @ [x])"
proof -
  assume s: "sorted_wrt (<) xs" "xs \<noteq> []" "last xs < x"
  have "y \<le> last xs" if "y \<in> set xs" for y
  proof -
    have "xs = butlast xs @ [last xs]" using s(2) by simp
    then have "sorted_wrt (<) (butlast xs @ [last xs])" using s(1) by simp
    then have "\<forall>z \<in> set (butlast xs). z < last xs" by (simp add: sorted_wrt_append)
    then show ?thesis using that s(2) by (metis append_butlast_last_id less_imp_le order_refl rotate1.simps(2) set_ConsD set_rotate1)
  qed
  then show ?thesis using s by (auto simp: sorted_wrt_append intro: order_le_less_trans)
qed

lemma walk_steps_ordered:
  assumes "walk_inv root current rows"
  shows "\<exists>current'. walk_inv root current'
      (wk_rows (walk_steps target root expired world steps step current rows)) \<and>
    length (wk_rows (walk_steps target root expired world steps step current rows)) \<le> length rows + steps"
  using assms
proof (induction target root expired world steps step current rows rule: walk_steps.induct)
  case (2 target root expired world steps step current rows)
  show ?case
  proof (cases "\<exists>m o' v vs. \<not> expired step \<and>
      snmp_request target PDU_GET_NEXT_REQUEST current (world step) = Inr m \<and>
      sp_error_status (sm_pdu m) = 0 \<and> sp_varbinds (sm_pdu m) = (o', v) # vs \<and> \<not> is_end_of_mib_view v \<and>
      \<not> is_absent v \<and> oid_starts_with o' root \<and> current < o'")
    case True
    then obtain m o' v vs where g: "\<not> expired step"
        "snmp_request target PDU_GET_NEXT_REQUEST current (world step) = Inr m"
        "sp_error_status (sm_pdu m) = 0" "sp_varbinds (sm_pdu m) = (o', v) # vs" "\<not> is_end_of_mib_view v"
        "\<not> is_absent v" "oid_starts_with o' root" "current < o'" by blast
    have "sorted_wrt (<) ((root # map fst rows) @ [o'])"
      using 2(2) g(8) by (intro sorted_wrt_snoc_last) (auto simp: walk_inv_def)
    then have "walk_inv root o' (rows @ [(o', v)])"
      using 2(2) g(7) by (simp add: walk_inv_def)
    from 2(1) [OF g(1,2) _ g(4) refl g(5,6) _ _ this] g(3,7,8)
    show ?thesis using g by (auto simp: not_le)
  next
    case False
    then have "wk_rows (walk_steps target root expired world (Suc steps) step current rows) = rows"
      by (auto split: sum.splits list.splits simp: not_le)
    then show ?thesis using 2(2) by auto
  qed
qed auto

text \<open>
  C32: a walk terminates with its rows in order, whatever the agent answers. The rows are strictly
  increasing and above the root, every one is in the subtree, and there are at most as many as
  steps were allowed; an agent that repeats itself or goes backwards cannot make it loop.
\<close>

theorem walk_is_ordered_and_bounded:
  "let rows = wk_rows (snmp_walk_target target root expired world max_steps)
   in sorted_wrt (<) (root # map fst rows) \<and> list_all (\<lambda>row. oid_starts_with (fst row) root) rows \<and>
      length rows \<le> max_steps"
proof -
  have "walk_inv root root []" by (simp add: walk_inv_def)
  from walk_steps_ordered [OF this, of target expired world max_steps 0]
  show ?thesis by (auto simp: snmp_walk_target_def walk_inv_def Let_def)
qed

section \<open>A walk over a conforming agent\<close>

text \<open>
  The reference: an agent with a table of objects, sorted by OID, that answers a GETNEXT with the
  first object beyond the one asked, or with the end of the view.
\<close>

definition agent_answer :: "(oid \<times> ber_value) list \<Rightarrow> oid \<Rightarrow> oid \<times> ber_value" where
  "agent_answer mib cur =
     (case find (\<lambda>e. cur < fst e) mib of
        Some e \<Rightarrow> e
      | None \<Rightarrow> (cur, BerUnknown TAG_END_OF_MIB_VIEW []))"

definition agent_reply :: "(oid \<times> ber_value) list \<Rightarrow> bytes \<Rightarrow> bytes" where
  "agent_reply mib req =
     (case decode_snmp_response req of
        Inr m \<Rightarrow>
          (case sp_varbinds (sm_pdu m) of
             (cur, _) # _ \<Rightarrow>
               encode_message (sm_version m) (map (\<lambda>c. word_of_nat (char_code c)) (sm_community m))
                 \<lparr>sp_pdu_type = PDU_GET_RESPONSE, sp_request_id = sp_request_id (sm_pdu m),
                  sp_error_status = 0, sp_error_index = 0, sp_varbinds = [agent_answer mib cur]\<rparr>
           | [] \<Rightarrow> [])
      | Inl _ \<Rightarrow> [])"

text \<open>The agent answers, after datagrams from anyone else and before anything at all.\<close>

definition agent_exchange ::
    "snmp_target \<Rightarrow> (oid \<times> ber_value) list \<Rightarrow> 64 word \<Rightarrow> recv_event list \<Rightarrow> recv_event list \<Rightarrow> exchange" where
  "agent_exchange target mib clock noise later =
     \<lparr>ex_bind_error = None, ex_clock = clock, ex_send_error = None,
      ex_events = (\<lambda>req. noise @ Received (FromV4 (st_transport target)) (agent_reply mib req) # later)\<rparr>"

definition from_others :: "snmp_target \<Rightarrow> recv_event \<Rightarrow> bool" where
  "from_others target e \<longleftrightarrow>
     (case e of Received source _ \<Rightarrow> source \<noteq> FromV4 (st_transport target) | RecvError _ _ \<Rightarrow> False)"

definition cur_ok :: "oid \<Rightarrow> bool" where
  "cur_ok cur \<longleftrightarrow> oid_ok cur \<and> length (encode_oid cur) \<le> 3900"

definition entry_ok :: "oid \<times> ber_value \<Rightarrow> bool" where
  "entry_ok e \<longleftrightarrow>
     cur_ok (fst e) \<and> value_ok (snd e) \<and> length (encode_varbind e) \<le> 4000 \<and>
     \<not> is_end_of_mib_view (snd e) \<and> \<not> is_absent (snd e)"

lemma length_encode_message:
  "length (encode_message version community pdu) \<le>
     length (concat (map encode_varbind (sp_varbinds pdu))) + length community + 72"
proof -
  let ?list = "encode_tlv TAG_SEQUENCE (concat (map encode_varbind (sp_varbinds pdu)))"
  let ?body = "encode_integer (scast (sp_request_id pdu)) @ encode_integer (scast (sp_error_status pdu)) @
      encode_integer (scast (sp_error_index pdu)) @ ?list"
  let ?all = "encode_integer (scast version) @ encode_tlv TAG_OCTET_STRING community @
      encode_tlv (sp_pdu_type pdu) ?body"
  have "length ?body \<le> length (concat (map encode_varbind (sp_varbinds pdu))) + 44"
    using length_encode_integer [of "scast (sp_request_id pdu)"]
      length_encode_integer [of "scast (sp_error_status pdu)"]
      length_encode_integer [of "scast (sp_error_index pdu)"]
      length_encode_tlv [of TAG_SEQUENCE "concat (map encode_varbind (sp_varbinds pdu))"] by simp
  then have "length ?all \<le> length (concat (map encode_varbind (sp_varbinds pdu))) + length community + 67"
    using length_encode_integer [of "scast version"] length_encode_tlv [of TAG_OCTET_STRING community]
      length_encode_tlv [of "sp_pdu_type pdu" ?body] by simp
  moreover have "encode_message version community pdu = encode_tlv TAG_SEQUENCE ?all"
    by (simp add: encode_message_def encode_octet_string_def)
  ultimately show ?thesis using length_encode_tlv [of TAG_SEQUENCE ?all] by simp
qed

lemma length_encode_varbind: "length (encode_varbind vb) \<le> length (encode_oid (fst vb)) + length (encode_value (snd vb)) + 5"
  using length_encode_tlv [of TAG_SEQUENCE "encode_oid (fst vb) @ encode_value (snd vb)"]
  by (simp add: encode_varbind_def)

lemma agent_answer_ok:
  assumes "list_all entry_ok mib" and "cur_ok cur"
  shows "varbind_ok (agent_answer mib cur)" "length (encode_varbind (agent_answer mib cur)) \<le> 4000"
proof -
  have "varbind_ok (agent_answer mib cur) \<and> length (encode_varbind (agent_answer mib cur)) \<le> 4000"
  proof (cases "find (\<lambda>e. cur < fst e) mib")
    case None
    have "length (encode_varbind (cur, BerUnknown TAG_END_OF_MIB_VIEW [])) \<le> 4000"
      using length_encode_varbind [of "(cur, BerUnknown TAG_END_OF_MIB_VIEW [])"] assms(2)
      by (simp add: cur_ok_def encode_tlv_def encode_length_def)
    then show ?thesis
      using None assms(2)
      by (simp add: agent_answer_def varbind_ok_def cur_ok_def TAG_END_OF_MIB_VIEW_def ber_tags)
  next
    case (Some e)
    then have "e \<in> set mib" by (metis find_Some_iff nth_mem)
    then have "entry_ok e" using assms(1) by (simp add: list_all_iff)
    then show ?thesis using Some by (simp add: agent_answer_def entry_ok_def varbind_ok_def cur_ok_def)
  qed
  then show "varbind_ok (agent_answer mib cur)" "length (encode_varbind (agent_answer mib cur)) \<le> 4000"
    by simp_all
qed

lemma await_skips_others:
  "list_all (from_others target) noise \<Longrightarrow>
     await_response target request_id pdu_type oid (noise @ events) =
       await_response target request_id pdu_type oid events"
proof (induction noise)
  case (Cons e noise)
  then show ?case by (cases e) (auto simp: from_others_def)
qed simp

lemma exchange_with_agent:
  assumes "list_all entry_ok mib" and "cur_ok cur" and "list_all (from_others target) noise"
    and "st_community target = utf8_encode cs" "list_all scalar cs" "length (utf8_bytes cs) \<le> 4000"
  shows "\<exists>m. snmp_request target PDU_GET_NEXT_REQUEST cur (agent_exchange target mib clock noise later) = Inr m \<and>
     sp_error_status (sm_pdu m) = 0 \<and> sp_varbinds (sm_pdu m) = [agent_answer mib cur]"
proof -
  let ?id = "snmp_request_id clock cur"
  let ?req = "\<lparr>sp_pdu_type = PDU_GET_NEXT_REQUEST, sp_request_id = ?id, sp_error_status = 0,
      sp_error_index = 0, sp_varbinds = [(cur, BerNull)]\<rparr>"
  let ?res = "\<lparr>sp_pdu_type = PDU_GET_RESPONSE, sp_request_id = ?id, sp_error_status = 0,
      sp_error_index = 0, sp_varbinds = [agent_answer mib cur]\<rparr>"
  note comm = community_bytes [OF assms(5)]
  have req: "build_snmp_request 1 (st_community target) ?id PDU_GET_NEXT_REQUEST cur =
      encode_message 1 (utf8_bytes cs) ?req"
    by (simp add: build_snmp_request_def encode_message_def encode_varbind_def encode_octet_string_def
        assms(4) comm Let_def)
  have "length (encode_varbind (cur, BerNull)) \<le> 4000"
    using length_encode_varbind [of "(cur, BerNull)"] assms(2) by (simp add: cur_ok_def encode_null_def)
  then have "decode_snmp_response (encode_message 1 (utf8_bytes cs) ?req) =
      Inr \<lparr>sm_version = 1, sm_community = text_of (utf8_bytes cs), sm_pdu = ?req\<rparr>"
    using assms(2,6) by (intro decode_message_encoded) (simp_all add: varbind_ok_def cur_ok_def MAX_VARBINDS_def)
  then have reply: "agent_reply mib (encode_message 1 (utf8_bytes cs) ?req) = encode_message 1 (utf8_bytes cs) ?res"
    using assms(5) comm by (simp add: agent_reply_def)
  note ans = agent_answer_ok [OF assms(1,2)]
  have dec: "decode_snmp_response (encode_message 1 (utf8_bytes cs) ?res) =
      Inr \<lparr>sm_version = 1, sm_community = text_of (utf8_bytes cs), sm_pdu = ?res\<rparr>"
    using ans assms(6) by (intro decode_message_encoded) (simp_all add: MAX_VARBINDS_def)
  have len: "length (encode_message 1 (utf8_bytes cs) ?res) \<le> MAX_RESPONSE_BYTES"
    using length_encode_message [of 1 "utf8_bytes cs" ?res] ans(2) assms(6)
    by (simp add: MAX_RESPONSE_BYTES_def)
  have "snmp_request target PDU_GET_NEXT_REQUEST cur (agent_exchange target mib clock noise later) =
      and_then (decode_snmp_response (encode_message 1 (utf8_bytes cs) ?res))
        (validate_response target ?id PDU_GET_NEXT_REQUEST cur)"
    unfolding snmp_request_def agent_exchange_def
    using len by (simp add: Let_def req reply await_skips_others [OF assms(3)])
  also have "\<dots> = Inr \<lparr>sm_version = 1, sm_community = text_of (utf8_bytes cs), sm_pdu = ?res\<rparr>"
    unfolding dec using assms(4,5)
    by (simp add: validate_response_def Let_def PDU_GET_REQUEST_def PDU_GET_NEXT_REQUEST_def)
  finally show ?thesis by simp
qed

lemma starts_with_prefix: "oid_starts_with oid root \<longleftrightarrow> prefix root oid"
  by (auto simp: oid_starts_with_def prefix_def) (metis append_take_drop_id)

lemma subtree_convex:
  fixes a b :: oid
  shows "root \<le> a \<Longrightarrow> a \<le> b \<Longrightarrow> prefix root b \<Longrightarrow> prefix root a"
proof (induction root arbitrary: a b)
  case (Cons r root)
  then obtain b' where b: "b = r # b'" "prefix root b'" by (cases b) auto
  obtain x a' where a: "a = x # a'" using Cons.prems(1) by (cases a) auto
  have "r \<le> x" "x \<le> r" using Cons.prems(1,2) unfolding a b(1) by (auto simp: Cons_le_Cons)
  then have x: "x = r" by simp
  have "root \<le> a'" "a' \<le> b'" using Cons.prems(1,2) unfolding a b(1) x by (auto simp: Cons_le_Cons)
  then have "prefix root a'" using Cons.IH b(2) by blast
  then show ?case unfolding a x by simp
qed simp

text \<open>What is left of the subtree beyond an OID, and how the walk of it ends.\<close>

definition subtree_after :: "oid \<Rightarrow> oid \<Rightarrow> (oid \<times> ber_value) list \<Rightarrow> (oid \<times> ber_value) list" where
  "subtree_after root cur mib = filter (\<lambda>e. cur < fst e \<and> oid_starts_with (fst e) root) mib"

definition walk_end_after :: "oid \<Rightarrow> oid \<Rightarrow> (oid \<times> ber_value) list \<Rightarrow> walk_end" where
  "walk_end_after root cur mib =
     (if list_ex (\<lambda>e. cur < fst e \<and> \<not> oid_starts_with (fst e) root) mib then LeftSubtree else EndOfMibView)"

lemma find_split: "find P xs = Some x \<Longrightarrow> \<exists>pre post. xs = pre @ x # post \<and> P x \<and> (\<forall>y \<in> set pre. \<not> P y)"
proof (induction xs)
  case (Cons y xs)
  show ?case
  proof (cases "P y")
    case True
    then show ?thesis using Cons.prems by (intro exI [of _ "[]"] exI [of _ xs]) simp
  next
    case False
    then obtain pre post where "xs = pre @ x # post" "P x" "\<forall>y \<in> set pre. \<not> P y"
      using Cons by auto
    then show ?thesis using False by (intro exI [of _ "y # pre"] exI [of _ post]) simp
  qed
qed simp

lemma walk_steps_agent:
  assumes "sorted_wrt (<) (map fst mib)" and "list_all entry_ok mib"
    and "\<And>n. list_all (from_others target) (noise n)"
    and "st_community target = utf8_encode cs" "list_all scalar cs" "length (utf8_bytes cs) \<le> 4000"
  shows "cur_ok cur \<Longrightarrow> root \<le> cur \<Longrightarrow> length (subtree_after root cur mib) < steps \<Longrightarrow>
     walk_steps target root (\<lambda>_. False)
         (\<lambda>n. agent_exchange target mib (clock n) (noise n) (later n)) steps step cur rows =
       \<lparr>wk_rows = rows @ subtree_after root cur mib, wk_end = walk_end_after root cur mib\<rparr>"
proof (induction steps arbitrary: step cur rows)
  case (Suc steps)
  let ?world = "\<lambda>n. agent_exchange target mib (clock n) (noise n) (later n)"
  obtain m where m: "snmp_request target PDU_GET_NEXT_REQUEST cur (?world step) = Inr m"
      "sp_error_status (sm_pdu m) = 0" "sp_varbinds (sm_pdu m) = [agent_answer mib cur]"
    using exchange_with_agent [OF assms(2) Suc.prems(1) assms(3) assms(4-6)] by blast
  show ?case
  proof (cases "find (\<lambda>e. cur < fst e) mib")
    case None
    then have none: "\<forall>e \<in> set mib. \<not> cur < fst e" by (auto simp: find_None_iff)
    then have "subtree_after root cur mib = []" "walk_end_after root cur mib = EndOfMibView"
      by (auto simp: subtree_after_def walk_end_after_def filter_empty_conv list_ex_iff)
    then show ?thesis
      using m None by (simp add: agent_answer_def is_end_of_mib_view_def)
  next
    case (Some e)
    then obtain pre post where mib: "mib = pre @ e # post" and e: "cur < fst e"
        and pre: "\<forall>x \<in> set pre. \<not> cur < fst x"
      using find_split [OF Some] by blast
    have "entry_ok e" using assms(2) mib by simp
    then have ok: "cur_ok (fst e)" "\<not> is_end_of_mib_view (snd e)" "\<not> is_absent (snd e)"
      by (simp_all add: entry_ok_def)
    have post: "\<forall>x \<in> set post. fst e < fst x" using assms(1) by (auto simp: mib sorted_wrt_append)
    have answer: "agent_answer mib cur = (fst e, snd e)" using Some by (simp add: agent_answer_def)
    show ?thesis
    proof (cases "oid_starts_with (fst e) root")
      case True
      have "subtree_after root cur mib = e # subtree_after root (fst e) mib"
      proof -
        have "filter (\<lambda>x. fst e < fst x \<and> oid_starts_with (fst x) root) pre = []"
          using pre e by (auto simp: filter_empty_conv dest: order.strict_trans)
        moreover have "filter (\<lambda>x. cur < fst x \<and> oid_starts_with (fst x) root) pre = []"
          using pre by (auto simp: filter_empty_conv)
        moreover have "filter (\<lambda>x. cur < fst x \<and> oid_starts_with (fst x) root) post =
            filter (\<lambda>x. fst e < fst x \<and> oid_starts_with (fst x) root) post"
          using post e by (intro filter_cong) (auto intro: order.strict_trans)
        ultimately show ?thesis using e True by (simp add: subtree_after_def mib)
      qed
      moreover have "walk_end_after root cur mib = walk_end_after root (fst e) mib"
      proof -
        have "list_ex (\<lambda>x. cur < fst x \<and> \<not> oid_starts_with (fst x) root) mib =
            list_ex (\<lambda>x. fst e < fst x \<and> \<not> oid_starts_with (fst x) root) mib"
          using pre post e True by (auto simp: mib list_ex_iff dest: order.strict_trans)
        then show ?thesis by (simp add: walk_end_after_def)
      qed
      ultimately show ?thesis
        using m ok answer True e Suc.prems Suc.IH [of "fst e" "Suc step" "rows @ [e]"]
        by (cases e) (simp add: not_le)
    next
      case False
      have above: "root \<le> fst e" using e Suc.prems(2) by simp
      have "\<not> oid_starts_with (fst x) root" if "x \<in> set post" for x
        using subtree_convex [OF above] less_imp_le post that False by (auto simp: starts_with_prefix)
      then have "subtree_after root cur mib = []"
        using pre False by (auto simp: subtree_after_def mib filter_empty_conv)
      moreover have "walk_end_after root cur mib = LeftSubtree"
        using False e by (simp add: walk_end_after_def mib)
      ultimately show ?thesis using m ok answer False by (cases e) simp
    qed
  qed
qed simp

text \<open>
  C30: the walk of a subtree returns the subtree. Against an agent that answers GETNEXT from a
  sorted table, whatever datagrams others send and whatever follows its answers, the rows are
  exactly the objects below the root in their order, and the walk is complete, provided it may
  take one step more than there are rows. It ends at the end of the view exactly when the table
  has nothing beyond the subtree.
\<close>

theorem walk_enumerates_the_subtree:
  assumes "sorted_wrt (<) (map fst mib)" and "list_all entry_ok mib"
    and "\<And>n. list_all (from_others target) (noise n)"
    and "st_community target = utf8_encode cs" "list_all scalar cs" "length (utf8_bytes cs) \<le> 4000"
    and "cur_ok root" and "length (subtree_after root root mib) < max_steps"
  shows "let w = snmp_walk_target target root (\<lambda>_. False)
           (\<lambda>n. agent_exchange target mib (clock n) (noise n) (later n)) max_steps
     in wk_rows w = filter (\<lambda>e. root < fst e \<and> oid_starts_with (fst e) root) mib \<and> walk_complete w \<and>
        (wk_end w = EndOfMibView \<longleftrightarrow> \<not> list_ex (\<lambda>e. root < fst e \<and> \<not> oid_starts_with (fst e) root) mib)"
  using walk_steps_agent [OF assms(1-6) assms(7) _ assms(8), where clock = clock and later = later and step = 0 and
      rows = "[]"]
  by (simp add: snmp_walk_target_def walk_complete_def walk_end_after_def subtree_after_def Let_def)

definition sample_target :: snmp_target where
  "sample_target = direct_target 0x0A000001 161 ''pub''"

definition sample_mib :: "(oid \<times> ber_value) list" where
  "sample_mib = [([1, 3, 5], BerNull), ([1, 3, 6, 1], BerInteger 7), ([1, 3, 6, 2], BerNull), ([1, 3, 7], BerNull)]"

lemma sample_entry:
  assumes "cur_ok o'" and "v = BerNull \<or> v = BerInteger 7" and "length (encode_oid o') \<le> 5"
  shows "entry_ok (o', v)"
proof -
  have "length (encode_varbind (o', v)) \<le> 4000"
    using assms(2,3) length_encode_varbind [of "(o', v)"] length_encode_integer [of 7]
    by (auto simp: encode_null_def)
  then show ?thesis
    using assms by (auto simp: entry_ok_def is_end_of_mib_view_def is_absent_def)
qed

lemma sample_entries: "list_all entry_ok sample_mib"
  unfolding sample_mib_def
  by (simp add: sample_entry cur_ok_def oid_ok_def encode_oid_def encode_tlv_def encode_length_def
      encode_subid_def)

lemma sample_cur: "cur_ok [1, 3, 6]"
  by (simp add: cur_ok_def oid_ok_def encode_oid_def encode_tlv_def encode_length_def encode_subid_def)

lemma sample_community: "st_community sample_target = utf8_encode [112, 117, 98]"
  by (simp add: sample_target_def direct_target_def utf8_encode_def utf8_encode_nat_def utf8_char_def)
    (simp add: char_of_def bit_0)

theorem accepted_answer_is_for_the_request_witness:
  "\<exists>m. snmp_request sample_target PDU_GET_NEXT_REQUEST [1, 3, 6]
         (agent_exchange sample_target sample_mib 5 [] []) = Inr m \<and>
       sm_community m = ''pub'' \<and> sp_request_id (sm_pdu m) = snmp_request_id 5 [1, 3, 6]"
proof -
  obtain m where m: "snmp_request sample_target PDU_GET_NEXT_REQUEST [1, 3, 6]
      (agent_exchange sample_target sample_mib 5 [] []) = Inr m"
    using exchange_with_agent [of sample_mib "[1, 3, 6]" sample_target "[]" "[112, 117, 98]"]
      sample_entries sample_cur sample_community
    by (auto simp: scalar_def utf8_bytes_def utf8_encode_nat_def utf8_char_def)
  from accepted_answer_is_for_the_request [OF m] show ?thesis
    using m by (auto simp: agent_exchange_def sample_target_def direct_target_def)
qed

theorem walk_enumerates_the_subtree_witness:
  "wk_rows (snmp_walk_target sample_target [1, 3, 6] (\<lambda>_. False)
     (\<lambda>n. agent_exchange sample_target sample_mib (word_of_nat n)
        [Received (FromV4 (0x0A000002, 161)) [1, 2, 3]] []) 3) =
   [([1, 3, 6, 1], BerInteger 7), ([1, 3, 6, 2], BerNull)]"
proof -
  have sub: "filter (\<lambda>e. [1, 3, 6] < fst e \<and> oid_starts_with (fst e) [1, 3, 6]) sample_mib =
      [([1, 3, 6, 1], BerInteger 7), ([1, 3, 6, 2], BerNull)]"
    by (simp add: sample_mib_def oid_starts_with_def)
  show ?thesis
    using sample_cur sample_community walk_enumerates_the_subtree [of sample_mib sample_target
        "\<lambda>_. [Received (FromV4 (0x0A000002, 161)) [1, 2, 3]]" "[112, 117, 98]" "[1, 3, 6]" 3
        "\<lambda>n. word_of_nat n" "\<lambda>_. []"] sub sample_entries
    by (simp add: subtree_after_def from_others_def sample_target_def direct_target_def scalar_def
        utf8_bytes_def utf8_encode_nat_def utf8_char_def Let_def sample_mib_def)
qed

section \<open>Tables\<close>

definition rows_at :: "oid \<Rightarrow> (oid \<times> ber_value) list \<Rightarrow> (oid \<times> ber_value) list" where
  "rows_at key rows = filter (\<lambda>row. 11 \<le> length (fst row) \<and> drop 10 (fst row) = key) rows"

text \<open>The last value that came for a column of an instance.\<close>

definition column_of :: "(oid \<times> ber_value) list \<Rightarrow> u32 \<Rightarrow> oid \<Rightarrow> ber_value option" where
  "column_of rows col key = map_option snd (find (\<lambda>row. fst row ! 9 = col) (rev (rows_at key rows)))"

lemma hm_get_assemble:
  "hm_get (assemble fresh assign rows) key =
     (if rows_at key rows = [] then None
      else Some (fold (\<lambda>row. assign (fst row ! 9) (snd row)) (rows_at key rows) (fresh key)))"
proof (induction rows rule: rev_induct)
  case Nil
  then show ?case by (simp add: assemble_def rows_at_def)
next
  case (snoc row rows)
  obtain oid val where row: "row = (oid, val)" by (cases row)
  have "assemble fresh assign (rows @ [row]) =
      (if 11 \<le> length oid
       then hm_entry (drop 10 oid) (fresh (drop 10 oid)) (assign (oid ! 9) val) (assemble fresh assign rows)
       else assemble fresh assign rows)"
    by (simp add: assemble_def row)
  then show ?case using snoc by (auto simp: row rows_at_def map_laws)
qed

lemma hm_ok_assemble: "hm_ok (assemble fresh assign rows)"
  unfolding assemble_def
  by (induction rows rule: rev_induct) (auto simp: hm_ok_laws split: prod.split)

lemma set_map_filter_iff: "set (List.map_filter f xs) = {y. \<exists>x \<in> set xs. f x = Some y}"
  by (induction xs) (auto simp: List.map_filter_simps split: option.split)

lemma set_iterate:
  assumes "\<And>ks. mset (order ks) = mset ks" and "hm_ok m"
  shows "set (iterate order m) = {e. \<exists>k. hm_get m k = Some e}"
proof -
  have "set (order (map fst m)) = fst ` set m" using assms(1) by (metis set_map set_mset_mset)
  then have "set (iterate order m) = {e. \<exists>k \<in> fst ` set m. hm_get m k = Some e}"
    by (simp add: iterate_def set_map_filter_iff)
  also have "\<dots> = {e. \<exists>k. hm_get m k = Some e}"
    by (auto simp: dom_map_of_conv_image_fst [symmetric])
  finally show ?thesis .
qed

lemma fold_arp_column:
  "fold (\<lambda>row. arp_column (fst row ! 9) (snd row)) rs (None, None, i) =
     (Option.bind (map_option snd (find (\<lambda>row. fst row ! 9 = 3) (rev rs))) as_ipv4,
      Option.bind (map_option snd (find (\<lambda>row. fst row ! 9 = 2) (rev rs))) as_mac, i)"
  by (induction rs rule: rev_induct) (auto simp: arp_column_def)

lemma column_occurs: "column_of rows col key = Some v \<Longrightarrow> rows_at key rows \<noteq> []"
  by (auto simp: column_of_def)

lemma arp_entry_iff:
  "arp_entry (ip, mac, i) = Some e \<longleftrightarrow>
     ip = Some (ae_ip e) \<and> mac = Some (ae_mac e) \<and> ae_if_index e = i \<and> \<not> is_loopback4 (ae_ip e) \<and>
     \<not> is_broadcast4 (ae_ip e) \<and> ae_mac e \<noteq> ''00:00:00:00:00:00''"
  by (cases ip; cases mac; cases e) (auto simp: arp_entry_def)

text \<open>
  The harvested ARP cache is the device's table. Whatever order the map is iterated in, an
  entry is in it exactly when, for some instance, the last value of the hardware-address column is
  a six-byte address that is not all zero, the last value of the network-address column is an
  IPv4 address that is neither loopback nor broadcast, and the interface is the one the instance
  begins with.
\<close>

theorem arp_cache_is_the_table:
  assumes "\<And>ks. mset (order ks) = mset ks"
  shows "e \<in> set (arp_cache_of order rows) \<longleftrightarrow>
     (\<exists>key mac ip. column_of rows 2 key = Some mac \<and> column_of rows 3 key = Some ip \<and>
        as_mac mac = Some (ae_mac e) \<and> as_ipv4 ip = Some (ae_ip e) \<and> ae_if_index e = key ! 0 \<and>
        \<not> is_loopback4 (ae_ip e) \<and> \<not> is_broadcast4 (ae_ip e) \<and> ae_mac e \<noteq> ''00:00:00:00:00:00'')"
proof -
  let ?m = "assemble (\<lambda>key. (None, None, key ! 0)) arp_column rows"
  have get: "hm_get ?m key = Some t \<longleftrightarrow> rows_at key rows \<noteq> [] \<and>
      t = (Option.bind (column_of rows 3 key) as_ipv4, Option.bind (column_of rows 2 key) as_mac, key ! 0)"
    for key t
    unfolding hm_get_assemble fold_arp_column column_of_def by auto
  have "e \<in> set (arp_cache_of order rows) \<longleftrightarrow>
      (\<exists>t \<in> set (iterate order ?m). arp_entry t = Some e)"
    by (simp add: arp_cache_of_def set_map_filter_iff)
  also have "\<dots> \<longleftrightarrow> (\<exists>key t. hm_get ?m key = Some t \<and> arp_entry t = Some e)"
    unfolding set_iterate [OF assms hm_ok_assemble] by blast
  also have "\<dots> \<longleftrightarrow> (\<exists>key. rows_at key rows \<noteq> [] \<and>
      arp_entry (Option.bind (column_of rows 3 key) as_ipv4, Option.bind (column_of rows 2 key) as_mac, key ! 0) =
      Some e)"
    unfolding get by blast
  also have "\<dots> \<longleftrightarrow> (\<exists>key mac ip. column_of rows 2 key = Some mac \<and> column_of rows 3 key = Some ip \<and>
        as_mac mac = Some (ae_mac e) \<and> as_ipv4 ip = Some (ae_ip e) \<and> ae_if_index e = key ! 0 \<and>
        \<not> is_loopback4 (ae_ip e) \<and> \<not> is_broadcast4 (ae_ip e) \<and> ae_mac e \<noteq> ''00:00:00:00:00:00'')"
    unfolding arp_entry_iff Option.bind_eq_Some_conv by (auto dest: column_occurs)
  finally show ?thesis .
qed

theorem arp_cache_is_the_table_witness:
  "\<lparr>ae_ip = 0x0A000005, ae_mac = mac_text [0, 27, 33, 0, 0, 1], ae_if_index = 4\<rparr> \<in>
     set (arp_cache_of rev
       [([1, 3, 6, 1, 2, 1, 4, 22, 1, 2, 4, 10, 0, 0, 5], BerOctetString [0, 27, 33, 0, 0, 1]),
        ([1, 3, 6, 1, 2, 1, 4, 22, 1, 3, 4, 10, 0, 0, 5], BerIpAddress 0x0A000005)])"
proof -
  have rev_ok: "\<And>ks :: oid list. mset (rev ks) = mset ks" by simp
  have "mac_text [0, 27, 33, 0, 0, 1] \<noteq> ''00:00:00:00:00:00''"
    by (simp add: mac_text_def hex_byte_def digit_char_def) (simp add: char_of_def bit_0)
  then show ?thesis
    unfolding arp_cache_is_the_table [of rev, OF rev_ok]
    by (intro exI [of _ "[4, 10, 0, 0, 5]"] exI [of _ "BerOctetString [0, 27, 33, 0, 0, 1]"]
        exI [of _ "BerIpAddress 0x0A000005"])
      (simp add: column_of_def rows_at_def is_loopback4_def is_broadcast4_def octet4_def)
qed

text \<open>A row of the version-neutral table is what the values of its columns made of it.\<close>

definition status_read :: "oid \<Rightarrow> (oid \<times> ber_value) list \<Rightarrow> oid \<Rightarrow> 64 word \<Rightarrow> bool" where
  "status_read root rows subids n \<longleftrightarrow>
     list_ex (\<lambda>row. length root < length (fst row) \<and> fst row ! length root = 17 \<and>
        drop (Suc (length root)) (fst row) = subids \<and> snd row = BerInteger n) rows"

definition inet_map_inv :: "oid \<Rightarrow> (oid \<times> ber_value) list \<Rightarrow> (oid, inet_route) btree_map \<Rightarrow> bool" where
  "inet_map_inv root rows m \<longleftrightarrow>
     bm_ok m \<and>
     (\<forall>k r. bm_get m k = Some r \<longrightarrow>
        parse_index k = Some (ir_index r) \<and>
        (\<forall>n. ir_status r = Valid n \<longrightarrow> 1 \<le> sint n \<and> sint n \<le> 6 \<and> status_read root rows k n))"

lemma inet_column_index: "ir_index (inet_column c v r) = ir_index r"
  by (simp add: inet_column_def Let_def split: option.split)

lemma inet_column_status:
  "ir_status (inet_column c v r) = Valid n \<Longrightarrow>
     ir_status r = Valid n \<or> c = 17 \<and> v = BerInteger n \<and> 1 \<le> sint n \<and> sint n \<le> 6"
  by (auto simp: inet_column_def Let_def split: if_splits option.splits ber_value.splits)

lemma inet_row_inv:
  assumes "inet_map_inv root rows m"
  shows "inet_map_inv root (rows @ [row]) (inet_row (length root) row m)"
proof -
  obtain oid val where row: "row = (oid, val)" by (cases row)
  let ?k = "drop (Suc (length root)) oid"
  have old: "inet_map_inv root (rows @ [row]) m"
    using assms by (fastforce simp: inet_map_inv_def status_read_def)
  show ?thesis
  proof (cases "length root < length oid \<and> parse_index ?k \<noteq> None")
    case False
    then show ?thesis using old by (auto simp: inet_row_def row Let_def not_less split: option.split)
  next
    case True
    then obtain index where index: "parse_index ?k = Some index" and len: "length root < length oid" by auto
    let ?r = "case bm_get m ?k of
        None \<Rightarrow> \<lparr>ir_index = index, ir_instance = oid, ir_if_index = None, ir_route_type = Missing,
                 ir_proto = None, ir_metric = None, ir_status = Missing\<rparr>
      | Some r \<Rightarrow> r"
    have new: "ir_index ?r = index" "\<And>n. ir_status ?r = Valid n \<Longrightarrow>
        1 \<le> sint n \<and> sint n \<le> 6 \<and> status_read root (rows @ [row]) ?k n"
      using old index by (auto simp: inet_map_inv_def split: option.splits)
    have "status_read root (rows @ [row]) ?k n" if "oid ! length root = 17" "val = BerInteger n" for n
      using that len by (simp add: status_read_def row)
    then have status: "1 \<le> sint n \<and> sint n \<le> 6 \<and> status_read root (rows @ [row]) ?k n"
      if "ir_status (inet_column (oid ! length root) val ?r) = Valid n" for n
      using inet_column_status [OF that] new(2) by blast
    show ?thesis
      using old new(1) status index len
      by (auto simp: inet_map_inv_def inet_row_def row Let_def map_laws inet_column_index
          intro!: bm_ok_laws split: if_splits)
  qed
qed

lemma inet_fold_inv:
  "inet_map_inv root done m \<Longrightarrow> inet_map_inv root (done @ rows) (fold (inet_row (length root)) rows m)"
proof (induction rows arbitrary: "done" m)
  case (Cons row rows)
  from Cons.IH [OF inet_row_inv [OF Cons.prems]] show ?case by simp
qed simp

text \<open>
  Absence is not consent. A row of the version-neutral routing table is active only when the
  walk returned the status column of that very index as the integer 1; a bounded or truncated walk
  that never reached it, or a value of another kind, leaves the row inactive.
\<close>

theorem active_rows_were_stated:
  assumes "r \<in> set (inet_routes_of root rows)" and "route_active r"
  shows "\<exists>subids. parse_index subids = Some (ir_index r) \<and> status_read root rows subids 1"
proof -
  let ?m = "fold (inet_row (length root)) rows []"
  have "inet_map_inv root [] []" by (simp add: inet_map_inv_def)
  from inet_fold_inv [OF this, of rows] have inv: "inet_map_inv root rows ?m" by simp
  obtain k where "(k, r) \<in> set ?m" using assms(1) by (auto simp: inet_routes_of_def)
  then have k: "bm_get ?m k = Some r"
    using inv set_bm_get [of ?m k r] by (simp add: inet_map_inv_def)
  have "ir_status r = Valid 1" using assms(2) by (simp add: route_active_def)
  then show ?thesis using inv k by (auto simp: inet_map_inv_def)
qed

theorem active_rows_were_stated_witness:
  "let subids = encode_address Ipv4 [10, 0, 0, 0] @ 8 # 0 # encode_address Ipv4 [10, 0, 0, 1];
       rows = [([9, 9, 7] @ subids, BerInteger 3), ([9, 9, 17] @ subids, BerInteger 1)]
   in \<exists>r. r \<in> set (inet_routes_of [9, 9] rows) \<and> route_active r \<and>
        (\<exists>subids. parse_index subids = Some (ir_index r) \<and> status_read [9, 9] rows subids 1)"
proof -
  let ?s = "encode_address Ipv4 [10, 0, 0, 0] @ 8 # 0 # encode_address Ipv4 [10, 0, 0, 1]"
  let ?rows = "[([9, 9, 7] @ ?s, BerInteger 3), ([9, 9, 17] @ ?s, BerInteger 1)]"
  let ?ix = "\<lparr>ix_destination = address_of Ipv4 [10, 0, 0, 0], ix_prefix_len = 8, ix_policy = [],
      ix_next_hop = address_of Ipv4 [10, 0, 0, 1]\<rparr>"
  have "parse_index ?s = Some ?ix"
    by (simp add: parse_index_def read_encode_address read_encode_address [where rest = "[]", simplified]
        address_of_def)
  then have "\<exists>r. inet_routes_of [9, 9] ?rows = [r] \<and> route_active r"
    by (simp add: inet_routes_of_def inet_row_def Let_def bm_entry_def entry_with_def inet_column_def
        route_active_def)
  then obtain r where r: "r \<in> set (inet_routes_of [9, 9] ?rows)" "route_active r" by auto
  show ?thesis unfolding Let_def using r active_rows_were_stated [OF r] by blast
qed

end
