(* ===== verification/Snmp_V3_Props.thy ===== *)
theory Snmp_V3_Props
  imports Snmp_V3
begin

text \<open>
  Properties of the SNMPv3 message layer: what the encoder writes and any digest completes, the
  decoder reads back field by field and at the same places.
\<close>

section \<open>Elements at absolute offsets\<close>

text \<open>The octets from one offset to another, and the element that begins at an offset.\<close>

definition window :: "bytes \<Rightarrow> nat \<Rightarrow> nat \<Rightarrow> bytes" where
  "window bs a b = drop a (take b bs)"

definition placed :: "u8 \<Rightarrow> nat \<Rightarrow> bytes \<Rightarrow> located_tlv" where
  "placed tag at v =
     \<lparr>lt_tag = tag, lt_start = at + 1 + length (encode_length (length v)),
      lt_end = at + 1 + length (encode_length (length v)) + length v\<rparr>"

lemma slice_window [simp]: "slice bs (a, b) = window bs a b"
  by (simp add: slice_def window_def drop_take)

lemma window_all [simp]: "window bs 0 (length bs) = bs"
  by (simp add: window_def)

lemma length_window: "limit \<le> length bs \<Longrightarrow> length (window bs at limit) = limit - at"
  by (simp add: window_def)

lemma lt_end_placed: "lt_end (placed tag at v) = at + length (encode_tlv tag v)"
  by (simp add: placed_def encode_tlv_def)

lemma lt_tag_placed [simp]: "lt_tag (placed tag at v) = tag"
  by (simp add: placed_def)

lemma window_inner:
  assumes "window bs at limit = h @ v @ rest" and "limit \<le> length bs"
  shows "window bs (at + length h) (at + length h + length v) = v"
proof -
  have n: "limit - at = length h + length v + length rest"
    using arg_cong [OF assms(1), of length] assms(2) by (simp add: length_window)
  have w: "window bs (at + length h) (at + length h + length v) =
      take (length v) (drop (length h) (window bs at limit))"
    using n by (cases "v = []") (simp_all add: window_def drop_take min_def ac_simps)
  show ?thesis unfolding w assms(1) by simp
qed

lemma window_rest:
  assumes "window bs at limit = h @ rest"
  shows "window bs (at + length h) limit = rest"
proof -
  have "window bs (at + length h) limit = drop (length h) (window bs at limit)"
    by (simp add: window_def add.commute)
  then show ?thesis unfolding assms by simp
qed

lemma window_placed:
  assumes "window bs at limit = encode_tlv tag v @ rest" and "limit \<le> length bs"
  shows "window bs (lt_start (placed tag at v)) (lt_end (placed tag at v)) = v"
    and "window bs (lt_end (placed tag at v)) limit = rest"
  using window_inner [of bs at limit "tag # encode_length (length v)" v rest]
    window_rest [of bs at limit "encode_tlv tag v" rest] assms
  by (simp_all add: placed_def encode_tlv_def ac_simps)

text \<open>Reading at an offset is reading what is between the offset and the limit.\<close>

lemma read_tlv_window:
  assumes r: "reader_tlv what (window bs at limit) = Inr (tag, v, rest)" and l: "limit \<le> length bs"
  shows "read_tlv bs at limit what =
    Inr \<lparr>lt_tag = tag, lt_start = limit - length rest - length v, lt_end = limit - length rest\<rparr>"
proof -
  obtain first w len rest' where w: "window bs at limit = tag # first # w"
      and n: "reader_length what (first # w) = Inr (len, rest')"
      and v: "len \<le> length rest'" "v = take len rest'" "rest = drop len rest'"
    using r by (cases "window bs at limit"; cases "tl (window bs at limit)")
      (auto simp: reader_tlv_def reader_length_def and_then_Inr_iff split: if_splits)
  have size: "limit - at = Suc (Suc (length w))"
    using arg_cong [OF w, of length] l by (simp add: length_window)
  then have lim: "limit = at + 2 + length w" by simp
  have nth: "bs ! (at + i) = window bs at limit ! i" if "i < limit - at" for i
    using that l by (simp add: window_def)
  have hd: "bs ! at = tag" "bs ! Suc at = first"
    using nth [of 0] nth [of 1] size by (simp_all add: w)
  have tl: "take k (drop (at + 2) bs) = take k w" if "k \<le> length w" for k
  proof -
    have "take k w = take k (drop 2 (window bs at limit))" unfolding w by simp
    also have "\<dots> = take k (drop (at + 2) bs)"
      using that lim by (simp add: window_def drop_take min_def)
    finally show ?thesis ..
  qed
  show ?thesis
  proof (cases "first AND 0x80 = 0")
    case True
    then show ?thesis
      using n v lim l by (simp add: read_tlv_def reader_length_def hd)
  next
    case False
    let ?count = "unat (first AND 0x7F)"
    have c: "?count \<noteq> 0" "?count \<le> 4" "?count \<le> length w" "rest' = drop ?count w"
        "len = foldl (\<lambda>len b. len * 256 + unat b) 0 (take ?count w)"
      using n False by (auto simp: reader_length_def Let_def split: if_splits)
    show ?thesis
      using v lim l False tl [OF c(3)] c by (simp add: read_tlv_def Let_def hd)
  qed
qed

lemma expect_tlv_placed:
  assumes w: "window bs at limit = encode_tlv tag v @ rest" and l: "limit \<le> length bs"
    and n: "length bs < 16777216"
  shows "expect_tlv bs at limit tag what = Inr (placed tag at v)"
    and "read_tlv bs at limit what = Inr (placed tag at v)"
proof -
  have s: "limit - at = length (encode_tlv tag v) + length rest"
    using arg_cong [OF w, of length] l by (simp add: length_window)
  then have small: "length v < 16777216" using n l length_encode_tlv_ge [of v tag] by linarith
  have pos: "limit - length rest = lt_end (placed tag at v)"
    using s by (cases "at \<le> limit") (simp_all add: lt_end_placed encode_tlv_def)
  show "read_tlv bs at limit what = Inr (placed tag at v)"
    using read_tlv_window [of what bs at limit tag v rest] reader_tlv_encoded [OF small, of what tag rest] l
    unfolding w pos by (simp add: placed_def)
  then show "expect_tlv bs at limit tag what = Inr (placed tag at v)"
    by (simp add: expect_tlv_def)
qed

section \<open>The wire form\<close>

text \<open>A message as it lies in the datagram, digest included.\<close>

definition wire_header :: "64 word \<Rightarrow> u8 \<Rightarrow> bytes" where
  "wire_header i flags =
     encode_integer i @ encode_integer (word_of_nat MAX_MESSAGE_BYTES) @
     encode_octet_string [flags] @ encode_integer SECURITY_MODEL_USM"

definition wire_usm :: "usm_parameters \<Rightarrow> bytes" where
  "wire_usm usm =
     encode_octet_string (up_engine_id usm) @ encode_integer (ucast (up_engine_boots usm)) @
     encode_integer (ucast (up_engine_time usm)) @ encode_octet_string (up_user_name usm) @
     encode_octet_string (up_authentication usm) @ encode_octet_string (up_privacy usm)"

definition wire_body :: "64 word \<Rightarrow> u8 \<Rightarrow> usm_parameters \<Rightarrow> bytes \<Rightarrow> bytes" where
  "wire_body i flags usm data =
     encode_integer VERSION_3 @ encode_tlv TAG_SEQUENCE (wire_header i flags) @
     encode_octet_string (encode_tlv TAG_SEQUENCE (wire_usm usm)) @ data"

definition wire_form :: "64 word \<Rightarrow> u8 \<Rightarrow> usm_parameters \<Rightarrow> bytes \<Rightarrow> bytes" where
  "wire_form i flags usm data = encode_tlv TAG_SEQUENCE (wire_body i flags usm data)"

text \<open>What stands before the digest and after it does not depend on the digest.\<close>

definition tlv_head :: "u8 \<Rightarrow> nat \<Rightarrow> bytes" where
  "tlv_head tag n = tag # encode_length n"

lemma encode_tlv_head: "encode_tlv tag v = tlv_head tag (length v) @ v"
  by (simp add: encode_tlv_def tlv_head_def)

definition wire_before :: "64 word \<Rightarrow> u8 \<Rightarrow> usm_parameters \<Rightarrow> bytes \<Rightarrow> bytes" where
  "wire_before i flags usm data =
     tlv_head TAG_SEQUENCE (length (wire_body i flags usm data)) @ encode_integer VERSION_3 @
     encode_tlv TAG_SEQUENCE (wire_header i flags) @
     tlv_head TAG_OCTET_STRING (length (encode_tlv TAG_SEQUENCE (wire_usm usm))) @
     tlv_head TAG_SEQUENCE (length (wire_usm usm)) @ encode_octet_string (up_engine_id usm) @
     encode_integer (ucast (up_engine_boots usm)) @ encode_integer (ucast (up_engine_time usm)) @
     encode_octet_string (up_user_name usm) @ tlv_head TAG_OCTET_STRING (length (up_authentication usm))"

definition wire_after :: "usm_parameters \<Rightarrow> bytes \<Rightarrow> bytes" where
  "wire_after usm data = encode_octet_string (up_privacy usm) @ data"

lemma wire_form_parts:
  "wire_form i flags usm data = wire_before i flags usm data @ up_authentication usm @ wire_after usm data"
  by (simp add: wire_form_def wire_before_def wire_after_def wire_body_def wire_usm_def
      encode_octet_string_def encode_tlv_def tlv_head_def)

lemma wire_parts_digest [simp]:
  "length tag = length (up_authentication usm) \<Longrightarrow>
     wire_before i flags (usm\<lparr>up_authentication := tag\<rparr>) data = wire_before i flags usm data"
  "wire_after (usm\<lparr>up_authentication := tag\<rparr>) data = wire_after usm data"
  by (simp_all add: wire_before_def wire_after_def wire_body_def wire_usm_def encode_octet_string_def
      encode_tlv_def)

lemma splice_wire_form:
  assumes "length tag = length (up_authentication usm)"
  shows "splice (wire_form i flags usm data)
      (length (wire_before i flags usm data), length (wire_before i flags usm data) + length tag) tag =
    wire_form i flags (usm\<lparr>up_authentication := tag\<rparr>) data"
  using assms by (simp add: wire_form_parts splice_def)

section \<open>Reading the wire form\<close>

lemma tlv_element:
  assumes w: "window bs at limit = encode_tlv tag v @ rest" and l: "limit \<le> length bs"
    and n: "length bs \<le> MAX_MESSAGE_BYTES"
  obtains t where "\<And>what. expect_tlv bs at limit tag what = Inr t"
    and "\<And>what. read_tlv bs at limit what = Inr t" and "lt_tag t = tag"
    and "window bs (lt_start t) (lt_end t) = v" and "window bs (lt_end t) limit = rest"
    and "lt_end t = at + length (encode_tlv tag v)" and "lt_end t = lt_start t + length v"
    and "lt_end t \<le> limit" and "v = rev (integer_bytes i) \<Longrightarrow> \<forall>what. read_integer bs t what = Inr i"
proof
  let ?t = "placed tag at v"
  have n: "length bs < 16777216" using n by (simp add: MAX_MESSAGE_BYTES_def)
  show "expect_tlv bs at limit tag what = Inr ?t" "read_tlv bs at limit what = Inr ?t" for what
    using expect_tlv_placed [OF w l n] by blast+
  show c: "window bs (lt_start ?t) (lt_end ?t) = v" and "window bs (lt_end ?t) limit = rest"
    using window_placed [OF w l] by blast+
  show "lt_end ?t \<le> limit"
    using arg_cong [OF w, of length] l by (simp add: length_window lt_end_placed encode_tlv_def)
  show "\<forall>what. read_integer bs ?t what = Inr i" if "v = rev (integer_bytes i)"
    using integer_bytes_short [of i] decode_encode_integer [of i] c [unfolded that]
    by (simp add: read_integer_def that decode_integer_value_def)
qed (simp_all add: lt_end_placed, simp add: placed_def encode_tlv_def)

lemma window_empty: "window bs a b = [] \<Longrightarrow> a \<le> b \<Longrightarrow> b \<le> length bs \<Longrightarrow> a = b"
  by (simp add: window_def)

text \<open>The elements of the header and of the security parameters, each where the decoder looks for it.\<close>

definition reads_header ::
    "bytes \<Rightarrow> nat \<Rightarrow> nat \<Rightarrow> 64 word \<Rightarrow> u8 \<Rightarrow> located_tlv \<Rightarrow> located_tlv \<Rightarrow> located_tlv \<Rightarrow> located_tlv \<Rightarrow> bool" where
  "reads_header bs a e i flags id_tlv max_tlv flags_tlv model_tlv \<longleftrightarrow>
     (\<forall>what. expect_tlv bs a e TAG_INTEGER what = Inr id_tlv) \<and>
     (\<forall>what. read_integer bs id_tlv what = Inr i) \<and>
     (\<forall>what. expect_tlv bs (lt_end id_tlv) e TAG_INTEGER what = Inr max_tlv) \<and>
     (\<forall>what. read_integer bs max_tlv what = Inr (word_of_nat MAX_MESSAGE_BYTES)) \<and>
     (\<forall>what. expect_tlv bs (lt_end max_tlv) e TAG_OCTET_STRING what = Inr flags_tlv) \<and>
     lt_end flags_tlv - lt_start flags_tlv = 1 \<and> bs ! lt_start flags_tlv = flags \<and>
     (\<forall>what. expect_tlv bs (lt_end flags_tlv) e TAG_INTEGER what = Inr model_tlv) \<and>
     (\<forall>what. read_integer bs model_tlv what = Inr SECURITY_MODEL_USM) \<and> lt_end model_tlv = e"

definition reads_usm ::
    "bytes \<Rightarrow> nat \<Rightarrow> nat \<Rightarrow> usm_parameters \<Rightarrow> located_tlv \<Rightarrow> located_tlv \<Rightarrow> located_tlv \<Rightarrow> located_tlv \<Rightarrow>
     located_tlv \<Rightarrow> located_tlv \<Rightarrow> bool" where
  "reads_usm bs a e usm engine_tlv boots_tlv time_tlv user_tlv auth_tlv priv_tlv \<longleftrightarrow>
     (\<forall>what. expect_tlv bs a e TAG_OCTET_STRING what = Inr engine_tlv) \<and>
     window bs (lt_start engine_tlv) (lt_end engine_tlv) = up_engine_id usm \<and>
     (\<forall>what. expect_tlv bs (lt_end engine_tlv) e TAG_INTEGER what = Inr boots_tlv) \<and>
     (\<forall>what. read_integer bs boots_tlv what = Inr (ucast (up_engine_boots usm))) \<and>
     (\<forall>what. expect_tlv bs (lt_end boots_tlv) e TAG_INTEGER what = Inr time_tlv) \<and>
     (\<forall>what. read_integer bs time_tlv what = Inr (ucast (up_engine_time usm))) \<and>
     (\<forall>what. expect_tlv bs (lt_end time_tlv) e TAG_OCTET_STRING what = Inr user_tlv) \<and>
     window bs (lt_start user_tlv) (lt_end user_tlv) = up_user_name usm \<and>
     (\<forall>what. expect_tlv bs (lt_end user_tlv) e TAG_OCTET_STRING what = Inr auth_tlv) \<and>
     window bs (lt_start auth_tlv) (lt_end auth_tlv) = up_authentication usm \<and>
     (\<forall>what. expect_tlv bs (lt_end auth_tlv) e TAG_OCTET_STRING what = Inr priv_tlv) \<and>
     window bs (lt_start priv_tlv) e = up_privacy usm \<and> lt_end priv_tlv = e"

lemma read_header:
  assumes w: "window bs a e = wire_header i flags" and l: "e \<le> length bs"
    and n: "length bs \<le> MAX_MESSAGE_BYTES"
  obtains id_tlv max_tlv flags_tlv model_tlv where
    "reads_header bs a e i flags id_tlv max_tlv flags_tlv model_tlv"
proof -
  obtain t1 where t1: "\<And>what. expect_tlv bs a e TAG_INTEGER what = Inr t1"
      "window bs (lt_end t1) e = encode_integer (word_of_nat MAX_MESSAGE_BYTES) @
         encode_octet_string [flags] @ encode_integer SECURITY_MODEL_USM"
      "\<forall>what. read_integer bs t1 what = Inr i"
    using tlv_element [OF w [unfolded wire_header_def encode_integer_def [of i]] l n, of i] by metis
  obtain t2 where t2: "\<And>what. expect_tlv bs (lt_end t1) e TAG_INTEGER what = Inr t2"
      "window bs (lt_end t2) e = encode_octet_string [flags] @ encode_integer SECURITY_MODEL_USM"
      "\<forall>what. read_integer bs t2 what = Inr (word_of_nat MAX_MESSAGE_BYTES)"
    using tlv_element [OF t1(2) [unfolded encode_integer_def [of "word_of_nat MAX_MESSAGE_BYTES"]] l n,
        of "word_of_nat MAX_MESSAGE_BYTES"] by metis
  obtain t3 where t3: "\<And>what. expect_tlv bs (lt_end t2) e TAG_OCTET_STRING what = Inr t3"
      "window bs (lt_start t3) (lt_end t3) = [flags]"
      "window bs (lt_end t3) e = encode_integer SECURITY_MODEL_USM @ []"
      "lt_end t3 = lt_start t3 + length [flags]" "lt_end t3 \<le> e"
    using tlv_element [OF t2(2) [unfolded encode_octet_string_def] l n] by (metis append_Nil2)
  obtain t4 where t4: "\<And>what. expect_tlv bs (lt_end t3) e TAG_INTEGER what = Inr t4"
      "window bs (lt_end t4) e = []" "lt_end t4 \<le> e"
      "\<forall>what. read_integer bs t4 what = Inr SECURITY_MODEL_USM"
    using tlv_element [OF t3(3) [unfolded encode_integer_def] l n, of SECURITY_MODEL_USM] by metis
  have "bs ! lt_start t3 = window bs (lt_start t3) (lt_end t3) ! 0"
    using t3(4,5) l by (simp add: window_def)
  then have "bs ! lt_start t3 = flags" using t3(2) by simp
  moreover have "lt_end t4 = e" by (rule window_empty [OF t4(2,3) l])
  ultimately show thesis using that [of t1 t2 t3 t4] t1 t2 t3 t4 by (simp add: reads_header_def)
qed

lemma read_usm:
  assumes w: "window bs a e = wire_usm usm" and l: "e \<le> length bs"
    and n: "length bs \<le> MAX_MESSAGE_BYTES"
  obtains engine_tlv boots_tlv time_tlv user_tlv auth_tlv priv_tlv where
    "reads_usm bs a e usm engine_tlv boots_tlv time_tlv user_tlv auth_tlv priv_tlv"
    "lt_end auth_tlv = lt_start auth_tlv + length (up_authentication usm)"
    "e = lt_end auth_tlv + length (encode_octet_string (up_privacy usm))"
proof -
  let ?boots = "ucast (up_engine_boots usm) :: 64 word" and ?time = "ucast (up_engine_time usm) :: 64 word"
  let ?tail = "encode_octet_string (up_user_name usm) @ encode_octet_string (up_authentication usm) @
      encode_octet_string (up_privacy usm)"
  obtain t1 where t1: "\<And>what. expect_tlv bs a e TAG_OCTET_STRING what = Inr t1"
      "window bs (lt_start t1) (lt_end t1) = up_engine_id usm"
      "window bs (lt_end t1) e = encode_integer ?boots @ encode_integer ?time @ ?tail"
    using tlv_element [OF w [unfolded wire_usm_def encode_octet_string_def [of "up_engine_id usm"]] l n] by metis
  obtain t2 where t2: "\<And>what. expect_tlv bs (lt_end t1) e TAG_INTEGER what = Inr t2"
      "window bs (lt_end t2) e = encode_integer ?time @ ?tail" "\<forall>what. read_integer bs t2 what = Inr ?boots"
    using tlv_element [OF t1(3) [unfolded encode_integer_def [of ?boots]] l n, of ?boots] by metis
  obtain t3 where t3: "\<And>what. expect_tlv bs (lt_end t2) e TAG_INTEGER what = Inr t3"
      "window bs (lt_end t3) e = ?tail" "\<forall>what. read_integer bs t3 what = Inr ?time"
    using tlv_element [OF t2(2) [unfolded encode_integer_def [of ?time]] l n, of ?time] by metis
  obtain t4 where t4: "\<And>what. expect_tlv bs (lt_end t3) e TAG_OCTET_STRING what = Inr t4"
      "window bs (lt_start t4) (lt_end t4) = up_user_name usm"
      "window bs (lt_end t4) e = encode_octet_string (up_authentication usm) @ encode_octet_string (up_privacy usm)"
    using tlv_element [OF t3(2) [unfolded encode_octet_string_def [of "up_user_name usm"]] l n] by metis
  obtain t5 where t5: "\<And>what. expect_tlv bs (lt_end t4) e TAG_OCTET_STRING what = Inr t5"
      "window bs (lt_start t5) (lt_end t5) = up_authentication usm"
      "window bs (lt_end t5) e = encode_octet_string (up_privacy usm) @ []"
      "lt_end t5 = lt_start t5 + length (up_authentication usm)"
    using tlv_element [OF t4(3) [unfolded encode_octet_string_def [of "up_authentication usm"]] l n]
    by (metis append_Nil2)
  obtain t6 where t6: "\<And>what. expect_tlv bs (lt_end t5) e TAG_OCTET_STRING what = Inr t6"
      "window bs (lt_start t6) (lt_end t6) = up_privacy usm" "window bs (lt_end t6) e = []" "lt_end t6 \<le> e"
      "lt_end t6 = lt_end t5 + length (encode_tlv TAG_OCTET_STRING (up_privacy usm))"
    using tlv_element [OF t5(3) [unfolded encode_octet_string_def] l n] by metis
  have "lt_end t6 = e" by (rule window_empty [OF t6(3,4) l])
  moreover from this have "e = lt_end t5 + length (encode_octet_string (up_privacy usm))"
    using t6(5) by (simp add: encode_octet_string_def)
  moreover have "reads_usm bs a e usm t1 t2 t3 t4 t5 t6"
    unfolding reads_usm_def 
    by (intro conjI allI t1 t2(1,3) [rule_format] t3(1,3) [rule_format] t4 t5 t6(1)
        t6(2) [unfolded calculation(1)] calculation(1))
  ultimately show thesis using that t5(4) by blast
qed

lemma sint_ucast_u32: "sint (ucast (c :: u32) :: 64 word) = uint c"
proof -
  have "uint c < 2 ^ 32" and lo: "0 \<le> uint c" using unsigned_less [of c] by simp_all
  moreover have "- (2 ^ 63) \<le> uint c" by (rule order_trans [OF _ lo]) simp
  ultimately show ?thesis
    by (simp add: sint_uint unsigned_ucast_eq take_bit_int_eq_self signed_take_bit_int_eq_self)
qed

lemma sint_bound: "sint (word_of_nat MAX_MESSAGE_BYTES :: 64 word) = int MAX_MESSAGE_BYTES"
  by (simp add: MAX_MESSAGE_BYTES_def)

lemma checked_counters:
  assumes "check_message_invariants message_id max_size flags security_model usm = Inr ()"
  shows "0 \<le> message_id" "message_id \<le> MAX_COUNTER"
    and "uint (up_engine_boots usm) \<le> MAX_COUNTER" "uint (up_engine_time usm) \<le> MAX_COUNTER"
    and "length (up_authentication usm) = (if flags AND FLAG_AUTH \<noteq> 0 then 24 else 0)"
  using assms by (simp_all add: check_message_invariants_def Let_def split: if_splits)

lemma decode_wire_form:
  fixes i :: "64 word" and usm :: usm_parameters and bs :: bytes
  assumes bs: "bs = wire_form i flags usm data" and n: "length bs \<le> MAX_MESSAGE_BYTES"
    and inv: "check_message_invariants (sint i) (int MAX_MESSAGE_BYTES) flags SECURITY_MODEL_USM usm = Inr ()"
    and data: "data = encode_tlv (if flags AND FLAG_PRIV \<noteq> 0 then TAG_OCTET_STRING else TAG_SEQUENCE) content"
  obtains m where "decode_v3_message bs = Inr m" "dm_datagram m = bs" "dm_message_id m = ucast i"
    "dm_flags m = flags" "dm_security_model m = SECURITY_MODEL_USM" "dm_usm m = usm"
    "dm_encrypted m \<longleftrightarrow> flags AND FLAG_PRIV \<noteq> 0"
    "scoped_pdu_bytes m = (if flags AND FLAG_PRIV \<noteq> 0 then content else data)"
    "dm_authentication_range m = (length (wire_before i flags usm data),
       length (wire_before i flags usm data) + length (up_authentication usm))"
proof -
  let ?L = "length bs"
  obtain msg where msg: "\<And>what. expect_tlv bs 0 ?L TAG_SEQUENCE what = Inr msg" "lt_end msg = ?L"
      "window bs (lt_start msg) ?L = wire_body i flags usm data"
    using tlv_element [of bs 0 ?L TAG_SEQUENCE "wire_body i flags usm data" "[]"] n
    unfolding window_all by (metis add_0 append_Nil2 bs le_refl wire_form_def)
  obtain ver where ver: "\<And>what. expect_tlv bs (lt_start msg) ?L TAG_INTEGER what = Inr ver"
      "\<forall>what. read_integer bs ver what = Inr VERSION_3"
      "window bs (lt_end ver) ?L = encode_tlv TAG_SEQUENCE (wire_header i flags) @
         encode_octet_string (encode_tlv TAG_SEQUENCE (wire_usm usm)) @ data"
    using tlv_element [OF msg(3) [unfolded wire_body_def encode_integer_def [of VERSION_3]] le_refl n,
        of VERSION_3] by metis
  obtain hdr where hdr: "\<And>what. expect_tlv bs (lt_end ver) ?L TAG_SEQUENCE what = Inr hdr"
      "window bs (lt_start hdr) (lt_end hdr) = wire_header i flags" "lt_end hdr \<le> ?L"
      "window bs (lt_end hdr) ?L = encode_tlv TAG_OCTET_STRING (encode_tlv TAG_SEQUENCE (wire_usm usm)) @ data"
    using tlv_element [OF ver(3) [unfolded encode_octet_string_def] le_refl n] by metis
  obtain t1 t2 t3 t4 where h: "reads_header bs (lt_start hdr) (lt_end hdr) i flags t1 t2 t3 t4"
    using read_header [OF hdr(2,3) n] by blast
  obtain prm where prm: "\<And>what. expect_tlv bs (lt_end hdr) ?L TAG_OCTET_STRING what = Inr prm"
      "window bs (lt_start prm) (lt_end prm) = encode_tlv TAG_SEQUENCE (wire_usm usm) @ []"
      "lt_end prm \<le> ?L" "window bs (lt_end prm) ?L = data @ []"
    using tlv_element [OF hdr(4) le_refl n] by (metis append_Nil2)
  obtain seq where seq: "\<And>what. expect_tlv bs (lt_start prm) (lt_end prm) TAG_SEQUENCE what = Inr seq"
      "window bs (lt_start seq) (lt_end seq) = wire_usm usm" "lt_end seq \<le> lt_end prm"
      "window bs (lt_end seq) (lt_end prm) = []"
    using tlv_element [OF prm(2,3) n] by metis
  have seq_end: "lt_end seq = lt_end prm" by (rule window_empty [OF seq(4,3) prm(3)])
  obtain u1 u2 u3 u4 u5 u6 where u: "reads_usm bs (lt_start seq) (lt_end prm) usm u1 u2 u3 u4 u5 u6"
      and u5: "lt_end u5 = lt_start u5 + length (up_authentication usm)"
        "lt_end prm = lt_end u5 + length (encode_octet_string (up_privacy usm))"
    using read_usm [OF seq(2) [unfolded seq_end] prm(3) n] by blast
  let ?tag = "if flags AND FLAG_PRIV \<noteq> 0 then TAG_OCTET_STRING else TAG_SEQUENCE"
  obtain dat where dat: "\<And>what. read_tlv bs (lt_end prm) ?L what = Inr dat" "lt_tag dat = ?tag"
      "window bs (lt_start dat) (lt_end dat) = content" "window bs (lt_end dat) ?L = []" "lt_end dat \<le> ?L"
    using tlv_element [OF prm(4) [unfolded data] le_refl n] by metis
  have dat_end: "lt_end dat = ?L" by (rule window_empty [OF dat(4,5) le_refl])
  have "?L = length (wire_before i flags usm data) + length (up_authentication usm) +
      length (encode_octet_string (up_privacy usm)) + length data"
    by (simp add: bs wire_form_parts wire_after_def)
  moreover have "?L - lt_end prm = length data" using prm(4) length_window [OF le_refl, of bs "lt_end prm"] by simp
  ultimately have start: "lt_start u5 = length (wire_before i flags usm data)"
    using prm(3) u5 by linarith
  let ?m = "\<lparr>dm_datagram = bs, dm_message_id = ucast i, dm_flags = flags,
      dm_security_model = SECURITY_MODEL_USM, dm_usm = usm, dm_authentication_range = lt_content u5,
      dm_scoped_pdu = (if flags AND FLAG_PRIV \<noteq> 0 then lt_content dat else (lt_end prm, lt_end dat)),
      dm_encrypted = (flags AND FLAG_PRIV \<noteq> 0)\<rparr>"
  have eta: "\<lparr>up_engine_id = up_engine_id usm, up_engine_boots = up_engine_boots usm,
      up_engine_time = up_engine_time usm, up_user_name = up_user_name usm,
      up_authentication = up_authentication usm, up_privacy = up_privacy usm\<rparr> = usm" by simp
  have tags: "TAG_OCTET_STRING \<noteq> TAG_SEQUENCE" by (simp add: ber_tags)
  have "decode_v3_message bs = Inr ?m"
    unfolding decode_v3_message_def Let_def
    using checked_counters [OF inv] n inv h [unfolded reads_header_def] u [unfolded reads_usm_def] tags
    by (simp add: msg(1,2) ver(1,2) hdr(1) prm(1) seq(1) seq_end dat(1,2) dat_end sint_ucast_u32
        ucast_down_up MAX_COUNTER_def sint_bound eta)
  then show thesis
    by (rule that) (use start u5 dat prm(4) dat_end in \<open>simp_all add: scoped_pdu_bytes_def\<close>)
qed


section \<open>Messages that are sent\<close>

lemma level_bits:
  "level_flags l reportable AND FLAG_PRIV \<noteq> 0 \<longleftrightarrow> level_encrypted l"
  "level_flags l reportable AND FLAG_AUTH \<noteq> 0 \<longleftrightarrow> level_authenticated l"
  by (cases l; cases "case l of Discovery \<Rightarrow> AuthPriv | Secured s \<Rightarrow> s";
      simp add: level_flags_def level_encrypted_def level_authenticated_def FLAG_PRIV_def FLAG_AUTH_def
        FLAG_REPORTABLE_def)+

lemma sint_scast_i32: "sint (scast (i :: 32 word) :: 64 word) = sint i"
  by (simp add: sint_up_scast is_up)

lemma ucast_scast_i32: "ucast (scast (i :: 32 word) :: 64 word) = i"
  by (rule bit_word_eqI) (auto simp: bit_simps)

text \<open>What the encoder writes is the wire form with a digest of zeros.\<close>

lemma encode_is_wire_form:
  fixes message_id :: "32 word"
  defines "auth_len l \<equiv> if level_authenticated l then 24 else 0"
  assumes "encode_v3_message message_id l reportable usm scoped = Inr e"
  defines "out \<equiv> usm\<lparr>up_authentication := replicate (auth_len l) 0\<rparr>"
    and "data \<equiv> if level_encrypted l then encode_octet_string scoped else scoped"
  shows "check_message_invariants (sint message_id) (int MAX_MESSAGE_BYTES) (level_flags l reportable)
      SECURITY_MODEL_USM out = Inr ()"
    and "en_bytes e = wire_form (scast message_id) (level_flags l reportable) out data"
    and "length (en_bytes e) \<le> MAX_MESSAGE_BYTES" and "up_authentication usm = []"
    and "en_authentication_range e =
      (if auth_len l = 0 then (0, 0)
       else (length (wire_before (scast message_id) (level_flags l reportable) out data),
             length (wire_before (scast message_id) (level_flags l reportable) out data) + auth_len l))"
proof -
  note enc = assms(2) [unfolded encode_v3_message_def Let_def and_then_Inr_iff tag_len.simps, folded auth_len_def out_def]
  show "check_message_invariants (sint message_id) (int MAX_MESSAGE_BYTES) (level_flags l reportable)
      SECURITY_MODEL_USM out = Inr ()" and "up_authentication usm = []"
    using enc by (auto split: if_splits)
  show "en_bytes e = wire_form (scast message_id) (level_flags l reportable) out data"
    using enc unfolding wire_form_def wire_body_def wire_usm_def wire_header_def out_def data_def
    by (auto split: if_splits)
  show "length (en_bytes e) \<le> MAX_MESSAGE_BYTES" using enc by (auto split: if_splits)
  show "en_authentication_range e =
      (if auth_len l = 0 then (0, 0)
       else (length (wire_before (scast message_id) (level_flags l reportable) out data),
             length (wire_before (scast message_id) (level_flags l reportable) out data) + auth_len l))"
    using enc unfolding wire_before_def wire_body_def wire_usm_def wire_header_def out_def data_def
    by (auto simp: encode_octet_string_def encode_tlv_def tlv_head_def split: if_splits)
qed

lemma located_in_bounds:
  assumes "expect_tlv bs at limit tag what = Inr t"
  shows "lt_start t \<le> lt_end t" "lt_end t \<le> length bs"
  using assms by (auto simp: expect_tlv_def read_tlv_def and_then_Inr_iff Let_def split: if_splits)

lemma decoded_digest:
  assumes "decode_v3_message bs = Inr m"
  shows "dm_datagram m = bs"
    and "up_authentication (dm_usm m) = slice bs (dm_authentication_range m)"
    and "fst (dm_authentication_range m) \<le> snd (dm_authentication_range m)"
    and "snd (dm_authentication_range m) \<le> length bs"
  using assms unfolding decode_v3_message_def Let_def and_then_Inr_iff
  by (auto split: if_splits simp: and_then_Inr_iff dest: located_in_bounds)

lemma check_any_digest:
  "length tag = length (up_authentication usm) \<Longrightarrow>
     check_message_invariants i n flags model (usm\<lparr>up_authentication := tag\<rparr>) =
     check_message_invariants i n flags model usm"
  by (cases usm) (simp only: check_message_invariants_def Let_def usm_parameters.simps)

lemma encoded_with_digest:
  assumes enc: "encode_v3_message message_id l reportable usm scoped = Inr e"
    and plain: "\<not> level_encrypted l \<Longrightarrow> \<exists>body. scoped = encode_tlv TAG_SEQUENCE body"
    and tag: "length tag = snd (en_authentication_range e) - fst (en_authentication_range e)"
  obtains m where "decode_v3_message (splice (en_bytes e) (en_authentication_range e) tag) = Inr m"
    "dm_message_id m = message_id" "dm_flags m = level_flags l reportable"
    "dm_usm m = usm\<lparr>up_authentication := tag\<rparr>" "dm_encrypted m \<longleftrightarrow> level_encrypted l"
    "scoped_pdu_bytes m = scoped"
    "level_authenticated l \<Longrightarrow> dm_authentication_range m = en_authentication_range e"
proof -
  let ?i = "scast message_id :: 64 word" and ?flags = "level_flags l reportable"
  let ?n = "if level_authenticated l then 24 else (0 :: nat)"
  let ?out = "usm\<lparr>up_authentication := replicate ?n 0\<rparr>" and ?usm = "usm\<lparr>up_authentication := tag\<rparr>"
  let ?data = "if level_encrypted l then encode_octet_string scoped else scoped"
  note e = encode_is_wire_form [OF enc]
  have n: "length tag = ?n" using tag e(5) by (auto split: if_splits)
  obtain content where content: "?data = encode_tlv (if level_encrypted l then TAG_OCTET_STRING else TAG_SEQUENCE) content"
      "level_encrypted l \<Longrightarrow> content = scoped"
    using plain by (cases "level_encrypted l") (auto simp: encode_octet_string_def)
  have inv: "check_message_invariants (sint ?i) (int MAX_MESSAGE_BYTES) ?flags SECURITY_MODEL_USM ?usm = Inr ()"
    using e(1) n check_any_digest [of tag ?out] unfolding sint_scast_i32 by simp
  have bytes: "splice (en_bytes e) (en_authentication_range e) tag = wire_form ?i ?flags ?usm ?data"
    using splice_wire_form [of tag ?out ?i ?flags ?data] n e(2,4,5)
    by (auto simp: splice_def split: if_splits)
  have size: "length (wire_form ?i ?flags ?usm ?data) \<le> MAX_MESSAGE_BYTES"
    using e(3) n wire_parts_digest(1) [of tag ?out ?i ?flags ?data]
    unfolding e(2) by (simp add: wire_form_parts wire_after_def)
  have pos: "length (wire_before ?i ?flags ?usm ?data) = length (wire_before ?i ?flags ?out ?data)"
    using n wire_parts_digest(1) [of tag ?out ?i ?flags ?data] by simp
  obtain m where m: "decode_v3_message (wire_form ?i ?flags ?usm ?data) = Inr m" "dm_message_id m = ucast ?i"
      "dm_flags m = ?flags" "dm_usm m = ?usm" "dm_encrypted m \<longleftrightarrow> level_encrypted l"
      "scoped_pdu_bytes m = (if level_encrypted l then content else ?data)"
      "dm_authentication_range m = (length (wire_before ?i ?flags ?usm ?data),
         length (wire_before ?i ?flags ?usm ?data) + length (up_authentication ?usm))"
    by (rule decode_wire_form [OF refl size inv, unfolded level_bits, OF content(1)]) blast
  show thesis
  proof (rule that [OF m(1) [folded bytes] m(2) [unfolded ucast_scast_i32] m(3,4,5)])
    show "scoped_pdu_bytes m = scoped" using m(6) content(2) by (auto split: if_splits)
    show "dm_authentication_range m = en_authentication_range e" if "level_authenticated l"
      using that unfolding m(7) e(5) pos by (simp add: n)
  qed
qed

text \<open>A small authenticated request and what the encoder makes of it.\<close>

definition sample_usm :: usm_parameters where
  "sample_usm =
     \<lparr>up_engine_id = [0x80, 0, 0, 0, 1], up_engine_boots = 2, up_engine_time = 300,
      up_user_name = [0x61], up_authentication = [], up_privacy = []\<rparr>"

definition sample_encoded :: encoded where
  "sample_encoded =
     \<lparr>en_bytes = [0x30, 0x45, 2, 1, 3, 0x30, 0x0D, 2, 1, 7, 2, 2, 0x20, 0, 4, 1, 5, 2, 1, 3,
        4, 0x2F, 0x30, 0x2D, 4, 5, 0x80, 0, 0, 0, 1, 2, 1, 2, 2, 2, 1, 0x2C, 4, 1, 0x61, 4, 0x18] @
        replicate 24 0 @ [4, 0, 0x30, 0],
      en_authentication_range = (43, 67)\<rparr>"

lemma sample_encodes: "encode_v3_message 7 (Secured AuthNoPriv) True sample_usm [0x30, 0] = Inr sample_encoded"
  by code_simp

lemma empty_sequence: "[0x30, 0] = encode_tlv TAG_SEQUENCE []"
  by (simp add: encode_tlv_def encode_length_def TAG_SEQUENCE_def)

text \<open>
  The encoder and the decoder agree, digest included. Whatever \<open>encode_message\<close> produces, with any
  digest of the right length written into the range it reports, is read back as a message with the
  same identifier, flags and security parameters, that digest, and the scoped PDU exactly as it was
  given (encrypted or, when it is a SEQUENCE, in the clear); and the decoder finds the digest in the
  same range, so that both sides compute over the same octets.
\<close>

theorem v3_message_round_trip:
  assumes "encode_v3_message message_id l reportable usm scoped = Inr e"
    and "\<not> level_encrypted l \<Longrightarrow> \<exists>body. scoped = encode_tlv TAG_SEQUENCE body"
    and "length tag = snd (en_authentication_range e) - fst (en_authentication_range e)"
  shows "\<exists>m. decode_v3_message (splice (en_bytes e) (en_authentication_range e) tag) = Inr m \<and>
    dm_message_id m = message_id \<and> dm_flags m = level_flags l reportable \<and>
    dm_usm m = usm\<lparr>up_authentication := tag\<rparr> \<and> (dm_encrypted m \<longleftrightarrow> level_encrypted l) \<and>
    scoped_pdu_bytes m = scoped \<and>
    (level_authenticated l \<longrightarrow> dm_authentication_range m = en_authentication_range e)"
  by (rule encoded_with_digest [OF assms]) blast+

theorem v3_message_round_trip_witness:
  "\<exists>m. decode_v3_message (splice (en_bytes sample_encoded) (43, 67) (replicate 24 0xAB)) = Inr m \<and>
    dm_message_id m = 7 \<and> dm_flags m = 5 \<and>
    dm_usm m = sample_usm\<lparr>up_authentication := replicate 24 0xAB\<rparr> \<and>
    scoped_pdu_bytes m = [0x30, 0] \<and> dm_authentication_range m = (43, 67)"
  using v3_message_round_trip [OF sample_encodes, of "replicate 24 0xAB"] empty_sequence
  by (auto simp: sample_encoded_def level_flags_def level_authenticated_def FLAG_REPORTABLE_def)

text \<open>
  C39: Verification accepts exactly what signing produces. For a datagram that decodes, the digest
  verifies under a key precisely when signing the same octets with a zeroed digest field under that
  key gives the datagram back: nothing outside the digest field escapes the tag.
\<close>

theorem verified_iff_signed:
  assumes "decode_v3_message datagram = Inr m"
    and "\<And>key message. length (hmac_sha256 ops key message) = 32"
  shows "verify_message ops key HmacSha256 m \<longleftrightarrow>
    (let r = dm_authentication_range m
     in sign ops key HmacSha256
          \<lparr>en_bytes = splice datagram r (replicate (snd r - fst r) 0), en_authentication_range = r\<rparr> =
        Inr datagram)"
proof -
  obtain s t where r: "dm_authentication_range m = (s, t)" by fastforce
  note d = decoded_digest [OF assms(1), unfolded r, simplified]
  obtain pre w post where p: "datagram = pre @ w @ post" "s = length pre" "t = length pre + length w"
  proof (rule that [of "take s datagram" "window datagram s t" "drop t datagram"])
    have "take t datagram = take s datagram @ window datagram s t"
      using d(3) by (metis append_take_drop_id min.absorb1 take_take window_def)
    then show "datagram = take s datagram @ window datagram s t @ drop t datagram"
      by (metis append.assoc append_take_drop_id)
  qed (use d(3,4) in \<open>simp_all add: window_def\<close>)
  have "up_authentication (dm_usm m) = w" using d(2) by (simp add: p window_def)
  moreover have "length (authenticate ops key x HmacSha256) = 24" for x
    by (simp add: authenticate_def assms(2))
  ultimately show ?thesis
    unfolding r verify_message_def sign_def verify_tag_def d(1) p(2,3)
    by (auto simp: p(1) splice_def)
qed

definition sample_ops :: usm_ops where
  "sample_ops =
     \<lparr>sha256 = (\<lambda>_. replicate 32 0), hmac_sha256 = (\<lambda>_ _. replicate 32 0xAB),
      aes_cfb_encrypt = (\<lambda>_ _ d. d), aes_cfb_decrypt = (\<lambda>_ _ d. d)\<rparr>"

theorem verified_iff_signed_witness:
  "\<exists>m. decode_v3_message (splice (en_bytes sample_encoded) (43, 67) (replicate 24 0xAB)) = Inr m \<and>
    verify_message sample_ops [] HmacSha256 m"
proof -
  let ?d = "splice (en_bytes sample_encoded) (43, 67) (replicate 24 0xAB)"
  obtain m where m: "decode_v3_message ?d = Inr m" "dm_authentication_range m = (43, 67)"
    using encoded_with_digest [OF sample_encodes, of "replicate 24 0xAB"] empty_sequence
    by (auto simp: sample_encoded_def level_authenticated_def)
  have "sign sample_ops [] HmacSha256
      \<lparr>en_bytes = splice ?d (43, 67) (replicate 24 0), en_authentication_range = (43, 67)\<rparr> = Inr ?d"
    by (simp add: sign_def authenticate_def sample_ops_def splice_def sample_encoded_def)
  then show ?thesis
    using verified_iff_signed [OF m(1), of sample_ops "[]"] m by (auto simp: sample_ops_def Let_def)
qed

end
