(* ===== verification/Neighbours.thy ===== *)
theory Neighbours
  imports Tlv Rust_Text
begin

text \<open>
  The neighbour discovery decoders: CDP (\<open>src/src/probes/cdp.rs\<close>), LLDP (\<open>src/src/probes/lldp.rs\<close>)
  and MNDP (\<open>src/src/probes/mndp.rs\<close>). Each is a walk over its elements with a state record for the
  local variables of its loop; the capture handles of \<open>lldp.rs\<close> are outside the model.
\<close>

text \<open>The labels whose bit is set, in the order the code tests them.\<close>

definition labels_of :: "'a::len word \<Rightarrow> ('a word \<times> string) list \<Rightarrow> string list" where
  "labels_of caps table = map snd (filter (\<lambda>(bits, _). caps AND bits \<noteq> 0) table)"

section \<open>CDP\<close>

record cdp_neighbor =
  cd_device_id :: string
  cd_port_id :: string
  cd_platform :: "string option"
  cd_software_version :: "string option"
  cd_management_ip :: "32 word option"
  cd_native_vlan :: "u16 option"
  cd_capabilities :: "string list"

record cdp_state =
  cs_device_id :: "string option"
  cs_port_id :: "string option"
  cs_platform :: "string option"
  cs_software_version :: "string option"
  cs_management_ip :: "32 word option"
  cs_native_vlan :: "u16 option"
  cs_capabilities :: "string list"

definition cdp_init :: cdp_state where
  "cdp_init =
     \<lparr>cs_device_id = None, cs_port_id = None, cs_platform = None, cs_software_version = None,
      cs_management_ip = None, cs_native_vlan = None, cs_capabilities = []\<rparr>"

definition CDP_MULTICAST_MAC :: bytes where
  "CDP_MULTICAST_MAC = [0x01, 0x00, 0x0C, 0xCC, 0xCC, 0xCC]"

definition CDP_SNAP :: bytes where
  "CDP_SNAP = [0xAA, 0xAA, 0x03, 0x00, 0x00, 0x0C, 0x20, 0x00]"

definition cdp_next :: "bytes \<Rightarrow> (u16 \<times> bytes \<times> bytes) option" where
  "cdp_next bs =
     (if length bs < 4 then None
      else
        let tlv_len = unat (u16_at bs 2)
        in if tlv_len < 4 \<or> length bs < tlv_len then None
           else Some (u16_at bs 0, take (tlv_len - 4) (drop 4 bs), drop tlv_len bs))"

text \<open>The loop over the addresses of an address element: the first IPv4 one is kept.\<close>

fun cdp_addresses :: "nat \<Rightarrow> bytes \<Rightarrow> 32 word option \<Rightarrow> 32 word option" where
  "cdp_addresses 0 rest ip = ip"
| "cdp_addresses (Suc n) rest ip =
     (if length rest < 4 then ip
      else
        let proto_type = rest ! 0; proto_len = unat (rest ! 1); proto = drop 2 rest
        in if length proto < proto_len + 2 then ip
           else
             let is_ip = (proto_type = 1 \<and> proto_len = 1 \<and> proto ! 0 = 0xCC);
                 at = drop proto_len proto; addr_len = unat (u16_at at 0); addr = drop 2 at
             in if length addr < addr_len then ip
                else cdp_addresses n (drop addr_len addr)
                       (if is_ip \<and> addr_len = 4 \<and> ip = None then Some (u32_at addr 0) else ip))"

definition cdp_capability_table :: "(u32 \<times> string) list" where
  "cdp_capability_table =
     [(0x01, ''Router''), (0x02, ''Transparent Bridge''), (0x04, ''Source Route Bridge''),
      (0x08, ''Switch''), (0x10, ''Host''), (0x20, ''IGMP''), (0x40, ''Repeater'')]"

definition cdp_apply :: "u16 \<times> bytes \<Rightarrow> cdp_state \<Rightarrow> cdp_state" where
  "cdp_apply e s =
     (let (t, v) = e
      in if t = 0x0001 then s\<lparr>cs_device_id := Some (trimmed_text_of v)\<rparr>
         else if t = 0x0002 then
           (if 4 \<le> length v
            then s\<lparr>cs_management_ip := cdp_addresses (unat (u32_at v 0)) (drop 4 v) (cs_management_ip s)\<rparr>
            else s)
         else if t = 0x0003 then s\<lparr>cs_port_id := Some (trimmed_text_of v)\<rparr>
         else if t = 0x0004 then
           (if 4 \<le> length v
            then s\<lparr>cs_capabilities := cs_capabilities s @ labels_of (u32_at v 0) cdp_capability_table\<rparr>
            else s)
         else if t = 0x0005 then s\<lparr>cs_software_version := Some (trimmed_text_of v)\<rparr>
         else if t = 0x0006 then s\<lparr>cs_platform := Some (trimmed_text_of v)\<rparr>
         else if t = 0x000A \<and> 2 \<le> length v then s\<lparr>cs_native_vlan := Some (u16_at v 0)\<rparr>
         else s)"

definition cdp_offset :: "bytes \<Rightarrow> nat" where
  "cdp_offset payload =
     (if 22 \<le> length payload \<and> take 6 payload = CDP_MULTICAST_MAC \<and>
         take 8 (drop 14 payload) = CDP_SNAP
      then 22 else 0)"

definition cdp_finish :: "cdp_state \<Rightarrow> cdp_neighbor option" where
  "cdp_finish s =
     (case (cs_device_id s, cs_port_id s) of
        (Some dev, Some port) \<Rightarrow>
          Some \<lparr>cd_device_id = dev, cd_port_id = port, cd_platform = cs_platform s,
                cd_software_version = cs_software_version s, cd_management_ip = cs_management_ip s,
                cd_native_vlan = cs_native_vlan s, cd_capabilities = cs_capabilities s\<rparr>
      | _ \<Rightarrow> None)"

definition parse_cdp_frame :: "bytes \<Rightarrow> cdp_neighbor option" where
  "parse_cdp_frame payload =
     (if length payload < 4 then None
      else
        let at = drop (cdp_offset payload) payload
        in if length at < 4 then None
           else if at ! 0 \<noteq> 1 \<and> at ! 0 \<noteq> 2 then None
           else cdp_finish (fold cdp_apply (walk cdp_next (drop 4 at)) cdp_init))"

section \<open>LLDP\<close>

record lldp_neighbor =
  ll_chassis_id :: string
  ll_port_id :: string
  ll_system_name :: "string option"
  ll_system_description :: "string option"
  ll_management_ip :: "32 word option"
  ll_capabilities :: "string list"

record lldp_state =
  ls_chassis_id :: "string option"
  ls_port_id :: "string option"
  ls_system_name :: "string option"
  ls_system_description :: "string option"
  ls_management_ip :: "32 word option"
  ls_capabilities :: "string list"

definition lldp_init :: lldp_state where
  "lldp_init =
     \<lparr>ls_chassis_id = None, ls_port_id = None, ls_system_name = None, ls_system_description = None,
      ls_management_ip = None, ls_capabilities = []\<rparr>"

text \<open>Type 0 ends the sequence, as the end of the bytes does.\<close>

definition lldp_next :: "bytes \<Rightarrow> (u8 \<times> bytes \<times> bytes) option" where
  "lldp_next bs =
     (if length bs < 2 then None
      else
        let header = u16_at bs 0; tlv_type = (ucast (drop_bit 9 header) :: u8);
            tlv_len = unat (header AND 0x01FF)
        in if length bs < 2 + tlv_len then None
           else if tlv_type = 0 then None
           else Some (tlv_type, take tlv_len (drop 2 bs), drop (2 + tlv_len) bs))"

definition lldp_capability_table :: "(u16 \<times> string) list" where
  "lldp_capability_table =
     [(0x0004, ''Bridge/Switch''), (0x0008, ''WLAN Access Point''), (0x0010, ''Router''),
      (0x0020, ''Telephone'')]"

definition lldp_apply :: "u8 \<times> bytes \<Rightarrow> lldp_state \<Rightarrow> lldp_state" where
  "lldp_apply e s =
     (let (t, v) = e
      in if t = 1 then
           (if v \<noteq> []
            then s\<lparr>ls_chassis_id :=
                     Some (if hd v = 4 \<and> length v = 7 then mac_text (tl v) else text_of (tl v))\<rparr>
            else s)
         else if t = 2 then (if v \<noteq> [] then s\<lparr>ls_port_id := Some (text_of (tl v))\<rparr> else s)
         else if t = 5 then s\<lparr>ls_system_name := Some (trimmed_text_of v)\<rparr>
         else if t = 6 then s\<lparr>ls_system_description := Some (trimmed_text_of v)\<rparr>
         else if t = 7 then
           (if 4 \<le> length v
            then s\<lparr>ls_capabilities := ls_capabilities s @ labels_of (u16_at v 0) lldp_capability_table\<rparr>
            else s)
         else if t = 8 \<and> 6 \<le> length v \<and> v ! 0 = 5 \<and> v ! 1 = 1
         then s\<lparr>ls_management_ip := Some (u32_at v 2)\<rparr>
         else s)"

definition lldp_finish :: "lldp_state \<Rightarrow> lldp_neighbor option" where
  "lldp_finish s =
     (case (ls_chassis_id s, ls_port_id s) of
        (Some chassis, Some port) \<Rightarrow>
          Some \<lparr>ll_chassis_id = chassis, ll_port_id = port, ll_system_name = ls_system_name s,
                ll_system_description = ls_system_description s,
                ll_management_ip = ls_management_ip s, ll_capabilities = ls_capabilities s\<rparr>
      | _ \<Rightarrow> None)"

definition cdp_description :: "string option \<Rightarrow> string option \<Rightarrow> string option" where
  "cdp_description platform version =
     (case (platform, version) of
        (Some p, Some v) \<Rightarrow> Some (p @ '' - '' @ v)
      | (Some p, None) \<Rightarrow> Some p
      | (None, v) \<Rightarrow> v)"

definition lldp_of_cdp :: "cdp_neighbor \<Rightarrow> lldp_neighbor" where
  "lldp_of_cdp c =
     \<lparr>ll_chassis_id = cd_device_id c, ll_port_id = cd_port_id c, ll_system_name = Some (cd_device_id c),
      ll_system_description = cdp_description (cd_platform c) (cd_software_version c),
      ll_management_ip = cd_management_ip c, ll_capabilities = cd_capabilities c\<rparr>"

definition parse_lldp_frame :: "bytes \<Rightarrow> lldp_neighbor option" where
  "parse_lldp_frame payload =
     (if length payload < 14 then None
      else if 22 \<le> length payload \<and> take 6 payload = CDP_MULTICAST_MAC \<and> parse_cdp_frame payload \<noteq> None
      then map_option lldp_of_cdp (parse_cdp_frame payload)
      else lldp_finish (fold lldp_apply (walk lldp_next (drop 14 payload)) lldp_init))"

section \<open>MNDP\<close>

record mndp_neighbor =
  mn_identity :: string
  mn_mac_address :: string
  mn_board_name :: "string option"
  mn_software_version :: "string option"
  mn_interface_name :: "string option"
  mn_ipv4_address :: "32 word option"

record mndp_state =
  ms_identity :: "string option"
  ms_mac_address :: "string option"
  ms_board_name :: "string option"
  ms_software_version :: "string option"
  ms_interface_name :: "string option"
  ms_ipv4_address :: "32 word option"

definition mndp_init :: mndp_state where
  "mndp_init =
     \<lparr>ms_identity = None, ms_mac_address = None, ms_board_name = None, ms_software_version = None,
      ms_interface_name = None, ms_ipv4_address = None\<rparr>"

definition mndp_next :: "bytes \<Rightarrow> (u16 \<times> bytes \<times> bytes) option" where
  "mndp_next bs =
     (if length bs < 4 then None
      else
        let tlv_len = unat (u16_at bs 2)
        in if length bs < 4 + tlv_len then None
           else Some (u16_at bs 0, take tlv_len (drop 4 bs), drop (4 + tlv_len) bs))"

definition mndp_apply :: "u16 \<times> bytes \<Rightarrow> mndp_state \<Rightarrow> mndp_state" where
  "mndp_apply e s =
     (let (t, v) = e
      in if t = 0x0001 then (if length v = 6 then s\<lparr>ms_mac_address := Some (mac_text v)\<rparr> else s)
         else if t = 0x0005 then s\<lparr>ms_identity := Some (trimmed_text_of v)\<rparr>
         else if t = 0x0007 then s\<lparr>ms_software_version := Some (trimmed_text_of v)\<rparr>
         else if t = 0x000C then s\<lparr>ms_board_name := Some (trimmed_text_of v)\<rparr>
         else if t = 0x0010 then s\<lparr>ms_interface_name := Some (trimmed_text_of v)\<rparr>
         else if t = 0x0011 \<and> length v = 4 then s\<lparr>ms_ipv4_address := Some (u32_at v 0)\<rparr>
         else s)"

definition mndp_finish :: "mndp_state \<Rightarrow> mndp_neighbor option" where
  "mndp_finish s =
     (case (ms_identity s, ms_mac_address s) of
        (Some ident, Some mac) \<Rightarrow>
          Some \<lparr>mn_identity = ident, mn_mac_address = mac, mn_board_name = ms_board_name s,
                mn_software_version = ms_software_version s, mn_interface_name = ms_interface_name s,
                mn_ipv4_address = ms_ipv4_address s\<rparr>
      | _ \<Rightarrow> None)"

definition parse_mndp_packet :: "bytes \<Rightarrow> mndp_neighbor option" where
  "parse_mndp_packet payload =
     (if length payload < 8 then None
      else mndp_finish (fold mndp_apply (walk mndp_next (drop 4 payload)) mndp_init))"

text \<open>The listening loop, over the datagrams that arrived while it ran.\<close>

fun listen_mndp :: "mndp_neighbor list \<Rightarrow> bytes list \<Rightarrow> mndp_neighbor list" where
  "listen_mndp neighbors [] = neighbors"
| "listen_mndp neighbors (d # ds) =
     (case parse_mndp_packet (take 1500 d) of
        Some n \<Rightarrow>
          if list_ex (\<lambda>m. mn_mac_address m = mn_mac_address n) neighbors
          then listen_mndp neighbors ds
          else listen_mndp (neighbors @ [n]) ds
      | None \<Rightarrow> listen_mndp neighbors ds)"

definition listen_mndp_neighbors :: "bytes list \<Rightarrow> mndp_neighbor list" where
  "listen_mndp_neighbors datagrams = listen_mndp [] datagrams"

section \<open>The three formats\<close>

definition lldp_enc :: "u8 \<Rightarrow> bytes \<Rightarrow> bytes" where
  "lldp_enc t v = u16_bytes (push_bit 9 (ucast t) OR word_of_nat (length v)) @ v"

definition lldp_ok :: "u8 \<times> bytes \<Rightarrow> bool" where
  "lldp_ok e \<longleftrightarrow> fst e \<noteq> 0 \<and> fst e < 128 \<and> length (snd e) < 512"

definition cdp_enc :: "u16 \<Rightarrow> bytes \<Rightarrow> bytes" where
  "cdp_enc t v = u16_bytes t @ u16_bytes (word_of_nat (length v + 4)) @ v"

definition cdp_ok :: "u16 \<times> bytes \<Rightarrow> bool" where
  "cdp_ok e \<longleftrightarrow> length (snd e) + 4 < 65536"

definition mndp_enc :: "u16 \<Rightarrow> bytes \<Rightarrow> bytes" where
  "mndp_enc t v = u16_bytes t @ u16_bytes (word_of_nat (length v)) @ v"

definition mndp_ok :: "u16 \<times> bytes \<Rightarrow> bool" where
  "mndp_ok e \<longleftrightarrow> length (snd e) < 65536"

lemma u16_fields [bytes_simps]:
  "u16_at (u16_bytes w @ rest) 0 = w" "u16_at (u16_bytes a @ u16_bytes w @ rest) 2 = w"
  by (simp_all add: u16_at_def u16_bytes_def be16_bytes)

lemma length_u16_bytes [simp]: "length (u16_bytes w) = 2"
  by (simp add: u16_bytes_def)

lemma unat_u16: "n < 65536 \<Longrightarrow> unat (word_of_nat n :: u16) = n"
  by (simp add: unat_of_nat)

lemma lldp_header:
  assumes "t < 128" and "n < 512"
  shows "ucast (drop_bit 9 (push_bit 9 (ucast t) OR word_of_nat n :: u16)) = (t :: u8)"
    and "unat ((push_bit 9 (ucast t) OR word_of_nat n :: u16) AND 0x1FF) = n"
proof -
  let ?n = "word_of_nat n :: u16"
  have n: "unat ?n = n" using assms(2) by (simp add: unat_of_nat)
  have low: "take_bit 9 ?n = ?n"
    unfolding word_unat_eq_iff unsigned_take_bit_eq n using assms(2) by (simp add: take_bit_eq_mod)
  have "take_bit 7 t = t"
    unfolding word_unat_eq_iff unsigned_take_bit_eq
    using assms(1) by (simp add: take_bit_eq_mod word_less_nat_alt)
  then have t: "bit t i \<longleftrightarrow> bit (take_bit 7 t) i" for i by simp
  have nb: "bit ?n i \<longleftrightarrow> bit (take_bit 9 ?n) i" for i using low by simp
  show "ucast (drop_bit 9 (push_bit 9 (ucast t) OR ?n)) = t"
  proof (rule bit_word_eqI)
    fix i assume "i < LENGTH(8)"
    then show "bit (ucast (drop_bit 9 (push_bit 9 (ucast t) OR ?n)) :: u8) i = bit t i"
      using t [of i] nb [of "9 + i"] by (auto simp: bit_simps)
  qed
  have "(push_bit 9 (ucast t) OR ?n) AND 0x1FF = take_bit 9 (push_bit 9 (ucast t) OR ?n)"
    by (simp add: take_bit_eq_mask mask_eq_exp_minus_1)
  also have "\<dots> = take_bit 9 ?n" by (rule bit_word_eqI) (auto simp: bit_simps)
  finally show "unat ((push_bit 9 (ucast t) OR ?n) AND 0x1FF) = n" using low n by simp
qed

lemma split_head: "n \<le> length bs \<Longrightarrow> 0 < k \<Longrightarrow> k \<le> n \<Longrightarrow>
    \<exists>head. head \<noteq> [] \<and> bs = head @ take (n - k) (drop k bs) @ drop n bs"
proof -
  assume n: "n \<le> length bs" "0 < k" "k \<le> n"
  have "drop k bs = take (n - k) (drop k bs) @ drop n bs"
    using append_take_drop_id [of "n - k" "drop k bs"] n(3) by (simp add: add.commute)
  then have "bs = take k bs @ take (n - k) (drop k bs) @ drop n bs"
    using append_take_drop_id [of k bs] by simp
  moreover have "take k bs \<noteq> []" using n by auto
  ultimately show ?thesis by blast
qed

interpretation cdp: tlv_format cdp_next cdp_enc cdp_ok
proof
  show "\<exists>head. head \<noteq> [] \<and> bs = head @ v @ rest" if "cdp_next bs = Some (t, v, rest)" for bs t v rest
    using that split_head [of "unat (u16_at bs 2)" bs 4]
    by (auto simp: cdp_next_def Let_def split: if_splits)
  show "cdp_next (cdp_enc t v @ rest) = Some (t, v, rest)" if "cdp_ok (t, v)" for t v rest
  proof -
    have "unat (word_of_nat (length v + 4) :: u16) = length v + 4"
      using that by (intro unat_u16) (simp add: cdp_ok_def)
    then show ?thesis
      unfolding cdp_next_def cdp_enc_def append_assoc u16_fields Let_def by (simp del: of_nat_add)
  qed
qed

interpretation mndp: tlv_format mndp_next mndp_enc mndp_ok
proof
  show "\<exists>head. head \<noteq> [] \<and> bs = head @ v @ rest" if "mndp_next bs = Some (t, v, rest)" for bs t v rest
    using that split_head [of "4 + unat (u16_at bs 2)" bs 4]
    by (auto simp: mndp_next_def Let_def split: if_splits)
  show "mndp_next (mndp_enc t v @ rest) = Some (t, v, rest)" if "mndp_ok (t, v)" for t v rest
  proof -
    have "unat (word_of_nat (length v) :: u16) = length v"
      using that by (intro unat_u16) (simp add: mndp_ok_def)
    then show ?thesis
      unfolding mndp_next_def mndp_enc_def append_assoc u16_fields Let_def by simp
  qed
qed

interpretation lldp: tlv_format lldp_next lldp_enc lldp_ok
proof
  show "\<exists>head. head \<noteq> [] \<and> bs = head @ v @ rest" if "lldp_next bs = Some (t, v, rest)" for bs t v rest
    using that split_head [of "2 + unat (u16_at bs 0 AND 0x01FF)" bs 2]
    by (auto simp: lldp_next_def Let_def split: if_splits)
  show "lldp_next (lldp_enc t v @ rest) = Some (t, v, rest)" if "lldp_ok (t, v)" for t v rest
  proof -
    have ok: "t \<noteq> 0" "t < 128" "length v < 512" using that by (simp_all add: lldp_ok_def)
    show ?thesis
      unfolding lldp_next_def lldp_enc_def append_assoc u16_fields Let_def lldp_header [OF ok(2,3)]
      using ok(1) by simp
  qed
qed

text \<open>The end of an LLDPDU: nothing after it is read.\<close>

lemma lldp_end: "walk lldp_next (lldp_enc 0 [] @ rest) = []"
  by (subst lldp.walk_unfold)
    (simp add: lldp_next_def lldp_enc_def u16_fields Let_def lldp_header [of 0 0, simplified])

section \<open>What a neighbour sent is what is read\<close>

text \<open>
  An LLDP neighbour is read as it announced itself. A frame with a hardware address as chassis,
  a port, a name, a description and an IPv4 management address, in well-formed text, then the end
  of the LLDPDU and anything after it, decodes to exactly those values (the name and description
  without surrounding white space).
\<close>

theorem lldp_announcement_round_trip:
  assumes "length header = 14" and "take 6 header \<noteq> CDP_MULTICAST_MAC" and "length mac = 6"
    and "list_all scalar port" "list_all scalar name" "list_all scalar text"
    and "length (utf8_bytes port) < 511" "length (utf8_bytes name) < 512" "length (utf8_bytes text) < 512"
  shows "parse_lldp_frame (header @ lldp_enc 1 (4 # mac) @ lldp_enc 2 (7 # utf8_bytes port) @
           lldp_enc 5 (utf8_bytes name) @ lldp_enc 6 (utf8_bytes text) @
           lldp_enc 8 (5 # 1 # u32_bytes ip) @ lldp_enc 0 [] @ trailer) =
     Some \<lparr>ll_chassis_id = mac_text mac, ll_port_id = utf8_encode port,
           ll_system_name = Some (utf8_encode (trim name)),
           ll_system_description = Some (utf8_encode (trim text)),
           ll_management_ip = Some ip, ll_capabilities = []\<rparr>"
proof -
  let ?ts = "[(1, 4 # mac), (2, 7 # utf8_bytes port), (5, utf8_bytes name), (6, utf8_bytes text),
      (8, 5 # 1 # u32_bytes ip)] :: (u8 \<times> bytes) list"
  let ?f = "header @ lldp_enc 1 (4 # mac) @ lldp_enc 2 (7 # utf8_bytes port) @
           lldp_enc 5 (utf8_bytes name) @ lldp_enc 6 (utf8_bytes text) @
           lldp_enc 8 (5 # 1 # u32_bytes ip) @ lldp_enc 0 [] @ trailer"
  have frame: "drop 14 ?f = concat (map (\<lambda>(t, v). lldp_enc t v) ?ts) @ lldp_enc 0 [] @ trailer"
    using assms(1) by simp
  have ip: "length (u32_bytes ip) = 4" "u32_at (5 # 1 # u32_bytes ip) 2 = ip"
    by (simp_all add: u32_bytes_def u32_at_def be32_bytes)
  have "list_all lldp_ok ?ts" using assms(3,7-9) ip(1) by (simp add: lldp_ok_def)
  then have "walk lldp_next (drop 14 ?f) = ?ts"
    unfolding frame by (subst lldp.walk_enc) (simp_all add: lldp_end)
  moreover have "take 6 ?f \<noteq> CDP_MULTICAST_MAC" using assms(1,2) by simp
  ultimately show ?thesis
    using assms(1,3-6) ip
    by (simp add: parse_lldp_frame_def lldp_apply_def lldp_init_def lldp_finish_def)
qed

theorem lldp_announcement_round_trip_witness:
  "parse_lldp_frame ([1, 128, 194, 0, 0, 14, 0, 27, 33, 0, 0, 1, 136, 204] @
      lldp_enc 1 (4 # [0, 27, 33, 0, 0, 1]) @
      lldp_enc 2 (7 # utf8_bytes [49]) @ lldp_enc 5 (utf8_bytes [32, 115, 119, 32]) @
      lldp_enc 6 (utf8_bytes [0x20AC]) @ lldp_enc 8 (5 # 1 # u32_bytes 0x0A000001) @ lldp_enc 0 [] @ [1, 2]) =
   Some \<lparr>ll_chassis_id = mac_text [0, 27, 33, 0, 0, 1], ll_port_id = utf8_encode [49],
         ll_system_name = Some (utf8_encode (trim [32, 115, 119, 32])),
         ll_system_description = Some (utf8_encode (trim [0x20AC])),
         ll_management_ip = Some 0x0A000001, ll_capabilities = []\<rparr>"
  by (rule lldp_announcement_round_trip)
    (simp_all add: CDP_MULTICAST_MAC_def scalar_def utf8_bytes_def utf8_encode_nat_def utf8_char_def)

text \<open>An IPv4 entry of the address element.\<close>

definition cdp_ip_entry :: "32 word \<Rightarrow> bytes" where
  "cdp_ip_entry ip = [1, 1, 0xCC, 0, 4] @ u32_bytes ip"

lemma cdp_addresses_entries:
  "length ips \<le> n \<Longrightarrow> n = length ips \<or> rest = [] \<Longrightarrow>
     cdp_addresses n (concat (map cdp_ip_entry ips) @ rest) ip =
       (case ip of Some a \<Rightarrow> Some a | None \<Rightarrow> (case ips of [] \<Rightarrow> None | a # _ \<Rightarrow> Some a))"
proof (induction ips arbitrary: n ip)
  case Nil
  then show ?case by (cases n) (auto split: option.split)
next
  case (Cons a ips)
  obtain m where n: "n = Suc m" using Cons.prems by (cases n) auto
  have four: "unat (u16_at ([0, 4] @ bs) 0) = 4" for bs by (simp add: u16_at_def be16_def)
  have fields: "u32_at (u32_bytes a @ bs) 0 = a" "length (u32_bytes a @ bs) = 4 + length bs"
      "drop 4 (u32_bytes a @ bs) = bs" for bs
    by (simp_all add: u32_bytes_def u32_at_def be32_bytes)
  have IH: "cdp_addresses m (concat (map cdp_ip_entry ips) @ rest) (Some (case ip of None \<Rightarrow> a | Some b \<Rightarrow> b)) =
      Some (case ip of None \<Rightarrow> a | Some b \<Rightarrow> b)"
    using Cons.IH [of m "Some (case ip of None \<Rightarrow> a | Some b \<Rightarrow> b)"] Cons.prems n by auto
  define bs where "bs = concat (map cdp_ip_entry ips) @ rest"
  have entry: "concat (map cdp_ip_entry (a # ips)) @ rest = 1 # 1 # 0xCC # 0 # 4 # u32_bytes a @ bs"
    unfolding bs_def by (simp add: cdp_ip_entry_def)
  show ?case
    unfolding n entry using IH four [of "u32_bytes a @ bs"] fields [of bs]
    by (cases ip) (simp_all add: Let_def bs_def [symmetric])
qed

text \<open>
  A CDP neighbour is read as it announced itself, with the encapsulation and without. A frame
  with a device id, a list of IPv4 addresses, a port, capabilities and a native VLAN decodes to
  exactly those values: the management address is the first one of the list, none if it is empty,
  and the capabilities are the labels of the bits that are set.
\<close>

theorem cdp_announcement_round_trip:
  assumes "length source = 6" and "length frame_length = 2" and "length rest = 3"
    and "version = 1 \<or> version = 2"
    and "list_all scalar device" "list_all scalar port"
    and "length (utf8_bytes device) < 65532" "length (utf8_bytes port) < 65532" "length ips < 7000"
    and "bare = version # rest @ cdp_enc 1 (utf8_bytes device) @
           cdp_enc 2 (u32_bytes (word_of_nat (length ips)) @ concat (map cdp_ip_entry ips)) @
           cdp_enc 3 (utf8_bytes port) @ cdp_enc 4 (u32_bytes caps) @ cdp_enc 10 (u16_bytes vlan)"
    and "neighbor = \<lparr>cd_device_id = utf8_encode (trim device), cd_port_id = utf8_encode (trim port),
           cd_platform = None, cd_software_version = None,
           cd_management_ip = (case ips of [] \<Rightarrow> None | a # _ \<Rightarrow> Some a), cd_native_vlan = Some vlan,
           cd_capabilities = labels_of caps cdp_capability_table\<rparr>"
  shows "parse_cdp_frame bare = Some neighbor \<and>
     parse_cdp_frame (CDP_MULTICAST_MAC @ source @ frame_length @ CDP_SNAP @ bare) = Some neighbor"
proof -
  let ?as = "u32_bytes (word_of_nat (length ips)) @ concat (map cdp_ip_entry ips)"
  let ?ts = "[(1, utf8_bytes device), (2, ?as), (3, utf8_bytes port), (4, u32_bytes caps),
      (10, u16_bytes vlan)] :: (u16 \<times> bytes) list"
  have entries: "length (concat (map cdp_ip_entry ips)) = 9 * length ips"
    by (induction ips) (simp_all add: cdp_ip_entry_def u32_bytes_def)
  have u32: "u32_at (u32_bytes w) 0 = w" "u32_at (u32_bytes w @ bs) 0 = w" "length (u32_bytes w) = 4"
      "drop 4 (u32_bytes w @ bs) = bs" for w bs
    by (simp_all add: u32_bytes_def u32_at_def be32_bytes)
  have u16: "u16_at (u16_bytes vlan) 0 = vlan" using u16_fields(1) [of vlan "[]"] by simp
  have "list_all cdp_ok ?ts" using assms(7-9) by (simp add: cdp_ok_def u32 entries)
  then have walk: "walk cdp_next (concat (map (\<lambda>(t, v). cdp_enc t v) ?ts)) = ?ts"
    using cdp.walk_enc [of ?ts "[]"] by (simp add: walk_def)
  have count: "unat (word_of_nat (length ips) :: u32) = length ips"
    using assms(9) by (simp add: unat_of_nat)
  have addresses: "cdp_addresses (length ips) (concat (map cdp_ip_entry ips)) None =
      (case ips of [] \<Rightarrow> None | a # _ \<Rightarrow> Some a)"
    using cdp_addresses_entries [of ips "length ips" "[]" None] by simp
  have finish: "cdp_finish (fold cdp_apply ?ts cdp_init) = Some neighbor"
    using assms(5,6,11)
    by (simp add: cdp_apply_def cdp_init_def cdp_finish_def u32 u16 count addresses)
  have bare: "4 \<le> length bare" "bare ! 0 = version"
      "drop 4 bare = concat (map (\<lambda>(t, v). cdp_enc t v) ?ts)"
    using assms(3,10) by simp_all
  have "bare ! 4 = 0"
    unfolding assms(10) using assms(3) by (simp add: nth_append cdp_enc_def u16_bytes_def)
  then have "take 6 bare ! 4 \<noteq> CDP_MULTICAST_MAC ! 4" by (simp add: CDP_MULTICAST_MAC_def)
  then have offset: "cdp_offset bare = 0" unfolding cdp_offset_def by metis
  have parsed: "cdp_finish (fold cdp_apply (walk cdp_next (drop 4 bare)) cdp_init) = Some neighbor"
    unfolding bare(3) walk by (rule finish)
  have version: "bare ! 0 = 1 \<or> bare ! 0 = 2" using bare(2) assms(4) by simp
  let ?f = "CDP_MULTICAST_MAC @ source @ frame_length @ CDP_SNAP @ bare"
  have head: "length CDP_MULTICAST_MAC = 6" "length CDP_SNAP = 8"
    by (simp_all add: CDP_MULTICAST_MAC_def CDP_SNAP_def)
  have "cdp_offset ?f = 22" "drop 22 ?f = bare"
    using assms(1,2) head by (simp_all add: cdp_offset_def)
  then have "parse_cdp_frame ?f = Some neighbor"
    using bare(1) version parsed head by (auto simp: parse_cdp_frame_def)
  moreover have "parse_cdp_frame bare = Some neighbor"
    using bare(1) version parsed offset by (auto simp: parse_cdp_frame_def)
  ultimately show ?thesis by simp
qed

theorem cdp_announcement_round_trip_witness:
  "let bare = 2 # [180, 0, 0] @ cdp_enc 1 (utf8_bytes [115, 119, 32]) @
        cdp_enc 2 (u32_bytes (word_of_nat (length [0x0A000001, 0x0A000002])) @
          concat (map cdp_ip_entry [0x0A000001, 0x0A000002])) @
        cdp_enc 3 (utf8_bytes [49]) @ cdp_enc 4 (u32_bytes 9) @ cdp_enc 10 (u16_bytes 7);
      neighbor = \<lparr>cd_device_id = utf8_encode (trim [115, 119, 32]), cd_port_id = utf8_encode (trim [49]),
        cd_platform = None, cd_software_version = None, cd_management_ip = Some 0x0A000001,
        cd_native_vlan = Some 7, cd_capabilities = [''Router'', ''Switch'']\<rparr>
   in parse_cdp_frame bare = Some neighbor \<and>
      parse_cdp_frame (CDP_MULTICAST_MAC @ [0, 1, 2, 3, 4, 5] @ [0, 60] @ CDP_SNAP @ bare) = Some neighbor"
  unfolding Let_def
  by (rule cdp_announcement_round_trip [where version = 2 and rest = "[180, 0, 0]" and
      device = "[115, 119, 32]" and port = "[49]" and ips = "[0x0A000001, 0x0A000002]" and caps = 9 and
      vlan = 7])
    (simp_all add: scalar_def utf8_bytes_def utf8_encode_nat_def utf8_char_def labels_of_def
      cdp_capability_table_def)

section \<open>Listening for MNDP\<close>

text \<open>What the listening loop keeps of the announcements \<open>ns\<close>: the first of every hardware address.\<close>

definition first_of_each :: "mndp_neighbor list \<Rightarrow> mndp_neighbor list \<Rightarrow> bool" where
  "first_of_each ns kept \<longleftrightarrow>
     distinct (map mn_mac_address kept) \<and> mn_mac_address ` set kept = mn_mac_address ` set ns \<and>
     map (\<lambda>n. find (\<lambda>m. mn_mac_address m = mn_mac_address n) ns) kept = map Some kept"

lemma find_append: "find P (xs @ ys) = (case find P xs of None \<Rightarrow> find P ys | Some x \<Rightarrow> Some x)"
  by (induction xs) simp_all

lemma first_of_each_step:
  assumes "first_of_each ns kept"
  shows "first_of_each (ns @ [n])
     (if list_ex (\<lambda>m. mn_mac_address m = mn_mac_address n) kept then kept else kept @ [n])"
proof (cases "mn_mac_address n \<in> mn_mac_address ` set kept")
  case True
  then have "list_ex (\<lambda>m. mn_mac_address m = mn_mac_address n) kept" by (auto simp: list_ex_iff)
  with True assms show ?thesis by (auto simp: first_of_each_def find_append)
next
  case False
  then have new: "\<not> list_ex (\<lambda>m. mn_mac_address m = mn_mac_address n) kept" by (auto simp: list_ex_iff image_iff)
  have "mn_mac_address n \<notin> mn_mac_address ` set ns" using False assms by (simp add: first_of_each_def)
  then have "find (\<lambda>m. mn_mac_address m = mn_mac_address n) ns = None" by (auto simp: find_None_iff image_iff)
  with False assms new show ?thesis by (auto simp: first_of_each_def find_append)
qed

lemma listen_mndp_first:
  "first_of_each ns kept \<Longrightarrow>
     first_of_each (ns @ List.map_filter (\<lambda>d. parse_mndp_packet (take 1500 d)) ds) (listen_mndp kept ds)"
proof (induction ds arbitrary: ns kept)
  case (Cons d ds)
  show ?case
  proof (cases "parse_mndp_packet (take 1500 d)")
    case None
    then show ?thesis using Cons by simp
  next
    case (Some n)
    then show ?thesis
      using Cons.IH [OF first_of_each_step [OF Cons.prems, of n]] by (simp split: if_splits)
  qed
qed simp

text \<open>
  Listening for MNDP keeps one neighbour per hardware address. Of all the announcements that
  arrived and could be read, in their order, the result has every hardware address that announced
  itself, no address twice, and for each the first announcement; malformed datagrams change nothing.
\<close>

theorem mndp_first_announcement_wins:
  "first_of_each (List.map_filter (\<lambda>d. parse_mndp_packet (take 1500 d)) datagrams)
     (listen_mndp_neighbors datagrams)"
  unfolding listen_mndp_neighbors_def
  using listen_mndp_first [of "[]" "[]" datagrams] by (simp add: first_of_each_def)

end
