(* ===== verification/Isis.thy ===== *)
theory Isis
  imports Ospf Neighbours
begin

text \<open>
  The passive IS-IS decoder (\<open>src/src/probes/isis.rs\<close>): the fixed part of a hello or a link-state
  PDU, the loop over its TLVs, and the readers of the three kinds of reachability. A cursor is the
  list that is left after it.
\<close>

section \<open>Constants and data\<close>

definition L1_HELLO :: u8 where "L1_HELLO = 15"
definition L2_HELLO :: u8 where "L2_HELLO = 16"
definition POINT_TO_POINT_HELLO :: u8 where "POINT_TO_POINT_HELLO = 17"
definition L1_LINK_STATE :: u8 where "L1_LINK_STATE = 18"
definition L2_LINK_STATE :: u8 where "L2_LINK_STATE = 20"

definition TLV_AREA_ADDRESSES :: u8 where "TLV_AREA_ADDRESSES = 1"
definition TLV_IP_INTERNAL_REACH :: u8 where "TLV_IP_INTERNAL_REACH = 128"
definition TLV_IP_EXTERNAL_REACH :: u8 where "TLV_IP_EXTERNAL_REACH = 130"
definition TLV_AUTHENTICATION :: u8 where "TLV_AUTHENTICATION = 10"
definition TLV_EXTENDED_IP_REACH :: u8 where "TLV_EXTENDED_IP_REACH = 135"
definition TLV_MT_REACH :: u8 where "TLV_MT_REACH = 222"
definition TLV_IPV6_REACH :: u8 where "TLV_IPV6_REACH = 236"
definition TLV_MT_IPV6_REACH :: u8 where "TLV_MT_IPV6_REACH = 237"
definition AUTH_CLEARTEXT :: u8 where "AUTH_CLEARTEXT = 1"

lemmas isis_tlv_codes =
  TLV_AREA_ADDRESSES_def TLV_IP_INTERNAL_REACH_def TLV_IP_EXTERNAL_REACH_def TLV_AUTHENTICATION_def
  TLV_EXTENDED_IP_REACH_def TLV_MT_REACH_def TLV_IPV6_REACH_def TLV_MT_IPV6_REACH_def

record reachable_prefix =
  rp_prefix :: ip_net
  rp_metric :: u32
  rp_tlv :: string
  rp_topology :: "u16 option"
  rp_raw_entry :: bytes

record isis_pdu =
  ip_level :: string
  ip_system_id :: string
  ip_areas :: "string list"
  ip_hello :: bool
  ip_sequence :: "u32 option"
  ip_unverifiable_authentication :: bool
  ip_prefixes :: "reachable_prefix list"

definition isis_current_prefixes :: "isis_pdu \<Rightarrow> reachable_prefix list" where
  "isis_current_prefixes p = filter (\<lambda>_. \<not> ip_unverifiable_authentication p) (ip_prefixes p)"

section \<open>Reachability\<close>

fun read_legacy_ip_reach :: "ipnet_ops \<Rightarrow> string \<Rightarrow> bytes \<Rightarrow> reachable_prefix list" where
  "read_legacy_ip_reach ops tlv value =
     (if length value < 12 then []
      else
        let entry = take 12 value in
        (case prefix_length (u32_at entry 8) of
           None \<Rightarrow> []
         | Some bits \<Rightarrow>
             if 32 < bits then []
             else [\<lparr>rp_prefix = V4Net (trunc4 ops (u32_at entry 4) bits) bits,
                    rp_metric = ucast (entry ! 0 AND 0x3f), rp_tlv = tlv, rp_topology = None,
                    rp_raw_entry = entry\<rparr>]) @
        read_legacy_ip_reach ops tlv (drop 12 value))"

declare read_legacy_ip_reach.simps [simp del]

text \<open>The bytes that sub-TLVs take: none, or a length byte and what it counts.\<close>

definition sub_tlvs_length :: "bool \<Rightarrow> bytes \<Rightarrow> nat \<Rightarrow> nat option" where
  "sub_tlvs_length has_sub_tlvs value sub_at =
     (if has_sub_tlvs
      then (if sub_at < length value then Some (1 + unat (value ! sub_at)) else None)
      else Some 0)"

definition ipv4_of_bytes :: "bytes \<Rightarrow> 32 word" where
  "ipv4_of_bytes bs = u32_at bs 0"

fun read_extended_ip_reach ::
    "ipnet_ops \<Rightarrow> u16 option \<Rightarrow> string \<Rightarrow> bytes \<Rightarrow> reachable_prefix list" where
  "read_extended_ip_reach ops topology tlv value =
     (if length value < 5 then []
      else
        let metric = u32_at value 0; control = value ! 4; prefix_len = unat (control AND 0x3f)
        in if 32 < prefix_len then []
           else
             let significant = div_ceil prefix_len 8; sub_at = 5 + significant
             in case sub_tlvs_length (control AND 0x40 \<noteq> 0) value sub_at of
                  None \<Rightarrow> []
                | Some sub_length \<Rightarrow>
                    let stop = sub_at + sub_length in
                    if length value < stop then []
                    else
                      let octets = take significant (drop 5 value) @ replicate (4 - significant) 0
                      in \<lparr>rp_prefix = V4Net (trunc4 ops (ipv4_of_bytes octets) prefix_len) prefix_len,
                          rp_metric = metric, rp_tlv = tlv, rp_topology = topology,
                          rp_raw_entry = take stop value\<rparr>
                         # read_extended_ip_reach ops topology tlv (drop stop value))"

declare read_extended_ip_reach.simps [simp del]

fun read_ipv6_reach ::
    "ipnet_ops \<Rightarrow> u16 option \<Rightarrow> string \<Rightarrow> bytes \<Rightarrow> reachable_prefix list" where
  "read_ipv6_reach ops topology tlv value =
     (if length value < 6 then []
      else
        let metric = u32_at value 0; control = value ! 4; prefix_len = unat (value ! 5)
        in if 128 < prefix_len then []
           else
             let significant = div_ceil prefix_len 8; sub_at = 6 + significant
             in case sub_tlvs_length (control AND 0x20 \<noteq> 0) value sub_at of
                  None \<Rightarrow> []
                | Some sub_length \<Rightarrow>
                    let stop = sub_at + sub_length in
                    if length value < stop then []
                    else
                      let octets = take significant (drop 6 value) @ replicate (16 - significant) 0
                      in \<lparr>rp_prefix = V6Net (trunc6 ops (ipv6_of_bytes octets) prefix_len) prefix_len,
                          rp_metric = metric, rp_tlv = tlv, rp_topology = topology,
                          rp_raw_entry = take stop value\<rparr>
                         # read_ipv6_reach ops topology tlv (drop stop value))"

declare read_ipv6_reach.simps [simp del]

section \<open>The PDU\<close>

text \<open>The areas of an area TLV: a length byte and that many bytes each.\<close>

fun area_addresses :: "bytes \<Rightarrow> string list" where
  "area_addresses [] = []"
| "area_addresses (n # rest) =
     (if length rest < unat n then []
      else concat (map hex_byte (take (unat n) rest)) # area_addresses (drop (unat n) rest))"

definition multi_topology :: "bytes \<Rightarrow> u16" where
  "multi_topology value = u16_at value 0 AND 0x0fff"

definition isis_apply :: "ipnet_ops \<Rightarrow> u8 \<times> bytes \<Rightarrow> isis_pdu \<Rightarrow> isis_pdu" where
  "isis_apply ops e p =
     (let (code, value) = e in
      if code = TLV_AUTHENTICATION
      then (if value \<noteq> [] \<and> hd value \<noteq> AUTH_CLEARTEXT
            then p\<lparr>ip_unverifiable_authentication := True\<rparr> else p)
      else if code = TLV_AREA_ADDRESSES then p\<lparr>ip_areas := ip_areas p @ area_addresses value\<rparr>
      else
        p\<lparr>ip_prefixes := ip_prefixes p @
          (if code = TLV_IP_INTERNAL_REACH then read_legacy_ip_reach ops ''IP internal reachability'' value
           else if code = TLV_IP_EXTERNAL_REACH
           then read_legacy_ip_reach ops ''IP external reachability'' value
           else if code = TLV_EXTENDED_IP_REACH
           then read_extended_ip_reach ops None ''extended IP reachability'' value
           else if code = TLV_MT_REACH \<and> 2 \<le> length value
           then read_extended_ip_reach ops (Some (multi_topology value)) ''multi-topology reachability''
                  (drop 2 value)
           else if code = TLV_IPV6_REACH then read_ipv6_reach ops None ''IPv6 reachability'' value
           else if code = TLV_MT_IPV6_REACH \<and> 2 \<le> length value
           then read_ipv6_reach ops (Some (multi_topology value)) ''multi-topology IPv6 reachability''
                  (drop 2 value)
           else [])\<rparr>)"

text \<open>The loop over the TLVs: one that claims more bytes than arrived refuses the whole PDU.\<close>

fun isis_loop :: "ipnet_ops \<Rightarrow> bytes \<Rightarrow> isis_pdu \<Rightarrow> isis_pdu option" where
  "isis_loop ops (code # n # rest) decoded =
     (if length rest < unat n then None
      else isis_loop ops (drop (unat n) rest) (isis_apply ops (code, take (unat n) rest) decoded))"
| "isis_loop ops _ decoded = Some decoded"

text \<open>Level, hello, and where the system id and the TLVs are; the sequence number of an LSP.\<close>

definition isis_shape :: "bytes \<Rightarrow> (string \<times> bool \<times> nat \<times> nat \<times> u32 option) option" where
  "isis_shape pdu =
     (let pdu_type = pdu ! 4 AND 0x1f in
      if pdu_type = L1_HELLO \<or> pdu_type = L2_HELLO
      then (if length pdu < 27 then None
            else Some (if pdu_type = L1_HELLO then ''L1'' else ''L2'', True, 9, 27, None))
      else if pdu_type = POINT_TO_POINT_HELLO
      then (if length pdu < 20 then None else Some (''point-to-point'', True, 9, 20, None))
      else if pdu_type = L1_LINK_STATE \<or> pdu_type = L2_LINK_STATE
      then (if length pdu < 27 then None
            else Some (if pdu_type = L1_LINK_STATE then ''L1'' else ''L2'', False, 12, 27,
                       Some (u32_at pdu 20)))
      else None)"

fun pairs_of :: "string list \<Rightarrow> string list" where
  "pairs_of (a # b # rest) = (a @ b) # pairs_of rest"
| "pairs_of xs = xs"

definition system_id_text :: "bytes \<Rightarrow> string" where
  "system_id_text bs = join_with ''.'' (pairs_of (map hex_byte bs))"

definition parse_isis :: "ipnet_ops \<Rightarrow> bytes \<Rightarrow> isis_pdu option" where
  "parse_isis ops pdu =
     (if length pdu < 8 \<or> pdu ! 0 \<noteq> 0x83 then None
      else
        let header_length = unat (pdu ! 1) in
        if header_length < 8 \<or> length pdu < header_length then None
        else
          case isis_shape pdu of
            None \<Rightarrow> None
          | Some (level, hello, id_at, tlv_at, seqno) \<Rightarrow>
              if length pdu < id_at + 6 then None
              else
                isis_loop ops (drop tlv_at pdu)
                  \<lparr>ip_level = level, ip_system_id = system_id_text (take 6 (drop id_at pdu)),
                   ip_areas = [], ip_hello = hello, ip_sequence = seqno,
                   ip_unverifiable_authentication = False, ip_prefixes = []\<rparr>)"

section \<open>Writing a PDU\<close>

definition isis_enc :: "u8 \<times> bytes \<Rightarrow> bytes" where
  "isis_enc e = fst e # word_of_nat (length (snd e)) # snd e"

lemma isis_loop_enc:
  "list_all (\<lambda>e. length (snd e) < 256) ts \<Longrightarrow>
     isis_loop ops (concat (map isis_enc ts) @ rest) p = isis_loop ops rest (fold (isis_apply ops) ts p)"
  by (induction ts arbitrary: p) (simp_all add: isis_enc_def unat_of_nat split_beta)

text \<open>A reachability entry of RFC 5305, with or without sub-TLVs.\<close>

record reach_entry =
  re_metric :: u32
  re_address :: "32 word"
  re_len :: nat
  re_sub :: "bytes option"

definition reach_enc :: "reach_entry \<Rightarrow> bytes" where
  "reach_enc e =
     u32_bytes (re_metric e) @
     [word_of_nat (re_len e) OR (case re_sub e of None \<Rightarrow> 0 | Some _ \<Rightarrow> 0x40)] @
     take (div_ceil (re_len e) 8) (u32_bytes (re_address e)) @
     (case re_sub e of None \<Rightarrow> [] | Some sub \<Rightarrow> word_of_nat (length sub) # sub)"

definition reach_ok :: "reach_entry \<Rightarrow> bool" where
  "reach_ok e \<longleftrightarrow>
     re_len e \<le> 32 \<and> (case re_sub e of None \<Rightarrow> True | Some sub \<Rightarrow> length sub < 256)"

definition reached :: "u16 option \<Rightarrow> string \<Rightarrow> reach_entry \<Rightarrow> reachable_prefix" where
  "reached topology tlv e =
     \<lparr>rp_prefix = V4Net (re_address e AND netmask (re_len e)) (re_len e), rp_metric = re_metric e,
      rp_tlv = tlv, rp_topology = topology, rp_raw_entry = reach_enc e\<rparr>"

lemma control_byte:
  assumes "n \<le> 32"
  shows "unat (word_of_nat n AND 0x3F :: u8) = n" "(word_of_nat n :: u8) AND 0x40 = 0"
    "unat ((word_of_nat n OR 0x40) AND 0x3F :: u8) = n" "(word_of_nat n OR 0x40 :: u8) AND 0x40 \<noteq> 0"
proof -
  let ?w = "word_of_nat n :: u8"
  have n: "unat ?w = n" using assms by (simp add: unat_of_nat)
  have low: "take_bit 6 ?w = ?w"
    unfolding word_unat_eq_iff unsigned_take_bit_eq n using assms by (simp add: take_bit_eq_mod)
  have m: "w AND 0x3F = take_bit 6 w" for w :: u8
    by (simp add: take_bit_eq_mask mask_eq_exp_minus_1)
  have b6: "bit (0x40 :: u8) i \<longleftrightarrow> i = 6" for i
    using bit_exp_iff [of 6 i, where 'a = u8] by auto
  show "unat (?w AND 0x3F) = n" using m low n by simp
  have nb: "\<not> bit ?w 6" using low by (metis bit_take_bit_iff less_irrefl)
  then have "?w AND 2 ^ 6 = 0" by (simp only: and_exp_eq_0_iff_not_bit not_False_eq_True)
  then show "?w AND 0x40 = 0" by simp
  have "take_bit 6 (?w OR 0x40) = take_bit 6 ?w"
    by (rule bit_word_eqI) (auto simp: bit_simps b6)
  then show "unat ((?w OR 0x40) AND 0x3F) = n" using m low n by simp
  have "bit ((?w OR 0x40) AND 0x40) 6" by (simp add: bit_and_iff bit_or_iff b6)
  then show "(?w OR 0x40) AND 0x40 \<noteq> 0" by (metis bit_0_eq bot_apply bot_bool_def)
qed

lemma significant_octets:
  assumes "n \<le> 32"
  shows "ipv4_of_bytes (take (div_ceil n 8) (u32_bytes a) @ replicate (4 - div_ceil n 8) 0) AND netmask n =
     a AND netmask n"
proof -
  have bits: "bit (netmask n :: 32 word) i \<longleftrightarrow> 32 - n \<le> i \<and> i < 32" for i
    using bit_netmask [of n i, where 'a = 32] assms by simp
  consider "div_ceil n 8 = 0" "n = 0" | "div_ceil n 8 = 1" "n \<le> 8" | "div_ceil n 8 = 2" "n \<le> 16"
    | "div_ceil n 8 = 3" "n \<le> 24" | "div_ceil n 8 = 4"
    using assms unfolding div_ceil_def by linarith
  then show ?thesis
  proof cases
    case 1
    have "netmask n = (0 :: 32 word)" by (intro bit_word_eqI) (use 1(2) bits in auto)
    then show ?thesis by simp
  next
    case 2
    then show ?thesis
      by (intro bit_word_eqI)
        (auto simp: ipv4_of_bytes_def u32_at_def be32_def u32_bytes_def bit_simps bits)
  next
    case 3
    then show ?thesis
      by (intro bit_word_eqI)
        (auto simp: ipv4_of_bytes_def u32_at_def be32_def u32_bytes_def bit_simps bits)
  next
    case 4
    show ?thesis
    proof (rule bit_word_eqI)
      fix i assume "i < LENGTH(32)"
      then consider "i < 8" | "8 \<le> i \<and> i < 16" | "16 \<le> i \<and> i < 24" | "24 \<le> i \<and> i < 32"
        by fastforce
      then show "bit (ipv4_of_bytes (take (div_ceil n 8) (u32_bytes a) @ replicate (4 - div_ceil n 8) 0) AND
          netmask n) i = bit (a AND netmask n) i"
        using 4
        by cases (auto simp: ipv4_of_bytes_def u32_at_def be32_def u32_bytes_def bit_simps bits)
    qed
  next
    case 5
    then show ?thesis by (simp add: ipv4_of_bytes_def u32_at_def u32_bytes_def be32_bytes)
  qed
qed


lemma div_ceil_8_le: "n \<le> 32 \<Longrightarrow> div_ceil n 8 \<le> 4"
  unfolding div_ceil_def by linarith

text \<open>What the crate \<open>ipnet\<close> documents of \<open>Ipv4Net::trunc\<close>: the host bits are cleared.\<close>

definition truncates :: "ipnet_ops \<Rightarrow> bool" where
  "truncates ops \<longleftrightarrow> trunc4 ops = (\<lambda>a n. a AND netmask n)"

lemma read_reach_enc:
  assumes "truncates ops" and "reach_ok e"
  shows "read_extended_ip_reach ops topology tlv (reach_enc e @ rest) =
     reached topology tlv e # read_extended_ip_reach ops topology tlv rest"
proof -
  let ?k = "div_ceil (re_len e) 8"
  let ?sub = "case re_sub e of None \<Rightarrow> [] | Some sub \<Rightarrow> word_of_nat (length sub) # sub"
  let ?octets = "take ?k (u32_bytes (re_address e))"
  define control :: u8 where
    "control = word_of_nat (re_len e) OR (case re_sub e of None \<Rightarrow> 0 | Some _ \<Rightarrow> 0x40)"
  have len: "re_len e \<le> 32" using assms(2) by (simp add: reach_ok_def)
  have k: "?k \<le> 4" using len by (rule div_ceil_8_le)
  have e: "reach_enc e @ rest = u32_bytes (re_metric e) @ control # ?octets @ ?sub @ rest"
    by (simp add: reach_enc_def control_def)
  have oct: "length ?octets = ?k" using k by (simp add: u32_bytes_def)
  have four: "length (u32_bytes (re_metric e)) = 4" by (simp add: u32_bytes_def)
  have control: "unat (control AND 0x3F) = re_len e" "control AND 0x40 \<noteq> 0 \<longleftrightarrow> re_sub e \<noteq> None"
    using control_byte [OF len] by (auto simp: control_def split: option.splits)
  have fields: "u32_at (reach_enc e @ rest) 0 = re_metric e" "(reach_enc e @ rest) ! 4 = control"
      "drop 5 (reach_enc e @ rest) = ?octets @ ?sub @ rest"
      "length (reach_enc e) = 5 + ?k + length ?sub"
    using oct unfolding e
    by (simp_all add: u32_at_def u32_bytes_def be32_bytes reach_enc_def nth_append k split: option.split)
  have sub: "sub_tlvs_length (control AND 0x40 \<noteq> 0) (reach_enc e @ rest) (5 + ?k) = Some (length ?sub)"
  proof (cases "re_sub e")
    case None
    then show ?thesis using control(2) by (simp add: sub_tlvs_length_def)
  next
    case (Some sub)
    have "(reach_enc e @ rest) ! (5 + ?k) = (drop 5 (reach_enc e @ rest)) ! ?k"
      using nth_drop [of 5 "reach_enc e @ rest" ?k] by (simp add: fields(4) del: drop_append)
    also have "\<dots> = word_of_nat (length sub)" unfolding fields(3)
      using nth_append_length [of ?octets "word_of_nat (length sub)" "sub @ rest", unfolded oct] Some
      by simp
    finally show ?thesis
      using Some assms(2) control(2) fields(4)
      by (simp add: sub_tlvs_length_def reach_ok_def unat_of_nat)
  qed
  have stop: "5 + ?k + length ?sub = length (reach_enc e)" by (simp add: fields(4))
  have tk: "take (length xs) (xs @ ys) = xs" for xs ys :: bytes by simp
  have taken: "take ?k (drop 5 (reach_enc e @ rest)) = ?octets"
    unfolding fields(3) using tk [of ?octets "?sub @ rest", unfolded oct] .
  have prefix: "trunc4 ops (ipv4_of_bytes (?octets @ replicate (4 - ?k) 0)) (re_len e) =
      re_address e AND netmask (re_len e)"
    using assms(1) significant_octets [OF len] by (simp add: truncates_def)
  have long: "\<not> length (reach_enc e @ rest) < 5" "\<not> 32 < re_len e"
    using len by (simp_all add: fields(4))
  have parts: "take (length (reach_enc e)) (reach_enc e @ rest) = reach_enc e"
      "drop (length (reach_enc e)) (reach_enc e @ rest) = rest"
      "(length (reach_enc e @ rest) < length (reach_enc e)) = False"
    by simp_all
  show ?thesis
    by (subst read_extended_ip_reach.simps)
      (simp only: long if_False fields(1,2) control(1) sub stop taken prefix Let_def option.case parts
        reached_def)
qed

lemma read_reaches_enc:
  "truncates ops \<Longrightarrow> list_all reach_ok es \<Longrightarrow>
     read_extended_ip_reach ops topology tlv (concat (map reach_enc es)) = map (reached topology tlv) es"
  by (induction es) (simp_all add: read_reach_enc read_extended_ip_reach.simps [of _ _ _ "[]"])

section \<open>What a PDU says is what is read\<close>

definition lsp_header :: "u8 \<Rightarrow> bytes \<Rightarrow> bytes \<Rightarrow> bytes \<Rightarrow> u32 \<Rightarrow> bytes \<Rightarrow> bytes" where
  "lsp_header kind lifetime system fragment seqno checksum =
     [0x83, 27, 1, 0, kind, 1, 0, 0] @ lifetime @ system @ fragment @ u32_bytes seqno @ checksum"

text \<open>
  An IS-IS link-state PDU is read as it was sent. One with an area, an authentication TLV and
  extended reachability entries (with sub-TLVs or without) decodes to its level, system id,
  sequence number, area and exactly those prefixes with their metrics, host bits cleared; under a
  cleartext password all of them are current, under anything else none, and the secret itself is
  not in the result.
\<close>

theorem isis_link_state_round_trip:
  assumes "truncates ops" and "list_all reach_ok es" and "length (concat (map reach_enc es)) < 256"
    and "kind = L1_LINK_STATE \<or> kind = L2_LINK_STATE" and "length lifetime = 4" "length system = 6"
    and "length fragment = 2" "length checksum = 3" "length area < 255" "length secret < 255"
  shows "parse_isis ops (lsp_header kind lifetime system fragment seqno checksum @
           concat (map isis_enc [(TLV_AREA_ADDRESSES, word_of_nat (length area) # area),
             (TLV_AUTHENTICATION, auth # secret), (TLV_EXTENDED_IP_REACH, concat (map reach_enc es))])) =
     Some \<lparr>ip_level = (if kind = L1_LINK_STATE then ''L1'' else ''L2''),
           ip_system_id = system_id_text system, ip_areas = [concat (map hex_byte area)],
           ip_hello = False, ip_sequence = Some seqno,
           ip_unverifiable_authentication = (auth \<noteq> AUTH_CLEARTEXT),
           ip_prefixes = map (reached None ''extended IP reachability'') es\<rparr>"
proof -
  let ?h = "lsp_header kind lifetime system fragment seqno checksum"
  let ?ts = "[(TLV_AREA_ADDRESSES, word_of_nat (length area) # area),
      (TLV_AUTHENTICATION, auth # secret), (TLV_EXTENDED_IP_REACH, concat (map reach_enc es))]"
  let ?p = "?h @ concat (map isis_enc ?ts)"
  have len: "length ?h = 27" using assms(5-8) by (simp add: lsp_header_def u32_bytes_def)
  have fixed: "?p ! 0 = 0x83" "?p ! 1 = 27" "?p ! 4 = kind"
    by (simp_all add: lsp_header_def)
  have seqno: "u32_at ?p 20 = seqno"
    using assms(5-7) by (simp add: lsp_header_def u32_at_def nth_append u32_bytes_def be32_bytes)
  have system: "take 6 (drop 12 ?p) = system" using assms(5,6) by (simp add: lsp_header_def)
  have kind: "kind AND 0x1f = kind" "kind \<noteq> L1_HELLO" "kind \<noteq> L2_HELLO" "kind \<noteq> POINT_TO_POINT_HELLO"
    using assms(4)
    by (auto simp: L1_LINK_STATE_def L2_LINK_STATE_def L1_HELLO_def L2_HELLO_def POINT_TO_POINT_HELLO_def)
  have shape: "isis_shape ?p =
      Some (if kind = L1_LINK_STATE then ''L1'' else ''L2'', False, 12, 27, Some seqno)"
    unfolding isis_shape_def fixed seqno kind(1) Let_def using kind(2-4) assms(4) len by auto
  have tlvs: "drop 27 ?p = concat (map isis_enc ?ts) @ []" using len by simp
  have "list_all (\<lambda>e. length (snd e) < 256) ?ts" using assms(3,9,10) by simp
  note loop = isis_loop_enc [OF this, of ops "[]"]
  have area: "area_addresses (word_of_nat (length area) # area) = [concat (map hex_byte area)]"
    using assms(9) by (simp add: unat_of_nat)
  have "\<not> length ?p < 27" using len by simp
  then show ?thesis
    unfolding parse_isis_def fixed shape system option.case prod.case tlvs loop Let_def
    using read_reaches_enc [OF assms(1,2)] area
    by (simp add: isis_apply_def isis_tlv_codes)
qed

theorem isis_link_state_round_trip_witness:
  "parse_isis ipnet_model (lsp_header 18 [0, 60, 4, 176] [1, 2, 3, 4, 5, 6] [0, 0] 9 [0, 0, 3] @
       concat (map isis_enc [(TLV_AREA_ADDRESSES, word_of_nat (length [0x49, 0, 1 :: u8]) # [0x49, 0, 1]),
         (TLV_AUTHENTICATION, 54 # [7, 7]),
         (TLV_EXTENDED_IP_REACH, concat (map reach_enc
            [\<lparr>re_metric = 10, re_address = 0x0A010203, re_len = 12, re_sub = Some [1, 2]\<rparr>]))])) =
     Some \<lparr>ip_level = (if (18 :: u8) = L1_LINK_STATE then ''L1'' else ''L2''),
           ip_system_id = system_id_text [1, 2, 3, 4, 5, 6],
           ip_areas = [concat (map hex_byte [0x49, 0, 1])],
           ip_hello = False, ip_sequence = Some 9,
           ip_unverifiable_authentication = ((54 :: u8) \<noteq> AUTH_CLEARTEXT),
           ip_prefixes = map (reached None ''extended IP reachability'')
             [\<lparr>re_metric = 10, re_address = 0x0A010203, re_len = 12, re_sub = Some [1, 2]\<rparr>]\<rparr>"
  by (rule isis_link_state_round_trip)
    (simp_all add: truncates_def ipnet_model_def reach_ok_def reach_enc_def u32_bytes_def
      L1_LINK_STATE_def div_ceil_def)

section \<open>Truncation and authentication\<close>

lemma isis_shape_fields:
  "isis_shape pdu = Some (level, hello, id_at, tlv_at, seqno) \<Longrightarrow>
     20 \<le> tlv_at \<and> tlv_at \<le> length pdu \<and> id_at + 6 \<le> tlv_at"
  by (auto simp: isis_shape_def Let_def split: if_splits)

text \<open>
  A truncated PDU is refused whole. If after any number of complete TLVs one claims more bytes
  than arrived, nothing of the PDU is reported, not even what its complete TLVs carried.
\<close>

theorem isis_truncated_is_refused:
  assumes "pdu = head @ concat (map isis_enc ts) @ code # n # short"
    and "list_all (\<lambda>e. length (snd e) < 256) ts" and "length short < unat n"
    and "isis_shape pdu = Some (level, hello, id_at, length head, seqno)"
  shows "parse_isis ops pdu = None"
proof -
  have tlvs: "drop (length head) pdu = concat (map isis_enc ts) @ code # n # short"
    using assms(1) by simp
  show ?thesis
    unfolding parse_isis_def assms(4) option.case prod.case tlvs isis_loop_enc [OF assms(2)] Let_def
    using assms(3) by simp
qed

theorem isis_truncated_is_refused_witness:
  "parse_isis ipnet_model
     (lsp_header 20 [0, 60, 4, 176] [1, 2, 3, 4, 5, 6] [0, 0] 9 [0, 0, 3] @
      concat (map isis_enc [(TLV_AREA_ADDRESSES, [1, 0x49])]) @ TLV_EXTENDED_IP_REACH # 8 # [0, 0, 0]) = None"
  by (rule isis_truncated_is_refused [where n = 8 and short = "[0, 0, 0]" and level = "''L2''" and
        hello = False and id_at = 12 and seqno = "Some 9" and code = TLV_EXTENDED_IP_REACH and
        ts = "[(TLV_AREA_ADDRESSES, [1, 0x49])]" and
        head = "lsp_header 20 [0, 60, 4, 176] [1, 2, 3, 4, 5, 6] [0, 0] 9 [0, 0, 3]"])
    (simp_all add: lsp_header_def isis_shape_def isis_enc_def u32_bytes_def u32_at_def be32_bytes Let_def
      L1_HELLO_def L2_HELLO_def POINT_TO_POINT_HELLO_def L1_LINK_STATE_def L2_LINK_STATE_def be32_def)

text \<open>
  What an IS-IS authentication TLV holds beyond its type never leaves the decoder. Two PDUs
  that differ only in the password or digest decode to the same value, in a hello and in a
  link-state PDU, wherever the TLV stands.
\<close>

theorem isis_authentication_never_leaves:
  assumes "p = head @ concat (map isis_enc ts) @ isis_enc (TLV_AUTHENTICATION, auth # secret) @ rest"
    and "q = head @ concat (map isis_enc ts) @ isis_enc (TLV_AUTHENTICATION, auth # other) @ rest"
    and "list_all (\<lambda>e. length (snd e) < 256) ts" and "length secret = length other" "length other < 255"
    and "isis_shape p = Some (level, hello, id_at, length head, seqno)"
  shows "parse_isis ops p = parse_isis ops q"
proof -
  note at = isis_shape_fields [OF assms(6)]
  have len: "length p = length q" using assms(1,2,4) by (simp add: isis_enc_def)
  have n: "p ! i = q ! i" if "i < length head" for i
    using that unfolding assms(1,2) by (simp add: nth_append)
  have fixed: "p ! 0 = q ! 0" "p ! 1 = q ! 1" "p ! 4 = q ! 4"
    by (rule n, use at in linarith)+
  have ident: "take 6 (drop id_at p) = take 6 (drop id_at q)"
    unfolding assms(1,2) using at by simp
  have "u32_at p 20 = u32_at q 20" if "27 \<le> length head"
    using n that by (simp add: u32_at_def)
  then have shape: "isis_shape q = isis_shape p"
    using assms(6) len fixed(3) by (auto simp: isis_shape_def Let_def split: if_splits)
  let ?ts = "\<lambda>s. ts @ [(TLV_AUTHENTICATION, auth # s)]"
  have drops: "drop (length head) p = concat (map isis_enc (?ts secret)) @ rest"
      "drop (length head) q = concat (map isis_enc (?ts other)) @ rest"
    using assms(1,2) by simp_all
  have ok: "list_all (\<lambda>e. length (snd e) < 256) (?ts secret)"
      "list_all (\<lambda>e. length (snd e) < 256) (?ts other)"
    using assms(3-5) by simp_all
  have "isis_apply ops (TLV_AUTHENTICATION, auth # secret) = isis_apply ops (TLV_AUTHENTICATION, auth # other)"
    by (rule ext) (simp add: isis_apply_def)
  then have "fold (isis_apply ops) (?ts secret) = fold (isis_apply ops) (?ts other)"
    by simp
  then show ?thesis
    unfolding parse_isis_def shape assms(6) option.case prod.case drops isis_loop_enc [OF ok(1)]
      isis_loop_enc [OF ok(2)] len fixed ident Let_def by simp
qed

theorem isis_authentication_never_leaves_witness:
  "let head = lsp_header 20 [0, 60, 4, 176] [1, 2, 3, 4, 5, 6] [0, 0] 9 [0, 0, 3];
       ts = [(TLV_AREA_ADDRESSES, [1, 0x49])]
   in parse_isis ipnet_model (head @ concat (map isis_enc ts) @
          isis_enc (TLV_AUTHENTICATION, 54 # [1, 2, 3]) @ []) =
      parse_isis ipnet_model (head @ concat (map isis_enc ts) @
          isis_enc (TLV_AUTHENTICATION, 54 # [9, 8, 7]) @ [])"
  unfolding Let_def
  by (rule isis_authentication_never_leaves [where level = "''L2''" and hello = False and id_at = 12 and
        seqno = "Some 9", OF refl refl])
    (simp_all add: lsp_header_def isis_shape_def isis_enc_def u32_bytes_def u32_at_def be32_bytes Let_def
      L1_HELLO_def L2_HELLO_def POINT_TO_POINT_HELLO_def L1_LINK_STATE_def L2_LINK_STATE_def be32_def)

section \<open>What is read that should not be\<close>

text \<open>A hello that carries a reachability TLV creates a current prefix.\<close>

lemma hello_creates_a_prefix:
  "map_option (\<lambda>p. (ip_hello p, map rp_prefix (isis_current_prefixes p)))
     (parse_isis ipnet_model
       ([0x83, 27, 1, 0, 15, 1, 0, 0] @ replicate 19 0 @ [135, 6, 0, 0, 0, 10, 8, 10])) =
   Some (True, [V4Net 0x0A000000 8])"
  by code_simp

text \<open>TLV 222 lists intermediate systems; one neighbour of metric 10 is read as two prefixes.\<close>

lemma neighbour_read_as_prefixes:
  "map_option (\<lambda>p. map rp_prefix (isis_current_prefixes p))
     (parse_isis ipnet_model
       ([0x83, 27, 1, 0, 18, 1, 0, 0] @ replicate 19 0 @ [222, 13, 0, 2, 1, 2, 3, 4, 8, 10, 0, 0, 0, 10, 0])) =
   Some [V4Net 0x0A000000 8, V4Net 0 0]"
  by code_simp

end
