(* ===== verification/Rip.thy ===== *)
theory Rip
  imports Net_Bytes "HOL-Library.Sublist"
begin

text \<open>
  RIPv2 (\<open>src/src/probes/rip.rs\<close>): the table request, the strict parser of a response and the
  receive loop of \<open>request_table\<close>. The socket and its timers are outside the model: the datagrams
  that arrived before the loop's deadline are an argument, each with the address it came from.
\<close>

section \<open>Messages\<close>

definition RIP_PORT :: u16 where "RIP_PORT = 520"
definition RIP_REQUEST :: u8 where "RIP_REQUEST = 1"
definition RIP_RESPONSE :: u8 where "RIP_RESPONSE = 2"
definition AFI_INET :: u16 where "AFI_INET = 2"
definition AFI_UNSPECIFIED :: u16 where "AFI_UNSPECIFIED = 0"
definition MAX_ENTRIES_PER_DATAGRAM :: nat where "MAX_ENTRIES_PER_DATAGRAM = 25"

record rip_route =
  rr_prefix :: ip_net
  rr_next_hop :: "ip_addr option"
  rr_metric :: u32
  rr_tag :: u16
  rr_raw_entry :: bytes

definition is_reachable :: "rip_route \<Rightarrow> bool" where
  "is_reachable r \<longleftrightarrow> rr_metric r < 16"

definition rip_evidence :: "rip_route \<Rightarrow> string" where
  "rip_evidence r =
     ''RIPv2 entry (AFI 2, tag '' @ decimal (uint (rr_tag r)) @ '', metric '' @
     decimal (uint (rr_metric r)) @ ''): '' @ concat (map hex_byte (rr_raw_entry r))"

definition table_request :: bytes where
  "table_request =
     [RIP_REQUEST, 2, 0, 0] @ u16_bytes AFI_UNSPECIFIED @ u16_bytes 0 @ [0, 0, 0, 0] @ [0, 0, 0, 0] @
     [0, 0, 0, 0] @ u32_bytes 16"

definition contiguous_prefix_length :: "32 word \<Rightarrow> nat option" where
  "contiguous_prefix_length bits =
     (let leading = leading_ones bits
      in if leading = 32 then Some 32
         else if push_bit leading bits = 0 then Some leading else None)"

text \<open>One entry: what the body of the parser's loop pushes, \<open>None\<close> for its \<open>continue\<close>.\<close>

definition parse_entry :: "ipnet_ops \<Rightarrow> bytes \<Rightarrow> rip_route option" where
  "parse_entry ops entry =
     (if u16_at entry 0 \<noteq> AFI_INET then None
      else
        let address = u32_at entry 4; netmask_bits = u32_at entry 8; next_hop = u32_at entry 12;
            metric = u32_at entry 16
        in if \<not> (1 \<le> metric \<and> metric \<le> 16) then None
           else case contiguous_prefix_length netmask_bits of
                  None \<Rightarrow> None
                | Some n \<Rightarrow>
                    if 32 < n then None
                    else Some \<lparr>rr_prefix = V4Net (trunc4 ops address n) n,
                               rr_next_hop = (if is_unspecified4 next_hop then None else Some (V4 next_hop)),
                               rr_metric = metric, rr_tag = u16_at entry 2, rr_raw_entry = entry\<rparr>)"

fun parse_entries :: "ipnet_ops \<Rightarrow> bytes \<Rightarrow> rip_route list" where
  "parse_entries ops rest =
     (if length rest < 20 then []
      else case parse_entry ops (take 20 rest) of
             None \<Rightarrow> parse_entries ops (drop 20 rest)
           | Some r \<Rightarrow> r # parse_entries ops (drop 20 rest))"

declare parse_entries.simps [simp del]

definition parse_response :: "ipnet_ops \<Rightarrow> bytes \<Rightarrow> rip_route list option" where
  "parse_response ops datagram =
     (if length datagram < 4 then None
      else if datagram ! 0 \<noteq> RIP_RESPONSE then None
      else if datagram ! 1 \<noteq> 2 then None
      else if datagram ! 2 \<noteq> 0 \<or> datagram ! 3 \<noteq> 0 then None
      else if (length datagram - 4) mod 20 \<noteq> 0 then None
      else if MAX_ENTRIES_PER_DATAGRAM < (length datagram - 4) div 20 then None
      else Some (parse_entries ops (drop 4 datagram)))"

section \<open>Tables\<close>

record rip_table =
  rt_routes :: "rip_route list"
  rt_datagrams :: nat

definition advertised_routes :: "rip_table \<Rightarrow> bool" where
  "advertised_routes t = list_ex is_reachable (rt_routes t)"

definition same_route :: "rip_route \<Rightarrow> rip_route \<Rightarrow> bool" where
  "same_route r existing \<longleftrightarrow>
     rr_prefix existing = rr_prefix r \<and> rr_next_hop existing = rr_next_hop r \<and>
     rr_metric existing = rr_metric r \<and> rr_tag existing = rr_tag r"

definition push_route :: "rip_route \<Rightarrow> rip_route list \<Rightarrow> rip_route list" where
  "push_route r routes = (if list_ex (same_route r) routes then routes else routes @ [r])"

text \<open>The receive buffer holds 4096 bytes; a longer datagram is cut there by the socket.\<close>

fun collect_table ::
    "ipnet_ops \<Rightarrow> 32 word \<Rightarrow> rip_table \<Rightarrow> (bytes \<times> ip_addr) list \<Rightarrow> rip_table" where
  "collect_table ops target t [] = t"
| "collect_table ops target t ((datagram, source) # rest) =
     (if source \<noteq> V4 target then collect_table ops target t rest
      else case parse_response ops (take 4096 datagram) of
             None \<Rightarrow> collect_table ops target t rest
           | Some parsed \<Rightarrow>
               collect_table ops target
                 \<lparr>rt_routes = fold push_route parsed (rt_routes t),
                  rt_datagrams = Suc (rt_datagrams t)\<rparr> rest)"

definition request_table :: "ipnet_ops \<Rightarrow> 32 word \<Rightarrow> (bytes \<times> ip_addr) list \<Rightarrow> rip_table option" where
  "request_table ops target datagrams =
     (let t = collect_table ops target \<lparr>rt_routes = [], rt_datagrams = 0\<rparr> datagrams
      in if 0 < rt_datagrams t then Some t else None)"

section \<open>Masks\<close>

lemma contiguous_prefix_length_iff:
  "contiguous_prefix_length m = Some n \<longleftrightarrow> n \<le> 32 \<and> m = netmask n"
proof
  assume some: "contiguous_prefix_length m = Some n"
  then have n: "n = leading_ones m" "n = 32 \<or> push_bit n m = 0"
    by (auto simp: contiguous_prefix_length_def Let_def split: if_splits)
  have le: "n \<le> 32" using leading_ones_le [of m] n by simp
  moreover have "m = netmask n"
  proof (rule bit_word_eqI)
    fix i assume i: "i < LENGTH(32)"
    show "bit m i = bit (netmask n :: 32 word) i"
    proof (cases "32 - n \<le> i")
      case True
      then show ?thesis using leading_ones_bits [of m i] i n(1) le by (simp add: bit_netmask)
    next
      case False
      then have "push_bit n m = 0" using n(2) by auto
      then have "\<not> bit (push_bit n m) (i + n)" by simp
      then show ?thesis using False le i by (simp add: bit_netmask bit_simps)
    qed
  qed
  ultimately show "n \<le> 32 \<and> m = netmask n" ..
next
  assume n: "n \<le> 32 \<and> m = netmask n"
  then have lead: "leading_ones m = n" using leading_ones_netmask [where 'a = 32, of n] by simp
  have "push_bit n m = 0"
  proof (rule bit_word_eqI)
    fix i assume "i < LENGTH(32)"
    with n show "bit (push_bit n m) i = bit (0 :: 32 word) i" by (auto simp: bit_simps bit_netmask)
  qed
  with lead show "contiguous_prefix_length m = Some n" by (simp add: contiguous_prefix_length_def)
qed

text \<open>
  The netmask test RIP uses, which shifts the leading ones out, agrees with the one the
  interface list and the ICMP mask reply use, which counts the trailing zeros: both accept exactly
  the masks made of \<open>n\<close> ones followed by zeros and answer that \<open>n\<close>.
\<close>

theorem mask_tests_agree:
  "contiguous_prefix_length m = contiguous_prefix_len m \<and>
   (contiguous_prefix_length m = Some n \<longleftrightarrow> n \<le> 32 \<and> m = netmask n)"
proof
  show "contiguous_prefix_length m = contiguous_prefix_len m"
    using contiguous_prefix_length_iff [of m] contiguous_prefix_len_iff [of m] by (metis option.exhaust)
qed (rule contiguous_prefix_length_iff)

section \<open>Entries\<close>

text \<open>An entry as a router fills it in, the bytes it sends, and the route it means.\<close>

record rip_entry =
  re_address :: "32 word"
  re_length :: nat
  re_next_hop :: "32 word"
  re_metric :: u32
  re_tag :: u16

definition encode_entry :: "rip_entry \<Rightarrow> bytes" where
  "encode_entry e =
     u16_bytes AFI_INET @ u16_bytes (re_tag e) @ u32_bytes (re_address e) @
     u32_bytes (netmask (re_length e)) @ u32_bytes (re_next_hop e) @ u32_bytes (re_metric e)"

definition encode_response :: "rip_entry list \<Rightarrow> bytes" where
  "encode_response es = [RIP_RESPONSE, 2, 0, 0] @ concat (map encode_entry es)"

definition route_of :: "ipnet_ops \<Rightarrow> rip_entry \<Rightarrow> rip_route" where
  "route_of ops e =
     \<lparr>rr_prefix = V4Net (trunc4 ops (re_address e) (re_length e)) (re_length e),
      rr_next_hop = (if re_next_hop e = 0 then None else Some (V4 (re_next_hop e))),
      rr_metric = re_metric e, rr_tag = re_tag e, rr_raw_entry = encode_entry e\<rparr>"

definition entry_ok :: "rip_entry \<Rightarrow> bool" where
  "entry_ok e \<longleftrightarrow> re_length e \<le> 32 \<and> 1 \<le> re_metric e \<and> re_metric e \<le> 16"

lemma length_encode_entry [simp]: "length (encode_entry e) = 20"
  by (simp add: encode_entry_def u16_bytes_def u32_bytes_def)

lemma length_encode_entries [simp]: "length (concat (map encode_entry es)) = 20 * length es"
  by (induction es) simp_all

lemma encode_entry_fields:
  "u16_at (encode_entry e) 0 = AFI_INET" "u16_at (encode_entry e) 2 = re_tag e"
  "u32_at (encode_entry e) 4 = re_address e" "u32_at (encode_entry e) 8 = netmask (re_length e)"
  "u32_at (encode_entry e) 12 = re_next_hop e" "u32_at (encode_entry e) 16 = re_metric e"
  unfolding encode_entry_def u16_at_def u32_at_def u16_bytes_def u32_bytes_def
  by (simp_all add: nth_append be16_bytes be32_bytes)

lemma parse_encode_entry: "entry_ok e \<Longrightarrow> parse_entry ops (encode_entry e) = Some (route_of ops e)"
  using contiguous_prefix_length_iff [of "netmask (re_length e)" "re_length e"]
  by (simp add: parse_entry_def encode_entry_fields entry_ok_def route_of_def is_unspecified4_def Let_def)

lemma parse_encode_entries:
  "list_all entry_ok es \<Longrightarrow> parse_entries ops (concat (map encode_entry es)) = map (route_of ops) es"
  by (induction es) (simp_all add: parse_entries.simps [of ops "encode_entry _ @ _"]
      parse_entries.simps [of ops "[]"] parse_encode_entry)

text \<open>
  A full table datagram is read back. Whatever at most twenty-five entries a router fills in
  (any address, any next hop, tag and length, a metric of 1 to 16), the parser returns exactly one
  route for each, in order, with those fields.
\<close>

theorem response_round_trip:
  assumes "length es \<le> MAX_ENTRIES_PER_DATAGRAM" and "list_all entry_ok es"
  shows "parse_response ops (encode_response es) = Some (map (route_of ops) es)"
  using assms parse_encode_entries [of es ops] by (simp add: parse_response_def encode_response_def)

definition sample_entry :: rip_entry where
  "sample_entry = \<lparr>re_address = 0x0A010203, re_length = 16, re_next_hop = 0, re_metric = 16, re_tag = 7\<rparr>"

theorem response_round_trip_witness:
  "length [sample_entry] \<le> MAX_ENTRIES_PER_DATAGRAM \<and> list_all entry_ok [sample_entry] \<and>
   parse_response ipnet_model (encode_response [sample_entry]) = Some [route_of ipnet_model sample_entry] \<and>
   rr_prefix (route_of ipnet_model sample_entry) = V4Net 0x0A010000 16"
proof (intro conjI)
  show fits: "length [sample_entry] \<le> MAX_ENTRIES_PER_DATAGRAM" by code_simp
  show ok: "list_all entry_ok [sample_entry]" by code_simp
  show "parse_response ipnet_model (encode_response [sample_entry]) = Some [route_of ipnet_model sample_entry]"
    using response_round_trip [OF fits ok, of ipnet_model] by simp
  show "rr_prefix (route_of ipnet_model sample_entry) = V4Net 0x0A010000 16" by code_simp
qed

section \<open>Where a route comes from\<close>

definition route_traced :: "ipnet_ops \<Rightarrow> bytes \<Rightarrow> rip_route \<Rightarrow> bool" where
  "route_traced ops datagram r \<longleftrightarrow>
     sublist (rr_raw_entry r) datagram \<and> length (rr_raw_entry r) = 20 \<and>
     1 \<le> rr_metric r \<and> rr_metric r \<le> 16 \<and> rr_metric r = u32_at (rr_raw_entry r) 16 \<and>
     (\<exists>n \<le> 32. u32_at (rr_raw_entry r) 8 = netmask n \<and>
        rr_prefix r = V4Net (trunc4 ops (u32_at (rr_raw_entry r) 4) n) n)"

lemma parse_entry_traced:
  assumes "parse_entry ops entry = Some r" and "length entry = 20"
  shows "rr_raw_entry r = entry" and "route_traced ops entry r"
  using assms by (auto simp: parse_entry_def route_traced_def Let_def contiguous_prefix_length_iff
      split: if_splits option.splits)

lemma route_traced_mono: "route_traced ops bs r \<Longrightarrow> sublist bs cs \<Longrightarrow> route_traced ops cs r"
  unfolding route_traced_def using sublist_order.order_trans by blast

lemma parse_entries_traced:
  "length (parse_entries ops rest) \<le> length rest div 20 \<and> list_all (route_traced ops rest) (parse_entries ops rest)"
proof (induction rest rule: parse_entries.induct)
  case (1 ops rest)
  show ?case
  proof (cases "length rest < 20")
    case True
    then show ?thesis by (simp add: parse_entries.simps [of ops rest])
  next
    case False
    have "length (parse_entries ops (drop 20 rest)) \<le> length (drop 20 rest) div 20 \<and>
        list_all (route_traced ops (drop 20 rest)) (parse_entries ops (drop 20 rest))"
      by (cases "parse_entry ops (take 20 rest)") (use "1.IH" False in blast)+
    then have IH: "length (parse_entries ops (drop 20 rest)) \<le> (length rest - 20) div 20"
        "list_all (route_traced ops (drop 20 rest)) (parse_entries ops (drop 20 rest))" by simp_all
    have less: "Suc ((length rest - 20) div 20) = length rest div 20" using False by (simp add: le_div_geq)
    have tail: "list_all (route_traced ops rest) (parse_entries ops (drop 20 rest))"
      using IH(2) route_traced_mono [of ops "drop 20 rest" _ rest] by (auto simp: list_all_iff)
    have head: "route_traced ops rest r" if "parse_entry ops (take 20 rest) = Some r" for r
      using parse_entry_traced(2) [OF that] False route_traced_mono [of ops "take 20 rest" r rest] by simp
    show ?thesis using IH(1) less tail head False
      by (auto simp: parse_entries.simps [of ops rest] split: option.splits)
  qed
qed

text \<open>
  No prefix is invented. Every route of a parsed response is backed by twenty consecutive
  bytes of that datagram, which carry its metric (1 to 16) and a contiguous netmask, and its
  prefix is the address in those bytes truncated under that mask. There are at most twenty-five.
\<close>

theorem routes_come_from_entries:
  assumes "parse_response ops datagram = Some routes"
  shows "length routes \<le> 25 \<and> list_all (route_traced ops datagram) routes"
proof -
  have r: "routes = parse_entries ops (drop 4 datagram)" "(length datagram - 4) div 20 \<le> 25"
    using assms by (auto simp: parse_response_def MAX_ENTRIES_PER_DATAGRAM_def split: if_splits)
  have "route_traced ops (drop 4 datagram) x \<Longrightarrow> route_traced ops datagram x" for x
    using route_traced_mono [of ops "drop 4 datagram" x datagram] by simp
  with r parse_entries_traced [of ops "drop 4 datagram"] show ?thesis by (auto simp: list_all_iff)
qed

theorem routes_come_from_entries_witness:
  "parse_response ipnet_model (encode_response [sample_entry]) \<noteq> None \<and>
   list_all (route_traced ipnet_model (encode_response [sample_entry]))
     (the (parse_response ipnet_model (encode_response [sample_entry])))"
proof -
  have some: "parse_response ipnet_model (encode_response [sample_entry]) \<noteq> None" by code_simp
  then obtain routes where "parse_response ipnet_model (encode_response [sample_entry]) = Some routes" by blast
  with routes_come_from_entries [OF this] some show ?thesis by simp
qed

section \<open>What a table is\<close>

definition answers :: "ipnet_ops \<Rightarrow> 32 word \<Rightarrow> (bytes \<times> ip_addr) list \<Rightarrow> rip_route list list" where
  "answers ops target datagrams =
     List.map_filter (\<lambda>(d, source). if source = V4 target then parse_response ops (take 4096 d) else None)
       datagrams"

lemma collect_table_eq:
  "collect_table ops target t datagrams =
     \<lparr>rt_routes = fold push_route (concat (answers ops target datagrams)) (rt_routes t),
      rt_datagrams = rt_datagrams t + length (answers ops target datagrams)\<rparr>"
  by (induction ops target t datagrams rule: collect_table.induct)
    (simp_all add: answers_def map_filter_simps split: option.splits)

lemma fold_push_route:
  "sorted_wrt (\<lambda>a b. \<not> same_route b a) acc \<Longrightarrow>
     sorted_wrt (\<lambda>a b. \<not> same_route b a) (fold push_route rs acc) \<and>
     set acc \<subseteq> set (fold push_route rs acc) \<and> set (fold push_route rs acc) \<subseteq> set acc \<union> set rs \<and>
     (\<forall>r \<in> set rs. list_ex (same_route r) (fold push_route rs acc))"
proof (induction rs arbitrary: acc)
  case (Cons r rs)
  have step: "sorted_wrt (\<lambda>a b. \<not> same_route b a) (push_route r acc)" "set acc \<subseteq> set (push_route r acc)"
      "set (push_route r acc) \<subseteq> insert r (set acc)" "list_ex (same_route r) (push_route r acc)"
    using Cons.prems by (auto simp: push_route_def sorted_wrt_append list_ex_iff same_route_def)
  note IH = Cons.IH [OF step(1)]
  have "list_ex (same_route r) (fold push_route rs (push_route r acc))"
    using step(4) IH by (auto simp: list_ex_iff)
  with IH step show ?case by auto
qed simp

text \<open>
  A table is exactly what the router that was asked advertised. Every route in it was parsed
  from a datagram that router sent, every route it sent is in the table up to the fields that
  identify a route, none is there twice, and the count is the number of its valid responses;
  other senders contribute nothing.
\<close>

theorem table_is_what_the_router_sent:
  assumes "request_table ops target datagrams = Some t"
  shows "set (rt_routes t) \<subseteq> set (concat (answers ops target datagrams)) \<and>
     list_all (\<lambda>r. list_ex (same_route r) (rt_routes t)) (concat (answers ops target datagrams)) \<and>
     sorted_wrt (\<lambda>a b. \<not> same_route b a) (rt_routes t) \<and>
     rt_datagrams t = length (answers ops target datagrams) \<and> 0 < rt_datagrams t"
  using assms fold_push_route [of "[]" "concat (answers ops target datagrams)"]
  by (auto simp: request_table_def Let_def collect_table_eq list_all_iff simp del: set_concat split: if_splits)

theorem table_is_what_the_router_sent_witness:
  "\<exists>t :: rip_table. request_table ipnet_model 0x0A000001
       [(encode_response [sample_entry], V4 0x0A000002), (encode_response [sample_entry], V4 0x0A000001),
        (encode_response [sample_entry], V4 0x0A000001)] = Some t \<and>
     sorted_wrt (\<lambda>a b. \<not> same_route b a) (rt_routes t) \<and> 0 < rt_datagrams t"
proof -
  let ?ds = "[(encode_response [sample_entry], V4 0x0A000002), (encode_response [sample_entry], V4 0x0A000001),
        (encode_response [sample_entry], V4 0x0A000001)]"
  have "request_table ipnet_model 0x0A000001 ?ds \<noteq> None" by code_simp
  then obtain t where "request_table ipnet_model 0x0A000001 ?ds = Some t" by blast
  with table_is_what_the_router_sent [OF this] show ?thesis by blast
qed

end
