(* ===== verification/Sweep.thy ===== *)
theory Sweep
  imports Ospf
begin

text \<open>
  What the ARP and neighbour sweeps share: the read loop of a link channel
  (\<open>src/src/net/linklayer.rs\<close>), and the three questions a sweep answers about the replies it
  collected (\<open>src/src/probes/arp.rs\<close>, \<open>src/src/probes/ndp.rs\<close>): which addresses stayed quiet, which
  were answered by several stations, and whether a reply is new.
\<close>

section \<open>Reading until a deadline\<close>

text \<open>
  What happens on a channel before the deadline: a read that delivered frames, or a fault that ends
  the loop. The closure carries its own state.
\<close>

datatype channel_event = Delivered "bytes list" | Fault string

record 't read_result =
  rd_found :: "'t option"
  rd_frames_seen :: nat
  rd_fault :: "string option"

fun offer ::
    "('s \<Rightarrow> bytes \<Rightarrow> 's \<times> 't option) \<Rightarrow> 's \<Rightarrow> nat \<Rightarrow> bytes list \<Rightarrow> 's \<times> nat \<times> 't option" where
  "offer accept s seen [] = (s, seen, None)"
| "offer accept s seen (frame # frames) =
     (case accept s frame of
        (s', Some found) \<Rightarrow> (s', Suc seen, Some found)
      | (s', None) \<Rightarrow> offer accept s' (Suc seen) frames)"

fun read_events ::
    "('s \<Rightarrow> bytes \<Rightarrow> 's \<times> 't option) \<Rightarrow> 's \<Rightarrow> nat \<Rightarrow> channel_event list \<Rightarrow> 's \<times> 't read_result" where
  "read_events accept s seen [] = (s, \<lparr>rd_found = None, rd_frames_seen = seen, rd_fault = None\<rparr>)"
| "read_events accept s seen (Fault reason # events) =
     (s, \<lparr>rd_found = None, rd_frames_seen = seen, rd_fault = Some reason\<rparr>)"
| "read_events accept s seen (Delivered frames # events) =
     (case offer accept s seen frames of
        (s', seen', Some found) \<Rightarrow>
          (s', \<lparr>rd_found = Some found, rd_frames_seen = seen', rd_fault = None\<rparr>)
      | (s', seen', None) \<Rightarrow> read_events accept s' seen' events)"

definition read_until ::
    "('s \<Rightarrow> bytes \<Rightarrow> 's \<times> 't option) \<Rightarrow> 's \<Rightarrow> channel_event list \<Rightarrow> 's \<times> 't read_result" where
  "read_until accept s events = read_events accept s 0 events"

text \<open>The frames that reach the closure when it accepts none: those before the first fault.\<close>

fun frames_before_fault :: "channel_event list \<Rightarrow> bytes list" where
  "frames_before_fault [] = []"
| "frames_before_fault (Fault reason # events) = []"
| "frames_before_fault (Delivered frames # events) = frames @ frames_before_fault events"

fun first_fault :: "channel_event list \<Rightarrow> string option" where
  "first_fault [] = None"
| "first_fault (Fault reason # events) = Some reason"
| "first_fault (Delivered frames # events) = first_fault events"

lemma offer_collects:
  assumes "\<And>s f. snd (accept s f) = None"
  shows "offer accept s seen frames = (fold (\<lambda>f s. fst (accept s f)) frames s, seen + length frames, None)"
proof (induction frames arbitrary: s seen)
  case (Cons f frames)
  obtain s' where "accept s f = (s', None)" using assms [of s f] by (cases "accept s f") simp
  then show ?case using Cons by simp
qed simp

text \<open>A closure that never accepts sees every frame before the first fault, in order.\<close>

lemma read_until_collects:
  assumes "\<And>s f. snd (accept s f) = None"
  shows "read_until accept s events =
    (fold (\<lambda>f s. fst (accept s f)) (frames_before_fault events) s,
     \<lparr>rd_found = None, rd_frames_seen = length (frames_before_fault events), rd_fault = first_fault events\<rparr>)"
proof -
  have "read_events accept s seen events =
    (fold (\<lambda>f s. fst (accept s f)) (frames_before_fault events) s,
     \<lparr>rd_found = None, rd_frames_seen = seen + length (frames_before_fault events), rd_fault = first_fault events\<rparr>)"
    for seen
  proof (induction events arbitrary: s seen)
    case (Cons e events)
    then show ?case by (cases e) (simp_all add: offer_collects assms add.assoc)
  qed simp
  then show ?thesis by (simp add: read_until_def)
qed

section \<open>Who answered\<close>

definition quiet :: "('r \<Rightarrow> 'a) \<Rightarrow> 'a list \<Rightarrow> 'r list \<Rightarrow> 'a list" where
  "quiet address asked replies = filter (\<lambda>a. \<not> list_ex (\<lambda>r. address r = a) replies) asked"

fun push_answer :: "'a \<Rightarrow> 'm \<Rightarrow> ('a \<times> 'm list) list \<Rightarrow> ('a \<times> 'm list) list" where
  "push_answer a m [] = [(a, [m])]"
| "push_answer a m ((b, ms) # groups) =
     (if b = a then (b, ms @ [m]) # groups else (b, ms) # push_answer a m groups)"

definition several :: "('r \<Rightarrow> 'a) \<Rightarrow> ('r \<Rightarrow> 'm) \<Rightarrow> 'r list \<Rightarrow> ('a \<times> 'm list) list" where
  "several address station replies =
     filter (\<lambda>(_, ms). 1 < length ms) (fold (\<lambda>r. push_answer (address r) (station r)) replies [])"

definition push_reply :: "('r \<Rightarrow> 'a) \<Rightarrow> ('r \<Rightarrow> 'm) \<Rightarrow> 'r \<Rightarrow> 'r list \<Rightarrow> 'r list" where
  "push_reply address station r replies =
     (if list_ex (\<lambda>seen. address seen = address r \<and> station seen = station r) replies then replies
      else replies @ [r])"

text \<open>
  The contract of a sweep: the replies it keeps differ in address or station. The questions are
  then answered exactly.
\<close>

locale sweep =
  fixes address :: "'r \<Rightarrow> 'a" and station :: "'r \<Rightarrow> 'm" and keep :: "'x \<Rightarrow> 'r list \<Rightarrow> 'r list"
  assumes keep_distinct:
    "distinct (map (\<lambda>r. (address r, station r)) rs) \<Longrightarrow>
       distinct (map (\<lambda>r. (address r, station r)) (keep x rs))"
begin

definition answers :: "'a \<Rightarrow> 'r list \<Rightarrow> 'm list" where
  "answers a rs = map station (filter (\<lambda>r. address r = a) rs)"

lemma push_answer_spec:
  assumes "distinct (map fst groups)"
  shows "distinct (map fst (push_answer a m groups))"
    and "map_of (push_answer a m groups) =
      (map_of groups)(a \<mapsto> (case map_of groups a of None \<Rightarrow> [] | Some ms \<Rightarrow> ms) @ [m])"
proof -
  have keys: "set (map fst (push_answer a m groups)) = insert a (set (map fst groups))" for groups
    by (induction a m groups rule: push_answer.induct) auto
  show "distinct (map fst (push_answer a m groups))"
    using assms keys by (induction a m groups rule: push_answer.induct) auto
  show "map_of (push_answer a m groups) =
      (map_of groups)(a \<mapsto> (case map_of groups a of None \<Rightarrow> [] | Some ms \<Rightarrow> ms) @ [m])"
    by (induction a m groups rule: push_answer.induct) auto
qed

lemma groups_spec:
  "distinct (map fst (fold (\<lambda>r. push_answer (address r) (station r)) rs [])) \<and>
   map_of (fold (\<lambda>r. push_answer (address r) (station r)) rs []) =
     (\<lambda>a. if answers a rs = [] then None else Some (answers a rs))"
proof (induction rs rule: rev_induct)
  case (snoc r rs)
  then show ?case
    using push_answer_spec [of "fold (\<lambda>r. push_answer (address r) (station r)) rs []"]
    by (auto simp: answers_def fun_eq_iff)
qed (simp add: answers_def)

lemma several_iff: "(a, ms) \<in> set (several address station rs) \<longleftrightarrow> ms = answers a rs \<and> 1 < length ms"
proof -
  let ?g = "fold (\<lambda>r. push_answer (address r) (station r)) rs []"
  have "(a, ms) \<in> set ?g \<longleftrightarrow> map_of ?g a = Some ms"
    using map_of_eq_Some_iff [OF conjunct1 [OF groups_spec [of rs]]] by simp
  also have "\<dots> \<longleftrightarrow> ms = answers a rs \<and> ms \<noteq> []"
    using groups_spec [of rs] by auto
  finally show ?thesis by (auto simp: several_def)
qed

lemma kept_distinct: "distinct (map (\<lambda>r. (address r, station r)) (fold keep xs []))"
proof -
  have "distinct (map (\<lambda>r. (address r, station r)) rs) \<Longrightarrow>
      distinct (map (\<lambda>r. (address r, station r)) (fold keep xs rs))" for rs
    by (induction xs arbitrary: rs) (auto intro: keep_distinct)
  then show ?thesis by simp
qed

lemma answers_distinct:
  assumes "distinct (map (\<lambda>r. (address r, station r)) rs)"
  shows "distinct (answers a rs)"
  using assms by (induction rs) (force simp: answers_def image_iff)+

text \<open>An address is contested exactly when two of the replies that were kept are by different stations.\<close>

lemma contested_stations:
  "(\<exists>ms. (a, ms) \<in> set (several address station (fold keep xs []))) \<longleftrightarrow>
   (\<exists>r \<in> set (fold keep xs []). \<exists>r' \<in> set (fold keep xs []).
      address r = a \<and> address r' = a \<and> station r \<noteq> station r')"
proof -
  let ?rs = "fold keep xs []"
  have d: "distinct (answers a ?rs)" by (rule answers_distinct [OF kept_distinct])
  have "1 < length (answers a ?rs) \<longleftrightarrow> (\<exists>m \<in> set (answers a ?rs). \<exists>m' \<in> set (answers a ?rs). m \<noteq> m')"
    using d by (cases "answers a ?rs"; cases "tl (answers a ?rs)") auto
  also have "\<dots> \<longleftrightarrow> (\<exists>r \<in> set ?rs. \<exists>r' \<in> set ?rs. address r = a \<and> address r' = a \<and> station r \<noteq> station r')"
    by (auto simp: answers_def)
  finally show ?thesis by (auto simp: several_iff)
qed

lemma quiet_iff: "a \<in> set (quiet address asked rs) \<longleftrightarrow> a \<in> set asked \<and> answers a rs = []"
  by (auto simp: quiet_def answers_def list_ex_iff filter_empty_conv)

end

lemma push_reply_distinct:
  "distinct (map (\<lambda>r. (address r, station r)) rs) \<Longrightarrow>
     distinct (map (\<lambda>r. (address r, station r)) (push_reply address station r rs))"
  by (auto simp: push_reply_def list_ex_iff)

lemma push_reply_subset: "set rs \<subseteq> set (push_reply address station r rs)"
  "set (push_reply address station r rs) \<subseteq> insert r (set rs)"
  by (auto simp: push_reply_def)

end
