(* ===== verification/Ndp.thy ===== *)
theory Ndp
  imports Sweep
begin

text \<open>
  IPv6 neighbour discovery (\<open>src/src/probes/ndp.rs\<close>) and router discovery
  (\<open>src/src/probes/ra.rs\<close>) over the raw socket both use (\<open>src/src/net/icmpv6.rs\<close>). The calls on the
  socket are arguments: the hardware address of the interface, whether opening and each transmission
  failed and why, and the messages that arrived before the deadline, in order. Whether a prefix
  contains an address is the \<open>ipnet\<close> crate's answer.
\<close>

section \<open>The socket\<close>

definition REQUIRED_HOP_LIMIT :: u8 where "REQUIRED_HOP_LIMIT = 255"

record received_message =
  rm_message :: bytes
  rm_source :: "128 word"
  rm_destination :: "128 word"
  rm_hop_limit :: u8
  rm_interface_index :: u32

text \<open>What the system answered: the interface's address, opening the socket, the transmissions.\<close>

record nd_system =
  sy_interface_mac :: "bytes option"
  sy_open :: "string option"
  sy_send :: "nat \<Rightarrow> string option"

section \<open>Neighbour solicitations\<close>

definition NEIGHBOR_SOLICITATION :: u8 where "NEIGHBOR_SOLICITATION = 135"
definition NEIGHBOR_ADVERTISEMENT :: u8 where "NEIGHBOR_ADVERTISEMENT = 136"
definition OPTION_SOURCE_LINK_LAYER :: u8 where "OPTION_SOURCE_LINK_LAYER = 1"
definition OPTION_TARGET_LINK_LAYER :: u8 where "OPTION_TARGET_LINK_LAYER = 2"

record ndp_query =
  nq_sender_mac :: bytes
  nq_target :: "128 word"

definition ndp_solicitation :: "ndp_query \<Rightarrow> bytes" where
  "ndp_solicitation q =
     [NEIGHBOR_SOLICITATION, 0] @ [0, 0] @ [0, 0, 0, 0] @ be_bytes 16 (nq_target q) @
     [OPTION_SOURCE_LINK_LAYER, 1] @ nq_sender_mac q"

definition solicited_node_multicast :: "128 word \<Rightarrow> 128 word" where
  "solicited_node_multicast target =
     ipv6_of_bytes ([0xFF, 0x02] @ replicate 9 0 @ [0x01, 0xFF] @ drop 13 (be_bytes 16 target))"

definition describe_ndp :: "ndp_query \<Rightarrow> string" where
  "describe_ndp q =
     ''ICMPv6 neighbour solicitation for '' @ ipv6_to_string (nq_target q) @ '' to '' @
     ipv6_to_string (solicited_node_multicast (nq_target q))"

record ndp_advertisement =
  na_address :: "128 word"
  na_from :: "128 word"
  na_mac :: "bytes option"
  na_router :: bool
  na_raw :: bytes

definition ndp_mac_text :: "ndp_advertisement \<Rightarrow> string option" where
  "ndp_mac_text a = map_option mac_text (na_mac a)"

section \<open>The checksum\<close>

text \<open>
  \<open>sum\<close> is a \<open>u32\<close>; the pseudo-header and a message of at most $2^{16}$ octets cannot exceed it.
\<close>

definition icmpv6_checksum :: "128 word \<Rightarrow> 128 word \<Rightarrow> bytes \<Rightarrow> u16" where
  "icmpv6_checksum source destination message =
     NOT (ucast (fold_carries
       (sum_pairs (be_bytes 16 source) + sum_pairs (be_bytes 16 destination) +
        sum_pairs (u32_bytes (word_of_nat (length message))) + sum_pairs [0, 0, 0, 58] +
        sum_pairs message)))"

section \<open>Options\<close>

text \<open>
  The loop both parsers have: a zero length or one that runs past the message refuses the message.
\<close>

function nd_options :: "bytes \<Rightarrow> (u8 \<times> nat \<times> bytes) list option" where
  "nd_options rest =
     (if length rest < 2 then Some []
      else
        let kind = rest ! 0; units = unat (rest ! 1)
        in if units = 0 then None
           else if length rest < units * 8 then None
           else map_option (Cons (kind, units, take (units * 8) rest)) (nd_options (drop (units * 8) rest)))"
  by pat_completeness auto

termination nd_options
  by (relation "measure length") auto

declare nd_options.simps [simp del]

text \<open>A hardware address out of a link-layer option; a group address or zeros is none.\<close>

definition station_address :: "bytes \<Rightarrow> bytes option" where
  "station_address address =
     (if address ! 0 AND 0x01 = 0 \<and> address \<noteq> replicate 6 0 then Some address else None)"

definition ndp_option :: "u8 \<times> nat \<times> bytes \<Rightarrow> bytes option \<Rightarrow> bytes option" where
  "ndp_option opt mac =
     (let (kind, units, body) = opt
      in if kind = OPTION_TARGET_LINK_LAYER \<and> units = 1
         then (case station_address (take 6 (drop 2 body)) of Some a \<Rightarrow> Some a | None \<Rightarrow> mac)
         else mac)"

section \<open>Neighbour advertisements\<close>

definition is_candidate_advertisement :: "bytes \<Rightarrow> u32 \<Rightarrow> u32 \<Rightarrow> 128 word list \<Rightarrow> bool" where
  "is_candidate_advertisement message arrived_on selected_interface solicited =
     (if arrived_on \<noteq> selected_interface then False
      else if length message < 24 \<or> message ! 0 \<noteq> NEIGHBOR_ADVERTISEMENT \<or> message ! 1 \<noteq> 0 then False
      else ipv6_of_bytes (take 16 (drop 8 message)) \<in> set solicited)"

definition parse_neighbor_advertisement ::
    "bytes \<Rightarrow> 128 word \<Rightarrow> 128 word \<Rightarrow> u8 \<Rightarrow> ndp_query \<Rightarrow> ndp_advertisement option" where
  "parse_neighbor_advertisement message source destination hop_limit q =
     (if hop_limit \<noteq> REQUIRED_HOP_LIMIT then None
      else if length message < 24 then None
      else if message ! 0 \<noteq> NEIGHBOR_ADVERTISEMENT \<or> message ! 1 \<noteq> 0 then None
      else if icmpv6_checksum source destination message \<noteq> 0 then None
      else
        let target = ipv6_of_bytes (take 16 (drop 8 message)) in
        if target \<noteq> nq_target q then None
        else if message ! 4 AND 0x40 = 0 then None
        else
          case nd_options (drop 24 message) of
            None \<Rightarrow> None
          | Some opts \<Rightarrow>
              Some \<lparr>na_address = target, na_from = source, na_mac = fold ndp_option opts None,
                    na_router = (message ! 4 AND 0x80 \<noteq> 0), na_raw = message\<rparr>)"

definition parse_received :: "received_message \<Rightarrow> ndp_query \<Rightarrow> ndp_advertisement option" where
  "parse_received r q =
     parse_neighbor_advertisement (rm_message r) (rm_source r) (rm_destination r) (rm_hop_limit r) q"

definition link_local :: "128 word \<Rightarrow> bool" where
  "link_local a \<longleftrightarrow> segment6 0 a AND 0xFFC0 = 0xFE80"

definition on_this_link :: "(ip_net \<Rightarrow> ip_addr \<Rightarrow> bool) \<Rightarrow> ip_net option \<Rightarrow> 128 word \<Rightarrow> bool" where
  "on_this_link contains on_link a \<longleftrightarrow>
     link_local a \<or> (case on_link of Some net \<Rightarrow> contains net (V6 a) | None \<Rightarrow> False)"

fun await_advertisement ::
    "u32 \<Rightarrow> ndp_query \<Rightarrow> nat \<Rightarrow> received_message list \<Rightarrow> ndp_advertisement attempt_outcome" where
  "await_advertisement scope q rejected [] =
     (if 0 < rejected then InvalidResponse (describe_ndp q) rejected else NoResponse (describe_ndp q))"
| "await_advertisement scope q rejected (r # rest) =
     (if \<not> is_candidate_advertisement (rm_message r) (rm_interface_index r) scope [nq_target q]
      then await_advertisement scope q rejected rest
      else case parse_received r q of
             Some a \<Rightarrow> Answered (describe_ndp q) a
           | None \<Rightarrow> await_advertisement scope q (Suc rejected) rest)"

definition ndp_confirm_liveness ::
    "(ip_net \<Rightarrow> ip_addr \<Rightarrow> bool) \<Rightarrow> nd_system \<Rightarrow> string \<Rightarrow> u32 \<Rightarrow> ip_net option \<Rightarrow> 128 word \<Rightarrow>
     received_message list \<Rightarrow> ndp_advertisement attempt_outcome" where
  "ndp_confirm_liveness contains sys interface scope on_link target arrived =
     (if \<not> on_this_link contains on_link target
      then NotApplicable (ipv6_to_string target @
             '' is not on this link; neighbour discovery resolves nothing beyond it'')
      else case sy_interface_mac sys of
             None \<Rightarrow> NotSent (interface @ '' has no hardware address to send from'')
           | Some mac \<Rightarrow>
               case sy_open sys of
                 Some reason \<Rightarrow> Unavailable reason
               | None \<Rightarrow>
                   case sy_send sys 0 of
                     Some reason \<Rightarrow> NotSent reason
                   | None \<Rightarrow>
                       await_advertisement scope \<lparr>nq_sender_mac = mac, nq_target = target\<rparr> 0 arrived)"

section \<open>The sweep\<close>

record ndp_sweep =
  ns_asked :: "128 word list"
  ns_advertisements :: "ndp_advertisement list"

definition ndp_unconfirmed :: "ndp_sweep \<Rightarrow> 128 word list" where
  "ndp_unconfirmed s = quiet na_address (ns_asked s) (ns_advertisements s)"

definition ndp_contested :: "ndp_sweep \<Rightarrow> (128 word \<times> bytes option list) list" where
  "ndp_contested s = several na_address na_mac (ns_advertisements s)"

text \<open>Solicitations leave one by one until the first that is refused.\<close>

fun transmit :: "(nat \<Rightarrow> string option) \<Rightarrow> nat \<Rightarrow> 'a list \<Rightarrow> 'a list \<times> string option" where
  "transmit send i [] = ([], None)"
| "transmit send i (q # qs) =
     (case send i of
        Some reason \<Rightarrow> ([], Some reason)
      | None \<Rightarrow> let (sent, refused) = transmit send (Suc i) qs in (q # sent, refused))"

fun find_map :: "('a \<Rightarrow> 'b option) \<Rightarrow> 'a list \<Rightarrow> 'b option" where
  "find_map f [] = None"
| "find_map f (x # xs) = (case f x of Some y \<Rightarrow> Some y | None \<Rightarrow> find_map f xs)"

definition keep_advertisement ::
    "u32 \<Rightarrow> ndp_query list \<Rightarrow> received_message \<Rightarrow> ndp_advertisement list \<Rightarrow> ndp_advertisement list" where
  "keep_advertisement scope sent r found =
     (if \<not> is_candidate_advertisement (rm_message r) (rm_interface_index r) scope (map nq_target sent)
      then found
      else case find_map (parse_received r) sent of
             Some a \<Rightarrow> push_reply na_address na_mac a found
           | None \<Rightarrow> found)"

definition rejected_advertisement :: "u32 \<Rightarrow> ndp_query list \<Rightarrow> received_message \<Rightarrow> bool" where
  "rejected_advertisement scope sent r \<longleftrightarrow>
     is_candidate_advertisement (rm_message r) (rm_interface_index r) scope (map nq_target sent) \<and>
     find_map (parse_received r) sent = None"

definition ndp_sweep_liveness ::
    "(ip_net \<Rightarrow> ip_addr \<Rightarrow> bool) \<Rightarrow> nd_system \<Rightarrow> string \<Rightarrow> u32 \<Rightarrow> ip_net option \<Rightarrow> 128 word list \<Rightarrow>
     received_message list \<Rightarrow> ndp_sweep attempt_outcome" where
  "ndp_sweep_liveness contains sys interface scope on_link targets arrived =
     (let reachable = filter (on_this_link contains on_link) targets in
      if reachable = []
      then NotApplicable ''no on-link address to solicit; neighbour discovery resolves nothing beyond the link''
      else case sy_interface_mac sys of
             None \<Rightarrow> NotSent (interface @ '' has no hardware address to send from'')
           | Some mac \<Rightarrow>
               case sy_open sys of
                 Some reason \<Rightarrow> Unavailable reason
               | None \<Rightarrow>
                   let (sent_queries, refused) =
                         transmit (sy_send sys) 0 (map (\<lambda>t. \<lparr>nq_sender_mac = mac, nq_target = t\<rparr>) reachable)
                   in if sent_queries = []
                      then NotSent (case refused of Some r \<Rightarrow> r | None \<Rightarrow> ''no solicitation could be transmitted'')
                      else
                        let asked = map nq_target sent_queries;
                            sent = ''ICMPv6 neighbour solicitation for '' @ decimal (int (length asked)) @
                                   '' address(es)'';
                            advertisements = fold (keep_advertisement scope sent_queries) arrived [];
                            rejected = length (filter (rejected_advertisement scope sent_queries) arrived)
                        in if advertisements \<noteq> []
                           then Answered sent \<lparr>ns_asked = asked, ns_advertisements = advertisements\<rparr>
                           else if 0 < rejected then InvalidResponse sent rejected
                           else NoResponse sent)"

section \<open>Answers\<close>

lemma parse_received_valid:
  assumes "parse_received r q = Some a"
  shows "na_address a = nq_target q" and "na_from a = rm_source r" and "na_raw a = rm_message r"
    and "rm_hop_limit r = 255" and "icmpv6_checksum (rm_source r) (rm_destination r) (rm_message r) = 0"
    and "rm_message r ! 4 AND 0x40 \<noteq> 0"
    and "ipv6_of_bytes (take 16 (drop 8 (rm_message r))) = nq_target q"
  using assms
  by (auto simp: parse_received_def parse_neighbor_advertisement_def Let_def REQUIRED_HOP_LIMIT_def
      split: if_splits option.splits)

lemma find_map_SomeE:
  assumes "find_map f xs = Some y"
  obtains x where "x \<in> set xs" and "f x = Some y"
  using assms by (induction xs) (auto split: option.splits)

lemma transmit_prefix:
  "transmit send i qs = (sent, refused) \<Longrightarrow> \<exists>rest. qs = sent @ rest \<and> (refused = None \<longrightarrow> rest = [])"
  by (induction send i qs arbitrary: sent refused rule: transmit.induct)
    (auto split: option.splits prod.splits)

interpretation nd: sweep na_address na_mac "keep_advertisement scope sent" for scope sent
  by unfold_locales (auto simp: keep_advertisement_def push_reply_distinct split: option.splits)

text \<open>Where an advertisement that a sweep keeps comes from.\<close>

definition answers_query :: "u32 \<Rightarrow> ndp_query list \<Rightarrow> received_message list \<Rightarrow> ndp_advertisement \<Rightarrow> bool" where
  "answers_query scope sent arrived a \<longleftrightarrow>
     (\<exists>r \<in> set arrived. \<exists>q \<in> set sent. rm_interface_index r = scope \<and> parse_received r q = Some a)"

lemma kept_advertisements:
  "a \<in> set (fold (keep_advertisement scope sent) arrived found) \<Longrightarrow>
     a \<in> set found \<or> answers_query scope sent arrived a"
proof (induction arrived arbitrary: found)
  case (Cons r arrived)
  then consider "a \<in> set (keep_advertisement scope sent r found)" | "answers_query scope sent arrived a"
    by auto
  then show ?case
  proof cases
    case 1
    then have "a \<in> set found \<or> rm_interface_index r = scope \<and> find_map (parse_received r) sent = Some a"
      using push_reply_subset(2) [of na_address na_mac _ found]
      by (auto simp: keep_advertisement_def is_candidate_advertisement_def split: if_splits option.splits)
    then show ?thesis by (auto simp: answers_query_def elim: find_map_SomeE)
  next
    case 2
    then show ?thesis by (auto simp: answers_query_def)
  qed
qed simp

text \<open>The checksum is the Internet checksum over the pseudo-header followed by the message.\<close>

definition pseudo_header :: "128 word \<Rightarrow> 128 word \<Rightarrow> nat \<Rightarrow> bytes" where
  "pseudo_header source destination len =
     be_bytes 16 source @ be_bytes 16 destination @ u32_bytes (word_of_nat len) @ [0, 0, 0, 58]"

lemma icmpv6_checksum_eq:
  "icmpv6_checksum source destination message =
     internet_checksum (pseudo_header source destination (length message) @ message)"
  by (simp add: icmpv6_checksum_def internet_checksum_def pseudo_header_def sum_pairs_append
      u32_bytes_def ac_simps)

text \<open>
  A neighbour sweep reports exactly what happened on its link. It asked a prefix of the on-link
  addresses it was given, up to the first transmission the system refused. Every advertisement it
  keeps is for an address it asked about, and is a message that arrived on the selected interface with
  hop limit 255, a checksum that verifies over the pseudo-header and the solicited flag. An address is
  unconfirmed when it was asked and no kept advertisement names it, and contested exactly when two
  kept advertisements for it disclose different stations.
\<close>

theorem neighbour_sweep_is_exact:
  assumes "ndp_sweep_liveness contains sys interface scope on_link targets arrived = Answered sent s"
  shows "(\<exists>rest. filter (on_this_link contains on_link) targets = ns_asked s @ rest) \<and>
    (\<forall>a \<in> set (ns_advertisements s). na_address a \<in> set (ns_asked s) \<and>
       (\<exists>r \<in> set arrived. rm_interface_index r = scope \<and> rm_hop_limit r = 255 \<and>
          na_raw a = rm_message r \<and> rm_message r ! 4 AND 0x40 \<noteq> 0 \<and>
          icmpv6_checksum (rm_source r) (rm_destination r) (rm_message r) = 0)) \<and>
    (\<forall>t. t \<in> set (ndp_unconfirmed s) \<longleftrightarrow>
       t \<in> set (ns_asked s) \<and> (\<forall>a \<in> set (ns_advertisements s). na_address a \<noteq> t)) \<and>
    (\<forall>t. (\<exists>ms. (t, ms) \<in> set (ndp_contested s)) \<longleftrightarrow>
       (\<exists>a \<in> set (ns_advertisements s). \<exists>b \<in> set (ns_advertisements s).
          na_address a = t \<and> na_address b = t \<and> na_mac a \<noteq> na_mac b))"
proof -
  let ?targets = "filter (on_this_link contains on_link) targets"
  obtain mac queries refused where q: "transmit (sy_send sys) 0 (map (\<lambda>t. \<lparr>nq_sender_mac = mac, nq_target = t\<rparr>) ?targets) =
      (queries, refused)"
      and s: "s = \<lparr>ns_asked = map nq_target queries,
        ns_advertisements = fold (keep_advertisement scope queries) arrived []\<rparr>"
    using assms by (auto simp: ndp_sweep_liveness_def Let_def split: if_splits option.splits prod.splits)
  obtain rest where "map (\<lambda>t. \<lparr>nq_sender_mac = mac, nq_target = t\<rparr>) ?targets = queries @ rest"
    using transmit_prefix [OF q] by blast
  then have "map nq_target (map (\<lambda>t. \<lparr>nq_sender_mac = mac, nq_target = t\<rparr>) ?targets) =
      map nq_target queries @ map nq_target rest" by simp
  then have asked: "?targets = ns_asked s @ map nq_target rest" by (simp add: s comp_def)
  have kept: "na_address a \<in> set (ns_asked s) \<and> (\<exists>r \<in> set arrived. rm_interface_index r = scope \<and>
      rm_hop_limit r = 255 \<and> na_raw a = rm_message r \<and> rm_message r ! 4 AND 0x40 \<noteq> 0 \<and>
      icmpv6_checksum (rm_source r) (rm_destination r) (rm_message r) = 0)"
    if a: "a \<in> set (ns_advertisements s)" for a
  proof -
    obtain r q' where "r \<in> set arrived" "q' \<in> set queries" "rm_interface_index r = scope"
        "parse_received r q' = Some a"
      using kept_advertisements [of a scope queries arrived "[]"] a by (auto simp: s answers_query_def)
    with parse_received_valid [of r q' a] show ?thesis by (auto simp: s)
  qed
  have "t \<in> set (ndp_unconfirmed s) \<longleftrightarrow>
      t \<in> set (ns_asked s) \<and> (\<forall>a \<in> set (ns_advertisements s). na_address a \<noteq> t)" for t
    by (auto simp: ndp_unconfirmed_def quiet_def list_ex_iff)
  moreover have "(\<exists>ms. (t, ms) \<in> set (ndp_contested s)) \<longleftrightarrow>
      (\<exists>a \<in> set (ns_advertisements s). \<exists>b \<in> set (ns_advertisements s).
         na_address a = t \<and> na_address b = t \<and> na_mac a \<noteq> na_mac b)" for t
    using nd.contested_stations [of t scope queries arrived] by (simp add: ndp_contested_def s)
  ultimately show ?thesis using asked kept by blast
qed

definition sample_system :: nd_system where
  "sample_system =
     \<lparr>sy_interface_mac = Some [2, 0, 0, 0, 0, 1], sy_open = None, sy_send = (\<lambda>_. None)\<rparr>"

text \<open>\<open>fe80::2\<close> answers \<open>fe80::1\<close>.\<close>

definition sample_arrived :: received_message where
  "sample_arrived =
     \<lparr>rm_message = [136, 0, 0x18, 0x13, 0x60, 0, 0, 0, 0xFE, 0x80, 0, 0, 0, 0, 0, 0, 0, 0, 0, 0, 0, 0, 0, 2,
        2, 1, 2, 0, 0, 0, 0, 9],
      rm_source = 0xFE800000000000000000000000000002, rm_destination = 0xFE800000000000000000000000000001,
      rm_hop_limit = 255, rm_interface_index = 4\<rparr>"

definition sample_swept :: ndp_sweep where
  "sample_swept =
     \<lparr>ns_asked = [0xFE800000000000000000000000000002, 0xFE800000000000000000000000000003],
      ns_advertisements =
        [\<lparr>na_address = 0xFE800000000000000000000000000002, na_from = 0xFE800000000000000000000000000002,
          na_mac = Some [2, 0, 0, 0, 0, 9], na_router = False, na_raw = rm_message sample_arrived\<rparr>]\<rparr>"

lemma sample_sweep:
  "ndp_sweep_liveness (\<lambda>_ _. False) sample_system ''en0'' 4 None
     [0xFE800000000000000000000000000002, 0xFE800000000000000000000000000003] [sample_arrived] =
   Answered ''ICMPv6 neighbour solicitation for 2 address(es)'' sample_swept"
  by code_simp

theorem neighbour_sweep_is_exact_witness:
  "set (ndp_unconfirmed sample_swept) = {0xFE800000000000000000000000000003}"
  using neighbour_sweep_is_exact [OF sample_sweep] by (auto simp: sample_swept_def)

end
