(* ===== verification/Ra.thy ===== *)
theory Ra
  imports Ndp
begin

text \<open>
  Router advertisements (\<open>src/src/probes/ra.rs\<close>): what one discloses, the two options that carry
  prefixes, the validation of a message and the solicitation exchange over the messages that arrived.
\<close>

section \<open>Data\<close>

definition ROUTER_SOLICITATION :: u8 where "ROUTER_SOLICITATION = 133"
definition ROUTER_ADVERTISEMENT :: u8 where "ROUTER_ADVERTISEMENT = 134"
definition OPTION_PREFIX_INFORMATION :: u8 where "OPTION_PREFIX_INFORMATION = 3"
definition OPTION_MTU :: u8 where "OPTION_MTU = 5"
definition OPTION_ROUTE_INFORMATION :: u8 where "OPTION_ROUTE_INFORMATION = 24"

definition all_routers :: "128 word" where
  "all_routers = 0xFF020000000000000000000000000002"

record prefix_information =
  pi_prefix :: ip_net
  pi_on_link :: bool
  pi_autonomous :: bool
  pi_valid_lifetime :: u32
  pi_preferred_lifetime :: u32

datatype route_preference = PrefHigh | PrefMedium | PrefLow | PrefReserved

definition preference_from_flags :: "u8 \<Rightarrow> route_preference" where
  "preference_from_flags flags =
     (let p = drop_bit 3 flags AND 3
      in if p = 1 then PrefHigh else if p = 0 then PrefMedium else if p = 3 then PrefLow else PrefReserved)"

fun preference_label :: "route_preference \<Rightarrow> string" where
  "preference_label PrefHigh = ''high''"
| "preference_label PrefMedium = ''medium''"
| "preference_label PrefLow = ''low''"
| "preference_label PrefReserved = ''reserved''"

record route_information =
  ri_prefix :: ip_net
  ri_preference :: route_preference
  ri_lifetime :: u32

record router_advertisement =
  ra_router :: "128 word"
  ra_mac :: "bytes option"
  ra_router_lifetime :: u16
  ra_managed :: bool
  ra_other_config :: bool
  ra_mtu :: "u32 option"
  ra_prefixes :: "prefix_information list"
  ra_routes :: "route_information list"
  ra_raw :: bytes

definition ra_mac_text :: "router_advertisement \<Rightarrow> string option" where
  "ra_mac_text a = map_option mac_text (ra_mac a)"

definition on_link_prefixes :: "router_advertisement \<Rightarrow> prefix_information list" where
  "on_link_prefixes a = filter pi_on_link (ra_prefixes a)"

definition usable_routes :: "router_advertisement \<Rightarrow> route_information list" where
  "usable_routes a = filter (\<lambda>r. ri_preference r \<noteq> PrefReserved \<and> 0 < ri_lifetime r) (ra_routes a)"

definition router_solicitation :: "bytes \<Rightarrow> bytes" where
  "router_solicitation sender_mac =
     [ROUTER_SOLICITATION, 0] @ [0, 0] @ [0, 0, 0, 0] @ [OPTION_SOURCE_LINK_LAYER, 1] @ sender_mac"

section \<open>Parsing\<close>

definition is_ra_candidate :: "bytes \<Rightarrow> u32 \<Rightarrow> u32 \<Rightarrow> bool" where
  "is_ra_candidate message arrived_on selected_interface \<longleftrightarrow>
     arrived_on = selected_interface \<and> 16 \<le> length message \<and> message ! 0 = ROUTER_ADVERTISEMENT \<and>
     message ! 1 = 0"

definition parse_prefix_information :: "ipnet_ops \<Rightarrow> bytes \<Rightarrow> prefix_information option" where
  "parse_prefix_information ops opt =
     (if length opt \<noteq> 32 then None
      else
        let prefix_len = opt ! 2
        in if 128 < prefix_len then None
           else
             let flags = opt ! 3; raw = take 16 (drop 16 opt)
             in Some \<lparr>pi_prefix = V6Net (trunc6 ops (ipv6_of_bytes raw) (unat prefix_len)) (unat prefix_len),
                      pi_on_link = (flags AND 0x80 \<noteq> 0), pi_autonomous = (flags AND 0x40 \<noteq> 0),
                      pi_valid_lifetime = u32_at opt 4, pi_preferred_lifetime = u32_at opt 8\<rparr>)"

definition parse_route_information :: "ipnet_ops \<Rightarrow> bytes \<Rightarrow> route_information option" where
  "parse_route_information ops opt =
     (let units = length opt div 8 in
      if \<not> (1 \<le> units \<and> units \<le> 3) \<or> length opt mod 8 \<noteq> 0 then None
      else
        let prefix_len = opt ! 2
        in if 128 < prefix_len then None
           else
             let carried_bits = (if units = 1 then 0 else if units = 2 then 64 else 128)
             in if carried_bits < unat prefix_len then None
                else
                  let available = length opt - 8;
                      raw = take available (drop 8 opt) @ replicate (16 - available) 0
                  in Some \<lparr>ri_prefix =
                             V6Net (trunc6 ops (ipv6_of_bytes raw) (unat prefix_len)) (unat prefix_len),
                           ri_preference = preference_from_flags (opt ! 3), ri_lifetime = u32_at opt 4\<rparr>)"

definition ra_option ::
    "ipnet_ops \<Rightarrow> u8 \<times> nat \<times> bytes \<Rightarrow> router_advertisement \<Rightarrow> router_advertisement" where
  "ra_option ops opt a =
     (let (kind, units, body) = opt
      in if kind = OPTION_SOURCE_LINK_LAYER \<and> units = 1
         then (case station_address (take 6 (drop 2 body)) of
                 Some m \<Rightarrow> a\<lparr>ra_mac := Some m\<rparr>
               | None \<Rightarrow> a)
         else if kind = OPTION_MTU \<and> units = 1 then a\<lparr>ra_mtu := Some (u32_at body 4)\<rparr>
         else if kind = OPTION_PREFIX_INFORMATION \<and> units = 4
         then (case parse_prefix_information ops body of
                 Some p \<Rightarrow> a\<lparr>ra_prefixes := ra_prefixes a @ [p]\<rparr>
               | None \<Rightarrow> a)
         else if kind = OPTION_ROUTE_INFORMATION
         then (case parse_route_information ops body of
                 Some r \<Rightarrow> a\<lparr>ra_routes := ra_routes a @ [r]\<rparr>
               | None \<Rightarrow> a)
         else a)"

definition parse_router_advertisement ::
    "ipnet_ops \<Rightarrow> bytes \<Rightarrow> 128 word \<Rightarrow> 128 word \<Rightarrow> u8 \<Rightarrow> router_advertisement option" where
  "parse_router_advertisement ops message source destination hop_limit =
     (if hop_limit \<noteq> REQUIRED_HOP_LIMIT \<or> length message < 16 then None
      else if message ! 0 \<noteq> ROUTER_ADVERTISEMENT \<or> message ! 1 \<noteq> 0 then None
      else if icmpv6_checksum source destination message \<noteq> 0 then None
      else if \<not> link_local source then None
      else
        let flags = message ! 5;
            advertisement =
              \<lparr>ra_router = source, ra_mac = None, ra_router_lifetime = u16_at message 6,
               ra_managed = (flags AND 0x80 \<noteq> 0), ra_other_config = (flags AND 0x40 \<noteq> 0),
               ra_mtu = None, ra_prefixes = [], ra_routes = [], ra_raw = message\<rparr>
        in map_option (\<lambda>opts. fold (ra_option ops) opts advertisement) (nd_options (drop 16 message)))"

section \<open>Solicitation\<close>

fun collect_advertisements ::
    "ipnet_ops \<Rightarrow> u32 \<Rightarrow> router_advertisement list \<times> nat \<Rightarrow> received_message list \<Rightarrow>
     router_advertisement list \<times> nat" where
  "collect_advertisements ops scope (found, rejected) [] = (found, rejected)"
| "collect_advertisements ops scope (found, rejected) (r # rest) =
     (if \<not> is_ra_candidate (rm_message r) (rm_interface_index r) scope
      then collect_advertisements ops scope (found, rejected) rest
      else case parse_router_advertisement ops (rm_message r) (rm_source r) (rm_destination r) (rm_hop_limit r) of
             Some a \<Rightarrow>
               collect_advertisements ops scope
                 (if list_ex (\<lambda>seen. ra_router seen = ra_router a) found then found else found @ [a], rejected)
                 rest
           | None \<Rightarrow> collect_advertisements ops scope (found, Suc rejected) rest)"

definition solicit ::
    "ipnet_ops \<Rightarrow> nd_system \<Rightarrow> string \<Rightarrow> u32 \<Rightarrow> received_message list \<Rightarrow>
     router_advertisement list attempt_outcome" where
  "solicit ops sys interface scope arrived =
     (case sy_interface_mac sys of
        None \<Rightarrow> NotSent (interface @ '' has no hardware address to send from'')
      | Some mac \<Rightarrow>
          case sy_open sys of
            Some reason \<Rightarrow> Unavailable reason
          | None \<Rightarrow>
              case sy_send sys 0 of
                Some reason \<Rightarrow> NotSent reason
              | None \<Rightarrow>
                  let sent = ''ICMPv6 router solicitation to '' @ ipv6_to_string all_routers;
                      (advertisements, rejected) = collect_advertisements ops scope ([], 0) arrived
                  in if advertisements \<noteq> [] then Answered sent advertisements
                     else if 0 < rejected then InvalidResponse sent rejected
                     else NoResponse sent)"

section \<open>Addresses in octets\<close>

lemma be_bytes_Suc: "be_bytes (Suc n) w = ucast (drop_bit (8 * n) w) # be_bytes n w"
  by (simp add: be_bytes_def)

lemma fold_be_bytes:
  fixes w a :: "'a::len word"
  shows "fold (\<lambda>b a. push_bit 8 a OR ucast b) (be_bytes n w) a = push_bit (8 * n) a OR take_bit (8 * n) w"
proof (induction n arbitrary: a)
  case 0
  then show ?case by (simp add: be_bytes_def)
next
  case (Suc n)
  have e: "8 * Suc n = 8 * n + 8" by simp
  show ?case unfolding be_bytes_Suc fold_simps Suc.IH e
    by (rule bit_word_eqI) (auto simp: bit_simps)
qed

lemma ipv6_of_be_bytes [simp]: "ipv6_of_bytes (be_bytes 16 a) = a"
proof -
  have "take_bit 128 a = a" by (rule bit_word_eqI) (simp add: bit_simps)
  then show ?thesis by (simp add: ipv6_of_bytes_def fold_be_bytes)
qed

lemma push_bit_funpow: "(push_bit 8 ^^ n) (a :: 'a::len word) = push_bit (8 * n) a"
  by (induction n) (simp_all add: ac_simps)

lemma take_be_bytes: "k \<le> n \<Longrightarrow> take k (be_bytes n w) = be_bytes k (drop_bit (8 * (n - k)) w)"
  by (rule nth_equalityI) (auto simp: be_bytes_def rev_nth ac_simps algebra_simps)

text \<open>The first \<open>k\<close> octets of an address and zeros are the address down to the bits they hold.\<close>

lemma ipv6_of_leading:
  assumes "k \<le> 16" and "n \<le> 8 * k"
  shows "ipv6_of_bytes (take k (be_bytes 16 a) @ replicate (16 - k) 0) AND netmask n = a AND netmask n"
proof -
  have "ipv6_of_bytes (take k (be_bytes 16 a) @ replicate (16 - k) 0) =
      push_bit (8 * (16 - k)) (take_bit (8 * k) (drop_bit (8 * (16 - k)) a))"
    using assms(1) by (simp add: ipv6_of_bytes_def take_be_bytes fold_be_bytes push_bit_funpow)
  then show ?thesis
    using assms by (intro bit_word_eqI) (auto simp: bit_simps bit_netmask)
qed

section \<open>What an advertisement is made of\<close>

datatype nd_item =
    PrefixItem nat u8 u32 u32 "128 word"
  | RouteItem nat nat u8 u32 "128 word"
  | MtuItem u32
  | MacItem bytes
  | SkippedItem u8 bytes

fun item_enc :: "nd_item \<Rightarrow> bytes" where
  "item_enc (PrefixItem n flags valid preferred a) =
     [OPTION_PREFIX_INFORMATION, 4, word_of_nat n, flags] @ u32_bytes valid @ u32_bytes preferred @
     [0, 0, 0, 0] @ be_bytes 16 a"
| "item_enc (RouteItem units n flags lifetime a) =
     [OPTION_ROUTE_INFORMATION, word_of_nat units, word_of_nat n, flags] @ u32_bytes lifetime @
     take ((units - 1) * 8) (be_bytes 16 a)"
| "item_enc (MtuItem m) = [OPTION_MTU, 1, 0, 0] @ u32_bytes m"
| "item_enc (MacItem m) = [OPTION_SOURCE_LINK_LAYER, 1] @ m"
| "item_enc (SkippedItem kind body) = [kind, word_of_nat ((length body + 2) div 8)] @ body"

fun item_ok :: "nd_item \<Rightarrow> bool" where
  "item_ok (PrefixItem n flags valid preferred a) \<longleftrightarrow> n \<le> 128"
| "item_ok (RouteItem units n flags lifetime a) \<longleftrightarrow> 1 \<le> units \<and> units \<le> 3 \<and> n \<le> (units - 1) * 64"
| "item_ok (MtuItem m) \<longleftrightarrow> True"
| "item_ok (MacItem m) \<longleftrightarrow> length m = 6"
| "item_ok (SkippedItem kind body) \<longleftrightarrow>
     kind \<notin> {OPTION_SOURCE_LINK_LAYER, OPTION_MTU, OPTION_PREFIX_INFORMATION, OPTION_ROUTE_INFORMATION} \<and>
     (length body + 2) mod 8 = 0 \<and> length body + 2 < 2048"

fun item_prefixes :: "nd_item \<Rightarrow> prefix_information list" where
  "item_prefixes (PrefixItem n flags valid preferred a) =
     [\<lparr>pi_prefix = V6Net (a AND netmask n) n, pi_on_link = (flags AND 0x80 \<noteq> 0),
       pi_autonomous = (flags AND 0x40 \<noteq> 0), pi_valid_lifetime = valid, pi_preferred_lifetime = preferred\<rparr>]"
| "item_prefixes _ = []"

fun item_routes :: "nd_item \<Rightarrow> route_information list" where
  "item_routes (RouteItem units n flags lifetime a) =
     [\<lparr>ri_prefix = V6Net (a AND netmask n) n, ri_preference = preference_from_flags flags,
       ri_lifetime = lifetime\<rparr>]"
| "item_routes _ = []"

definition item_opt :: "nd_item \<Rightarrow> u8 \<times> nat \<times> bytes" where
  "item_opt i = (item_enc i ! 0, unat (item_enc i ! 1), item_enc i)"

lemma nd_options_step:
  assumes "length opt = unat (opt ! 1) * 8" and "unat (opt ! 1) \<noteq> 0"
  shows "nd_options (opt @ rest) = map_option (Cons (opt ! 0, unat (opt ! 1), opt)) (nd_options rest)"
proof -
  have "2 \<le> length opt" using assms by linarith
  then show ?thesis
    using assms by (subst nd_options.simps) (simp add: Let_def nth_append)
qed

lemma unat_units: "n < 256 \<Longrightarrow> unat (word_of_nat n :: u8) = n"
  by (simp add: unat_of_nat)

lemma item_units:
  assumes "item_ok i"
  shows "length (item_enc i) = unat (item_enc i ! 1) * 8" and "unat (item_enc i ! 1) \<noteq> 0"
proof -
  have "length (item_enc i) = unat (item_enc i ! 1) * 8 \<and> unat (item_enc i ! 1) \<noteq> 0"
  proof (cases i)
    case (RouteItem units n flags lifetime a)
    then show ?thesis using assms by (auto simp: unat_units u32_bytes_def)
  next
    case (SkippedItem kind body)
    then have "(length body + 2) mod 8 = 0" "length body + 2 < 2048" using assms by auto
    then have "unat (word_of_nat ((length body + 2) div 8) :: u8) = (length body + 2) div 8"
      by (intro unat_units) linarith
    moreover have "(length body + 2) div 8 * 8 = length body + 2" "(length body + 2) div 8 \<noteq> 0"
      using \<open>(length body + 2) mod 8 = 0\<close> by presburger+
    ultimately show ?thesis using SkippedItem by simp
  qed (use assms in \<open>auto simp: u32_bytes_def\<close>)
  then show "length (item_enc i) = unat (item_enc i ! 1) * 8" and "unat (item_enc i ! 1) \<noteq> 0" by blast+
qed

lemma nd_options_items:
  "list_all item_ok items \<Longrightarrow> nd_options (concat (map item_enc items)) = Some (map item_opt items)"
proof (induction items)
  case Nil
  then show ?case by (subst nd_options.simps) simp
next
  case (Cons i items)
  then show ?case
    using nd_options_step [OF item_units, of i "concat (map item_enc items)"] by (simp add: item_opt_def)
qed


text \<open>\<open>Ipv6Net::trunc\<close> clears the bits after the prefix.\<close>

definition truncates6 :: "ipnet_ops \<Rightarrow> bool" where
  "truncates6 ops \<longleftrightarrow> (\<forall>a n. n \<le> 128 \<longrightarrow> trunc6 ops a n = a AND netmask n)"

lemma parse_prefix_item:
  assumes "truncates6 ops" and "n \<le> 128"
  shows "parse_prefix_information ops (item_enc (PrefixItem n flags valid preferred a)) =
    Some (hd (item_prefixes (PrefixItem n flags valid preferred a)))"
  using assms
  by (simp add: parse_prefix_information_def truncates6_def u32_bytes_def u32_at_def be32_bytes
      word_less_nat_alt unat_units)

lemma parse_route_item:
  assumes "truncates6 ops" and "item_ok (RouteItem units n flags lifetime a)"
  shows "parse_route_information ops (item_enc (RouteItem units n flags lifetime a)) =
    Some (hd (item_routes (RouteItem units n flags lifetime a)))"
proof -
  let ?o = "item_enc (RouteItem units n flags lifetime a)" and ?k = "(units - 1) * 8"
  have u: "1 \<le> units" "units \<le> 3" "n \<le> 8 * ?k" "n \<le> 128" using assms(2) by auto
  have k: "?k \<le> 16" using u by simp
  have len: "length ?o = units * 8" using u k by (simp add: u32_bytes_def min_absorb2 diff_mult_distrib)
  have o2: "?o ! 2 = word_of_nat n" "?o ! 3 = flags" "u32_at ?o 4 = lifetime" "drop 8 ?o = take ?k (be_bytes 16 a)"
    by (simp_all add: u32_bytes_def u32_at_def be32_bytes)
  have carried: "unat (?o ! 2) \<le> (if units = 1 then 0 else if units = 2 then 64 else 128)"
    using u by (auto simp: o2 unat_units)
  have n: "unat (?o ! 2) = n" "\<not> 128 < ?o ! 2" using u by (simp_all add: o2 word_less_nat_alt unat_units)
  have raw: "take ?k (drop 8 ?o) @ replicate (16 - ?k) 0 = take ?k (be_bytes 16 a) @ replicate (16 - ?k) 0"
    by (simp add: o2 del: item_enc.simps)
  have "trunc6 ops (ipv6_of_bytes (take ?k (drop 8 ?o) @ replicate (16 - ?k) 0)) n = a AND netmask n"
    unfolding raw using assms(1) u(4) ipv6_of_leading [OF k u(3), of a] by (simp add: truncates6_def)
  then show ?thesis
    using u len carried n o2(3) unfolding parse_route_information_def Let_def
    by (auto simp: o2(2) diff_mult_distrib simp del: item_enc.simps split: if_splits)
qed


lemma ra_option_item:
  assumes "truncates6 ops" and "item_ok i"
  shows "ra_prefixes (ra_option ops (item_opt i) a) = ra_prefixes a @ item_prefixes i"
    and "ra_routes (ra_option ops (item_opt i) a) = ra_routes a @ item_routes i"
    and "ra_router (ra_option ops (item_opt i) a) = ra_router a"
    and "ra_router_lifetime (ra_option ops (item_opt i) a) = ra_router_lifetime a"
proof -
  note codes = OPTION_PREFIX_INFORMATION_def OPTION_ROUTE_INFORMATION_def OPTION_MTU_def
    OPTION_SOURCE_LINK_LAYER_def
  have "ra_prefixes (ra_option ops (item_opt i) a) = ra_prefixes a @ item_prefixes i \<and>
    ra_routes (ra_option ops (item_opt i) a) = ra_routes a @ item_routes i \<and>
    ra_router (ra_option ops (item_opt i) a) = ra_router a \<and>
    ra_router_lifetime (ra_option ops (item_opt i) a) = ra_router_lifetime a"
  proof (cases i)
    case (PrefixItem n flags valid preferred b)
    then have "item_opt i = (OPTION_PREFIX_INFORMATION, 4, item_enc i)" by (simp add: item_opt_def)
    then show ?thesis
      using parse_prefix_item [OF assms(1), of n flags valid preferred b] assms(2) PrefixItem
      by (simp add: ra_option_def codes del: item_enc.simps)
  next
    case (RouteItem units n flags lifetime b)
    then have "item_opt i = (OPTION_ROUTE_INFORMATION, units, item_enc i)"
      using assms(2) by (simp add: item_opt_def unat_units)
    then show ?thesis
      using parse_route_item [OF assms(1), of units n flags lifetime b] assms(2) RouteItem
      by (simp add: ra_option_def codes del: item_enc.simps item_ok.simps)
  qed (use assms(2) in \<open>auto simp: item_opt_def ra_option_def codes split: option.splits\<close>)
  then show "ra_prefixes (ra_option ops (item_opt i) a) = ra_prefixes a @ item_prefixes i"
    and "ra_routes (ra_option ops (item_opt i) a) = ra_routes a @ item_routes i"
    and "ra_router (ra_option ops (item_opt i) a) = ra_router a"
    and "ra_router_lifetime (ra_option ops (item_opt i) a) = ra_router_lifetime a" by blast+
qed

lemma fold_items:
  assumes "truncates6 ops" and "list_all item_ok items"
  shows "ra_prefixes (fold (ra_option ops) (map item_opt items) a) = ra_prefixes a @ concat (map item_prefixes items) \<and>
    ra_routes (fold (ra_option ops) (map item_opt items) a) = ra_routes a @ concat (map item_routes items) \<and>
    ra_router (fold (ra_option ops) (map item_opt items) a) = ra_router a \<and>
    ra_router_lifetime (fold (ra_option ops) (map item_opt items) a) = ra_router_lifetime a"
  using assms(2)
  by (induction items arbitrary: a) (simp_all add: ra_option_item [OF assms(1)])

text \<open>The message a router sends: the fixed part, its options, and the checksum over the pseudo-header.\<close>

definition ra_tail :: "u8 \<Rightarrow> u8 \<Rightarrow> u16 \<Rightarrow> u32 \<Rightarrow> u32 \<Rightarrow> nd_item list \<Rightarrow> bytes" where
  "ra_tail hops flags lifetime reachable retrans items =
     [hops, flags] @ u16_bytes lifetime @ u32_bytes reachable @ u32_bytes retrans @ concat (map item_enc items)"

definition encode_ra :: "128 word \<Rightarrow> 128 word \<Rightarrow> bytes \<Rightarrow> bytes" where
  "encode_ra source destination tail =
     [ROUTER_ADVERTISEMENT, 0] @
     u16_bytes (internet_checksum (pseudo_header source destination (length tail + 4) @
       [ROUTER_ADVERTISEMENT, 0, 0, 0] @ tail)) @ tail"

lemma encode_ra_checksum:
  assumes "length tail \<le> 100000"
  shows "icmpv6_checksum source destination (encode_ra source destination tail) = 0"
proof -
  let ?pre = "pseudo_header source destination (length tail + 4) @ [ROUTER_ADVERTISEMENT, 0]"
  have "length ?pre = 42" by (simp add: pseudo_header_def u32_bytes_def)
  then have "internet_checksum (?pre @ u16_bytes (internet_checksum (?pre @ 0 # 0 # tail)) @ tail) = 0"
    using assms by (intro checksum_written_at) simp_all
  moreover have len: "length (encode_ra source destination tail) = length tail + 4"
    by (simp add: encode_ra_def u16_bytes_def)
  ultimately show ?thesis unfolding icmpv6_checksum_eq len by (simp add: encode_ra_def)
qed

text \<open>
  C21: a router advertisement is read as it was sent. For every router with a link-local address and every
  sequence of well-formed options, in any order and with unknown ones between them, a message with the
  right checksum that arrives with hop limit 255 yields that router, its lifetime and exactly the prefixes
  and the routes its options carry, truncated to their lengths, in the order sent: nothing is invented,
  merged or lost, and a route whose option holds only part of the address is the route that was meant.
\<close>

theorem advertisement_round_trip:
  assumes "truncates6 ops" and "list_all item_ok items" and "link_local source"
    and "length (concat (map item_enc items)) \<le> 65535"
  shows "\<exists>a. parse_router_advertisement ops
        (encode_ra source destination (ra_tail hops flags lifetime reachable retrans items))
        source destination 255 = Some a \<and>
      ra_router a = source \<and> ra_router_lifetime a = lifetime \<and>
      ra_prefixes a = concat (map item_prefixes items) \<and> ra_routes a = concat (map item_routes items)"
proof -
  let ?tail = "ra_tail hops flags lifetime reachable retrans items"
  let ?m = "encode_ra source destination ?tail"
  have "icmpv6_checksum source destination ?m = 0"
    using assms(4) by (intro encode_ra_checksum) (simp add: ra_tail_def u16_bytes_def u32_bytes_def)
  moreover have "16 \<le> length ?m" "?m ! 0 = ROUTER_ADVERTISEMENT" "?m ! 1 = 0"
      "drop 16 ?m = concat (map item_enc items)" "u16_at ?m 6 = lifetime"
    by (simp_all add: encode_ra_def ra_tail_def u16_bytes_def u32_bytes_def u16_at_def be16_bytes)
  ultimately show ?thesis
    using assms(3) fold_items [OF assms(1,2)] nd_options_items [OF assms(2)]
    by (simp add: parse_router_advertisement_def REQUIRED_HOP_LIMIT_def Let_def)
qed

theorem advertisement_round_trip_witness:
  "\<exists>a. parse_router_advertisement ipnet_model
        (encode_ra 0xFE800000000000000000000000000001 0xFF020000000000000000000000000001
           (ra_tail 64 0x80 1800 0 0
             [PrefixItem 64 0xC0 7200 3600 0x20010DB8000000010000000000000009, SkippedItem 31 [0, 0, 0, 0, 0, 0],
              RouteItem 2 48 0 600 0x20010DB8000200000000000000000000]))
        0xFE800000000000000000000000000001 0xFF020000000000000000000000000001 255 = Some a \<and>
      length (ra_prefixes a) = 1 \<and> map ri_lifetime (ra_routes a) = [600]"
  using advertisement_round_trip [of ipnet_model
      "[PrefixItem 64 0xC0 7200 3600 0x20010DB8000000010000000000000009, SkippedItem 31 [0, 0, 0, 0, 0, 0],
        RouteItem 2 48 0 600 0x20010DB8000200000000000000000000]"
      "0xFE800000000000000000000000000001" "0xFF020000000000000000000000000001" 64 "0x80" 1800 0 0]
  by (auto simp: truncates6_def ipnet_model_def link_local_def segment6_def u32_bytes_def
      OPTION_SOURCE_LINK_LAYER_def OPTION_MTU_def OPTION_PREFIX_INFORMATION_def OPTION_ROUTE_INFORMATION_def)

end
