(* ===== verification/Arp.thy ===== *)
theory Arp
  imports Ndp
begin

text \<open>
  ARP liveness (\<open>src/src/probes/arp.rs\<close>): the request frame, which frames are candidate answers and
  which are valid ones, one confirmation, and the sweep with what follows from its outcome. What the
  system does is an argument: the interface's hardware address, opening the two channels, each
  transmission, and what the channels deliver before their deadlines.
\<close>

section \<open>Requests and replies\<close>

definition ARP_ETHERTYPE :: u16 where "ARP_ETHERTYPE = 0x0806"
definition VLAN_ETHERTYPE :: u16 where "VLAN_ETHERTYPE = 0x8100"
definition HARDWARE_ETHERNET :: u16 where "HARDWARE_ETHERNET = 1"
definition PROTOCOL_IPV4 :: u16 where "PROTOCOL_IPV4 = 0x0800"
definition OPERATION_REQUEST :: u16 where "OPERATION_REQUEST = 1"
definition OPERATION_REPLY :: u16 where "OPERATION_REPLY = 2"
definition ARP_FRAME_LEN :: nat where "ARP_FRAME_LEN = 14 + 28"
definition MIN_ETHERNET_FRAME :: nat where "MIN_ETHERNET_FRAME = 60"

record arp_query =
  aq_sender_mac :: bytes
  aq_sender_ip :: "32 word"
  aq_target_ip :: "32 word"

definition resize_frame :: "nat \<Rightarrow> bytes \<Rightarrow> bytes" where
  "resize_frame n frame = take n frame @ replicate (n - length frame) 0"

definition request_frame :: "arp_query \<Rightarrow> bytes" where
  "request_frame q =
     resize_frame MIN_ETHERNET_FRAME
       (replicate 6 0xFF @ aq_sender_mac q @ u16_bytes ARP_ETHERTYPE @
        u16_bytes HARDWARE_ETHERNET @ u16_bytes PROTOCOL_IPV4 @ [6, 4] @ u16_bytes OPERATION_REQUEST @
        aq_sender_mac q @ u32_bytes (aq_sender_ip q) @ replicate 6 0 @ u32_bytes (aq_target_ip q))"

definition describe_arp :: "arp_query \<Rightarrow> string" where
  "describe_arp q =
     ''ARP who-has '' @ ipv4_to_string (aq_target_ip q) @ '' tell '' @ ipv4_to_string (aq_sender_ip q)"

record arp_reply =
  ar_address :: "32 word"
  ar_mac :: bytes
  ar_vlan :: "u16 option"
  ar_raw :: bytes

definition arp_mac_text :: "arp_reply \<Rightarrow> string" where
  "arp_mac_text r = mac_text (ar_mac r)"

definition is_candidate_reply :: "bytes \<Rightarrow> bytes \<Rightarrow> bool" where
  "is_candidate_reply frame sender_mac =
     (if length frame < 22 \<or> take 6 frame \<noteq> sender_mac then False
      else
        let ethertype = u16_at frame 12 in
        if ethertype = VLAN_ETHERTYPE \<and> length frame < 24 then False
        else
          let off = (if ethertype = VLAN_ETHERTYPE then 16 else 12) in
          if u16_at frame off \<noteq> ARP_ETHERTYPE then False
          else off + 10 \<le> length frame \<and> u16_at frame (off + 8) = OPERATION_REPLY)"

definition is_our_request :: "bytes \<Rightarrow> bytes \<Rightarrow> bool" where
  "is_our_request frame sender_mac \<longleftrightarrow>
     ARP_FRAME_LEN \<le> length frame \<and> take 6 (drop 6 frame) = sender_mac \<and>
     take 2 (drop 12 frame) = u16_bytes ARP_ETHERTYPE \<and> take 2 (drop 20 frame) = u16_bytes OPERATION_REQUEST"

definition parse_arp_reply :: "bytes \<Rightarrow> arp_query \<Rightarrow> arp_reply option" where
  "parse_arp_reply frame q =
     (if length frame < 14 then None
      else if take 6 frame \<noteq> aq_sender_mac q then None
      else
        let tagged = (u16_at frame 12 = VLAN_ETHERTYPE) in
        if tagged \<and> length frame < 20 then None
        else
          let vlan = (if tagged then Some (u16_at frame 14 AND 0x0FFF) else None);
              off = (if tagged then 16 else 12)
          in if u16_at frame off \<noteq> ARP_ETHERTYPE then None
             else
               let arp = drop (off + 2) frame in
               if length arp < 28 then None
               else if u16_at arp 0 \<noteq> HARDWARE_ETHERNET then None
               else if u16_at arp 2 \<noteq> PROTOCOL_IPV4 then None
               else if arp ! 4 \<noteq> 6 \<or> arp ! 5 \<noteq> 4 then None
               else if u16_at arp 6 \<noteq> OPERATION_REPLY then None
               else
                 let sender_mac = take 6 (drop 8 arp); sender_ip = u32_at arp 14;
                     target_mac = take 6 (drop 18 arp); target_ip = u32_at arp 24
                 in if sender_ip \<noteq> aq_target_ip q then None
                    else if target_ip \<noteq> aq_sender_ip q then None
                    else if target_mac \<noteq> aq_sender_mac q then None
                    else if sender_mac ! 0 AND 0x01 \<noteq> 0 \<or> sender_mac = replicate 6 0 then None
                    else Some \<lparr>ar_address = sender_ip, ar_mac = sender_mac, ar_vlan = vlan, ar_raw = frame\<rparr>)"

section \<open>One address\<close>

record arp_system =
  as_interface_mac :: "bytes option"
  as_open :: "string option"
  as_send :: "nat \<Rightarrow> string option"
  as_events :: "channel_event list"
  as_observer :: "channel_event list option"

definition accept_reply :: "arp_query \<Rightarrow> nat \<Rightarrow> bytes \<Rightarrow> nat \<times> arp_reply option" where
  "accept_reply q candidates frame =
     (if is_candidate_reply frame (aq_sender_mac q) then Suc candidates else candidates,
      parse_arp_reply frame q)"

definition arp_confirm_liveness ::
    "(ip_net \<Rightarrow> ip_addr \<Rightarrow> bool) \<Rightarrow> (ip_net \<Rightarrow> string) \<Rightarrow> arp_system \<Rightarrow> string \<Rightarrow> ip_net \<Rightarrow> 32 word \<Rightarrow>
     32 word \<Rightarrow> arp_reply attempt_outcome" where
  "arp_confirm_liveness contains show_net sys interface network sender_ip target_ip =
     (if \<not> contains network (V4 target_ip)
      then NotApplicable (ipv4_to_string target_ip @ '' is not on '' @ show_net network @
             ''; ARP is link-scoped and resolves nothing beyond it'')
      else if target_ip = sender_ip
      then NotApplicable ''the target is this interface's own address; a station does not ARP for itself''
      else case as_interface_mac sys of
             None \<Rightarrow> NotSent (interface @ '' has no hardware address to send from'')
           | Some mac \<Rightarrow>
               let q = \<lparr>aq_sender_mac = mac, aq_sender_ip = sender_ip, aq_target_ip = target_ip\<rparr> in
               case as_open sys of
                 Some reason \<Rightarrow> Unavailable reason
               | None \<Rightarrow>
                   case as_send sys 0 of
                     Some reason \<Rightarrow> NotSent reason
                   | None \<Rightarrow>
                       let (candidates, result) = read_until (accept_reply q) 0 (as_events sys) in
                       case (rd_found result, rd_fault result) of
                         (None, Some fault) \<Rightarrow> NotSent (describe_arp q @ ''; '' @ fault)
                       | (Some reply, _) \<Rightarrow> Answered (describe_arp q) reply
                       | (None, None) \<Rightarrow>
                           if 0 < candidates then InvalidResponse (describe_arp q) candidates
                           else NoResponse (describe_arp q))"

section \<open>The sweep\<close>

record arp_sweep =
  sw_asked :: "32 word list"
  sw_replies :: "arp_reply list"
  sw_frames_seen :: nat
  sw_candidates :: nat
  sw_rejected :: nat
  sw_locally_observed :: nat

definition arp_unconfirmed :: "arp_sweep \<Rightarrow> 32 word list" where
  "arp_unconfirmed s = quiet ar_address (sw_asked s) (sw_replies s)"

definition arp_contested :: "arp_sweep \<Rightarrow> (32 word \<times> bytes list) list" where
  "arp_contested s = several ar_address ar_mac (sw_replies s)"

datatype arp_resolution = Confirmed nat | Fallback string | SkipResolution string

fun resolve_sweep :: "arp_sweep attempt_outcome \<Rightarrow> arp_resolution" where
  "resolve_sweep (Answered sent result) = Confirmed (length (sw_replies result))"
| "resolve_sweep (NoResponse sent) = Fallback (sent @ ''; no correlated replies observed'')"
| "resolve_sweep (InvalidResponse sent rejected) =
     Fallback (sent @ ''; '' @ decimal (int rejected) @ '' candidate reply/replies failed correlation'')"
| "resolve_sweep (Unavailable reason) = Fallback reason"
| "resolve_sweep (NotSent reason) = Fallback reason"
| "resolve_sweep (NotApplicable reason) = SkipResolution reason"

text \<open>What the closure of the sweep does with a frame: the candidates, the correlated, the replies.\<close>

definition correlate_query :: "bytes \<Rightarrow> arp_query \<Rightarrow> nat \<times> arp_reply list \<Rightarrow> nat \<times> arp_reply list" where
  "correlate_query frame q s =
     (case parse_arp_reply frame q of
        Some reply \<Rightarrow> (Suc (fst s), push_reply ar_address ar_mac reply (snd s))
      | None \<Rightarrow> s)"

definition sweep_frame ::
    "bytes \<Rightarrow> arp_query list \<Rightarrow> nat \<times> nat \<times> arp_reply list \<Rightarrow> bytes \<Rightarrow> (nat \<times> nat \<times> arp_reply list) \<times> unit option" where
  "sweep_frame sender_mac sent_queries s frame =
     (let (candidates, correlated, replies) = s;
          candidates' = (if is_candidate_reply frame sender_mac then Suc candidates else candidates)
      in ((candidates', fold (correlate_query frame) sent_queries (correlated, replies)), None))"

definition observe_frame :: "bytes \<Rightarrow> nat \<Rightarrow> bytes \<Rightarrow> nat \<times> unit option" where
  "observe_frame sender_mac n frame = (if is_our_request frame sender_mac then Suc n else n, None)"

definition arp_sweep_liveness ::
    "(ip_net \<Rightarrow> ip_addr \<Rightarrow> bool) \<Rightarrow> (ip_net \<Rightarrow> string) \<Rightarrow> arp_system \<Rightarrow> string \<Rightarrow> ip_net \<Rightarrow> 32 word \<Rightarrow>
     32 word list \<Rightarrow> arp_sweep attempt_outcome" where
  "arp_sweep_liveness contains show_net sys interface network sender_ip targets =
     (let on_link = filter (\<lambda>a. contains network (V4 a) \<and> a \<noteq> sender_ip) targets in
      if on_link = []
      then NotApplicable (''no address to ask on '' @ show_net network @
             ''; ARP is link-scoped and resolves nothing beyond it'')
      else case as_interface_mac sys of
             None \<Rightarrow> NotSent (interface @ '' has no hardware address to send from'')
           | Some mac \<Rightarrow>
               case as_open sys of
                 Some reason \<Rightarrow> Unavailable reason
               | None \<Rightarrow>
                   let (sent_queries, refused) =
                         transmit (as_send sys) 0
                           (map (\<lambda>t. \<lparr>aq_sender_mac = mac, aq_sender_ip = sender_ip, aq_target_ip = t\<rparr>) on_link)
                   in if sent_queries = []
                      then NotSent (case refused of Some r \<Rightarrow> r | None \<Rightarrow> ''no request could be transmitted'')
                      else
                        let asked = map aq_target_ip sent_queries;
                            sent = ''BPF accepted '' @ decimal (int (length asked)) @ '' ARP request(s) for '' @
                                   show_net network;
                            locally_observed =
                              (case as_observer sys of
                                 Some events \<Rightarrow> fst (read_until (observe_frame mac) 0 events)
                               | None \<Rightarrow> 0);
                            observation =
                              (case as_observer sys of
                                 Some events \<Rightarrow>
                                   if 0 < locally_observed
                                   then ''locally observed outbound ('' @ decimal (int locally_observed) @ '' of '' @
                                        decimal (int (length asked)) @ '')''
                                   else ''no outbound request observed locally''
                               | None \<Rightarrow> ''outbound observation unavailable'');
                            ((candidates, correlated, replies), result) =
                              read_until (sweep_frame mac sent_queries) (0, 0, []) (as_events sys);
                            rejected = candidates - correlated;
                            diagnostics =
                              sent @ ''; '' @ observation @ ''; '' @ decimal (int (rd_frames_seen result)) @
                              '' frame(s) read, '' @ decimal (int candidates) @ '' ARP candidate(s), '' @
                              decimal (int correlated) @ '' correlated'' @
                              (case rd_fault result of Some f \<Rightarrow> ''; channel fault: '' @ f | None \<Rightarrow> [])
                        in if replies \<noteq> []
                           then Answered diagnostics
                                  \<lparr>sw_asked = asked, sw_replies = replies, sw_frames_seen = rd_frames_seen result,
                                   sw_candidates = candidates, sw_rejected = rejected,
                                   sw_locally_observed = locally_observed\<rparr>
                           else case rd_fault result of
                                  Some fault \<Rightarrow> NotSent (sent @ ''; '' @ fault)
                                | None \<Rightarrow>
                                    if 0 < candidates then InvalidResponse diagnostics candidates
                                    else NoResponse diagnostics)"

section \<open>What a sweep keeps\<close>

definition keep_reply :: "bytes \<Rightarrow> arp_query \<Rightarrow> arp_reply list \<Rightarrow> arp_reply list" where
  "keep_reply frame q rs =
     (case parse_arp_reply frame q of Some r \<Rightarrow> push_reply ar_address ar_mac r rs | None \<Rightarrow> rs)"

definition keep_replies :: "arp_query list \<Rightarrow> bytes \<Rightarrow> arp_reply list \<Rightarrow> arp_reply list" where
  "keep_replies queries frame rs = fold (keep_reply frame) queries rs"

lemma correlated_replies: "snd (fold (correlate_query frame) queries s) = keep_replies queries frame (snd s)"
  unfolding keep_replies_def
  by (induction queries arbitrary: s) (simp_all add: correlate_query_def keep_reply_def split: option.splits)

lemma sweep_frame_none: "snd (sweep_frame mac queries s frame) = None"
  by (simp add: sweep_frame_def split: prod.splits)

lemma swept_replies:
  "snd (snd (fold (\<lambda>f s. fst (sweep_frame mac queries s f)) frames s)) =
     fold (keep_replies queries) frames (snd (snd s))"
  by (induction frames arbitrary: s)
    (simp_all add: sweep_frame_def correlated_replies split: prod.splits)

lemma keep_reply_distinct:
  "distinct (map (\<lambda>r. (ar_address r, ar_mac r)) rs) \<Longrightarrow>
     distinct (map (\<lambda>r. (ar_address r, ar_mac r)) (keep_reply frame q rs))"
  by (auto simp: keep_reply_def push_reply_distinct split: option.splits)

interpretation arp: sweep ar_address ar_mac "keep_replies queries" for queries
proof
  show "distinct (map (\<lambda>r. (ar_address r, ar_mac r)) (keep_replies queries frame rs))"
    if "distinct (map (\<lambda>r. (ar_address r, ar_mac r)) rs)" for rs frame
    using that unfolding keep_replies_def by (induction queries arbitrary: rs) (auto intro: keep_reply_distinct)
qed

lemma parse_arp_reply_valid:
  assumes "parse_arp_reply frame q = Some r"
  shows "ar_address r = aq_target_ip q" and "ar_raw r = frame" and "take 6 frame = aq_sender_mac q"
    and "is_candidate_reply frame (aq_sender_mac q)" and "length (ar_mac r) = 6"
    and "ar_mac r ! 0 AND 0x01 = 0"
  using assms
  by (auto simp: parse_arp_reply_def is_candidate_reply_def Let_def u16_at_def add.commute
      OPERATION_REPLY_def split: if_splits)

lemma kept_by_query:
  assumes "r \<in> set (keep_replies queries frame rs)"
  shows "r \<in> set rs \<or> (\<exists>q \<in> set queries. parse_arp_reply frame q = Some r)"
  using assms unfolding keep_replies_def
proof (induction queries arbitrary: rs)
  case (Cons q queries)
  from Cons(1) [of "keep_reply frame q rs"] Cons(2) show ?case
    using push_reply_subset(2) [of ar_address ar_mac _ rs]
    by (auto simp: keep_reply_def split: option.splits)
qed simp

lemma kept_by_frame:
  assumes "r \<in> set (fold (keep_replies queries) frames rs)"
  shows "r \<in> set rs \<or> (\<exists>frame \<in> set frames. \<exists>q \<in> set queries. parse_arp_reply frame q = Some r)"
  using assms
proof (induction frames arbitrary: rs)
  case (Cons frame frames)
  from Cons(1) [of "keep_replies queries frame rs"] Cons(2) show ?case
    using kept_by_query [of r queries frame rs] by auto
qed simp

text \<open>A reply is kept, or one with its address and station was.\<close>

definition represented :: "arp_reply \<Rightarrow> arp_reply list \<Rightarrow> bool" where
  "represented r rs \<longleftrightarrow> (\<exists>s \<in> set rs. ar_address s = ar_address r \<and> ar_mac s = ar_mac r)"

lemma keep_reply_mono: "represented r rs \<Longrightarrow> represented r (keep_reply frame q rs)"
  by (auto simp: keep_reply_def push_reply_def represented_def split: option.splits)

lemma keep_replies_mono: "represented r rs \<Longrightarrow> represented r (keep_replies queries frame rs)"
  unfolding keep_replies_def by (induction queries arbitrary: rs) (auto intro: keep_reply_mono)

lemma fold_keep_mono: "represented r rs \<Longrightarrow> represented r (fold (keep_replies queries) frames rs)"
  by (induction frames arbitrary: rs) (auto intro: keep_replies_mono)

lemma keep_replies_represented:
  assumes "q \<in> set queries" and "parse_arp_reply frame q = Some r"
  shows "represented r (keep_replies queries frame rs)"
  using assms(1)
proof (induction queries arbitrary: rs)
  case (Cons p queries)
  show ?case
  proof (cases "p = q")
    case True
    then have "represented r (keep_reply frame p rs)"
      using assms(2) by (auto simp: keep_reply_def push_reply_def represented_def list_ex_iff)
    then show ?thesis using keep_replies_mono [of r _ queries] by (simp add: keep_replies_def)
  next
    case False
    then show ?thesis using Cons by (simp add: keep_replies_def)
  qed
qed simp

lemma fold_keep_represented:
  assumes "frame \<in> set frames" and "q \<in> set queries" and "parse_arp_reply frame q = Some r"
  shows "represented r (fold (keep_replies queries) frames rs)"
  using assms(1)
proof (induction frames arbitrary: rs)
  case (Cons f frames)
  then show ?case
    using keep_replies_represented [OF assms(2,3)] by (auto intro: fold_keep_mono)
qed simp

section \<open>The outcome\<close>

text \<open>Everything counted as sent was accepted, and what is left over starts with a refusal.\<close>

lemma transmit_sent:
  "transmit send i qs = (sent, refused) \<Longrightarrow>
     (\<forall>k < length sent. send (i + k) = None) \<and>
     (length sent < length qs \<longrightarrow> send (i + length sent) \<noteq> None)"
proof (induction send i qs arbitrary: sent refused rule: transmit.induct)
  case (2 send i q qs)
  show ?case
  proof (cases "send i")
    case None
    then obtain sent' where "transmit send (Suc i) qs = (sent', refused)" "sent = q # sent'"
      using "2.prems" by (auto split: prod.splits)
    with "2.IH" [OF None] None show ?thesis by (auto simp: less_Suc_eq_0_disj)
  next
    case (Some reason)
    then have "sent = []" using "2.prems" by simp
    with Some show ?thesis by simp
  qed
qed simp

text \<open>
  C40: An ARP sweep reports the link and nothing else. The addresses it asked are the on-link ones, up
  to the first transmission the system refused: every request for an asked address was accepted by the
  system, and where addresses are left over the next request was refused. The replies it keeps are exactly the valid answers to
  requests that left: each is a frame that arrived before any fault, answers a request that was sent
  and carries a station's own address, and every such answer is kept or one with the same address
  and hardware address is. An address is unconfirmed when it was asked and nothing answered, and
  contested exactly when two different stations answered for it.
\<close>

theorem arp_sweep_is_exact:
  assumes "arp_sweep_liveness contains show_net sys interface network sender_ip targets = Answered d s"
  shows "\<exists>mac rest. as_interface_mac sys = Some mac \<and>
    filter (\<lambda>a. contains network (V4 a) \<and> a \<noteq> sender_ip) targets = sw_asked s @ rest \<and>
    (\<forall>i < length (sw_asked s). as_send sys i = None) \<and>
    (rest \<noteq> [] \<longrightarrow> as_send sys (length (sw_asked s)) \<noteq> None) \<and>
    (let sent = map (\<lambda>t. \<lparr>aq_sender_mac = mac, aq_sender_ip = sender_ip, aq_target_ip = t\<rparr>) (sw_asked s);
         heard = frames_before_fault (as_events sys)
     in (\<forall>r \<in> set (sw_replies s). \<exists>frame \<in> set heard. \<exists>q \<in> set sent. parse_arp_reply frame q = Some r) \<and>
        (\<forall>frame \<in> set heard. \<forall>q \<in> set sent. \<forall>r. parse_arp_reply frame q = Some r \<longrightarrow>
           (\<exists>k \<in> set (sw_replies s). ar_address k = ar_address r \<and> ar_mac k = ar_mac r)) \<and>
        (\<forall>t. t \<in> set (arp_unconfirmed s) \<longleftrightarrow>
           t \<in> set (sw_asked s) \<and> (\<forall>r \<in> set (sw_replies s). ar_address r \<noteq> t)) \<and>
        (\<forall>t. (\<exists>ms. (t, ms) \<in> set (arp_contested s)) \<longleftrightarrow>
           (\<exists>r \<in> set (sw_replies s). \<exists>r' \<in> set (sw_replies s).
              ar_address r = t \<and> ar_address r' = t \<and> ar_mac r \<noteq> ar_mac r')))"
proof -
  let ?targets = "filter (\<lambda>a. contains network (V4 a) \<and> a \<noteq> sender_ip) targets"
  let ?heard = "frames_before_fault (as_events sys)"
  let ?query = "\<lambda>mac t. \<lparr>aq_sender_mac = mac, aq_sender_ip = sender_ip, aq_target_ip = t\<rparr>"
  obtain mac queries refused where mac: "as_interface_mac sys = Some mac"
      and q: "transmit (as_send sys) 0 (map (?query mac) ?targets) = (queries, refused)"
      and s: "sw_asked s = map aq_target_ip queries"
        "sw_replies s = snd (snd (fst (read_until (sweep_frame mac queries) (0, 0, []) (as_events sys))))"
    using assms
    by (auto simp: arp_sweep_liveness_def Let_def split: if_splits option.splits prod.splits)
  have replies: "sw_replies s = fold (keep_replies queries) ?heard []"
    unfolding s read_until_collects [of "sweep_frame mac queries", OF sweep_frame_none]
    by (simp add: swept_replies)
  obtain rest where rest: "map (?query mac) ?targets = queries @ rest"
    using transmit_prefix [OF q] by blast
  then have "map aq_target_ip (map (?query mac) ?targets) = map aq_target_ip queries @ map aq_target_ip rest"
    by simp
  then have asked: "?targets = sw_asked s @ map aq_target_ip rest" by (simp add: s comp_def)
  have "length (map (?query mac) ?targets) = length queries + length rest" unfolding rest by simp
  then have left: "\<forall>i < length (sw_asked s). as_send sys i = None"
      "rest \<noteq> [] \<Longrightarrow> as_send sys (length (sw_asked s)) \<noteq> None"
    using transmit_sent [OF q] by (simp_all add: s)
  have "map (?query mac) (sw_asked s) = queries"
  proof -
    have "(?query mac \<circ> aq_target_ip) q = q" if "q \<in> set queries" for q
    proof -
      have "q \<in> set (map (?query mac) ?targets)" unfolding rest using that by simp
      then show ?thesis by auto
    qed
    then show ?thesis unfolding s map_map by (intro map_idI)
  qed
  moreover have "\<exists>frame \<in> set ?heard. \<exists>q \<in> set queries. parse_arp_reply frame q = Some r"
    if "r \<in> set (sw_replies s)" for r
    using kept_by_frame [of r queries ?heard "[]"] that by (simp add: replies)
  moreover have "\<exists>k \<in> set (sw_replies s). ar_address k = ar_address r \<and> ar_mac k = ar_mac r"
    if "frame \<in> set ?heard" "q \<in> set queries" "parse_arp_reply frame q = Some r" for frame q r
    using fold_keep_represented [OF that, of "[]"] by (simp add: replies represented_def)
  moreover have "t \<in> set (arp_unconfirmed s) \<longleftrightarrow>
      t \<in> set (sw_asked s) \<and> (\<forall>r \<in> set (sw_replies s). ar_address r \<noteq> t)" for t
    by (auto simp: arp_unconfirmed_def quiet_def list_ex_iff)
  moreover have "(\<exists>ms. (t, ms) \<in> set (arp_contested s)) \<longleftrightarrow>
      (\<exists>r \<in> set (sw_replies s). \<exists>r' \<in> set (sw_replies s).
         ar_address r = t \<and> ar_address r' = t \<and> ar_mac r \<noteq> ar_mac r')" for t
    using arp.contested_stations [of t queries ?heard] by (simp add: arp_contested_def replies)
  ultimately show ?thesis using mac asked left by (intro exI [of _ mac] exI [of _ "map aq_target_ip rest"]) (simp add: Let_def)
qed

text \<open>
  Two stations answer for \<open>10.0.0.2\<close>, \<open>10.0.0.3\<close> stays quiet, and the request for \<open>10.0.0.4\<close> is
  refused by the system.
\<close>

definition sample_answer :: "u8 \<Rightarrow> bytes" where
  "sample_answer n =
     [2, 0, 0, 0, 0, 1] @ [2, 0, 0, 0, 0, n] @ [0x08, 0x06] @ [0, 1, 0x08, 0, 6, 4, 0, 2] @
     [2, 0, 0, 0, 0, n] @ [10, 0, 0, 2] @ [2, 0, 0, 0, 0, 1] @ [10, 0, 0, 1]"

definition sample_link :: arp_system where
  "sample_link =
     \<lparr>as_interface_mac = Some [2, 0, 0, 0, 0, 1], as_open = None, as_send = (\<lambda>i. if i = 2 then Some ''no buffer space'' else None),
      as_events = [Delivered [sample_answer 7], Delivered [sample_answer 9, sample_answer 7]],
      as_observer = None\<rparr>"

definition sample_result :: arp_sweep where
  "sample_result =
     \<lparr>sw_asked = [0x0A000002, 0x0A000003],
      sw_replies = [\<lparr>ar_address = 0x0A000002, ar_mac = [2, 0, 0, 0, 0, 7], ar_vlan = None, ar_raw = sample_answer 7\<rparr>,
        \<lparr>ar_address = 0x0A000002, ar_mac = [2, 0, 0, 0, 0, 9], ar_vlan = None, ar_raw = sample_answer 9\<rparr>],
      sw_frames_seen = 3, sw_candidates = 3, sw_rejected = 0, sw_locally_observed = 0\<rparr>"

lemma sample_arp_sweep:
  "\<exists>d. arp_sweep_liveness (\<lambda>_ _. True) (\<lambda>_. ''10.0.0.0/24'') sample_link ''en0'' (V4Net 0x0A000000 24) 0x0A000001
     [0x0A000002, 0x0A000001, 0x0A000003, 0x0A000004] = Answered d sample_result"
proof -
  have "attempt_result (arp_sweep_liveness (\<lambda>_ _. True) (\<lambda>_. ''10.0.0.0/24'') sample_link ''en0''
      (V4Net 0x0A000000 24) 0x0A000001 [0x0A000002, 0x0A000001, 0x0A000003, 0x0A000004]) = Some sample_result"
    by code_simp
  then show ?thesis by (auto elim: attempt_result.elims)
qed

theorem arp_sweep_is_exact_witness:
  "as_send sample_link 2 \<noteq> None \<and> set (arp_unconfirmed sample_result) = {0x0A000003} \<and>
   (\<exists>ms. (0x0A000002, ms) \<in> set (arp_contested sample_result))"
proof -
  obtain d where d: "arp_sweep_liveness (\<lambda>_ _. True) (\<lambda>_. ''10.0.0.0/24'') sample_link ''en0''
      (V4Net 0x0A000000 24) 0x0A000001 [0x0A000002, 0x0A000001, 0x0A000003, 0x0A000004] = Answered d sample_result"
    using sample_arp_sweep by blast
  from arp_sweep_is_exact [OF d] show ?thesis by (auto simp: sample_result_def sample_link_def Let_def)
qed

end
