(* ===== verification/Frames.thy ===== *)
theory Frames
  imports Isis Rip Ra Arp
begin

text \<open>
  The decoder of passively observed frames (\<open>src/src/probes/passive.rs\<close>): the tags of a frame, what
  its payload is, and the facts each kind discloses. It hands OSPF, IS-IS, RIP, LLDP, CDP, MNDP and
  router advertisements to the decoders of their own modules. An offset into the frame stays an
  offset; a loop over a slice is a recursion on what is left of it.
\<close>

section \<open>Constants\<close>

definition ETHERTYPE_IPV4 :: u16 where "ETHERTYPE_IPV4 = 0x0800"
definition ETHERTYPE_ARP :: u16 where "ETHERTYPE_ARP = 0x0806"
definition ETHERTYPE_IPV6 :: u16 where "ETHERTYPE_IPV6 = 0x86DD"
definition ETHERTYPE_LLDP :: u16 where "ETHERTYPE_LLDP = 0x88CC"
definition ETHERTYPE_VLAN :: u16 where "ETHERTYPE_VLAN = 0x8100"
definition ETHERTYPE_QINQ_802_1AD :: u16 where "ETHERTYPE_QINQ_802_1AD = 0x88A8"
definition ETHERTYPE_QINQ_LEGACY :: u16 where "ETHERTYPE_QINQ_LEGACY = 0x9100"
definition LLC_SAP_STP :: u8 where "LLC_SAP_STP = 0x42"
definition STP_MULTICAST_MAC :: bytes where "STP_MULTICAST_MAC = [0x01, 0x80, 0xC2, 0x00, 0x00, 0x00]"
definition PVST_MULTICAST_MAC :: bytes where "PVST_MULTICAST_MAC = [0x01, 0x00, 0x0C, 0xCC, 0xCC, 0xCD]"
definition CISCO_SNAP_OUI :: bytes where "CISCO_SNAP_OUI = [0x00, 0x00, 0x0C]"
definition PVST_SNAP_PID :: u16 where "PVST_SNAP_PID = 0x010B"
definition MAX_802_3_LENGTH :: u16 where "MAX_802_3_LENGTH = 1500"
definition DHCP_ACK :: u8 where "DHCP_ACK = 5"

section \<open>Facts\<close>

record bridge_fact =
  bf_source_mac :: string
  bf_bridge_id :: string
  bf_root_id :: string
  bf_port_id :: u16
  bf_vlan :: "u16 option"

record dhcp_fact =
  df_server_mac :: string
  df_assigned :: "32 word option"
  df_subnet_mask :: "32 word option"
  df_routers :: "32 word list"
  df_classless_routes :: "(32 word \<times> nat \<times> 32 word) list"
  df_message_type :: "u8 option"
  df_relayed :: bool

type_synonym advertised_route = "ip_net \<times> ip_addr option \<times> u32 \<times> u16 \<times> bytes"
type_synonym promoted_prefix = "ip_net \<times> u32 \<times> string"
type_synonym reported_prefix = "ip_net \<times> string"

record routing_update =
  ru_sender_mac :: string
  ru_sender :: ip_addr
  ru_protocol :: string
  ru_routes :: "advertised_route list"
  ru_withdrawn :: "(ip_net \<times> bytes) list"

record control_plane =
  cp_sender_mac :: string
  cp_sender :: "ip_addr option"
  cp_protocol :: string
  cp_identity :: string
  cp_scope :: string
  cp_hello :: bool
  cp_verifiable :: bool
  cp_current :: "promoted_prefix list"
  cp_reported_only :: "reported_prefix list"
  cp_sequences :: "u32 list"

record ra_fact =
  rf_router_mac :: string
  rf_router_address :: "128 word option"
  rf_prefixes :: "(128 word \<times> nat) list"
  rf_routes :: "(128 word \<times> nat \<times> u32) list"

datatype frame_fact =
    FVlan u16
  | FBridge bridge_fact
  | FArp string "32 word"
  | FDhcp dhcp_fact
  | FVlanNetwork u16 ip_net
  | FRoutingUpdate routing_update
  | FControlPlane control_plane
  | FRoutingRequest string string
  | FRoutingUpdateRejected string string
  | FRouterAdvertisement ra_fact
  | FNeighbor string "128 word" bool
  | FLinkLayerNeighbor lldp_neighbor
  | FMndp mndp_neighbor

section \<open>Reading\<close>

definition read_u16 :: "bytes \<Rightarrow> nat \<Rightarrow> u16 option" where
  "read_u16 bs off = (if length bs < off + 2 then None else Some (u16_at bs off))"

definition format_bridge_id :: "bytes \<Rightarrow> string" where
  "format_bridge_id bs =
     (if length bs < 8 then []
      else decimal (uint (u16_at bs 0)) @ ''.'' @ mac_text (take 6 (drop 2 bs)))"

definition chunks :: "nat \<Rightarrow> bytes \<Rightarrow> bytes list" where
  "chunks n bs = map (\<lambda>i. take n (drop (i * n) bs)) [0 ..< length bs div n]"

section \<open>Spanning tree and ARP\<close>

definition decode_bpdu :: "string \<Rightarrow> bytes \<Rightarrow> bridge_fact option" where
  "decode_bpdu source_mac body =
     (if length body < 35 then None
      else if u16_at body 0 \<noteq> 0 then None
      else if body ! 3 \<noteq> 0x00 \<and> body ! 3 \<noteq> 0x02 then None
      else Some \<lparr>bf_source_mac = source_mac, bf_bridge_id = format_bridge_id (take 8 (drop 17 body)),
                 bf_root_id = format_bridge_id (take 8 (drop 5 body)), bf_port_id = u16_at body 25,
                 bf_vlan = None\<rparr>)"

text \<open>The loop over the padding: \<open>0..=MAX_PADDING_WORDS\<close> has nine turns.\<close>

fun pvst_tlv :: "nat \<Rightarrow> nat \<Rightarrow> bytes \<Rightarrow> u16 option" where
  "pvst_tlv 0 at body = None"
| "pvst_tlv (Suc n) at body =
     (case read_u16 body at of
        None \<Rightarrow> None
      | Some tlv_type \<Rightarrow>
          if tlv_type \<noteq> 0 then None
          else case read_u16 body (at + 2) of
                 None \<Rightarrow> None
               | Some len \<Rightarrow>
                   if len = 0 then pvst_tlv n (at + 2) body
                   else if len = 2
                   then (case read_u16 body (at + 4) of
                           None \<Rightarrow> None
                         | Some vlan \<Rightarrow> if vlan \<noteq> 0 \<and> vlan \<noteq> 0x0FFF then Some vlan else None)
                   else None)"

definition pvst_originating_vlan :: "bytes \<Rightarrow> u16 option" where
  "pvst_originating_vlan body = pvst_tlv 9 35 body"

definition decode_pvst :: "string \<Rightarrow> bytes \<Rightarrow> frame_fact list" where
  "decode_pvst source_mac payload =
     (if length payload < 8 then []
      else if take 3 (drop 3 payload) \<noteq> CISCO_SNAP_OUI then []
      else if u16_at payload 6 \<noteq> PVST_SNAP_PID then []
      else
        let body = drop 8 payload in
        case decode_bpdu source_mac body of
          None \<Rightarrow> []
        | Some bridge \<Rightarrow>
            let vlan = pvst_originating_vlan body in
            [FBridge (case vlan of Some i \<Rightarrow> bridge\<lparr>bf_vlan := Some i\<rparr> | None \<Rightarrow> bridge)] @
            (case vlan of Some i \<Rightarrow> [FVlan i] | None \<Rightarrow> []))"

definition decode_arp :: "bytes \<Rightarrow> frame_fact option" where
  "decode_arp payload =
     (if length payload < 28 then None
      else if u16_at payload 2 \<noteq> ETHERTYPE_IPV4 \<or> payload ! 4 \<noteq> 6 \<or> payload ! 5 \<noteq> 4 then None
      else
        let address = u32_at payload 14
        in if is_unspecified4 address then None
           else Some (FArp (mac_text (take 6 (drop 8 payload))) address))"

section \<open>The control plane\<close>

definition split_isis_prefixes :: "isis_pdu \<Rightarrow> promoted_prefix list \<times> reported_prefix list" where
  "split_isis_prefixes pdu =
     (let described = (\<lambda>p. rp_tlv p @ '', metric '' @ decimal (uint (rp_metric p)) @
            (case rp_topology p of Some t \<Rightarrow> '', topology '' @ decimal (uint t) | None \<Rightarrow> []))
      in if ip_unverifiable_authentication pdu
         then ([], map (\<lambda>p. (rp_prefix p, described p @ '', authentication could not be verified'')) (ip_prefixes pdu))
         else (map (\<lambda>p. (rp_prefix p, rp_metric p, described p)) (ip_prefixes pdu), []))"

definition isis_fact :: "string \<Rightarrow> isis_pdu \<Rightarrow> control_plane" where
  "isis_fact source_mac pdu =
     (let (current, reported_only) = split_isis_prefixes pdu
      in \<lparr>cp_sender_mac = source_mac, cp_sender = None, cp_protocol = ''IS-IS'',
          cp_identity = ip_system_id pdu,
          cp_scope = (if ip_areas pdu = [] then ip_level pdu
                      else ip_level pdu @ '' area '' @ join_with '', '' (ip_areas pdu)),
          cp_hello = ip_hello pdu, cp_verifiable = (\<not> ip_unverifiable_authentication pdu),
          cp_current = current, cp_reported_only = reported_only,
          cp_sequences = (case ip_sequence pdu of Some s \<Rightarrow> [s] | None \<Rightarrow> [])\<rparr>)"

definition described_lsa :: "advertised_prefix \<Rightarrow> string" where
  "described_lsa p = ap_lsa_type p @ '' LSA, metric '' @ decimal (uint (ap_metric p))"

definition control_plane_fact :: "string \<Rightarrow> ip_addr option \<Rightarrow> ospf_packet \<Rightarrow> control_plane" where
  "control_plane_fact source_mac sender packet =
     (let verifiable = routes_are_verifiable (op_authentication packet);
          promotable = (\<lambda>p. verifiable \<and> \<not> ap_withdrawn p)
      in \<lparr>cp_sender_mac = source_mac, cp_sender = sender, cp_protocol = op_protocol packet,
          cp_identity = ipv4_to_string (op_router_id packet),
          cp_scope = ''area '' @ ipv4_to_string (op_area packet), cp_hello = op_hello packet,
          cp_verifiable = verifiable,
          cp_current = map (\<lambda>p. (ap_prefix p, ap_metric p, described_lsa p)) (filter promotable (op_prefixes packet)),
          cp_reported_only =
            map (\<lambda>p. (ap_prefix p,
                    if ap_withdrawn p then described_lsa p @ '', at MaxAge (withdrawn)''
                    else described_lsa p @ '', '' @ auth_label (op_authentication packet) @
                         '' authentication could not be verified''))
              (filter (\<lambda>p. \<not> promotable p) (op_prefixes packet)),
          cp_sequences = op_sequences packet\<rparr>)"

section \<open>RIP\<close>

definition decode_rip_v2 :: "ipnet_ops \<Rightarrow> string \<Rightarrow> 32 word \<Rightarrow> bytes \<Rightarrow> routing_update option" where
  "decode_rip_v2 ops source_mac sender body =
     (case parse_response ops body of
        None \<Rightarrow> None
      | Some entries \<Rightarrow>
          if entries = [] then None
          else Some
            \<lparr>ru_sender_mac = source_mac, ru_sender = V4 sender, ru_protocol = ''RIPv2'',
             ru_routes = map (\<lambda>e. (rr_prefix e, rr_next_hop e, rr_metric e, rr_tag e, rr_raw_entry e))
               (filter is_reachable entries),
             ru_withdrawn = map (\<lambda>e. (rr_prefix e, rr_raw_entry e)) (filter (\<lambda>e. \<not> is_reachable e) entries)\<rparr>)"

definition classify_rip :: "ipnet_ops \<Rightarrow> string \<Rightarrow> 32 word \<Rightarrow> bytes \<Rightarrow> frame_fact" where
  "classify_rip ops source_mac sender body =
     (if body \<noteq> [] \<and> hd body = 1 \<and> 4 \<le> length body \<and> body ! 1 = 2 then FRoutingRequest source_mac ''RIPv2''
      else if body \<noteq> [] \<and> hd body = 2
      then (case decode_rip_v2 ops source_mac sender body of
              Some u \<Rightarrow> FRoutingUpdate u
            | None \<Rightarrow> FRoutingUpdateRejected source_mac ''RIPv2'')
      else FRoutingUpdateRejected source_mac ''RIPv2'')"

text \<open>One entry: the next hop in force, the routes and the withdrawals so far.\<close>

definition ripng_entry ::
    "ipnet_ops \<Rightarrow> bytes \<Rightarrow> ip_addr option \<times> advertised_route list \<times> (ip_net \<times> bytes) list \<Rightarrow>
     ip_addr option \<times> advertised_route list \<times> (ip_net \<times> bytes) list" where
  "ripng_entry ops entry s =
     (let (next_hop, routes, withdrawn) = s; address = ipv6_of_bytes (take 16 entry);
          tag = u16_at entry 16; prefix_len = entry ! 18; metric = entry ! 19
      in if metric = 0xFF
         then (if tag = 0 \<and> prefix_len = 0 then if is_unspecified6 address then None else Some (V6 address)
               else next_hop, routes, withdrawn)
         else if 128 < prefix_len \<or> metric = 0 \<or> 16 < metric then s
         else
           let p = V6Net (trunc6 ops address (unat prefix_len)) (unat prefix_len)
           in if metric = 16 then (next_hop, routes, withdrawn @ [(p, entry)])
              else (next_hop, routes @ [(p, next_hop, ucast metric, tag, entry)], withdrawn))"

definition decode_ripng :: "ipnet_ops \<Rightarrow> string \<Rightarrow> 128 word \<Rightarrow> bytes \<Rightarrow> routing_update option" where
  "decode_ripng ops source_mac sender body =
     (if length body < 4 \<or> body ! 0 \<noteq> 2 \<or> body ! 1 \<noteq> 1 then None
      else if body ! 2 \<noteq> 0 \<or> body ! 3 \<noteq> 0 then None
      else
        let entries = drop 4 body
        in if entries = [] \<or> length entries mod 20 \<noteq> 0 then None
           else
             let (_, routes, withdrawn) = fold (ripng_entry ops) (chunks 20 entries) (None, [], [])
             in if routes = [] \<and> withdrawn = [] then None
                else Some \<lparr>ru_sender_mac = source_mac, ru_sender = V6 sender, ru_protocol = ''RIPng'',
                           ru_routes = routes, ru_withdrawn = withdrawn\<rparr>)"

section \<open>DHCP\<close>

function decode_classless_routes :: "bytes \<Rightarrow> (32 word \<times> nat \<times> 32 word) list" where
  "decode_classless_routes value =
     (case value of
        [] \<Rightarrow> []
      | n # rest \<Rightarrow>
          if 32 < n then []
          else
            let significant = (unat n + 7) div 8
            in if length rest < significant + 4 then []
               else (u32_at (take significant rest @ replicate (4 - significant) 0) 0, unat n,
                     u32_at (drop significant rest) 0) #
                    decode_classless_routes (drop (significant + 4) rest))"
  by pat_completeness auto

termination decode_classless_routes
  by (relation "measure length") auto

declare decode_classless_routes.simps [simp del]

record dhcp_options =
  do_subnet_mask :: "32 word option"
  do_routers :: "32 word list"
  do_classless_routes :: "(32 word \<times> nat \<times> 32 word) list"
  do_message_type :: "u8 option"

definition dhcp_option :: "u8 \<Rightarrow> bytes \<Rightarrow> dhcp_options \<Rightarrow> dhcp_options" where
  "dhcp_option code value s =
     (if code = 1 \<and> length value = 4 then s\<lparr>do_subnet_mask := Some (u32_at value 0)\<rparr>
      else if code = 3 then s\<lparr>do_routers := do_routers s @ map (\<lambda>c. u32_at c 0) (chunks 4 value)\<rparr>
      else if code = 53 \<and> length value = 1 then s\<lparr>do_message_type := Some (value ! 0)\<rparr>
      else if code = 121
      then s\<lparr>do_classless_routes := do_classless_routes s @ decode_classless_routes value\<rparr>
      else s)"

function dhcp_walk :: "bytes \<Rightarrow> dhcp_options \<Rightarrow> dhcp_options" where
  "dhcp_walk [] s = s"
| "dhcp_walk (code # rest) s =
     (if code = 255 then s
      else if code = 0 then dhcp_walk rest s
      else case rest of
             [] \<Rightarrow> s
           | len # values \<Rightarrow>
               if length values < unat len then s
               else dhcp_walk (drop (unat len) values) (dhcp_option code (take (unat len) values) s))"
  by pat_completeness auto

termination dhcp_walk
  by (relation "measure (length \<circ> fst)") auto

definition decode_dhcp :: "string \<Rightarrow> bytes \<Rightarrow> dhcp_fact option" where
  "decode_dhcp server_mac body =
     (if length body < 240 then None
      else if body ! 0 \<noteq> 2 then None
      else if body ! 1 \<noteq> 1 \<or> body ! 2 \<noteq> 6 then None
      else if take 4 (drop 236 body) \<noteq> [0x63, 0x82, 0x53, 0x63] then None
      else
        let yiaddr = u32_at body 16;
            opts = dhcp_walk (drop 240 body)
                     \<lparr>do_subnet_mask = None, do_routers = [], do_classless_routes = [], do_message_type = None\<rparr>
        in if do_subnet_mask opts = None \<and> do_routers opts = [] \<and> do_classless_routes opts = [] then None
           else Some
             \<lparr>df_server_mac = server_mac,
              df_assigned = (if is_unspecified4 yiaddr then None else Some yiaddr),
              df_subnet_mask = do_subnet_mask opts, df_routers = do_routers opts,
              df_classless_routes = do_classless_routes opts, df_message_type = do_message_type opts,
              df_relayed = (\<not> is_unspecified4 (u32_at body 24))\<rparr>)"

section \<open>IP\<close>

definition decode_ipv4 :: "ipnet_ops \<Rightarrow> string \<Rightarrow> bytes \<Rightarrow> frame_fact list" where
  "decode_ipv4 ops source_mac payload =
     (if length payload < 20 then []
      else
        let ihl = unat (payload ! 0 AND 0x0F) * 4
        in if ihl < 20 \<or> length payload < ihl + 8 then []
           else
             let source = u32_at payload 12; udp = drop ihl payload in
             if payload ! 9 = 89
             then [case parse_v2 ops udp of
                     Some packet \<Rightarrow> FControlPlane (control_plane_fact source_mac (Some (V4 source)) packet)
                   | None \<Rightarrow> FRoutingUpdateRejected source_mac ''OSPFv2'']
             else if payload ! 9 \<noteq> 17 then []
             else
               let src_port = u16_at udp 0; dst_port = u16_at udp 2; body = drop 8 udp in
               if (src_port, dst_port) \<in> {(67, 68), (68, 67), (67, 67)}
               then (case decode_dhcp source_mac body of Some f \<Rightarrow> [FDhcp f] | None \<Rightarrow> [])
               else if src_port = 520 \<or> dst_port = 520 then [classify_rip ops source_mac source body]
               else if src_port = 5678 \<or> dst_port = 5678
               then (case parse_mndp_packet body of Some n \<Rightarrow> [FMndp n] | None \<Rightarrow> [])
               else [])"

definition v6_prefix :: "ip_net \<Rightarrow> 128 word \<times> nat" where
  "v6_prefix p = (case p of V6Net a n \<Rightarrow> (a, n) | V4Net a n \<Rightarrow> (ucast a, n))"

definition advertisement_fact :: "ipnet_ops \<Rightarrow> string \<Rightarrow> bytes \<Rightarrow> ra_fact" where
  "advertisement_fact ops source_mac payload =
     (let source = ipv6_of_bytes (take 16 (drop 8 payload));
          parsed = parse_router_advertisement ops (drop 40 payload) source
                     (ipv6_of_bytes (take 16 (drop 24 payload))) (payload ! 7)
      in \<lparr>rf_router_mac = source_mac, rf_router_address = Some source,
          rf_prefixes = (case parsed of
             Some a \<Rightarrow> map (\<lambda>p. v6_prefix (pi_prefix p)) (on_link_prefixes a) | None \<Rightarrow> []),
          rf_routes = (case parsed of
             Some a \<Rightarrow> map (\<lambda>r. let (p, n) = v6_prefix (ri_prefix r) in (p, n, ri_lifetime r)) (usable_routes a)
           | None \<Rightarrow> [])\<rparr>)"

definition decode_ipv6 :: "ipnet_ops \<Rightarrow> string \<Rightarrow> bytes \<Rightarrow> frame_fact list" where
  "decode_ipv6 ops source_mac payload =
     (if length payload < 40 then []
      else
        let source = ipv6_of_bytes (take 16 (drop 8 payload)); inner = drop 40 payload in
        if payload ! 6 = 17 \<and> 48 \<le> length payload \<and> (u16_at inner 0 = 521 \<or> u16_at inner 2 = 521)
        then [case decode_ripng ops source_mac source (drop 8 inner) of
                Some u \<Rightarrow> FRoutingUpdate u
              | None \<Rightarrow> FRoutingUpdateRejected source_mac ''RIPng'']
        else if payload ! 6 = 89 \<and> 40 < length payload
        then [case parse_v3 ops inner of
                Some packet \<Rightarrow> FControlPlane (control_plane_fact source_mac (Some (V6 source)) packet)
              | None \<Rightarrow> FRoutingUpdateRejected source_mac ''OSPFv3'']
        else if payload ! 6 \<noteq> 58 then []
        else if length inner < 4 then []
        else if inner ! 0 = 134 then [FRouterAdvertisement (advertisement_fact ops source_mac payload)]
        else if inner ! 0 = 135
        then (if is_unspecified6 source then [] else [FNeighbor source_mac source False])
        else if inner ! 0 = 136
        then (if length inner < 24 then []
              else [FNeighbor source_mac (ipv6_of_bytes (take 16 (drop 8 inner))) (inner ! 4 AND 0x80 \<noteq> 0)])
        else [])"

function ra_prefixes_from :: "bytes \<Rightarrow> (128 word \<times> nat) list" where
  "ra_prefixes_from rest =
     (if length rest < 2 then []
      else
        let opt_len = unat (rest ! 1) * 8
        in if opt_len = 0 \<or> length rest < opt_len then []
           else (if rest ! 0 = 3 \<and> 32 \<le> opt_len \<and> rest ! 2 \<le> 128
                 then [(ipv6_of_bytes (take 16 (drop 16 rest)), unat (rest ! 2))] else []) @
                ra_prefixes_from (drop opt_len rest))"
  by pat_completeness auto

termination ra_prefixes_from
  by (relation "measure length") auto

declare ra_prefixes_from.simps [simp del]

definition decode_ra_prefixes :: "bytes \<Rightarrow> (128 word \<times> nat) list" where
  "decode_ra_prefixes icmp = ra_prefixes_from (drop 16 icmp)"

section \<open>Link layer\<close>

definition decode_llc :: "ipnet_ops \<Rightarrow> bytes \<Rightarrow> bytes \<Rightarrow> string \<Rightarrow> bytes \<Rightarrow> frame_fact list" where
  "decode_llc ops frame destination source_mac payload =
     (if length payload < 3 then []
      else
        let dsap = payload ! 0; ssap = payload ! 1 in
        if dsap = 0xFE \<and> ssap = 0xFE
        then [case parse_isis ops (drop 3 payload) of
                Some pdu \<Rightarrow> FControlPlane (isis_fact source_mac pdu)
              | None \<Rightarrow> FRoutingUpdateRejected source_mac ''IS-IS'']
        else if dsap = LLC_SAP_STP \<and> ssap = LLC_SAP_STP \<and> destination = STP_MULTICAST_MAC
        then (case decode_bpdu source_mac (drop 3 payload) of Some b \<Rightarrow> [FBridge b] | None \<Rightarrow> [])
        else if dsap = 0xAA \<and> ssap = 0xAA \<and> destination = CDP_MULTICAST_MAC \<and> parse_lldp_frame frame \<noteq> None
        then (case parse_lldp_frame frame of Some n \<Rightarrow> [FLinkLayerNeighbor n] | None \<Rightarrow> [])
        else if dsap = 0xAA \<and> ssap = 0xAA \<and> destination = PVST_MULTICAST_MAC
        then decode_pvst source_mac payload
        else [])"

text \<open>
  The tags of a frame: the VLANs they name, and where the type that follows them is read; nothing
  when a tag is cut short.
\<close>

definition is_tag :: "u16 option \<Rightarrow> bool" where
  "is_tag t \<longleftrightarrow> t \<in> {Some ETHERTYPE_VLAN, Some ETHERTYPE_QINQ_802_1AD, Some ETHERTYPE_QINQ_LEGACY}"

function unwrap_tags :: "bytes \<Rightarrow> nat \<Rightarrow> u16 list \<times> nat option" where
  "unwrap_tags frame off =
     (if \<not> is_tag (read_u16 frame off) then ([], Some off)
      else case read_u16 frame (off + 2) of
             None \<Rightarrow> ([], None)
           | Some tci \<Rightarrow>
               let vlan_id = tci AND 0x0FFF; (ids, rest) = unwrap_tags frame (off + 4)
               in (if vlan_id \<noteq> 0 \<and> vlan_id \<noteq> 0x0FFF then vlan_id # ids else ids, rest))"
  by pat_completeness auto

termination unwrap_tags
  by (relation "measure (\<lambda>(frame, off). length frame - off)") (auto simp: read_u16_def split: if_splits)

declare unwrap_tags.simps [simp del]

fun tag_of :: "frame_fact \<Rightarrow> u16 list" where
  "tag_of (FVlan i) = [i]"
| "tag_of _ = []"

definition joined_prefix :: "ipnet_ops \<Rightarrow> u16 \<Rightarrow> frame_fact \<Rightarrow> frame_fact list" where
  "joined_prefix ops vlan f =
     (case f of
        FDhcp d \<Rightarrow>
          (case (df_assigned d, df_subnet_mask d) of
             (Some address, Some netmask') \<Rightarrow>
               if df_message_type d = Some DHCP_ACK \<and> \<not> df_relayed d
               then (case contiguous_prefix_len netmask' of
                       Some n \<Rightarrow> if n \<le> 32 then [FVlanNetwork vlan (V4Net (trunc4 ops address n) n)] else []
                     | None \<Rightarrow> [])
               else []
           | _ \<Rightarrow> [])
      | _ \<Rightarrow> [])"

definition join_tagged_prefix :: "ipnet_ops \<Rightarrow> frame_fact list \<Rightarrow> frame_fact list" where
  "join_tagged_prefix ops facts =
     (case concat (map tag_of facts) of
        [vlan] \<Rightarrow> facts @ concat (map (joined_prefix ops vlan) facts)
      | _ \<Rightarrow> facts)"

definition decode_frame :: "ipnet_ops \<Rightarrow> bytes \<Rightarrow> frame_fact list" where
  "decode_frame ops frame =
     (if length frame < 14 then []
      else
        let destination = take 6 frame; source_mac = mac_text (take 6 (drop 6 frame));
            (ids, after_tags) = unwrap_tags frame 12; facts = map FVlan ids
        in case after_tags of
             None \<Rightarrow> facts
           | Some off \<Rightarrow>
               case read_u16 frame off of
                 None \<Rightarrow> facts
               | Some ethertype \<Rightarrow>
                   let payload = drop (off + 2) frame in
                   if ethertype \<le> MAX_802_3_LENGTH
                   then facts @ decode_llc ops frame destination source_mac payload
                   else join_tagged_prefix ops (facts @
                     (if ethertype = ETHERTYPE_ARP
                      then (case decode_arp payload of Some f \<Rightarrow> [f] | None \<Rightarrow> [])
                      else if ethertype = ETHERTYPE_IPV4 then decode_ipv4 ops source_mac payload
                      else if ethertype = ETHERTYPE_IPV6 then decode_ipv6 ops source_mac payload
                      else if ethertype = ETHERTYPE_LLDP
                      then (case parse_lldp_frame frame of Some n \<Rightarrow> [FLinkLayerNeighbor n] | None \<Rightarrow> [])
                      else [])))"

end
