(* ===== verification/Capture.thy ===== *)
theory Capture
  imports Net_Bytes
begin

text \<open>
  Where frames come from: the records of a BPF read buffer (\<open>src/src/net/capture.rs\<close>) and of a libpcap
  file (\<open>src/src/net/pcap.rs\<close>), with the errors that both report. A \<open>usize\<close> of 64 bits never overflows
  on the lengths of a buffer and a 32-bit field, so offsets are naturals. The layouts that the two
  readers undo are written out as \<open>bpf_record\<close> and \<open>pcap_file\<close>.
\<close>

section \<open>Errors\<close>

datatype capture_error = PermissionDenied | Unsupported string

fun explain_capture_error :: "capture_error \<Rightarrow> string" where
  "explain_capture_error PermissionDenied = ''raw link-layer capture requires elevated privileges''"
| "explain_capture_error (Unsupported why) = ''raw link-layer capture unavailable: '' @ why"

section \<open>Little-endian fields\<close>

definition u16_le_at :: "bytes \<Rightarrow> nat \<Rightarrow> u16" where
  "u16_le_at bs i = be16 (bs ! (i + 1)) (bs ! i)"

definition u32_le_at :: "bytes \<Rightarrow> nat \<Rightarrow> u32" where
  "u32_le_at bs i = be32 (bs ! (i + 3)) (bs ! (i + 2)) (bs ! (i + 1)) (bs ! i)"

section \<open>BPF buffers\<close>

definition BPF_HDR_MIN_LEN :: nat where "BPF_HDR_MIN_LEN = 18"

definition word_align :: "nat \<Rightarrow> nat" where
  "word_align len = (len + 3) div 4 * 4"

text \<open>The loop over the offset: what is left of the buffer at each turn.\<close>

function bpf_frames :: "bytes \<Rightarrow> bytes list" where
  "bpf_frames buffer =
     (if length buffer < BPF_HDR_MIN_LEN then []
      else
        let caplen = unat (u32_le_at buffer 8); hdrlen = unat (u16_le_at buffer 16)
        in if hdrlen < BPF_HDR_MIN_LEN \<or> caplen = 0 then []
           else if length buffer < hdrlen + caplen then []
           else
             let frame = take caplen (drop hdrlen buffer); advance = word_align (hdrlen + caplen)
             in if advance = 0 then [frame] else frame # bpf_frames (drop advance buffer))"
  by pat_completeness auto

termination bpf_frames
  by (relation "measure length") (auto simp: BPF_HDR_MIN_LEN_def)

declare bpf_frames.simps [simp del]

section \<open>Capture files\<close>

definition MAGIC_MICROSECONDS :: u32 where "MAGIC_MICROSECONDS = 0xa1b2c3d4"
definition MAGIC_MICROSECONDS_SWAPPED :: u32 where "MAGIC_MICROSECONDS_SWAPPED = 0xd4c3b2a1"
definition MAGIC_NANOSECONDS :: u32 where "MAGIC_NANOSECONDS = 0xa1b23c4d"
definition MAGIC_NANOSECONDS_SWAPPED :: u32 where "MAGIC_NANOSECONDS_SWAPPED = 0x4d3cb2a1"
definition LINKTYPE_ETHERNET :: u32 where "LINKTYPE_ETHERNET = 1"
definition FILE_HEADER_LEN :: nat where "FILE_HEADER_LEN = 24"
definition RECORD_HEADER_LEN :: nat where "RECORD_HEADER_LEN = 16"

record capture =
  ca_link_type :: u32
  ca_frames :: "bytes list"

definition pcap_word :: "bool \<Rightarrow> bytes \<Rightarrow> nat \<Rightarrow> u32" where
  "pcap_word swapped bytes at = (if swapped then u32_at bytes at else u32_le_at bytes at)"

function pcap_records :: "bool \<Rightarrow> nat \<Rightarrow> bytes \<Rightarrow> nat \<Rightarrow> bytes list \<Rightarrow> string + bytes list" where
  "pcap_records swapped snaplen bytes at frames =
     (if length bytes \<le> at then Inr frames
      else if length bytes < at + RECORD_HEADER_LEN
      then Inl (''record header truncated at byte '' @ decimal (int at))
      else
        let captured = unat (pcap_word swapped bytes (at + 8))
        in if max snaplen captured < captured \<or> 262144 < captured
           then Inl (''record at byte '' @ decimal (int at) @ '' declares an implausible length'')
           else
             let start = at + RECORD_HEADER_LEN; stop = start + captured
             in if length bytes < stop
                then Inl (''record at byte '' @ decimal (int at) @ '' declares '' @ decimal (int captured) @
                          '' bytes and the file holds '' @ decimal (int (length bytes - start)))
                else pcap_records swapped snaplen bytes stop (frames @ [take captured (drop start bytes)]))"
  by pat_completeness auto

termination pcap_records
  by (relation "measure (\<lambda>(swapped, snaplen, bytes, at, frames). length bytes - at)")
     (auto simp: RECORD_HEADER_LEN_def)

declare pcap_records.simps [simp del]

text \<open>\<open>format!("{other:#010x}")\<close>.\<close>

definition hex_u32 :: "u32 \<Rightarrow> string" where
  "hex_u32 w = ''0x'' @ concat (map hex_byte (u32_bytes w))"

definition pcap_swapped :: "u32 \<Rightarrow> bool option" where
  "pcap_swapped magic =
     (if magic = MAGIC_MICROSECONDS \<or> magic = MAGIC_NANOSECONDS then Some False
      else if magic = MAGIC_MICROSECONDS_SWAPPED \<or> magic = MAGIC_NANOSECONDS_SWAPPED then Some True
      else None)"

definition pcap_read :: "bytes \<Rightarrow> string + capture" where
  "pcap_read bytes =
     (if length bytes < FILE_HEADER_LEN then Inl ''shorter than a capture file header''
      else
        case pcap_swapped (u32_le_at bytes 0) of
          None \<Rightarrow> Inl (''not a libpcap capture: magic '' @ hex_u32 (u32_le_at bytes 0))
        | Some swapped \<Rightarrow>
            let link_type = pcap_word swapped bytes 20
            in if link_type \<noteq> LINKTYPE_ETHERNET
               then Inl (''link type '' @ decimal (uint link_type) @ '' is not Ethernet (DLT_EN10MB); '' @
                         ''its frames have a different header and decoding them as Ethernet would read '' @
                         ''arbitrary bytes as addresses'')
               else
                 case pcap_records swapped (unat (pcap_word swapped bytes 16)) bytes FILE_HEADER_LEN [] of
                   Inl err \<Rightarrow> Inl err
                 | Inr frames \<Rightarrow> Inr \<lparr>ca_link_type = link_type, ca_frames = frames\<rparr>)"

section \<open>The layouts\<close>

definition u16_le_bytes :: "u16 \<Rightarrow> bytes" where
  "u16_le_bytes w = rev (u16_bytes w)"

definition pcap_bytes :: "bool \<Rightarrow> u32 \<Rightarrow> bytes" where
  "pcap_bytes swapped w = (if swapped then u32_bytes w else rev (u32_bytes w))"

text \<open>One BPF record: its header (with \<open>extra\<close> bytes after the fields), the frame, padding.\<close>

definition bpf_record :: "bytes \<Rightarrow> u32 \<Rightarrow> bytes \<Rightarrow> bytes \<Rightarrow> bytes" where
  "bpf_record stamp datalen extra frame =
     (let unpadded = stamp @ rev (u32_bytes (word_of_nat (length frame))) @ rev (u32_bytes datalen) @
            u16_le_bytes (word_of_nat (18 + length extra)) @ extra @ frame
      in unpadded @ replicate (word_align (length unpadded) - length unpadded) 0)"

definition pcap_record :: "bool \<Rightarrow> bytes \<Rightarrow> u32 \<Rightarrow> bytes \<Rightarrow> bytes" where
  "pcap_record swapped stamp original frame =
     stamp @ pcap_bytes swapped (word_of_nat (length frame)) @ pcap_bytes swapped original @ frame"

definition pcap_file :: "bool \<Rightarrow> u32 \<Rightarrow> bytes \<Rightarrow> u32 \<Rightarrow> (bytes \<times> u32 \<times> bytes) list \<Rightarrow> bytes" where
  "pcap_file swapped magic version snaplen records =
     pcap_bytes swapped magic @ version @ pcap_bytes swapped snaplen @ pcap_bytes swapped LINKTYPE_ETHERNET @
     concat (map (\<lambda>(stamp, original, frame). pcap_record swapped stamp original frame) records)"

section \<open>Reading fields back\<close>

lemma be32_split:
  "ucast (drop_bit 24 (be32 a b c d)) = a" "ucast (drop_bit 16 (be32 a b c d)) = b"
  "ucast (drop_bit 8 (be32 a b c d)) = c" "ucast (be32 a b c d) = d"
  unfolding be32_def by (rule bit_word_eqI, auto simp: bit_simps dest: bit_imp_le_length)+

lemma be32_inject: "be32 a b c d = be32 a' b' c' d' \<longleftrightarrow> a = a' \<and> b = b' \<and> c = c' \<and> d = d'"
  by (metis be32_split)

lemma list_four:
  assumes "length bs = 4"
  obtains a b c d where "bs = [a, b, c, d]"
  using assms by (auto simp: numeral_eq_Suc length_Suc_conv)

lemma length_pcap_bytes [simp]: "length (pcap_bytes swapped w) = 4"
  by (simp add: pcap_bytes_def u32_bytes_def)

lemma pcap_word_placed:
  "at = length pre \<Longrightarrow> pcap_word swapped (pre @ pcap_bytes swapped w @ post) at = w"
  by (simp add: pcap_word_def pcap_bytes_def u32_at_def u32_le_at_def u32_bytes_def nth_append be32_bytes)

lemma pcap_word_slice:
  assumes "at + 4 \<le> length bs"
  shows "take 4 (drop at bs) = pcap_bytes swapped (pcap_word swapped bs at)"
proof -
  have "length (take 4 (drop at bs)) = 4" using assms by simp
  then obtain a b c d where q: "take 4 (drop at bs) = [a, b, c, d]" by (rule list_four)
  have "bs ! (at + i) = [a, b, c, d] ! i" if "i < 4" for i
    using that assms by (simp add: q [symmetric])
  from this [of 0] this [of 1] this [of 2] this [of 3]
  have "bs ! at = a" "bs ! (at + 1) = b" "bs ! (at + 2) = c" "bs ! (at + 3) = d" by simp_all
  then show ?thesis
    using q by (simp add: pcap_bytes_def pcap_word_def u32_at_def u32_le_at_def u32_bytes_def be32_split)
qed

section \<open>A capture file is read back exactly\<close>

definition pcap_body :: "bool \<Rightarrow> (bytes \<times> u32 \<times> bytes) list \<Rightarrow> bytes" where
  "pcap_body swapped records =
     concat (map (\<lambda>(stamp, original, frame). pcap_record swapped stamp original frame) records)"

definition recordable :: "bytes \<times> u32 \<times> bytes \<Rightarrow> bool" where
  "recordable r = (case r of (stamp, original, frame) \<Rightarrow> length stamp = 8 \<and> length frame \<le> 262144)"

definition payload_of :: "bytes \<times> u32 \<times> bytes \<Rightarrow> bytes" where
  "payload_of r = snd (snd r)"

lemma pcap_body_simps [simp]:
  "pcap_body swapped [] = []"
  "pcap_body swapped ((stamp, original, frame) # rs) = pcap_record swapped stamp original frame @ pcap_body swapped rs"
  by (simp_all add: pcap_body_def)

lemma payload_of_triple [simp]: "payload_of (stamp, original, frame) = frame"
  by (simp add: payload_of_def)

text \<open>What one turn of the loop needs of a record, and what it finds in the bytes when it takes one.\<close>

lemma pcap_records_step:
  assumes "length bytes \<ge> at + 16" and "captured = unat (pcap_word swapped bytes (at + 8))"
    and "captured \<le> 262144" and "at + 16 + captured \<le> length bytes"
  shows "pcap_records swapped snaplen bytes at frames =
    pcap_records swapped snaplen bytes (at + 16 + captured) (frames @ [take captured (drop (at + 16) bytes)])"
  using assms by (subst pcap_records.simps) (simp add: RECORD_HEADER_LEN_def Let_def)

lemma pcap_records_Inr:
  assumes "pcap_records swapped snaplen bytes at frames = Inr out" and "at < length bytes"
  obtains captured where "captured = unat (pcap_word swapped bytes (at + 8))" "captured \<le> 262144"
    "at + 16 + captured \<le> length bytes"
    "pcap_records swapped snaplen bytes (at + 16 + captured) (frames @ [take captured (drop (at + 16) bytes)]) = Inr out"
  using assms by (subst (asm) pcap_records.simps) (auto simp: RECORD_HEADER_LEN_def Let_def split: if_splits)

lemma pcap_records_complete:
  assumes "list_all recordable rs"
  shows "pcap_records swapped snaplen (pre @ pcap_body swapped rs) (length pre) frames =
    Inr (frames @ map payload_of rs)"
  using assms
proof (induction rs arbitrary: pre frames)
  case Nil
  then show ?case by (subst pcap_records.simps) simp
next
  case (Cons r rs)
  obtain stamp original frame where r: "r = (stamp, original, frame)" by (cases r)
  with Cons.prems have len: "length stamp = 8" "length frame \<le> 262144" by (simp_all add: recordable_def)
  let ?bytes = "pre @ pcap_body swapped (r # rs)" and ?pre = "pre @ pcap_record swapped stamp original frame"
  have "?bytes = (pre @ stamp) @ pcap_bytes swapped (word_of_nat (length frame)) @
      (pcap_bytes swapped original @ frame @ pcap_body swapped rs)"
    by (simp add: r pcap_record_def)
  then have "pcap_word swapped ?bytes (length pre + 8) = word_of_nat (length frame)"
    using pcap_word_placed [of "length pre + 8" "pre @ stamp"] len by simp
  then have captured: "unat (pcap_word swapped ?bytes (length pre + 8)) = length frame"
    using len by (simp add: unat_of_nat take_bit_eq_mod)
  have frame: "take (length frame) (drop (length pre + 16) ?bytes) = frame"
    using len by (simp add: r pcap_record_def)
  have "pcap_records swapped snaplen ?bytes (length pre) frames =
      pcap_records swapped snaplen ?bytes (length pre + 16 + length frame) (frames @ [frame])"
    by (subst pcap_records_step [OF _ captured [symmetric]])
       (use len in \<open>simp_all add: frame\<close>, simp_all add: r pcap_record_def)
  also have "\<dots> = pcap_records swapped snaplen (?pre @ pcap_body swapped rs) (length ?pre) (frames @ [frame])"
    using len by (simp add: r pcap_record_def add.assoc)
  also have "\<dots> = Inr (frames @ map payload_of (r # rs))"
    using Cons.IH [of ?pre] Cons.prems by (simp add: r)
  finally show ?case .
qed

lemma drop_cut: "m = at + n \<Longrightarrow> drop at bs = take n (drop at bs) @ drop m bs"
  by (metis add.commute append_take_drop_id drop_drop)

lemma pcap_record_found:
  assumes "captured = unat (pcap_word swapped bytes (at + 8))" and "at + 16 + captured \<le> length bytes"
  shows "drop at bytes = pcap_record swapped (take 8 (drop at bytes)) (pcap_word swapped bytes (at + 12))
      (take captured (drop (at + 16) bytes)) @ drop (at + 16 + captured) bytes"
proof -
  have "drop at bytes = take 8 (drop at bytes) @ drop (at + 8) bytes" by (rule drop_cut) simp
  also have "drop (at + 8) bytes = take 4 (drop (at + 8) bytes) @ drop (at + 12) bytes" by (rule drop_cut) simp
  also have "drop (at + 12) bytes = take 4 (drop (at + 12) bytes) @ drop (at + 16) bytes" by (rule drop_cut) simp
  also have "drop (at + 16) bytes = take captured (drop (at + 16) bytes) @ drop (at + 16 + captured) bytes"
    by (rule drop_cut) simp
  finally have "drop at bytes = take 8 (drop at bytes) @ take 4 (drop (at + 8) bytes) @
      take 4 (drop (at + 12) bytes) @ take captured (drop (at + 16) bytes) @ drop (at + 16 + captured) bytes" .
  moreover have "word_of_nat (length (take captured (drop (at + 16) bytes))) = pcap_word swapped bytes (at + 8)"
    using assms by simp
  ultimately show ?thesis
    using assms(2) by (simp add: pcap_record_def pcap_word_slice [of _ bytes swapped])
qed

lemma pcap_records_sound:
  assumes "pcap_records swapped snaplen bytes at frames = Inr out" and "at \<le> length bytes"
  shows "\<exists>rs. list_all recordable rs \<and> drop at bytes = pcap_body swapped rs \<and> out = frames @ map payload_of rs"
  using assms
proof (induction "length bytes - at" arbitrary: at frames rule: less_induct)
  case less
  show ?case
  proof (cases "at = length bytes")
    case True
    with less.prems have "out = frames" by (subst (asm) pcap_records.simps) simp
    with True show ?thesis by (intro exI [of _ "[]"]) simp
  next
    case False
    then have "at < length bytes" using less.prems(2) by simp
    with less.prems(1) obtain captured where c: "captured = unat (pcap_word swapped bytes (at + 8))"
      "captured \<le> 262144" "at + 16 + captured \<le> length bytes"
      and more_records: "pcap_records swapped snaplen bytes (at + 16 + captured)
        (frames @ [take captured (drop (at + 16) bytes)]) = Inr out"
      by (rule pcap_records_Inr)
    let ?r = "(take 8 (drop at bytes), pcap_word swapped bytes (at + 12), take captured (drop (at + 16) bytes))"
    obtain rs where rs: "list_all recordable rs" "drop (at + 16 + captured) bytes = pcap_body swapped rs"
      "out = (frames @ [take captured (drop (at + 16) bytes)]) @ map payload_of rs"
      using less.hyps [OF diff_less_mono2 more_records c(3)] \<open>at < length bytes\<close> by auto
    have "recordable ?r" using c by (simp add: recordable_def)
    moreover have "drop at bytes = pcap_body swapped (?r # rs)"
      using pcap_record_found [OF c(1,3)] rs(2) by simp
    ultimately show ?thesis using rs by (intro exI [of _ "?r # rs"]) simp
  qed
qed

lemma magic_bytes:
  "MAGIC_MICROSECONDS = be32 0xa1 0xb2 0xc3 0xd4" "MAGIC_MICROSECONDS_SWAPPED = be32 0xd4 0xc3 0xb2 0xa1"
  "MAGIC_NANOSECONDS = be32 0xa1 0xb2 0x3c 0x4d" "MAGIC_NANOSECONDS_SWAPPED = be32 0x4d 0x3c 0xb2 0xa1"
  by code_simp+

lemma pcap_swapped_iff:
  "pcap_swapped (u32_le_at bytes 0) = Some swapped \<longleftrightarrow>
     pcap_word swapped bytes 0 \<in> {MAGIC_MICROSECONDS, MAGIC_NANOSECONDS}"
  by (cases swapped)
     (auto simp: pcap_swapped_def pcap_word_def u32_at_def u32_le_at_def magic_bytes be32_inject)

text \<open>A file that is read has the layout, and a file with the layout is read.\<close>

lemma pcap_read_sound:
  assumes "pcap_read bytes = Inr c"
  shows "\<exists>swapped magic version snaplen records.
    magic \<in> {MAGIC_MICROSECONDS, MAGIC_NANOSECONDS} \<and> length version = 12 \<and> list_all recordable records \<and>
    bytes = pcap_file swapped magic version snaplen records \<and>
    c = \<lparr>ca_link_type = LINKTYPE_ETHERNET, ca_frames = map payload_of records\<rparr>"
proof -
  from assms obtain swapped frames where len: "24 \<le> length bytes"
    and sw: "pcap_swapped (u32_le_at bytes 0) = Some swapped"
    and link: "pcap_word swapped bytes 20 = LINKTYPE_ETHERNET"
    and rec: "pcap_records swapped (unat (pcap_word swapped bytes 16)) bytes 24 [] = Inr frames"
    and c: "c = \<lparr>ca_link_type = LINKTYPE_ETHERNET, ca_frames = frames\<rparr>"
    by (auto simp: pcap_read_def FILE_HEADER_LEN_def Let_def split: if_splits option.splits sum.splits)
  from pcap_records_sound [OF rec len] obtain rs where rs: "list_all recordable rs"
    "drop 24 bytes = pcap_body swapped rs" "frames = map payload_of rs" by auto
  have "bytes = take 4 (drop 0 bytes) @ drop 4 bytes" using drop_cut [of 4 0 4 bytes] by simp
  also have "drop 4 bytes = take 12 (drop 4 bytes) @ drop 16 bytes" by (rule drop_cut) simp
  also have "drop 16 bytes = take 4 (drop 16 bytes) @ drop 20 bytes" by (rule drop_cut) simp
  also have "drop 20 bytes = take 4 (drop 20 bytes) @ drop 24 bytes" by (rule drop_cut) simp
  finally have "bytes = pcap_file swapped (pcap_word swapped bytes 0) (take 12 (drop 4 bytes))
      (pcap_word swapped bytes 16) rs"
    unfolding pcap_file_def pcap_body_def [symmetric] rs(2) [symmetric] link [symmetric]
    using pcap_word_slice [of 0 bytes swapped] pcap_word_slice [of 16 bytes swapped]
      pcap_word_slice [of 20 bytes swapped] len by simp
  with sw [unfolded pcap_swapped_iff] rs c len show ?thesis
    by (intro exI [of _ swapped] exI [of _ "pcap_word swapped bytes 0"] exI [of _ "take 12 (drop 4 bytes)"]
        exI [of _ "pcap_word swapped bytes 16"] exI [of _ rs]) simp
qed

lemma pcap_read_complete:
  assumes "magic \<in> {MAGIC_MICROSECONDS, MAGIC_NANOSECONDS}" and "length version = 12"
    and "list_all recordable records"
  shows "pcap_read (pcap_file swapped magic version snaplen records) =
    Inr \<lparr>ca_link_type = LINKTYPE_ETHERNET, ca_frames = map payload_of records\<rparr>"
proof -
  let ?pre = "pcap_bytes swapped magic @ version @ pcap_bytes swapped snaplen @ pcap_bytes swapped LINKTYPE_ETHERNET"
  have layout: "pcap_file swapped magic version snaplen records = ?pre @ pcap_body swapped records"
    by (simp add: pcap_file_def pcap_body_def)
  have "pcap_word swapped (?pre @ pcap_body swapped records) 0 = magic"
    using pcap_word_placed [of 0 "[]"] by simp
  moreover have "pcap_word swapped (?pre @ pcap_body swapped records) 20 = LINKTYPE_ETHERNET"
    using pcap_word_placed [of 20 "pcap_bytes swapped magic @ version @ pcap_bytes swapped snaplen"] assms(2)
    by simp
  moreover have "pcap_records swapped k (?pre @ pcap_body swapped records) 24 [] = Inr (map payload_of records)" for k
    using pcap_records_complete [OF assms(3), of swapped k ?pre "[]"] assms(2) by simp
  ultimately show ?thesis
    using assms(1,2) pcap_swapped_iff [of "?pre @ pcap_body swapped records" swapped]
    unfolding layout pcap_read_def by (simp add: FILE_HEADER_LEN_def)
qed

text \<open>
  C38: \<open>pcap_read\<close> accepts exactly the libpcap files of Ethernet frames, in either byte order and either
  resolution of the clock, whose records are complete and hold at most 262144 bytes, and it returns
  their frames in the order of the file; every other file is an error.
\<close>

theorem capture_file_exact:
  "pcap_read bytes = Inr c \<longleftrightarrow>
     (\<exists>swapped magic version snaplen records.
        magic \<in> {MAGIC_MICROSECONDS, MAGIC_NANOSECONDS} \<and> length version = 12 \<and> list_all recordable records \<and>
        bytes = pcap_file swapped magic version snaplen records \<and>
        c = \<lparr>ca_link_type = LINKTYPE_ETHERNET, ca_frames = map payload_of records\<rparr>)"
proof (intro iffI)
  assume "pcap_read bytes = Inr c"
  then show "\<exists>swapped magic version snaplen records.
      magic \<in> {MAGIC_MICROSECONDS, MAGIC_NANOSECONDS} \<and> length version = 12 \<and> list_all recordable records \<and>
      bytes = pcap_file swapped magic version snaplen records \<and>
      c = \<lparr>ca_link_type = LINKTYPE_ETHERNET, ca_frames = map payload_of records\<rparr>"
    by (rule pcap_read_sound)
qed (use pcap_read_complete in blast)

section \<open>A read buffer is split at its records\<close>

lemma word_align_bounds: "n \<le> word_align n" "word_align n < n + 4"
  unfolding word_align_def by linarith+

lemma bpf_fields:
  assumes "length stamp = 8"
  shows "u32_le_at (stamp @ rev (u32_bytes v) @ rev (u32_bytes datalen) @ u16_le_bytes h @ rest) 8 = v"
    and "u16_le_at (stamp @ rev (u32_bytes v) @ rev (u32_bytes datalen) @ u16_le_bytes h @ rest) 16 = h"
  using assms
  by (simp_all add: u32_le_at_def u16_le_at_def u16_le_bytes_def u32_bytes_def u16_bytes_def nth_append
        be32_bytes be16_bytes)

lemma bpf_frames_record:
  assumes "length stamp = 8" and "18 + length extra < 65536" and "0 < length frame" "length frame < 2 ^ 32"
  shows "bpf_frames (bpf_record stamp datalen extra frame @ tail) = frame # bpf_frames tail"
proof -
  define head where "head = stamp @ rev (u32_bytes (word_of_nat (length frame))) @ rev (u32_bytes datalen) @
    u16_le_bytes (word_of_nat (18 + length extra)) @ extra"
  have len: "length head = 18 + length extra"
    using assms(1) by (simp add: head_def u32_bytes_def u16_le_bytes_def u16_bytes_def)
  define pad :: bytes where "pad = replicate (word_align (length head + length frame) - (length head + length frame)) 0"
  have rec: "bpf_record stamp datalen extra frame = head @ frame @ pad"
    by (simp add: bpf_record_def Let_def head_def pad_def add.assoc)
  have "u32_le_at (head @ frame @ pad @ tail) 8 = word_of_nat (length frame)"
    "u16_le_at (head @ frame @ pad @ tail) 16 = word_of_nat (length head)"
    unfolding len unfolding head_def append_assoc using assms(1) by (rule bpf_fields)+
  then have fields: "unat (u32_le_at (head @ frame @ pad @ tail) 8) = length frame"
    "unat (u16_le_at (head @ frame @ pad @ tail) 16) = length head"
    using assms(2,4) unfolding len [symmetric] by (simp_all add: unat_of_nat take_bit_eq_mod)
  have "drop (word_align (length head + length frame)) (head @ frame @ pad @ tail) = tail"
    using word_align_bounds(1) [of "length head + length frame"] by (simp add: pad_def)
  moreover have "word_align (length head + length frame) \<noteq> 0"
    using word_align_bounds(1) [of "length head + length frame"] assms(3) by linarith
  ultimately show ?thesis
    unfolding rec append_assoc using assms(3)
    by (subst bpf_frames.simps) (simp add: fields Let_def BPF_HDR_MIN_LEN_def len)
qed

definition deliverable :: "bytes \<times> u32 \<times> bytes \<times> bytes \<Rightarrow> bool" where
  "deliverable r = (case r of (stamp, datalen, extra, frame) \<Rightarrow>
     length stamp = 8 \<and> 18 + length extra < 65536 \<and> 0 < length frame \<and> length frame < 2 ^ 32)"

text \<open>
  However many records a BPF read delivers, and whatever the length of each one's header, \<open>bpf_frames\<close>
  returns each record's frame, whole and in order, and goes on to what follows the last of them.
\<close>

theorem bpf_buffer_split:
  assumes "list_all deliverable records"
  shows "bpf_frames (concat (map (\<lambda>(stamp, datalen, extra, frame). bpf_record stamp datalen extra frame) records) @ tail) =
    map (\<lambda>(stamp, datalen, extra, frame). frame) records @ bpf_frames tail"
  using assms
proof (induction records)
  case (Cons r rs)
  obtain stamp datalen extra frame where r: "r = (stamp, datalen, extra, frame)" by (cases r)
  with Cons.prems
  have "length stamp = 8" "18 + length extra < 65536" "0 < length frame" "length frame < 2 ^ 32"
    by (simp_all add: deliverable_def)
  note step = bpf_frames_record [OF this]
  show ?case using Cons step by (simp add: r)
qed simp

theorem bpf_buffer_split_witness:
  "bpf_frames (bpf_record (replicate 8 0) 3 [9, 9] [1, 2, 3] @ bpf_record (replicate 8 0) 60 [] [7] @ [0, 0]) =
    [[1, 2, 3], [7]]"
  using bpf_buffer_split [of "[(replicate 8 0, 3, [9, 9], [1, 2, 3]), (replicate 8 0, 60, [], [7])]" "[0, 0]"]
  by (simp add: deliverable_def bpf_frames.simps [of "[0, 0]"] BPF_HDR_MIN_LEN_def)

end
