(* ===== verification/Passive_Source.thy ===== *)
theory Passive_Source
  imports Frames Graph_Query Capture
begin

text \<open>
  The passive source of evidence (\<open>src/src/providers/passive.rs\<close>): the tally of the routing control
  plane, the conversion of frame facts into graded evidence, and the observation that the engine
  drains and finishes while the capture thread fills its buffer. The clock is an argument: the time of
  the \<open>i\<close>-th record that a conversion makes. How \<open>ipnet\<close> prints a prefix, and whether one contains an
  address, are arguments as well.
\<close>

section \<open>The tally\<close>

record rip_tally =
  ta_datagrams :: u64
  ta_updates :: u64
  ta_routes :: u64
  ta_withdrawals :: u64
  ta_requests :: u64
  ta_local_requests :: u64
  ta_control_packets :: u64
  ta_control_hellos :: u64
  ta_control_prefixes :: u64
  ta_control_reported_only :: u64
  ta_control_invalid :: u64

definition tally_default :: rip_tally where
  "tally_default =
     \<lparr>ta_datagrams = 0, ta_updates = 0, ta_routes = 0, ta_withdrawals = 0, ta_requests = 0,
      ta_local_requests = 0, ta_control_packets = 0, ta_control_hellos = 0, ta_control_prefixes = 0,
      ta_control_reported_only = 0, ta_control_invalid = 0\<rparr>"

fun note_fact :: "string option \<Rightarrow> frame_fact \<Rightarrow> rip_tally \<Rightarrow> rip_tally" where
  "note_fact local_mac (FRoutingRequest sender_mac protocol) t =
     t\<lparr>ta_datagrams := ta_datagrams t + 1, ta_requests := ta_requests t + 1,
       ta_local_requests := ta_local_requests t +
         (case local_mac of
            Some l \<Rightarrow> if to_ascii_lowercase l = to_ascii_lowercase sender_mac then 1 else 0
          | None \<Rightarrow> 0)\<rparr>"
| "note_fact local_mac (FRoutingUpdate u) t =
     t\<lparr>ta_datagrams := ta_datagrams t + 1, ta_updates := ta_updates t + 1,
       ta_routes := ta_routes t + word_of_nat (length (ru_routes u)),
       ta_withdrawals := ta_withdrawals t + word_of_nat (length (ru_withdrawn u))\<rparr>"
| "note_fact local_mac (FRoutingUpdateRejected sender_mac protocol) t =
     (if starts_with protocol ''RIP'' then t\<lparr>ta_datagrams := ta_datagrams t + 1\<rparr>
      else t\<lparr>ta_control_invalid := ta_control_invalid t + 1\<rparr>)"
| "note_fact local_mac (FControlPlane c) t =
     t\<lparr>ta_control_packets := ta_control_packets t + 1,
       ta_control_hellos := ta_control_hellos t + (if cp_hello c then 1 else 0),
       ta_control_prefixes := ta_control_prefixes t + word_of_nat (length (cp_current c)),
       ta_control_reported_only := ta_control_reported_only t + word_of_nat (length (cp_reported_only c))\<rparr>"
| "note_fact local_mac _ t = t"

definition describe_control_plane :: "rip_tally \<Rightarrow> string" where
  "describe_control_plane t =
     (let packets = ta_control_packets t; invalid = ta_control_invalid t
      in if packets = 0 \<and> invalid = 0 then ''no OSPF or IS-IS packets observed''
         else decimal (uint packets) @ '' packet(s) ('' @ decimal (uint (ta_control_hellos t)) @
              '' hello(s)), '' @ decimal (uint (ta_control_prefixes t)) @ '' prefix(es) promoted, '' @
              decimal (uint (ta_control_reported_only t)) @ '' reported without promotion, '' @
              decimal (uint invalid) @ '' failed validation'')"

definition describe_tally :: "rip_tally \<Rightarrow> string" where
  "describe_tally t =
     (let datagrams = ta_datagrams t; updates = ta_updates t; requests = ta_requests t;
          own = ta_local_requests t;
          invalid = (if updates + requests \<le> datagrams then datagrams - (updates + requests) else 0)
      in if datagrams = 0 then ''no valid updates observed (0 datagrams on UDP 520/521)''
         else if updates = 0
         then let said =
                (if 0 < own then [decimal (uint own) @ '' locally generated request(s) observed''] else []) @
                (if own < requests then [decimal (uint (requests - own)) @ '' request(s) from the link''] else []) @
                (if 0 < invalid then [decimal (uint invalid) @ '' datagram(s) failed validation''] else [])
              in ''0 routing updates received'' @ (if said = [] then [] else ''; '' @ join_with '', '' said)
         else decimal (uint updates) @ '' update(s) from '' @ decimal (uint datagrams) @ '' datagram(s): '' @
              decimal (uint (ta_routes t)) @ '' route(s), '' @ decimal (uint (ta_withdrawals t)) @ '' withdrawal(s)'')"

section \<open>Conversion\<close>

text \<open>A record before it is stamped: its fact, source, grade and detail.\<close>

type_synonym emitted = "fact \<times> evidence_source \<times> confidence \<times> string option"

definition hex_u16 :: "u16 \<Rightarrow> string" where
  "hex_u16 w = ''0x'' @ concat (map hex_byte (u16_bytes w))"

definition hex_spaced :: "bytes \<Rightarrow> string" where
  "hex_spaced bs = join_with '' '' (map hex_byte bs)"

definition convert_bridge :: "bridge_fact \<Rightarrow> emitted list" where
  "convert_bridge b =
     (let device = (case bridge_identity (bf_bridge_id b) of
                      Some d \<Rightarrow> d | None \<Rightarrow> device_key_mac (bf_source_mac b));
          inst = (case bf_vlan b of Some i \<Rightarrow> '', VLAN instance '' @ decimal (uint i) | None \<Rightarrow> [])
      in [(DeviceRoleSignal device SpanningTreeBridge, Stp, Observed,
             Some (''BPDU from bridge '' @ bf_bridge_id b @ '' via port '' @ hex_u16 (bf_port_id b) @
                   '' (source '' @ bf_source_mac b @ '')'' @ inst)),
          (fact.BridgeLink (bf_bridge_id b) (bf_root_id b) (Some (hex_u16 (bf_port_id b))), Stp, Advertised,
             Some (''bridge '' @ bf_bridge_id b @ '' names spanning-tree root '' @ bf_root_id b @ inst))])"

definition convert_dhcp :: "ipnet_ops \<Rightarrow> dhcp_fact \<Rightarrow> emitted list" where
  "convert_dhcp ops d =
     (case (df_assigned d, df_subnet_mask d) of
        (Some a, Some m) \<Rightarrow>
          (case contiguous_prefix_len m of
             Some n \<Rightarrow>
               if 1 \<le> n \<and> n \<le> 32
               then [(fact.Network (V4Net (trunc4 ops a n) n), DhcpLease, Advertised, Some ''DHCP option 1 subnet mask'')]
               else []
           | None \<Rightarrow> [])
      | _ \<Rightarrow> []) @
     concat (map (\<lambda>r.
       [(DeviceAddress (Address (V4 r)) (V4 r), DhcpLease, Advertised, None),
        (DeviceRoleSignal (Address (V4 r)) DhcpRouter, DhcpLease, Advertised,
           Some ''named as router in DHCP option 3'')]) (df_routers d)) @
     concat (map (\<lambda>(dest, n, next_hop).
       if 32 < n then []
       else
         let network = V4Net (trunc4 ops dest n) n in
         [(fact.Network network, DhcpLease, Advertised, Some ''DHCP option 121 classless static route''),
          (fact.RoutesTo (Address (V4 next_hop)) network (Some (V4 next_hop)), DhcpLease, Advertised, None)])
       (df_classless_routes d)) @
     [(DeviceRoleSignal (device_key_mac (df_server_mac d)) DhcpRouter, DhcpLease, Observed, None)]"

definition convert_control_plane :: "(ip_net \<Rightarrow> string) \<Rightarrow> control_plane \<Rightarrow> emitted list" where
  "convert_control_plane show_net c =
     (let device = device_key_mac (cp_sender_mac c); protocol = cp_protocol c in
      (case cp_sender c of
         Some a \<Rightarrow> [(DeviceAddress device a, Rip, Observed, None)] | None \<Rightarrow> []) @
      [(DeviceRoleSignal device RipRouteAdvertisement, Rip, Observed,
          Some (protocol @ '' '' @ (if cp_hello c then ''hello'' else ''advertisement'') @ '' from '' @
                cp_identity c @ '', '' @ cp_scope c)),
       (DeviceDescription device
          (protocol @ '' '' @ cp_identity c @ '', '' @ cp_scope c @
           (case cp_sequences c of s # _ \<Rightarrow> '', sequence 0x'' @ digits_aux 16 8 (uint s) | [] \<Rightarrow> [])),
        Rip, Observed, None)] @
      concat (map (\<lambda>(p, metric, described).
        [(fact.Network p, Rip, Advertised, Some (protocol @ '' '' @ described)),
         (fact.RoutesTo device p (cp_sender c), Rip, Advertised,
            Some (protocol @ '' '' @ described @ '', metric '' @ decimal (uint metric)))]) (cp_current c)) @
      map (\<lambda>(p, why). (DeviceDescription device (protocol @ '' reported '' @ show_net p @ '': '' @ why),
                        Rip, Observed, None)) (cp_reported_only c))"

definition convert_routing_update :: "(ip_net \<Rightarrow> string) \<Rightarrow> routing_update \<Rightarrow> emitted list" where
  "convert_routing_update show_net u =
     (let device = device_key_mac (ru_sender_mac u); protocol = ru_protocol u in
      [(DeviceAddress device (ru_sender u), Rip, Observed, None),
       (DeviceRoleSignal device RipRouteAdvertisement, Rip, Observed,
          Some (''advertised a '' @ protocol @ '' table on this link''))] @
      concat (map (\<lambda>(p, next_hop, metric, tag, raw).
        [(fact.Network p, Rip, Advertised, Some (protocol @ '' entry '' @ hex_spaced raw)),
         (fact.RoutesTo device p (case next_hop of Some h \<Rightarrow> Some h | None \<Rightarrow> Some (ru_sender u)), Rip, Advertised,
            Some (protocol @ '' metric '' @ decimal (uint metric) @ '', tag '' @ decimal (uint tag) @
                  '', entry '' @ hex_spaced raw))]) (ru_routes u)) @
      map (\<lambda>(p, raw).
        (DeviceDescription device
           (''withdrew '' @ show_net p @ '' in a '' @ protocol @ '' update (metric 16), entry '' @ hex_spaced raw),
         Rip, Observed, None)) (ru_withdrawn u))"

definition convert_router_advertisement :: "ipnet_ops \<Rightarrow> ra_fact \<Rightarrow> emitted list" where
  "convert_router_advertisement ops r =
     (let device = device_key_mac (rf_router_mac r) in
      [(DeviceRoleSignal device role_signal.RouterAdvertisement, evidence_source.RouterAdvertisement, Observed,
          Some ''transmitted an IPv6 router advertisement'')] @
      (case rf_router_address r of
         Some a \<Rightarrow> [(DeviceAddress device (V6 a), evidence_source.RouterAdvertisement, Observed, None)]
       | None \<Rightarrow> []) @
      concat (map (\<lambda>(a, n).
        if 128 < n then []
        else
          let network = V6Net (trunc6 ops a n) n in
          [(fact.Network network, evidence_source.RouterAdvertisement, Advertised, Some ''RA Prefix Information Option''),
           (fact.GatewayFor device network, evidence_source.RouterAdvertisement, Advertised, None)]) (rf_prefixes r)) @
      concat (map (\<lambda>(a, n, lifetime).
        if 128 < n then []
        else
          let network = V6Net (trunc6 ops a n) n in
          [(fact.Network network, evidence_source.RouterAdvertisement, Advertised, Some ''RA Route Information Option''),
           (fact.RoutesTo device network (map_option V6 (rf_router_address r)),
            evidence_source.RouterAdvertisement, Advertised,
            Some (''route information option, '' @ decimal (uint lifetime) @ ''s''))]) (rf_routes r)))"

definition capability_signal :: "string \<Rightarrow> role_signal option" where
  "capability_signal cap =
     (if str_contains cap ''Router'' then Some (LinkLayerCapability ''Router'')
      else if str_contains cap ''Bridge'' \<or> str_contains cap ''Switch''
      then Some (LinkLayerCapability ''Bridge/Switch'')
      else None)"

definition convert_link_layer :: "lldp_neighbor \<Rightarrow> emitted list" where
  "convert_link_layer n =
     (let device = device_key_mac (ll_chassis_id n) in
      (case ll_system_name n of Some s \<Rightarrow> [(DeviceHostname device s, Lldp, Advertised, None)] | None \<Rightarrow> []) @
      (case ll_system_description n of
         Some s \<Rightarrow> [(DeviceDescription device s, Lldp, Advertised, None)] | None \<Rightarrow> []) @
      concat (map (\<lambda>cap.
        case capability_signal cap of
          Some signal \<Rightarrow> [(DeviceRoleSignal device signal, Lldp, Advertised, Some (''port '' @ ll_port_id n))]
        | None \<Rightarrow> []) (ll_capabilities n)) @
      (case ll_management_ip n of
         Some a \<Rightarrow> [(DeviceAddress device (V4 a), Lldp, Advertised, None)] | None \<Rightarrow> []))"

definition convert_mndp :: "mndp_neighbor \<Rightarrow> emitted list" where
  "convert_mndp n =
     (let device = device_key_mac (mn_mac_address n) in
      [(DeviceHostname device (mn_identity n), Mndp, Advertised, None)] @
      (case mn_ipv4_address n of
         Some a \<Rightarrow> [(DeviceAddress device (V4 a), Mndp, Advertised, None)] | None \<Rightarrow> []) @
      [(DeviceRoleSignal device (LinkLayerCapability ''Router''), Mndp, Advertised,
          Some ''announced itself via MikroTik MNDP'')])"

record passive_ops =
  pa_ipnet :: ipnet_ops
  pa_show_net :: "ip_net \<Rightarrow> string"
  pa_contains :: "ip_net \<Rightarrow> ip_addr \<Rightarrow> bool"

fun convert_fact :: "passive_ops \<Rightarrow> ip_net option \<Rightarrow> frame_fact \<Rightarrow> emitted list" where
  "convert_fact x in_scope (FVlanNetwork v n) =
     [(fact.VlanNetwork v n, DhcpLease, Observed, Some ''client-facing DHCP ACK, tagged, with option 1'')]"
| "convert_fact x in_scope (FVlan i) = [(fact.Vlan i, Stp, Observed, None)]"
| "convert_fact x in_scope (FBridge b) = convert_bridge b"
| "convert_fact x in_scope (FArp mac a) =
     (if (case in_scope of Some s \<Rightarrow> pa_contains x s (V4 a) | None \<Rightarrow> True)
      then [(DeviceAddress (device_key_mac mac) (V4 a), ArpCache, Observed, None)] else [])"
| "convert_fact x in_scope (FDhcp d) = convert_dhcp (pa_ipnet x) d"
| "convert_fact x in_scope (FRoutingUpdateRejected s p) = []"
| "convert_fact x in_scope (FRoutingRequest s p) = []"
| "convert_fact x in_scope (FControlPlane c) = convert_control_plane (pa_show_net x) c"
| "convert_fact x in_scope (FRoutingUpdate u) = convert_routing_update (pa_show_net x) u"
| "convert_fact x in_scope (FRouterAdvertisement r) = convert_router_advertisement (pa_ipnet x) r"
| "convert_fact x in_scope (FNeighbor mac a is_router) =
     [(DeviceAddress (device_key_mac mac) (V6 a), NdpCache, Observed, None)] @
     (if is_router
      then [(DeviceRoleSignal (device_key_mac mac) role_signal.RouterAdvertisement, NdpCache, Observed,
               Some ''router flag set in a neighbour advertisement'')] else [])"
| "convert_fact x in_scope (FLinkLayerNeighbor n) = convert_link_layer n"
| "convert_fact x in_scope (FMndp n) = convert_mndp n"

text \<open>
  \<open>seen\<close> holds the \<open>Debug\<close> text of the facts so far; the derived text determines the fact, so the
  facts themselves stand for it.
\<close>

fun convert_new :: "passive_ops \<Rightarrow> ip_net option \<Rightarrow> frame_fact set \<Rightarrow> frame_fact list \<Rightarrow> emitted list" where
  "convert_new x in_scope seen [] = []"
| "convert_new x in_scope seen (f # fs) =
     (if f \<in> seen then convert_new x in_scope seen fs
      else convert_fact x in_scope f @ convert_new x in_scope (insert f seen) fs)"

definition stamp :: "int \<Rightarrow> string \<Rightarrow> emitted \<Rightarrow> topology_evidence" where
  "stamp now interface e =
     (let (f, source, grade, detail) = e; ev = evidence_new now f source grade interface
      in case detail of Some d \<Rightarrow> with_detail ev d | None \<Rightarrow> ev)"

definition convert ::
    "passive_ops \<Rightarrow> (nat \<Rightarrow> int) \<Rightarrow> frame_fact list \<Rightarrow> string \<Rightarrow> ip_net option \<Rightarrow> topology_evidence list" where
  "convert x clock facts interface in_scope =
     map (\<lambda>(i, e). stamp (clock i) interface e) (enumerate 0 (convert_new x in_scope {} facts))"

definition convert_unscoped ::
    "passive_ops \<Rightarrow> (nat \<Rightarrow> int) \<Rightarrow> frame_fact list \<Rightarrow> string \<Rightarrow> topology_evidence list" where
  "convert_unscoped x clock facts interface = convert x clock facts interface None"

section \<open>The observation\<close>

text \<open>
  The capture session (\<open>src/src/net/capture.rs\<close>): how many frames its thread has handed over, and
  the frames of the thread's current read that it has yet to hand over.
\<close>

record capture_session =
  cs_frames_seen :: u64
  cs_reading :: "bytes list"

record passive_observation =
  po_observed :: "frame_fact list"
  po_session :: "capture_session option"
  po_unavailable :: "capture_error option"
  po_interface :: string
  po_final_frames :: u64
  po_facts_accepted :: u64
  po_rip :: rip_tally
  po_stopped :: bool

text \<open>\<open>start\<close>, given what opening the device came to; and \<open>not_applicable\<close>.\<close>

definition observation_start :: "string \<Rightarrow> capture_error + unit \<Rightarrow> passive_observation" where
  "observation_start interface result =
     (let opened = \<lparr>po_observed = [], po_session = Some \<lparr>cs_frames_seen = 0, cs_reading = []\<rparr>,
                    po_unavailable = None, po_interface = interface, po_final_frames = 0,
                    po_facts_accepted = 0, po_rip = tally_default, po_stopped = False\<rparr>
      in case result of
           Inr _ \<Rightarrow> opened
         | Inl err \<Rightarrow> opened\<lparr>po_session := None, po_unavailable := Some err, po_stopped := True\<rparr>)"

definition not_applicable :: "string \<Rightarrow> string \<Rightarrow> passive_observation" where
  "not_applicable interface reason =
     \<lparr>po_observed = [], po_session = None, po_unavailable = Some (Unsupported reason),
      po_interface = interface, po_final_frames = 0, po_facts_accepted = 0, po_rip = tally_default,
      po_stopped = True\<rparr>"

definition is_running :: "passive_observation \<Rightarrow> bool" where
  "is_running p \<longleftrightarrow> po_unavailable p = None"

definition unavailable_reason :: "passive_observation \<Rightarrow> string option" where
  "unavailable_reason p = map_option explain_capture_error (po_unavailable p)"

definition frames_seen :: "passive_observation \<Rightarrow> u64" where
  "frames_seen p =
     (if po_stopped p then po_final_frames p
      else case po_session p of Some s \<Rightarrow> cs_frames_seen s | None \<Rightarrow> 0)"

text \<open>What the thread does for one frame: count it, decode it, extend the buffer under its lock.\<close>

definition hand_over :: "ipnet_ops \<Rightarrow> bytes \<Rightarrow> passive_observation \<Rightarrow> passive_observation" where
  "hand_over ops frame p =
     p\<lparr>po_observed := po_observed p @ decode_frame ops frame,
       po_session := map_option (\<lambda>s. s\<lparr>cs_frames_seen := cs_frames_seen s + 1, cs_reading := tl (cs_reading s)\<rparr>)
         (po_session p)\<rparr>"

text \<open>
  \<open>stop\<close>: joining the thread lets it finish the read it is in, and only then is its count taken.
\<close>

definition observation_stop :: "ipnet_ops \<Rightarrow> passive_observation \<Rightarrow> passive_observation" where
  "observation_stop ops p =
     (if po_stopped p then p
      else
        case po_session p of
          None \<Rightarrow> p\<lparr>po_stopped := True\<rparr>
        | Some session \<Rightarrow>
            let joined = fold (hand_over ops) (cs_reading session) (p\<lparr>po_stopped := True\<rparr>)
            in joined\<lparr>po_session := None,
                      po_final_frames := (case po_session joined of Some s \<Rightarrow> cs_frames_seen s | None \<Rightarrow> 0)\<rparr>)"

text \<open>\<open>drain\<close> as the engine calls it: take the buffer, count the facts, convert them.\<close>

definition observation_drain ::
    "passive_ops \<Rightarrow> string option \<Rightarrow> (nat \<Rightarrow> int) \<Rightarrow> passive_observation \<Rightarrow>
     passive_observation \<times> topology_evidence list" where
  "observation_drain x local_mac clock p =
     (let facts = po_observed p;
          evidence = convert_unscoped x clock facts (po_interface p)
      in (p\<lparr>po_observed := [], po_rip := fold (note_fact local_mac) facts (po_rip p),
            po_facts_accepted := po_facts_accepted p + word_of_nat (length evidence)\<rparr>, evidence))"

definition observation_finish ::
    "passive_ops \<Rightarrow> string option \<Rightarrow> (nat \<Rightarrow> int) \<Rightarrow> passive_observation \<Rightarrow>
     passive_observation \<times> topology_evidence list" where
  "observation_finish x local_mac clock p =
     observation_drain x local_mac clock (observation_stop (pa_ipnet x) p)"

section \<open>Interleaving\<close>

text \<open>
  The capture thread and the engine take turns in any order. The thread reads again only when it has
  handed over what it read before and nothing has stopped it.
\<close>

datatype observation_event =
    ThreadReads "bytes list"
  | ThreadHandsOver
  | EngineDrains "nat \<Rightarrow> int"
  | EngineStops
  | EngineFinishes "nat \<Rightarrow> int"

definition may_read :: "passive_observation \<Rightarrow> bool" where
  "may_read p \<longleftrightarrow> \<not> po_stopped p \<and> (case po_session p of Some s \<Rightarrow> cs_reading s = [] | None \<Rightarrow> False)"

fun observation_step ::
    "passive_ops \<Rightarrow> string option \<Rightarrow> observation_event \<Rightarrow> passive_observation \<Rightarrow>
     passive_observation \<times> topology_evidence list" where
  "observation_step x local_mac (ThreadReads frames) p =
     (if may_read p then p\<lparr>po_session := map_option (\<lambda>s. s\<lparr>cs_reading := frames\<rparr>) (po_session p)\<rparr> else p, [])"
| "observation_step x local_mac ThreadHandsOver p =
     (case po_session p of
        Some s \<Rightarrow> (case cs_reading s of f # fs \<Rightarrow> hand_over (pa_ipnet x) f p | [] \<Rightarrow> p)
      | None \<Rightarrow> p, [])"
| "observation_step x local_mac (EngineDrains clock) p = observation_drain x local_mac clock p"
| "observation_step x local_mac EngineStops p = (observation_stop (pa_ipnet x) p, [])"
| "observation_step x local_mac (EngineFinishes clock) p = observation_finish x local_mac clock p"

text \<open>A run: where it ends, and the evidence that the engine was given, batch by batch.\<close>

fun observation_run ::
    "passive_ops \<Rightarrow> string option \<Rightarrow> observation_event list \<Rightarrow> passive_observation \<Rightarrow>
     passive_observation \<times> topology_evidence list" where
  "observation_run x local_mac [] p = (p, [])"
| "observation_run x local_mac (e # es) p =
     (let (p', given) = observation_step x local_mac e p; (p'', later) = observation_run x local_mac es p'
      in (p'', given @ later))"

text \<open>The frames that the thread read in a run.\<close>

fun frames_read :: "passive_ops \<Rightarrow> string option \<Rightarrow> observation_event list \<Rightarrow> passive_observation \<Rightarrow> bytes list" where
  "frames_read x local_mac [] p = []"
| "frames_read x local_mac (e # es) p =
     (case e of ThreadReads frames \<Rightarrow> if may_read p then frames else [] | _ \<Rightarrow> []) @
     frames_read x local_mac es (fst (observation_step x local_mac e p))"

end
