(* ===== verification/Passive_Props.thy ===== *)
theory Passive_Props
  imports Passive_Source "HOL-Library.Multiset"
begin

text \<open>
  What passive observation promises: no decoded fact is lost, repeated or reordered between the capture
  thread and the engine, whatever their interleaving; what each kind of fact may become; and which
  frames associate a VLAN with a prefix.
\<close>

section \<open>Nothing is lost between the thread and the engine\<close>

text \<open>The frames a read holds back, and those handed over before.\<close>

definition held :: "passive_observation \<Rightarrow> bytes list" where
  "held p = (case po_session p of Some s \<Rightarrow> cs_reading s | None \<Rightarrow> [])"

definition decoded :: "passive_ops \<Rightarrow> bytes list \<Rightarrow> frame_fact list" where
  "decoded x frames = concat (map (decode_frame (pa_ipnet x)) frames)"

type_synonym batch = "(nat \<Rightarrow> int) \<times> frame_fact list"

definition given_for :: "passive_ops \<Rightarrow> string \<Rightarrow> batch list \<Rightarrow> topology_evidence list" where
  "given_for x interface batches =
     concat (map (\<lambda>(clock, facts). convert_unscoped x clock facts interface) batches)"

definition batch_facts :: "batch list \<Rightarrow> frame_fact list" where
  "batch_facts batches = concat (map snd batches)"

lemma batch_simps [simp]:
  "decoded x [] = []" "decoded x (fs @ gs) = decoded x fs @ decoded x gs"
  "decoded x (f # fs) = decode_frame (pa_ipnet x) f @ decoded x fs"
  "given_for x i [] = []" "given_for x i (bs @ cs) = given_for x i bs @ given_for x i cs"
  "given_for x i [b] = convert_unscoped x (fst b) (snd b) i"
  "batch_facts [] = []" "batch_facts (bs @ cs) = batch_facts bs @ batch_facts cs" "batch_facts [b] = snd b"
  by (auto simp: decoded_def given_for_def batch_facts_def split: prod.splits)

text \<open>
  The relation between a state and what happened so far: \<open>handed\<close> the frames handed over, \<open>batches\<close>
  what the engine took, \<open>given\<close> what it was given for them.
\<close>

definition accounts ::
    "passive_ops \<Rightarrow> string option \<Rightarrow> passive_observation \<Rightarrow> bytes list \<Rightarrow> batch list \<Rightarrow> topology_evidence list \<Rightarrow> bool" where
  "accounts x local_mac p handed batches given \<longleftrightarrow>
     decoded x handed = batch_facts batches @ po_observed p \<and>
     given = given_for x (po_interface p) batches \<and>
     po_rip p = fold (note_fact local_mac) (batch_facts batches) tally_default \<and>
     po_facts_accepted p = word_of_nat (length given) \<and>
     frames_seen p = word_of_nat (length handed) \<and>
     (po_stopped p \<longleftrightarrow> po_session p = None)"

lemma accounts_hand_over:
  assumes "accounts x local_mac p handed batches given" and "po_session p = Some s"
  shows "accounts x local_mac (hand_over (pa_ipnet x) f p) (handed @ [f]) batches given"
  using assms by (auto simp: accounts_def hand_over_def frames_seen_def)

lemma hand_over_frame [simp]:
  "po_stopped (hand_over ops f p) = po_stopped p"
  "po_interface (hand_over ops f p) = po_interface p"
  "po_rip (hand_over ops f p) = po_rip p"
  "po_facts_accepted (hand_over ops f p) = po_facts_accepted p"
  "po_observed (hand_over ops f p) = po_observed p @ decode_frame ops f"
  by (simp_all add: hand_over_def)

lemma hand_over_stopped [simp]: "po_stopped (fold (hand_over ops) fs p) = po_stopped p"
  by (induction fs arbitrary: p) simp_all

lemma hand_over_all:
  assumes "po_session p = Some s" and "cs_reading s = fs @ gs"
  shows "fold (hand_over ops) fs p =
    p\<lparr>po_observed := po_observed p @ concat (map (decode_frame ops) fs),
      po_session := Some \<lparr>cs_frames_seen = cs_frames_seen s + word_of_nat (length fs), cs_reading = gs\<rparr>\<rparr>"
  using assms
proof (induction fs arbitrary: p s)
  case Nil
  then show ?case by simp
next
  case (Cons f fs)
  let ?p = "hand_over ops f p" and ?s = "s\<lparr>cs_frames_seen := cs_frames_seen s + 1, cs_reading := fs @ gs\<rparr>"
  have "po_session ?p = Some ?s" using Cons.prems by (simp add: hand_over_def)
  from Cons.IH [OF this] Cons.prems show ?case by (simp add: hand_over_def add.assoc)
qed

lemma accounts_stop:
  assumes "accounts x local_mac p handed batches given"
  shows "accounts x local_mac (observation_stop (pa_ipnet x) p) (handed @ held p) batches given"
    and "held (observation_stop (pa_ipnet x) p) = []" "po_stopped (observation_stop (pa_ipnet x) p)"
proof -
  show "accounts x local_mac (observation_stop (pa_ipnet x) p) (handed @ held p) batches given"
  proof (cases "po_session p")
    case None
    then show ?thesis using assms by (auto simp: observation_stop_def accounts_def held_def frames_seen_def)
  next
    case (Some s)
    then show ?thesis
      using assms hand_over_all [of "p\<lparr>po_stopped := True\<rparr>" s "cs_reading s" "[]" "pa_ipnet x"]
      by (auto simp: observation_stop_def accounts_def held_def frames_seen_def decoded_def Let_def)
  qed
  show "held (observation_stop (pa_ipnet x) p) = []" "po_stopped (observation_stop (pa_ipnet x) p)"
    using assms by (auto simp: observation_stop_def held_def accounts_def Let_def split: option.splits)
qed

lemma accounts_drain:
  assumes "accounts x local_mac p handed batches given"
  shows "accounts x local_mac (fst (observation_drain x local_mac clock p)) handed
      (batches @ [(clock, po_observed p)]) (given @ snd (observation_drain x local_mac clock p))"
    and "held (fst (observation_drain x local_mac clock p)) = held p"
    and "po_observed (fst (observation_drain x local_mac clock p)) = []"
    and "po_stopped (fst (observation_drain x local_mac clock p)) = po_stopped p"
  using assms by (auto simp: observation_drain_def accounts_def Let_def frames_seen_def held_def)

lemma accounts_step:
  assumes "accounts x local_mac p handed batches given"
    and "observation_step x local_mac e p = (p', more_given)"
  shows "\<exists>handed' batches'. accounts x local_mac p' handed' batches' (given @ more_given) \<and>
    handed' @ held p' =
      handed @ held p @ (case e of ThreadReads frames \<Rightarrow> if may_read p then frames else [] | _ \<Rightarrow> [])"
proof (cases e)
  case (ThreadReads frames)
  then show ?thesis
    using assms by (auto simp: accounts_def frames_seen_def held_def may_read_def split: option.splits
        intro!: exI [of _ handed] exI [of _ batches])
next
  case ThreadHandsOver
  show ?thesis
  proof (cases "held p")
    case Nil
    then show ?thesis
      using assms ThreadHandsOver by (auto simp: held_def split: option.splits list.splits)
  next
    case (Cons f fs)
    then obtain s where s: "po_session p = Some s" "cs_reading s = f # fs" by (auto simp: held_def split: option.splits)
    from s assms(2) ThreadHandsOver have "p' = hand_over (pa_ipnet x) f p" "more_given = []" by simp_all
    moreover have "held (hand_over (pa_ipnet x) f p) = fs" using s by (simp add: held_def hand_over_def)
    ultimately show ?thesis
      using accounts_hand_over [OF assms(1) s(1), of f] Cons ThreadHandsOver
      by (intro exI [of _ "handed @ [f]"] exI [of _ batches]) simp
  qed
next
  case (EngineDrains clock)
  then show ?thesis using accounts_drain(1,2) [OF assms(1), of clock] assms(2)
    by (intro exI [of _ handed] exI [of _ "batches @ [(clock, po_observed p)]"]) simp
next
  case EngineStops
  then show ?thesis using accounts_stop(1,2) [OF assms(1)] assms(2)
    by (intro exI [of _ "handed @ held p"] exI [of _ batches]) auto
next
  case (EngineFinishes clock)
  let ?q = "observation_stop (pa_ipnet x) p"
  show ?thesis
    using accounts_drain(1,2) [OF accounts_stop(1) [OF assms(1)], of clock] accounts_stop(2) [OF assms(1)]
      assms(2) EngineFinishes
    by (intro exI [of _ "handed @ held p"] exI [of _ "batches @ [(clock, po_observed ?q)]"])
       (simp add: observation_finish_def)
qed

lemma accounts_run:
  assumes "accounts x local_mac p handed batches given"
    and "observation_run x local_mac es p = (p', more_given)"
  shows "\<exists>handed' batches'. accounts x local_mac p' handed' batches' (given @ more_given) \<and>
    handed' @ held p' = handed @ held p @ frames_read x local_mac es p"
  using assms
proof (induction es arbitrary: p handed batches given more_given)
  case Nil
  then show ?case by auto
next
  case (Cons e es)
  obtain q first where step: "observation_step x local_mac e p = (q, first)" by fastforce
  obtain later where run: "observation_run x local_mac es q = (p', later)" "more_given = first @ later"
    using Cons.prems(2) step by (auto split: prod.splits)
  from accounts_step [OF Cons.prems(1) step] obtain handed' batches'
    where a: "accounts x local_mac q handed' batches' (given @ first)"
      and h: "handed' @ held q =
        handed @ held p @ (case e of ThreadReads frames \<Rightarrow> if may_read p then frames else [] | _ \<Rightarrow> [])"
    by blast
  from Cons.IH [OF a run(1)] obtain handed'' batches''
    where b: "accounts x local_mac p' handed'' batches'' ((given @ first) @ later)"
      and "handed'' @ held p' = (handed' @ held q) @ frames_read x local_mac es q"
    by (metis append_assoc)
  then have "handed'' @ held p' = handed @ held p @ frames_read x local_mac (e # es) p"
    unfolding h using step by simp
  with b show ?case unfolding run(2) by (metis append_assoc)
qed

lemma accounts_start:
  "accounts x local_mac (observation_start interface (Inr u)) [] [] []"
  "held (observation_start interface (Inr u)) = []"
  by (simp_all add: accounts_def observation_start_def Let_def frames_seen_def held_def)

lemma convert_unscoped_nil [simp]: "convert_unscoped x clock [] interface = []"
  by (simp add: convert_unscoped_def convert_def)

lemma spent_step:
  assumes "po_stopped p" "po_session p = None" "po_observed p = []"
  shows "observation_step x local_mac e p = (p, [])"
  using assms
  by (cases e) (auto simp: may_read_def observation_drain_def observation_stop_def observation_finish_def Let_def)

lemma spent_run:
  "po_stopped p \<Longrightarrow> po_session p = None \<Longrightarrow> po_observed p = [] \<Longrightarrow> observation_run x local_mac es p = (p, [])"
  by (induction es) (simp_all add: spent_step)

lemma observation_run_append:
  "observation_run x local_mac (es @ fs) p =
     (let (q, given) = observation_run x local_mac es p; (r, later) = observation_run x local_mac fs q
      in (r, given @ later))"
  by (induction es arbitrary: p) (simp_all add: Let_def split: prod.splits)

lemma po_interface_step [simp]: "po_interface (fst (observation_step x local_mac e p)) = po_interface p"
proof -
  have [simp]: "po_interface (fold (hand_over ops) fs q) = po_interface q" for ops fs q
    by (induction fs arbitrary: q) simp_all
  show ?thesis
    by (cases e) (auto simp: observation_drain_def observation_stop_def observation_finish_def Let_def
        split: option.splits list.splits)
qed

lemma po_interface_run: "po_interface (fst (observation_run x local_mac es p)) = po_interface p"
  by (induction es arbitrary: p) (simp_all add: Let_def split: prod.splits, metis fst_conv po_interface_step)

text \<open>
  C19: however the capture thread's reads and deliveries interleave with the engine's polls, stops and
  final \<open>finish\<close>, every frame read before the end is decoded and its facts reach the engine exactly once
  and in order; the tally, the frame count and the count of accepted facts are those of the whole run;
  and after \<open>finish\<close> no event whatever changes the observation or yields evidence.
\<close>

theorem observation_conserves:
  "\<exists>p given batches.
     observation_run x local_mac (es @ [EngineFinishes clock]) (observation_start interface (Inr u)) = (p, given) \<and>
     batch_facts batches = decoded x (frames_read x local_mac es (observation_start interface (Inr u))) \<and>
     given = given_for x interface batches \<and>
     po_rip p = fold (note_fact local_mac) (batch_facts batches) tally_default \<and>
     po_facts_accepted p = word_of_nat (length given) \<and>
     frames_seen p = word_of_nat (length (frames_read x local_mac es (observation_start interface (Inr u)))) \<and>
     (\<forall>later. observation_run x local_mac later p = (p, []))"
proof -
  let ?start = "observation_start interface (Inr u)"
  obtain q before where run: "observation_run x local_mac es ?start = (q, before)" by fastforce
  from accounts_run [OF accounts_start(1) run] accounts_start(2) obtain handed batches
    where a: "accounts x local_mac q handed batches before"
      and h: "handed @ held q = frames_read x local_mac es ?start" by auto
  let ?s = "observation_stop (pa_ipnet x) q"
  obtain p final where d: "observation_drain x local_mac clock ?s = (p, final)" by fastforce
  obtain given where given: "given = before @ final" by blast
  note stopped = accounts_stop [OF a]
  have p: "accounts x local_mac p (handed @ held q) (batches @ [(clock, po_observed ?s)]) given"
    "po_observed p = []" "po_stopped p"
    using accounts_drain [OF stopped(1), of clock] stopped(3) d given by simp_all
  have "po_session p = None" using p(1,3) by (simp add: accounts_def)
  then have "observation_run x local_mac later p = (p, [])" for later using p(2,3) by (rule spent_run [rotated 1])
  moreover have "po_interface p = interface"
    using po_interface_run [of x local_mac "es @ [EngineFinishes clock]" ?start] run d
    by (simp add: observation_run_append observation_finish_def observation_start_def)
  moreover have "observation_run x local_mac (es @ [EngineFinishes clock]) ?start = (p, given)"
    using run d given by (simp add: observation_run_append observation_finish_def)
  ultimately show ?thesis
    using p(1,2) unfolding h accounts_def
    by (intro exI [of _ p] exI [of _ given] exI [of _ "batches @ [(clock, po_observed ?s)]"]) simp
qed

section \<open>What a fact may become\<close>

text \<open>The prefixes that a fact states as current, which are the only networks it may establish.\<close>

fun stated_networks :: "ipnet_ops \<Rightarrow> frame_fact \<Rightarrow> ip_net set" where
  "stated_networks ops (FDhcp d) =
     {V4Net (trunc4 ops a n) n |a m n. df_assigned d = Some a \<and> df_subnet_mask d = Some m \<and>
        contiguous_prefix_len m = Some n \<and> 1 \<le> n} \<union>
     {V4Net (trunc4 ops a n) n |a n hop. (a, n, hop) \<in> set (df_classless_routes d) \<and> n \<le> 32}"
| "stated_networks ops (FControlPlane c) = {p. \<exists>metric described. (p, metric, described) \<in> set (cp_current c)}"
| "stated_networks ops (FRoutingUpdate u) = {p. \<exists>hop metric tag raw. (p, hop, metric, tag, raw) \<in> set (ru_routes u)}"
| "stated_networks ops (FRouterAdvertisement r) =
     {V6Net (trunc6 ops a n) n |a n. (a, n) \<in> set (rf_prefixes r) \<and> n \<le> 128} \<union>
     {V6Net (trunc6 ops a n) n |a n life. (a, n, life) \<in> set (rf_routes r) \<and> n \<le> 128}"
| "stated_networks ops _ = {}"

definition network_in :: "ip_net \<Rightarrow> emitted list \<Rightarrow> bool" where
  "network_in p es \<longleftrightarrow> fact.Network p \<in> fst ` set es"

lemma network_in_simps [simp]:
  "network_in p [] \<longleftrightarrow> False"
  "network_in p (xs @ ys) \<longleftrightarrow> network_in p xs \<or> network_in p ys"
  "network_in p ((f, r) # xs) \<longleftrightarrow> f = fact.Network p \<or> network_in p xs"
  by (auto simp: network_in_def)

lemma network_in_concat: "network_in p (concat (map g xs)) \<longleftrightarrow> (\<exists>a \<in> set xs. network_in p (g a))"
  by (auto simp: network_in_def)

lemma network_in_map: "network_in p (map g xs) \<longleftrightarrow> (\<exists>a \<in> set xs. network_in p [g a])"
  by (auto simp: network_in_def image_iff)

lemma network_in_if [simp]:
  "network_in p (if c then xs else ys) \<longleftrightarrow> c \<and> network_in p xs \<or> \<not> c \<and> network_in p ys"
  by simp

lemma contiguous_bound: "contiguous_prefix_len m = Some n \<Longrightarrow> n \<le> 32"
  by (simp add: contiguous_prefix_len_iff)

lemma bex_tuples:
  "(\<exists>a \<in> A2. case a of (x, y) \<Rightarrow> P2 x y) \<longleftrightarrow> (\<exists>x y. (x, y) \<in> A2 \<and> P2 x y)"
  "(\<exists>a \<in> A3. case a of (x, y, z) \<Rightarrow> P3 x y z) \<longleftrightarrow> (\<exists>x y z. (x, y, z) \<in> A3 \<and> P3 x y z)"
  "(\<exists>a \<in> A5. case a of (x, y, z, v, w) \<Rightarrow> P5 x y z v w) \<longleftrightarrow>
     (\<exists>x y z v w. (x, y, z, v, w) \<in> A5 \<and> P5 x y z v w)"
  by auto force+

lemma network_in_tuples:
  "network_in p (case a of (x, y) \<Rightarrow> g2 x y) \<longleftrightarrow> (case a of (x, y) \<Rightarrow> network_in p (g2 x y))"
  "network_in p (case b of (x, y, z) \<Rightarrow> g3 x y z) \<longleftrightarrow> (case b of (x, y, z) \<Rightarrow> network_in p (g3 x y z))"
  "network_in p (case c of (x, y, z, v, w) \<Rightarrow> g5 x y z v w) \<longleftrightarrow>
     (case c of (x, y, z, v, w) \<Rightarrow> network_in p (g5 x y z v w))"
  "network_in p [case a of (x, y) \<Rightarrow> e2 x y] \<longleftrightarrow> (case a of (x, y) \<Rightarrow> network_in p [e2 x y])"
  by (auto split: prod.splits)

lemmas network_parts = network_in_concat network_in_map network_in_tuples bex_tuples Let_def

lemma dhcp_networks: "network_in p (convert_dhcp ops d) \<longleftrightarrow> p \<in> stated_networks ops (FDhcp d)"
  by (auto simp: convert_dhcp_def network_parts contiguous_bound not_less split: option.splits)

lemma control_plane_networks:
  "network_in p (convert_control_plane show_net c) \<longleftrightarrow> p \<in> stated_networks ops (FControlPlane c)"
  by (auto simp: convert_control_plane_def network_parts split: option.splits)

lemma routing_update_networks:
  "network_in p (convert_routing_update show_net u) \<longleftrightarrow> p \<in> stated_networks ops (FRoutingUpdate u)"
  by (auto simp: convert_routing_update_def network_parts split: option.splits)

lemma router_advertisement_networks:
  "network_in p (convert_router_advertisement ops r) \<longleftrightarrow> p \<in> stated_networks ops (FRouterAdvertisement r)"
  by (auto simp: convert_router_advertisement_def network_parts not_less split: option.splits) blast+

lemma converted_networks: "network_in p (convert_fact x sc f) \<longleftrightarrow> p \<in> stated_networks (pa_ipnet x) f"
proof (cases f)
  case (FLinkLayerNeighbor n)
  then show ?thesis
    by (auto simp: convert_link_layer_def network_parts capability_signal_def split: option.splits if_splits)
qed (auto simp: convert_bridge_def convert_mndp_def network_parts dhcp_networks control_plane_networks
      routing_update_networks router_advertisement_networks simp del: stated_networks.simps(1-4) split: option.splits)

lemma convert_new_set:
  "set (convert_new x sc seen fs) = (\<Union>f \<in> set fs - seen. set (convert_fact x sc f))"
  by (induction fs arbitrary: seen) auto

lemma stamp_fields [simp]:
  "ev_fact (stamp now i e) = fst e" "ev_confidence (stamp now i e) = fst (snd (snd e))"
  "ev_vantage (stamp now i e) = i" "ev_origin (stamp now i e) = None"
  by (auto simp: stamp_def evidence_new_def with_detail_def Let_def split: prod.splits option.splits)

lemma set_enumerated: "(\<lambda>(i, e). g e) ` set (enumerate n es) = g ` set es"
proof -
  have "g ` set es = g ` set (map snd (enumerate n es))" by (simp only: map_snd_enumerate)
  also have "\<dots> = (\<lambda>(i, e). g e) ` set (enumerate n es)"
    unfolding set_map image_image by (intro image_cong refl) (simp add: case_prod_beta)
  finally show ?thesis by (rule sym)
qed

lemma converted_facts: "ev_fact ` set (convert x clock facts interface sc) = (\<Union>f \<in> set facts. fst ` set (convert_fact x sc f))"
proof -
  have "ev_fact ` set (convert x clock facts interface sc) = fst ` set (convert_new x sc {} facts)"
    using set_enumerated [of fst 0 "convert_new x sc {} facts"]
    by (simp add: convert_def image_image case_prod_beta)
  then show ?thesis by (simp add: convert_new_set image_UN)
qed

lemma advertised_networks:
  "(fact.Network p, source, grade, detail) \<in> set (convert_fact x sc f) \<Longrightarrow> grade = Advertised"
  by (cases f) (auto simp: convert_bridge_def convert_mndp_def convert_dhcp_def convert_control_plane_def
      convert_routing_update_def convert_router_advertisement_def convert_link_layer_def Let_def
      split: option.splits if_splits prod.splits)

text \<open>
  The facts of kind \<open>Network\<close> that passively observed facts put into the evidence are exactly the prefixes
  they state as current: option 1 of a DHCP reply with an assigned address, the routes of option 121, the
  promoted prefixes of a control-plane packet, the reachable routes of a routing update, and the on-link
  prefixes and usable routes of a router advertisement. Tags, bridges, hosts, requests, rejected
  datagrams and withdrawals name none; and every such fact is graded as advertised. A tagged ACK states its
  prefix a second time, as a VLAN association, which is a fact of another kind and graded as observed.
\<close>

theorem passive_networks_are_stated:
  "((\<exists>ev \<in> set (convert x clock facts interface sc). ev_fact ev = fact.Network p \<and> ev_confidence ev = Advertised) \<longleftrightarrow>
      (\<exists>f \<in> set facts. p \<in> stated_networks (pa_ipnet x) f)) \<and>
   \<not> (\<exists>ev \<in> set (convert x clock facts interface sc). ev_fact ev = fact.Network p \<and> ev_confidence ev \<noteq> Advertised)"
proof -
  have never: "\<not> (\<exists>ev \<in> set (convert x clock facts interface sc).
      ev_fact ev = fact.Network p \<and> ev_confidence ev \<noteq> Advertised)"
    by (auto simp: convert_def convert_new_set in_set_enumerate_eq dest!: nth_mem)
       (blast dest: advertised_networks)
  have "(\<exists>ev \<in> set (convert x clock facts interface sc). ev_fact ev = fact.Network p) \<longleftrightarrow>
      (\<exists>f \<in> set facts. network_in p (convert_fact x sc f))"
    using arg_cong [OF converted_facts [of x clock facts interface sc], of "\<lambda>S. fact.Network p \<in> S"]
    unfolding network_in_def by (simp add: image_iff eq_commute)
  with never show ?thesis unfolding converted_networks by blast
qed

section \<open>Which frames put a prefix on a VLAN\<close>

definition plain :: "frame_fact \<Rightarrow> bool" where
  "plain f \<longleftrightarrow> (case f of FVlan _ \<Rightarrow> False | FVlanNetwork _ _ \<Rightarrow> False | _ \<Rightarrow> True)"

lemma plain_simps [simp]:
  "\<not> plain (FVlan i)" "\<not> plain (FVlanNetwork i n)" "plain (FBridge b)" "plain (FArp m a)" "plain (FDhcp d)"
  "plain (FRoutingUpdate u)" "plain (FControlPlane c)" "plain (FRoutingRequest m p)"
  "plain (FRoutingUpdateRejected m p)" "plain (FRouterAdvertisement r)" "plain (FNeighbor m b6 t)"
  "plain (FLinkLayerNeighbor n4)" "plain (FMndp n5)"
  by (simp_all add: plain_def)

lemma plain_decoders:
  "list_all plain (decode_ipv4 ops mac payload)"
  "list_all plain (decode_ipv6 ops mac payload)"
  "list_all plain (case decode_arp payload of Some f \<Rightarrow> [f] | None \<Rightarrow> [])"
  by (simp_all add: decode_ipv4_def decode_ipv6_def decode_arp_def classify_rip_def Let_def split: option.splits)

lemma llc_names_no_network: "FVlanNetwork v n \<notin> set (decode_llc ops frame destination mac payload)"
  by (auto simp: decode_llc_def decode_pvst_def Let_def split: if_splits option.splits)

text \<open>The facts of the payload behind the tags, before any is joined to them.\<close>

definition payload_facts :: "ipnet_ops \<Rightarrow> bytes \<Rightarrow> u16 \<Rightarrow> nat \<Rightarrow> frame_fact list" where
  "payload_facts ops frame ethertype off =
     (let payload = drop (off + 2) frame; mac = mac_text (take 6 (drop 6 frame)) in
      if ethertype = ETHERTYPE_ARP then (case decode_arp payload of Some f \<Rightarrow> [f] | None \<Rightarrow> [])
      else if ethertype = ETHERTYPE_IPV4 then decode_ipv4 ops mac payload
      else if ethertype = ETHERTYPE_IPV6 then decode_ipv6 ops mac payload
      else if ethertype = ETHERTYPE_LLDP
      then (case parse_lldp_frame frame of Some n \<Rightarrow> [FLinkLayerNeighbor n] | None \<Rightarrow> [])
      else [])"

lemma plain_payload: "list_all plain (payload_facts ops frame ethertype off)"
  by (simp add: payload_facts_def Let_def plain_decoders split: option.splits)

lemma tags_of_plain: "list_all plain fs \<Longrightarrow> concat (map tag_of fs) = []"
  by (induction fs) (auto simp: plain_def split: frame_fact.splits)

lemma tags_of_ids: "concat (map tag_of (map FVlan ids)) = ids"
  by (induction ids) simp_all

definition option_list :: "'a option \<Rightarrow> 'a list" where
  "option_list o' = (case o' of Some a \<Rightarrow> [a] | None \<Rightarrow> [])"

definition joins :: "ipnet_ops \<Rightarrow> ip_net \<Rightarrow> dhcp_fact \<Rightarrow> bool" where
  "joins ops n d \<longleftrightarrow> (\<exists>address netmask' len. df_assigned d = Some address \<and> df_subnet_mask d = Some netmask' \<and>
     df_message_type d = Some DHCP_ACK \<and> \<not> df_relayed d \<and> contiguous_prefix_len netmask' = Some len \<and>
     n = V4Net (trunc4 ops address len) len)"

lemma joined_dhcp:
  "joined_prefix ops w (FDhcp d) =
     (case (df_assigned d, df_subnet_mask d) of
        (Some a, Some m) \<Rightarrow>
          if df_message_type d = Some DHCP_ACK \<and> \<not> df_relayed d
          then map (\<lambda>len. FVlanNetwork w (V4Net (trunc4 ops a len) len)) (option_list (contiguous_prefix_len m))
          else []
      | _ \<Rightarrow> [])"
  by (simp add: joined_prefix_def contiguous_bound option_list_def split: option.split)

lemma joined_prefix_iff:
  "FVlanNetwork v n \<in> set (joined_prefix ops w f) \<longleftrightarrow> v = w \<and> (\<exists>d. f = FDhcp d \<and> joins ops n d)"
proof (cases f)
  case (FDhcp d)
  have "FVlanNetwork v n \<in> set (joined_prefix ops w (FDhcp d)) \<longleftrightarrow> v = w \<and> joins ops n d"
  proof (cases "\<exists>a m. df_assigned d = Some a \<and> df_subnet_mask d = Some m \<and>
      df_message_type d = Some DHCP_ACK \<and> \<not> df_relayed d")
    case True
    then show ?thesis by (auto simp: joined_dhcp joins_def option_list_def split: option.split)
  next
    case False
    then show ?thesis unfolding joined_dhcp joins_def by (cases "df_assigned d"; cases "df_subnet_mask d") auto
  qed
  then show ?thesis using FDhcp by blast
qed (simp_all add: joined_prefix_def)

lemma join_iff:
  assumes "list_all plain fs"
  shows "FVlanNetwork v n \<in> set (join_tagged_prefix ops (map FVlan ids @ fs)) \<longleftrightarrow>
    ids = [v] \<and> (\<exists>d. FDhcp d \<in> set fs \<and> joins ops n d)"
proof -
  have plain_only: "FVlanNetwork v n \<notin> set (map FVlan ids @ fs)" using assms by (auto simp: list_all_iff)
  have tags: "concat (map tag_of (map FVlan ids @ fs)) = ids"
    using tags_of_plain [OF assms] tags_of_ids [of ids] by simp
  show ?thesis
  proof (cases "\<exists>w. ids = [w]")
    case True
    then obtain w where "ids = [w]" by blast
    then have "join_tagged_prefix ops (map FVlan ids @ fs) =
        (map FVlan ids @ fs) @ concat (map (joined_prefix ops w) (map FVlan ids @ fs))"
      unfolding join_tagged_prefix_def tags by simp
    then show ?thesis
      using plain_only \<open>ids = [w]\<close> by (auto simp: joined_prefix_iff)
  next
    case False
    then have "join_tagged_prefix ops (map FVlan ids @ fs) = map FVlan ids @ fs"
      unfolding join_tagged_prefix_def tags by (auto split: list.splits)
    then show ?thesis using plain_only False by auto
  qed
qed

lemma llc_facts_no_network:
  "FVlanNetwork v n \<notin> set (map FVlan ids)"
  "FVlanNetwork v n \<notin> set (map FVlan ids @ decode_llc ops frame destination mac payload)"
  using llc_names_no_network by auto

definition not_dhcp :: "frame_fact \<Rightarrow> bool" where
  "not_dhcp f \<longleftrightarrow> (case f of FDhcp _ \<Rightarrow> False | _ \<Rightarrow> True)"

lemma not_dhcp_decoders:
  "list_all not_dhcp (decode_ipv6 ops mac payload)"
  "list_all not_dhcp (case decode_arp payload of Some f \<Rightarrow> [f] | None \<Rightarrow> [])"
  by (simp_all add: not_dhcp_def decode_ipv6_def decode_arp_def Let_def split: option.splits)

lemma dhcp_payload:
  assumes "FDhcp d \<in> set (payload_facts ops frame ethertype off)"
  shows "ethertype = ETHERTYPE_IPV4"
proof (rule ccontr)
  assume "ethertype \<noteq> ETHERTYPE_IPV4"
  then have "list_all not_dhcp (payload_facts ops frame ethertype off)"
    by (simp add: payload_facts_def Let_def not_dhcp_decoders) (simp add: not_dhcp_def split: option.splits)
  with assms show False by (auto simp: list_all_iff not_dhcp_def)
qed

text \<open>An association comes from one counted tag and from nothing but DHCP behind it.\<close>

lemma vlan_network_decoded:
  "FVlanNetwork v n \<in> set (decode_frame ops frame) \<longleftrightarrow>
     (\<exists>off d. 14 \<le> length frame \<and> unwrap_tags frame 12 = ([v], Some off) \<and>
        read_u16 frame off = Some ETHERTYPE_IPV4 \<and>
        FDhcp d \<in> set (decode_ipv4 ops (mac_text (take 6 (drop 6 frame))) (drop (off + 2) frame)) \<and>
        joins ops n d)"
proof -
  obtain ids after_tags where tags: "unwrap_tags frame 12 = (ids, after_tags)" by fastforce
  have ip: "payload_facts ops frame ETHERTYPE_IPV4 off =
      decode_ipv4 ops (mac_text (take 6 (drop 6 frame))) (drop (off + 2) frame)" for off
    by (simp add: payload_facts_def Let_def ETHERTYPE_ARP_def ETHERTYPE_IPV4_def)
  have big: "\<not> ETHERTYPE_IPV4 \<le> MAX_802_3_LENGTH" by code_simp
  show ?thesis
  proof (cases "14 \<le> length frame \<and> (\<exists>off ethertype. after_tags = Some off \<and> read_u16 frame off = Some ethertype \<and>
      MAX_802_3_LENGTH < ethertype)")
    case True
    then obtain off ethertype where t: "after_tags = Some off" "read_u16 frame off = Some ethertype"
      "\<not> ethertype \<le> MAX_802_3_LENGTH" "14 \<le> length frame" by (auto simp: not_le)
    have "decode_frame ops frame = join_tagged_prefix ops (map FVlan ids @ payload_facts ops frame ethertype off)"
      using t tags by (simp add: decode_frame_def payload_facts_def Let_def)
    then show ?thesis
      using join_iff [OF plain_payload, of v n ops ids ops frame ethertype off] dhcp_payload tags t ip [of off]
      by (metis option.inject prod.inject)
  next
    case False
    then show ?thesis
      using tags big llc_facts_no_network
      by (auto simp: decode_frame_def Let_def not_le split: option.splits if_splits)
  qed
qed

text \<open>A frame as a station sends it, with its tags in front of its type.\<close>

definition vlan_tag :: "u16 \<times> u16 \<Rightarrow> bytes" where
  "vlan_tag t = u16_bytes (fst t) @ u16_bytes (snd t)"

definition tag_vlan :: "u16 \<times> u16 \<Rightarrow> u16" where
  "tag_vlan t = snd t AND 0x0FFF"

definition tag_ok :: "u16 \<times> u16 \<Rightarrow> bool" where
  "tag_ok t \<longleftrightarrow> is_tag (Some (fst t)) \<and> tag_vlan t \<noteq> 0 \<and> tag_vlan t \<noteq> 0x0FFF"

definition tagged_frame :: "bytes \<Rightarrow> bytes \<Rightarrow> (u16 \<times> u16) list \<Rightarrow> u16 \<Rightarrow> bytes \<Rightarrow> bytes" where
  "tagged_frame destination source tags ethertype payload =
     destination @ source @ concat (map vlan_tag tags) @ u16_bytes ethertype @ payload"

lemma read_u16_placed: "off = length pre \<Longrightarrow> read_u16 (pre @ u16_bytes w @ post) off = Some w"
  by (simp add: read_u16_def u16_at_def u16_bytes_def nth_append be16_bytes)

lemma unwrap_encoded:
  assumes "list_all tag_ok tags" and "\<not> is_tag (Some ethertype)"
  shows "unwrap_tags (pre @ concat (map vlan_tag tags) @ u16_bytes ethertype @ payload) (length pre) =
     (map tag_vlan tags, Some (length pre + 4 * length tags))"
  using assms(1)
proof (induction tags arbitrary: pre)
  case Nil
  then show ?case using assms(2) by (simp add: unwrap_tags.simps read_u16_placed)
next
  case (Cons t tags)
  let ?rest = "concat (map vlan_tag tags) @ u16_bytes ethertype @ payload"
  let ?frame = "pre @ u16_bytes (fst t) @ u16_bytes (snd t) @ ?rest"
  have size: "length (u16_bytes w) = 2" for w by (simp add: u16_bytes_def)
  have frame: "pre @ concat (map vlan_tag (t # tags)) @ u16_bytes ethertype @ payload = ?frame"
    by (simp add: vlan_tag_def)
  have "read_u16 ?frame (length pre) = Some (fst t)" by (rule read_u16_placed) simp
  moreover have "read_u16 ?frame (length pre + 2) = Some (snd t)"
    using read_u16_placed [of "length pre + 2" "pre @ u16_bytes (fst t)" "snd t" ?rest] by (simp add: size)
  moreover have "unwrap_tags ?frame (length pre + 4) = (map tag_vlan tags, Some (length pre + 4 + 4 * length tags))"
    using Cons.IH [of "pre @ u16_bytes (fst t) @ u16_bytes (snd t)"] Cons.prems by (simp add: size add.assoc)
  ultimately show ?case
    unfolding frame using Cons.prems by (subst unwrap_tags.simps) (simp add: tag_ok_def tag_vlan_def)
qed

text \<open>
  C20: the VLANs a frame associates with a prefix. Take a frame with any addresses, any stack of tags that
  each carry a VLAN of their own (neither 0 nor 4095, which are reserved), any type and any payload, and a
  prefix that is not the whole address space. The frame associates a VLAN with the prefix exactly when it
  has one tag, with that VLAN, its payload is IPv4, and that is a DHCP message the decoder reads as an ACK
  that was not relayed, with an assigned address and a contiguous option 1 mask, of which the prefix is the
  network. A stack of two tags associates nothing, nor does any route, router address or other protocol.
\<close>

theorem vlan_network_exact:
  assumes "length destination = 6" and "length source = 6" and "list_all tag_ok tags"
    and "\<not> is_tag (Some ethertype)" and "n = V4Net base len" and "0 < len"
  shows "FVlanNetwork v n \<in> set (decode_frame ops (tagged_frame destination source tags ethertype payload)) \<longleftrightarrow>
     map tag_vlan tags = [v] \<and> ethertype = ETHERTYPE_IPV4 \<and> len \<le> 32 \<and>
     (\<exists>d address. FDhcp d \<in> set (decode_ipv4 ops (mac_text source) payload) \<and>
        df_message_type d = Some DHCP_ACK \<and> \<not> df_relayed d \<and> df_assigned d = Some address \<and>
        df_subnet_mask d = Some (netmask len) \<and> base = trunc4 ops address len)"
proof -
  let ?frame = "tagged_frame destination source tags ethertype payload"
  let ?off = "12 + 4 * length tags"
  have tags: "unwrap_tags ?frame 12 = (map tag_vlan tags, Some ?off)"
    using unwrap_encoded [OF assms(3,4), of "destination @ source" payload] assms(1,2)
    by (simp add: tagged_frame_def)
  have size: "length (concat (map vlan_tag tags)) = 4 * length tags" for tags
    by (induction tags) (simp_all add: vlan_tag_def u16_bytes_def)
  have type: "read_u16 ?frame ?off = Some ethertype"
    using read_u16_placed [of ?off "destination @ source @ concat (map vlan_tag tags)" ethertype payload] assms(1,2)
    by (simp add: tagged_frame_def size)
  have rest: "drop (?off + 2) ?frame = payload" "take 6 (drop 6 ?frame) = source" "14 \<le> length ?frame"
    using assms(1,2) by (simp_all add: tagged_frame_def size u16_bytes_def)
  have "joins ops n d \<longleftrightarrow> len \<le> 32 \<and> (\<exists>address. df_message_type d = Some DHCP_ACK \<and> \<not> df_relayed d \<and>
      df_assigned d = Some address \<and> df_subnet_mask d = Some (netmask len) \<and> base = trunc4 ops address len)" for d
    using assms(5) by (auto simp: joins_def contiguous_prefix_len_iff)
  with tags type rest show ?thesis
    unfolding vlan_network_decoded by auto
qed

text \<open>An ACK of \<open>10.0.0.5/24\<close> on VLAN 7.\<close>

definition sample_ack :: bytes where
  "sample_ack =
     [0x45] @ replicate 8 0 @ [17] @ replicate 10 0 @ [0, 67, 0, 68] @ replicate 4 0 @
     [2, 1, 6] @ replicate 13 0 @ [10, 0, 0, 5] @ replicate 216 0 @ [0x63, 0x82, 0x53, 0x63] @
     [53, 1, 5, 1, 4, 255, 255, 255, 0, 255]"

definition sample_lease :: "string \<Rightarrow> dhcp_fact" where
  "sample_lease mac =
     \<lparr>df_server_mac = mac, df_assigned = Some 0x0A000005, df_subnet_mask = Some 0xFFFFFF00, df_routers = [],
      df_classless_routes = [], df_message_type = Some DHCP_ACK, df_relayed = False\<rparr>"

lemma sample_ack_read:
  "decode_ipv4 ipnet_model (mac_text (replicate 6 2)) sample_ack = [FDhcp (sample_lease (mac_text (replicate 6 2)))]"
  by code_simp

theorem vlan_network_exact_witness:
  "FVlanNetwork 7 (V4Net 0x0A000000 24) \<in>
     set (decode_frame ipnet_model (tagged_frame (replicate 6 255) (replicate 6 2) [(0x8100, 7)] 0x0800 sample_ack)) \<and>
   FVlanNetwork 7 (V4Net 0x0A000000 24) \<notin>
     set (decode_frame ipnet_model
       (tagged_frame (replicate 6 255) (replicate 6 2) [(0x88A8, 9), (0x8100, 7)] 0x0800 sample_ack))"
proof -
  have ok: "list_all tag_ok [(0x8100, 7)]" "list_all tag_ok [(0x88A8, 9), (0x8100, 7)]" "\<not> is_tag (Some 0x0800)"
    by code_simp+
  have vid: "tag_vlan (0x8100, 7) = 7" by code_simp
  have net: "netmask 24 = (0xFFFFFF00 :: 32 word)" "trunc4 ipnet_model 0x0A000005 24 = 0x0A000000" by code_simp+
  show ?thesis
    using vlan_network_exact [OF _ _ ok(1,3), of "replicate 6 255" "replicate 6 2" "V4Net 0x0A000000 24" "0x0A000000" 24 7 ipnet_model sample_ack]
      vlan_network_exact [OF _ _ ok(2,3), of "replicate 6 255" "replicate 6 2" "V4Net 0x0A000000 24" "0x0A000000" 24 7 ipnet_model sample_ack]
    by (simp add: vid net sample_ack_read sample_lease_def ETHERTYPE_IPV4_def)
qed

section \<open>The tally\<close>

fun is_update :: "frame_fact \<Rightarrow> bool" where
  "is_update (FRoutingUpdate u) = True" | "is_update _ = False"

fun is_request :: "frame_fact \<Rightarrow> bool" where
  "is_request (FRoutingRequest m p) = True" | "is_request _ = False"

fun is_rejected_rip :: "frame_fact \<Rightarrow> bool" where
  "is_rejected_rip (FRoutingUpdateRejected m p) = starts_with p ''RIP''" | "is_rejected_rip _ = False"

fun is_own_request :: "string option \<Rightarrow> frame_fact \<Rightarrow> bool" where
  "is_own_request (Some l) (FRoutingRequest m p) = (to_ascii_lowercase l = to_ascii_lowercase m)"
| "is_own_request _ _ = False"

definition number :: "(frame_fact \<Rightarrow> bool) \<Rightarrow> frame_fact list \<Rightarrow> nat" where
  "number P fs = length (filter P fs)"

lemma number_simps [simp]: "number P [] = 0" "number P (f # fs) = (if P f then 1 else 0) + number P fs"
  by (simp_all add: number_def)

lemma number_le: "number P fs \<le> length fs"
  by (simp add: number_def)

lemma noted:
  "ta_updates (fold (note_fact mac) fs t) = ta_updates t + word_of_nat (number is_update fs)"
  "ta_requests (fold (note_fact mac) fs t) = ta_requests t + word_of_nat (number is_request fs)"
  "ta_local_requests (fold (note_fact mac) fs t) = ta_local_requests t + word_of_nat (number (is_own_request mac) fs)"
  "ta_datagrams (fold (note_fact mac) fs t) =
     ta_datagrams t + word_of_nat (number is_update fs + number is_request fs + number is_rejected_rip fs)"
proof (induction fs arbitrary: t)
  case (Cons f fs)
  {
    case 1
    then show ?case using Cons(1) by (cases f) simp_all
  next
    case 2
    then show ?case using Cons(2) by (cases f) simp_all
  next
    case 3
    then show ?case using Cons(3) by (cases f; cases mac) simp_all
  next
    case 4
    then show ?case using Cons(4) by (cases f) simp_all
  }
qed simp_all

lemma number_disjoint: "number is_update fs + number is_request fs + number is_rejected_rip fs \<le> length fs"
proof (induction fs)
  case (Cons f fs)
  then show ?case by (cases f) simp_all
qed simp

lemma own_are_requests: "number (is_own_request mac) fs \<le> number is_request fs"
proof (induction fs)
  case (Cons f fs)
  then show ?case by (cases f; cases mac) simp_all
qed simp

lemma unat_below: "n < 2 ^ 64 \<Longrightarrow> unat (word_of_nat n :: u64) = n"
  by (simp add: unat_of_nat take_bit_eq_mod)

text \<open>
  The routing counters are exact while fewer than $2^{64}$ facts have been noted: updates, requests
  and requests of this host are each counted once, what \<open>describe\<close> calls invalid
  (\<open>datagrams.saturating_sub(updates + requests)\<close>, whose sum then does not overflow) is the number of RIP
  datagrams that failed validation, and this host's requests never exceed all requests, so that their
  difference does not underflow.
\<close>

theorem tally_exact:
  assumes "length facts < 2 ^ 64" and t_def: "t = fold (note_fact mac) facts tally_default"
  shows "unat (ta_updates t) = number is_update facts \<and> unat (ta_requests t) = number is_request facts \<and>
    unat (ta_local_requests t) = number (is_own_request mac) facts \<and>
    unat (ta_updates t + ta_requests t) = number is_update facts + number is_request facts \<and>
    unat (ta_datagrams t) = unat (ta_updates t + ta_requests t) + number is_rejected_rip facts \<and>
    ta_local_requests t \<le> ta_requests t"
proof -
  have "ta_updates t = word_of_nat (number is_update facts)" "ta_requests t = word_of_nat (number is_request facts)"
    "ta_local_requests t = word_of_nat (number (is_own_request mac) facts)"
    "ta_datagrams t = word_of_nat (number is_update facts + number is_request facts + number is_rejected_rip facts)"
    unfolding t_def by (simp_all add: noted tally_default_def)
  moreover have "ta_updates t + ta_requests t = word_of_nat (number is_update facts + number is_request facts)"
    using calculation by simp
  moreover note bounds = number_disjoint [of facts] own_are_requests [of mac facts] assms(1)
  ultimately show ?thesis
    using unat_below [of "number is_update facts"] unat_below [of "number is_request facts"]
      unat_below [of "number (is_own_request mac) facts"]
      unat_below [of "number is_update facts + number is_request facts"]
      unat_below [of "number is_update facts + number is_request facts + number is_rejected_rip facts"]
    by (simp only: word_le_nat_alt)
qed

theorem tally_exact_witness:
  "unat (ta_datagrams (fold (note_fact (Some ''0A:00'')) [FRoutingRequest ''0a:00'' ''RIPv2'', FVlan 7,
     FRoutingUpdateRejected ''02:00'' ''RIPng''] tally_default)) = 2"
  using tally_exact [OF _ refl, of "[FRoutingRequest ''0a:00'' ''RIPv2'', FVlan 7, FRoutingUpdateRejected ''02:00'' ''RIPng'']"
      "Some ''0A:00''"] by simp

section \<open>Option 121 is read back\<close>

text \<open>One route as RFC 3442 writes it: the length, the significant bytes of the destination, the router.\<close>

definition route_option :: "32 word \<times> nat \<times> 32 word \<Rightarrow> bytes" where
  "route_option r = (case r of (dest, n, hop) \<Rightarrow>
     word_of_nat n # take ((n + 7) div 8) (u32_bytes dest) @ u32_bytes hop)"

definition truncated_route :: "32 word \<times> nat \<times> 32 word \<Rightarrow> bool" where
  "truncated_route r = (case r of (dest, n, hop) \<Rightarrow> n \<le> 32 \<and> dest AND netmask n = dest)"

lemma host_bits_clear:
  assumes "dest AND netmask n = (dest :: 32 word)" and "n \<le> 32" and "i + n < 32"
  shows "\<not> bit dest i"
proof -
  have "bit dest i \<longleftrightarrow> bit (dest AND netmask n) i" using assms(1) by simp
  then show ?thesis using assms(2,3) by (auto simp: bit_and_iff bit_netmask)
qed

lemma low_byte_clear:
  assumes "dest AND netmask n = (dest :: 32 word)" and "n \<le> 32" and "k + 8 + n \<le> 32"
  shows "ucast (drop_bit k dest) = (0 :: u8)"
proof (rule bit_word_eqI)
  fix i assume "i < LENGTH(8)"
  then show "bit (ucast (drop_bit k dest) :: u8) i = bit (0 :: u8) i"
    using host_bits_clear [OF assms(1,2), of "k + i"] assms(3) by (simp add: bit_simps)
qed

lemma replicate_small:
  "replicate 2 z = [z, z]" "replicate 3 z = [z, z, z]" "replicate 4 z = [z, z, z, z]"
  by (simp_all add: eval_nat_numeral)

lemma significant_bytes:
  assumes "dest AND netmask n = (dest :: 32 word)" and "n \<le> 32"
  shows "take ((n + 7) div 8) (u32_bytes dest) @ replicate (4 - (n + 7) div 8) 0 = u32_bytes dest"
proof -
  note clear = low_byte_clear [OF assms]
  consider "n = 0" | "1 \<le> n \<and> n \<le> 8" | "9 \<le> n \<and> n \<le> 16" | "17 \<le> n \<and> n \<le> 24" | "25 \<le> n \<and> n \<le> 32"
    using assms(2) by linarith
  then show ?thesis
  proof cases
    case 1
    then show ?thesis using clear [of 0] clear [of 8] clear [of 16] clear [of 24]
      by (simp add: u32_bytes_def replicate_small)
  next
    case 2
    then have "(n + 7) div 8 = 1" by linarith
    then show ?thesis using 2 clear [of 0] clear [of 8] clear [of 16] by (simp add: u32_bytes_def replicate_small)
  next
    case 3
    then have "(n + 7) div 8 = 2" by linarith
    then show ?thesis using 3 clear [of 0] clear [of 8] by (simp add: u32_bytes_def replicate_small)
  next
    case 4
    then have "(n + 7) div 8 = 3" by linarith
    then show ?thesis using 4 clear [of 0] by (simp add: u32_bytes_def replicate_small)
  next
    case 5
    then have "(n + 7) div 8 = 4" by linarith
    then show ?thesis by (simp add: u32_bytes_def)
  qed
qed

lemma u32_at_bytes: "u32_at (u32_bytes w @ rest) 0 = w"
  by (simp add: u32_at_def u32_bytes_def be32_bytes)

lemma decode_one_route:
  assumes "truncated_route (dest, n, hop)"
  shows "decode_classless_routes (route_option (dest, n, hop) @ rest) = (dest, n, hop) # decode_classless_routes rest"
proof -
  let ?s = "(n + 7) div 8"
  have n: "n \<le> 32" "dest AND netmask n = dest" using assms by (simp_all add: truncated_route_def)
  then have s: "?s \<le> 4" by linarith
  have len: "unat (word_of_nat n :: u8) = n" using n by (simp add: unat_of_nat take_bit_eq_mod)
  have small: "\<not> (32 :: u8) < word_of_nat n" using n len by (simp add: word_less_nat_alt)
  let ?rest = "take ?s (u32_bytes dest) @ u32_bytes hop @ rest"
  have parts: "length (u32_bytes dest) = 4" "length (u32_bytes hop) = 4" "length (take ?s (u32_bytes dest)) = ?s"
    using s by (simp_all add: u32_bytes_def)
  have "take ?s ?rest @ replicate (4 - ?s) 0 = u32_bytes dest"
    using significant_bytes [OF n(2,1)] parts by simp
  then have "u32_at (take ?s ?rest @ replicate (4 - ?s) 0) 0 = dest" using u32_at_bytes [of dest "[]"] by simp
  moreover have "u32_at (drop ?s ?rest) 0 = hop" using parts by (simp add: u32_at_bytes)
  moreover have "drop (?s + 4) ?rest = rest" using parts by simp
  moreover have "length ?rest = ?s + 4 + length rest" using parts by simp
  ultimately show ?thesis
    by (subst decode_classless_routes.simps) (simp add: route_option_def small len Let_def)
qed

text \<open>
  Every list of classless static routes, written into option 121 with only the significant bytes of
  each destination, is read back in full; the default route and host routes included.
\<close>

theorem classless_routes_round_trip:
  assumes "list_all truncated_route routes"
  shows "decode_classless_routes (concat (map route_option routes)) = routes"
  using assms
proof (induction routes)
  case Nil
  then show ?case by (simp add: decode_classless_routes.simps)
next
  case (Cons r rs)
  then show ?case by (cases r) (simp add: decode_one_route)
qed

theorem classless_routes_round_trip_witness:
  "decode_classless_routes [0, 10, 0, 0, 1, 12, 172, 16, 10, 0, 0, 2] =
     [(0, 0, 0x0A000001), (0xAC100000, 12, 0x0A000002)]"
proof -
  have "concat (map route_option [(0, 0, 0x0A000001), (0xAC100000, 12, 0x0A000002)]) =
      [0, 10, 0, 0, 1, 12, 172, 16, 10, 0, 0, 2]" by code_simp
  moreover have "list_all truncated_route [(0, 0, 0x0A000001), (0xAC100000, 12, 0x0A000002)]" by code_simp
  ultimately show ?thesis using classless_routes_round_trip by metis
qed

section \<open>The control plane\<close>

lemma mset_split: "mset (map f (filter P xs)) + mset (map f (filter (\<lambda>x. \<not> P x) xs)) = mset (map f xs)"
  by (induction xs) simp_all

text \<open>
  Of the prefixes an OSPF packet lists, each is either promoted or reported and none is dropped; the
  networks its evidence establishes are exactly those that are not withdrawn, from a packet whose
  authentication leaves its routes verifiable. A packet under a digest establishes no network at all.
\<close>

theorem ospf_prefixes_are_split:
  "mset (map fst (cp_current (control_plane_fact mac sender packet))) +
     mset (map fst (cp_reported_only (control_plane_fact mac sender packet))) =
     mset (map ap_prefix (op_prefixes packet)) \<and>
   (network_in n (convert_fact x sc (FControlPlane (control_plane_fact mac sender packet))) \<longleftrightarrow>
     (\<exists>p \<in> set (op_prefixes packet). ap_prefix p = n \<and> \<not> ap_withdrawn p \<and>
        routes_are_verifiable (op_authentication packet)))"
proof -
  let ?ok = "\<lambda>p. routes_are_verifiable (op_authentication packet) \<and> \<not> ap_withdrawn p"
  have "map fst (cp_current (control_plane_fact mac sender packet)) = map ap_prefix (filter ?ok (op_prefixes packet))"
    "map fst (cp_reported_only (control_plane_fact mac sender packet)) =
       map ap_prefix (filter (\<lambda>p. \<not> ?ok p) (op_prefixes packet))"
    unfolding control_plane_fact_def Let_def by simp_all
  then have "mset (map fst (cp_current (control_plane_fact mac sender packet))) +
      mset (map fst (cp_reported_only (control_plane_fact mac sender packet))) = mset (map ap_prefix (op_prefixes packet))"
    by (simp only: mset_split)
  moreover have "network_in n (convert_fact x sc (FControlPlane (control_plane_fact mac sender packet))) \<longleftrightarrow>
      (\<exists>p \<in> set (op_prefixes packet). ap_prefix p = n \<and> ?ok p)"
    unfolding converted_networks stated_networks.simps control_plane_fact_def Let_def by auto
  ultimately show ?thesis by blast
qed

section \<open>What is read that should not be, and what is not\<close>

text \<open>\<open>seen\<close> lives for one drain, so a fact that recurs in a later drain is given again.\<close>

lemma repeated_across_drains:
  "map ev_fact (given_for x i [(c, [FVlan 7, FVlan 7]), (d, [FVlan 7])]) = [fact.Vlan 7, fact.Vlan 7]"
  by (simp add: given_for_def convert_unscoped_def convert_def)

text \<open>A reserved tag is not counted, so two tags pass for one: the outer tag here is a priority tag.\<close>

lemma two_tags_pass_for_one:
  "unwrap_tags (replicate 12 0 @ [0x88, 0xA8, 0, 0, 0x81, 0x00, 0, 7, 0x08, 0x00]) 12 = ([7], Some 20)"
  by code_simp

text \<open>A tagged ACK whose option 1 is \<open>0.0.0.0\<close> puts the whole address space on the VLAN.\<close>

lemma default_route_joined:
  "joins ipnet_model (V4Net 0 0)
     \<lparr>df_server_mac = [], df_assigned = Some 0x0A000005, df_subnet_mask = Some 0, df_routers = [],
      df_classless_routes = [], df_message_type = Some DHCP_ACK, df_relayed = False\<rparr>"
proof -
  have "contiguous_prefix_len 0 = Some 0" "trunc4 ipnet_model 0x0A000005 0 = 0" by code_simp+
  then show ?thesis unfolding joins_def by simp
qed

text \<open>An LLDP announcement is decoded untagged and lost under a tag.\<close>

definition lldp_tlvs :: bytes where
  "lldp_tlvs = [0x02, 0x07, 4, 0, 1, 2, 3, 4, 5, 0x04, 0x03, 5, 0x61, 0x62, 0, 0]"

lemma tagged_lldp_is_lost:
  "map (\<lambda>f. case f of FLinkLayerNeighbor n \<Rightarrow> ll_port_id n | _ \<Rightarrow> [])
     (decode_frame ipnet_model (replicate 12 0 @ [0x88, 0xCC] @ lldp_tlvs)) = [''ab'']"
  "decode_frame ipnet_model (replicate 12 0 @ [0x81, 0x00, 0, 7, 0x88, 0xCC] @ lldp_tlvs) = [FVlan 7]"
  by code_simp+

end
