(* ===== verification/Binding.thy ===== *)
theory Binding
  imports Graph_Query Rust_Text Net_Bytes Ip_Text
begin

text \<open>
  Where probes leave from: endpoints with their zone (\<open>src/src/net/endpoint.rs\<close>), the addresses of
  the local interfaces and the choice of a starting network (\<open>src/src/net/interface.rs\<close>), the binding
  of sockets to one interface (\<open>src/src/net/socket.rs\<close>) and the classification of a vantage
  (\<open>src/src/net/vantage.rs\<close>). What the operating system answers is an argument: the list of
  interfaces, the default route, and the outcome of each call on a socket. A socket is the sequence of
  calls made on it; a call that must succeed ends the sequence with its error, one whose refusal is
  ignored does not. The model is that of the Unix build.
\<close>

section \<open>Endpoints\<close>

datatype socket_addr = SockV4 "32 word" u16 | SockV6 "128 word" u16 u32 u32

fun sock_is_ipv4 :: "socket_addr \<Rightarrow> bool" where
  "sock_is_ipv4 (SockV4 _ _) = True"
| "sock_is_ipv4 (SockV6 _ _ _ _) = False"

fun sock_ip :: "socket_addr \<Rightarrow> ip_addr" where
  "sock_ip (SockV4 a _) = V4 a"
| "sock_ip (SockV6 a _ _ _) = V6 a"

text \<open>\<open>Display\<close> of a socket address: the scope of an IPv6 one only when there is one.\<close>

fun sock_to_string :: "socket_addr \<Rightarrow> string" where
  "sock_to_string (SockV4 a p) = ipv4_to_string a @ '':'' @ decimal (uint p)"
| "sock_to_string (SockV6 a p flow scope) =
     ''['' @ ipv6_to_string a @ (if scope = 0 then [] else ''%'' @ decimal (uint scope)) @ '']:'' @
     decimal (uint p)"

record endpoint =
  ep_address :: ip_addr
  ep_zone :: "string option"
  ep_zone_index :: u32

fun endpoint_requires_zone :: "ip_addr \<Rightarrow> bool" where
  "endpoint_requires_zone (V4 _) = False"
| "endpoint_requires_zone (V6 a) = is_link_local6 a"

definition endpoint_scoped :: "ip_addr \<Rightarrow> string option \<Rightarrow> u32 \<Rightarrow> endpoint" where
  "endpoint_scoped address zone zone_index =
     (let needs_zone = endpoint_requires_zone address
      in \<lparr>ep_address = address,
          ep_zone = (if needs_zone then zone else None),
          ep_zone_index = (if needs_zone then zone_index else 0)\<rparr>)"

definition endpoint_new :: "(string \<Rightarrow> u32) \<Rightarrow> ip_addr \<Rightarrow> string option \<Rightarrow> endpoint" where
  "endpoint_new interface_index address zone =
     endpoint_scoped address zone (case zone of Some z \<Rightarrow> interface_index z | None \<Rightarrow> 0)"

definition endpoint_global :: "ip_addr \<Rightarrow> endpoint" where
  "endpoint_global address = \<lparr>ep_address = address, ep_zone = None, ep_zone_index = 0\<rparr>"

definition endpoint_is_ipv4 :: "endpoint \<Rightarrow> bool" where
  "endpoint_is_ipv4 e = (case ep_address e of V4 _ \<Rightarrow> True | V6 _ \<Rightarrow> False)"

definition endpoint_socket_addr :: "endpoint \<Rightarrow> u16 \<Rightarrow> socket_addr" where
  "endpoint_socket_addr e port =
     (case ep_address e of
        V4 a \<Rightarrow> SockV4 a port
      | V6 a \<Rightarrow> SockV6 a port 0 (ep_zone_index e))"

definition endpoint_host_literal :: "endpoint \<Rightarrow> string" where
  "endpoint_host_literal e =
     (case ep_address e of
        V4 a \<Rightarrow> ipv4_to_string a
      | V6 a \<Rightarrow> ''['' @ ipv6_to_string a @ '']'')"

definition endpoint_to_string :: "endpoint \<Rightarrow> string" where
  "endpoint_to_string e =
     (case ep_zone e of
        Some zone \<Rightarrow> ip_to_string (ep_address e) @ ''%'' @ zone
      | None \<Rightarrow> ip_to_string (ep_address e))"

section \<open>Local interfaces\<close>

datatype if_addr = IfV4 "32 word" "32 word" | IfV6 "128 word" "128 word"

record if_entry =
  if_name :: string
  if_loopback :: bool
  if_address :: if_addr

record interface_address =
  ia_interface :: string
  ia_ip :: ip_addr
  ia_cidr :: ip_net

datatype address_use = NetworkPrefix | SocketSource

text \<open>\<open>eq_ignore_ascii_case\<close>, and the trimming of Unicode white space.\<close>

definition eq_ignore_case :: "string \<Rightarrow> string \<Rightarrow> bool" where
  "eq_ignore_case s t \<longleftrightarrow> to_ascii_lowercase s = to_ascii_lowercase t"

definition trim_text :: "string \<Rightarrow> string" where
  "trim_text s = utf8_encode (trim (utf8_decode s))"

definition usable_address ::
    "ipnet_ops \<Rightarrow> address_use \<Rightarrow> if_entry \<Rightarrow> interface_address option" where
  "usable_address ops purpose entry =
     (if if_loopback entry then None
      else case if_address entry of
        IfV4 ip nmask \<Rightarrow>
          if is_unspecified4 ip \<or> is_link_local4 ip then None
          else map_option
                 (\<lambda>n. \<lparr>ia_interface = if_name entry, ia_ip = V4 ip, ia_cidr = V4Net (trunc4 ops ip n) n\<rparr>)
                 (contiguous_prefix_len nmask)
      | IfV6 ip nmask \<Rightarrow>
          if is_unspecified6 ip \<or> is_link_local6 ip \<and> purpose = NetworkPrefix then None
          else map_option
                 (\<lambda>n. \<lparr>ia_interface = if_name entry, ia_ip = V6 ip, ia_cidr = V6Net (trunc6 ops ip n) n\<rparr>)
                 (contiguous_prefix_len_v6 nmask))"

definition list_addresses ::
    "ipnet_ops \<Rightarrow> if_entry list option \<Rightarrow> address_use \<Rightarrow> interface_address list" where
  "list_addresses ops ifaddrs purpose =
     (case ifaddrs of
        None \<Rightarrow> []
      | Some entries \<Rightarrow> List.map_filter (usable_address ops purpose) entries)"

definition list_interface_addresses :: "ipnet_ops \<Rightarrow> if_entry list option \<Rightarrow> interface_address list" where
  "list_interface_addresses ops ifaddrs = list_addresses ops ifaddrs NetworkPrefix"

definition list_socket_sources :: "ipnet_ops \<Rightarrow> if_entry list option \<Rightarrow> interface_address list" where
  "list_socket_sources ops ifaddrs = list_addresses ops ifaddrs SocketSource"

record local_network_info =
  ln_interface :: string
  ln_ip :: "32 word"
  ln_netmask :: "32 word"
  ln_prefix_len :: nat
  ln_cidr :: ip_net
  ln_default_gateway :: "32 word option"

definition local_network_info_new ::
    "ipnet_ops \<Rightarrow> string \<Rightarrow> 32 word \<Rightarrow> 32 word \<Rightarrow> string + local_network_info" where
  "local_network_info_new ops interface ip nmask =
     (case contiguous_prefix_len nmask of
        None \<Rightarrow> Inl (ipv4_to_string nmask @ '' is not a contiguous netmask'')
      | Some n \<Rightarrow>
          Inr \<lparr>ln_interface = interface, ln_ip = ip, ln_netmask = nmask, ln_prefix_len = n,
               ln_cidr = V4Net (trunc4 ops ip n) n, ln_default_gateway = None\<rparr>)"

definition ipv4_interface :: "ipnet_ops \<Rightarrow> if_entry \<Rightarrow> local_network_info option" where
  "ipv4_interface ops entry =
     (if if_loopback entry then None
      else case if_address entry of
        IfV4 ip nmask \<Rightarrow>
          if is_link_local4 ip \<or> is_unspecified4 ip then None
          else (case local_network_info_new ops (if_name entry) ip nmask of
                  Inl _ \<Rightarrow> None
                | Inr info \<Rightarrow> Some info)
      | IfV6 _ _ \<Rightarrow> None)"

text \<open>The error of \<open>get_if_addrs\<close> is the left value of the argument.\<close>

definition list_ipv4_interfaces ::
    "ipnet_ops \<Rightarrow> string + if_entry list \<Rightarrow> string + local_network_info list" where
  "list_ipv4_interfaces ops ifaddrs =
     (case ifaddrs of
        Inl e \<Rightarrow> Inl (''Failed to read network interfaces: '' @ e)
      | Inr entries \<Rightarrow> Inr (List.map_filter (ipv4_interface ops) entries))"

definition get_interface_by_name ::
    "ipnet_ops \<Rightarrow> string + if_entry list \<Rightarrow> string \<Rightarrow> string + local_network_info" where
  "get_interface_by_name ops ifaddrs name =
     (case list_ipv4_interfaces ops ifaddrs of
        Inl e \<Rightarrow> Inl e
      | Inr all \<Rightarrow>
          (case List.find (\<lambda>i. eq_ignore_case (ln_interface i) name) all of
             None \<Rightarrow> Inl (''Interface '' @ [CHR 0x27] @ name @ [CHR 0x27] @
                          '' not found or has no active IPv4 address.'')
           | Some info \<Rightarrow> Inr info))"

text \<open>The names taken for a physical interface; \<open>lower\<close> is \<open>str::to_lowercase\<close>.\<close>

definition physical_name :: "(string \<Rightarrow> string) \<Rightarrow> string \<Rightarrow> bool" where
  "physical_name lower interface =
     (let name = lower interface
      in (starts_with name ''en'' \<or> starts_with name ''eth'' \<or> starts_with name ''wl'') \<and>
         \<not> str_contains name ''docker'' \<and> \<not> str_contains name ''utun'' \<and>
         \<not> str_contains name ''bridge'' \<and> \<not> str_contains name ''vbox'')"

definition detect_local_network ::
    "(string \<Rightarrow> string) \<Rightarrow> ipnet_ops \<Rightarrow> string + if_entry list \<Rightarrow> (string \<times> 32 word option) option \<Rightarrow>
     string + local_network_info" where
  "detect_local_network lower ops ifaddrs kernel_default_route =
     (case list_ipv4_interfaces ops ifaddrs of
        Inl e \<Rightarrow> Inl e
      | Inr [] \<Rightarrow> Inl ''No active IPv4 network interfaces found on system.''
      | Inr (first # others) \<Rightarrow>
          (let all = first # others;
               gateway = Option.bind kernel_default_route snd;
               routed = (case kernel_default_route of
                           None \<Rightarrow> None
                         | Some (iface, _) \<Rightarrow>
                             List.find (\<lambda>i. eq_ignore_case (ln_interface i) iface \<or>
                                            ipv4_to_string (ln_ip i) = iface) all);
               preferred = List.find (\<lambda>i. physical_name lower (ln_interface i)) all;
               chosen = (case routed of Some i \<Rightarrow> i | None \<Rightarrow>
                          (case preferred of Some i \<Rightarrow> i | None \<Rightarrow> first))
           in Inr (chosen\<lparr>ln_default_gateway := gateway\<rparr>)))"

definition ends_with :: "string \<Rightarrow> string \<Rightarrow> bool" where
  "ends_with s t = starts_with (rev s) (rev t)"

definition resolve_target ::
    "(string \<Rightarrow> string) \<Rightarrow> ipnet_ops \<Rightarrow> (string \<Rightarrow> string + (32 word \<times> nat)) \<Rightarrow>
     string + if_entry list \<Rightarrow> (string \<times> 32 word option) option \<Rightarrow> string option \<Rightarrow> string option \<Rightarrow>
     string + (ip_net \<times> local_network_info option)" where
  "resolve_target lower ops v4net_from_str ifaddrs route target_opt interface_opt =
     (let whole = (\<lambda>r. case r of Inl e \<Rightarrow> Inl e | Inr info \<Rightarrow> Inr (ln_cidr info, Some info))
      in case interface_opt of
           Some name \<Rightarrow> whole (get_interface_by_name ops ifaddrs name)
         | None \<Rightarrow>
             if target_opt = None \<or> target_opt = Some ''auto''
             then whole (detect_local_network lower ops ifaddrs route)
             else
               let target = trim_text (the target_opt)
               in case get_interface_by_name ops ifaddrs target of
                    Inr info \<Rightarrow> Inr (ln_cidr info, Some info)
                  | Inl _ \<Rightarrow>
                      if ends_with target ''/0'' then
                        Inl (''Ambiguous target '' @ [CHR 0x27] @ target @ [CHR 0x27] @
                             '': /0 prefix is not a valid local subnet. Please specify an explicit CIDR (e.g. 192.168.1.0/24).'')
                      else if ends_with target ''.0'' \<and> \<not> str_contains target ''/'' then
                        Inl (''Ambiguous target '' @ [CHR 0x27] @ target @ [CHR 0x27] @
                             '': IP addresses ending in .0 must specify an explicit prefix length (e.g. '' @
                             target @ ''/24).'')
                      else
                        (case v4net_from_str
                                (if str_contains target ''/'' then target else target @ ''/32'') of
                           Inl e \<Rightarrow> Inl (''Invalid CIDR or IP target '' @ [CHR 0x27] @ target @ [CHR 0x27] @
                                        '': '' @ e)
                         | Inr (a, n) \<Rightarrow> Inr (V4Net (trunc4 ops a n) n, None)))"

section \<open>Bindings\<close>

datatype binding_mode = Unbound | SourceAddress | NativeInterface

fun binding_label :: "binding_mode \<Rightarrow> string" where
  "binding_label Unbound = ''unbound (ordinary routing)''"
| "binding_label SourceAddress = ''source-address bound''"
| "binding_label NativeInterface = ''interface bound''"

record socket_binding =
  sb_interface :: string
  sb_selected :: bool
  sb_index :: u32
  sb_v4_source :: "32 word option"
  sb_v6_source :: "128 word option"
  sb_v6_link_local_source :: "128 word option"
  sb_native_v4 :: bool
  sb_native_v6 :: bool

definition binding_unbound :: socket_binding where
  "binding_unbound =
     \<lparr>sb_interface = [], sb_selected = False, sb_index = 0, sb_v4_source = None, sb_v6_source = None,
      sb_v6_link_local_source = None, sb_native_v4 = False, sb_native_v6 = False\<rparr>"

definition native_binding_for :: "socket_binding \<Rightarrow> bool \<Rightarrow> bool" where
  "native_binding_for b ipv4 = (if ipv4 then sb_native_v4 b else sb_native_v6 b)"

text \<open>\<open>local_address_for\<close>: the fallback to the other kind of IPv6 source, and its scope.\<close>

definition either :: "'a option \<Rightarrow> 'a option \<Rightarrow> 'a option" where
  "either a b = (case a of Some x \<Rightarrow> Some x | None \<Rightarrow> b)"

fun local_address_for :: "socket_binding \<Rightarrow> socket_addr \<Rightarrow> socket_addr option" where
  "local_address_for b (SockV4 _ _) = map_option (\<lambda>a. SockV4 a 0) (sb_v4_source b)"
| "local_address_for b (SockV6 ip _ _ _) =
     map_option
       (\<lambda>source. SockV6 source 0 0 (if is_link_local6 source then sb_index b else 0))
       (if is_link_local6 ip then either (sb_v6_link_local_source b) (sb_v6_source b)
        else either (sb_v6_source b) (sb_v6_link_local_source b))"

definition binding_mode_for :: "socket_binding \<Rightarrow> socket_addr \<Rightarrow> binding_mode" where
  "binding_mode_for b destination =
     (if \<not> sb_selected b then Unbound
      else if native_binding_for b (sock_is_ipv4 destination) then NativeInterface
      else if local_address_for b destination \<noteq> None then SourceAddress
      else Unbound)"

definition take_lower :: "'a::linorder option \<Rightarrow> 'a \<Rightarrow> 'a option" where
  "take_lower current v =
     (case current of None \<Rightarrow> Some v | Some c \<Rightarrow> if v < c then Some v else current)"

definition note_source :: "string \<Rightarrow> interface_address \<Rightarrow> socket_binding \<Rightarrow> socket_binding" where
  "note_source interface address b =
     (if ia_interface address \<noteq> interface then b
      else case ia_ip address of
        V4 a \<Rightarrow> b\<lparr>sb_v4_source := take_lower (sb_v4_source b) a\<rparr>
      | V6 a \<Rightarrow>
          if is_link_local6 a
          then b\<lparr>sb_v6_link_local_source := take_lower (sb_v6_link_local_source b) a\<rparr>
          else b\<lparr>sb_v6_source := take_lower (sb_v6_source b) a\<rparr>)"

text \<open>\<open>native\<close> is what the kernel answers to an interface pin tried on a scratch socket.\<close>

definition for_interface ::
    "(socket_binding \<Rightarrow> bool \<Rightarrow> bool) \<Rightarrow> string \<Rightarrow> interface_address list \<Rightarrow> u32 \<Rightarrow> socket_binding" where
  "for_interface native interface addresses index =
     (let b = fold (note_source interface) addresses
                (binding_unbound\<lparr>sb_interface := interface, sb_selected := interface \<noteq> [],
                                 sb_index := index\<rparr>)
      in if sb_index b \<noteq> 0
         then let b4 = b\<lparr>sb_native_v4 := native b True\<rparr>
              in b4\<lparr>sb_native_v6 := native b4 False\<rparr>
         else b)"

definition can_reach :: "socket_binding \<Rightarrow> socket_addr \<Rightarrow> bool" where
  "can_reach b destination = (if \<not> sb_selected b then True else local_address_for b destination \<noteq> None)"

section \<open>Sockets\<close>

datatype io_kind =
    AddrNotAvailable | AddrInUse | InvalidInput | PermissionDenied | Unsupported | ConnectionRefused
  | TimedOut | OtherKind

datatype io_error = IoError io_kind string

definition unreachable :: "socket_binding \<Rightarrow> socket_addr \<Rightarrow> io_error" where
  "unreachable b destination =
     IoError AddrNotAvailable
       ((if sb_interface b = [] then ''the selected interface'' else sb_interface b) @ '' has no '' @
        (if sock_is_ipv4 destination then ''IPv4'' else ''IPv6'') @ '' source address to reach '' @
        sock_to_string destination)"

datatype socket_call =
    NewTcp bool
  | BindDevice string u32 bool
  | BindTo socket_addr
  | Connect socket_addr
  | SetBroadcast
  | SetMulticastV4 "32 word"
  | SetMulticastV6 u32

datatype attempt_call = Must socket_call | Try socket_call

text \<open>The calls that were made, and the error of the one that ended them.\<close>

fun run_calls ::
    "(socket_call \<Rightarrow> io_error option) \<Rightarrow> attempt_call list \<Rightarrow> socket_call list \<times> io_error option" where
  "run_calls os [] = ([], None)"
| "run_calls os (Try c # rest) = (let (made, e) = run_calls os rest in (c # made, e))"
| "run_calls os (Must c # rest) =
     (case os c of
        Some e \<Rightarrow> ([c], Some e)
      | None \<Rightarrow> (let (made, e) = run_calls os rest in (c # made, e)))"

definition bind_to_interface :: "socket_binding \<Rightarrow> bool \<Rightarrow> attempt_call list" where
  "bind_to_interface b ipv4 =
     (if \<not> sb_selected b \<or> sb_index b = 0 then []
      else [Try (BindDevice (sb_interface b) (sb_index b) ipv4)])"

type_synonym opened = "socket_call list \<times> io_error option"

definition tcp_connect ::
    "(socket_call \<Rightarrow> io_error option) \<Rightarrow> socket_binding \<Rightarrow> socket_addr \<Rightarrow> opened" where
  "tcp_connect os b destination =
     (if \<not> can_reach b destination then ([], Some (unreachable b destination))
      else run_calls os
        ([Must (NewTcp (sock_is_ipv4 destination))] @
         bind_to_interface b (sock_is_ipv4 destination) @
         (case local_address_for b destination of Some l \<Rightarrow> [Must (BindTo l)] | None \<Rightarrow> []) @
         [Must (Connect destination)]))"

definition udp_socket ::
    "(socket_call \<Rightarrow> io_error option) \<Rightarrow> socket_binding \<Rightarrow> socket_addr \<Rightarrow> opened" where
  "udp_socket os b destination =
     (if \<not> can_reach b destination then ([], Some (unreachable b destination))
      else run_calls os
        (Must (BindTo
           (case local_address_for b destination of
              Some l \<Rightarrow> l
            | None \<Rightarrow> if sock_is_ipv4 destination then SockV4 0 0 else SockV6 0 0 0 0)) #
         bind_to_interface b (sock_is_ipv4 destination)))"

definition udp_bound_v4_calls :: "socket_binding \<Rightarrow> u16 \<Rightarrow> io_error + attempt_call list" where
  "udp_bound_v4_calls b port =
     (if sb_selected b \<and> sb_v4_source b = None
      then Inl (IoError AddrNotAvailable (sb_interface b @ '' has no IPv4 source address''))
      else Inr (Must (BindTo (SockV4 (case sb_v4_source b of Some a \<Rightarrow> a | None \<Rightarrow> 0) port)) #
                bind_to_interface b True))"

definition run_or_fail ::
    "(socket_call \<Rightarrow> io_error option) \<Rightarrow> io_error + attempt_call list \<Rightarrow> attempt_call list \<Rightarrow> opened" where
  "run_or_fail os calls further =
     (case calls of Inl e \<Rightarrow> ([], Some e) | Inr cs \<Rightarrow> run_calls os (cs @ further))"

definition udp_bound_v4 ::
    "(socket_call \<Rightarrow> io_error option) \<Rightarrow> socket_binding \<Rightarrow> u16 \<Rightarrow> opened" where
  "udp_bound_v4 os b port = run_or_fail os (udp_bound_v4_calls b port) []"

definition udp_broadcast :: "(socket_call \<Rightarrow> io_error option) \<Rightarrow> socket_binding \<Rightarrow> opened" where
  "udp_broadcast os b = run_or_fail os (udp_bound_v4_calls b 0) [Must SetBroadcast]"

definition udp_multicast_v4 ::
    "(socket_call \<Rightarrow> io_error option) \<Rightarrow> socket_binding \<Rightarrow> u16 \<Rightarrow> opened" where
  "udp_multicast_v4 os b port =
     run_or_fail os (udp_bound_v4_calls b port)
       (Must SetBroadcast #
        (case sb_v4_source b of Some a \<Rightarrow> [Must (SetMulticastV4 a)] | None \<Rightarrow> []))"

definition udp_multicast_v6 ::
    "(socket_call \<Rightarrow> io_error option) \<Rightarrow> socket_binding \<Rightarrow> u16 \<Rightarrow> opened" where
  "udp_multicast_v6 os b port =
     (if sb_selected b \<and> sb_index b = 0
      then ([], Some (IoError AddrNotAvailable
              (sb_interface b @ '' has no scope index, so IPv6 multicast cannot be aimed at it'')))
      else run_calls os
        (Must (BindTo (SockV6 0 port 0 0)) #
         (if sb_index b \<noteq> 0 then [Must (SetMulticastV6 (sb_index b))] else [])))"

definition bind_icmp :: "(socket_call \<Rightarrow> io_error option) \<Rightarrow> socket_binding \<Rightarrow> opened" where
  "bind_icmp os b =
     run_calls os
       (bind_to_interface b True @
        (case sb_v4_source b of Some a \<Rightarrow> [Must (BindTo (SockV4 a 0))] | None \<Rightarrow> []))"

section \<open>Vantages\<close>

datatype vantage_kind = Wired | Wireless | Virtual | Loopback | UnknownLink

fun vantage_kind_label :: "vantage_kind \<Rightarrow> string" where
  "vantage_kind_label Wired = ''wired''"
| "vantage_kind_label Wireless = ''wireless station''"
| "vantage_kind_label Virtual = ''virtual/VPN''"
| "vantage_kind_label Loopback = ''loopback''"
| "vantage_kind_label UnknownLink = ''unknown''"

fun blind_to :: "vantage_kind \<Rightarrow> string list" where
  "blind_to Wireless =
     [''wired STP/BPDU'', ''LLDP/CDP from wired switches'', ''trunk VLAN tags'',
      ''switched unicast between other hosts'']"
| "blind_to Virtual = [''physical link-layer frames'', ''STP/BPDU'', ''LLDP/CDP'']"
| "blind_to Wired = [''switched unicast between other hosts (without a mirror port)'']"
| "blind_to Loopback = [''everything off-host'']"
| "blind_to UnknownLink = []"

record vantage =
  va_interface :: string
  va_kind :: vantage_kind
  va_index :: u32
  va_capture_available :: bool

definition vantage_label :: "vantage \<Rightarrow> string" where
  "vantage_label v = va_interface v @ '' ('' @ vantage_kind_label (va_kind v) @ '')''"

definition VIRTUAL_INTERFACE_PREFIXES :: "string list" where
  "VIRTUAL_INTERFACE_PREFIXES =
     [''utun'', ''tun'', ''tap'', ''ppp'', ''wg'', ''ipsec'', ''gpd'', ''docker'', ''br-'', ''veth'',
      ''virbr'', ''vmnet'', ''vboxnet'', ''feth'', ''bridge'', ''cni'', ''flannel'', ''kube'', ''zt'',
      ''tailscale'', ''hyperv'', ''vEthernet'']"

definition is_virtual_interface :: "string \<Rightarrow> bool" where
  "is_virtual_interface name =
     list_ex (\<lambda>p. starts_with (to_ascii_lowercase name) (to_ascii_lowercase p)) VIRTUAL_INTERFACE_PREFIXES"

definition is_virtual_network :: "string list \<Rightarrow> bool" where
  "is_virtual_network interfaces =
     (if interfaces = [] then False else list_all is_virtual_interface interfaces)"

definition classify_interface :: "(string \<Rightarrow> bool) \<Rightarrow> string \<Rightarrow> vantage_kind" where
  "classify_interface is_wireless_interface name =
     (if name = ''lo'' \<or> name = ''lo0'' then Loopback
      else if is_virtual_interface name then Virtual
      else if is_wireless_interface name then Wireless
      else Wired)"

definition vantage_for ::
    "(string \<Rightarrow> bool) \<Rightarrow> (string \<Rightarrow> u32) \<Rightarrow> string \<Rightarrow> bool \<Rightarrow> vantage" where
  "vantage_for is_wireless_interface interface_index name privileged =
     (let kind = classify_interface is_wireless_interface name
      in \<lparr>va_interface = name, va_kind = kind, va_index = interface_index name,
          va_capture_available = privileged \<and> (kind = Wired \<or> kind = Wireless)\<rparr>)"

text \<open>
  The parsers of \<open>ipnet\<close> are the arguments \<open>net_from_str\<close> and \<open>v4net_from_str\<close>; a bare address becomes
  a host route.
\<close>

record net_parsers =
  np_net :: "string \<Rightarrow> ip_net option"
  np_v4net :: "string \<Rightarrow> (32 word \<times> nat) option"

fun net_trunc :: "ipnet_ops \<Rightarrow> ip_net \<Rightarrow> ip_net" where
  "net_trunc ops (V4Net a n) = V4Net (trunc4 ops a n) n"
| "net_trunc ops (V6Net a n) = V6Net (trunc6 ops a n) n"

definition parse_network :: "ipnet_ops \<Rightarrow> net_parsers \<Rightarrow> string \<Rightarrow> ip_net option" where
  "parse_network ops np text =
     (case np_net np text of
        Some net \<Rightarrow> Some (net_trunc ops net)
      | None \<Rightarrow>
          (case np_v4net np text of
             Some (a, n) \<Rightarrow> Some (net_trunc ops (V4Net a n))
           | None \<Rightarrow>
               (case ip_from_str text of
                  Some (V4 a) \<Rightarrow> Some (net_trunc ops (V4Net a 32))
                | Some (V6 a) \<Rightarrow> Some (net_trunc ops (V6Net a 128))
                | None \<Rightarrow> None)))"

record starting_scope =
  ss_vantage :: vantage
  ss_network :: "ip_net option"
  ss_reason :: string

text \<open>What the machine answers: its interfaces, its default route and its wireless devices.\<close>

record machine =
  mc_ifaddrs :: "string + if_entry list"
  mc_default_route :: "(string \<times> 32 word option) option"
  mc_wireless :: "string \<Rightarrow> bool"
  mc_index :: "string \<Rightarrow> u32"
  mc_lowercase :: "string \<Rightarrow> string"

definition interface_exists :: "machine \<Rightarrow> string \<Rightarrow> bool" where
  "interface_exists mc name =
     (case mc_ifaddrs mc of
        Inl _ \<Rightarrow> False
      | Inr entries \<Rightarrow> list_ex (\<lambda>i. eq_ignore_case (if_name i) name) entries)"

definition available_interface_list :: "machine \<Rightarrow> string" where
  "available_interface_list mc =
     (case mc_ifaddrs mc of
        Inl _ \<Rightarrow> ''unavailable''
      | Inr entries \<Rightarrow> join_with '', '' (sort_dedup (map if_name entries)))"

definition resolve_starting_scope ::
    "ipnet_ops \<Rightarrow> net_parsers \<Rightarrow> (ip_net \<Rightarrow> string) \<Rightarrow> machine \<Rightarrow> string option \<Rightarrow> bool \<Rightarrow>
     string + starting_scope" where
  "resolve_starting_scope ops np net_str mc argument privileged =
     (let vantage_at = (\<lambda>name. vantage_for (mc_wireless mc) (mc_index mc) name privileged);
          detected = detect_local_network (mc_lowercase mc) ops (mc_ifaddrs mc) (mc_default_route mc)
      in case list_ipv4_interfaces ops (mc_ifaddrs mc) of
           Inl e \<Rightarrow> Inl e
         | Inr interfaces \<Rightarrow>
             (case argument of
                None \<Rightarrow>
                  (case detected of
                     Inl e \<Rightarrow> Inl e
                   | Inr info \<Rightarrow>
                       Inr \<lparr>ss_vantage = vantage_at (ln_interface info),
                            ss_network = Some (ln_cidr info),
                            ss_reason = ''carries the default route''\<rparr>)
              | Some given \<Rightarrow>
                  (let arg = trim_text given
                   in case List.find (\<lambda>i. eq_ignore_case (ln_interface i) arg) interfaces of
                        Some info \<Rightarrow>
                          Inr \<lparr>ss_vantage = vantage_at (ln_interface info),
                               ss_network = Some (ln_cidr info),
                               ss_reason = ''selected on the command line''\<rparr>
                      | None \<Rightarrow>
                          if interface_exists mc arg then
                            Inr \<lparr>ss_vantage = vantage_at arg, ss_network = None,
                                 ss_reason = ''selected on the command line (no IPv4 address configured)''\<rparr>
                          else
                            (case parse_network ops np arg of
                               Some network \<Rightarrow>
                                 (case detected of
                                    Inl e \<Rightarrow> Inl e
                                  | Inr info \<Rightarrow>
                                      Inr \<lparr>ss_vantage = vantage_at (ln_interface info),
                                           ss_network = Some network,
                                           ss_reason = ''network '' @ net_str network @
                                                       '' selected on the command line''\<rparr>)
                             | None \<Rightarrow>
                                 Inl ([CHR 0x27] @ arg @ [CHR 0x27] @
                                      '' is not a known interface, network or address.'' @ [CHR 0x0A] @
                                      ''Available interfaces: '' @ available_interface_list mc)))))"

section \<open>Sources belong to the selected interface\<close>

text \<open>The addresses configured on one interface.\<close>

definition configured :: "string \<Rightarrow> interface_address list \<Rightarrow> ip_addr set" where
  "configured interface addresses = ia_ip ` {a \<in> set addresses. ia_interface a = interface}"

definition sources_within :: "ip_addr set \<Rightarrow> socket_binding \<Rightarrow> bool" where
  "sources_within S b \<longleftrightarrow>
     V4 ` set_option (sb_v4_source b) \<subseteq> S \<and> V6 ` set_option (sb_v6_source b) \<subseteq> S \<and>
     V6 ` set_option (sb_v6_link_local_source b) \<subseteq> S"

lemma take_lower_set: "set_option (take_lower c v) \<subseteq> insert v (set_option c)"
  by (auto simp: take_lower_def split: option.splits if_splits)

lemma note_source_within:
  assumes within: "sources_within S b" and "ia_interface a = interface \<Longrightarrow> ia_ip a \<in> S"
  shows "sources_within S (note_source interface a b)"
proof (cases "ia_interface a = interface")
  case True
  with assms(2) have mem: "ia_ip a \<in> S" by simp
  have lower: "f ` set_option (take_lower c v) \<subseteq> S" if "f ` set_option c \<subseteq> S" and "f v \<in> S"
    for f :: "'b::linorder \<Rightarrow> ip_addr" and c v
    using that take_lower_set [of c v] by auto
  show ?thesis
  proof (cases "ia_ip a")
    case (V4 v)
    then show ?thesis using True within mem by (simp add: note_source_def sources_within_def lower)
  next
    case (V6 v)
    then show ?thesis using True within mem by (simp add: note_source_def sources_within_def lower)
  qed
qed (simp add: note_source_def within)

lemma fold_note_source_within:
  assumes "sources_within S b" and "configured interface addresses \<subseteq> S"
  shows "sources_within S (fold (note_source interface) addresses b)"
  using assms
proof (induction addresses arbitrary: b)
  case (Cons a addresses)
  have "configured interface addresses \<subseteq> S" and "ia_interface a = interface \<Longrightarrow> ia_ip a \<in> S"
    using Cons.prems(2) by (auto simp: configured_def)
  then show ?case using Cons.IH Cons.prems(1) note_source_within by simp
qed simp

lemma note_source_keeps [simp]:
  "sb_selected (note_source interface a b) = sb_selected b"
  "sb_interface (note_source interface a b) = sb_interface b"
  "sb_index (note_source interface a b) = sb_index b"
  by (simp_all add: note_source_def split: ip_addr.split)

lemma fold_note_source_keeps [simp]:
  "sb_selected (fold (note_source interface) as b) = sb_selected b"
  "sb_interface (fold (note_source interface) as b) = sb_interface b"
  "sb_index (fold (note_source interface) as b) = sb_index b"
  by (induction as arbitrary: b) simp_all

lemma for_interface_within:
  "sources_within (configured interface addresses) (for_interface native interface addresses index)"
proof -
  define b where "b = fold (note_source interface) addresses
    (binding_unbound\<lparr>sb_interface := interface, sb_selected := interface \<noteq> [], sb_index := index\<rparr>)"
  have "sources_within (configured interface addresses) b"
    unfolding b_def by (rule fold_note_source_within) (simp_all add: sources_within_def binding_unbound_def)
  then show ?thesis
    unfolding for_interface_def b_def [symmetric] Let_def by (simp add: sources_within_def)
qed

lemma for_interface_selected [simp]:
  "sb_selected (for_interface native interface addresses index) \<longleftrightarrow> interface \<noteq> []"
  by (simp add: for_interface_def Let_def)

lemma local_address_within:
  assumes "sources_within S b" and "local_address_for b d = Some l"
  shows "sock_ip l \<in> S"
  using assms by (cases d) (auto simp: sources_within_def either_def split: if_splits option.splits)

section \<open>The order of the calls on a socket\<close>

text \<open>A call is made only after every call before it in the plan that must succeed has succeeded.\<close>

lemma made_after:
  assumes "c \<in> set (fst (run_calls os (before @ Must d # rest)))" and "c \<notin> set (fst (run_calls os before))"
    and "c \<noteq> d"
  shows "d \<in> set (fst (run_calls os (before @ Must d # rest))) \<and> os d = None"
  using assms
proof (induction os before rule: run_calls.induct)
  case (1 os)
  then show ?case by (auto split: option.splits prod.splits)
next
  case (2 os x rest)
  then show ?case by (auto split: prod.splits)
next
  case (3 os x rest)
  then show ?case by (auto split: option.splits prod.splits)
qed

section \<open>What leaves a selected interface\<close>

definition bound_within :: "ip_addr set \<Rightarrow> socket_call list \<Rightarrow> bool" where
  "bound_within S made \<longleftrightarrow> (\<forall>l. BindTo l \<in> set made \<longrightarrow> sock_ip l \<in> S)"

fun call_of :: "attempt_call \<Rightarrow> socket_call" where
  "call_of (Must c) = c"
| "call_of (Try c) = c"

lemma made_planned: "set (fst (run_calls os calls)) \<subseteq> call_of ` set calls"
  by (induction os calls rule: run_calls.induct) (auto split: option.splits prod.splits)

lemma bound_within_calls:
  assumes "\<And>x l. x \<in> set calls \<Longrightarrow> call_of x = BindTo l \<Longrightarrow> sock_ip l \<in> S"
  shows "bound_within S (fst (run_calls os calls))"
  unfolding bound_within_def using assms made_planned by fastforce

lemma no_bind_device [simp]: "x \<in> set (bind_to_interface b ipv4) \<Longrightarrow> call_of x \<noteq> BindTo l"
  by (auto simp: bind_to_interface_def split: if_splits)

lemma bound_within_Nil [simp]: "bound_within S []"
  by (simp add: bound_within_def)

lemma tcp_bound_within:
  assumes "sources_within S b" and "sb_selected b"
  shows "bound_within S (fst (tcp_connect os b d))"
proof (cases "local_address_for b d")
  case (Some l)
  then have "sock_ip l \<in> S" using local_address_within assms(1) by blast
  with Some show ?thesis
    unfolding tcp_connect_def by (auto intro!: bound_within_calls simp del: run_calls.simps)
qed (use assms in \<open>simp add: tcp_connect_def can_reach_def\<close>)

lemma udp_bound_within:
  assumes "sources_within S b" and "sb_selected b"
  shows "bound_within S (fst (udp_socket os b d))"
proof (cases "local_address_for b d")
  case (Some l)
  then have "sock_ip l \<in> S" using local_address_within assms(1) by blast
  with Some show ?thesis
    unfolding udp_socket_def by (auto intro!: bound_within_calls simp del: run_calls.simps)
qed (use assms in \<open>simp add: udp_socket_def can_reach_def\<close>)

lemma bound_v4_within:
  assumes "sources_within S b" and "sb_selected b" and "\<And>x l. x \<in> set further \<Longrightarrow> call_of x \<noteq> BindTo l"
  shows "bound_within S (fst (run_or_fail os (udp_bound_v4_calls b port) further))"
proof (cases "sb_v4_source b")
  case (Some a)
  then have "V4 a \<in> S" using assms(1) by (simp add: sources_within_def)
  with Some assms(3) show ?thesis
    unfolding run_or_fail_def udp_bound_v4_calls_def by (auto intro!: bound_within_calls simp del: run_calls.simps)
qed (use assms in \<open>simp add: run_or_fail_def udp_bound_v4_calls_def\<close>)

text \<open>A connection is attempted from a selected interface only once its source has been bound.\<close>

lemma connect_after_bind:
  assumes "sb_selected b" and "Connect d \<in> set (fst (tcp_connect os b d))"
  shows "\<exists>l. local_address_for b d = Some l \<and> BindTo l \<in> set (fst (tcp_connect os b d)) \<and> os (BindTo l) = None"
proof (cases "local_address_for b d")
  case (Some l)
  let ?before = "Must (NewTcp (sock_is_ipv4 d)) # bind_to_interface b (sock_is_ipv4 d)"
  let ?plan = "?before @ Must (BindTo l) # [Must (Connect d)]"
  have run: "tcp_connect os b d = run_calls os ?plan"
    using Some by (simp add: tcp_connect_def can_reach_def)
  have "Connect d \<notin> set (fst (run_calls os ?before))"
    using made_planned [of os ?before] by (auto simp: bind_to_interface_def split: if_splits)
  then have "BindTo l \<in> set (fst (run_calls os ?plan)) \<and> os (BindTo l) = None"
    using assms(2) run by (intro made_after [of "Connect d"]) simp_all
  with Some run show ?thesis by simp
qed (use assms in \<open>simp add: tcp_connect_def can_reach_def\<close>)

text \<open>A socket that was opened had every call of its plan made.\<close>

lemma opened_made: "snd (run_calls os calls) = None \<Longrightarrow> fst (run_calls os calls) = map call_of calls"
  by (induction os calls rule: run_calls.induct) (auto split: option.splits prod.splits)

definition opened_from :: "ip_addr set \<Rightarrow> opened \<Rightarrow> bool" where
  "opened_from S r \<longleftrightarrow>
     bound_within S (fst r) \<and> (snd r = None \<longrightarrow> (\<exists>l. BindTo l \<in> set (fst r) \<and> sock_ip l \<in> S))"

lemma run_calls_opened_from:
  assumes "bound_within S (fst (run_calls os calls))" and "Must (BindTo l) \<in> set calls" and "sock_ip l \<in> S"
  shows "opened_from S (run_calls os calls)"
proof -
  have "BindTo l \<in> call_of ` set calls" using assms(2) by force
  with assms show ?thesis by (auto simp: opened_from_def opened_made)
qed

lemma tcp_opened_from:
  assumes "sources_within S b" and "sb_selected b"
  shows "opened_from S (tcp_connect os b d)"
proof (cases "local_address_for b d")
  case (Some l)
  then have "sock_ip l \<in> S" using local_address_within assms(1) by blast
  with Some tcp_bound_within [OF assms, of os d] show ?thesis
    unfolding tcp_connect_def can_reach_def
    by (auto intro!: run_calls_opened_from [where l = l] simp del: run_calls.simps)
qed (use assms in \<open>simp add: tcp_connect_def can_reach_def opened_from_def\<close>)

lemma udp_opened_from:
  assumes "sources_within S b" and "sb_selected b"
  shows "opened_from S (udp_socket os b d)"
proof (cases "local_address_for b d")
  case (Some l)
  then have "sock_ip l \<in> S" using local_address_within assms(1) by blast
  with Some udp_bound_within [OF assms, of os d] show ?thesis
    unfolding udp_socket_def can_reach_def
    by (auto intro!: run_calls_opened_from [where l = l] simp del: run_calls.simps)
qed (use assms in \<open>simp add: udp_socket_def can_reach_def opened_from_def\<close>)

lemma bound_v4_opened_from:
  assumes "sources_within S b" and "sb_selected b" and "\<And>x l. x \<in> set further \<Longrightarrow> call_of x \<noteq> BindTo l"
  shows "opened_from S (run_or_fail os (udp_bound_v4_calls b port) further)"
proof (cases "sb_v4_source b")
  case (Some a)
  then have "sock_ip (SockV4 a port) \<in> S" using assms(1) by (simp add: sources_within_def)
  with Some bound_v4_within [where os = os and port = port, OF assms] show ?thesis
    unfolding run_or_fail_def udp_bound_v4_calls_def
    by (auto intro!: run_calls_opened_from [where l = "SockV4 a port"] simp del: run_calls.simps)
qed (use assms in \<open>simp add: run_or_fail_def udp_bound_v4_calls_def opened_from_def\<close>)

text \<open>An interface with an IPv4 address has an IPv4 source to bind.\<close>

lemma note_source_v4_kept: "sb_v4_source b \<noteq> None \<Longrightarrow> sb_v4_source (note_source i a b) \<noteq> None"
  by (simp add: note_source_def take_lower_def split: ip_addr.split option.split)

lemma fold_note_source_v4:
  assumes "sb_v4_source b \<noteq> None \<or> (\<exists>a. V4 a \<in> configured interface addresses)"
  shows "sb_v4_source (fold (note_source interface) addresses b) \<noteq> None"
  using assms
proof (induction addresses arbitrary: b)
  case (Cons x addresses)
  have "sb_v4_source (note_source interface x b) \<noteq> None \<or> (\<exists>a. V4 a \<in> configured interface addresses)"
  proof (cases "ia_interface x = interface \<and> (\<exists>a. ia_ip x = V4 a)")
    case True
    then show ?thesis by (auto simp: note_source_def take_lower_def split: option.split)
  next
    case False
    then have "V4 a \<in> configured interface (x # addresses) \<Longrightarrow> V4 a \<in> configured interface addresses" for a
      by (cases "ia_ip x") (auto simp: configured_def)
    then show ?thesis using Cons.prems note_source_v4_kept by blast
  qed
  then show ?case using Cons.IH by simp
qed (simp add: configured_def)

lemma for_interface_v4:
  assumes "V4 a \<in> configured interface addresses"
  shows "\<exists>s. sb_v4_source (for_interface native interface addresses index) = Some s \<and>
     V4 s \<in> configured interface addresses"
proof -
  have "sb_v4_source (for_interface native interface addresses index) \<noteq> None"
    unfolding for_interface_def Let_def 
    using fold_note_source_v4 [OF disjI2, of interface addresses] assms by (simp del: not_None_eq split: if_split) blast
  then show ?thesis
    using for_interface_within [of interface addresses native index] by (auto simp: sources_within_def)
qed

lemma for_interface_index [simp]: "sb_index (for_interface native interface addresses index) = index"
  by (simp add: for_interface_def Let_def binding_unbound_def)

lemma icmp_opened_from:
  assumes "sources_within S b" and "sb_v4_source b = Some a"
  shows "opened_from S (bind_icmp os b)"
proof -
  have mem: "sock_ip (SockV4 a 0) \<in> S" using assms by (simp add: sources_within_def)
  then have "bound_within S (fst (bind_icmp os b))"
    using assms(2) unfolding bind_icmp_def by (auto intro!: bound_within_calls simp del: run_calls.simps)
  then show ?thesis
    using mem assms(2) unfolding bind_icmp_def
    by (auto intro!: run_calls_opened_from [where l = "SockV4 a 0"] simp del: run_calls.simps)
qed

lemma multicast_v4_leaves_by:
  assumes "sources_within S b" and "sb_selected b" and "snd (udp_multicast_v4 os b port) = None"
  shows "\<exists>a. V4 a \<in> S \<and> SetMulticastV4 a \<in> set (fst (udp_multicast_v4 os b port))"
proof (cases "sb_v4_source b")
  case (Some a)
  then have "V4 a \<in> S" using assms(1) by (simp add: sources_within_def)
  with Some assms(3) show ?thesis
    unfolding udp_multicast_v4_def run_or_fail_def udp_bound_v4_calls_def
    by (auto simp: opened_made simp del: run_calls.simps)
qed (use assms in \<open>simp add: udp_multicast_v4_def run_or_fail_def udp_bound_v4_calls_def\<close>)

lemma multicast_v6_leaves_by:
  assumes "sb_selected b" and "snd (udp_multicast_v6 os b port) = None"
  shows "sb_index b \<noteq> 0 \<and> SetMulticastV6 (sb_index b) \<in> set (fst (udp_multicast_v6 os b port))"
  using assms unfolding udp_multicast_v6_def
  by (auto simp: opened_made simp del: run_calls.simps split: if_splits)

text \<open>
  C16: what a binding for a named interface ties to it, whatever the system answers to the calls. A
  TCP, UDP, broadcast or IPv4 multicast socket is bound to no address that is not configured on the
  interface, and is opened only with one bound; so is an ICMP socket where the interface has an IPv4
  address. A TCP connection is attempted only after its source address was bound. An opened multicast
  socket has its egress set: for IPv4 to an address of the interface, for IPv6 to its index, which is
  then not zero. Where the interface has no address of the family of a destination, TCP and UDP make no
  call at all and the error says which address is missing.
\<close>
theorem probes_leave_by_their_interface:
  assumes "interface \<noteq> []"
  shows "let b = for_interface native interface addresses index; on = configured interface addresses
    in list_all (opened_from on)
         [tcp_connect os b d, udp_socket os b d, udp_bound_v4 os b port,
          udp_broadcast os b, udp_multicast_v4 os b port] \<and>
       ((\<exists>a. V4 a \<in> on) \<longrightarrow> opened_from on (bind_icmp os b)) \<and>
       (Connect d \<in> set (fst (tcp_connect os b d)) \<longrightarrow>
          (\<exists>l. sock_ip l \<in> on \<and> BindTo l \<in> set (fst (tcp_connect os b d)) \<and> os (BindTo l) = None)) \<and>
       (snd (udp_multicast_v4 os b port) = None \<longrightarrow>
          (\<exists>a. V4 a \<in> on \<and> SetMulticastV4 a \<in> set (fst (udp_multicast_v4 os b port)))) \<and>
       (snd (udp_multicast_v6 os b port) = None \<longrightarrow>
          index \<noteq> 0 \<and> SetMulticastV6 index \<in> set (fst (udp_multicast_v6 os b port))) \<and>
       (local_address_for b d = None \<longrightarrow>
          tcp_connect os b d = ([], Some (unreachable b d)) \<and>
          udp_socket os b d = ([], Some (unreachable b d)))"
proof -
  let ?b = "for_interface native interface addresses index" and ?on = "configured interface addresses"
  note within = for_interface_within [of interface addresses native index]
  have selected: "sb_selected ?b" using assms by simp
  have v4: "opened_from ?on (udp_bound_v4 os ?b port)"
    "opened_from ?on (udp_broadcast os ?b)" "opened_from ?on (udp_multicast_v4 os ?b port)"
    unfolding udp_bound_v4_def udp_broadcast_def udp_multicast_v4_def
    by (rule bound_v4_opened_from [OF within selected]; auto split: option.splits)+
  have icmp: "opened_from ?on (bind_icmp os ?b)" if "\<exists>a. V4 a \<in> ?on"
    using that for_interface_v4 icmp_opened_from [OF within] by blast
  have bound: "\<exists>l. sock_ip l \<in> ?on \<and> BindTo l \<in> set (fst (tcp_connect os ?b d)) \<and> os (BindTo l) = None"
    if "Connect d \<in> set (fst (tcp_connect os ?b d))"
    using connect_after_bind [OF selected that] local_address_within [OF within] by blast
  have refused: "tcp_connect os ?b d = ([], Some (unreachable ?b d)) \<and>
      udp_socket os ?b d = ([], Some (unreachable ?b d))" if "local_address_for ?b d = None"
    using that selected by (simp add: tcp_connect_def udp_socket_def can_reach_def)
  show ?thesis
    unfolding Let_def
    using v4 icmp bound refused tcp_opened_from [OF within selected] udp_opened_from [OF within selected]
      multicast_v4_leaves_by [OF within selected, of os port] multicast_v6_leaves_by [OF selected, of os port]
    by (auto simp del: for_interface_selected)
qed

definition two_links :: "interface_address list" where
  "two_links =
     [\<lparr>ia_interface = ''eth1'', ia_ip = V4 0x0A000002, ia_cidr = V4Net 0x0A000000 24\<rparr>,
      \<lparr>ia_interface = ''eth0'', ia_ip = V4 0xC0A80102, ia_cidr = V4Net 0xC0A80100 24\<rparr>]"

theorem probes_leave_by_their_interface_witness:
  "''eth1'' \<noteq> [] \<and>
   fst (tcp_connect (\<lambda>_. None) (for_interface (\<lambda>_ _. False) ''eth1'' two_links 3) (SockV4 0x0A000001 80)) =
     [NewTcp True, BindDevice ''eth1'' 3 True, BindTo (SockV4 0x0A000002 0), Connect (SockV4 0x0A000001 80)] \<and>
   udp_multicast_v4 (\<lambda>_. None) (for_interface (\<lambda>_ _. False) ''eth1'' two_links 3) 5353 =
     ([BindTo (SockV4 0x0A000002 5353), BindDevice ''eth1'' 3 True, SetBroadcast, SetMulticastV4 0x0A000002], None) \<and>
   opened_from (configured ''eth1'' two_links)
     (tcp_connect (\<lambda>_. None) (for_interface (\<lambda>_ _. False) ''eth1'' two_links 3) (SockV4 0x0A000001 80))"
proof (intro conjI)
  show "opened_from (configured ''eth1'' two_links)
     (tcp_connect (\<lambda>_. None) (for_interface (\<lambda>_ _. False) ''eth1'' two_links 3) (SockV4 0x0A000001 80))"
    using probes_leave_by_their_interface
      [of "''eth1''" "\<lambda>_ _. False" two_links 3 "\<lambda>_. None" "SockV4 0x0A000001 80"]
    by (simp add: Let_def)
qed code_simp+

text \<open>
  The guarantee is named for one destination. An interface that has only an IPv6 address is unbound
  for an IPv4 destination, although its IPv6 probes are bound to a source and no IPv4 probe is sent.
\<close>

lemma ipv6_only_binding:
  assumes "sb_v4_source b = None" and "sb_v6_source b = Some s" and "sb_selected b"
    and "\<not> sb_native_v4 b" and "\<not> sb_native_v6 b" and "\<not> is_link_local6 a"
  shows "binding_mode_for b (SockV4 0 0) = Unbound \<and>
     binding_mode_for b (SockV6 a 80 0 0) = SourceAddress \<and> \<not> can_reach b (SockV4 v p)"
  using assms by (simp add: binding_mode_for_def native_binding_for_def can_reach_def either_def)

text \<open>A socket is opened from a selected interface only where the reported guarantee is not the weakest.\<close>

lemma unbound_never_opens:
  assumes "sb_selected b" and "binding_mode_for b d = Unbound"
  shows "tcp_connect os b d = ([], Some (unreachable b d))"
  using assms by (auto simp: binding_mode_for_def tcp_connect_def can_reach_def split: if_splits)

text \<open>Capture is offered only on a link that has frames to observe, and only to a privileged run.\<close>

lemma capture_needs_a_link:
  "va_capture_available (vantage_for wireless index name privileged) \<longleftrightarrow>
     privileged \<and> name \<noteq> ''lo'' \<and> name \<noteq> ''lo0'' \<and> \<not> is_virtual_interface name"
  by (auto simp: vantage_for_def classify_interface_def)

text \<open>An address is listed as an attached network only if a probe may originate from it too.\<close>

lemma prefix_usable_as_source:
  "usable_address ops NetworkPrefix i = Some a \<Longrightarrow> usable_address ops SocketSource i = Some a"
  by (cases "if_address i") (simp_all add: usable_address_def split: if_splits)

lemma networks_are_sources:
  "set (list_interface_addresses ops ifaddrs) \<subseteq> set (list_socket_sources ops ifaddrs)"
  using prefix_usable_as_source
  by (fastforce simp: list_interface_addresses_def list_socket_sources_def list_addresses_def
      set_map_filter split: option.splits)

end
