(* ===== verification/Providers.thy ===== *)
theory Providers
  imports Binding
begin

text \<open>
  What every provider of evidence shares (\<open>src/src/providers/mod.rs\<close>): the account a pass gives of a
  network's reachability and how accounts are folded, the output of a pass, the context a provider is
  given, and the two traits the engine drives. A provider is a record of its methods; the world it
  acts on (the network, its own state) is the type \<open>'w\<close>, which \<open>discover\<close>, \<open>drain\<close> and \<open>finish\<close> take
  and return.
\<close>

section \<open>Reachability\<close>

record network_reachability =
  nr_responders :: "ip_addr list"
  nr_probed :: "ip_addr btree_set"
  nr_not_sent :: nat
  nr_reasons :: "string list"
  nr_discovery :: "string list"

definition reachability_default :: network_reachability where
  "reachability_default =
     \<lparr>nr_responders = [], nr_probed = [], nr_not_sent = 0, nr_reasons = [], nr_discovery = []\<rparr>"

datatype reachability_state = Reachable | ProbedUnreachable | NotEnumerated

fun reachability_wire :: "reachability_state \<Rightarrow> string" where
  "reachability_wire Reachable = ''reachable''"
| "reachability_wire ProbedUnreachable = ''probed_unreachable''"
| "reachability_wire NotEnumerated = ''not_enumerated''"

definition reachability_probed ::
    "ip_addr list \<Rightarrow> ip_addr list \<Rightarrow> nat \<Rightarrow> string list \<Rightarrow> network_reachability" where
  "reachability_probed responders probed not_sent reasons =
     \<lparr>nr_responders = responders, nr_probed = bs_extend (bs_extend [] probed) responders,
      nr_not_sent = not_sent, nr_reasons = reasons, nr_discovery = []\<rparr>"

definition nr_attempted :: "network_reachability \<Rightarrow> nat" where
  "nr_attempted r = length (nr_probed r)"

definition not_enumerated :: "string \<Rightarrow> network_reachability" where
  "not_enumerated reason = reachability_default\<lparr>nr_reasons := [reason]\<rparr>"

definition discovered_by :: "string \<Rightarrow> network_reachability \<Rightarrow> network_reachability" where
  "discovered_by how r = r\<lparr>nr_discovery := nr_discovery r @ [how]\<rparr>"

definition nr_state :: "network_reachability \<Rightarrow> reachability_state" where
  "nr_state r =
     (if nr_responders r \<noteq> [] then Reachable
      else if nr_probed r \<noteq> [] then ProbedUnreachable
      else NotEnumerated)"

definition reachability_merge ::
    "network_reachability \<Rightarrow> network_reachability \<Rightarrow> network_reachability" where
  "reachability_merge r other =
     \<lparr>nr_responders = sort_dedup (nr_responders r @ nr_responders other),
      nr_probed = bs_extend (nr_probed r) (nr_probed other),
      nr_not_sent = nr_not_sent r + nr_not_sent other,
      nr_reasons = remdups_adj (nr_reasons r @ nr_reasons other),
      nr_discovery = remdups_adj (nr_discovery r @ nr_discovery other)\<rparr>"

definition reachability_describe :: "network_reachability \<Rightarrow> string" where
  "reachability_describe r =
     (let detail = (if nr_reasons r = [] then []
                    else '' ('' @ join_with ''; '' (nr_reasons r) @ '')'');
          count = (\<lambda>n. decimal (int n))
      in case nr_state r of
           Reachable \<Rightarrow>
             ''reachable; '' @ count (length (nr_responders r)) @ '' of '' @ count (nr_attempted r) @
             '' address(es) probed answered'' @ detail
         | ProbedUnreachable \<Rightarrow>
             count (nr_attempted r) @ '' address(es) probed, none answered'' @ detail
         | NotEnumerated \<Rightarrow>
             ''not enumerated'' @ detail @
             (if 0 < nr_not_sent r
              then ''; '' @ count (nr_not_sent r) @ '' probe(s) never left this machine'' else []))"

section \<open>The output of a pass\<close>

record provider_output =
  po_evidence :: "topology_evidence list"
  po_notes :: "string list"
  po_attempted :: bool
  po_reachability :: "(ip_net \<times> network_reachability) list"

definition output_unavailable :: "string \<Rightarrow> provider_output" where
  "output_unavailable reason =
     \<lparr>po_evidence = [], po_notes = [''unavailable: '' @ reason], po_attempted = False,
      po_reachability = []\<rparr>"

definition output_not_applicable :: "string \<Rightarrow> provider_output" where
  "output_not_applicable reason =
     \<lparr>po_evidence = [], po_notes = [''not applicable: '' @ reason], po_attempted = False,
      po_reachability = []\<rparr>"

definition output_from_evidence :: "topology_evidence list \<Rightarrow> provider_output" where
  "output_from_evidence evidence =
     \<lparr>po_evidence = evidence, po_notes = [], po_attempted = True, po_reachability = []\<rparr>"

record provider_run =
  pr_provider :: string
  pr_evidence_count :: nat
  pr_note :: "string option"

section \<open>The context of a pass\<close>

text \<open>Durations are milliseconds; the shared permits are the number of probes allowed at once.\<close>

record discovery_context =
  dc_vantage :: vantage
  dc_scope :: "ip_net option"
  dc_target :: "ip_addr option"
  dc_timeout :: nat
  dc_concurrency :: nat
  dc_binding :: socket_binding
  dc_probe_permits :: nat
  dc_snmp_communities :: "string list"
  dc_privileged :: bool

definition context_seed ::
    "(socket_binding \<Rightarrow> bool \<Rightarrow> bool) \<Rightarrow> interface_address list \<Rightarrow> vantage \<Rightarrow> nat \<Rightarrow> nat \<Rightarrow>
     discovery_context" where
  "context_seed native sources v timeout concurrency =
     \<lparr>dc_vantage = v, dc_scope = None, dc_target = None, dc_timeout = timeout,
      dc_concurrency = concurrency,
      dc_binding = for_interface native (va_interface v) sources (va_index v),
      dc_probe_permits = max concurrency 1, dc_snmp_communities = [], dc_privileged = False\<rparr>"

definition for_scope :: "discovery_context \<Rightarrow> ip_net \<Rightarrow> discovery_context" where
  "for_scope c scope = c\<lparr>dc_scope := Some scope, dc_target := None\<rparr>"

definition for_target :: "discovery_context \<Rightarrow> ip_addr \<Rightarrow> discovery_context" where
  "for_target c target = c\<lparr>dc_target := Some target\<rparr>"

section \<open>The traits\<close>

record 'w discovery_provider =
  dp_name :: string
  dp_applies :: "discovery_context \<Rightarrow> bool"
  dp_discover :: "discovery_context \<Rightarrow> 'w \<Rightarrow> provider_output \<times> 'w"

record 'w continuous_source =
  cs_drain :: "'w \<Rightarrow> topology_evidence list \<times> 'w"
  cs_finish :: "'w \<Rightarrow> topology_evidence list \<times> 'w"

section \<open>Folding accounts of a network\<close>

text \<open>
  Responders that were probed: what \<^const>\<open>reachability_probed\<close> establishes and merging keeps, so
  that the number that answered never exceeds the number probed.
\<close>

definition reachability_ok :: "network_reachability \<Rightarrow> bool" where
  "reachability_ok r \<longleftrightarrow> set (nr_responders r) \<subseteq> set (nr_probed r) \<and> distinct (nr_probed r)"

lemma reachability_ok_probed: "reachability_ok (reachability_probed rs ps n why)"
  by (simp add: reachability_ok_def reachability_probed_def distinct_bs_extend)

lemma reachability_ok_not_enumerated: "reachability_ok (not_enumerated why)"
  by (simp add: reachability_ok_def not_enumerated_def reachability_default_def)

lemma reachability_ok_merge:
  "reachability_ok a \<Longrightarrow> reachability_ok b \<Longrightarrow> reachability_ok (reachability_merge a b)"
  by (auto simp: reachability_ok_def reachability_merge_def distinct_bs_extend)

lemma reachability_ok_discovered: "reachability_ok (discovered_by how r) = reachability_ok r"
  by (simp add: reachability_ok_def discovered_by_def)

definition reachability_fold ::
    "network_reachability \<Rightarrow> network_reachability list \<Rightarrow> network_reachability" where
  "reachability_fold r passes = foldl reachability_merge r passes"

lemma fold_responders:
  "set (nr_responders (reachability_fold r passes)) = (\<Union>p \<in> set (r # passes). set (nr_responders p))"
  by (induction passes arbitrary: r) (auto simp: reachability_fold_def reachability_merge_def)

lemma fold_probed:
  "set (nr_probed (reachability_fold r passes)) = (\<Union>p \<in> set (r # passes). set (nr_probed p))"
  by (induction passes arbitrary: r) (auto simp: reachability_fold_def reachability_merge_def)

lemma fold_not_sent:
  "nr_not_sent (reachability_fold r passes) = sum_list (map nr_not_sent (r # passes))"
  by (induction passes arbitrary: r) (simp_all add: reachability_fold_def reachability_merge_def)

lemma fold_ok:
  "list_all reachability_ok (r # passes) \<Longrightarrow> reachability_ok (reachability_fold r passes)"
  unfolding reachability_fold_def
  by (induction passes arbitrary: r) (simp_all add: reachability_ok_merge)

lemma sorted_remdups_adj_distinct: "sorted xs \<Longrightarrow> distinct (remdups_adj xs)"
  by (induction xs rule: remdups_adj.induct) (auto simp: order_antisym)

lemma distinct_sort_dedup [simp]: "distinct (sort_dedup xs)"
  by (simp add: sort_dedup_def sorted_remdups_adj_distinct)

lemma fold_responders_distinct:
  assumes "passes \<noteq> []"
  shows "distinct (nr_responders (reachability_fold r passes))"
  using assms
proof (induction passes rule: rev_induct)
  case (snoc p passes)
  then show ?case by (simp add: reachability_fold_def reachability_merge_def)
qed simp

text \<open>
  C17: the accounts of several passes over one network fold into what they establish together. For an
  account and further ones, each with its responders among the addresses it probed: the addresses
  counted as attempted are the distinct ones any pass probed, however the passes overlap; the
  responders are those of any pass, each once and never more than were attempted; probes that were not
  sent add up. The network is reachable exactly if some pass had a responder, and not enumerated
  exactly if no pass probed anything, so a failed pass never hides an earlier answer.
\<close>
theorem reachability_accumulates:
  assumes "list_all reachability_ok (r # passes)" and "passes \<noteq> []"
  shows "let whole = reachability_fold r passes; each = set (r # passes)
    in nr_attempted whole = card (\<Union>p \<in> each. set (nr_probed p)) \<and>
       set (nr_responders whole) = (\<Union>p \<in> each. set (nr_responders p)) \<and>
       distinct (nr_responders whole) \<and> length (nr_responders whole) \<le> nr_attempted whole \<and>
       nr_not_sent whole = sum_list (map nr_not_sent (r # passes)) \<and>
       (nr_state whole = Reachable \<longleftrightarrow> (\<exists>p \<in> each. nr_responders p \<noteq> [])) \<and>
       (nr_state whole = NotEnumerated \<longleftrightarrow> (\<forall>p \<in> each. nr_probed p = []))"
proof -
  let ?w = "reachability_fold r passes"
  have ok: "reachability_ok ?w" using fold_ok assms(1) .
  then have sub: "set (nr_responders ?w) \<subseteq> set (nr_probed ?w)" and dis: "distinct (nr_probed ?w)"
    by (simp_all add: reachability_ok_def)
  have att: "nr_attempted ?w = card (\<Union>p \<in> set (r # passes). set (nr_probed p))"
    unfolding nr_attempted_def using distinct_card [OF dis] fold_probed [of r passes] by simp
  have resp: "distinct (nr_responders ?w)" by (rule fold_responders_distinct [OF assms(2)])
  have "length (nr_responders ?w) \<le> nr_attempted ?w"
    unfolding nr_attempted_def
    using card_mono [OF _ sub] distinct_card [OF dis] distinct_card [OF resp] by simp
  moreover have "nr_state ?w = Reachable \<longleftrightarrow> (\<exists>p \<in> set (r # passes). nr_responders p \<noteq> [])"
  proof -
    have "nr_responders ?w \<noteq> [] \<longleftrightarrow> (\<Union>p \<in> set (r # passes). set (nr_responders p)) \<noteq> {}"
      using fold_responders [of r passes] by (metis set_empty)
    then show ?thesis by (auto simp: nr_state_def)
  qed
  moreover have "nr_state ?w = NotEnumerated \<longleftrightarrow> (\<forall>p \<in> set (r # passes). nr_probed p = [])"
  proof -
    have "nr_probed ?w = [] \<longleftrightarrow> (\<Union>p \<in> set (r # passes). set (nr_probed p)) = {}"
      using fold_probed [of r passes] by (metis set_empty)
    then show ?thesis using sub by (auto simp: nr_state_def)
  qed
  ultimately show ?thesis
    using att resp fold_responders [of r passes] fold_not_sent [of r passes] by (simp only: Let_def)
qed

definition a_quiet_sweep :: network_reachability where
  "a_quiet_sweep = reachability_probed [] [V4 1, V4 2, V4 3] 0 [''quiet'']"

definition an_answered_sweep :: network_reachability where
  "an_answered_sweep = reachability_probed [V4 2] [V4 2, V4 3, V4 4] 1 [''answered'']"

theorem reachability_accumulates_witness:
  "list_all reachability_ok [a_quiet_sweep, an_answered_sweep] \<and>
   nr_state (reachability_fold a_quiet_sweep [an_answered_sweep]) = Reachable \<and>
   nr_attempted (reachability_fold a_quiet_sweep [an_answered_sweep]) = 4"
proof -
  have ok: "list_all reachability_ok [a_quiet_sweep, an_answered_sweep]"
    by (simp add: a_quiet_sweep_def an_answered_sweep_def reachability_ok_probed)
  have "nr_state (reachability_fold a_quiet_sweep [an_answered_sweep]) = Reachable"
    using reachability_accumulates [of a_quiet_sweep "[an_answered_sweep]"] ok
    by (simp add: Let_def) (simp add: an_answered_sweep_def reachability_probed_def)
  moreover have "nr_attempted (reachability_fold a_quiet_sweep [an_answered_sweep]) = 4"
    by code_simp
  ultimately show ?thesis using ok by simp
qed

end
