(* ===== verification/Target.thy ===== *)
theory Target
  imports Providers Passive_Source Rip Icmp
begin

text \<open>
  One device under interrogation: its tier, what is known of it and what was covered
  (\<open>src/src/providers/target.rs\<close>), the status of a TCP probe (\<open>src/src/engine/scanner.rs\<close>), the sweep of
  a set of ports, and the vendor adapters (\<open>src/src/providers/vendor.rs\<close>). The answers of the operating
  system to the calls on each socket are an argument. Tasks that never panic and permits that are
  never revoked leave every port with an answer, in the order of the ports.
\<close>

section \<open>Tiers\<close>

datatype device_tier = EstablishedPivot | Candidate | HostTier

fun tier_label :: "device_tier \<Rightarrow> string" where
  "tier_label EstablishedPivot = ''pivot''"
| "tier_label Candidate = ''candidate''"
| "tier_label HostTier = ''host''"

fun tier_priority :: "device_tier \<Rightarrow> nat" where
  "tier_priority EstablishedPivot = 0"
| "tier_priority Candidate = 1"
| "tier_priority HostTier = 2"

section \<open>Fingerprints and adapters\<close>

record device_fingerprint =
  fp_vendor :: "string option"
  fp_open_ports :: "u16 list"
  fp_hostnames :: "string list"
  fp_descriptions :: "string list"

definition fp_mentions :: "device_fingerprint \<Rightarrow> string \<Rightarrow> bool" where
  "fp_mentions fp needle =
     list_ex (\<lambda>text. str_contains (to_ascii_lowercase text) (to_ascii_lowercase needle))
       (fp_descriptions fp @ fp_hostnames fp)"

definition fp_vendor_is :: "device_fingerprint \<Rightarrow> string \<Rightarrow> bool" where
  "fp_vendor_is fp needle =
     (case fp_vendor fp of
        Some v \<Rightarrow> str_contains (to_ascii_lowercase v) (to_ascii_lowercase needle)
      | None \<Rightarrow> False)"

definition absorb_identity :: "fact \<Rightarrow> device_fingerprint \<Rightarrow> device_fingerprint" where
  "absorb_identity f fp =
     (case f of
        DeviceVendor _ vendor \<Rightarrow>
          fp\<lparr>fp_vendor := (case fp_vendor fp of Some v \<Rightarrow> Some v | None \<Rightarrow> Some vendor)\<rparr>
      | DeviceHostname _ hostname \<Rightarrow> fp\<lparr>fp_hostnames := fp_hostnames fp @ [hostname]\<rparr>
      | DeviceDescription _ text \<Rightarrow> fp\<lparr>fp_descriptions := fp_descriptions fp @ [text]\<rparr>
      | fact.ResolvedAs name _ \<Rightarrow> fp\<lparr>fp_hostnames := fp_hostnames fp @ [name]\<rparr>
      | _ \<Rightarrow> fp)"

definition absorb_evidence :: "fact list \<Rightarrow> device_fingerprint \<Rightarrow> device_fingerprint" where
  "absorb_evidence facts fp =
     (let fp' = fold absorb_identity facts fp
      in fp'\<lparr>fp_hostnames := sort_dedup (fp_hostnames fp'),
             fp_descriptions := sort_dedup (fp_descriptions fp')\<rparr>)"

record vendor_adapter =
  va_name :: string
  va_applies :: "device_fingerprint \<Rightarrow> bool"
  va_discover :: "emitted list attempt_outcome"

definition asus_adapter :: vendor_adapter where
  "asus_adapter =
     \<lparr>va_name = ''vendor:asus'',
      va_applies = (\<lambda>fp. fp_vendor_is fp ''asustek'' \<or> fp_vendor_is fp ''asus'' \<or>
                         fp_mentions fp ''asuswrt'' \<or> fp_mentions fp ''rt-''),
      va_discover = Unavailable
        (''targeted ASUS discovery is not implemented; UDP 9999 and 18017 request '' @
         ''and reply framing not yet verified against authoritative material'')\<rparr>"

definition mikrotik_adapter :: vendor_adapter where
  "mikrotik_adapter =
     \<lparr>va_name = ''vendor:mikrotik'',
      va_applies = (\<lambda>fp. fp_vendor_is fp ''mikrotik'' \<or> fp_mentions fp ''routeros'' \<or>
                         8728 \<in> set (fp_open_ports fp)),
      va_discover = Unavailable
        (''targeted MikroTik discovery is not implemented; the RouterOS API on 8728 '' @
         ''requires a login exchange, and MNDP is a link-local broadcast handled by '' @
         ''its own provider'')\<rparr>"

definition ubiquiti_adapter :: vendor_adapter where
  "ubiquiti_adapter =
     \<lparr>va_name = ''vendor:ubiquiti'',
      va_applies = (\<lambda>fp. fp_vendor_is fp ''ubiquiti'' \<or> fp_mentions fp ''unifi'' \<or>
                         8443 \<in> set (fp_open_ports fp)),
      va_discover = Unavailable
        (''targeted Ubiquiti discovery is not implemented; the UBNT discovery '' @
         ''protocol on UDP 10001 has not been verified against authoritative material'')\<rparr>"

definition adapters :: "vendor_adapter list" where
  "adapters = [asus_adapter, mikrotik_adapter, ubiquiti_adapter]"

fun adapter_may_assert :: "fact \<Rightarrow> bool" where
  "adapter_may_assert (fact.Network _) = False"
| "adapter_may_assert (fact.Vlan _) = False"
| "adapter_may_assert (InterfaceNetwork _ _) = False"
| "adapter_may_assert (fact.GatewayFor _ _) = False"
| "adapter_may_assert (fact.RoutesTo _ _ _) = False"
| "adapter_may_assert (fact.AttachedTo _ _) = False"
| "adapter_may_assert (BridgeLink _ _ _) = False"
| "adapter_may_assert (fact.ObservedBehind _ _) = False"
| "adapter_may_assert (fact.OpaqueBoundary _ _) = False"
| "adapter_may_assert _ = True"

definition selected_adapters :: "device_fingerprint \<Rightarrow> string list" where
  "selected_adapters fp = map va_name (filter (\<lambda>a. va_applies a fp) adapters)"

text \<open>The loop over a list of adapters, and what it does with the registry's.\<close>

definition adapter_evidence :: "vendor_adapter \<Rightarrow> emitted list" where
  "adapter_evidence a =
     filter (\<lambda>(f, _). adapter_may_assert f)
       (case attempt_result (va_discover a) of Some es \<Rightarrow> es | None \<Rightarrow> [])"

definition run_adapter_list ::
    "vendor_adapter list \<Rightarrow> device_fingerprint \<Rightarrow> emitted list \<times> string list" where
  "run_adapter_list as fp =
     (let chosen = filter (\<lambda>a. va_applies a fp) as
      in (concat (map adapter_evidence chosen),
          map (\<lambda>a. describe_attempt (va_discover a) (va_name a)) chosen))"

definition run_adapters :: "device_fingerprint \<Rightarrow> emitted list \<times> string list" where
  "run_adapters fp = run_adapter_list adapters fp"

record vendor_broadcast =
  vb_name :: string
  vb_probe :: "emitted list attempt_outcome"

text \<open>The reason is a constant of the probe that is not sent: \<open>probes::asus::UNVERIFIED_FRAMING\<close>.\<close>

definition UNVERIFIED_FRAMING :: string where
  "UNVERIFIED_FRAMING =
     ''ASUS UDP 9999 framing is unverified: the request payloads are guesses and the reply '' @
     ''parser validates no header, opcode, length or correlation, so any datagram on the link '' @
     ''would become a router discovery''"

definition asus_broadcast :: vendor_broadcast where
  "asus_broadcast = \<lparr>vb_name = ''broadcast:asus'', vb_probe = Unavailable UNVERIFIED_FRAMING\<rparr>"

definition broadcasts :: "vendor_broadcast list" where
  "broadcasts = [asus_broadcast]"

record broadcast_run =
  br_evidence :: "emitted list"
  br_outcomes :: "string list"
  br_transmitted :: bool

definition run_broadcast_list :: "vendor_broadcast list \<Rightarrow> broadcast_run" where
  "run_broadcast_list bs =
     \<lparr>br_evidence = concat (map (\<lambda>b. filter (\<lambda>(f, _). adapter_may_assert f)
        (case attempt_result (vb_probe b) of Some es \<Rightarrow> es | None \<Rightarrow> [])) bs),
      br_outcomes = map (\<lambda>b. describe_attempt (vb_probe b) (vb_name b)) bs,
      br_transmitted = list_ex (\<lambda>b. transmitted (vb_probe b)) bs\<rparr>"

definition run_broadcasts :: broadcast_run where
  "run_broadcasts = run_broadcast_list broadcasts"

section \<open>Coverage\<close>

record interrogation_target =
  it_device :: device_key
  it_tier :: device_tier
  it_endpoints :: "endpoint list"
  it_known :: device_fingerprint
  it_discovery_sources :: "string list"
  it_worth_full :: bool

record endpoint_coverage =
  ec_endpoint :: string
  ec_primary :: bool
  ec_stages_run :: nat
  ec_tcp_attempted :: nat
  ec_tcp_responsive :: "u16 list"
  ec_not_sent :: "(string \<times> nat) list"
  ec_omitted :: "string option"

record device_coverage =
  dv_device :: device_key
  dv_addresses :: "string list"
  dv_tier :: device_tier
  dv_discovery_sources :: "string list"
  dv_endpoints :: "endpoint_coverage list"
  dv_udp_attempted :: "u16 list"
  dv_protocols_confirmed :: "string list"
  dv_auth_required :: "u16 list"
  dv_vendor_adapters :: "string list"
  dv_adapter_outcomes :: "string list"
  dv_skipped :: "string option"
  dv_elapsed :: nat

definition coverage_skipped :: "device_key \<Rightarrow> device_tier \<Rightarrow> string \<Rightarrow> device_coverage" where
  "coverage_skipped device tier reason =
     \<lparr>dv_device = device, dv_addresses = [], dv_tier = tier, dv_discovery_sources = [],
      dv_endpoints = [], dv_udp_attempted = [], dv_protocols_confirmed = [], dv_auth_required = [],
      dv_vendor_adapters = [], dv_adapter_outcomes = [], dv_skipped = Some reason, dv_elapsed = 0\<rparr>"

definition primary_endpoint :: "device_coverage \<Rightarrow> string option" where
  "primary_endpoint c = map_option ec_endpoint (List.find ec_primary (dv_endpoints c))"

definition tcp_attempted :: "device_coverage \<Rightarrow> nat" where
  "tcp_attempted c = sum_list (map ec_tcp_attempted (dv_endpoints c))"

definition tcp_responsive :: "device_coverage \<Rightarrow> nat" where
  "tcp_responsive c = sum_list (map (\<lambda>e. length (ec_tcp_responsive e)) (dv_endpoints c))"

definition not_sent :: "device_coverage \<Rightarrow> nat" where
  "not_sent c = sum_list (map snd (concat (map ec_not_sent (dv_endpoints c))))"

definition local_failures :: "device_coverage \<Rightarrow> string list" where
  "local_failures c =
     concat (map (\<lambda>e. map (\<lambda>(reason, count). ec_endpoint e @ '': '' @ decimal (int count) @
                            '' probe(s) not sent: '' @ reason) (ec_not_sent e)) (dv_endpoints c))"

definition stages_run :: "device_coverage \<Rightarrow> nat" where
  "stages_run c = fold max (map ec_stages_run (dv_endpoints c)) 0"

definition omissions :: "device_coverage \<Rightarrow> string list" where
  "omissions c =
     List.map_filter (\<lambda>e. map_option (\<lambda>reason. ec_endpoint e @ '': '' @ reason) (ec_omitted e))
       (dv_endpoints c)"

definition silent :: "device_coverage \<Rightarrow> bool" where
  "silent c \<longleftrightarrow>
     dv_skipped c = None \<and> tcp_responsive c = 0 \<and> dv_auth_required c = [] \<and> not_sent c = 0"

definition coverage_summary :: "device_coverage \<Rightarrow> string" where
  "coverage_summary c =
     (let num = (\<lambda>n. decimal (int n))
      in case dv_skipped c of
           Some reason \<Rightarrow> ''skipped: '' @ reason
         | None \<Rightarrow>
             let parts =
               [num (tcp_responsive c) @ ''/'' @ num (tcp_attempted c) @ '' tcp responsive''] @
               (if 0 < not_sent c then [num (not_sent c) @ '' not sent locally''] else []) @
               (if dv_udp_attempted c \<noteq> []
                then [num (length (dv_udp_attempted c)) @ '' udp attempted''] else []) @
               (if dv_protocols_confirmed c \<noteq> []
                then [''confirmed '' @ join_with '', '' (dv_protocols_confirmed c)] else []) @
               (if dv_auth_required c \<noteq> []
                then [''auth required on '' @
                      join_with '', '' (map (\<lambda>p. decimal (uint p)) (dv_auth_required c))] else [])
             in num (stages_run c) @ '' stage(s), '' @ join_with ''; '' parts @ '', '' @
                num (dv_elapsed c) @ ''ms'')"

section \<open>Probing ports\<close>

definition STAGE_ONE_PORTS :: "u16 list" where
  "STAGE_ONE_PORTS =
     [21, 22, 23, 25, 53, 80, 139, 161, 443, 445, 554, 1234, 8000, 8080, 8443, 9100, 11434]"

definition STAGE_TWO_PORTS :: "u16 list" where
  "STAGE_TWO_PORTS =
     [81, 88, 110, 143, 389, 515, 548, 587, 631, 873, 902, 993, 995, 1080, 1883, 2000, 2049, 3000,
      3128, 3306, 3389, 4443, 5000, 5001, 5060, 5222, 5357, 5432, 5900, 6379, 7547, 8006, 8008, 8081,
      8123, 8181, 8728, 8888, 9000, 9090, 9200, 10000, 32400, 49152, 49153]"

definition NAT_PMP_PORT :: u16 where "NAT_PMP_PORT = 5351"

definition CONTROL_PLANE_UDP_PORTS :: "u16 list" where
  "CONTROL_PLANE_UDP_PORTS = [NAT_PMP_PORT, 53]"

datatype port_status = Open | Closed | Filtered | NotSent

fun is_local_failure :: "io_kind \<Rightarrow> bool" where
  "is_local_failure AddrNotAvailable = True"
| "is_local_failure AddrInUse = True"
| "is_local_failure InvalidInput = True"
| "is_local_failure io_kind.PermissionDenied = True"
| "is_local_failure io_kind.Unsupported = True"
| "is_local_failure _ = False"

text \<open>The status of a probe, and the local error of one that was not sent; the banner is not read here.\<close>

type_synonym sockets = "socket_addr \<Rightarrow> socket_call \<Rightarrow> io_error option"

definition probe_tcp_socket ::
    "sockets \<Rightarrow> socket_binding \<Rightarrow> socket_addr \<Rightarrow> port_status \<times> string option" where
  "probe_tcp_socket os b addr =
     (case snd (tcp_connect (os addr) b addr) of
        None \<Rightarrow> (Open, None)
      | Some (IoError kind text) \<Rightarrow>
          if kind = ConnectionRefused then (Closed, None)
          else if is_local_failure kind then (port_status.NotSent, Some text)
          else (Filtered, None))"

record sweep_result =
  sw_open :: "u16 list"
  sw_not_sent :: "(string \<times> nat) list"

definition note_port ::
    "u16 \<times> port_status \<times> string option \<Rightarrow> u16 list \<times> (string, nat) btree_map \<Rightarrow>
     u16 list \<times> (string, nat) btree_map" where
  "note_port probe acc =
     (let (port, status, local_error) = probe; (open_ports, failures) = acc
      in case status of
           Open \<Rightarrow> (open_ports @ [port], failures)
         | port_status.NotSent \<Rightarrow>
             (open_ports,
              bm_entry (case local_error of Some e \<Rightarrow> e | None \<Rightarrow> ''socket unavailable'') 0 Suc failures)
         | _ \<Rightarrow> acc)"

definition sweep_ports :: "sockets \<Rightarrow> socket_binding \<Rightarrow> endpoint \<Rightarrow> u16 list \<Rightarrow> sweep_result" where
  "sweep_ports os b target ports =
     (let (open_ports, failures) =
        fold note_port
          (map (\<lambda>port. (port, probe_tcp_socket os b (endpoint_socket_addr target port))) ports) ([], [])
      in \<lparr>sw_open = open_ports, sw_not_sent = failures\<rparr>)"

fun merge_failure :: "string \<times> nat \<Rightarrow> (string \<times> nat) list \<Rightarrow> (string \<times> nat) list" where
  "merge_failure (reason, count) [] = [(reason, count)]"
| "merge_failure (reason, count) ((existing, n) # rest) =
     (if existing = reason then (existing, n + count) # rest
      else (existing, n) # merge_failure (reason, count) rest)"

definition merge_failures :: "(string \<times> nat) list \<Rightarrow> (string \<times> nat) list \<Rightarrow> (string \<times> nat) list" where
  "merge_failures into more_failures = fold merge_failure more_failures into"

end
