(* ===== verification/Interrogate.thy ===== *)
theory Interrogate
  imports Target
begin

text \<open>
  The interrogation of one device (\<open>src/src/providers/target.rs\<close>): the staged sweep of its ports, the
  control plane, the confirmation of protocols, the promotion of prefixes stated on a page
  (\<open>src/src/probes/http.rs\<close>) and the accounting of a management audit
  (\<open>src/src/probes/management.rs\<close>). What each protocol client brings back from a device is an argument,
  as are the text form of a prefix and the quotation of a string by Rust's \<open>Debug\<close>.
\<close>

section \<open>What the protocol clients return\<close>

datatype prefix_semantics = InterfaceAddress | RouteDestination | Unlabelled

fun establishes_network :: "prefix_semantics \<Rightarrow> bool" where
  "establishes_network InterfaceAddress = True"
| "establishes_network RouteDestination = True"
| "establishes_network Unlabelled = False"

fun semantics_label :: "prefix_semantics \<Rightarrow> string" where
  "semantics_label InterfaceAddress = ''interface address and mask''"
| "semantics_label RouteDestination = ''route destination and mask''"
| "semantics_label Unlabelled = ''unlabelled prefix (candidate only)''"

record prefix_candidate =
  pc_prefix :: ip_net
  pc_semantics :: prefix_semantics
  pc_context :: string
  pc_source_text :: string

definition clip_text :: "string \<Rightarrow> nat \<Rightarrow> string" where
  "clip_text s limit = utf8_encode (clip (utf8_decode s) limit)"

definition candidate_evidence :: "(string \<Rightarrow> string) \<Rightarrow> prefix_candidate \<Rightarrow> string" where
  "candidate_evidence debug c =
     semantics_label (pc_semantics c) @ '': '' @ debug (clip_text (pc_source_text c) 60) @ '' in '' @
     debug (clip_text (pc_context c) 160)"

record http_identity =
  hi_status :: u16
  hi_server :: "string option"
  hi_authenticate :: "string option"
  hi_title :: "string option"
  hi_prefixes :: "prefix_candidate list"
  hi_redirect_target :: "string option"
  hi_redirect_chain :: "string list"
  hi_body_fingerprint :: "u64 option"
  hi_links :: "string list"
  hi_redirect_declined :: "string option"

definition requires_authentication :: "http_identity \<Rightarrow> bool" where
  "requires_authentication h \<longleftrightarrow> hi_status h = 401 \<or> hi_status h = 407 \<or> hi_authenticate h \<noteq> None"

definition http_description :: "http_identity \<Rightarrow> string option" where
  "http_description h =
     (let parts =
        (case hi_server h of Some s \<Rightarrow> [''server '' @ s] | None \<Rightarrow> []) @
        (case hi_title h of Some t \<Rightarrow> [''title '' @ [CHR 0x22] @ t @ [CHR 0x22]] | None \<Rightarrow> []) @
        (if requires_authentication h then [''authentication required''] else [])
      in if parts = [] then None
         else Some (''HTTP '' @ decimal (uint (hi_status h)) @ '': '' @ join_with '', '' parts))"

datatype path_outcome =
    PathAnswered u16 nat "u64 option"
  | AuthenticationRequired u16
  | PathNoResponse
  | PathRefused string

fun path_label :: "path_outcome \<Rightarrow> string" where
  "path_label (PathAnswered status found _) =
     decimal (uint status) @ '', '' @ decimal (int found) @ '' prefix candidate(s)''"
| "path_label (AuthenticationRequired status) =
     decimal (uint status) @ '', credentials demanded and not supplied''"
| "path_label PathNoResponse = ''no response''"
| "path_label (PathRefused rule) = ''not fetched: '' @ rule"

definition REQUEST_BUDGET :: nat where "REQUEST_BUDGET = 12"

record management_audit =
  ma_attempted :: "(string \<times> path_outcome) list"
  ma_candidates :: "prefix_candidate list"
  ma_budget_exhausted :: bool

text \<open>The groups of answers with one status and one body: their status, body, size and prefixes.\<close>

fun group_answer ::
    "u16 \<Rightarrow> u64 \<Rightarrow> nat \<Rightarrow> (u16 \<times> u64 \<times> nat \<times> nat) list \<Rightarrow> (u16 \<times> u64 \<times> nat \<times> nat) list" where
  "group_answer status body found [] = [(status, body, 1, found)]"
| "group_answer status body found ((seen, hash, count, n) # groups) =
     (if seen = status \<and> hash = body then (seen, hash, count + 1, n) # groups
      else (seen, hash, count, n) # group_answer status body found groups)"

definition answer_groups :: "management_audit \<Rightarrow> (u16 \<times> u64 \<times> nat \<times> nat) list" where
  "answer_groups a =
     fold (\<lambda>(_, outcome) groups.
             case outcome of
               PathAnswered status found (Some body) \<Rightarrow> group_answer status body found groups
             | _ \<Rightarrow> groups)
       (ma_attempted a) []"

definition identical_responses :: "management_audit \<Rightarrow> (u16 \<times> nat \<times> nat) list" where
  "identical_responses a =
     map (\<lambda>(status, _, count, found). (status, count, found))
       (sort_key (\<lambda>(_, _, count, _). - int count)
          (filter (\<lambda>(_, _, count, _). 1 < count) (answer_groups a)))"

record tls_certificate =
  tc_common_name :: "string option"
  tc_alt_names :: "string list"
  tc_issuer_cn :: "string option"

record smb_info =
  sm_computer_name :: "string option"
  sm_domain_name :: "string option"
  sm_dns_computer_name :: "string option"
  sm_dns_domain_name :: "string option"
  sm_dialect :: "string option"

datatype dns_transport = Udp | Tcp

fun transport_label :: "dns_transport \<Rightarrow> string" where
  "transport_label Udp = ''udp''"
| "transport_label Tcp = ''tcp''"

record dns_identity =
  di_response_code :: u8
  di_version :: "string option"
  di_transport :: dns_transport

definition IDENTITY_NAMES :: "string list" where
  "IDENTITY_NAMES = [''version.bind'', ''hostname.bind'', ''id.server'']"

record telnet_banner =
  tb_lines :: "string list"
  tb_negotiated :: bool
  tb_raw :: bytes

definition banner_text :: "telnet_banner \<Rightarrow> string" where
  "banner_text t = join_with '' / '' (tb_lines t)"

definition banner_evidence :: "telnet_banner \<Rightarrow> string" where
  "banner_evidence t =
     ''telnet greeting ('' @ decimal (int (length (tb_raw t))) @ '' bytes): '' @
     concat (map hex_byte (tb_raw t))"

definition HTTP_PORTS :: "u16 list" where
  "HTTP_PORTS = [80, 81, 8000, 8008, 8080, 8081, 8123, 8181, 8888, 10000]"

record probe_world =
  pw_sockets :: sockets
  pw_net_str :: "ip_net \<Rightarrow> string"
  pw_debug :: "string \<Rightarrow> string"
  pw_nat_pmp :: "32 word \<Rightarrow> 32 word option option"
  pw_rip :: "32 word \<Rightarrow> rip_table option"
  pw_dns_udp :: "endpoint \<Rightarrow> dns_identity option"
  pw_dns_tcp :: "endpoint \<Rightarrow> dns_identity option"
  pw_dns_name :: "endpoint \<Rightarrow> string \<Rightarrow> string option"
  pw_tls :: "endpoint \<Rightarrow> u16 \<Rightarrow> tls_certificate option"
  pw_smb :: "endpoint \<Rightarrow> u16 \<Rightarrow> smb_info option"
  pw_telnet :: "endpoint \<Rightarrow> u16 \<Rightarrow> telnet_banner option"
  pw_http :: "endpoint \<Rightarrow> u16 \<Rightarrow> http_identity option"
  pw_audit :: "endpoint \<Rightarrow> u16 \<Rightarrow> http_identity \<Rightarrow> management_audit"
  pw_ai :: "endpoint \<Rightarrow> device_key \<Rightarrow> u16 list \<Rightarrow> emitted list"
  pw_elapsed :: nat

section \<open>Accounting\<close>

type_synonym pass = "emitted list \<times> device_coverage"

definition emit :: "emitted list \<Rightarrow> pass \<Rightarrow> pass" where
  "emit es p = (fst p @ es, snd p)"

definition note_protocol :: "string \<Rightarrow> pass \<Rightarrow> pass" where
  "note_protocol text p =
     (fst p, (snd p)\<lparr>dv_protocols_confirmed := dv_protocols_confirmed (snd p) @ [text]\<rparr>)"

abbreviation port_text :: "u16 \<Rightarrow> string" where
  "port_text port \<equiv> decimal (uint port)"

definition promote_http_prefix ::
    "probe_world \<Rightarrow> device_key \<Rightarrow> string \<Rightarrow> u16 \<Rightarrow> prefix_candidate \<Rightarrow> pass \<Rightarrow> pass" where
  "promote_http_prefix w device source port c p =
     (let net = pw_net_str w (pc_prefix c); label = semantics_label (pc_semantics c);
          origin = ''stated on '' @ source @ '' -- '' @ candidate_evidence (pw_debug w) c
      in if \<not> establishes_network (pc_semantics c)
         then note_protocol
                (''http/'' @ port_text port @ '' prefix candidate '' @ net @ '' not promoted ('' @ label @ '')'') p
         else
           emit ((fact.Network (pc_prefix c), TcpProbe, Advertised, Some origin) #
                 (case pc_semantics c of
                    InterfaceAddress \<Rightarrow>
                      [(fact.AttachedTo device (pc_prefix c), TcpProbe, Advertised, Some origin)]
                  | RouteDestination \<Rightarrow>
                      [(fact.RoutesTo device (pc_prefix c) None, TcpProbe, Advertised, Some origin)]
                  | Unlabelled \<Rightarrow> []))
             (note_protocol (''http/'' @ port_text port @ '' stated '' @ net @ '' as '' @ label) p))"

section \<open>The control plane\<close>

definition dns_evidence :: "endpoint \<Rightarrow> device_key \<Rightarrow> dns_identity \<Rightarrow> pass \<Rightarrow> pass" where
  "dns_evidence target device identity p =
     (let transport = transport_label (di_transport identity);
          detail = ''answered a DNS query over '' @ transport @
            (case di_version identity of
               Some version \<Rightarrow> '' ('' @ version @ '')''
             | None \<Rightarrow> '' (rcode '' @ decimal (uint (di_response_code identity)) @ '')'')
      in emit [(DeviceCapability device DnsServer (Some detail), UnicastDns, Observed, None),
               (fact.Service (ep_address target) 53 transport (Some detail), UnicastDns, Observed, None)]
           (note_protocol (''dns/53/'' @ transport) p))"

definition nat_pmp_evidence :: "device_key \<Rightarrow> 32 word option \<Rightarrow> emitted list" where
  "nat_pmp_evidence device external =
     [(DeviceCapability device NatGateway (Some ''answered NAT-PMP''), NatPmp, Observed,
       Some (case external of
               Some a \<Rightarrow> ''external address '' @ ipv4_to_string a
             | None \<Rightarrow> ''no external address disclosed'')),
      (DeviceRoleSignal device ObservedForwarding, NatPmp, Observed, None)]"

definition rip_route_evidence :: "device_key \<Rightarrow> rip_route \<Rightarrow> emitted list" where
  "rip_route_evidence device r =
     (if \<not> Rip.is_reachable r then []
      else [(fact.Network (rr_prefix r), evidence_source.Rip, Advertised, Some (rip_evidence r)),
            (fact.RoutesTo device (rr_prefix r) (rr_next_hop r), evidence_source.Rip, Advertised,
             Some (rip_evidence r))])"

definition rip_table_evidence :: "device_key \<Rightarrow> rip_table \<Rightarrow> emitted list" where
  "rip_table_evidence device table =
     concat (map (rip_route_evidence device) (rt_routes table)) @
     (if advertised_routes table
      then [(DeviceRoleSignal device RipRouteAdvertisement, evidence_source.Rip, Observed,
             Some ''returned a routing table in answer to a RIPv2 request'')]
      else [])"

definition probe_control_plane :: "probe_world \<Rightarrow> endpoint \<Rightarrow> device_key \<Rightarrow> pass \<Rightarrow> pass" where
  "probe_control_plane w target device p =
     (case ep_address target of
        V6 _ \<Rightarrow> p
      | V4 a \<Rightarrow>
          (let p1 = (case pw_nat_pmp w a of
                       None \<Rightarrow> p
                     | Some external \<Rightarrow>
                         emit (nat_pmp_evidence device external) (note_protocol ''nat-pmp'' p));
               p2 = (fst p1, (snd p1)\<lparr>dv_udp_attempted := dv_udp_attempted (snd p1) @ [RIP_PORT]\<rparr>);
               p3 = (case pw_rip w a of
                       None \<Rightarrow> p2
                     | Some table \<Rightarrow>
                         emit (rip_table_evidence device table)
                           (note_protocol
                             ((if advertised_routes table then ''rip/520 advertised routes (''
                               else ''rip/520 answered a table request, no routes ('') @
                              decimal (int (rt_datagrams table)) @ '' datagram(s))'') p2))
           in case pw_dns_udp w target of
                None \<Rightarrow> p3
              | Some identity \<Rightarrow> dns_evidence target device identity p3))"

section \<open>Confirming protocols\<close>

definition or_else :: "'a option \<Rightarrow> 'a option \<Rightarrow> 'a option" where
  "or_else a b = (case a of Some x \<Rightarrow> Some x | None \<Rightarrow> b)"

definition TLS_PORTS :: "u16 list" where
  "TLS_PORTS = [443, 8443, 4443, 993, 995, 8006, 32400]"

definition tls_evidence :: "device_key \<Rightarrow> ip_addr \<Rightarrow> u16 \<Rightarrow> tls_certificate \<Rightarrow> emitted list" where
  "tls_evidence device address port cert =
     (let common_name = (case tc_common_name cert of Some n \<Rightarrow> n | None \<Rightarrow> []);
          description =
            (if common_name = [] then ''TLS certificate presented''
             else ''TLS certificate subject '' @ common_name) @
            (if tc_alt_names cert \<noteq> []
             then '' (SAN: '' @ join_with '', '' (tc_alt_names cert) @ '')'' else []) @
            (case tc_issuer_cn cert of Some issuer \<Rightarrow> '' issued by '' @ issuer | None \<Rightarrow> [])
      in [(DeviceDescription device description, TcpProbe, Advertised, None),
          (fact.Service address port ''tcp''
             (Some (if common_name = [] then ''TLS'' else ''TLS: '' @ common_name)),
           TcpProbe, Observed, None)] @
         (if common_name \<noteq> [] \<and> CHR '' '' \<notin> set common_name
          then [(DeviceHostname device common_name, TcpProbe, Advertised, None)] else []))"

definition confirm_tls :: "probe_world \<Rightarrow> endpoint \<Rightarrow> device_key \<Rightarrow> u16 \<Rightarrow> pass \<Rightarrow> pass" where
  "confirm_tls w target device port p =
     (if port \<notin> set TLS_PORTS then p
      else case pw_tls w target port of
        None \<Rightarrow> p
      | Some cert \<Rightarrow>
          emit (tls_evidence device (ep_address target) port cert)
            (note_protocol (''tls/'' @ port_text port) p))"

definition confirm_smb :: "probe_world \<Rightarrow> endpoint \<Rightarrow> device_key \<Rightarrow> u16 list \<Rightarrow> pass \<Rightarrow> pass" where
  "confirm_smb w target device open_ports p =
     (if 445 \<notin> set open_ports \<and> 139 \<notin> set open_ports then p
      else let port = (if 445 \<in> set open_ports then 445 else 139)
           in case pw_smb w target port of
                None \<Rightarrow> p
              | Some smb \<Rightarrow>
                  emit
                    ((case or_else (sm_dns_computer_name smb) (sm_computer_name smb) of
                        Some n \<Rightarrow> [(DeviceHostname device n, TcpProbe, Advertised, None)] | None \<Rightarrow> []) @
                     (case or_else (sm_dns_domain_name smb) (sm_domain_name smb) of
                        Some d \<Rightarrow> [(DeviceDescription device (''SMB domain '' @ d), TcpProbe, Advertised, None)]
                      | None \<Rightarrow> []) @
                     [(fact.Service (ep_address target) port ''tcp'' (Some ''SMB (negotiate confirmed)''),
                       TcpProbe, Observed, None)])
                    (note_protocol (''smb/'' @ port_text port) p))"

definition dns_confirmed :: "pass \<Rightarrow> bool" where
  "dns_confirmed p = list_ex (\<lambda>entry. starts_with entry ''dns/53'') (dv_protocols_confirmed (snd p))"

definition dns_name_identity :: "probe_world \<Rightarrow> endpoint \<Rightarrow> device_key \<Rightarrow> string \<Rightarrow> pass \<Rightarrow> pass" where
  "dns_name_identity w target device name p =
     (case pw_dns_name w target name of
        Some text \<Rightarrow>
          emit [(DeviceDescription device (name @ '': '' @ text), UnicastDns, Advertised,
                 Some (''CHAOS TXT '' @ name))]
            (note_protocol (''dns/'' @ name @ '' identity'') p)
      | None \<Rightarrow> note_protocol (''dns/'' @ name @ '' no identity published'') p)"

definition confirm_dns :: "probe_world \<Rightarrow> endpoint \<Rightarrow> device_key \<Rightarrow> u16 list \<Rightarrow> pass \<Rightarrow> pass" where
  "confirm_dns w target device open_ports p =
     (let p1 = (if dns_confirmed p then fold (dns_name_identity w target device) IDENTITY_NAMES p else p)
      in if 53 \<in> set open_ports \<and> \<not> dns_confirmed p1
         then case pw_dns_tcp w target of
                Some identity \<Rightarrow> dns_evidence target device identity p1
              | None \<Rightarrow> p1
         else p1)"

definition confirm_telnet :: "probe_world \<Rightarrow> endpoint \<Rightarrow> device_key \<Rightarrow> u16 \<Rightarrow> pass \<Rightarrow> pass" where
  "confirm_telnet w target device port p =
     (if port \<noteq> 23 then p
      else case pw_telnet w target port of
        Some banner \<Rightarrow>
          if tb_lines banner \<noteq> []
          then emit [(DeviceDescription device (banner_text banner), TcpProbe, Advertised,
                      Some (banner_evidence banner))]
                 (note_protocol (''telnet/'' @ port_text port @ '' identity'') p)
          else note_protocol (''telnet/'' @ port_text port @ '' negotiated, no greeting'') p
      | None \<Rightarrow> note_protocol (''telnet/'' @ port_text port @ '' no greeting'') p)"

text \<open>What the audit of a management surface adds to the coverage record.\<close>

definition audit_entries :: "u16 \<Rightarrow> management_audit \<Rightarrow> string list" where
  "audit_entries port audit =
     (let repeated = identical_responses audit; http = ''http/'' @ port_text port
      in map (\<lambda>(status, count, found).
                http @ '' audit: '' @ decimal (int count) @
                '' paths returned the same catch-all representation ('' @ decimal (uint status) @ ''); '' @
                (if found = 0 then ''no prefix disclosed''
                 else decimal (int found) @ '' prefix candidate(s) in it'')) repeated @
         List.map_filter
           (\<lambda>(path, outcome).
              if (case outcome of
                    PathAnswered status _ _ \<Rightarrow> list_ex (\<lambda>(grouped, _). grouped = status) repeated
                  | _ \<Rightarrow> False)
              then None
              else Some (http @ '' audit '' @ path @ '': '' @ path_label outcome))
           (ma_attempted audit) @
         (if ma_budget_exhausted audit
          then [http @ '' audit stopped at the '' @ decimal (int REQUEST_BUDGET) @ ''-request budget'']
          else []))"

definition audit_management ::
    "probe_world \<Rightarrow> endpoint \<Rightarrow> device_key \<Rightarrow> u16 \<Rightarrow> http_identity \<Rightarrow> pass \<Rightarrow> pass" where
  "audit_management w target device port identity p =
     (let audit = pw_audit w target port identity
      in fold (promote_http_prefix w device
                (''http://'' @ endpoint_host_literal target @ '':'' @ port_text port @ '' (audited)'') port)
           (ma_candidates audit)
           (fold note_protocol (audit_entries port audit) p))"

definition http_evidence :: "device_key \<Rightarrow> ip_addr \<Rightarrow> u16 \<Rightarrow> http_identity \<Rightarrow> emitted list" where
  "http_evidence device address port identity =
     (case http_description identity of
        Some text \<Rightarrow>
          [(fact.Service address port ''tcp'' (Some text), TcpProbe, Observed, None),
           (DeviceDescription device text, TcpProbe, Advertised, None)]
      | None \<Rightarrow> []) @
     (if requires_authentication identity
      then [(DeviceCapability device ManagementInterface
               (Some (''authenticated HTTP interface on port '' @ port_text port)),
             TcpProbe, Observed, Some ''refused without credentials'')]
      else [])"

definition confirm_http ::
    "probe_world \<Rightarrow> endpoint \<Rightarrow> device_key \<Rightarrow> device_tier \<Rightarrow> u16 \<Rightarrow> pass \<Rightarrow> pass" where
  "confirm_http w target device tier port p =
     (if port \<notin> set HTTP_PORTS then p
      else case pw_http w target port of
        None \<Rightarrow> note_protocol (''http/'' @ port_text port @ '' no response'') p
      | Some identity \<Rightarrow>
          (let p1 = note_protocol
                 (''http/'' @ port_text port @ '' identity'' @
                  (if hi_redirect_chain identity = [] then []
                   else '' after '' @ decimal (int (length (hi_redirect_chain identity))) @
                        '' same-origin redirect(s)'')) p;
               p2 = (case hi_redirect_declined identity of
                       Some declined \<Rightarrow>
                         note_protocol (''http/'' @ port_text port @ '' redirect not followed ('' @ declined @ '')'') p1
                     | None \<Rightarrow> p1);
               p3 = fold (promote_http_prefix w device
                           (''http://'' @ endpoint_host_literal target @ '':'' @ port_text port @ ''/'') port)
                      (hi_prefixes identity) p2;
               p4 = (if tier = EstablishedPivot then audit_management w target device port identity p3 else p3);
               p5 = (if requires_authentication identity
                     then (fst p4, (snd p4)\<lparr>dv_auth_required := dv_auth_required (snd p4) @ [port]\<rparr>)
                     else p4)
           in emit (http_evidence device (ep_address target) port identity) p5))"

definition confirm_protocols ::
    "probe_world \<Rightarrow> endpoint \<Rightarrow> device_key \<Rightarrow> device_tier \<Rightarrow> u16 list \<Rightarrow> pass \<Rightarrow> pass" where
  "confirm_protocols w target device tier open_ports p =
     fold (confirm_http w target device tier) open_ports
       (fold (confirm_telnet w target device) open_ports
          (confirm_dns w target device open_ports
             (confirm_smb w target device open_ports
                (fold (confirm_tls w target device) open_ports p))))"

section \<open>One device\<close>

definition open_port_evidence :: "ip_addr \<Rightarrow> u16 \<Rightarrow> emitted" where
  "open_port_evidence address port =
     (fact.Service address port ''tcp'' None, TcpProbe, Observed,
      Some ''TCP port open; protocol not yet confirmed'')"

text \<open>The sweep of the preferred address: the ports that answered and the record of it.\<close>

definition interrogate_primary ::
    "probe_world \<Rightarrow> socket_binding \<Rightarrow> bool \<Rightarrow> endpoint \<Rightarrow> u16 list \<times> endpoint_coverage" where
  "interrogate_primary w b worth_full primary =
     (let stage_one = sweep_ports (pw_sockets w) b primary STAGE_ONE_PORTS;
          broaden = (worth_full \<or> sw_open stage_one \<noteq> []);
          stage_two = sweep_ports (pw_sockets w) b primary STAGE_TWO_PORTS;
          open_ports = sort_dedup (sw_open stage_one @ (if broaden then sw_open stage_two else []))
      in (open_ports,
          \<lparr>ec_endpoint = endpoint_to_string primary, ec_primary = True,
           ec_stages_run = (if open_ports \<noteq> [] then 3 else if broaden then 2 else 1),
           ec_tcp_attempted = length STAGE_ONE_PORTS + (if broaden then length STAGE_TWO_PORTS else 0),
           ec_tcp_responsive = open_ports,
           ec_not_sent = (if broaden then merge_failures (sw_not_sent stage_one) (sw_not_sent stage_two)
                          else sw_not_sent stage_one),
           ec_omitted = (if broaden then None
                         else Some (''stage 2 ('' @ decimal (int (length STAGE_TWO_PORTS)) @
                                '' ports) not run: liveness never confirmed and no stage 1 port answered''))\<rparr>))"

definition interrogate_secondary ::
    "probe_world \<Rightarrow> socket_binding \<Rightarrow> endpoint \<Rightarrow> endpoint \<Rightarrow> pass \<Rightarrow> pass" where
  "interrogate_secondary w b primary e p =
     (let secondary = sweep_ports (pw_sockets w) b e STAGE_ONE_PORTS
      in (fst p @ map (open_port_evidence (ep_address e)) (sw_open secondary),
          (snd p)\<lparr>dv_endpoints := dv_endpoints (snd p) @
            [\<lparr>ec_endpoint = endpoint_to_string e, ec_primary = False, ec_stages_run = 1,
              ec_tcp_attempted = length STAGE_ONE_PORTS, ec_tcp_responsive = sw_open secondary,
              ec_not_sent = sw_not_sent secondary,
              ec_omitted = Some (''stages 2-3 ('' @ decimal (int (length STAGE_TWO_PORTS)) @
                '' ports) run only at '' @ endpoint_to_string primary @
                '', the preferred address for this device'')\<rparr>]\<rparr>))"

definition coverage_start :: "interrogation_target \<Rightarrow> device_coverage" where
  "coverage_start t =
     \<lparr>dv_device = it_device t, dv_addresses = map endpoint_to_string (it_endpoints t),
      dv_tier = it_tier t, dv_discovery_sources = it_discovery_sources t, dv_endpoints = [],
      dv_udp_attempted = [], dv_protocols_confirmed = [], dv_auth_required = [],
      dv_vendor_adapters = [], dv_adapter_outcomes = [], dv_skipped = None, dv_elapsed = 0\<rparr>"

definition interrogate_ports ::
    "probe_world \<Rightarrow> interrogation_target \<Rightarrow> endpoint \<Rightarrow> u16 list \<Rightarrow> pass \<Rightarrow> pass" where
  "interrogate_ports w t primary open_ports p =
     (let p1 = emit (map (open_port_evidence (ep_address primary)) open_ports) p
      in if open_ports = [] then p1
         else emit (pw_ai w primary (it_device t) open_ports)
                (let found = confirm_protocols w primary (it_device t) (it_tier t) open_ports ([], snd p1)
                 in emit (fst found) (fst p1, snd found)))"

definition run_vendor_adapters ::
    "probe_world \<Rightarrow> interrogation_target \<Rightarrow> u16 list \<Rightarrow> pass \<Rightarrow> pass" where
  "run_vendor_adapters w t open_ports p =
     (let fingerprint = (absorb_evidence (map fst (fst p)) (it_known t))\<lparr>fp_open_ports := open_ports\<rparr>;
          (evidence, outcomes) = run_adapters fingerprint
      in (fst p @ evidence,
          (snd p)\<lparr>dv_vendor_adapters := selected_adapters fingerprint,
                  dv_adapter_outcomes := outcomes, dv_elapsed := pw_elapsed w\<rparr>))"

definition interrogate_device ::
    "probe_world \<Rightarrow> discovery_context \<Rightarrow> interrogation_target \<Rightarrow> pass" where
  "interrogate_device w ctx t =
     (case it_endpoints t of
        [] \<Rightarrow>
          ([], coverage_skipped (it_device t) (it_tier t)
             ''no reachable address: the device is known only by link-layer identity'')
      | primary # others \<Rightarrow>
          (let (open_ports, record) = interrogate_primary w (dc_binding ctx) (it_worth_full t) primary;
               start = coverage_start t;
               p1 = (if endpoint_is_ipv4 primary
                     then probe_control_plane w primary (it_device t)
                            ([], start\<lparr>dv_udp_attempted := CONTROL_PLANE_UDP_PORTS\<rparr>)
                     else ([], start));
               p2 = interrogate_ports w t primary open_ports p1;
               p3 = (fst p2, (snd p2)\<lparr>dv_endpoints := dv_endpoints (snd p2) @ [record]\<rparr>);
               p4 = fold (interrogate_secondary w (dc_binding ctx) primary) others p3
           in run_vendor_adapters w t open_ports p4))"

section \<open>What an interrogation may say of networks\<close>

text \<open>
  The facts that create or join networks: those a vendor adapter may not assert. \<open>accounted P\<close> holds of
  a pass whose records with such a fact all satisfy \<open>P\<close>.
\<close>

definition accounted :: "(emitted \<Rightarrow> bool) \<Rightarrow> emitted list \<Rightarrow> bool" where
  "accounted P es \<longleftrightarrow> list_all (\<lambda>e. adapter_may_assert (fst e) \<or> P e) es"

lemma accounted_simps [simp]:
  "accounted P []"
  "accounted P (e # es) \<longleftrightarrow> (adapter_may_assert (fst e) \<or> P e) \<and> accounted P es"
  "accounted P (xs @ ys) \<longleftrightarrow> accounted P xs \<and> accounted P ys"
  by (simp_all add: accounted_def)

lemma accounted_concat: "(\<And>x. x \<in> set xs \<Longrightarrow> accounted P (f x)) \<Longrightarrow> accounted P (concat (map f xs))"
  by (induction xs) auto

lemma accounted_emit [simp]: "accounted P (fst (emit es p)) \<longleftrightarrow> accounted P (fst p) \<and> accounted P es"
  by (simp add: emit_def)

lemma note_protocol_emits_nothing [simp]: "fst (note_protocol text p) = fst p"
  by (simp add: note_protocol_def)

lemma fold_note_protocol [simp]: "fst (fold note_protocol texts p) = fst p"
  by (induction texts arbitrary: p) simp_all

lemma accounted_fold:
  assumes "\<And>x p. x \<in> set xs \<Longrightarrow> accounted P (fst p) \<Longrightarrow> accounted P (fst (f x p))"
    and "accounted P (fst p)"
  shows "accounted P (fst (fold f xs p))"
  using assms by (induction xs arbitrary: p) simp_all

text \<open>A prefix a page labelled: what it may become.\<close>

fun labelled :: "device_key \<Rightarrow> prefix_candidate \<Rightarrow> emitted \<Rightarrow> bool" where
  "labelled device c (f, source, grade, detail) \<longleftrightarrow> grade = Advertised \<and>
     (f = fact.Network (pc_prefix c) \<and> establishes_network (pc_semantics c) \<or>
      f = fact.AttachedTo device (pc_prefix c) \<and> pc_semantics c = InterfaceAddress \<or>
      f = fact.RoutesTo device (pc_prefix c) None \<and> pc_semantics c = RouteDestination)"

fun advertised_route :: "device_key \<Rightarrow> rip_route \<Rightarrow> emitted \<Rightarrow> bool" where
  "advertised_route device r (f, source, grade, detail) \<longleftrightarrow>
     Rip.is_reachable r \<and> source = evidence_source.Rip \<and> grade = Advertised \<and>
     (f = fact.Network (rr_prefix r) \<or> f = fact.RoutesTo device (rr_prefix r) (rr_next_hop r))"

lemma promote_accounted:
  assumes "accounted P (fst p)" and "\<And>e. labelled device c e \<Longrightarrow> P e"
  shows "accounted P (fst (promote_http_prefix w device source port c p))"
  using assms by (cases "pc_semantics c") (simp_all add: promote_http_prefix_def Let_def)

lemma rip_accounted:
  assumes "\<And>r e. r \<in> set (rt_routes table) \<Longrightarrow> advertised_route device r e \<Longrightarrow> P e"
  shows "accounted P (rip_table_evidence device table)"
proof -
  have "accounted P (rip_route_evidence device r)" if "r \<in> set (rt_routes table)" for r
    using assms [OF that] by (simp add: rip_route_evidence_def)
  then show ?thesis by (simp add: rip_table_evidence_def accounted_concat)
qed

lemma dns_accounted [simp]: "accounted P (fst (dns_evidence target device i p)) \<longleftrightarrow> accounted P (fst p)"
  by (simp add: dns_evidence_def Let_def)

lemma control_plane_accounted:
  assumes "accounted P (fst p)"
    and "\<And>a table r e. ep_address target = V4 a \<Longrightarrow> pw_rip w a = Some table \<Longrightarrow>
           r \<in> set (rt_routes table) \<Longrightarrow> advertised_route device r e \<Longrightarrow> P e"
  shows "accounted P (fst (probe_control_plane w target device p))"
proof (cases "ep_address target")
  case (V4 a)
  have rip: "accounted P (rip_table_evidence device table)" if "pw_rip w a = Some table" for table
    using rip_accounted assms(2) [OF V4 that] by blast
  show ?thesis
    using V4 assms(1) rip
    by (simp add: probe_control_plane_def Let_def nat_pmp_evidence_def split: option.split)
qed (simp add: probe_control_plane_def assms(1))

lemma tls_accounted: "accounted P (fst p) \<Longrightarrow> accounted P (fst (confirm_tls w target device port p))"
  by (simp add: confirm_tls_def tls_evidence_def Let_def split: option.split)

lemma smb_accounted: "accounted P (fst p) \<Longrightarrow> accounted P (fst (confirm_smb w target device ports p))"
  by (simp add: confirm_smb_def Let_def split: option.split)

lemma dns_name_accounted:
  "accounted P (fst p) \<Longrightarrow> accounted P (fst (dns_name_identity w target device name p))"
  by (simp add: dns_name_identity_def split: option.split)

lemma confirm_dns_accounted:
  assumes "accounted P (fst p)"
  shows "accounted P (fst (confirm_dns w target device ports p))"
proof -
  have "accounted P (fst (fold (dns_name_identity w target device) IDENTITY_NAMES p))"
    by (rule accounted_fold) (simp_all add: assms dns_name_accounted)
  then show ?thesis using assms by (simp add: confirm_dns_def Let_def split: option.split)
qed

lemma telnet_accounted: "accounted P (fst p) \<Longrightarrow> accounted P (fst (confirm_telnet w target device port p))"
  by (simp add: confirm_telnet_def split: option.split)

text \<open>The candidates that a port's pages offer: the root document's, and an established pivot's audit.\<close>

definition offered :: "probe_world \<Rightarrow> endpoint \<Rightarrow> device_tier \<Rightarrow> u16 \<Rightarrow> prefix_candidate set" where
  "offered w target tier port =
     (case pw_http w target port of
        None \<Rightarrow> {}
      | Some identity \<Rightarrow>
          set (hi_prefixes identity) \<union>
          (if tier = EstablishedPivot then set (ma_candidates (pw_audit w target port identity)) else {}))"

lemma audit_accounted:
  assumes "accounted P (fst p)"
    and "\<And>c e. c \<in> set (ma_candidates (pw_audit w target port identity)) \<Longrightarrow> labelled device c e \<Longrightarrow> P e"
  shows "accounted P (fst (audit_management w target device port identity p))"
  unfolding audit_management_def Let_def
  by (rule accounted_fold) (use assms in \<open>simp_all add: promote_accounted\<close>)

lemma http_evidence_accounted [simp]: "accounted P (http_evidence device address port identity)"
  by (simp add: http_evidence_def split: option.split)

lemma http_accounted:
  assumes "accounted P (fst p)"
    and "\<And>c e. port \<in> set HTTP_PORTS \<Longrightarrow> c \<in> offered w target tier port \<Longrightarrow> labelled device c e \<Longrightarrow> P e"
  shows "accounted P (fst (confirm_http w target device tier port p))"
proof (cases "port \<in> set HTTP_PORTS \<and> pw_http w target port \<noteq> None")
  case True
  then obtain identity where http: "port \<in> set HTTP_PORTS" "pw_http w target port = Some identity" by auto
  have offers: "c \<in> set (hi_prefixes identity) \<Longrightarrow> c \<in> offered w target tier port"
    "tier = EstablishedPivot \<Longrightarrow> c \<in> set (ma_candidates (pw_audit w target port identity)) \<Longrightarrow>
       c \<in> offered w target tier port" for c
    using http by (simp_all add: offered_def)
  have root: "accounted P (fst (fold (promote_http_prefix w device source port) (hi_prefixes identity) q))"
    if "accounted P (fst q)" for source q
    by (rule accounted_fold [OF promote_accounted that]) (use assms(2) http(1) offers(1) in blast)+
  have audit: "accounted P (fst (audit_management w target device port identity q))"
    if "tier = EstablishedPivot" and "accounted P (fst q)" for q
    by (rule audit_accounted [OF that(2)]) (use assms(2) http(1) offers(2) that(1) in blast)
  show ?thesis
    using http assms(1) root audit
    by (simp add: confirm_http_def Let_def split: option.split)
qed (use assms(1) in \<open>auto simp: confirm_http_def split: option.split\<close>)

lemma confirm_accounted:
  assumes "accounted P (fst p)"
    and "\<And>port c e. port \<in> set ports \<Longrightarrow> port \<in> set HTTP_PORTS \<Longrightarrow> c \<in> offered w target tier port \<Longrightarrow>
           labelled device c e \<Longrightarrow> P e"
  shows "accounted P (fst (confirm_protocols w target device tier ports p))"
proof -
  have "accounted P (fst (fold (confirm_tls w target device) ports p))"
    by (rule accounted_fold [OF tls_accounted assms(1)])
  then have "accounted P (fst (confirm_dns w target device ports
      (confirm_smb w target device ports (fold (confirm_tls w target device) ports p))))"
    by (intro confirm_dns_accounted smb_accounted)
  then have "accounted P (fst (fold (confirm_telnet w target device) ports
      (confirm_dns w target device ports
        (confirm_smb w target device ports (fold (confirm_tls w target device) ports p)))))"
    by (rule accounted_fold [rotated]) (erule telnet_accounted)
  then show ?thesis
    unfolding confirm_protocols_def
    by (rule accounted_fold [rotated]) (use assms(2) http_accounted in blast)
qed

lemma open_ports_accounted [simp]: "accounted P (map (open_port_evidence a) ports)"
  by (induction ports) (simp_all add: open_port_evidence_def)

lemma ports_accounted:
  assumes "accounted P (fst p)" and "accounted P (pw_ai w primary (it_device t) ports)"
    and "\<And>port c e. port \<in> set ports \<Longrightarrow> port \<in> set HTTP_PORTS \<Longrightarrow>
           c \<in> offered w primary (it_tier t) port \<Longrightarrow> labelled (it_device t) c e \<Longrightarrow> P e"
  shows "accounted P (fst (interrogate_ports w t primary ports p))"
proof -
  have "accounted P (fst (confirm_protocols w primary (it_device t) (it_tier t) ports ([], c)))" for c
    using confirm_accounted [of P "([], c)"] assms(3) by simp
  then show ?thesis using assms(1,2) by (simp add: interrogate_ports_def Let_def emit_def)
qed

lemma secondary_accounted:
  "accounted P (fst p) \<Longrightarrow> accounted P (fst (interrogate_secondary w b primary e p))"
  by (simp add: interrogate_secondary_def Let_def)

lemma adapters_accounted: "accounted P (fst (run_adapter_list as fp))"
proof -
  have "accounted P (adapter_evidence a)" for a
    by (auto simp: accounted_def adapter_evidence_def list_all_iff)
  then show ?thesis by (simp add: run_adapter_list_def Let_def accounted_concat)
qed

lemma vendor_accounted:
  "accounted P (fst p) \<Longrightarrow> accounted P (fst (run_vendor_adapters w t ports p))"
  using adapters_accounted by (simp add: run_vendor_adapters_def run_adapters_def Let_def split: prod.split)
    (metis fst_conv)

text \<open>The ports on which the preferred address answered.\<close>

definition answering_ports :: "probe_world \<Rightarrow> discovery_context \<Rightarrow> interrogation_target \<Rightarrow> endpoint \<Rightarrow> u16 list" where
  "answering_ports w ctx t primary =
     fst (interrogate_primary w (dc_binding ctx) (it_worth_full t) primary)"

text \<open>
  What may stand behind a fact that creates or joins networks: a reachable route of the RIP table that
  the device returned, a prefix that a page of one of its answering HTTP ports labelled as its own
  address or as a route, or the record of an AI service.
\<close>

definition stated_by_device ::
    "probe_world \<Rightarrow> discovery_context \<Rightarrow> interrogation_target \<Rightarrow> endpoint \<Rightarrow> emitted \<Rightarrow> bool" where
  "stated_by_device w ctx t primary e \<longleftrightarrow>
     (\<exists>a table. ep_address primary = V4 a \<and> pw_rip w a = Some table \<and>
        (\<exists>r \<in> set (rt_routes table). advertised_route (it_device t) r e)) \<or>
     (\<exists>port \<in> set (answering_ports w ctx t primary). port \<in> set HTTP_PORTS \<and>
        (\<exists>c \<in> offered w primary (it_tier t) port. labelled (it_device t) c e)) \<or>
     e \<in> set (pw_ai w primary (it_device t) (answering_ports w ctx t primary))"

lemma interrogation_accounted:
  assumes "it_endpoints t = primary # others"
  shows "accounted (stated_by_device w ctx t primary) (fst (interrogate_device w ctx t))"
proof -
  let ?P = "stated_by_device w ctx t primary"
  obtain ports rec where sweep:
    "interrogate_primary w (dc_binding ctx) (it_worth_full t) primary = (ports, rec)" by fastforce
  then have ports: "answering_ports w ctx t primary = ports" by (simp add: answering_ports_def)
  have rip: "?P e" if "ep_address primary = V4 a" "pw_rip w a = Some table" "r \<in> set (rt_routes table)"
      "advertised_route (it_device t) r e" for a table r e
    using that unfolding stated_by_device_def by blast
  have http: "?P e" if "port \<in> set ports" "port \<in> set HTTP_PORTS" "c \<in> offered w primary (it_tier t) port"
      "labelled (it_device t) c e" for port c e
    using that unfolding stated_by_device_def ports by blast
  have ai: "accounted ?P (pw_ai w primary (it_device t) ports)"
    unfolding accounted_def list_all_iff stated_by_device_def ports by blast
  have control: "accounted ?P (fst (probe_control_plane w primary (it_device t) ([], c)))" for c
    by (rule control_plane_accounted) (simp, use rip in blast)
  have main: "accounted ?P (fst (interrogate_ports w t primary ports q))" if "accounted ?P (fst q)" for q
    by (rule ports_accounted [OF that ai]) (use http in blast)
  have rest: "accounted ?P (fst (fold (interrogate_secondary w b primary) others q))"
    if "accounted ?P (fst q)" for b q
    by (rule accounted_fold [OF secondary_accounted that])
  show ?thesis
    using control main rest vendor_accounted
    by (simp add: interrogate_device_def assms sweep Let_def)
qed

text \<open>
  C13: interrogating a device fabricates no topology. Whatever its services answer, a record that
  creates a network, attaches the device to one or makes it route to one is backed by a statement of
  the device: a reachable route of its RIP table, or a prefix that one of its pages labelled as an
  interface address or a route destination, and such a record is graded as advertised; the only other
  source is a record of an AI service. Open ports, certificates, banners, resolvers and vendor adapters
  never establish a network.
\<close>
theorem interrogation_fabricates_nothing:
  assumes "e \<in> set (fst (interrogate_device w ctx t))" and "\<not> adapter_may_assert (fst e)"
  shows "\<exists>primary others. it_endpoints t = primary # others \<and> stated_by_device w ctx t primary e"
proof (cases "it_endpoints t")
  case Nil
  with assms(1) show ?thesis by (simp add: interrogate_device_def)
next
  case (Cons primary others)
  from interrogation_accounted [OF this, of w ctx] assms have "stated_by_device w ctx t primary e"
    by (auto simp: accounted_def list_all_iff)
  with Cons show ?thesis by blast
qed

definition quiet_world :: probe_world where
  "quiet_world =
     \<lparr>pw_sockets = (\<lambda>_ c. case c of Connect _ \<Rightarrow> Some (IoError TimedOut ''connect timed out'') | _ \<Rightarrow> None),
      pw_net_str = (\<lambda>_. []), pw_debug = (\<lambda>s. s), pw_nat_pmp = (\<lambda>_. None), pw_rip = (\<lambda>_. None),
      pw_dns_udp = (\<lambda>_. None), pw_dns_tcp = (\<lambda>_. None), pw_dns_name = (\<lambda>_ _. None),
      pw_tls = (\<lambda>_ _. None), pw_smb = (\<lambda>_ _. None), pw_telnet = (\<lambda>_ _. None),
      pw_http = (\<lambda>_ _. None),
      pw_audit = (\<lambda>_ _ _. \<lparr>ma_attempted = [], ma_candidates = [], ma_budget_exhausted = False\<rparr>),
      pw_ai = (\<lambda>_ _ _. []), pw_elapsed = 0\<rparr>"

definition a_route :: rip_route where
  "a_route =
     \<lparr>rr_prefix = V4Net 0x0A010000 16, rr_next_hop = None, rr_metric = 2, rr_tag = 0, rr_raw_entry = []\<rparr>"

definition routing_world :: probe_world where
  "routing_world = quiet_world\<lparr>pw_rip := (\<lambda>_. Some \<lparr>rt_routes = [a_route], rt_datagrams = 1\<rparr>)\<rparr>"

definition a_context :: discovery_context where
  "a_context = context_seed (\<lambda>_ _. False) two_links
     \<lparr>va_interface = ''eth1'', va_kind = Wired, va_index = 3, va_capture_available = True\<rparr> 400 8"

definition a_gateway :: interrogation_target where
  "a_gateway =
     \<lparr>it_device = Address (V4 0x0A000001), it_tier = HostTier,
      it_endpoints = [endpoint_global (V4 0x0A000001)],
      it_known = \<lparr>fp_vendor = None, fp_open_ports = [], fp_hostnames = [], fp_descriptions = []\<rparr>,
      it_discovery_sources = [], it_worth_full = False\<rparr>"

theorem interrogation_fabricates_nothing_witness:
  "(fact.Network (V4Net 0x0A010000 16), evidence_source.Rip, Advertised, Some (rip_evidence a_route))
     \<in> set (fst (interrogate_device routing_world a_context a_gateway)) \<and>
   stated_by_device routing_world a_context a_gateway (endpoint_global (V4 0x0A000001))
     (fact.Network (V4Net 0x0A010000 16), evidence_source.Rip, Advertised, Some (rip_evidence a_route))"
proof -
  let ?e = "(fact.Network (V4Net 0x0A010000 16), evidence_source.Rip, Advertised, Some (rip_evidence a_route))"
  have mem: "?e \<in> set (fst (interrogate_device routing_world a_context a_gateway))" by code_simp
  moreover have "it_endpoints a_gateway = [endpoint_global (V4 0x0A000001)]" by (simp add: a_gateway_def)
  ultimately show ?thesis
    using interrogation_fabricates_nothing [OF mem] by simp
qed

section \<open>The coverage record adds up\<close>

abbreviation failures_total :: "(string \<times> nat) list \<Rightarrow> nat" where
  "failures_total fs \<equiv> sum_list (map snd fs)"

lemma failures_bm_insert:
  "bm_ok m \<Longrightarrow> failures_total (bm_insert k v m) + (case bm_get m k of None \<Rightarrow> 0 | Some u \<Rightarrow> u) =
     failures_total m + v"
proof (induction m)
  case (Cons p m)
  have ok: "bm_ok m" and low: "\<forall>q \<in> set m. fst p < fst q" using Cons.prems by (auto simp: bm_ok_def)
  have "map_of m k = None" if "k \<le> fst p"
    using low that by (force simp: map_of_eq_None_iff)
  with Cons.IH [OF ok] show ?case by (cases p) (auto split: option.splits)
qed simp

lemma failures_bm_entry: "bm_ok m \<Longrightarrow> failures_total (bm_entry k 0 Suc m) = Suc (failures_total m)"
  using failures_bm_insert [of m k "Suc (case bm_get m k of None \<Rightarrow> 0 | Some u \<Rightarrow> u)"]
  by (simp add: bm_entry_def entry_with_def split: option.splits)

lemma note_port_counts:
  assumes "bm_ok (snd acc)"
  shows "bm_ok (snd (note_port probe acc)) \<and>
     length (fst (note_port probe acc)) + failures_total (snd (note_port probe acc)) \<le>
     Suc (length (fst acc) + failures_total (snd acc)) \<and>
     set (fst (note_port probe acc)) \<subseteq> insert (fst probe) (set (fst acc))"
  using assms
  by (cases probe; cases acc)
    (auto simp: note_port_def failures_bm_entry bm_ok_laws split: port_status.split)

lemma sweep_counts:
  "length (sw_open (sweep_ports os b e ports)) + failures_total (sw_not_sent (sweep_ports os b e ports))
     \<le> length ports \<and> set (sw_open (sweep_ports os b e ports)) \<subseteq> set ports"
proof -
  have "bm_ok (snd acc) \<Longrightarrow>
      length (fst (fold note_port probes acc)) + failures_total (snd (fold note_port probes acc)) \<le>
        length probes + (length (fst acc) + failures_total (snd acc)) \<and>
      set (fst (fold note_port probes acc)) \<subseteq> fst ` set probes \<union> set (fst acc)" for probes acc
  proof (induction probes arbitrary: acc)
    case (Cons probe probes)
    from note_port_counts [OF Cons.prems, of probe] Cons.IH [of "note_port probe acc"]
    show ?case by auto
  qed simp
  from this [of "([], [])" "map (\<lambda>port. (port, probe_tcp_socket os b (endpoint_socket_addr e port))) ports"]
  show ?thesis by (auto simp: sweep_ports_def image_image split: prod.splits)
qed

lemma failures_merge_failure: "failures_total (merge_failure f fs) = failures_total fs + snd f"
  by (induction f fs rule: merge_failure.induct) auto

lemma failures_merge: "failures_total (merge_failures fs gs) = failures_total fs + failures_total gs"
  unfolding merge_failures_def by (induction gs arbitrary: fs) (simp_all add: failures_merge_failure)

lemma length_sort_dedup: "length (sort_dedup xs) \<le> length xs"
  using remdups_adj_length [of "sort xs"] by (simp add: sort_dedup_def)

definition adds_up :: "endpoint_coverage \<Rightarrow> bool" where
  "adds_up e \<longleftrightarrow>
     length (ec_tcp_responsive e) + failures_total (ec_not_sent e) \<le> ec_tcp_attempted e \<and>
     set (ec_tcp_responsive e) \<subseteq> set (STAGE_ONE_PORTS @ STAGE_TWO_PORTS)"

lemma primary_adds_up: "adds_up (snd (interrogate_primary w b worth primary))"
proof -
  let ?one = "sweep_ports (pw_sockets w) b primary STAGE_ONE_PORTS"
  let ?two = "sweep_ports (pw_sockets w) b primary STAGE_TWO_PORTS"
  note one = sweep_counts [of "pw_sockets w" b primary STAGE_ONE_PORTS]
    and two = sweep_counts [of "pw_sockets w" b primary STAGE_TWO_PORTS]
    and both = length_sort_dedup [of "sw_open ?one @ sw_open ?two"]
    and alone = length_sort_dedup [of "sw_open ?one"]
  show ?thesis
    using one two both alone
    by (auto simp: adds_up_def interrogate_primary_def Let_def failures_merge)
qed

lemma secondary_adds_up:
  assumes "list_all adds_up (dv_endpoints (snd p))"
  shows "list_all adds_up (dv_endpoints (snd (interrogate_secondary w b primary e p)))"
  using assms sweep_counts [of "pw_sockets w" b e STAGE_ONE_PORTS]
  by (auto simp: interrogate_secondary_def Let_def adds_up_def)

text \<open>What the protocol stages leave alone in a coverage record.\<close>

definition frame :: "device_coverage \<Rightarrow>
    device_key \<times> device_tier \<times> string list \<times> endpoint_coverage list \<times> string option" where
  "frame c = (dv_device c, dv_tier c, dv_addresses c, dv_endpoints c, dv_skipped c)"

lemma frame_emit [simp]: "snd (emit es p) = snd p"
  by (simp add: emit_def)

lemma frame_note [simp]: "frame (snd (note_protocol text p)) = frame (snd p)"
  by (simp add: note_protocol_def frame_def)

lemma frame_fold:
  assumes "\<And>x p. frame (snd (f x p)) = frame (snd p)"
  shows "frame (snd (fold f xs p)) = frame (snd p)"
  using assms by (induction xs arbitrary: p) simp_all

lemma frame_updates [simp]:
  "frame (c\<lparr>dv_udp_attempted := u\<rparr>) = frame c" "frame (c\<lparr>dv_auth_required := a\<rparr>) = frame c"
  by (simp_all add: frame_def)

lemma frame_promote [simp]: "frame (snd (promote_http_prefix w device source port c p)) = frame (snd p)"
  by (simp add: promote_http_prefix_def Let_def)

lemma frame_dns [simp]: "frame (snd (dns_evidence target device i p)) = frame (snd p)"
  by (simp add: dns_evidence_def Let_def)

lemma frame_control [simp]: "frame (snd (probe_control_plane w target device p)) = frame (snd p)"
  by (simp add: probe_control_plane_def Let_def split: ip_addr.split option.split)

lemma frame_audit [simp]: "frame (snd (audit_management w target device port identity p)) = frame (snd p)"
  by (simp add: audit_management_def Let_def frame_fold)

lemma frame_stages [simp]:
  "frame (snd (confirm_tls w target device port p)) = frame (snd p)"
  "frame (snd (confirm_smb w target device ports p)) = frame (snd p)"
  "frame (snd (dns_name_identity w target device name p)) = frame (snd p)"
  "frame (snd (confirm_telnet w target device port p)) = frame (snd p)"
  by (simp_all add: confirm_tls_def confirm_smb_def dns_name_identity_def confirm_telnet_def Let_def
      split: option.split)

lemma frame_confirm_dns [simp]: "frame (snd (confirm_dns w target device ports p)) = frame (snd p)"
  by (simp add: confirm_dns_def Let_def frame_fold split: option.split)

lemma frame_http [simp]: "frame (snd (confirm_http w target device tier port p)) = frame (snd p)"
  by (simp add: confirm_http_def Let_def frame_fold split: option.split)

lemma frame_confirm [simp]: "frame (snd (confirm_protocols w target device tier ports p)) = frame (snd p)"
  by (simp add: confirm_protocols_def frame_fold)

lemma frame_ports [simp]: "frame (snd (interrogate_ports w t primary ports p)) = frame (snd p)"
  by (simp add: interrogate_ports_def Let_def)

lemma frame_vendor [simp]: "frame (snd (run_vendor_adapters w t ports p)) = frame (snd p)"
  by (simp add: run_vendor_adapters_def Let_def frame_def split: prod.split)

lemma frame_endpoints: "frame c = frame d \<Longrightarrow> dv_endpoints c = dv_endpoints d \<and> dv_skipped c = dv_skipped d"
  by (simp add: frame_def)

text \<open>The records of the further addresses, appended one by one.\<close>

definition secondary_coverage :: "probe_world \<Rightarrow> socket_binding \<Rightarrow> endpoint \<Rightarrow> endpoint \<Rightarrow> endpoint_coverage" where
  "secondary_coverage w b primary e =
     last (dv_endpoints (snd (interrogate_secondary w b primary e
       ([], coverage_skipped (Mac []) HostTier []))))"

lemma secondary_step:
  "dv_endpoints (snd (interrogate_secondary w b primary e p)) =
     dv_endpoints (snd p) @ [secondary_coverage w b primary e] \<and>
   dv_skipped (snd (interrogate_secondary w b primary e p)) = dv_skipped (snd p)"
  by (simp add: interrogate_secondary_def secondary_coverage_def Let_def)

lemma secondary_all:
  "dv_endpoints (snd (fold (interrogate_secondary w b primary) es p)) =
     dv_endpoints (snd p) @ map (secondary_coverage w b primary) es \<and>
   dv_skipped (snd (fold (interrogate_secondary w b primary) es p)) = dv_skipped (snd p)"
  by (induction es arbitrary: p) (simp_all add: secondary_step)

lemma interrogated_endpoints:
  assumes "it_endpoints t = primary # others"
  shows "dv_endpoints (snd (interrogate_device w ctx t)) =
       snd (interrogate_primary w (dc_binding ctx) (it_worth_full t) primary) #
       map (secondary_coverage w (dc_binding ctx) primary) others \<and>
     dv_skipped (snd (interrogate_device w ctx t)) = None"
proof -
  obtain ports rec where sweep:
    "interrogate_primary w (dc_binding ctx) (it_worth_full t) primary = (ports, rec)" by fastforce
  define p1 where "p1 = (if endpoint_is_ipv4 primary
     then probe_control_plane w primary (it_device t)
            ([], (coverage_start t)\<lparr>dv_udp_attempted := CONTROL_PLANE_UDP_PORTS\<rparr>)
     else ([], coverage_start t))"
  define p2 where "p2 = interrogate_ports w t primary ports p1"
  define p3 where "p3 = (fst p2, (snd p2)\<lparr>dv_endpoints := dv_endpoints (snd p2) @ [rec]\<rparr>)"
  define p4 where "p4 = fold (interrogate_secondary w (dc_binding ctx) primary) others p3"
  have "frame (snd p2) = frame (coverage_start t)" by (simp add: p1_def p2_def)
  then have two: "dv_endpoints (snd p2) = [] \<and> dv_skipped (snd p2) = None"
    by (simp add: frame_def coverage_start_def)
  have "interrogate_device w ctx t = run_vendor_adapters w t ports p4"
    by (simp add: interrogate_device_def assms sweep Let_def p1_def p2_def p3_def p4_def)
  then have "frame (snd (interrogate_device w ctx t)) = frame (snd p4)" by simp
  then have "dv_endpoints (snd (interrogate_device w ctx t)) = dv_endpoints (snd p4) \<and>
      dv_skipped (snd (interrogate_device w ctx t)) = dv_skipped (snd p4)" by (rule frame_endpoints)
  moreover have "dv_endpoints (snd p3) = [rec] \<and> dv_skipped (snd p3) = None" using two by (simp add: p3_def)
  ultimately show ?thesis
    unfolding sweep snd_conv p4_def using secondary_all [of w "dc_binding ctx" primary others p3]
    by (simp only: append_Cons append_Nil)
qed

text \<open>
  C15: the coverage record of an interrogated device adds up. It has one entry per address of the
  device, in order, the preferred address first and marked so; a device without an address is recorded
  as skipped, with nothing attempted, and no other device is. In every entry the ports that responded
  are ports of the two stages, and together with the probes that never left this machine they are no
  more than the probes that were attempted, so neither can be counted twice.
\<close>
theorem coverage_adds_up:
  "let c = snd (interrogate_device w ctx t)
   in map ec_primary (dv_endpoints c) = map (\<lambda>i. i = 0) [0 ..< length (it_endpoints t)] \<and>
      map ec_endpoint (dv_endpoints c) = map endpoint_to_string (it_endpoints t) \<and>
      list_all adds_up (dv_endpoints c) \<and>
      tcp_responsive c + not_sent c \<le> tcp_attempted c \<and>
      (dv_skipped c \<noteq> None \<longleftrightarrow> it_endpoints t = [])"
proof (cases "it_endpoints t")
  case Nil
  then show ?thesis
    by (simp add: interrogate_device_def coverage_skipped_def tcp_responsive_def not_sent_def tcp_attempted_def)
next
  case (Cons primary others)
  let ?c = "snd (interrogate_device w ctx t)" and ?b = "dc_binding ctx"
  note ends = interrogated_endpoints [OF Cons, of w ctx]
  have sec: "adds_up (secondary_coverage w ?b primary e) \<and> \<not> ec_primary (secondary_coverage w ?b primary e) \<and>
      ec_endpoint (secondary_coverage w ?b primary e) = endpoint_to_string e" for e
    using secondary_adds_up [of "([], coverage_skipped (Mac []) HostTier [])" w ?b primary e]
    by (simp add: secondary_coverage_def interrogate_secondary_def Let_def coverage_skipped_def)
  have all: "list_all adds_up (dv_endpoints ?c)"
    using ends primary_adds_up sec by (auto simp: list_all_iff)
  have "tcp_responsive ?c + not_sent ?c \<le> tcp_attempted ?c"
  proof -
    have "sum_list (map (\<lambda>e. length (ec_tcp_responsive e)) es) +
        failures_total (concat (map ec_not_sent es)) \<le> sum_list (map ec_tcp_attempted es)"
      if "list_all adds_up es" for es
      using that by (induction es) (auto simp: adds_up_def)
    with all show ?thesis by (simp add: tcp_responsive_def not_sent_def tcp_attempted_def)
  qed
  moreover have "map ec_primary (dv_endpoints ?c) = map (\<lambda>i. i = 0) [0 ..< length (it_endpoints t)]"
  proof -
    have "ec_primary (snd (interrogate_primary w ?b (it_worth_full t) primary))"
      by (simp add: interrogate_primary_def Let_def)
    moreover have "map (\<lambda>i. i = 0) [0 ..< Suc n] = True # replicate n False" for n
      by (rule nth_equalityI) (auto simp: nth_Cons' simp del: upt_Suc)
    ultimately show ?thesis
      using ends sec unfolding Cons by (simp add: comp_def map_replicate_const del: upt_Suc)
  qed
  moreover have "map ec_endpoint (dv_endpoints ?c) = map endpoint_to_string (it_endpoints t)"
    using ends sec by (simp add: Cons interrogate_primary_def Let_def)
  ultimately show ?thesis using all ends Cons by (simp add: Let_def)
qed

section \<open>Where the record says less than happened\<close>

text \<open>
  A device that answers NAT-PMP, and so disclosed that it forwards traffic, counts as silent when no
  TCP port answers: only TCP responses and refusals are looked at.
\<close>

definition nat_world :: probe_world where
  "nat_world = quiet_world\<lparr>pw_nat_pmp := (\<lambda>_. Some None)\<rparr>"

lemma silent_although_answered:
  "let (es, c) = interrogate_device nat_world a_context a_gateway
   in silent c \<and> dv_protocols_confirmed c = [''nat-pmp''] \<and>
      (DeviceRoleSignal (it_device a_gateway) ObservedForwarding, NatPmp, Observed, None) \<in> set es"
  by code_simp

text \<open>
  A path that answered with a body of its own is left out of the coverage record when another two
  paths share a body and merely the status: only the status is compared.
\<close>

definition audited :: management_audit where
  "audited =
     \<lparr>ma_attempted = [(''/'', PathAnswered 200 0 (Some 1)), (''/index.html'', PathAnswered 200 0 (Some 1)),
        (''/status.json'', PathAnswered 200 3 (Some 2))],
      ma_candidates = [], ma_budget_exhausted = False\<rparr>"

lemma distinct_answer_left_out:
  "audit_entries 80 audited =
     [''http/80 audit: 2 paths returned the same catch-all representation (200); no prefix disclosed'']"
  by code_simp

text \<open>
  The facts an adapter may assert include the one that joins a VLAN to a network, and absorbing it
  creates the network.
\<close>

definition vlan_claim :: emitted where
  "vlan_claim = (VlanNetwork 7 (V4Net 0x0A070000 16), VendorDiscovery, Advertised, None)"

definition claiming_adapter :: vendor_adapter where
  "claiming_adapter =
     \<lparr>va_name = ''vendor:any'', va_applies = (\<lambda>_. True), va_discover = Answered ''UDP'' [vlan_claim]\<rparr>"

lemma adapter_creates_network:
  "fst (run_adapter_list [claiming_adapter] fp) = [vlan_claim] \<and>
   networks (absorb (stamp 0 ''eth1'' vlan_claim) graph_new) = [V4Net 0x0A070000 16]"
proof
  show "fst (run_adapter_list [claiming_adapter] fp) = [vlan_claim]"
    by (simp add: run_adapter_list_def claiming_adapter_def adapter_evidence_def vlan_claim_def)
qed code_simp

end
