(* ===== verification/Enrich.thy ===== *)
theory Enrich
  imports Interrogate Graph_Props
begin

text \<open>
  The device queue of the engine (\<open>src/src/engine/enrich.rs\<close>): who is worth asking, at which addresses,
  in which order, and one pass over the queue. The tasks of a pass run concurrently. A task's answers
  are those of the world when it runs, so the model runs the tasks as wholes, in the order in which
  they complete; that order, which tasks panic, and what the world answers are arguments.
\<close>

section \<open>Who is worth asking\<close>

definition LIVE_SOURCES :: "evidence_source list" where
  "LIVE_SOURCES =
     [ArpProbe, NdpProbe, IcmpProbe, TcpProbe, Mdns, Nbns, Llmnr, Ssdp, Mndp, Lldp, Cdp, Stp,
      evidence_source.RouterAdvertisement, evidence_source.Rip, Snmp, VendorDiscovery, NatPmp, AiProtocol, Mcp]"

definition currently_live :: "evidence_source \<Rightarrow> bool" where
  "currently_live source \<longleftrightarrow> source \<in> set LIVE_SOURCES"

definition worth_interrogating :: "evidence_source \<Rightarrow> bool" where
  "worth_interrogating source \<longleftrightarrow>
     currently_live source \<or> source = ArpCache \<or> source = NdpCache \<or> source = DhcpLease"

fun is_probeable :: "ip_addr \<Rightarrow> bool" where
  "is_probeable (V4 a) =
     (\<not> is_loopback4 a \<and> \<not> is_link_local4 a \<and> \<not> is_multicast4 a \<and> \<not> is_unspecified4 a)"
| "is_probeable (V6 a) = (\<not> is_loopback6 a \<and> \<not> is_multicast6 a \<and> \<not> is_unspecified6 a)"

fun address_class :: "ip_addr \<Rightarrow> nat" where
  "address_class (V4 _) = 0"
| "address_class (V6 a) = (if is_link_local6 a then 2 else 1)"

definition preferred_endpoints :: "node \<Rightarrow> string \<Rightarrow> u32 \<Rightarrow> endpoint list" where
  "preferred_endpoints n vantage_name index =
     (let usable = filter is_probeable (locally_observed_addresses n);
          class_of = (\<lambda>c. sort (filter (\<lambda>a. address_class a = c) usable))
      in map endpoint_global (class_of 0) @ map endpoint_global (class_of 1) @
         map (\<lambda>a. endpoint_scoped a (Some vantage_name) index) (class_of 2))"

definition interrogation_target_of ::
    "topology_graph \<Rightarrow> device_key list \<Rightarrow> string \<Rightarrow> u32 \<Rightarrow> node \<Rightarrow> interrogation_target option" where
  "interrogation_target_of g interrogated vantage_name index n =
     (case nd_id n of
        Device key \<Rightarrow>
          if key \<in> set interrogated \<or> \<not> locally_observed n then None
          else
            (let endpoints = preferred_endpoints n vantage_name index
             in if endpoints = [] then None
                else Some
                  \<lparr>it_device = key,
                   it_tier = (if key \<in> set (pivot_devices g) then EstablishedPivot
                              else if key \<in> set (candidate_devices g) then Candidate
                              else HostTier),
                   it_endpoints = endpoints,
                   it_known = \<lparr>fp_vendor = nd_vendor n, fp_open_ports = [],
                               fp_hostnames = nd_hostnames n, fp_descriptions = nd_descriptions n\<rparr>,
                   it_discovery_sources = evidence_sources n,
                   it_worth_full = list_ex (\<lambda>p. worth_interrogating (pv_source p)) (nd_provenance n)\<rparr>)
      | _ \<Rightarrow> None)"

definition queue_from_graph ::
    "topology_graph \<Rightarrow> device_key list \<Rightarrow> string \<Rightarrow> u32 \<Rightarrow> interrogation_target list" where
  "queue_from_graph g interrogated vantage_name index =
     sort_key (\<lambda>t. tier_priority (it_tier t))
       (List.map_filter (interrogation_target_of g interrogated vantage_name index) (graph_values g))"

section \<open>One pass\<close>

record enrichment_run =
  en_evidence :: "topology_evidence list"
  en_coverage :: "device_coverage list"
  en_reachability :: "(ip_net \<times> network_reachability) list"
  en_elapsed :: nat

definition sequential_equivalent :: "enrichment_run \<Rightarrow> nat" where
  "sequential_equivalent r = sum_list (map dv_elapsed (en_coverage r))"

definition run_probes_attempted :: "enrichment_run \<Rightarrow> nat" where
  "run_probes_attempted r =
     sum_list (map (\<lambda>c. tcp_attempted c + length (dv_udp_attempted c)) (en_coverage r))"

text \<open>
  What the world is asked during a pass: its answers to the probes of a task, what the task leaves
  behind, whether it panics, the time of each record it makes, the order in which tasks complete and
  how long the pass takes.
\<close>

record 'w task_world =
  tw_probes :: "interrogation_target \<Rightarrow> 'w \<Rightarrow> probe_world"
  tw_after :: "interrogation_target \<Rightarrow> 'w \<Rightarrow> 'w"
  tw_panics :: "interrogation_target \<Rightarrow> 'w \<Rightarrow> bool"
  tw_clock :: "'w \<Rightarrow> nat \<Rightarrow> int"
  tw_completion :: "interrogation_target list \<Rightarrow> 'w \<Rightarrow> interrogation_target list"
  tw_pass_time :: "'w \<Rightarrow> nat"

type_synonym device_result =
  "topology_evidence list \<times> device_coverage \<times> (ip_net \<times> network_reachability) list"

definition target_provider ::
    "discovery_context \<Rightarrow> 'w discovery_provider \<Rightarrow> device_result \<times> 'w \<Rightarrow> device_result \<times> 'w" where
  "target_provider targeted provider st =
     (let ((evidence, coverage, reachability), w) = st
      in if \<not> dp_applies provider targeted then st
         else let (produced, w') = dp_discover provider targeted w
              in ((evidence @ po_evidence produced,
                   coverage\<lparr>dv_protocols_confirmed := dv_protocols_confirmed coverage @
                              (if po_evidence produced \<noteq> [] then [dp_name provider] else []),
                            dv_adapter_outcomes := dv_adapter_outcomes coverage @ po_notes produced\<rparr>,
                   reachability @ po_reachability produced), w'))"

definition stamp_all :: "(nat \<Rightarrow> int) \<Rightarrow> string \<Rightarrow> emitted list \<Rightarrow> topology_evidence list" where
  "stamp_all clock vantage_name es =
     map (\<lambda>(i, e). stamp (clock i) vantage_name e) (enumerate 0 es)"

definition device_task ::
    "'w task_world \<Rightarrow> discovery_context \<Rightarrow> 'w discovery_provider list \<Rightarrow> interrogation_target \<Rightarrow> 'w \<Rightarrow>
     device_result \<times> 'w" where
  "device_task tw ctx providers t w =
     (let targeted = ctx\<lparr>dc_target := (case it_endpoints t of e # _ \<Rightarrow> Some (ep_address e) | [] \<Rightarrow> None)\<rparr>;
          (evidence, coverage) = interrogate_device (tw_probes tw t w) targeted t
      in fold (target_provider targeted) providers
           ((stamp_all (tw_clock tw w) (va_interface (dc_vantage ctx)) evidence, coverage, []),
            tw_after tw t w))"

definition join_task ::
    "'w task_world \<Rightarrow> discovery_context \<Rightarrow> 'w discovery_provider list \<Rightarrow> interrogation_target \<Rightarrow>
     device_result list \<times> 'w \<Rightarrow> device_result list \<times> 'w" where
  "join_task tw ctx providers t st =
     (let (results, w) = st; (result, w') = device_task tw ctx providers t w
      in if tw_panics tw t w then (results, w') else (results @ [result], w'))"

definition enrich_devices ::
    "'w task_world \<Rightarrow> discovery_context \<Rightarrow> 'w discovery_provider list \<Rightarrow> interrogation_target list \<Rightarrow> 'w \<Rightarrow>
     enrichment_run \<times> 'w" where
  "enrich_devices tw ctx providers tasks w =
     (let (results, w') = fold (join_task tw ctx providers) (tw_completion tw tasks w) ([], w)
      in (\<lparr>en_evidence = concat (map fst results),
           en_coverage = sort_key dv_addresses (map (fst \<circ> snd) results),
           en_reachability = concat (map (snd \<circ> snd) results),
           en_elapsed = tw_pass_time tw w\<rparr>, w'))"

section \<open>The queue\<close>

lemma preferred_endpoint:
  "e \<in> set (preferred_endpoints n v i) \<Longrightarrow>
     is_probeable (ep_address e) \<and> (ep_address e, False) \<in> set (nd_address_provenance n)"
  by (auto simp: preferred_endpoints_def Let_def endpoint_global_def endpoint_scoped_def
      locally_observed_addresses_def)

lemma address_class_cases: "address_class a = 0 \<or> address_class a = 1 \<or> address_class a = 2"
  by (cases a) auto

lemma preferred_endpoints_all:
  "ep_address ` set (preferred_endpoints n v i) =
     {a. is_probeable a \<and> (a, False) \<in> set (nd_address_provenance n)}"
proof (intro equalityI subsetI)
  fix a assume "a \<in> {a. is_probeable a \<and> (a, False) \<in> set (nd_address_provenance n)}"
  then have a: "is_probeable a" "a \<in> set (locally_observed_addresses n)"
    by (force simp: locally_observed_addresses_def)+
  define e where "e = (if address_class a = 2 then endpoint_scoped a (Some v) i else endpoint_global a)"
  have "e \<in> set (preferred_endpoints n v i)"
    using a address_class_cases [of a] by (auto simp: e_def preferred_endpoints_def Let_def)
  moreover have "ep_address e = a" by (simp add: e_def endpoint_scoped_def endpoint_global_def Let_def)
  ultimately show "a \<in> ep_address ` set (preferred_endpoints n v i)" by force
qed (use preferred_endpoint in blast)

lemma target_of_device:
  assumes "interrogation_target_of g I v i n = Some t"
  shows "nd_id n = Device (it_device t) \<and> it_device t \<notin> set I \<and> locally_observed n \<and>
     it_endpoints t = preferred_endpoints n v i \<and> it_endpoints t \<noteq> []"
  using assms by (auto simp: interrogation_target_of_def Let_def split: node_id.splits if_splits)

lemma target_of_complete:
  assumes "nd_id n = Device k" and "k \<notin> set I" and "locally_observed n"
    and "preferred_endpoints n v i \<noteq> []"
  shows "\<exists>t. interrogation_target_of g I v i n = Some t \<and> it_device t = k"
  using assms by (simp add: interrogation_target_of_def Let_def)

lemma set_queue:
  "set (queue_from_graph g I v i) =
     {t. \<exists>n \<in> set (graph_values g). interrogation_target_of g I v i n = Some t}"
  by (simp add: queue_from_graph_def set_map_filter)

lemma distinct_devices:
  assumes "distinct (map nd_id ns)"
  shows "distinct (map it_device (List.map_filter (interrogation_target_of g I v i) ns))"
  using assms
proof (induction ns)
  case (Cons n ns)
  then have IH: "distinct (map it_device (List.map_filter (interrogation_target_of g I v i) ns))" by simp
  show ?case
  proof (cases "interrogation_target_of g I v i n")
    case None
    with IH show ?thesis by (simp add: List.map_filter_def)
  next
    case (Some t)
    have "it_device t \<notin> it_device ` set (List.map_filter (interrogation_target_of g I v i) ns)"
    proof
      assume "it_device t \<in> it_device ` set (List.map_filter (interrogation_target_of g I v i) ns)"
      then obtain m s where "m \<in> set ns" "interrogation_target_of g I v i m = Some s" "it_device t = it_device s"
        by (auto simp: set_map_filter)
      then have "nd_id m = nd_id n" using target_of_device Some by metis
      with Cons.prems \<open>m \<in> set ns\<close> show False by (metis distinct.simps(2) image_eqI list.map(2) set_map)
    qed
    moreover have "List.map_filter (interrogation_target_of g I v i) (n # ns) =
        t # List.map_filter (interrogation_target_of g I v i) ns"
      using Some by (simp add: List.map_filter_def)
    ultimately show ?thesis using IH by simp
  qed
qed (simp add: List.map_filter_def)

lemma wf_values:
  assumes "wf_graph g"
  shows "map nd_id (graph_values g) = map fst (g_nodes g)"
proof -
  have "nd_id n = k" if "(k, n) \<in> set (g_nodes g)" for k n
    using assms that bm_all_set [of wf_node "g_nodes g" k n]
    by (auto simp: wf_graph_def wf_nodes_def wf_node_def)
  then show ?thesis by (auto simp: comp_def)
qed

lemma wf_get_value:
  assumes "wf_graph g"
  shows "n \<in> set (graph_values g) \<and> nd_id n = k \<longleftrightarrow> bm_get (g_nodes g) k = Some n"
proof -
  have ok: "bm_ok (g_nodes g)" using assms by (simp add: wf_graph_def wf_nodes_def bm_all_def)
  have ids: "nd_id m = j" if "(j, m) \<in> set (g_nodes g)" for j m
    using assms that bm_all_set [of wf_node "g_nodes g" j m]
    by (auto simp: wf_graph_def wf_nodes_def wf_node_def)
  show ?thesis using set_bm_get [OF ok] ids by force
qed

lemma queue_device_once:
  assumes "wf_graph g"
  shows "distinct (map it_device (queue_from_graph g I v i))"
proof -
  have "distinct (map nd_id (graph_values g))"
    using assms bm_ok_distinct [of "g_nodes g"]
    by (simp only: wf_values) (simp add: wf_graph_def wf_nodes_def bm_all_def)
  from distinct_devices [OF this, of g I v i] show ?thesis
    unfolding queue_from_graph_def distinct_map set_sort distinct_sort by simp
qed

lemma queue_devices:
  assumes "wf_graph g"
  shows "k \<in> it_device ` set (queue_from_graph g I v i) \<longleftrightarrow>
     k \<notin> set I \<and> (\<exists>n. bm_get (g_nodes g) (Device k) = Some n \<and> locally_observed n \<and>
       (\<exists>a. is_probeable a \<and> (a, False) \<in> set (nd_address_provenance n)))"
proof
  assume "k \<in> it_device ` set (queue_from_graph g I v i)"
  then obtain n t where n: "n \<in> set (graph_values g)" "interrogation_target_of g I v i n = Some t" "it_device t = k"
    by (auto simp: set_queue)
  note t = target_of_device [OF n(2)]
  then obtain e where "e \<in> set (preferred_endpoints n v i)" by (metis list.set_intros(1) neq_Nil_conv)
  with t n wf_get_value [OF assms, of n] preferred_endpoint show
    "k \<notin> set I \<and> (\<exists>n. bm_get (g_nodes g) (Device k) = Some n \<and> locally_observed n \<and>
       (\<exists>a. is_probeable a \<and> (a, False) \<in> set (nd_address_provenance n)))" by blast
next
  assume "k \<notin> set I \<and> (\<exists>n. bm_get (g_nodes g) (Device k) = Some n \<and> locally_observed n \<and>
       (\<exists>a. is_probeable a \<and> (a, False) \<in> set (nd_address_provenance n)))"
  then obtain n where n: "k \<notin> set I" "bm_get (g_nodes g) (Device k) = Some n" "locally_observed n"
    "ep_address ` set (preferred_endpoints n v i) \<noteq> {}" by (auto simp: preferred_endpoints_all)
  then have "n \<in> set (graph_values g)" "nd_id n = Device k" using wf_get_value [OF assms, of n "Device k"] by simp_all
  with n target_of_complete [of n k I v i g] show "k \<in> it_device ` set (queue_from_graph g I v i)"
    by (force simp: set_queue)
qed

lemma queue_endpoints_seen:
  assumes "t \<in> set (queue_from_graph (run ops graph_new) I v i)" and "e \<in> set (it_endpoints t)"
  shows "is_probeable (ep_address e) \<and> seen_here (absorbed ops) (ep_address e)"
proof -
  let ?g = "run ops graph_new"
  have wf: "wf_graph ?g" by (rule run_wf) (rule wf_graph_new)
  obtain n where n: "n \<in> set (graph_values ?g)" "interrogation_target_of ?g I v i n = Some t"
    using assms(1) by (auto simp: set_queue)
  have e: "is_probeable (ep_address e)" "(ep_address e, False) \<in> set (nd_address_provenance n)"
    using target_of_device [OF n(2)] assms(2) preferred_endpoint [of e n v i] by auto
  have "seen.holds (absorbed ops) ?g" by (rule seen.holds_run) (simp add: absorbed_def)
  from bm_allD [OF this [unfolded seen.holds_def]] wf_get_value [OF wf, of n] n(1) e show ?thesis by blast
qed

text \<open>A list that is sorted by three ranks is its three parts in order.\<close>

lemma split_by_rank:
  fixes f :: "'a \<Rightarrow> nat"
  assumes "sorted (map f xs)" and "\<And>x. x \<in> set xs \<Longrightarrow> f x \<le> 2"
  shows "xs = filter (\<lambda>x. f x = 0) xs @ filter (\<lambda>x. f x = 1) xs @ filter (\<lambda>x. f x = 2) xs"
  using assms
proof (induction xs)
  case (Cons x xs)
  then have IH: "xs = filter (\<lambda>x. f x = 0) xs @ filter (\<lambda>x. f x = 1) xs @ filter (\<lambda>x. f x = 2) xs" by simp
  have above: "f x \<le> f y" if "y \<in> set xs" for y using Cons.prems(1) that by simp
  have none: "filter (\<lambda>y. f y = r) xs = []" if "r < f x" for r
    using above that by (fastforce simp: filter_empty_conv)
  have "f x = 0 \<or> f x = 1 \<or> f x = 2" using Cons.prems(2) [of x] by auto
  then show ?case using IH none [of 0] none [of 1] by (elim disjE) simp_all
qed simp

definition scheduled :: "topology_graph \<Rightarrow> interrogation_target list \<Rightarrow> bool" where
  "scheduled g q \<longleftrightarrow>
     (\<exists>pivots candidates hosts. q = pivots @ candidates @ hosts \<and>
        it_device ` set pivots \<subseteq> set (pivot_devices g) \<and>
        it_device ` set candidates \<subseteq> set (candidate_devices g) - set (pivot_devices g) \<and>
        it_device ` set hosts \<inter> (set (pivot_devices g) \<union> set (candidate_devices g)) = {})"

lemma target_tier:
  assumes "interrogation_target_of g I v i n = Some t"
  shows "tier_priority (it_tier t) =
    (if it_device t \<in> set (pivot_devices g) then 0 else if it_device t \<in> set (candidate_devices g) then 1 else 2)"
  using assms by (auto simp: interrogation_target_of_def Let_def split: node_id.splits if_splits)

lemma queue_scheduled: "scheduled g (queue_from_graph g I v i)"
proof -
  let ?q = "queue_from_graph g I v i" and ?rank = "\<lambda>t. tier_priority (it_tier t)"
  have tier: "?rank t = (if it_device t \<in> set (pivot_devices g) then 0
      else if it_device t \<in> set (candidate_devices g) then 1 else 2)" if "t \<in> set ?q" for t
    using that target_tier by (auto simp: set_queue)
  have low: "?rank t \<le> 2" for t by (cases "it_tier t") simp_all
  have in_order: "sorted (map ?rank ?q)" by (simp add: queue_from_graph_def)
  have "it_device ` set (filter (\<lambda>t. ?rank t = 0) ?q) \<subseteq> set (pivot_devices g)"
    "it_device ` set (filter (\<lambda>t. ?rank t = 1) ?q) \<subseteq> set (candidate_devices g) - set (pivot_devices g)"
    "it_device ` set (filter (\<lambda>t. ?rank t = 2) ?q) \<inter> (set (pivot_devices g) \<union> set (candidate_devices g)) = {}"
    by (auto simp: tier split: if_splits)
  with split_by_rank [OF in_order low] show ?thesis unfolding scheduled_def by blast
qed

text \<open>
  C12: the device queue is exactly the devices worth asking. On the graph that any sequence of
  evidence and merges builds, the queue names each device once; it starts with the devices the graph
  has as pivots, continues with those it has as candidates for infrastructure, and ends with the hosts
  that are neither. A device is in it exactly if it was not interrogated before, this machine observed it,
  and it holds an address that this machine observed and a probe can be sent to; and every address in
  the queue is one that evidence gathered here, never a peer's report, bound to a device.
\<close>

theorem device_queue_exact:
  "let g = run ops graph_new; q = queue_from_graph g I v i
   in distinct (map it_device q) \<and> scheduled g q \<and>
      (\<forall>k. k \<in> it_device ` set q \<longleftrightarrow>
         k \<notin> set I \<and> (\<exists>n. bm_get (g_nodes g) (Device k) = Some n \<and> locally_observed n \<and>
           (\<exists>a. is_probeable a \<and> (a, False) \<in> set (nd_address_provenance n)))) \<and>
      (\<forall>t \<in> set q. \<forall>e \<in> set (it_endpoints t).
         is_probeable (ep_address e) \<and> seen_here (absorbed ops) (ep_address e))"
proof -
  have wf: "wf_graph (run ops graph_new)" by (rule run_wf) (rule wf_graph_new)
  from queue_scheduled queue_device_once [OF wf] queue_devices [OF wf] queue_endpoints_seen show ?thesis
    unfolding Let_def by blast
qed

theorem device_queue_exact_witness:
  "sample_mac (CHR ''1'') \<in> it_device ` set (queue_from_graph
     (run [sample_claim (CHR ''1'') ArpProbe] graph_new) [] ''eth1'' 3) \<and>
   list_all (\<lambda>t. list_all (\<lambda>e. seen_here (absorbed [sample_claim (CHR ''1'') ArpProbe]) (ep_address e)) (it_endpoints t))
     (queue_from_graph (run [sample_claim (CHR ''1'') ArpProbe] graph_new) [] ''eth1'' 3)"
proof -
  have "sample_mac (CHR ''1'') \<in> it_device ` set (queue_from_graph
     (run [sample_claim (CHR ''1'') ArpProbe] graph_new) [] ''eth1'' 3)" by code_simp
  with device_queue_exact [of "[sample_claim (CHR ''1'') ArpProbe]" "[]" "''eth1''" 3]
  show ?thesis by (simp add: Let_def list_all_iff)
qed

text \<open>
  What the kernel merely remembers is worth a question and is not counted as live.
\<close>

lemma cache_is_not_live:
  "\<not> currently_live ArpCache \<and> \<not> currently_live NdpCache \<and> \<not> currently_live DhcpLease \<and>
   worth_interrogating ArpCache \<and> worth_interrogating NdpCache \<and> worth_interrogating DhcpLease"
  by (simp add: currently_live_def worth_interrogating_def LIVE_SOURCES_def)

end
