(* ===== verification/Engine.thy ===== *)
theory Engine
  imports Enrich
begin

text \<open>
  The discovery engine (\<open>src/src/engine/orchestrator.rs\<close>): the seed pass, the fixed-point loop over
  scopes and devices, the final drain of the continuous sources and the report. Providers and sources
  act on the world \<open>'w\<close>, which the state carries; the text form of a prefix, by which the graph sorts
  its local networks, is the argument \<open>net_str\<close>. A hash set is a list without repetitions, and the
  number of iterations is bounded by the budget, so the engine is a total function.
\<close>

section \<open>The order of prefixes\<close>

lemma enc_net_inject [simp]: "enc_net a = enc_net b \<longleftrightarrow> a = b"
  using enc_net_append_inject [of a "[]" b "[]"] by simp

instantiation ip_net :: linorder
begin

definition less_eq_ip_net :: "ip_net \<Rightarrow> ip_net \<Rightarrow> bool" where
  "a \<le> b \<longleftrightarrow> enc_net a \<le> enc_net b"

definition less_ip_net :: "ip_net \<Rightarrow> ip_net \<Rightarrow> bool" where
  "a < b \<longleftrightarrow> enc_net a < enc_net b"

instance
  by standard (auto simp: less_eq_ip_net_def less_ip_net_def order_less_le)

end

section \<open>Budget and notes\<close>

definition run_note :: "provider_output \<Rightarrow> string \<Rightarrow> string option" where
  "run_note produced silence =
     (if po_notes produced \<noteq> [] then Some (join_with ''; '' (po_notes produced))
      else if po_evidence produced \<noteq> [] then None
      else Some (if po_attempted produced then silence else ''not attempted''))"

record budget =
  max_scopes :: nat
  max_iterations :: nat
  max_enumerable_hosts :: nat

definition budget_default :: budget where
  "budget_default = \<lparr>max_scopes = 64, max_iterations = 8, max_enumerable_hosts = 4096\<rparr>"

definition USIZE_MAX :: nat where
  "USIZE_MAX = 2 ^ 64 - 1"

fun enumerable_host_count :: "ip_net \<Rightarrow> nat" where
  "enumerable_host_count (V4Net _ n) =
     (let bits = 32 - n in if 32 \<le> bits then USIZE_MAX else 2 ^ bits - 2)"
| "enumerable_host_count (V6Net _ _) = USIZE_MAX"

section \<open>State and report\<close>

record scope_run =
  sr_scope :: "ip_net option"
  sr_runs :: "provider_run list"

record pivot_run =
  pt_address :: ip_addr
  pt_runs :: "provider_run list"
  pt_networks_learned :: "ip_net list"

record 'w discovery_engine =
  eg_seed_providers :: "'w discovery_provider list"
  eg_scope_providers :: "'w discovery_provider list"
  eg_continuous :: "'w continuous_source list"
  eg_budget :: budget

definition engine_new ::
    "'w discovery_provider list \<Rightarrow> 'w discovery_provider list \<Rightarrow> 'w discovery_engine" where
  "engine_new seed_providers scope_providers =
     \<lparr>eg_seed_providers = seed_providers, eg_scope_providers = scope_providers, eg_continuous = [],
      eg_budget = budget_default\<rparr>"

definition with_continuous_source :: "'w discovery_engine \<Rightarrow> 'w continuous_source \<Rightarrow> 'w discovery_engine" where
  "with_continuous_source eng source = eng\<lparr>eg_continuous := eg_continuous eng @ [source]\<rparr>"

definition with_budget :: "'w discovery_engine \<Rightarrow> budget \<Rightarrow> 'w discovery_engine" where
  "with_budget eng b = eng\<lparr>eg_budget := b\<rparr>"

record 'w engine_state =
  st_graph :: topology_graph
  st_scope_runs :: "scope_run list"
  st_pivot_runs :: "pivot_run list"
  st_processed :: "ip_net list"
  st_interrogated :: "device_key list"
  st_oversized :: "ip_net list"
  st_coverage :: "device_coverage list"
  st_elapsed :: nat
  st_sequential :: nat
  st_probes :: nat
  st_reachability :: "(network_ref, network_reachability) btree_map"
  st_queue :: "ip_net list"
  st_finished :: bool
  st_world :: 'w

record visibility_report =
  vr_vantage :: vantage
  vr_blind_to :: "string list"
  vr_unavailable :: "string list"
  vr_binding_mode :: binding_mode

record discovery_report =
  rp_graph :: topology_graph
  rp_scope_runs :: "scope_run list"
  rp_pivot_runs :: "pivot_run list"
  rp_coverage :: "device_coverage list"
  rp_elapsed :: nat
  rp_sequential :: nat
  rp_probes :: nat
  rp_visibility :: visibility_report
  rp_oversized :: "ip_net list"
  rp_reachability :: "(network_ref, network_reachability) btree_map"
  rp_converged :: bool

section \<open>Recording what providers report\<close>

definition record_outcome ::
    "ip_net \<times> network_reachability \<Rightarrow> (network_ref, network_reachability) btree_map \<Rightarrow>
     (network_ref, network_reachability) btree_map" where
  "record_outcome produced into =
     (let (prefix, outcome) = produced; key = (prefix, network_realm prefix Local)
      in bm_insert key
           (case bm_get into key of Some held \<Rightarrow> reachability_merge held outcome | None \<Rightarrow> outcome) into)"

definition record_reachability ::
    "(ip_net \<times> network_reachability) list \<Rightarrow> (network_ref, network_reachability) btree_map \<Rightarrow>
     (network_ref, network_reachability) btree_map" where
  "record_reachability produced into = fold record_outcome produced into"

definition absorb_all :: "topology_evidence list \<Rightarrow> 'w engine_state \<Rightarrow> 'w engine_state" where
  "absorb_all evidence st = st\<lparr>st_graph := fold absorb evidence (st_graph st)\<rparr>"

definition run_provider ::
    "string \<Rightarrow> discovery_context \<Rightarrow> 'w discovery_provider \<Rightarrow> provider_run list \<times> 'w engine_state \<Rightarrow>
     provider_run list \<times> 'w engine_state" where
  "run_provider silence ctx provider acc =
     (let (runs, st) = acc
      in if \<not> dp_applies provider ctx then acc
         else let (produced, w) = dp_discover provider ctx (st_world st)
              in (runs @ [\<lparr>pr_provider = dp_name provider,
                           pr_evidence_count = length (po_evidence produced),
                           pr_note = run_note produced silence\<rparr>],
                  absorb_all (po_evidence produced)
                    (st\<lparr>st_world := w,
                        st_reachability := record_reachability (po_reachability produced) (st_reachability st)\<rparr>)))"

definition run_providers ::
    "string \<Rightarrow> discovery_context \<Rightarrow> ip_net option \<Rightarrow> 'w discovery_provider list \<Rightarrow> 'w engine_state \<Rightarrow>
     'w engine_state" where
  "run_providers silence ctx scope providers st =
     (let (runs, st') = fold (run_provider silence ctx) providers ([], st)
      in st'\<lparr>st_scope_runs := st_scope_runs st' @ [\<lparr>sr_scope = scope, sr_runs = runs\<rparr>]\<rparr>)"

section \<open>Sources\<close>

definition drain_source :: "'w continuous_source \<Rightarrow> 'w engine_state \<Rightarrow> 'w engine_state" where
  "drain_source source st =
     (let (evidence, w) = cs_drain source (st_world st) in absorb_all evidence (st\<lparr>st_world := w\<rparr>))"

definition finish_source :: "'w continuous_source \<Rightarrow> 'w engine_state \<Rightarrow> 'w engine_state" where
  "finish_source source st =
     (let (evidence, w) = cs_finish source (st_world st) in absorb_all evidence (st\<lparr>st_world := w\<rparr>))"

definition drain_sources :: "'w discovery_engine \<Rightarrow> 'w engine_state \<Rightarrow> 'w engine_state" where
  "drain_sources eng st = fold drain_source (eg_continuous eng) st"

definition finish_sources :: "'w discovery_engine \<Rightarrow> 'w engine_state \<Rightarrow> 'w engine_state" where
  "finish_sources eng st = fold finish_source (eg_continuous eng) (st\<lparr>st_finished := True\<rparr>)"

section \<open>Aliases\<close>

definition push_new :: "'a \<Rightarrow> 'a list \<Rightarrow> 'a list" where
  "push_new x xs = (if x \<in> set xs then xs else xs @ [x])"

definition apply_alias ::
    "device_key \<times> device_key \<Rightarrow> device_key list \<times> device_coverage list \<Rightarrow>
     device_key list \<times> device_coverage list" where
  "apply_alias alias acc =
     (let (absorbed, surviving) = alias; (interrogated, coverage) = acc
      in (if absorbed \<in> set interrogated then push_new surviving (removeAll absorbed interrogated)
          else interrogated,
          map (\<lambda>c. if dv_device c = absorbed then c\<lparr>dv_device := surviving\<rparr> else c) coverage))"

fun dedup_devices :: "device_coverage list \<Rightarrow> device_coverage list" where
  "dedup_devices (a # b # rest) =
     (if dv_device b = dv_device a then dedup_devices (a # rest) else a # dedup_devices (b # rest))"
| "dedup_devices cs = cs"

definition apply_aliases ::
    "(device_key \<times> device_key) list \<Rightarrow> device_key list \<times> device_coverage list \<Rightarrow>
     device_key list \<times> device_coverage list" where
  "apply_aliases aliases acc =
     (let (interrogated, coverage) = fold apply_alias aliases acc
      in (interrogated,
          dedup_devices
            (sort_key (\<lambda>c. (describe_key (dv_device c), - int (tcp_attempted c))) coverage)))"

definition merge_identities :: "'w engine_state \<Rightarrow> 'w engine_state" where
  "merge_identities st =
     (let (g, aliases) = merge_address_identities (st_graph st);
          (interrogated, coverage) = apply_aliases aliases (st_interrogated st, st_coverage st)
      in st\<lparr>st_graph := g, st_interrogated := interrogated, st_coverage := coverage\<rparr>)"

definition interrogation_queue ::
    "topology_graph \<Rightarrow> device_key list \<Rightarrow> vantage \<Rightarrow> interrogation_target list" where
  "interrogation_queue g interrogated v = queue_from_graph g interrogated (va_interface v) (va_index v)"

section \<open>One iteration\<close>

text \<open>The networks seen here that were not processed join the queue; the queue becomes the work.\<close>

definition take_pending :: "(ip_net \<Rightarrow> string) \<Rightarrow> 'w engine_state \<Rightarrow> ip_net list" where
  "take_pending net_str st =
     filter (\<lambda>n. n \<notin> set (st_processed st))
       (fold (\<lambda>net queue. if net \<notin> set (st_processed st) \<and> net \<notin> set queue then queue @ [net] else queue)
          (local_networks net_str (st_graph st)) (st_queue st))"

definition outstanding :: "discovery_context \<Rightarrow> 'w engine_state \<Rightarrow> interrogation_target list" where
  "outstanding ctx st = interrogation_queue (st_graph st) (st_interrogated st) (dc_vantage ctx)"

text \<open>The candidate for convergence: stop observing, and decide whether that extended the topology.\<close>

definition gained_network :: "topology_graph \<Rightarrow> topology_graph \<Rightarrow> bool" where
  "gained_network before after = list_ex (\<lambda>n. n \<notin> set (networks before)) (networks after)"

definition gained_pivot :: "topology_graph \<Rightarrow> topology_graph \<Rightarrow> bool" where
  "gained_pivot before after = list_ex (\<lambda>a. a \<notin> set (pivot_addresses before)) (pivot_addresses after)"

definition final_drain ::
    "'w discovery_engine \<Rightarrow> discovery_context \<Rightarrow> 'w engine_state \<Rightarrow> 'w engine_state \<times> bool" where
  "final_drain eng ctx st =
     (if st_finished st then (st, True)
      else let st' = finish_sources eng st
           in (st', \<not> (gained_network (st_graph st) (st_graph st') \<or>
                       gained_pivot (st_graph st) (st_graph st') \<or> outstanding ctx st' \<noteq> [])))"

definition pivot_run_of :: "ip_net list \<Rightarrow> device_coverage \<Rightarrow> pivot_run" where
  "pivot_run_of learned c =
     \<lparr>pt_address =
        (case Option.bind (primary_endpoint c) (\<lambda>e. ip_from_str (hd (split_on (CHR ''%'') e))) of
           Some a \<Rightarrow> a
         | None \<Rightarrow> V4 0),
      pt_runs = [\<lparr>pr_provider = ''device-enrichment'',
                  pr_evidence_count = tcp_responsive c + length (dv_protocols_confirmed c),
                  pr_note = Some (coverage_summary c)\<rparr>],
      pt_networks_learned = learned\<rparr>"

definition enrich_pass ::
    "'w discovery_engine \<Rightarrow> 'w task_world \<Rightarrow> discovery_context \<Rightarrow> 'w engine_state \<Rightarrow> 'w engine_state" where
  "enrich_pass eng tw ctx st0 =
     (let st = merge_identities st0;
          queued = outstanding ctx st;
          known = networks (st_graph st);
          (r, w) = enrich_devices tw ctx (eg_scope_providers eng) queued (st_world st);
          st1 = absorb_all (en_evidence r)
            (st\<lparr>st_interrogated := fold (\<lambda>t. push_new (it_device t)) queued (st_interrogated st),
                st_world := w,
                st_reachability := record_reachability (en_reachability r) (st_reachability st),
                st_elapsed := st_elapsed st + en_elapsed r,
                st_sequential := st_sequential st + sequential_equivalent r,
                st_probes := st_probes st + run_probes_attempted r\<rparr>);
          learned = filter (\<lambda>n. n \<notin> set known) (networks (st_graph st1))
      in st1\<lparr>st_pivot_runs := st_pivot_runs st1 @
               map (pivot_run_of learned) (filter (\<lambda>c. dv_tier c = EstablishedPivot) (en_coverage r)),
             st_coverage := st_coverage st1 @ en_coverage r\<rparr>)"

definition process_scope ::
    "'w discovery_engine \<Rightarrow> discovery_context \<Rightarrow> ip_net \<Rightarrow> 'w engine_state \<Rightarrow> 'w engine_state" where
  "process_scope eng ctx scope st =
     (let hosts = enumerable_host_count scope; limit = max_enumerable_hosts (eg_budget eng);
          st1 = st\<lparr>st_processed := push_new scope (st_processed st)\<rparr>;
          st2 = (if limit < hosts
                 then st1\<lparr>st_oversized := st_oversized st1 @ [scope],
                          st_reachability := record_reachability
                            [(scope, not_enumerated (decimal (int hosts) @ '' addresses exceeds the '' @
                               decimal (int limit) @ '' this run enumerates''))] (st_reachability st1)\<rparr>
                 else st1)
      in run_providers ''no response'' (for_scope ctx scope) (Some scope) (eg_scope_providers eng) st2)"

fun process_scopes ::
    "'w discovery_engine \<Rightarrow> discovery_context \<Rightarrow> ip_net list \<Rightarrow> 'w engine_state \<Rightarrow> 'w engine_state" where
  "process_scopes eng ctx [] st = st"
| "process_scopes eng ctx (scope # rest) st =
     (if max_scopes (eg_budget eng) \<le> length (st_processed st) then st
      else process_scopes eng ctx rest (process_scope eng ctx scope st))"

definition engine_pass ::
    "'w discovery_engine \<Rightarrow> 'w task_world \<Rightarrow> (ip_net \<Rightarrow> string) \<Rightarrow> discovery_context \<Rightarrow> 'w engine_state \<Rightarrow>
     'w engine_state \<times> bool" where
  "engine_pass eng tw net_str ctx st0 =
     (let st1 = drain_sources eng st0;
          pending = take_pending net_str st1;
          st2 = merge_identities (st1\<lparr>st_queue := []\<rparr>)
      in if pending = [] \<and> outstanding ctx st2 = [] then final_drain eng ctx st2
         else (process_scopes eng ctx pending (enrich_pass eng tw ctx st2), False))"

fun engine_loop ::
    "nat \<Rightarrow> 'w discovery_engine \<Rightarrow> 'w task_world \<Rightarrow> (ip_net \<Rightarrow> string) \<Rightarrow> discovery_context \<Rightarrow>
     'w engine_state \<Rightarrow> 'w engine_state \<times> bool" where
  "engine_loop 0 eng tw net_str ctx st = (st, False)"
| "engine_loop (Suc n) eng tw net_str ctx st =
     (let (st', converged) = engine_pass eng tw net_str ctx st
      in if converged then (st', True) else engine_loop n eng tw net_str ctx st')"

section \<open>The whole run\<close>

definition engine_start ::
    "'w discovery_engine \<Rightarrow> discovery_context \<Rightarrow> ip_net option \<Rightarrow> 'w \<Rightarrow> 'w engine_state" where
  "engine_start eng ctx initial w =
     run_providers ''no evidence from this vantage'' ctx None (eg_seed_providers eng)
       \<lparr>st_graph = graph_new, st_scope_runs = [], st_pivot_runs = [], st_processed = [],
        st_interrogated = [], st_oversized = [], st_coverage = [], st_elapsed = 0, st_sequential = 0,
        st_probes = 0, st_reachability = [],
        st_queue = (case initial of Some scope \<Rightarrow> [scope] | None \<Rightarrow> []),
        st_finished = (eg_continuous eng = []), st_world = w\<rparr>"

definition engine_finish ::
    "'w discovery_engine \<Rightarrow> 'w engine_state \<Rightarrow> 'w engine_state" where
  "engine_finish eng st =
     (let st1 = (if st_finished st then st else finish_sources eng st)
      in st1\<lparr>st_graph := finalize_roles (st_graph st1)\<rparr>)"

definition visibility_of :: "discovery_context \<Rightarrow> visibility_report" where
  "visibility_of ctx =
     \<lparr>vr_vantage = dc_vantage ctx, vr_blind_to = blind_to (va_kind (dc_vantage ctx)),
      vr_unavailable = [],
      vr_binding_mode = binding_mode_for (dc_binding ctx)
        (SockV4 (case sb_v4_source (dc_binding ctx) of Some a \<Rightarrow> a | None \<Rightarrow> 0) 0)\<rparr>"

definition engine_final ::
    "'w discovery_engine \<Rightarrow> 'w task_world \<Rightarrow> (ip_net \<Rightarrow> string) \<Rightarrow> discovery_context \<Rightarrow> ip_net option \<Rightarrow> 'w \<Rightarrow>
     'w engine_state \<times> bool" where
  "engine_final eng tw net_str ctx initial w =
     (let (st, converged) = engine_loop (max_iterations (eg_budget eng)) eng tw net_str ctx
            (engine_start eng ctx initial w)
      in (engine_finish eng st, converged))"

definition engine_run ::
    "'w discovery_engine \<Rightarrow> 'w task_world \<Rightarrow> (ip_net \<Rightarrow> string) \<Rightarrow> discovery_context \<Rightarrow> ip_net option \<Rightarrow> 'w \<Rightarrow>
     discovery_report" where
  "engine_run eng tw net_str ctx initial w =
     (let (st, converged) = engine_final eng tw net_str ctx initial w
      in \<lparr>rp_graph = st_graph st, rp_scope_runs = st_scope_runs st, rp_pivot_runs = st_pivot_runs st,
          rp_coverage = st_coverage st, rp_elapsed = st_elapsed st, rp_sequential = st_sequential st,
          rp_probes = st_probes st, rp_visibility = visibility_of ctx, rp_oversized = st_oversized st,
          rp_reachability = st_reachability st, rp_converged = converged\<rparr>)"

end
