(* ===== verification/Engine_Props.thy ===== *)
theory Engine_Props
  imports Engine Graph_Merge
begin

text \<open>
  What a run of the engine guarantees: its graph is built by absorbing and merging alone, it sweeps
  only the scope it was given and networks this machine observed, each once and within the budget, it
  finishes every continuous source exactly once, and when it reports convergence there is nothing left
  to sweep or to ask.
\<close>

section \<open>Networks seen here stay seen here\<close>

definition network_from :: "(provenance \<Rightarrow> bool) \<Rightarrow> topology_graph \<Rightarrow> ip_net \<Rightarrow> bool" where
  "network_from Q g p \<longleftrightarrow>
     (\<exists>r n. bm_get (g_nodes g) (node_id.Network p r) = Some n \<and> list_ex Q (nd_provenance n))"

abbreviation seen_network :: "topology_graph \<Rightarrow> ip_net \<Rightarrow> bool" where
  "seen_network \<equiv> network_from (\<lambda>pv. \<not> pv_is_remote pv)"

abbreviation peer_network :: "topology_graph \<Rightarrow> ip_net \<Rightarrow> bool" where
  "peer_network \<equiv> network_from pv_is_remote"

lemma set_local_networks:
  assumes "wf_graph g"
  shows "p \<in> set (local_networks net_str g) \<longleftrightarrow> seen_network g p"
proof -
  have here: "(case nd_id n of node_id.Network q _ \<Rightarrow> if locally_observed n then Some q else None | _ \<Rightarrow> None) =
      Some p \<longleftrightarrow> (\<exists>r. nd_id n = node_id.Network p r \<and> locally_observed n)" for n
    by (cases "nd_id n") auto
  have "p \<in> set (local_networks net_str g) \<longleftrightarrow>
      (\<exists>n \<in> set (graph_values g). \<exists>r. nd_id n = node_id.Network p r \<and> locally_observed n)"
    unfolding local_networks_def by (simp only: remdups_adj_set set_sort set_map_filter mem_Collect_eq here)
  also have "\<dots> \<longleftrightarrow> seen_network g p"
    unfolding network_from_def locally_observed_def using wf_get_value [OF assms] by blast
  finally show ?thesis .
qed

lemma set_networks:
  assumes "wf_graph g"
  shows "p \<in> set (networks g) \<longleftrightarrow> seen_network g p \<or> peer_network g p"
proof -
  have here: "(case nid of node_id.Network q _ \<Rightarrow> Some q | _ \<Rightarrow> None) = Some p \<longleftrightarrow> (\<exists>r. nid = node_id.Network p r)"
    for nid by (cases nid) auto
  have ok: "bm_ok (g_nodes g)" using assms by (simp add: wf_graph_def wf_nodes_def bm_all_def)
  have stated: "list_ex (\<lambda>pv. \<not> pv_is_remote pv) (nd_provenance n) \<or> list_ex pv_is_remote (nd_provenance n)"
    if "bm_get (g_nodes g) k = Some n" for k n
    using bm_all_set [of wf_node "g_nodes g" k n] assms that set_bm_get [OF ok, of k n]
    by (cases "nd_provenance n") (auto simp: wf_graph_def wf_nodes_def wf_node_def)
  have "p \<in> set (networks g) \<longleftrightarrow> (\<exists>k n. (k, n) \<in> set (g_nodes g) \<and> (\<exists>r. k = node_id.Network p r))"
    unfolding networks_def by (simp only: set_map_filter mem_Collect_eq here) force
  also have "\<dots> \<longleftrightarrow> (\<exists>r n. bm_get (g_nodes g) (node_id.Network p r) = Some n)"
    using set_bm_get [OF ok] by blast
  also have "\<dots> \<longleftrightarrow> seen_network g p \<or> peer_network g p"
    unfolding network_from_def using stated by blast
  finally show ?thesis .
qed

lemma network_from_absorb: "network_from Q g p \<Longrightarrow> network_from Q (absorb ev g) p"
  using grows_absorb [of ev g] unfolding network_from_def grows_def node_grows_def node_core_grows_def by fastforce

lemma get_fold_merge_network:
  assumes "\<forall>(f, t) \<in> set ms. is_device f \<and> is_device t"
  shows "bm_get (g_nodes (fst (fold merge_one ms st))) (node_id.Network p r) =
           bm_get (g_nodes (fst st)) (node_id.Network p r)"
  using assms
proof (induction ms arbitrary: st)
  case (Cons m ms)
  obtain f t g al where m: "m = (f, t)" and st: "st = (g, al)" by (cases m, cases st)
  have "f \<noteq> node_id.Network p r" "t \<noteq> node_id.Network p r" using Cons.prems m by auto
  then have "bm_get (g_nodes (fst (merge_one m st))) (node_id.Network p r) =
      bm_get (g_nodes (fst st)) (node_id.Network p r)"
    by (simp add: merge_one_def m st bm_entry_laws map_of_bm_remove split: option.split)
  with Cons show ?case by simp
qed simp

lemma pending_devices: "\<forall>(f, t) \<in> set (pending_merges g). is_device f \<and> is_device t"
  by (auto simp: set_pending_merges merge_target_def split: node_id.splits if_splits option.splits)

lemma get_merge_network:
  "bm_get (g_nodes (fst (merge_address_identities g))) (node_id.Network p r) =
     bm_get (g_nodes g) (node_id.Network p r)"
  unfolding merge_address_identities_def using get_fold_merge_network [OF pending_devices] by simp

lemma network_from_merge: "network_from Q (fst (merge_address_identities g)) p = network_from Q g p"
  by (simp add: network_from_def get_merge_network)

lemma network_from_finalize:
  assumes "wf_graph g"
  shows "network_from Q (finalize_roles g) p = network_from Q g p"
proof -
  let ?m = "fst (merge_address_identities g)"
  have wf: "wf_graph ?m" by (rule wf_merge_address_identities [OF assms])
  then have w: "wf_weights (g_role_weights ?m)" by (simp add: wf_graph_def)
  have n: "wf_nodes (g_nodes (assign_roles ?m))" using wf_assign_roles [OF wf] by (simp add: wf_graph_def)
  have obs: "nd_provenance (if nd_opaque_reason x = None then x else x\<lparr>nd_kind := k\<rparr>) = nd_provenance x"
    "nd_provenance (case s of None \<Rightarrow> x | Some y \<Rightarrow> x\<lparr>nd_kind := f y\<rparr>) = nd_provenance x" for x k s f
    by (auto split: option.split)
  have through: "(\<exists>n. map_option f x = Some n \<and> list_ex Q (nd_provenance n)) \<longleftrightarrow>
      (\<exists>n. x = Some n \<and> list_ex Q (nd_provenance n))"
    if "\<And>n. nd_provenance (f n) = nd_provenance n" for f and x :: "node option"
    using that by auto
  show ?thesis
    unfolding finalize_roles_def network_from_def get_mark_opaque [OF n] get_assign_roles [OF w] get_merge_network
    by (simp only: through obs)
qed

section \<open>The graph grows by absorbing and merging\<close>

definition advances :: "topology_graph \<Rightarrow> topology_graph \<Rightarrow> bool" where
  "advances g h \<longleftrightarrow> (\<exists>ops. h = run ops g)"

lemma advances_refl [simp]: "advances g g"
  unfolding advances_def by (metis run_Nil)

lemma advances_trans [trans]: "advances f g \<Longrightarrow> advances g h \<Longrightarrow> advances f h"
  unfolding advances_def run_def by (metis fold_append comp_apply)

lemma advances_absorb_all: "advances g (fold absorb evs g)"
proof -
  have "fold absorb evs g = run (map OpAbsorb evs) g" by (induction evs arbitrary: g) simp_all
  then show ?thesis unfolding advances_def by blast
qed

lemma advances_merge: "advances g (fst (merge_address_identities g))"
  unfolding advances_def by (metis apply_op.simps(2) run_Cons run_Nil)

lemma advances_finalize: "advances g (finalize_roles g)"
  unfolding advances_def by (metis apply_op.simps(3) run_Cons run_Nil)

lemma advances_wf: "advances g h \<Longrightarrow> wf_graph g \<Longrightarrow> wf_graph h"
  unfolding advances_def using run_wf by blast

lemma advances_seen:
  assumes "advances g h" and "wf_graph g" and "network_from Q g p"
  shows "network_from Q h p"
proof -
  obtain ops where "h = run ops g" using assms(1) by (auto simp: advances_def)
  moreover have "wf_graph (run ops g) \<and> network_from Q (run ops g) p" for ops
    using assms(2,3)
  proof (induction ops arbitrary: g)
    case (Cons op ops)
    have "network_from Q (apply_op op g) p"
      using Cons.prems by (cases op) (simp_all add: network_from_absorb network_from_merge network_from_finalize)
    with Cons apply_op_wf show ?case by simp
  qed simp
  ultimately show ?thesis by blast
qed

section \<open>What the steps of a pass leave alone\<close>

text \<open>
  \<open>ledger\<close> is what decides which scopes are swept: the processed scopes, their runs, the queue and
  whether the sources are finished. Most steps leave it alone and only advance the graph.
\<close>

definition ledger :: "'w engine_state \<Rightarrow> ip_net list \<times> scope_run list \<times> ip_net list \<times> bool" where
  "ledger st = (st_processed st, st_scope_runs st, st_queue st, st_finished st)"

definition keeps :: "'w engine_state \<Rightarrow> 'w engine_state \<Rightarrow> bool" where
  "keeps st st' \<longleftrightarrow> ledger st' = ledger st \<and> advances (st_graph st) (st_graph st')"

lemma keeps_refl [simp]: "keeps st st"
  by (simp add: keeps_def)

lemma keeps_trans [trans]: "keeps a b \<Longrightarrow> keeps b c \<Longrightarrow> keeps a c"
  unfolding keeps_def using advances_trans by auto

lemma keeps_fold: "(\<And>x st. keeps st (f x st)) \<Longrightarrow> keeps st (fold f xs st)"
proof (induction xs arbitrary: st)
  case (Cons x xs)
  then show ?case using keeps_trans by fastforce
qed simp

lemma keeps_absorb_all:
  "ledger st' = ledger st \<Longrightarrow> st_graph st' = st_graph st \<Longrightarrow> keeps st (absorb_all evs st')"
  by (simp add: keeps_def ledger_def absorb_all_def advances_absorb_all)

lemma keeps_drain: "keeps st (drain_sources eng st)"
  unfolding drain_sources_def
  by (rule keeps_fold) (simp add: drain_source_def keeps_absorb_all ledger_def split: prod.split)

lemma keeps_finish: "keeps (st\<lparr>st_finished := True\<rparr>) (finish_sources eng st)"
  unfolding finish_sources_def
  by (rule keeps_fold) (simp add: finish_source_def keeps_absorb_all ledger_def split: prod.split)

lemma keeps_merge: "keeps st (merge_identities st)"
  by (simp add: merge_identities_def keeps_def ledger_def Let_def advances_merge split: prod.split)
    (metis advances_merge fst_conv)

lemma keeps_enrich: "keeps st (enrich_pass eng tw ctx st)"
proof -
  have "keeps (merge_identities st) (enrich_pass eng tw ctx st)"
    by (simp add: enrich_pass_def Let_def keeps_def ledger_def absorb_all_def advances_absorb_all
        split: prod.split)
  then show ?thesis using keeps_merge keeps_trans by blast
qed

lemma keeps_provider: "keeps (snd acc) (snd (run_provider silence ctx provider acc))"
  by (cases acc) (simp add: run_provider_def Let_def keeps_absorb_all ledger_def split: prod.split)

lemma keeps_provider_fold: "keeps (snd acc) (snd (fold (run_provider silence ctx) providers acc))"
proof (induction providers arbitrary: acc)
  case (Cons provider providers)
  then show ?case using keeps_provider keeps_trans by (metis fold_simps(2))
qed simp

lemma run_providers_ledger:
  "st_processed (run_providers silence ctx scope ps st) = st_processed st"
  "map sr_scope (st_scope_runs (run_providers silence ctx scope ps st)) =
     map sr_scope (st_scope_runs st) @ [scope]"
  "st_queue (run_providers silence ctx scope ps st) = st_queue st"
  "st_finished (run_providers silence ctx scope ps st) = st_finished st"
  "advances (st_graph st) (st_graph (run_providers silence ctx scope ps st))"
  using keeps_provider_fold [of "([], st)" silence ctx ps]
  by (simp_all add: run_providers_def keeps_def ledger_def split: prod.split) auto

lemma process_scope_ledger:
  "st_processed (process_scope eng ctx scope st) = push_new scope (st_processed st)"
  "map sr_scope (st_scope_runs (process_scope eng ctx scope st)) =
     map sr_scope (st_scope_runs st) @ [Some scope]"
  "st_queue (process_scope eng ctx scope st) = st_queue st"
  "st_finished (process_scope eng ctx scope st) = st_finished st"
  by (simp_all add: process_scope_def Let_def run_providers_ledger)

lemma advances_process_scope: "advances (st_graph st) (st_graph (process_scope eng ctx scope st))"
proof -
  obtain st2 where "process_scope eng ctx scope st =
      run_providers ''no response'' (for_scope ctx scope) (Some scope) (eg_scope_providers eng) st2"
    and "st_graph st2 = st_graph st"
    unfolding process_scope_def Let_def by (atomize_elim, rule exI, rule conjI, rule refl) simp
  then show ?thesis using run_providers_ledger(5) by metis
qed

section \<open>Which scopes are swept\<close>

text \<open>
  The scopes that were swept, in order, are the processed ones: the initial scope or networks seen
  here, each once, no more than the budget allows.
\<close>

definition scopes_ok :: "'w discovery_engine \<Rightarrow> ip_net option \<Rightarrow> 'w engine_state \<Rightarrow> bool" where
  "scopes_ok eng initial st \<longleftrightarrow>
     wf_graph (st_graph st) \<and> distinct (st_processed st) \<and>
     map sr_scope (st_scope_runs st) = None # map Some (st_processed st) \<and>
     length (st_processed st) \<le> max_scopes (eg_budget eng) \<and>
     (\<forall>p \<in> set (st_processed st). initial = Some p \<or> seen_network (st_graph st) p) \<and>
     (\<forall>p \<in> set (st_queue st). initial = Some p)"

lemma scopes_ok_keeps:
  assumes "scopes_ok eng initial st" and "keeps st st'"
  shows "scopes_ok eng initial st'"
  using assms advances_wf advances_seen unfolding scopes_ok_def keeps_def ledger_def by fastforce

lemma scopes_ok_irrelevant [simp]:
  "scopes_ok eng initial (st\<lparr>st_finished := b\<rparr>) = scopes_ok eng initial st"
  "scopes_ok eng initial st \<Longrightarrow> scopes_ok eng initial (st\<lparr>st_queue := []\<rparr>)"
  by (simp_all add: scopes_ok_def)

lemma fold_push_pending:
  "set (fold (\<lambda>net queue. if net \<notin> done \<and> net \<notin> set queue then queue @ [net] else queue) nets queue)
     = set queue \<union> (set nets - done)"
  by (induction nets arbitrary: queue) auto

lemma set_pending:
  "set (take_pending net_str st) =
     (set (st_queue st) \<union> set (local_networks net_str (st_graph st))) - set (st_processed st)"
  by (auto simp: take_pending_def fold_push_pending)

lemma distinct_pending:
  assumes "distinct (st_queue st)"
  shows "distinct (take_pending net_str st)"
proof -
  have "distinct (fold (\<lambda>net queue. if net \<notin> done \<and> net \<notin> set queue then queue @ [net] else queue) nets queue)"
    if "distinct queue" for "done" :: "ip_net set" and nets queue
    using that by (induction nets arbitrary: queue) auto
  with assms show ?thesis by (simp add: take_pending_def)
qed

lemma scopes_ok_process:
  assumes "scopes_ok eng initial st" and "scope \<notin> set (st_processed st)"
    and "length (st_processed st) < max_scopes (eg_budget eng)"
    and "initial = Some scope \<or> seen_network (st_graph st) scope"
  shows "scopes_ok eng initial (process_scope eng ctx scope st)"
proof -
  note adv = advances_process_scope [of st eng ctx scope]
  have wf: "wf_graph (st_graph st)" using assms(1) by (simp add: scopes_ok_def)
  show ?thesis
    using assms advances_wf [OF adv wf] advances_seen [OF adv wf]
    unfolding scopes_ok_def process_scope_ledger push_new_def by auto
qed

lemma scopes_ok_process_all:
  assumes "scopes_ok eng initial st" and "distinct scopes" and "set scopes \<inter> set (st_processed st) = {}"
    and "\<forall>p \<in> set scopes. initial = Some p \<or> seen_network (st_graph st) p"
  shows "scopes_ok eng initial (process_scopes eng ctx scopes st)"
  using assms
proof (induction scopes arbitrary: st)
  case (Cons scope rest)
  show ?case
  proof (cases "max_scopes (eg_budget eng) \<le> length (st_processed st)")
    case False
    let ?st = "process_scope eng ctx scope st"
    have wf: "wf_graph (st_graph st)" using Cons.prems(1) by (simp add: scopes_ok_def)
    have "scopes_ok eng initial ?st"
      by (rule scopes_ok_process [OF Cons.prems(1)]) (use Cons.prems False in auto)
    moreover have "set rest \<inter> set (st_processed ?st) = {}"
      using Cons.prems by (auto simp: process_scope_ledger push_new_def)
    moreover have "\<forall>p \<in> set rest. initial = Some p \<or> seen_network (st_graph ?st) p"
      using Cons.prems(4) advances_seen [OF advances_process_scope wf] by auto
    ultimately show ?thesis using Cons False by simp
  qed (use Cons.prems in simp)
qed simp

text \<open>A pass and the loop keep the invariant; the queue starts with the initial scope and stays empty.\<close>

lemma finish_keeps: "scopes_ok eng initial st \<Longrightarrow> scopes_ok eng initial (finish_sources eng st)"
  using scopes_ok_keeps [OF _ keeps_finish] by fastforce

lemma scopes_ok_pass:
  assumes "scopes_ok eng initial st" and "distinct (st_queue st)"
  shows "scopes_ok eng initial (fst (engine_pass eng tw net_str ctx st)) \<and>
     distinct (st_queue (fst (engine_pass eng tw net_str ctx st)))"
proof -
  define st1 where "st1 = drain_sources eng st"
  define st2 where "st2 = merge_identities (st1\<lparr>st_queue := []\<rparr>)"
  define st3 where "st3 = enrich_pass eng tw ctx st2"
  have keep1: "keeps st st1" unfolding st1_def by (rule keeps_drain)
  have keep2: "keeps (st1\<lparr>st_queue := []\<rparr>) st2" unfolding st2_def by (rule keeps_merge)
  have keep3: "keeps st2 st3" unfolding st3_def by (rule keeps_enrich)
  have ok1: "scopes_ok eng initial st1" by (rule scopes_ok_keeps [OF assms(1) keep1])
  have ok2: "scopes_ok eng initial st2" by (rule scopes_ok_keeps [OF scopes_ok_irrelevant(2) [OF ok1] keep2])
  have ok3: "scopes_ok eng initial st3" by (rule scopes_ok_keeps [OF ok2 keep3])
  have queue: "st_queue st2 = []" "st_queue st3 = []" "st_processed st3 = st_processed st1"
    "st_queue st1 = st_queue st"
    using keep1 keep2 keep3 by (simp_all add: keeps_def ledger_def)
  have adv: "advances (st_graph st1) (st_graph st3)"
    using keep2 keep3 by (auto simp: keeps_def intro: advances_trans)
  have wf1: "wf_graph (st_graph st1)" using ok1 by (simp add: scopes_ok_def)
  let ?pending = "take_pending net_str st1"
  have seen: "\<forall>p \<in> set ?pending. initial = Some p \<or> seen_network (st_graph st3) p"
    using ok1 advances_seen [OF adv wf1]
    by (auto simp: set_pending set_local_networks [OF wf1] scopes_ok_def)
  have "scopes_ok eng initial (process_scopes eng ctx ?pending st3)"
    by (rule scopes_ok_process_all [OF ok3 _ _ seen])
      (use assms(2) queue in \<open>simp_all add: distinct_pending set_pending inf_commute\<close>)
  moreover have "st_queue (process_scopes eng ctx scopes s) = st_queue s" for scopes s
    by (induction scopes arbitrary: s) (simp_all add: process_scope_ledger)
  moreover have "scopes_ok eng initial (fst (final_drain eng ctx st2)) \<and>
      st_queue (fst (final_drain eng ctx st2)) = []"
    using ok2 finish_keeps [OF ok2] keeps_finish [of st2 eng] queue(1)
    by (simp add: final_drain_def Let_def keeps_def ledger_def)
  ultimately show ?thesis
    using queue(2) unfolding engine_pass_def Let_def st1_def [symmetric] st2_def [symmetric] st3_def [symmetric]
    by simp
qed

lemma scopes_ok_loop:
  assumes "scopes_ok eng initial st" and "distinct (st_queue st)"
  shows "scopes_ok eng initial (fst (engine_loop n eng tw net_str ctx st))"
  using assms
proof (induction n arbitrary: st)
  case (Suc n)
  obtain st' c where pass: "engine_pass eng tw net_str ctx st = (st', c)" by fastforce
  from scopes_ok_pass [OF Suc.prems, of tw net_str ctx] Suc.IH [of st']
  show ?case by (simp add: pass)
qed simp

lemma scopes_ok_start: "scopes_ok eng initial (engine_start eng ctx initial w)"
proof -
  have "wf_graph (st_graph (run_providers silence ctx None ps s))" if "st_graph s = graph_new"
    for silence ps and s :: "'a engine_state"
    using advances_wf [OF run_providers_ledger(5)] that wf_graph_new by metis
  then show ?thesis
    by (auto simp: scopes_ok_def engine_start_def run_providers_ledger split: option.split)
qed

lemma engine_final_scopes:
  "scopes_ok eng initial (fst (engine_final eng tw net_str ctx initial w))"
proof -
  let ?start = "engine_start eng ctx initial w"
  let ?st = "fst (engine_loop (max_iterations (eg_budget eng)) eng tw net_str ctx ?start)"
  have "distinct (st_queue ?start)"
    by (simp add: engine_start_def run_providers_ledger split: option.split)
  then have ok: "scopes_ok eng initial ?st" by (rule scopes_ok_loop [OF scopes_ok_start])
  define st1 where "st1 = (if st_finished ?st then ?st else finish_sources eng ?st)"
  have ok1: "scopes_ok eng initial st1" using ok finish_keeps [OF ok] by (simp add: st1_def)
  then have "scopes_ok eng initial (st1\<lparr>st_graph := finalize_roles (st_graph st1)\<rparr>)"
    using scopes_ok_keeps [OF ok1] by (simp add: keeps_def ledger_def advances_finalize)
  moreover have "fst (engine_final eng tw net_str ctx initial w) = st1\<lparr>st_graph := finalize_roles (st_graph st1)\<rparr>"
    by (simp add: engine_final_def engine_finish_def st1_def Let_def split: prod.split)
  ultimately show ?thesis by simp
qed

text \<open>
  C10: the engine sweeps only what it may, each scope once and within its budget. Whatever the
  providers, the sources and the devices answer, the first run of a report is the local seed; the
  others are scopes without repetition, at most as many as the budget allows, and each is the scope the
  operator chose or a network that this machine observed itself, never one that only a peer reported.
  The graph of the report is well formed.
\<close>
theorem engine_sweeps_what_it_may:
  "\<exists>scopes. map sr_scope (rp_scope_runs (engine_run eng tw net_str ctx initial w)) = None # map Some scopes \<and>
     distinct scopes \<and> length scopes \<le> max_scopes (eg_budget eng) \<and>
     set scopes \<subseteq> set_option initial \<union>
       set (local_networks net_str (rp_graph (engine_run eng tw net_str ctx initial w))) \<and>
     wf_graph (rp_graph (engine_run eng tw net_str ctx initial w))"
proof -
  obtain st c where final: "engine_final eng tw net_str ctx initial w = (st, c)" by fastforce
  have ok: "scopes_ok eng initial st" using engine_final_scopes [of eng initial tw net_str ctx w] by (simp add: final)
  have report: "rp_scope_runs (engine_run eng tw net_str ctx initial w) = st_scope_runs st"
    "rp_graph (engine_run eng tw net_str ctx initial w) = st_graph st"
    by (simp_all add: engine_run_def final)
  have wf: "wf_graph (st_graph st)" using ok by (simp add: scopes_ok_def)
  have "set (st_processed st) \<subseteq> set_option initial \<union> set (local_networks net_str (st_graph st))"
    using ok set_local_networks [OF wf, of _ net_str] by (auto simp: scopes_ok_def)
  then show ?thesis unfolding report using ok wf by (auto simp: scopes_ok_def)
qed

section \<open>What convergence means\<close>

text \<open>A pass that ends the run leaves nothing to ask, and nothing to sweep but what a peer also named.\<close>

lemma converged_pass:
  assumes "scopes_ok eng initial st" and "engine_pass eng tw net_str ctx st = (st', True)"
  shows "outstanding ctx st' = [] \<and> st_finished st' \<and>
     (\<forall>p. seen_network (st_graph st') p \<longrightarrow> p \<in> set (st_processed st') \<or> peer_network (st_graph st') p)"
proof -
  define st1 where "st1 = drain_sources eng st"
  define st2 where "st2 = merge_identities (st1\<lparr>st_queue := []\<rparr>)"
  have keep1: "keeps st st1" unfolding st1_def by (rule keeps_drain)
  have keep2: "keeps (st1\<lparr>st_queue := []\<rparr>) st2" unfolding st2_def by (rule keeps_merge)
  have ok1: "scopes_ok eng initial st1" by (rule scopes_ok_keeps [OF assms(1) keep1])
  have ok2: "scopes_ok eng initial st2" by (rule scopes_ok_keeps [OF scopes_ok_irrelevant(2) [OF ok1] keep2])
  have wf1: "wf_graph (st_graph st1)" using ok1 by (simp add: scopes_ok_def)
  have wf2: "wf_graph (st_graph st2)" using ok2 by (simp add: scopes_ok_def)
  have idle: "take_pending net_str st1 = []" "outstanding ctx st2 = []"
    and final: "final_drain eng ctx st2 = (st', True)"
    using assms(2) unfolding engine_pass_def Let_def st1_def [symmetric] st2_def [symmetric]
    by (auto split: if_splits)
  have seen: "seen_network (st_graph st2) p = seen_network (st_graph st1) p" for p
    by (simp add: st2_def merge_identities_def Let_def case_prod_unfold network_from_merge)
  have processed: "st_processed st2 = st_processed st1" "st_queue st1 = st_queue st"
    using keep1 keep2 by (simp_all add: keeps_def ledger_def)
  have swept: "p \<in> set (st_processed st2)" if "seen_network (st_graph st2) p" for p
    using that seen processed idle(1) set_pending [of net_str st1] set_local_networks [OF wf1, of p net_str] by auto
  show ?thesis
  proof (cases "st_finished st2")
    case True
    then show ?thesis using final idle(2) swept by (auto simp: final_drain_def)
  next
    case False
    have st': "st' = finish_sources eng st2" and same: "\<not> gained_network (st_graph st2) (st_graph st')"
      and asked: "outstanding ctx st' = []"
      using final False by (simp_all add: final_drain_def Let_def) blast+
    have keep: "keeps (st2\<lparr>st_finished := True\<rparr>) st'" unfolding st' by (rule keeps_finish)
    then have adv: "advances (st_graph st2) (st_graph st')" and
      led: "st_processed st' = st_processed st2" "st_finished st'" by (simp_all add: keeps_def ledger_def)
    have wf': "wf_graph (st_graph st')" by (rule advances_wf [OF adv wf2])
    have "p \<in> set (st_processed st') \<or> peer_network (st_graph st') p" if "seen_network (st_graph st') p" for p
    proof -
      have "p \<in> set (networks (st_graph st2))"
        using same that set_networks [OF wf', of p] by (auto simp: gained_network_def list_ex_iff)
      then show ?thesis
        using set_networks [OF wf2, of p] swept advances_seen [OF adv wf2, of pv_is_remote p] led by auto
    qed
    then show ?thesis using asked led by simp
  qed
qed

lemma converged_loop:
  assumes "scopes_ok eng initial st" and "distinct (st_queue st)"
    and "engine_loop n eng tw net_str ctx st = (st', True)"
  shows "outstanding ctx st' = [] \<and> st_finished st' \<and>
     (\<forall>p. seen_network (st_graph st') p \<longrightarrow> p \<in> set (st_processed st') \<or> peer_network (st_graph st') p)"
  using assms
proof (induction n arbitrary: st)
  case (Suc n)
  obtain s c where pass: "engine_pass eng tw net_str ctx st = (s, c)" by fastforce
  show ?case
  proof (cases c)
    case True
    with Suc.prems pass show ?thesis using converged_pass [OF Suc.prems(1), of tw net_str ctx s] by simp
  next
    case False
    with Suc.prems pass have "engine_loop n eng tw net_str ctx s = (st', True)" by simp
    with Suc.IH [of s] scopes_ok_pass [OF Suc.prems(1,2), of tw net_str ctx] pass show ?thesis by simp
  qed
qed simp

text \<open>
  C9: when a run reports that it converged, it is complete. Every network that this machine observed
  itself has been swept, except one that a peer had named too; every continuous source was finished;
  and no device of the topology that could be interrogated was left unasked: the queue the engine makes
  of the graph at the end of its loop is empty.
\<close>
theorem converged_run_is_complete:
  assumes "rp_converged (engine_run eng tw net_str ctx initial w)"
  shows "set (local_networks net_str (rp_graph (engine_run eng tw net_str ctx initial w))) \<subseteq>
       {p. Some p \<in> sr_scope ` set (rp_scope_runs (engine_run eng tw net_str ctx initial w))} \<union>
       {p. peer_network (rp_graph (engine_run eng tw net_str ctx initial w)) p} \<and>
     (\<exists>st. engine_loop (max_iterations (eg_budget eng)) eng tw net_str ctx (engine_start eng ctx initial w) = (st, True) \<and>
        st_finished st \<and> outstanding ctx st = [] \<and>
        rp_graph (engine_run eng tw net_str ctx initial w) = finalize_roles (st_graph st))"
proof -
  let ?start = "engine_start eng ctx initial w" and ?R = "engine_run eng tw net_str ctx initial w"
  obtain st where loop: "engine_loop (max_iterations (eg_budget eng)) eng tw net_str ctx ?start = (st, True)"
    using assms by (auto simp: engine_run_def engine_final_def Let_def split: prod.splits)
  have start: "distinct (st_queue ?start)"
    by (simp add: engine_start_def run_providers_ledger split: option.split)
  note ended = converged_loop [OF scopes_ok_start start loop]
  have ok: "scopes_ok eng initial st"
    using scopes_ok_loop [OF scopes_ok_start start, of _ tw net_str ctx] loop by (metis fst_conv)
  have report: "rp_graph ?R = finalize_roles (st_graph st)" "rp_scope_runs ?R = st_scope_runs st"
    using ended by (simp_all add: engine_run_def engine_final_def engine_finish_def loop Let_def)
  have wf: "wf_graph (st_graph st)" using ok by (simp add: scopes_ok_def)
  have wf': "wf_graph (rp_graph ?R)" unfolding report by (rule advances_wf [OF advances_finalize wf])
  have "Some p \<in> sr_scope ` set (st_scope_runs st)" if "p \<in> set (st_processed st)" for p
  proof -
    have "Some p \<in> set (map sr_scope (st_scope_runs st))" using that ok by (simp add: scopes_ok_def)
    then show ?thesis by simp
  qed
  then have "set (local_networks net_str (rp_graph ?R)) \<subseteq>
      {p. Some p \<in> sr_scope ` set (rp_scope_runs ?R)} \<union> {p. peer_network (rp_graph ?R) p}"
    using ended set_local_networks [OF wf', of _ net_str]
    unfolding report(2) by (auto simp: report(1) network_from_finalize [OF wf])
  then show ?thesis using loop ended report(1) by blast
qed

section \<open>Every source is finished once\<close>

text \<open>
  The sources are observed through a measure of the world that finishing a source raises by a weight
  of that source and that nothing else changes.
\<close>

locale counted_world =
  fixes count :: "'w \<Rightarrow> nat" and weight_of :: "'w continuous_source \<Rightarrow> nat" and eng :: "'w discovery_engine" and tw :: "'w task_world"
  assumes drain_counts: "s \<in> set (eg_continuous eng) \<Longrightarrow> count (snd (cs_drain s v)) = count v"
    and finish_counts: "s \<in> set (eg_continuous eng) \<Longrightarrow> count (snd (cs_finish s v)) = count v + weight_of s"
    and discover_counts: "p \<in> set (eg_seed_providers eng) \<union> set (eg_scope_providers eng) \<Longrightarrow>
        count (snd (dp_discover p ctx v)) = count v"
    and task_counts: "count (tw_after tw t v) = count v"
begin

abbreviation finishes :: "'w engine_state \<Rightarrow> nat" where
  "finishes st \<equiv> count (st_world st)"

lemma absorb_all_count [simp]: "finishes (absorb_all evs st) = finishes st"
  by (simp add: absorb_all_def)

lemma drain_count: "finishes (drain_sources eng st) = finishes st"
proof -
  have "finishes (fold drain_source ss st) = finishes st" if "set ss \<subseteq> set (eg_continuous eng)" for ss
    using that
  proof (induction ss arbitrary: st)
    case (Cons s ss)
    then show ?case using drain_counts [of s "st_world st"] by (simp add: drain_source_def Let_def case_prod_unfold)
  qed simp
  then show ?thesis by (simp add: drain_sources_def)
qed

lemma finish_count: "finishes (finish_sources eng st) = finishes st + sum_list (map weight_of (eg_continuous eng))"
proof -
  have "finishes (fold finish_source ss st) = finishes st + sum_list (map weight_of ss)" if "set ss \<subseteq> set (eg_continuous eng)"
    for ss and st :: "'w engine_state"
    using that
  proof (induction ss arbitrary: st)
    case (Cons s ss)
    then show ?case using finish_counts [of s "st_world st"] by (simp add: finish_source_def Let_def case_prod_unfold)
  qed simp
  then show ?thesis by (simp add: finish_sources_def)
qed

lemma providers_count:
  assumes "set ps \<subseteq> set (eg_seed_providers eng) \<union> set (eg_scope_providers eng)"
  shows "finishes (run_providers silence ctx scope ps st) = finishes st"
proof -
  have "finishes (snd (fold (run_provider silence ctx) ps acc)) = finishes (snd acc)" for acc
    using assms
  proof (induction ps arbitrary: acc)
    case (Cons p ps)
    have "finishes (snd (run_provider silence ctx p acc)) = finishes (snd acc)"
      using Cons.prems discover_counts [of p ctx "st_world (snd acc)"]
      by (cases acc) (simp add: run_provider_def Let_def case_prod_unfold)
    with Cons show ?case by simp
  qed simp
  from this [of "([], st)"] show ?thesis by (simp add: run_providers_def Let_def case_prod_unfold)
qed

lemma task_count: "count (snd (device_task tw ctx (eg_scope_providers eng) t v)) = count v"
proof -
  have "count (snd (fold (target_provider c) ps acc)) = count (snd acc)"
    if "set ps \<subseteq> set (eg_scope_providers eng)" for c ps and acc :: "device_result \<times> 'w"
    using that
  proof (induction ps arbitrary: acc)
    case (Cons p ps)
    have "count (snd (target_provider c p acc)) = count (snd acc)"
      using Cons.prems discover_counts [of p c "snd acc"]
      by (cases acc) (simp add: target_provider_def Let_def case_prod_unfold)
    with Cons show ?case by simp
  qed simp
  then show ?thesis by (simp add: device_task_def Let_def task_counts case_prod_unfold)
qed

lemma enrich_devices_count:
  "count (snd (enrich_devices tw ctx (eg_scope_providers eng) tasks v)) = count v"
proof -
  have "count (snd (fold (join_task tw ctx (eg_scope_providers eng)) ts acc)) = count (snd acc)" for ts acc
  proof (induction ts arbitrary: acc)
    case (Cons t ts)
    have "count (snd (join_task tw ctx (eg_scope_providers eng) t acc)) = count (snd acc)"
      using task_count [of ctx t "snd acc"] by (cases acc) (simp add: join_task_def Let_def case_prod_unfold)
    with Cons show ?case by simp
  qed simp
  from this [of _ "([], v)"] show ?thesis by (simp add: enrich_devices_def Let_def case_prod_unfold)
qed

lemma merge_count [simp]: "finishes (merge_identities st) = finishes st"
  by (simp add: merge_identities_def Let_def case_prod_unfold)

lemma enrich_count: "finishes (enrich_pass eng tw ctx st) = finishes st"
  using enrich_devices_count [of ctx "outstanding ctx (merge_identities st)" "st_world (merge_identities st)"]
  by (simp add: enrich_pass_def Let_def case_prod_unfold)

lemma process_count: "finishes (process_scopes eng ctx scopes st) = finishes st"
  by (induction scopes arbitrary: st) (simp_all add: process_scope_def Let_def providers_count)


definition count_ok :: "nat \<Rightarrow> 'w engine_state \<Rightarrow> bool" where
  "count_ok before st \<longleftrightarrow>
     finishes st = before + (if st_finished st then sum_list (map weight_of (eg_continuous eng)) else 0)"

lemma finish_finished: "st_finished (finish_sources eng st)"
  using keeps_finish [of st eng] by (simp add: keeps_def ledger_def)

lemma process_finished: "st_finished (process_scopes eng ctx scopes st) = st_finished st"
  by (induction scopes arbitrary: st) (simp_all add: process_scope_ledger)

lemma pass_count:
  assumes "count_ok before st"
  shows "count_ok before (fst (engine_pass eng tw net_str ctx st))"
proof -
  define st2 where "st2 = merge_identities ((drain_sources eng st)\<lparr>st_queue := []\<rparr>)"
  have "st_finished st2 = st_finished st"
    using keeps_drain [of st eng] keeps_merge [of "(drain_sources eng st)\<lparr>st_queue := []\<rparr>"]
    by (simp add: st2_def keeps_def ledger_def)
  then have two: "count_ok before st2" using assms by (simp add: count_ok_def st2_def drain_count)
  have "count_ok before (fst (final_drain eng ctx st2))"
    using two by (auto simp: final_drain_def Let_def count_ok_def finish_count finish_finished)
  moreover have "count_ok before (process_scopes eng ctx scopes (enrich_pass eng tw ctx st2))" for scopes
    using two keeps_enrich [of st2 eng tw ctx]
    by (simp add: count_ok_def process_count process_finished enrich_count keeps_def ledger_def)
  ultimately show ?thesis by (simp add: engine_pass_def Let_def st2_def [symmetric])
qed

lemma loop_count:
  "count_ok before st \<Longrightarrow> count_ok before (fst (engine_loop n eng tw net_str ctx st))"
proof (induction n arbitrary: st)
  case (Suc n)
  from pass_count [OF Suc.prems] Suc.IH show ?case by (simp add: Let_def case_prod_unfold)
qed simp

lemma final_count:
  "finishes (fst (engine_final eng tw net_str ctx initial v)) =
     count v + sum_list (map weight_of (eg_continuous eng))"
proof -
  let ?start = "engine_start eng ctx initial v"
  let ?st = "fst (engine_loop (max_iterations (eg_budget eng)) eng tw net_str ctx ?start)"
  have "count_ok (count v) ?start"
    by (simp add: engine_start_def count_ok_def providers_count run_providers_ledger)
  then have "count_ok (count v) ?st" by (rule loop_count)
  then show ?thesis
    by (simp add: engine_final_def engine_finish_def Let_def case_prod_unfold count_ok_def finish_count)
qed

end

text \<open>Any engine, instrumented with a counter that its sources raise when they are finished.\<close>

definition instrument_provider :: "'w discovery_provider \<Rightarrow> ('w \<times> nat) discovery_provider" where
  "instrument_provider p =
     \<lparr>dp_name = dp_name p, dp_applies = dp_applies p,
      dp_discover = (\<lambda>ctx (v, n). let (out, v') = dp_discover p ctx v in (out, (v', n)))\<rparr>"

definition instrument_source :: "'w continuous_source \<Rightarrow> ('w \<times> nat) continuous_source" where
  "instrument_source s =
     \<lparr>cs_drain = (\<lambda>(v, n). let (evs, v') = cs_drain s v in (evs, (v', n))),
      cs_finish = (\<lambda>(v, n). let (evs, v') = cs_finish s v in (evs, (v', Suc n)))\<rparr>"

definition instrument :: "'w discovery_engine \<Rightarrow> ('w \<times> nat) discovery_engine" where
  "instrument eng =
     \<lparr>eg_seed_providers = map instrument_provider (eg_seed_providers eng),
      eg_scope_providers = map instrument_provider (eg_scope_providers eng),
      eg_continuous = map instrument_source (eg_continuous eng), eg_budget = eg_budget eng\<rparr>"

definition instrument_tasks :: "'w task_world \<Rightarrow> ('w \<times> nat) task_world" where
  "instrument_tasks tw =
     \<lparr>tw_probes = (\<lambda>t v. tw_probes tw t (fst v)), tw_after = (\<lambda>t (v, n). (tw_after tw t v, n)),
      tw_panics = (\<lambda>t v. tw_panics tw t (fst v)), tw_clock = (\<lambda>v. tw_clock tw (fst v)),
      tw_completion = (\<lambda>ts v. tw_completion tw ts (fst v)), tw_pass_time = (\<lambda>v. tw_pass_time tw (fst v))\<rparr>"

interpretation counting: counted_world snd "\<lambda>_. 1" "instrument eng" "instrument_tasks tw" for eng tw
  by unfold_locales
    (auto simp: instrument_def instrument_provider_def instrument_source_def instrument_tasks_def
      Let_def case_prod_unfold)

text \<open>
  C11: every continuous source is finished exactly once. Let a measure of the world be such that
  draining a source, asking a provider and probing a device leave it alone, and that finishing a source
  raises it by a weight of that source. Whatever the weights, at the end of a run the measure has risen
  by the weight of every source, counted once, whether the run converged or stopped at its last
  iteration. So no capture outlives the run and none is stopped twice.
\<close>
theorem sources_finish_once:
  fixes measured :: "'w \<Rightarrow> nat"
  assumes "\<And>s v. s \<in> set (eg_continuous eng) \<Longrightarrow> measured (snd (cs_drain s v)) = measured v"
    and "\<And>s v. s \<in> set (eg_continuous eng) \<Longrightarrow> measured (snd (cs_finish s v)) = measured v + weight_of s"
    and "\<And>p c v. p \<in> set (eg_seed_providers eng) \<union> set (eg_scope_providers eng) \<Longrightarrow>
        measured (snd (dp_discover p c v)) = measured v"
    and "\<And>t v. measured (tw_after tw t v) = measured v"
  shows "measured (st_world (fst (engine_final eng tw net_str ctx initial w))) =
     measured w + sum_list (map weight_of (eg_continuous eng))"
proof -
  have "counted_world measured weight_of eng tw" by (rule counted_world.intro) (use assms in blast)+
  then show ?thesis by (rule counted_world.final_count [of measured weight_of eng tw])
qed

text \<open>A world of two sources that count how often each was finished, and tasks that do nothing.\<close>

definition quiet_tasks :: "'w task_world" where
  "quiet_tasks =
     \<lparr>tw_probes = (\<lambda>_ _. quiet_world), tw_after = (\<lambda>_ v. v), tw_panics = (\<lambda>_ _. False),
      tw_clock = (\<lambda>_ _. 0), tw_completion = (\<lambda>ts _. ts), tw_pass_time = (\<lambda>_. 0)\<rparr>"

definition first_source :: "(nat \<times> nat) continuous_source" where
  "first_source = \<lparr>cs_drain = (\<lambda>v. ([], v)), cs_finish = (\<lambda>(m, n). ([], (Suc m, n)))\<rparr>"

definition second_source :: "(nat \<times> nat) continuous_source" where
  "second_source = \<lparr>cs_drain = (\<lambda>v. ([], v)), cs_finish = (\<lambda>(m, n). ([], (m, Suc n)))\<rparr>"

definition two_sources :: "(nat \<times> nat) discovery_engine" where
  "two_sources =
     with_continuous_source (with_continuous_source (engine_new [] []) first_source) second_source"

theorem sources_finish_once_witness:
  "st_world (fst (engine_final two_sources quiet_tasks (\<lambda>_. []) a_context None (0, 0))) = (1, 1)"
proof -
  have engine: "eg_continuous two_sources = [first_source, second_source]"
    "eg_seed_providers two_sources = []" "eg_scope_providers two_sources = []"
    by (simp_all add: two_sources_def with_continuous_source_def engine_new_def)
  let ?v = "st_world (fst (engine_final two_sources quiet_tasks (\<lambda>_. []) a_context None (0, 0)))"
  have "cs_finish first_source (0, 0) \<noteq> cs_finish second_source (0, 0)"
    by (simp add: first_source_def second_source_def)
  then have "first_source \<noteq> second_source" by auto
  have "fst ?v = fst (0, 0 :: nat) + sum_list (map (\<lambda>s. if s = first_source then 1 else 0) (eg_continuous two_sources))"
    by (rule sources_finish_once)
      (use \<open>first_source \<noteq> second_source\<close> in
        \<open>auto simp: engine quiet_tasks_def first_source_def second_source_def\<close>)
  moreover have "snd ?v = snd (0 :: nat, 0) + sum_list (map (\<lambda>s. if s = second_source then 1 else 0) (eg_continuous two_sources))"
    by (rule sources_finish_once)
      (use \<open>first_source \<noteq> second_source\<close> in
        \<open>auto simp: engine quiet_tasks_def first_source_def second_source_def\<close>)
  ultimately show ?thesis
    using \<open>first_source \<noteq> second_source\<close> by (simp add: engine prod_eq_iff)
qed

text \<open>An engine whose seed states a network of this machine.\<close>

definition seeded_network :: ip_net where
  "seeded_network = V4Net 0x0A000000 24"

definition network_here :: topology_evidence where
  "network_here = evidence_new 0 (fact.Network seeded_network) KernelRoute Observed ''en0''"

definition network_there :: topology_evidence where
  "network_there = from_peer network_here
     \<lparr>po_peer = ''ab12'', po_vantage = ''site'', po_sequence = 1, po_published_at = 0\<rparr>"

definition seeding_engine :: "unit discovery_engine" where
  "seeding_engine = engine_new
     [\<lparr>dp_name = ''seed'', dp_applies = (\<lambda>_. True), dp_discover = (\<lambda>_ v. (output_from_evidence [network_here], v))\<rparr>] []"

theorem converged_run_is_complete_witness:
  "rp_converged (engine_run seeding_engine quiet_tasks (\<lambda>_. []) a_context None ()) \<and>
     seeded_network \<in> set (local_networks (\<lambda>_. []) (rp_graph (engine_run seeding_engine quiet_tasks (\<lambda>_. []) a_context None ()))) \<and>
     seeded_network \<in>
       {p. Some p \<in> sr_scope ` set (rp_scope_runs (engine_run seeding_engine quiet_tasks (\<lambda>_. []) a_context None ()))} \<union>
       {p. peer_network (rp_graph (engine_run seeding_engine quiet_tasks (\<lambda>_. []) a_context None ())) p}"
proof -
  have a: "rp_converged (engine_run seeding_engine quiet_tasks (\<lambda>_. []) a_context None ())" by code_simp
  moreover have "seeded_network \<in>
      set (local_networks (\<lambda>_. []) (rp_graph (engine_run seeding_engine quiet_tasks (\<lambda>_. []) a_context None ())))"
    by code_simp
  ultimately show ?thesis using converged_run_is_complete [OF a] by blast
qed

text \<open>
  A network that a peer named and that this machine observes only in the final drain: the test whether
  the drain extended the topology compares prefixes of every domain, so the run converges and the
  network is never swept, although the next iteration would have queued it.
\<close>

definition late_engine :: "unit discovery_engine" where
  "late_engine = with_continuous_source (engine_new [] [])
     \<lparr>cs_drain = (\<lambda>v. ([network_there], v)), cs_finish = (\<lambda>v. ([network_here], v))\<rparr>"

lemma late_network_not_swept:
  "rp_converged (engine_run late_engine quiet_tasks (\<lambda>_. []) a_context None ()) \<and>
   local_networks (\<lambda>_. []) (rp_graph (engine_run late_engine quiet_tasks (\<lambda>_. []) a_context None ())) = [seeded_network] \<and>
   map sr_scope (rp_scope_runs (engine_run late_engine quiet_tasks (\<lambda>_. []) a_context None ())) = [None]"
  by code_simp

end
