(* ===== verification/Http.thy ===== *)
theory Http
  imports Interrogate
begin

text \<open>
  The plaintext HTTP client (\<open>src/src/probes/http.rs\<close>): which prefixes a page states and how it
  labels them, what a response discloses, and the redirects that are followed. Text is UTF-8 bytes;
  every delimiter the code looks for is ASCII, so walking bytes and walking characters agree. The
  parser of prefixes and their truncation belong to the \<open>ipnet\<close> crate; what a server sends is a list
  of reads for each request.
\<close>

section \<open>Searching text\<close>

text \<open>\<open>str::find\<close>, \<open>split\<close> by a string, \<open>split_inclusive\<close> and \<open>split_whitespace\<close>.\<close>

fun find_str :: "string \<Rightarrow> string \<Rightarrow> nat option" where
  "find_str [] p = (if p = [] then Some 0 else None)"
| "find_str (c # cs) p = (if starts_with (c # cs) p then Some 0 else map_option Suc (find_str cs p))"

lemma find_str_bound: "find_str s p = Some n \<Longrightarrow> n + length p \<le> length s"
proof (induction s arbitrary: n)
  case Nil
  then show ?case by (simp split: if_splits)
next
  case (Cons c s)
  have "starts_with t q \<Longrightarrow> length q \<le> length t" for t q :: string
    by (induction t q rule: starts_with.induct) simp_all
  with Cons show ?case by (fastforce split: if_splits)
qed

lemma length_lower [simp]: "length (to_ascii_lowercase s) = length s"
  by (simp add: to_ascii_lowercase_def)

definition split_once_str :: "string \<Rightarrow> string \<Rightarrow> (string \<times> string) option" where
  "split_once_str p s =
     map_option (\<lambda>n. (take n s, drop (n + length p) s)) (find_str s p)"

function split_lines :: "string \<Rightarrow> string list" where
  "split_lines s =
     (case split_once_str [CHR 0x0D, CHR 0x0A] s of
        None \<Rightarrow> [s]
      | Some (line, rest) \<Rightarrow> line # split_lines rest)"
  by auto
termination
  by (relation "measure length") (auto simp: split_once_str_def dest: find_str_bound)

declare split_lines.simps [simp del]

fun split_inclusive :: "string \<Rightarrow> string list" where
  "split_inclusive [] = []"
| "split_inclusive (c # cs) =
     (if c = CHR 0x0A then [c] # split_inclusive cs
      else case split_inclusive cs of [] \<Rightarrow> [[c]] | l # ls \<Rightarrow> (c # l) # ls)"

fun split_spaces :: "chars \<Rightarrow> chars list" where
  "split_spaces [] = [[]]"
| "split_spaces (c # cs) =
     (if is_whitespace c then [] # split_spaces cs
      else case split_spaces cs of [] \<Rightarrow> [[c]] | w # ws \<Rightarrow> (c # w) # ws)"

lemma is_whitespace_ascii [code]:
  "is_whitespace c =
     (if c < 128 then 9 \<le> c \<and> c \<le> 13 \<or> c = 32
      else c \<in> {0x85, 0xA0, 0x1680} \<union> {0x2000..0x200A} \<union> {0x2028, 0x2029, 0x202F, 0x205F, 0x3000})"
  by (auto simp: is_whitespace_def)

definition split_whitespace :: "string \<Rightarrow> string list" where
  "split_whitespace s = map utf8_encode (filter (\<lambda>w. w \<noteq> []) (split_spaces (utf8_decode s)))"

text \<open>\<open>parse::<u16>\<close>, and an IPv4 address.\<close>

fun dec_value :: "nat \<Rightarrow> string \<Rightarrow> nat option" where
  "dec_value acc [] = Some acc"
| "dec_value acc (c # cs) =
     (if is_ascii_digit c then dec_value (10 * acc + (char_code c - 48)) cs else None)"

definition u16_from_str :: "string \<Rightarrow> u16 option" where
  "u16_from_str s =
     (let digits = (case s of CHR ''+'' # rest \<Rightarrow> rest | _ \<Rightarrow> s)
      in if digits = [] then None
         else case dec_value 0 digits of
                None \<Rightarrow> None
              | Some v \<Rightarrow> if v < 65536 then Some (word_of_nat v) else None)"

definition ipv4_from_str :: "string \<Rightarrow> 32 word option" where
  "ipv4_from_str s =
     (case read_ipv4_addr s of Some (a, rest) \<Rightarrow> if rest = [] then Some a else None | None \<Rightarrow> None)"

section \<open>Labels\<close>

definition INTERFACE_LABELS :: "string list" where
  "INTERFACE_LABELS =
     [''lan subnet'', ''lan network'', ''lan ip'', ''lan address'', ''interface address'',
      ''ip address'', ''ipaddr'', ''inet addr'', ''local address'']"

definition MASK_LABELS :: "string list" where
  "MASK_LABELS =
     [''netmask'', ''subnet mask'', ''subnetmask'', ''subnet_mask'', ''prefix length'', ''prefixlen'']"

definition DESTINATION_LABELS :: "string list" where
  "DESTINATION_LABELS = [''destination'', ''dest network'', ''dest addr'', ''dest ip'']"

definition ROUTE_CONTEXT :: "string list" where
  "ROUTE_CONTEXT =
     [''routing table'', ''route table'', ''route entry'', ''static route'', ''next hop'', ''nexthop'',
      ''gateway'', ''metric'']"

definition POLICY_CONTEXT :: "string list" where
  "POLICY_CONTEXT =
     [''acl'', ''access list'', ''access-list'', ''firewall'', ''policy'', ''filter'', ''nat'',
      ''port forward'', ''vpn'', ''tunnel'', ''deny'', ''permit'', ''allow'', ''block'', ''rule'']"

definition EXAMPLE_MARKERS :: "string list" where
  "EXAMPLE_MARKERS =
     [''example'', ''e g'', ''for instance'', ''such as'', ''placeholder'', ''default is'',
      ''defaults to'', ''sample'', ''must be in the form'', ''in the form'', ''format'', ''enter a'',
      ''enter the'']"

definition word_matches :: "string \<Rightarrow> string \<Rightarrow> bool" where
  "word_matches word target \<longleftrightarrow>
     word = target \<or> (word \<noteq> [] \<and> List.last word = CHR ''s'' \<and> butlast word = target)"

definition windows :: "nat \<Rightarrow> 'a list \<Rightarrow> 'a list list" where
  "windows n xs = map (\<lambda>i. take n (drop i xs)) [0 ..< Suc (length xs) - n]"

definition contains_phrase :: "string list \<Rightarrow> string \<Rightarrow> bool" where
  "contains_phrase ws phrase =
     (let needle = split_whitespace phrase
      in needle \<noteq> [] \<and>
         list_ex (\<lambda>window. list_all (\<lambda>(w, target). word_matches w target) (zip window needle))
           (windows (length needle) ws))"

text \<open>The arguments are \<open>previous_alnum\<close>, \<open>previous_lower\<close> and \<open>in_tag\<close>.\<close>

fun label_chars :: "bool \<Rightarrow> bool \<Rightarrow> bool \<Rightarrow> string \<Rightarrow> string" where
  "label_chars alnum lower tag [] = []"
| "label_chars alnum lower tag (c # cs) =
     (let tag1 = (tag \<or> c = CHR ''<'')
      in if tag1 then (if alnum then '' '' else []) @ label_chars False False (c \<noteq> CHR ''>'') cs
         else if \<not> is_ascii_alphanumeric c
         then (if alnum then '' '' else []) @ label_chars False False False cs
         else (if is_ascii_uppercase c \<and> lower then '' '' else []) @
              ascii_lower c # label_chars True (is_ascii_lowercase c \<or> is_ascii_digit c) False cs)"

definition label_form :: "string \<Rightarrow> string" where
  "label_form text = label_chars False False False text"

definition is_illustrative :: "string \<Rightarrow> bool" where
  "is_illustrative unit_text = list_ex (str_contains (label_form unit_text)) EXAMPLE_MARKERS"

section \<open>Content and its units\<close>

definition NON_CONTENT :: "(string \<times> string) list" where
  "NON_CONTENT = [(''<!--'', ''-->''), (''<script'', ''</script>''), (''<style'', ''</style>'')]"

definition starts_lower :: "string \<Rightarrow> string \<Rightarrow> bool" where
  "starts_lower s p = starts_with (to_ascii_lowercase (take (length p) s)) p"

definition skip_block :: "string \<Rightarrow> nat option" where
  "skip_block s =
     map_option
       (\<lambda>(_, close). case find_str (to_ascii_lowercase s) close of
                       Some n \<Rightarrow> n + length close
                     | None \<Rightarrow> length s)
       (List.find (\<lambda>(opening, _). starts_lower s opening) NON_CONTENT)"

function strip_non_content :: "string \<Rightarrow> string" where
  "strip_non_content [] = []"
| "strip_non_content (c # cs) =
     (case skip_block (c # cs) of
        Some n \<Rightarrow> CHR 0x0A # strip_non_content (drop (n - 1) cs)
      | None \<Rightarrow> c # strip_non_content cs)"
  by pat_completeness auto
termination by (relation "measure length") auto

text \<open>The rows of tables with where they begin and end.\<close>

lemma find_str_starts: "find_str s p = Some n \<Longrightarrow> starts_with (drop n s) p"
  by (induction s arbitrary: n) (auto split: if_splits)

function table_rows :: "nat \<Rightarrow> string \<Rightarrow> (nat \<times> nat \<times> string) list" where
  "table_rows index s =
     (case find_str (to_ascii_lowercase s) ''<tr'' of
        None \<Rightarrow> []
      | Some found \<Rightarrow>
          (let rest = drop found s;
               len = (case find_str (to_ascii_lowercase rest) ''</tr>'' of
                        Some e \<Rightarrow> e + 5 | None \<Rightarrow> length rest)
           in (index + found, index + found + len, take len rest) #
              (if length rest \<le> len then [] else table_rows (index + found + len) (drop len rest))))"
  by auto
termination
proof (relation "measure (length \<circ> snd)", simp)
  fix index s found rest len
  assume f: "find_str (to_ascii_lowercase s) ''<tr'' = Some found"
    and r: "rest = drop found s" and "\<not> length rest \<le> len"
    and l: "len = (case find_str (to_ascii_lowercase rest) ''</tr>'' of Some e \<Rightarrow> e + 5 | None \<Rightarrow> length rest)"
  then have "0 < len" by (auto split: option.splits)
  with find_str_bound [OF f] r show "((index + found + len, drop len rest), index, s) \<in> measure (length \<circ> snd)"
    by simp
qed

declare table_rows.simps [simp del]

text \<open>The arguments are the index, where the open region began and the depth.\<close>

fun balanced_from :: "string \<Rightarrow> char \<Rightarrow> char \<Rightarrow> nat \<Rightarrow> nat option \<Rightarrow> nat \<Rightarrow> string \<Rightarrow> (nat \<times> nat \<times> string) list" where
  "balanced_from content opening closing index start depth [] = []"
| "balanced_from content opening closing index start depth (c # cs) =
     (if c = opening
      then balanced_from content opening closing (Suc index) (if depth = 0 then Some index else start) (Suc depth) cs
      else if c = closing \<and> 0 < depth
      then (if depth = 1
            then (case start of
                    Some from_index \<Rightarrow>
                      (let text = take (Suc index - from_index) (drop from_index content)
                       in if length text \<le> 512 then [(from_index, Suc index, text)] else [])
                  | None \<Rightarrow> []) @ balanced_from content opening closing (Suc index) None 0 cs
            else balanced_from content opening closing (Suc index) start (depth - 1) cs)
      else balanced_from content opening closing (Suc index) start depth cs)"

definition balanced_units :: "string \<Rightarrow> char \<Rightarrow> char \<Rightarrow> (nat \<times> nat \<times> string) list" where
  "balanced_units content opening closing = balanced_from content opening closing 0 None 0 content"

fun line_units :: "(nat \<times> nat) list \<Rightarrow> nat \<Rightarrow> string list \<Rightarrow> string list" where
  "line_units claimed offset [] = []"
| "line_units claimed offset (line # rest) =
     (let end_at = offset + length line
      in (if list_ex (\<lambda>(a, b). a < end_at \<and> offset < b) claimed then [] else [line]) @
         line_units claimed end_at rest)"

definition structured_units :: "string \<Rightarrow> string list" where
  "structured_units content =
     (let regions = table_rows 0 content @ balanced_units content (CHR ''{'') (CHR ''}'')
      in map (\<lambda>(_, _, text). text) regions @
         line_units (map (\<lambda>(a, b, _). (a, b)) regions) 0 (split_inclusive content))"

section \<open>Prefixes\<close>

function unescape_hex :: "string \<Rightarrow> string" where
  "unescape_hex [] = []"
| "unescape_hex (c # cs) =
     (case (if c = CHR 0x5C \<and> starts_with cs ''x'' \<and> 3 \<le> length cs
            then u8_from_str_radix_16 (take 2 (drop 1 cs)) else None) of
        Some byte \<Rightarrow>
          if byte < 128 then char_of (unat byte) # unescape_hex (drop 3 cs) else c # unescape_hex cs
      | None \<Rightarrow> c # unescape_hex cs)"
  by pat_completeness auto
termination by (relation "measure length") auto

definition tokens :: "string \<Rightarrow> string list" where
  "tokens text =
     filter (\<lambda>t. t \<noteq> [])
       (split_by (\<lambda>c. \<not> (is_ascii_hexdigit c \<or> c = CHR ''.'' \<or> c = CHR '':'' \<or> c = CHR ''/'')) text)"

definition is_contiguous_mask :: "32 word \<Rightarrow> bool" where
  "is_contiguous_mask bits \<longleftrightarrow> bits \<noteq> 0 \<and> leading_ones bits + trailing_zeros bits = 32"

definition address_and_mask :: "ipnet_ops \<Rightarrow> string \<Rightarrow> prefix_semantics \<Rightarrow> prefix_candidate option" where
  "address_and_mask ops text semantics =
     (let quads = List.map_filter ipv4_from_str (tokens text)
      in case (List.find is_contiguous_mask quads, List.find (\<lambda>a. \<not> is_contiguous_mask a) quads) of
           (Some m, Some address) \<Rightarrow>
             (let len = leading_ones m
              in Some \<lparr>pc_prefix = V4Net (trunc4 ops address len) len, pc_semantics = semantics,
                       pc_context = text,
                       pc_source_text = ipv4_to_string address @ '' mask '' @ ipv4_to_string m\<rparr>)
         | _ \<Rightarrow> None)"

fun host_route :: "ip_net \<Rightarrow> bool" where
  "host_route (V4Net _ n) \<longleftrightarrow> n = 32"
| "host_route (V6Net _ n) \<longleftrightarrow> n = 128"

text \<open>What the labels of a unit make of a prefix in it.\<close>

definition has_label :: "string list \<Rightarrow> string list \<Rightarrow> bool" where
  "has_label ws labels = list_ex (contains_phrase ws) labels"

definition unit_semantics :: "string list \<Rightarrow> prefix_semantics" where
  "unit_semantics ws =
     (let policy = has_label ws POLICY_CONTEXT
      in if has_label ws INTERFACE_LABELS \<and> \<not> policy then prefix_semantics.InterfaceAddress
         else if has_label ws DESTINATION_LABELS \<and> has_label ws ROUTE_CONTEXT \<and> \<not> policy
         then RouteDestination else Unlabelled)"

definition token_candidate ::
    "ipnet_ops \<Rightarrow> (string \<Rightarrow> ip_net option) \<Rightarrow> prefix_semantics \<Rightarrow> string \<Rightarrow> string \<Rightarrow> prefix_candidate option" where
  "token_candidate ops parse semantics text token =
     (if \<not> str_contains token ''/'' then None
      else case parse token of
             None \<Rightarrow> None
           | Some network \<Rightarrow>
               if host_route network then None
               else Some \<lparr>pc_prefix = net_trunc ops network, pc_semantics = semantics,
                          pc_context = text, pc_source_text = token\<rparr>)"

definition candidates_in_unit ::
    "ipnet_ops \<Rightarrow> (string \<Rightarrow> ip_net option) \<Rightarrow> string \<Rightarrow> prefix_candidate list" where
  "candidates_in_unit ops parse unit_text =
     (let text = unescape_hex unit_text; ws = split_whitespace (label_form text);
          semantics = unit_semantics ws
      in List.map_filter (token_candidate ops parse semantics text) (tokens text) @
         (if has_label ws MASK_LABELS
          then (case address_and_mask ops text semantics of Some c \<Rightarrow> [c] | None \<Rightarrow> [])
          else []))"

fun push_unique :: "prefix_candidate \<Rightarrow> prefix_candidate list \<Rightarrow> prefix_candidate list" where
  "push_unique c [] = [c]"
| "push_unique c (existing # rest) =
     (if pc_prefix existing = pc_prefix c
      then (if establishes_network (pc_semantics c) \<and> \<not> establishes_network (pc_semantics existing)
            then c else existing) # rest
      else existing # push_unique c rest)"

definition prefix_candidates ::
    "ipnet_ops \<Rightarrow> (string \<Rightarrow> ip_net option) \<Rightarrow> string \<Rightarrow> prefix_candidate list" where
  "prefix_candidates ops parse body =
     fold push_unique
       (concat (map (candidates_in_unit ops parse)
          (filter (\<lambda>u. \<not> is_illustrative u) (structured_units (strip_non_content body))))) []"

section \<open>A response\<close>

definition is_ascii_whitespace :: "char \<Rightarrow> bool" where
  "is_ascii_whitespace c \<longleftrightarrow> char_code c \<in> set [9, 10, 12, 13, 32]"

definition fnv_step :: "char \<Rightarrow> u64 \<Rightarrow> u64" where
  "fnv_step c hash = (hash XOR word_of_nat (char_code c)) * 0x00000100000001b3"

fun fingerprint_from :: "bool \<Rightarrow> u64 \<Rightarrow> string \<Rightarrow> u64" where
  "fingerprint_from spaced hash [] = hash"
| "fingerprint_from spaced hash (c # cs) =
     (if is_ascii_whitespace c
      then (if spaced then fingerprint_from True hash cs
            else fingerprint_from True (fnv_step (CHR '' '') hash) cs)
      else fingerprint_from False (fnv_step (ascii_lower c) hash) cs)"

definition normalised_body_fingerprint :: "string \<Rightarrow> u64" where
  "normalised_body_fingerprint body = fingerprint_from False 0xcbf29ce484222325 body"

text \<open>The values of one attribute, in order; at most two hundred links are kept in all.\<close>

function scan_links :: "string \<Rightarrow> string \<Rightarrow> string list \<Rightarrow> string list" where
  "scan_links attribute s links =
     (if attribute = [] then links
      else case find_str (to_ascii_lowercase s) attribute of
        None \<Rightarrow> links
      | Some found \<Rightarrow>
          (case drop (found + length attribute) s of
             [] \<Rightarrow> links
           | quote # rest \<Rightarrow>
               if quote \<noteq> CHR 0x22 \<and> quote \<noteq> CHR 0x27 then scan_links attribute (quote # rest) links
               else case find_str rest [quote] of
                      None \<Rightarrow> scan_links attribute (quote # rest) links
                    | Some n \<Rightarrow>
                        (let found_text = trim_text (take n rest)
                         in scan_links attribute (drop n rest)
                              (if found_text \<noteq> [] \<and> length links < 200 then links @ [found_text] else links))))"
  by pat_completeness auto
termination
proof (relation "measure (\<lambda>(a, s, l). length s)", simp)
  fix attribute s :: string and links :: "string list" and found quote rest
  assume a: "attribute \<noteq> []" "find_str (to_ascii_lowercase s) attribute = Some found"
    "drop (found + length attribute) s = quote # rest"
  have "length (quote # rest) = length s - (found + length attribute)" by (simp only: a(3) [symmetric] length_drop)
  moreover have "found + length attribute \<le> length s" using find_str_bound [OF a(2)] by simp
  moreover have "0 < length attribute" using a(1) by simp
  ultimately have "length (quote # rest) < length s" by linarith
  then show "((attribute, quote # rest, links), attribute, s, links) \<in> measure (\<lambda>(a, s, l). length s)"
    "((attribute, quote # rest, links), attribute, s, links) \<in> measure (\<lambda>(a, s, l). length s)" by auto
  fix n found_text
  from \<open>length (quote # rest) < length s\<close>
  show "((attribute, drop n rest, if found_text \<noteq> [] \<and> length links < 200 then links @ [found_text] else links),
      attribute, s, links) \<in> measure (\<lambda>(a, s, l). length s)" by simp
qed

declare scan_links.simps [simp del]

definition document_links :: "string \<Rightarrow> string list" where
  "document_links body = scan_links ''src='' body (scan_links ''href='' body [])"

definition extract_title :: "string \<Rightarrow> string option" where
  "extract_title response =
     (let lower = to_ascii_lowercase response
      in case find_str lower ''<title'' of
           None \<Rightarrow> None
         | Some opening \<Rightarrow>
             (case find_str (drop opening lower) ''>'' of
                None \<Rightarrow> None
              | Some gt \<Rightarrow>
                  (let start = gt + opening + 1
                   in case find_str (drop start lower) ''</title>'' of
                        None \<Rightarrow> None
                      | Some n \<Rightarrow>
                          (let title = trim_text (take n (drop start response))
                           in if title \<noteq> [] \<and> length title \<le> 120 then Some title else None))))"

definition identity_default :: http_identity where
  "identity_default =
     \<lparr>hi_status = 0, hi_server = None, hi_authenticate = None, hi_title = None, hi_prefixes = [],
      hi_redirect_target = None, hi_redirect_chain = [], hi_body_fingerprint = None, hi_links = [],
      hi_redirect_declined = None\<rparr>"

definition http_header :: "string \<Rightarrow> http_identity \<Rightarrow> http_identity" where
  "http_header line h =
     (case split_once (CHR '':'') line of
        None \<Rightarrow> h
      | Some (name, rest) \<Rightarrow>
          (let content = trim_text rest; key = to_ascii_lowercase (trim_text name)
           in if content = [] then h
              else if key = ''server'' then h\<lparr>hi_server := Some content\<rparr>
              else if key = ''www-authenticate'' then h\<lparr>hi_authenticate := Some content\<rparr>
              else if key = ''location'' then h\<lparr>hi_redirect_target := Some content\<rparr>
              else h))"

definition parse_http_identity ::
    "ipnet_ops \<Rightarrow> (string \<Rightarrow> ip_net option) \<Rightarrow> string \<Rightarrow> http_identity option" where
  "parse_http_identity ops parse response =
     (case split_lines response of
        [] \<Rightarrow> None
      | status_line # rest \<Rightarrow>
          if \<not> starts_with status_line ''HTTP/'' then None
          else (case split_whitespace status_line of
                 _ # code # _ \<Rightarrow>
                   (case u16_from_str code of
                      None \<Rightarrow> None
                    | Some status \<Rightarrow>
                        (let body = map_option snd
                               (split_once_str [CHR 0x0D, CHR 0x0A, CHR 0x0D, CHR 0x0A] response)
                         in Some ((fold http_header (takeWhile (\<lambda>l. l \<noteq> []) rest)
                                     (identity_default\<lparr>hi_status := status\<rparr>))
                              \<lparr>hi_title := extract_title response,
                               hi_body_fingerprint := map_option normalised_body_fingerprint body,
                               hi_links := (case body of Some b \<Rightarrow> document_links b | None \<Rightarrow> []),
                               hi_prefixes := (case body of Some b \<Rightarrow> prefix_candidates ops parse b
                                                          | None \<Rightarrow> [])\<rparr>)))
               | _ \<Rightarrow> None))"

section \<open>Requests\<close>

text \<open>
  What arrives on a stream: pieces of data, an empty one being the end; the list ends where a read
  timed out. \<open>read_up_to\<close> is the loop that fills a buffer of bounded size.
\<close>

datatype read_event = Piece bytes | ReadFailed

fun read_up_to :: "nat \<Rightarrow> read_event list \<Rightarrow> bytes" where
  "read_up_to room [] = []"
| "read_up_to room (ReadFailed # es) = []"
| "read_up_to room (Piece bs # es) =
     (if room = 0 \<or> bs = [] then []
      else let got = take room bs in got @ read_up_to (room - length got) es)"

lemma read_up_to_bound: "length (read_up_to room es) \<le> room"
  by (induction room es rule: read_up_to.induct) (auto simp: Let_def min_def)

record http_env =
  he_sockets :: sockets
  he_binding :: socket_binding
  he_web :: "socket_addr \<Rightarrow> string \<Rightarrow> read_event list option"
  he_ops :: ipnet_ops
  he_parse :: "string \<Rightarrow> ip_net option"

definition crlf :: string where
  "crlf = [CHR 0x0D, CHR 0x0A]"

definition http_request :: "endpoint \<Rightarrow> string \<Rightarrow> string" where
  "http_request target path =
     ''GET '' @ path @ '' HTTP/1.1'' @ crlf @ ''Host: '' @ endpoint_host_literal target @ crlf @
     ''User-Agent: idnx'' @ crlf @ ''Accept: */*'' @ crlf @ ''Connection: close'' @ crlf @ crlf"

definition probe_http_path :: "http_env \<Rightarrow> endpoint \<Rightarrow> u16 \<Rightarrow> string \<Rightarrow> http_identity option" where
  "probe_http_path env target port path =
     (let addr = endpoint_socket_addr target port
      in if snd (tcp_connect (he_sockets env addr) (he_binding env) addr) \<noteq> None then None
         else case he_web env addr (http_request target path) of
                None \<Rightarrow> None
              | Some events \<Rightarrow>
                  (let got = read_up_to 8192 events
                   in if got = [] then None
                      else parse_http_identity (he_ops env) (he_parse env) (text_of got)))"

definition probe_http :: "http_env \<Rightarrow> endpoint \<Rightarrow> u16 \<Rightarrow> http_identity option" where
  "probe_http env target port = probe_http_path env target port ''/''"

definition MAX_REDIRECTS :: nat where "MAX_REDIRECTS = 3"

definition same_origin_path :: "string \<Rightarrow> endpoint \<Rightarrow> u16 \<Rightarrow> string + string" where
  "same_origin_path location0 target port =
     (let location = trim_text location0
      in if location = [] then Inl ''empty Location''
         else if starts_with location ''//'' then Inl ''protocol-relative, names another origin''
         else if starts_with location ''/'' then Inr location
         else if starts_with location ''https://'' then Inl ''HTTPS, not followed by a plaintext probe''
         else case strip_prefix location ''http://'' of
                None \<Rightarrow> Inl ''not an absolute HTTP URL''
              | Some rest \<Rightarrow>
                  (let (authority0, path) =
                         (case split_once (CHR ''/'') rest of
                            Some (a, p) \<Rightarrow> (a, ''/'' @ p) | None \<Rightarrow> (rest, ''/''));
                       authority = List.last (split_on (CHR ''@'') authority0);
                       expected = endpoint_host_literal target; plain = ip_to_string (ep_address target);
                       with_port = (\<lambda>h. h @ '':'' @ decimal (uint port))
                   in if authority \<in> set [expected, with_port expected, plain, with_port plain]
                      then Inr path else Inl ''different host or port''))"

text \<open>The identity so far, the chain of paths and the redirect that was declined.\<close>

fun follow_redirects ::
    "nat \<Rightarrow> http_env \<Rightarrow> endpoint \<Rightarrow> u16 \<Rightarrow> string \<Rightarrow> http_identity \<Rightarrow> string list \<Rightarrow>
     http_identity \<times> string list \<times> string option" where
  "follow_redirects 0 env target port path identity chain = (identity, chain, None)"
| "follow_redirects (Suc n) env target port path identity chain =
     (case hi_redirect_target identity of
        None \<Rightarrow> (identity, chain, None)
      | Some location \<Rightarrow>
          (case same_origin_path location target port of
             Inl reason \<Rightarrow> (identity, chain, Some (location @ '': '' @ reason))
           | Inr next_path \<Rightarrow>
               if next_path = path then (identity, chain, None)
               else case probe_http_path env target port next_path of
                      None \<Rightarrow> (identity, chain, None)
                    | Some followed \<Rightarrow>
                        follow_redirects n env target port next_path followed (chain @ [next_path])))"

definition http_identify :: "http_env \<Rightarrow> endpoint \<Rightarrow> u16 \<Rightarrow> http_identity option" where
  "http_identify env target port =
     map_option
       (\<lambda>first. let (identity, chain, declined) =
                      follow_redirects MAX_REDIRECTS env target port ''/'' first []
                in identity\<lparr>hi_redirect_chain := chain, hi_redirect_declined := declined\<rparr>)
       (probe_http_path env target port ''/'')"

end
