(* ===== verification/Management.thy ===== *)
theory Management
  imports Http
begin

text \<open>
  The audit of a management surface (\<open>src/src/probes/management.rs\<close>): which links of a page may be
  fetched, the bounded loop over them, and what it returns. The paths that were asked are returned
  beside the audit, as the vector \<open>asked\<close> of the loop. The theory ends with what the HTTP client and the
  audit guarantee of the networks an interrogation reports.
\<close>

section \<open>Admissible links\<close>

definition UNIVERSAL_PATHS :: "string list" where
  "UNIVERSAL_PATHS =
     [''/status'', ''/status.html'', ''/info'', ''/device.xml'', ''/status.json'', ''/api/status'',
      ''/api/routes'', ''/api/routing'']"

definition ACTION_WORDS :: "string list" where
  "ACTION_WORDS =
     [''apply'', ''save'', ''reboot'', ''reset'', ''upgrade'', ''delete'', ''enable'', ''disable'', ''connect'',
      ''logout'', ''restore'']"

definition ASSET_SUFFIXES :: "string list" where
  "ASSET_SUFFIXES =
     [''.js'', ''.css'', ''.png'', ''.jpg'', ''.jpeg'', ''.gif'', ''.svg'', ''.ico'', ''.woff'', ''.woff2'', ''.ttf'',
      ''.map'']"

definition DOCUMENT_WORDS :: "string list" where
  "DOCUMENT_WORDS =
     [''status'', ''info'', ''device'', ''route'', ''routing'', ''system'', ''network'', ''lan'', ''wan'', ''interface'']"

definition is_document_link :: "string \<Rightarrow> bool" where
  "is_document_link path =
     (let lower = to_ascii_lowercase path
      in if list_ex (ends_with lower) ASSET_SUFFIXES then False
         else if ends_with lower ''.xml'' \<or> ends_with lower ''.json'' then True
         else list_ex (str_contains lower) DOCUMENT_WORDS)"

definition admissible :: "string \<Rightarrow> endpoint \<Rightarrow> u16 \<Rightarrow> string + string" where
  "admissible href target port =
     (let trimmed = trim_text href; lower = to_ascii_lowercase trimmed
      in if trimmed = [] then Inl ''empty link''
         else if starts_with trimmed ''#'' then Inl ''fragment, not a document''
         else if list_ex (starts_with lower) [''javascript:'', ''mailto:'', ''tel:'', ''data:'', ''ftp:'']
         then Inl ''not an HTTP URL''
         else if str_contains trimmed ''?'' then Inl ''query string, which parameterises a request''
         else if str_contains lower ''/cgi-bin/'' then Inl ''CGI handler, which commonly performs actions''
         else if list_ex (str_contains lower) ACTION_WORDS then Inl ''action semantics in the URL''
         else case same_origin_path trimmed target port of
                Inl rule \<Rightarrow> Inl rule
              | Inr path \<Rightarrow>
                  if is_document_link path then Inr path else Inl ''not a descriptor or status document'')"

section \<open>The audit\<close>

definition audit_link ::
    "endpoint \<Rightarrow> u16 \<Rightarrow> string \<Rightarrow> string list \<times> (string \<times> path_outcome) list \<Rightarrow>
     string list \<times> (string \<times> path_outcome) list" where
  "audit_link target port href acc =
     (let (queue, attempted) = acc
      in case admissible href target port of
           Inr path \<Rightarrow> (if path \<in> set queue then queue else queue @ [path], attempted)
         | Inl rule \<Rightarrow>
             (queue, if length attempted < 64 then attempted @ [(trim_text href, PathRefused rule)]
                     else attempted))"

definition audit_queue ::
    "endpoint \<Rightarrow> u16 \<Rightarrow> http_identity \<Rightarrow> string list \<times> (string \<times> path_outcome) list" where
  "audit_queue target port root =
     (let (queue, attempted) = fold (audit_link target port) (hi_links root) ([], [])
      in (fold (\<lambda>path queue. if path \<in> set queue then queue else queue @ [path]) UNIVERSAL_PATHS queue,
          attempted))"

definition path_result :: "http_identity option \<Rightarrow> path_outcome" where
  "path_result response =
     (case response of
        None \<Rightarrow> PathNoResponse
      | Some h \<Rightarrow>
          if hi_authenticate h \<noteq> None \<or> hi_status h = 401 then AuthenticationRequired (hi_status h)
          else PathAnswered (hi_status h) (length (hi_prefixes h)) (hi_body_fingerprint h))"

fun ask_paths ::
    "http_env \<Rightarrow> endpoint \<Rightarrow> u16 \<Rightarrow> string list \<Rightarrow> string list \<Rightarrow> management_audit \<Rightarrow>
     string list \<times> management_audit" where
  "ask_paths env target port [] asked audit = (asked, audit)"
| "ask_paths env target port (path # queue) asked audit =
     (if REQUEST_BUDGET \<le> length asked then (asked, audit\<lparr>ma_budget_exhausted := True\<rparr>)
      else let response = probe_http_path env target port path
           in ask_paths env target port queue (asked @ [path])
                (audit\<lparr>ma_candidates := ma_candidates audit @
                         (case response of Some h \<Rightarrow> hi_prefixes h | None \<Rightarrow> []),
                       ma_attempted := ma_attempted audit @ [(path, path_result response)]\<rparr>))"

definition audit_run ::
    "http_env \<Rightarrow> endpoint \<Rightarrow> u16 \<Rightarrow> http_identity \<Rightarrow> string list \<times> management_audit" where
  "audit_run env target port root =
     (let (queue, attempted) = audit_queue target port root
      in ask_paths env target port queue []
           \<lparr>ma_attempted = attempted, ma_candidates = [], ma_budget_exhausted = False\<rparr>)"

definition management_audit :: "http_env \<Rightarrow> endpoint \<Rightarrow> u16 \<Rightarrow> http_identity \<Rightarrow> management_audit" where
  "management_audit env target port root = snd (audit_run env target port root)"

definition audit_answered :: "management_audit \<Rightarrow> nat" where
  "audit_answered a =
     length (filter (\<lambda>(_, outcome). case outcome of PathAnswered _ _ _ \<Rightarrow> True | _ \<Rightarrow> False) (ma_attempted a))"

definition establishing :: "management_audit \<Rightarrow> prefix_candidate list" where
  "establishing a = filter (\<lambda>c. establishes_network (pc_semantics c)) (ma_candidates a)"

section \<open>What may be asked\<close>

lemma starts_with_iff: "starts_with s p \<longleftrightarrow> (\<exists>r. s = p @ r)"
  by (induction s p rule: starts_with.induct) auto

lemma str_contains_iff: "str_contains s p \<longleftrightarrow> (\<exists>a b. s = a @ p @ b)"
proof (induction s)
  case (Cons c s)
  have "(\<exists>a b. c # s = a @ p @ b) \<longleftrightarrow> (\<exists>b. c # s = p @ b) \<or> (\<exists>a b. s = a @ p @ b)"
    by (metis append_Cons append_Nil list.inject neq_Nil_conv)
  with Cons show ?case by (simp add: starts_with_iff)
qed simp

lemma contains_suffix: "str_contains b p \<Longrightarrow> str_contains (a @ b) p"
  by (metis append.assoc str_contains_iff)

lemma lower_append: "to_ascii_lowercase (a @ b) = to_ascii_lowercase a @ to_ascii_lowercase b"
  by (simp add: to_ascii_lowercase_def)

text \<open>A path of the same origin is the root or the end of the link it was taken from.\<close>

lemma same_origin_suffix:
  assumes "same_origin_path s0 target port = Inr path" and "trim_text s0 = s"
  shows "path = ''/'' \<or> (\<exists>a. s = a @ path)"
proof -
  have "path = ''/'' \<or> (\<exists>a. s = a @ path)"
    if p: "strip_prefix s ''http://'' = Some rest"
      and q: "(a0, path) = (case split_once (CHR ''/'') rest of Some (a, p) \<Rightarrow> (a, ''/'' @ p) | None \<Rightarrow> (rest, ''/''))"
    for rest a0
  proof (cases "split_once (CHR ''/'') rest")
    case (Some ap)
    obtain a b where ap: "ap = (a, b)" by fastforce
    with Some split_once_Some_iff have "rest = a @ CHR ''/'' # b" by blast
    moreover have "s = ''http://'' @ rest"
      using p by (auto simp: strip_prefix_def starts_with_iff split: if_splits)
    ultimately show ?thesis using q Some ap by (metis append.assoc append_Cons append_Nil case_prod_conv option.simps(5) prod.inject)
  qed (use q in simp)
  with assms show ?thesis
    by (auto simp: same_origin_path_def Let_def split: if_splits option.splits prod.splits)
qed

text \<open>Trimming text that is well formed twice is trimming it once.\<close>

definition well_formed :: "string \<Rightarrow> bool" where
  "well_formed s = list_all scalar (utf8_decode s)"

lemma trim_trim: "trim (trim cs) = trim cs"
proof -
  have "dropWhile P (rev (dropWhile P (rev (dropWhile P cs)))) = rev (dropWhile P (rev (dropWhile P cs)))"
    for P :: "nat \<Rightarrow> bool" and cs
  proof -
    let ?d = "dropWhile P cs"
    obtain t where t: "?d = rev (dropWhile P (rev ?d)) @ t"
      by (metis rev_append rev_rev_ident takeWhile_dropWhile_id)
    show ?thesis
    proof (cases "rev (dropWhile P (rev ?d))")
      case (Cons c r)
      then have "hd ?d = c" "?d \<noteq> []" using t by (metis append_Cons list.sel(1), auto)
      then have "\<not> P c" using hd_dropWhile [of P cs] by simp
      with Cons show ?thesis by simp
    next
      case Nil
      show ?thesis unfolding Nil by simp
    qed
  qed
  from this [of is_whitespace] show ?thesis by (simp add: trim_def)
qed

lemma set_trim: "set (trim cs) \<subseteq> set cs"
  unfolding trim_def by (metis set_dropWhileD set_rev subsetI)

lemma trim_text_trim_text:
  assumes "well_formed s"
  shows "trim_text (trim_text s) = trim_text s"
proof -
  have "\<forall>c \<in> set (trim (utf8_decode s)). c < 1114112"
    using assms set_trim scalar_small by (auto simp: well_formed_def list_all_iff)
  then have "utf8_decode (utf8_encode (trim (utf8_decode s))) = trim (utf8_decode s)"
    by (intro utf8_roundtrip) auto
  then show ?thesis by (simp add: trim_text_def trim_trim)
qed

definition harmless :: "string \<Rightarrow> bool" where
  "harmless path \<longleftrightarrow>
     \<not> str_contains path ''?'' \<and> \<not> str_contains (to_ascii_lowercase path) ''/cgi-bin/'' \<and>
     list_all (\<lambda>word. \<not> str_contains (to_ascii_lowercase path) word) ACTION_WORDS"

lemma admissible_harmless:
  assumes "admissible href target port = Inr path" and "well_formed href"
  shows "harmless path \<and> is_document_link path"
proof -
  let ?t = "trim_text href"
  have t: "harmless ?t" "same_origin_path ?t target port = Inr path" "is_document_link path"
    using assms(1)
    by (auto simp: admissible_def harmless_def Let_def list_ex_iff list_all_iff split: if_splits sum.splits)
  from same_origin_suffix [OF t(2) trim_text_trim_text [OF assms(2)]]
  consider "path = ''/''" | a where "?t = a @ path" by blast
  then show ?thesis
  proof cases
    case 1
    then have "harmless path" by (simp add: harmless_def to_ascii_lowercase_def) code_simp
    with t(3) show ?thesis by simp
  next
    case 2
    with t contains_suffix [of path _ a] contains_suffix [of "to_ascii_lowercase path" _ "to_ascii_lowercase a"]
    show ?thesis unfolding harmless_def 2 lower_append by (auto simp: list_all_iff)
  qed
qed

lemma audit_links_queue:
  "set (fst (fold (audit_link target port) links acc)) =
     set (fst acc) \<union> {path. \<exists>href \<in> set links. admissible href target port = Inr path}"
proof (induction links arbitrary: acc)
  case (Cons href links)
  have "set (fst (audit_link target port href acc)) = set (fst acc) \<union> {path. admissible href target port = Inr path}"
    by (auto simp: audit_link_def Let_def case_prod_unfold split: sum.splits)
  with Cons.IH [of "audit_link target port href acc"] show ?case by auto
qed simp

lemma audit_links_distinct:
  "distinct (fst acc) \<Longrightarrow> distinct (fst (fold (audit_link target port) links acc))"
proof (induction links arbitrary: acc)
  case (Cons href links)
  have "distinct (fst (audit_link target port href acc))"
    using Cons.prems by (simp add: audit_link_def Let_def case_prod_unfold split: sum.splits)
  with Cons.IH [of "audit_link target port href acc"] show ?case by simp
qed simp

lemma add_missing:
  "set (fold (\<lambda>path queue. if path \<in> set queue then queue else queue @ [path]) ps queue) = set queue \<union> set ps"
  "distinct queue \<Longrightarrow>
     distinct (fold (\<lambda>path queue. if path \<in> set queue then queue else queue @ [path]) ps queue)"
  by (induction ps arbitrary: queue) auto

lemma audit_queue_is:
  "set (fst (audit_queue target port root)) =
     {path. \<exists>href \<in> set (hi_links root). admissible href target port = Inr path} \<union> set UNIVERSAL_PATHS"
  "distinct (fst (audit_queue target port root))"
  using audit_links_queue [of target port "hi_links root" "([], [])"]
    audit_links_distinct [of "([], [])" target port "hi_links root"]
  by (simp_all add: audit_queue_def Let_def case_prod_unfold add_missing)

lemma ask_paths_is:
  "length asked \<le> REQUEST_BUDGET \<Longrightarrow> ask_paths env target port queue asked audit =
     (let more = take (REQUEST_BUDGET - length asked) queue
      in (asked @ more,
          \<lparr>ma_attempted = ma_attempted audit @
             map (\<lambda>p. (p, path_result (probe_http_path env target port p))) more,
           ma_candidates = ma_candidates audit @
             concat (map (\<lambda>p. case probe_http_path env target port p of Some h \<Rightarrow> hi_prefixes h | None \<Rightarrow> []) more),
           ma_budget_exhausted = (ma_budget_exhausted audit \<or> REQUEST_BUDGET - length asked < length queue)\<rparr>))"
proof (induction env target port queue asked audit rule: ask_paths.induct)
  case (2 env target port path queue asked audit)
  show ?case
  proof (cases "REQUEST_BUDGET \<le> length asked")
    case False
    then obtain k where k: "REQUEST_BUDGET - length asked = Suc k" using Suc_diff_Suc by (metis linorder_not_le)
    then have "REQUEST_BUDGET - Suc (length asked) = k" by simp
    with 2 False k show ?thesis by (simp add: Let_def)
  qed (use 2(2) in simp)
qed simp

text \<open>
  C14: the audit of a management surface is what it claims to be. Whatever links a page publishes and
  whatever its pages answer, at most twelve paths are asked, none twice; each is one of the eight
  conventional paths or a link of that first page that the rules admit, so nothing found on a later
  page is followed; and no path that is asked carries a query string, names a CGI handler or contains a
  word of action. Each path that is asked is recorded with its outcome, and the audit says that its
  budget stopped it exactly when admissible paths were left.
\<close>
theorem audit_is_bounded_and_harmless:
  assumes "list_all well_formed (hi_links root)"
  shows "let (asked, audit) = audit_run env target port root
    in length asked \<le> 12 \<and> distinct asked \<and> list_all harmless asked \<and>
       set asked \<subseteq> set UNIVERSAL_PATHS \<union>
         {path. \<exists>href \<in> set (hi_links root). admissible href target port = Inr path} \<and>
       (\<exists>refused. ma_attempted audit =
          refused @ map (\<lambda>p. (p, path_result (probe_http_path env target port p))) asked) \<and>
       (ma_budget_exhausted audit \<longleftrightarrow>
          set asked \<noteq> set UNIVERSAL_PATHS \<union>
            {path. \<exists>href \<in> set (hi_links root). admissible href target port = Inr path})"
proof -
  obtain queue attempted where q: "audit_queue target port root = (queue, attempted)" by fastforce
  note queued = audit_queue_is [of target port root, unfolded q fst_conv]
  have run: "audit_run env target port root =
      (take 12 queue,
       \<lparr>ma_attempted = attempted @ map (\<lambda>p. (p, path_result (probe_http_path env target port p))) (take 12 queue),
        ma_candidates = concat (map (\<lambda>p. case probe_http_path env target port p of Some h \<Rightarrow> hi_prefixes h | None \<Rightarrow> [])
          (take 12 queue)),
        ma_budget_exhausted = (12 < length queue)\<rparr>)"
    by (simp add: audit_run_def q ask_paths_is Let_def REQUEST_BUDGET_def)
  have "list_all harmless UNIVERSAL_PATHS" by code_simp
  then have "list_all harmless queue"
    using queued(1) assms admissible_harmless by (fastforce simp: list_all_iff)
  then have harmless: "list_all harmless (take 12 queue)" by (auto simp: list_all_iff dest: in_set_takeD)
  have full: "set (take 12 queue) = set queue \<longleftrightarrow> \<not> 12 < length queue"
  proof
    assume "set (take 12 queue) = set queue"
    then have "card (set (take 12 queue)) = card (set queue)" by simp
    with queued(2) show "\<not> 12 < length queue" by (simp add: distinct_card)
  qed simp
  show ?thesis
    unfolding run using queued harmless full set_take_subset [of 12 queue] by (auto simp: Un_commute)
qed

section \<open>A page's prefixes\<close>

text \<open>
  What a unit of a page must say for a prefix in it to count: it does not illustrate a format, it is not
  about filtering traffic, and it labels the prefix as an address of the device or as a route.
\<close>

definition unit_words :: "string \<Rightarrow> string list" where
  "unit_words u = split_whitespace (label_form (unescape_hex u))"

definition labels_prefix :: "string \<Rightarrow> prefix_semantics \<Rightarrow> bool" where
  "labels_prefix u semantics \<longleftrightarrow>
     \<not> is_illustrative u \<and> \<not> has_label (unit_words u) POLICY_CONTEXT \<and>
     (semantics = prefix_semantics.InterfaceAddress \<and> has_label (unit_words u) INTERFACE_LABELS \<or>
      semantics = RouteDestination \<and> has_label (unit_words u) DESTINATION_LABELS \<and>
        has_label (unit_words u) ROUTE_CONTEXT)"

text \<open>
  How a unit gives a prefix: as a literal with a prefix length, or, when it has a label of a mask, by its
  first address that is no mask and its first mask.
\<close>

definition written_in :: "ipnet_ops \<Rightarrow> (string \<Rightarrow> ip_net option) \<Rightarrow> string \<Rightarrow> ip_net \<Rightarrow> bool" where
  "written_in ops parse u p \<longleftrightarrow>
     (\<exists>token \<in> set (tokens (unescape_hex u)). \<exists>net. str_contains token ''/'' \<and> parse token = Some net \<and>
        \<not> host_route net \<and> p = net_trunc ops net) \<or>
     has_label (unit_words u) MASK_LABELS \<and>
       (\<exists>m a. List.find is_contiguous_mask (List.map_filter ipv4_from_str (tokens (unescape_hex u))) = Some m \<and>
          List.find (\<lambda>x. \<not> is_contiguous_mask x) (List.map_filter ipv4_from_str (tokens (unescape_hex u))) = Some a \<and>
          p = V4Net (trunc4 ops a (leading_ones m)) (leading_ones m))"

lemma find_SomeD: "List.find P xs = Some x \<Longrightarrow> x \<in> set xs \<and> P x"
  by (induction xs) (auto split: if_splits)

definition list_of_option :: "'a option \<Rightarrow> 'a list" where
  "list_of_option x = (case x of Some y \<Rightarrow> [y] | None \<Rightarrow> [])"

lemma list_of_option_simps [simp]: "list_of_option None = []" "list_of_option (Some y) = [y]"
  by (simp_all add: list_of_option_def)

lemma set_list_of_option [simp]: "y \<in> set (list_of_option x) \<longleftrightarrow> x = Some y"
  by (cases x) auto

lemma unit_candidate:
  assumes "c \<in> set (candidates_in_unit ops parse u)"
  shows "pc_semantics c = unit_semantics (unit_words u) \<and> written_in ops parse u (pc_prefix c)"
proof -
  let ?t = "unescape_hex u"
  have mask: "pc_semantics c = s \<and> written_in ops parse u (pc_prefix c)"
    if am: "address_and_mask ops ?t s = Some c" "has_label (unit_words u) MASK_LABELS" for s
  proof -
    obtain m a where m: "List.find is_contiguous_mask (List.map_filter ipv4_from_str (tokens ?t)) = Some m"
      and a: "List.find (\<lambda>a. \<not> is_contiguous_mask a) (List.map_filter ipv4_from_str (tokens ?t)) = Some a"
      and c: "pc_semantics c = s" "pc_prefix c = V4Net (trunc4 ops a (leading_ones m)) (leading_ones m)"
      using am(1) by (auto simp: address_and_mask_def Let_def split: option.splits)
    from m a am(2) have "written_in ops parse u (V4Net (trunc4 ops a (leading_ones m)) (leading_ones m))"
      unfolding written_in_def by blast
    with c show ?thesis by simp
  qed
  have token: "pc_semantics c = s \<and> written_in ops parse u (pc_prefix c)"
    if am: "token_candidate ops parse s ?t tok = Some c" "tok \<in> set (tokens ?t)" for s tok
  proof -
    obtain net where "str_contains tok ''/''" "parse tok = Some net" "\<not> host_route net" "pc_semantics c = s"
      "pc_prefix c = net_trunc ops net"
      using am(1) by (auto simp: token_candidate_def split: if_splits option.splits)
    with am(2) show ?thesis unfolding written_in_def by blast
  qed
  let ?s = "unit_semantics (unit_words u)"
  have "candidates_in_unit ops parse u = List.map_filter (token_candidate ops parse ?s ?t) (tokens ?t) @
      (if has_label (unit_words u) MASK_LABELS then list_of_option (address_and_mask ops ?t ?s) else [])"
    unfolding candidates_in_unit_def Let_def unit_words_def by (cases "address_and_mask ops ?t ?s")
      (simp_all only: unit_words_def list_of_option_simps option.case)
  then have "c \<in> set (List.map_filter (token_candidate ops parse ?s ?t) (tokens ?t)) \<or>
      has_label (unit_words u) MASK_LABELS \<and> address_and_mask ops ?t ?s = Some c"
    using assms by (simp split: if_splits)
  then show ?thesis using token mask unfolding set_map_filter by blast
qed

lemma unit_semantics_labels:
  "establishes_network (unit_semantics (unit_words u)) \<Longrightarrow> \<not> is_illustrative u \<Longrightarrow>
     labels_prefix u (unit_semantics (unit_words u))"
  by (auto simp: unit_semantics_def Let_def labels_prefix_def split: if_splits)

lemma set_push_unique: "set (push_unique c cs) \<subseteq> insert c (set cs)"
  by (induction cs) auto

lemma prefix_candidate_unit:
  assumes "c \<in> set (prefix_candidates ops parse body)"
  shows "\<exists>u \<in> set (structured_units (strip_non_content body)). \<not> is_illustrative u \<and>
     c \<in> set (candidates_in_unit ops parse u)"
proof -
  have "set (fold push_unique xs cs) \<subseteq> set xs \<union> set cs" for xs cs
    by (induction xs arbitrary: cs) (auto dest!: subsetD [OF set_push_unique])
  from subsetD [OF this assms [unfolded prefix_candidates_def]] show ?thesis by auto
qed

text \<open>The bodies a device served during an interrogation of one of its ports.\<close>

definition served :: "http_env \<Rightarrow> endpoint \<Rightarrow> u16 \<Rightarrow> string \<Rightarrow> bool" where
  "served env target port body \<longleftrightarrow>
     (\<exists>path events headers. he_web env (endpoint_socket_addr target port) (http_request target path) = Some events \<and>
        split_once_str [CHR 0x0D, CHR 0x0A, CHR 0x0D, CHR 0x0A] (text_of (read_up_to 8192 events)) =
          Some (headers, body))"

definition page_states :: "http_env \<Rightarrow> endpoint \<Rightarrow> u16 \<Rightarrow> prefix_candidate \<Rightarrow> bool" where
  "page_states env target port c \<longleftrightarrow>
     (\<exists>body. served env target port body \<and>
        (\<exists>u \<in> set (structured_units (strip_non_content body)).
           labels_prefix u (pc_semantics c) \<and> written_in (he_ops env) (he_parse env) u (pc_prefix c)))"

lemma header_prefixes [simp]: "hi_prefixes (fold http_header ls h) = hi_prefixes h"
proof (induction ls arbitrary: h)
  case (Cons l ls)
  have "hi_prefixes (http_header l h) = hi_prefixes h"
    by (simp add: http_header_def Let_def split: option.split prod.split)
  with Cons show ?case by simp
qed simp

lemma probed_prefixes:
  assumes "probe_http_path env target port path = Some h" and "c \<in> set (hi_prefixes h)"
    and "establishes_network (pc_semantics c)"
  shows "page_states env target port c"
proof -
  obtain events where web: "he_web env (endpoint_socket_addr target port) (http_request target path) = Some events"
    and parse: "parse_http_identity (he_ops env) (he_parse env) (text_of (read_up_to 8192 events)) = Some h"
    using assms(1) by (auto simp: probe_http_path_def Let_def split: if_splits option.splits)
  obtain headers body where body:
    "split_once_str [CHR 0x0D, CHR 0x0A, CHR 0x0D, CHR 0x0A] (text_of (read_up_to 8192 events)) = Some (headers, body)"
    "c \<in> set (prefix_candidates (he_ops env) (he_parse env) body)"
    using parse assms(2)
    by (auto simp: parse_http_identity_def Let_def split: if_splits list.splits option.splits)
  from prefix_candidate_unit [OF body(2)] obtain u where u: "u \<in> set (structured_units (strip_non_content body))"
    "\<not> is_illustrative u" "c \<in> set (candidates_in_unit (he_ops env) (he_parse env) u)" by blast
  from unit_candidate [OF u(3)] unit_semantics_labels [OF _ u(2)] assms(3)
  have "labels_prefix u (pc_semantics c)" "written_in (he_ops env) (he_parse env) u (pc_prefix c)" by simp_all
  with web body(1) u(1) show ?thesis unfolding page_states_def served_def by blast
qed

lemma followed_prefixes:
  assumes "follow_redirects n env target port path identity chain = (final, rest)"
    and "\<And>c. c \<in> set (hi_prefixes identity) \<Longrightarrow> establishes_network (pc_semantics c) \<Longrightarrow> page_states env target port c"
    and "c \<in> set (hi_prefixes final)" and "establishes_network (pc_semantics c)"
  shows "page_states env target port c"
  using assms
proof (induction n env target port path identity chain rule: follow_redirects.induct)
  case (2 n env target port path identity chain)
  show ?case
  proof (cases "final = identity")
    case False
    then obtain location next_path followed where step:
      "hi_redirect_target identity = Some location" "same_origin_path location target port = Inr next_path"
      "next_path \<noteq> path" "probe_http_path env target port next_path = Some followed"
      "follow_redirects n env target port next_path followed (chain @ [next_path]) = (final, rest)"
      using 2(2) by (auto split: option.splits sum.splits if_splits)
    show ?thesis by (rule 2(1) [OF step(1,2,3,4,5)]) (use probed_prefixes [OF step(4)] 2(4,5) in auto)
  qed (use 2 in simp)
qed simp

lemma identified_prefixes:
  assumes "http_identify env target port = Some h" and "c \<in> set (hi_prefixes h)"
    and "establishes_network (pc_semantics c)"
  shows "page_states env target port c"
proof -
  obtain start where start: "probe_http_path env target port ''/'' = Some start"
    using assms(1) by (auto simp: http_identify_def)
  obtain final chain declined where follow:
    "follow_redirects MAX_REDIRECTS env target port ''/'' start [] = (final, chain, declined)"
    using prod_cases3 by blast
  have "c \<in> set (hi_prefixes final)" using assms(1,2) start follow by (auto simp: http_identify_def)
  then show ?thesis using followed_prefixes [OF follow] probed_prefixes [OF start] assms(3) by blast
qed

lemma audited_prefixes:
  assumes "c \<in> set (ma_candidates (management_audit env target port root))"
    and "establishes_network (pc_semantics c)"
  shows "page_states env target port c"
proof -
  obtain queue attempted where q: "audit_queue target port root = (queue, attempted)" by fastforce
  have "c \<in> (\<Union>p \<in> set queue. set (case probe_http_path env target port p of Some h \<Rightarrow> hi_prefixes h | None \<Rightarrow> []))"
    using assms(1)
    by (auto simp: management_audit_def audit_run_def q ask_paths_is Let_def dest: in_set_takeD)
  then obtain p h where "probe_http_path env target port p = Some h" "c \<in> set (hi_prefixes h)"
    by (auto split: option.splits dest: sym)
  then show ?thesis using assms(2) by (rule probed_prefixes)
qed

text \<open>A world whose HTTP client and audit are those of this theory.\<close>

definition http_world :: "http_env \<Rightarrow> probe_world \<Rightarrow> probe_world" where
  "http_world env w = w\<lparr>pw_http := http_identify env, pw_audit := management_audit env\<rparr>"

lemma offered_states:
  "c \<in> offered (http_world env w) target tier port \<Longrightarrow> establishes_network (pc_semantics c) \<Longrightarrow>
     page_states env target port c"
  using identified_prefixes audited_prefixes
  by (auto simp: offered_def http_world_def split: option.splits if_splits)

text \<open>
  C13: a network is taken from a web page only where the page labels it. Take an interrogation whose HTTP
  client and audit are those of the program, against any servers whatever. If it reports a network, that
  the device is attached to one or routes to one, or any other statement about the network that vendor
  adapters are barred from, then a reachable route of the device's RIP table or an AI service said so, or
  there is a page the device served, and in its visible content one
  unit (a table row, an object or a line) that labels what it holds as an address of the device or as a
  routing destination, does not illustrate a format and does not speak of filtering traffic; the prefix
  is a literal with a prefix length in that unit, or the unit has a label of a mask and the prefix is its
  first address under its first mask. A prefix on a VLAN is not among these statements: adapters may make it.
\<close>

theorem web_network_was_labelled:
  assumes "e \<in> set (fst (interrogate_device (http_world env w) ctx t))"
    and "\<not> adapter_may_assert (fst e)"
  shows "\<exists>primary others. it_endpoints t = primary # others \<and>
     ((\<exists>a table. ep_address primary = V4 a \<and> pw_rip w a = Some table \<and>
         (\<exists>r \<in> set (rt_routes table). advertised_route (it_device t) r e)) \<or>
      (\<exists>port c. port \<in> set HTTP_PORTS \<and> labelled (it_device t) c e \<and> page_states env primary port c) \<or>
      e \<in> set (pw_ai w primary (it_device t) (answering_ports w ctx t primary)))"
proof -
  let ?w = "http_world env w"
  obtain primary others where ends: "it_endpoints t = primary # others"
    using assms(1) by (cases "it_endpoints t") (simp_all add: interrogate_device_def)
  have establishes: "establishes_network (pc_semantics c)" if "labelled (it_device t) c e" for c
    using that by (cases e) auto
  have ports: "answering_ports ?w ctx t primary = answering_ports w ctx t primary"
    by (simp add: answering_ports_def interrogate_primary_def http_world_def)
  have "stated_by_device ?w ctx t primary e"
    using interrogation_accounted [OF ends, of ?w ctx] assms
    by (auto simp: accounted_def list_all_iff)
  then consider
      (rip) "\<exists>a table. ep_address primary = V4 a \<and> pw_rip w a = Some table \<and>
         (\<exists>r \<in> set (rt_routes table). advertised_route (it_device t) r e)"
    | (page) port c where "port \<in> set HTTP_PORTS" "c \<in> offered ?w primary (it_tier t) port" "labelled (it_device t) c e"
    | (ai) "e \<in> set (pw_ai w primary (it_device t) (answering_ports w ctx t primary))"
    unfolding stated_by_device_def ports by (auto simp: http_world_def)
  then show ?thesis
  proof cases
    case page
    with offered_states [OF page(2) establishes [OF page(3)]] ends show ?thesis by blast
  qed (use ends in blast)+
qed

section \<open>Pages that serve as examples\<close>

text \<open>A reader of IPv4 prefixes that stands for the parser of the \<open>ipnet\<close> crate.\<close>

definition read_v4net :: "string \<Rightarrow> ip_net option" where
  "read_v4net s =
     (case split_once (CHR ''/'') s of
        None \<Rightarrow> None
      | Some (a, n) \<Rightarrow>
          (case (ipv4_from_str a, u16_from_str n) of
             (Some w, Some k) \<Rightarrow> if k \<le> 32 then Some (V4Net w (unat k)) else None
           | _ \<Rightarrow> None))"

definition ascii_bytes :: "string \<Rightarrow> bytes" where
  "ascii_bytes s = map (\<lambda>c. word_of_nat (char_code c)) s"

text \<open>A device that answers on port 80 of 10.0.0.1 with one page, whatever the path.\<close>

definition page_addr :: socket_addr where
  "page_addr = SockV4 0x0A000001 80"

definition page_response :: "string \<Rightarrow> string" where
  "page_response body = ''HTTP/1.1 200 OK'' @ crlf @ crlf @ body"

definition page_env :: "string \<Rightarrow> http_env" where
  "page_env body =
     \<lparr>he_sockets = (\<lambda>_ _. None), he_binding = binding_unbound,
      he_web = (\<lambda>addr _. if addr = page_addr then Some [Piece (ascii_bytes (page_response body))] else None),
      he_ops = ipnet_model, he_parse = read_v4net\<rparr>"

definition lan_line :: string where
  "lan_line = ''LAN IP 10.9.0.0/16''"

definition lan_identity :: http_identity where
  "lan_identity =
     \<lparr>hi_status = 200, hi_server = None, hi_authenticate = None, hi_title = None,
      hi_prefixes = [\<lparr>pc_prefix = V4Net 0x0A090000 16, pc_semantics = prefix_semantics.InterfaceAddress,
        pc_context = lan_line, pc_source_text = ''10.9.0.0/16''\<rparr>],
      hi_redirect_target = None, hi_redirect_chain = [],
      hi_body_fingerprint = Some (normalised_body_fingerprint lan_line), hi_links = [],
      hi_redirect_declined = None\<rparr>"

definition web_world :: probe_world where
  "web_world = quiet_world\<lparr>pw_sockets := (\<lambda>addr _. if addr = page_addr then None
     else Some (IoError ConnectionRefused []))\<rparr>"

text \<open>What the steps of the client make of that page.\<close>

lemma lan_unit:
  "structured_units (strip_non_content lan_line) = [lan_line]"
  "\<not> is_illustrative lan_line"
  "unescape_hex lan_line = lan_line"
  "split_whitespace (label_form lan_line) = [''lan'', ''ip'', ''10'', ''9'', ''0'', ''0'', ''16'']"
  by code_simp+

lemma lan_meaning:
  "unit_semantics [''lan'', ''ip'', ''10'', ''9'', ''0'', ''0'', ''16''] = prefix_semantics.InterfaceAddress"
  by code_simp

lemma lan_candidates:
  "\<not> has_label [''lan'', ''ip'', ''10'', ''9'', ''0'', ''0'', ''16''] MASK_LABELS"
  "List.map_filter (token_candidate ipnet_model read_v4net prefix_semantics.InterfaceAddress lan_line)
     (tokens lan_line) = hi_prefixes lan_identity"
  by code_simp+

lemma lan_response:
  "split_once_str [CHR 0x0D, CHR 0x0A, CHR 0x0D, CHR 0x0A] (page_response lan_line) =
     Some (''HTTP/1.1 200 OK'', lan_line)"
  "split_lines (page_response lan_line) = [''HTTP/1.1 200 OK'', [], lan_line]"
  "split_whitespace ''HTTP/1.1 200 OK'' = [''HTTP/1.1'', ''200'', ''OK'']"
  "u16_from_str ''200'' = Some 200"
  "document_links lan_line = []"
  "extract_title (page_response lan_line) = None"
  "text_of (ascii_bytes (page_response lan_line)) = page_response lan_line"
  by code_simp+

lemma lan_parsed: "parse_http_identity ipnet_model read_v4net (page_response lan_line) = Some lan_identity"
proof -
  have "prefix_candidates ipnet_model read_v4net lan_line = fold push_unique (hi_prefixes lan_identity) []"
    by (simp add: prefix_candidates_def candidates_in_unit_def Let_def lan_unit lan_meaning lan_candidates)
  then have "prefix_candidates ipnet_model read_v4net lan_line = hi_prefixes lan_identity"
    by (simp add: lan_identity_def)
  then show ?thesis
    by (simp add: parse_http_identity_def lan_response identity_default_def) (simp add: lan_identity_def)
qed

lemma lan_page:
  "probe_http_path (page_env lan_line) t p path =
     (if endpoint_socket_addr t p = page_addr then Some lan_identity else None)"
proof (cases "endpoint_socket_addr t p = page_addr")
  case True
  moreover have "length (ascii_bytes (page_response lan_line)) \<le> 8192" "ascii_bytes (page_response lan_line) \<noteq> []"
    by (simp_all add: ascii_bytes_def page_response_def lan_line_def crlf_def)
  moreover have "snd (tcp_connect (\<lambda>_. None) binding_unbound page_addr) = None" by code_simp
  ultimately show ?thesis by (simp add: probe_http_path_def page_env_def lan_response lan_parsed)
qed (simp add: probe_http_path_def page_env_def Let_def)

lemma lan_identified:
  "http_identify (page_env lan_line) =
     (\<lambda>t p. if endpoint_socket_addr t p = page_addr then Some lan_identity else None)"
  by (simp add: fun_eq_iff http_identify_def lan_page MAX_REDIRECTS_def numeral_3_eq_3 lan_identity_def)

lemma lan_reported:
  "list_ex (\<lambda>e. fst e = fact.Network (V4Net 0x0A090000 16))
     (fst (interrogate_device (http_world (page_env lan_line) web_world) a_context a_gateway))"
  unfolding http_world_def lan_identified by code_simp

theorem web_network_was_labelled_witness:
  "\<exists>e. e \<in> set (fst (interrogate_device (http_world (page_env lan_line) web_world) a_context a_gateway)) \<and>
     fst e = fact.Network (V4Net 0x0A090000 16) \<and>
     (\<exists>port c. port \<in> set HTTP_PORTS \<and> labelled (it_device a_gateway) c e \<and>
        page_states (page_env lan_line) (endpoint_global (V4 0x0A000001)) port c)"
proof -
  obtain e where e: "e \<in> set (fst (interrogate_device (http_world (page_env lan_line) web_world) a_context a_gateway))"
    "fst e = fact.Network (V4Net 0x0A090000 16)"
    using lan_reported unfolding list_ex_iff by blast
  have ends: "it_endpoints a_gateway = [endpoint_global (V4 0x0A000001)]" by (simp add: a_gateway_def)
  have quiet: "pw_rip web_world a = None" "pw_ai web_world p k ps = []" for a p k ps
    by (simp_all add: web_world_def quiet_world_def)
  have "\<exists>port c. port \<in> set HTTP_PORTS \<and> labelled (it_device a_gateway) c e \<and>
      page_states (page_env lan_line) (endpoint_global (V4 0x0A000001)) port c"
    using web_network_was_labelled [OF e(1)] e(2) ends quiet by auto
  with e show ?thesis by blast
qed

text \<open>
  A page that publishes a document, an action and a link with a query.
\<close>

definition linked_root :: http_identity where
  "linked_root = identity_default\<lparr>hi_status := 200, hi_links := [''/lan.xml'', ''/reboot'', ''/info?x=1'']\<rparr>"

lemma ascii_well_formed: "list_all (\<lambda>c. char_code c < 128) s \<Longrightarrow> well_formed s"
proof -
  have "utf8_decode_nat as = as" if "list_all (\<lambda>a. a < 128) as" for as using that by (induction as) auto
  moreover assume "list_all (\<lambda>c. char_code c < 128) s"
  ultimately show ?thesis by (auto simp: well_formed_def utf8_decode_def list_all_iff scalar_def)
qed

theorem audit_is_bounded_and_harmless_witness:
  "list_all well_formed (hi_links linked_root) \<and>
   length (fst (audit_run (page_env lan_line) (endpoint_global (V4 0x0A000001)) 80 linked_root)) \<le> 12 \<and>
   list_all harmless (fst (audit_run (page_env lan_line) (endpoint_global (V4 0x0A000001)) 80 linked_root))"
proof -
  have wf: "list_all well_formed (hi_links linked_root)"
    by (simp add: linked_root_def) (intro conjI ascii_well_formed; code_simp)
  show ?thesis
    using wf audit_is_bounded_and_harmless [OF wf, of "page_env lan_line" "endpoint_global (V4 0x0A000001)" 80]
    by (simp add: case_prod_unfold Let_def)
qed

section \<open>Where the code and its comments part\<close>

text \<open>An authority with credentials is accepted, and the path behind it is asked for.\<close>

lemma credentials_are_accepted:
  "admissible ''http://u:p@10.0.0.1/status'' (endpoint_global (V4 0x0A000001)) 80 = Inr ''/status''"
  by code_simp

text \<open>
  A line end inside a link is neither refused nor encoded: it ends the request line, so that a page can
  write the request that follows.
\<close>

lemma link_writes_a_request:
  "admissible (''/lan HTTP/1.1'' @ crlf @ crlf @ ''POST /b'') (endpoint_global (V4 0x0A000001)) 80 =
     Inr (''/lan HTTP/1.1'' @ crlf @ crlf @ ''POST /b'')"
  by code_simp

text \<open>The markers of an illustration are found inside other words.\<close>

lemma route_gateway_is_illustrative: "is_illustrative ''route gateway 10.1.0.0/16''"
  by code_simp

lemma information_is_illustrative: "is_illustrative ''LAN information''"
  by code_simp

text \<open>A mask is paired with the first address of its unit, whichever address that is.\<close>

lemma mask_taken_with_gateway:
  "map_option pc_prefix (address_and_mask ipnet_model
     ''Gateway 192.168.70.2 Destination 10.9.0.0 Netmask 255.255.0.0'' RouteDestination) =
   Some (V4Net 0xC0A80000 16)"
  by code_simp

lemma host_mask_gives_network:
  "map_option pc_prefix (address_and_mask ipnet_model
     ''Destination 10.9.0.1 Netmask 255.255.255.255'' RouteDestination) = Some (V4Net 0x0A090001 32)"
  by code_simp

end
