(* ===== verification/Clients.thy ===== *)
theory Clients
  imports Http Snmp_Ber
begin

text \<open>
  The clients that ask one device to identify itself: NAT-PMP (\<open>src/src/probes/natpmp.rs\<close>), DNS
  (\<open>src/src/probes/dns.rs\<close>) and the telnet greeting (\<open>src/src/probes/telnet.rs\<close>). What the
  network answers is an argument: the datagram that arrives after a request, and the pieces that arrive
  on a connection. Proved are the round trips: what a resolver publishes in a TXT record and what a
  telnet server says between its negotiations is what is read, whatever stands around it.
\<close>

section \<open>What arrives\<close>

text \<open>
  \<open>ce_udp\<close> is the first datagram, with its sender, that arrives on the socket a datagram was sent
  from, none when sending failed or nothing came in time. \<open>ce_tcp\<close> is what arrives on a connection
  after the given bytes were written, none when writing failed. \<open>ce_greeting\<close> is what arrives on a
  connection nothing is written to; each read comes with whether the deadline had passed when the
  loop came to it.
\<close>

record client_env =
  ce_sockets :: sockets
  ce_binding :: socket_binding
  ce_udp :: "socket_addr \<Rightarrow> bytes \<Rightarrow> (bytes \<times> socket_addr) option"
  ce_tcp :: "socket_addr \<Rightarrow> bytes \<Rightarrow> read_event list option"
  ce_greeting :: "socket_addr \<Rightarrow> (bool \<times> read_event) list"

definition ask_udp :: "client_env \<Rightarrow> socket_addr \<Rightarrow> bytes \<Rightarrow> nat \<Rightarrow> (bytes \<times> socket_addr) option" where
  "ask_udp env destination request room =
     (if snd (udp_socket (ce_sockets env destination) (ce_binding env) destination) \<noteq> None then None
      else map_option (\<lambda>(data, sender). (take room data, sender)) (ce_udp env destination request))"

definition ask_tcp :: "client_env \<Rightarrow> socket_addr \<Rightarrow> bytes \<Rightarrow> read_event list option" where
  "ask_tcp env destination request =
     (if snd (tcp_connect (ce_sockets env destination) (ce_binding env) destination) \<noteq> None then None
      else ce_tcp env destination request)"

text \<open>\<open>read_exact\<close>: so many bytes, and what is left to read.\<close>

fun read_exact :: "nat \<Rightarrow> read_event list \<Rightarrow> (bytes \<times> read_event list) option" where
  "read_exact n [] = (if n = 0 then Some ([], []) else None)"
| "read_exact n (e # es) =
     (if n = 0 then Some ([], e # es)
      else case e of
             ReadFailed \<Rightarrow> None
           | Piece bs \<Rightarrow>
               if bs = [] then None
               else if n \<le> length bs
               then Some (take n bs, if n = length bs then es else Piece (drop n bs) # es)
               else map_option (\<lambda>(got, rest). (bs @ got, rest)) (read_exact (n - length bs) es))"

section \<open>NAT-PMP\<close>

record nat_pmp_response =
  np_result_code :: u16
  np_external_address :: "32 word option"

definition external_address_request :: bytes where
  "external_address_request = [0, 0]"

definition parse_external_address_response :: "bytes \<Rightarrow> nat_pmp_response option" where
  "parse_external_address_response data =
     (if length data < 12 then None
      else if data ! 0 \<noteq> 0 then None
      else if data ! 1 \<noteq> 128 then None
      else let result_code = push_bit 8 (ucast (data ! 2)) OR ucast (data ! 3); addr = u32_at data 8
           in Some \<lparr>np_result_code = result_code,
                    np_external_address = (if result_code = 0 \<and> addr \<noteq> 0 then Some addr else None)\<rparr>)"

definition probe_nat_gateway :: "client_env \<Rightarrow> 32 word \<Rightarrow> 32 word option option" where
  "probe_nat_gateway env target =
     (case ask_udp env (SockV4 target NAT_PMP_PORT) external_address_request 64 of
        None \<Rightarrow> None
      | Some (data, sender) \<Rightarrow>
          if sock_ip sender = V4 target
          then map_option np_external_address (parse_external_address_response data) else None)"

section \<open>DNS\<close>

definition string_bytes :: "string \<Rightarrow> bytes" where
  "string_bytes s = map (\<lambda>c. word_of_nat (char_code c)) s"

definition dns_label :: "string \<Rightarrow> bytes" where
  "dns_label label =
     (if label = [] \<or> 63 < length label then []
      else word_of_nat (length label) # string_bytes label)"

definition chaos_txt_query :: "u16 \<Rightarrow> string \<Rightarrow> bytes" where
  "chaos_txt_query transaction_id name =
     u16_bytes transaction_id @ [1, 0] @ [0, 1, 0, 0, 0, 0, 0, 0] @
     concat (map dns_label (split_on (CHR ''.'') name)) @ [0] @ [0, 0x10, 0, 3]"

definition version_bind_query :: "u16 \<Rightarrow> bytes" where
  "version_bind_query transaction_id = chaos_txt_query transaction_id ''version.bind''"

function skip_name :: "bytes \<Rightarrow> nat \<Rightarrow> nat option" where
  "skip_name data cursor =
     (if length data \<le> cursor then None
      else if data ! cursor = 0 then Some (cursor + 1)
      else if data ! cursor AND 0xC0 = 0xC0 then Some (cursor + 2)
      else skip_name data (cursor + (1 + unat (data ! cursor))))"
  by pat_completeness auto
termination by (relation "measure (\<lambda>(data, cursor). length data - cursor)") auto

declare skip_name.simps [simp del]

fun skip_questions :: "bytes \<Rightarrow> nat \<Rightarrow> nat \<Rightarrow> nat option" where
  "skip_questions data 0 cursor = Some cursor"
| "skip_questions data (Suc n) cursor =
     (case skip_name data cursor of None \<Rightarrow> None | Some after \<Rightarrow> skip_questions data n (after + 4))"

text \<open>The text of TXT data: its first string, when it is text and not blank.\<close>

definition txt_text :: "bytes \<Rightarrow> string option" where
  "txt_text rdata =
     (case rdata of
        [] \<Rightarrow> None
      | n # rest \<Rightarrow>
          if length rest < unat n then None
          else case from_utf8 (take (unat n) rest) of
                 None \<Rightarrow> None
               | Some text \<Rightarrow> if trim_text text = [] then None else Some (trim_text text))"

fun find_txt :: "bytes \<Rightarrow> nat \<Rightarrow> nat \<Rightarrow> string option" where
  "find_txt data 0 cursor = None"
| "find_txt data (Suc n) cursor =
     (case skip_name data cursor of
        None \<Rightarrow> None
      | Some at \<Rightarrow>
          if length data < at + 10 then None
          else let record_type = u16_at data at; len = unat (u16_at data (at + 8)); start = at + 10
               in if length data < start + len then None
                  else let text = (if record_type = 16 then txt_text (take len (drop start data)) else None)
                       in if text \<noteq> None then text else find_txt data n (start + len))"

definition extract_txt_answer :: "bytes \<Rightarrow> u16 \<Rightarrow> u16 \<Rightarrow> string option" where
  "extract_txt_answer data question_count answer_count =
     (if answer_count = 0 then None
      else case skip_questions data (unat question_count) 12 of
             None \<Rightarrow> None
           | Some cursor \<Rightarrow> find_txt data (unat answer_count) cursor)"

definition parse_dns_response :: "bytes \<Rightarrow> u16 \<Rightarrow> dns_identity option" where
  "parse_dns_response data transaction_id =
     (if length data < 12 then None
      else if u16_at data 0 \<noteq> transaction_id then None
      else if data ! 2 AND 0x80 = 0 then None
      else Some \<lparr>di_response_code = data ! 3 AND 0x0F,
                 di_version = extract_txt_answer data (u16_at data 4) (u16_at data 6),
                 di_transport = Udp\<rparr>)"

fun address_octets :: "ip_addr \<Rightarrow> bytes" where
  "address_octets (V4 a) = be_bytes 4 a"
| "address_octets (V6 a) = be_bytes 16 a"

definition transaction_id_for :: "endpoint \<Rightarrow> u16" where
  "transaction_id_for target =
     max 1 (fold (\<lambda>byte tid. word_rotl 3 tid XOR ucast byte) (address_octets (ep_address target)) 0x1D)"

definition confirm_over_udp :: "client_env \<Rightarrow> endpoint \<Rightarrow> bytes \<Rightarrow> u16 \<Rightarrow> dns_identity option" where
  "confirm_over_udp env target query transaction_id =
     (case ask_udp env (endpoint_socket_addr target 53) query 1500 of
        None \<Rightarrow> None
      | Some (data, sender) \<Rightarrow>
          if sock_ip sender \<noteq> ep_address target then None else parse_dns_response data transaction_id)"

definition confirm_over_tcp :: "client_env \<Rightarrow> endpoint \<Rightarrow> bytes \<Rightarrow> u16 \<Rightarrow> dns_identity option" where
  "confirm_over_tcp env target query transaction_id =
     (case ask_tcp env (endpoint_socket_addr target 53) (u16_bytes (word_of_nat (length query)) @ query) of
        None \<Rightarrow> None
      | Some events \<Rightarrow>
          (case read_exact 2 events of
             None \<Rightarrow> None
           | Some (header, rest) \<Rightarrow>
               let declared = unat (u16_at header 0)
               in if declared = 0 \<or> 4096 < declared then None
                  else case read_exact declared rest of
                         None \<Rightarrow> None
                       | Some (body, _) \<Rightarrow> parse_dns_response body transaction_id))"

definition confirm_dns_udp :: "client_env \<Rightarrow> endpoint \<Rightarrow> dns_identity option" where
  "confirm_dns_udp env target =
     (let transaction_id = transaction_id_for target
      in map_option (di_transport_update (\<lambda>_. Udp))
           (confirm_over_udp env target (version_bind_query transaction_id) transaction_id))"

definition confirm_dns_tcp :: "client_env \<Rightarrow> endpoint \<Rightarrow> dns_identity option" where
  "confirm_dns_tcp env target =
     (let transaction_id = transaction_id_for target
      in map_option (di_transport_update (\<lambda>_. Tcp))
           (confirm_over_tcp env target (version_bind_query transaction_id) transaction_id))"

definition confirm_dns_either :: "client_env \<Rightarrow> endpoint \<Rightarrow> dns_identity option" where
  "confirm_dns_either env target =
     (let transaction_id = transaction_id_for target; query = version_bind_query transaction_id
      in case confirm_over_udp env target query transaction_id of
           Some identity \<Rightarrow> Some (identity\<lparr>di_transport := Udp\<rparr>)
         | None \<Rightarrow> map_option (di_transport_update (\<lambda>_. Tcp)) (confirm_over_tcp env target query transaction_id))"

definition dns_identify :: "client_env \<Rightarrow> endpoint \<Rightarrow> string \<Rightarrow> string option" where
  "dns_identify env target name =
     (let transaction_id = transaction_id_for target; query = chaos_txt_query transaction_id name
      in case (case confirm_over_udp env target query transaction_id of
                 Some identity \<Rightarrow> Some identity
               | None \<Rightarrow> confirm_over_tcp env target query transaction_id) of
           None \<Rightarrow> None
         | Some identity \<Rightarrow> di_version identity)"

section \<open>Telnet\<close>

abbreviation IAC :: u8 where "IAC \<equiv> 255"
abbreviation WILL :: u8 where "WILL \<equiv> 251"
abbreviation DONT :: u8 where "DONT \<equiv> 254"
abbreviation SB :: u8 where "SB \<equiv> 250"
abbreviation SE :: u8 where "SE \<equiv> 240"

text \<open>What follows a subnegotiation: nothing when it does not end.\<close>

fun after_subnegotiation :: "bytes \<Rightarrow> bytes" where
  "after_subnegotiation (a # b # rest) =
     (if a = IAC \<and> b = SE then rest else after_subnegotiation (b # rest))"
| "after_subnegotiation _ = []"

lemma after_subnegotiation_shorter: "length (after_subnegotiation bs) \<le> length bs"
  by (induction bs rule: after_subnegotiation.induct) auto

text \<open>The text of a greeting, and whether the server negotiated.\<close>

function greeting_text :: "bytes \<Rightarrow> bytes \<times> bool" where
  "greeting_text [] = ([], False)"
| "greeting_text (b # rest) =
     (if b \<noteq> IAC then (let (text, negotiated) = greeting_text rest in (b # text, negotiated))
      else case rest of
             [] \<Rightarrow> ([], True)
           | command # rest2 \<Rightarrow>
               if command = IAC then (IAC # fst (greeting_text rest2), True)
               else if command = SB then (fst (greeting_text (after_subnegotiation rest2)), True)
               else if WILL \<le> command \<and> command \<le> DONT then (fst (greeting_text (drop 1 rest2)), True)
               else (fst (greeting_text rest2), True))"
  by pat_completeness auto
termination
  by (relation "measure length") (auto intro: le_imp_less_Suc le_SucI after_subnegotiation_shorter)

text \<open>\<open>str::lines\<close>, on scalar values.\<close>

fun str_lines :: "chars \<Rightarrow> chars list" where
  "str_lines [] = []"
| "str_lines (c # cs) =
     (if c = 10 then [] # str_lines cs
      else if c = 13 \<and> (case cs of [] \<Rightarrow> False | d # _ \<Rightarrow> d = 10) then str_lines cs
      else case cs of
             [] \<Rightarrow> [[c]]
           | d # _ \<Rightarrow>
               (case str_lines cs of [] \<Rightarrow> [[c]] | line # ls \<Rightarrow> (c # line) # ls))"

definition greeting_lines :: "bytes \<Rightarrow> string list" where
  "greeting_lines text =
     filter (\<lambda>line. line \<noteq> [])
       (map (\<lambda>line. utf8_encode (sanitize (trim line))) (str_lines (from_utf8_lossy (map unat text))))"

definition parse_banner :: "bytes \<Rightarrow> telnet_banner" where
  "parse_banner data =
     (let (text, negotiated) = greeting_text data
      in \<lparr>tb_lines = greeting_lines text, tb_negotiated = negotiated, tb_raw = data\<rparr>)"

text \<open>The reads of a greeting; none when the deadline has passed as the loop comes round.\<close>

fun read_greeting :: "nat \<Rightarrow> (bool \<times> read_event) list \<Rightarrow> bytes option" where
  "read_greeting room [] = Some []"
| "read_greeting room ((late, e) # es) =
     (if room = 0 then Some []
      else if late then None
      else case e of
             ReadFailed \<Rightarrow> Some []
           | Piece bs \<Rightarrow>
               if bs = [] then Some []
               else let got = take room bs in map_option ((@) got) (read_greeting (room - length got) es))"

definition read_banner :: "client_env \<Rightarrow> endpoint \<Rightarrow> u16 \<Rightarrow> telnet_banner option" where
  "read_banner env target port =
     (let addr = endpoint_socket_addr target port
      in if snd (tcp_connect (ce_sockets env addr) (ce_binding env) addr) \<noteq> None then None
         else case read_greeting 2048 (ce_greeting env addr) of
                None \<Rightarrow> None
              | Some got \<Rightarrow> if got = [] then None else Some (parse_banner got))"

section \<open>What a resolver publishes is what is read\<close>

text \<open>
  A message as a resolver writes it: names end with a zero or with a pointer to an earlier name, and
  TXT data is a sequence of counted strings.
\<close>

record dns_name =
  dn_labels :: "bytes list"
  dn_pointer :: "(u8 \<times> u8) option"

definition encode_name :: "dns_name \<Rightarrow> bytes" where
  "encode_name n =
     concat (map (\<lambda>l. word_of_nat (length l) # l) (dn_labels n)) @
     (case dn_pointer n of None \<Rightarrow> [0] | Some (hi, lo) \<Rightarrow> [0xC0 OR hi, lo])"

definition name_ok :: "dns_name \<Rightarrow> bool" where
  "name_ok n = list_all (\<lambda>l. l \<noteq> [] \<and> length l \<le> 63) (dn_labels n)"

datatype dns_data = Txt "bytes list" | OtherData u16 bytes

fun data_type :: "dns_data \<Rightarrow> u16" where
  "data_type (Txt _) = 16"
| "data_type (OtherData t _) = t"

fun encode_data :: "dns_data \<Rightarrow> bytes" where
  "encode_data (Txt ss) = concat (map (\<lambda>s. word_of_nat (length s) # s) ss)"
| "encode_data (OtherData _ bs) = bs"

fun data_ok :: "dns_data \<Rightarrow> bool" where
  "data_ok (Txt ss) = (list_all (\<lambda>s. length s < 256) ss \<and> length (encode_data (Txt ss)) < 65536)"
| "data_ok (OtherData t bs) = (t \<noteq> 16 \<and> length bs < 65536)"

definition encode_record :: "dns_name \<times> u16 \<times> u32 \<times> dns_data \<Rightarrow> bytes" where
  "encode_record r = (case r of (n, cls, ttl, d) \<Rightarrow>
     encode_name n @ u16_bytes (data_type d) @ u16_bytes cls @ u32_bytes ttl @
     u16_bytes (word_of_nat (length (encode_data d))) @ encode_data d)"

definition record_ok :: "dns_name \<times> u16 \<times> u32 \<times> dns_data \<Rightarrow> bool" where
  "record_ok r = (case r of (n, cls, ttl, d) \<Rightarrow> name_ok n \<and> data_ok d)"

definition encode_question :: "dns_name \<times> u16 \<times> u16 \<Rightarrow> bytes" where
  "encode_question q = (case q of (n, type, cls) \<Rightarrow> encode_name n @ u16_bytes type @ u16_bytes cls)"

definition question_ok :: "dns_name \<times> u16 \<times> u16 \<Rightarrow> bool" where
  "question_ok q = name_ok (fst q)"

text \<open>The identifier, the flags, the two counts that are not read, and what follows the answers.\<close>

definition encode_dns_response ::
    "u16 \<Rightarrow> u8 \<times> u8 \<Rightarrow> u32 \<Rightarrow> (dns_name \<times> u16 \<times> u16) list \<Rightarrow> (dns_name \<times> u16 \<times> u32 \<times> dns_data) list \<Rightarrow>
     bytes \<Rightarrow> bytes" where
  "encode_dns_response tid flags other qs rs rest =
     u16_bytes tid @ [fst flags, snd flags] @ u16_bytes (word_of_nat (length qs)) @
     u16_bytes (word_of_nat (length rs)) @ u32_bytes other @
     concat (map encode_question qs) @ concat (map encode_record rs) @ rest"

fun published :: "dns_data \<Rightarrow> string option" where
  "published (Txt (s # _)) =
     (case from_utf8 s of
        None \<Rightarrow> None
      | Some text \<Rightarrow> if trim_text text = [] then None else Some (trim_text text))"
| "published _ = None"

fun first_published :: "(dns_name \<times> u16 \<times> u32 \<times> dns_data) list \<Rightarrow> string option" where
  "first_published [] = None"
| "first_published ((_, _, _, d) # rs) =
     (if published d \<noteq> None then published d else first_published rs)"

lemma label_length:
  assumes "0 < n" and "n \<le> 63"
  shows "(word_of_nat n :: u8) \<noteq> 0" "(word_of_nat n :: u8) AND 0xC0 \<noteq> 0xC0" "unat (word_of_nat n :: u8) = n"
proof -
  show u: "unat (word_of_nat n :: u8) = n" using assms by (simp add: unat_of_nat)
  then show "(word_of_nat n :: u8) \<noteq> 0" using assms(1) by auto
  have "\<not> bit n 7" using assms(2) by (simp add: bit_iff_odd)
  then have "\<not> bit ((word_of_nat n :: u8) AND 0xC0) 7" by (simp add: bit_and_iff bit_of_nat_iff)
  moreover have "bit (0xC0 :: u8) 7" by simp
  ultimately show "(word_of_nat n :: u8) AND 0xC0 \<noteq> 0xC0" by metis
qed

lemma pointer_byte:
  "(0xC0 OR hi :: u8) \<noteq> 0" "(0xC0 OR hi :: u8) AND 0xC0 = 0xC0"
proof -
  show eq: "(0xC0 OR hi :: u8) AND 0xC0 = 0xC0" by (rule bit_word_eqI) (auto simp: bit_simps)
  show "(0xC0 OR hi :: u8) \<noteq> 0"
  proof
    assume "(0xC0 OR hi :: u8) = 0"
    with eq show False unfolding \<open>(0xC0 OR hi :: u8) = 0\<close> by simp
  qed
qed

lemma skip_name_encoded:
  assumes "name_ok n"
  shows "skip_name (pre @ encode_name n @ post) (length pre) = Some (length pre + length (encode_name n))"
proof -
  define final where "final = (case dn_pointer n of None \<Rightarrow> [0] | Some (hi, lo) \<Rightarrow> [0xC0 OR hi, lo])"
  have ends: "skip_name (pre @ final @ post) (length pre) = Some (length pre + length final)" for pre
    unfolding final_def by (subst skip_name.simps) (auto simp: nth_append pointer_byte split: option.split)
  have "skip_name (pre @ concat (map (\<lambda>l. word_of_nat (length l) # l) ls) @ final @ post) (length pre) =
      Some (length pre + length (concat (map (\<lambda>l. (word_of_nat (length l) :: u8) # l) ls)) + length final)"
    if "list_all (\<lambda>l. l \<noteq> [] \<and> length l \<le> 63) ls" for ls
    using that
  proof (induction ls arbitrary: pre)
    case (Cons l ls)
    then have l: "0 < length l" "length l \<le> 63" by simp_all
    have "skip_name (pre @ concat (map (\<lambda>l. word_of_nat (length l) # l) (l # ls)) @ final @ post) (length pre) =
        skip_name ((pre @ word_of_nat (length l) # l) @ concat (map (\<lambda>l. word_of_nat (length l) # l) ls) @ final @ post)
          (length (pre @ word_of_nat (length l) # l))"
      by (subst skip_name.simps) (simp add: nth_append label_length [OF l])
    then show ?case using Cons.IH [of "pre @ word_of_nat (length l) # l"] Cons.prems by simp
  qed (use ends in simp)
  from this [of "dn_labels n"] assms show ?thesis
    by (simp add: name_ok_def encode_name_def final_def)
qed

lemma skip_questions_encoded:
  "list_all question_ok qs \<Longrightarrow>
     skip_questions (pre @ concat (map encode_question qs) @ post) (length qs) (length pre) =
       Some (length pre + length (concat (map encode_question qs)))"
proof (induction qs arbitrary: pre)
  case (Cons q qs)
  obtain n type cls where q: "q = (n, type, cls)" by (cases q)
  then have "name_ok n" using Cons.prems by (simp add: question_ok_def)
  from skip_name_encoded [OF this, of pre "u16_bytes type @ u16_bytes cls @ concat (map encode_question qs) @ post"]
  have "skip_questions (pre @ concat (map encode_question (q # qs)) @ post) (length (q # qs)) (length pre) =
      skip_questions ((pre @ encode_question q) @ concat (map encode_question qs) @ post) (length qs)
        (length (pre @ encode_question q))"
    by (simp add: q encode_question_def ac_simps)
  then show ?case using Cons.IH [of "pre @ encode_question q"] Cons.prems by simp
qed simp

lemma txt_text_encoded: "data_ok d \<Longrightarrow> (if data_type d = 16 then txt_text (encode_data d) else None) = published d"
  by (cases d rule: published.cases) (auto simp: txt_text_def unat_of_nat split: option.splits)

lemma u16_placed: "length pre = i \<Longrightarrow> u16_at (pre @ u16_bytes w @ post) i = w"
  by (auto simp: u16_at_def u16_bytes_def nth_append be16_bytes)

lemma find_txt_encoded:
  "list_all record_ok rs \<Longrightarrow>
     find_txt (pre @ concat (map encode_record rs) @ post) (length rs) (length pre) = first_published rs"
proof (induction rs arbitrary: pre)
  case (Cons r rs)
  obtain n cls ttl d where r: "r = (n, cls, ttl, d)" by (cases r)
  let ?len = "u16_bytes (word_of_nat (length (encode_data d)))"
  let ?tail = "concat (map encode_record rs) @ post"
  let ?data = "pre @ concat (map encode_record (r # rs)) @ post"
  let ?at = "length pre + length (encode_name n)"
  have ok: "name_ok n" "data_ok d" using Cons.prems by (simp_all add: r record_ok_def)
  have fits: "length (encode_data d) < 65536" using ok(2) by (cases d) simp_all
  have data: "?data = (pre @ encode_name n) @ u16_bytes (data_type d) @
      (u16_bytes cls @ u32_bytes ttl @ ?len @ encode_data d @ ?tail)"
    "?data = (pre @ encode_name n @ u16_bytes (data_type d) @ u16_bytes cls @ u32_bytes ttl) @ ?len @
      (encode_data d @ ?tail)"
    "?data = (pre @ encode_name n @ u16_bytes (data_type d) @ u16_bytes cls @ u32_bytes ttl @ ?len) @
      encode_data d @ ?tail"
    "?data = (pre @ encode_record r) @ ?tail"
    by (simp_all add: r encode_record_def)
  have sizes: "length (u16_bytes w) = 2" "length (u32_bytes v) = 4" for w v
    by (simp_all add: u16_bytes_def u32_bytes_def)
  have at: "skip_name ?data (length pre) = Some ?at"
    using skip_name_encoded [OF ok(1), of pre "u16_bytes (data_type d) @ u16_bytes cls @ u32_bytes ttl @ ?len @
      encode_data d @ ?tail"] by (simp add: r encode_record_def)
  have type: "u16_at ?data ?at = data_type d" unfolding data(1) by (rule u16_placed) simp
  have len: "unat (u16_at ?data (?at + 8)) = length (encode_data d)"
    unfolding data(2) by (subst u16_placed) (use fits in \<open>simp_all add: sizes unat_of_nat\<close>)
  have body: "take (length (encode_data d)) (drop (?at + 10) ?data) = encode_data d"
    unfolding data(3) by (simp add: sizes)
  have next_at: "?at + 10 + length (encode_data d) = length (pre @ encode_record r)"
    by (simp add: r encode_record_def sizes)
  have room: "\<not> length ?data < ?at + 10" "\<not> length ?data < ?at + 10 + length (encode_data d)"
    unfolding data(4) next_at [symmetric] by (simp_all add: r encode_record_def sizes)
  have "find_txt ?data (length (r # rs)) (length pre) =
      (if published d \<noteq> None then published d
       else find_txt ?data (length rs) (length (pre @ encode_record r)))"
    unfolding length_Cons find_txt.simps(2) at option.case Let_def len type body next_at
      txt_text_encoded [OF ok(2)] using room(1) room(2) [unfolded next_at] by simp
  also have "find_txt ?data (length rs) (length (pre @ encode_record r)) = first_published rs"
    unfolding data(4) using Cons.IH [of "pre @ encode_record r"] Cons.prems by simp
  finally show ?case by (simp only: r first_published.simps)
qed simp

text \<open>
  C36: what a resolver publishes is what the client reads. Take any response a resolver encodes: any
  questions, and any records with compressed or plain names. It is accepted exactly when it is a
  response and carries the identifier of the query; the code is that of its header, and the version is
  the first string of the first TXT record in which that string is text and not blank, trimmed, whatever
  records stand before and after it.
\<close>

theorem published_version_is_read:
  assumes "list_all question_ok qs" and "list_all record_ok rs"
    and "length qs < 65536" and "length rs < 65536"
  shows "parse_dns_response (encode_dns_response tid flags other qs rs rest) expected =
     (if tid = expected \<and> fst flags AND 0x80 \<noteq> 0
      then Some \<lparr>di_response_code = snd flags AND 0x0F, di_version = first_published rs, di_transport = Udp\<rparr>
      else None)"
proof -
  let ?data = "encode_dns_response tid flags other qs rs rest"
  let ?head = "u16_bytes tid @ [fst flags, snd flags] @ u16_bytes (word_of_nat (length qs)) @
     u16_bytes (word_of_nat (length rs)) @ u32_bytes other"
  have size: "length ?head = 12" by (simp add: u16_bytes_def u32_bytes_def)
  have fields: "length ?data \<ge> 12" "u16_at ?data 0 = tid" "?data ! 2 = fst flags" "?data ! 3 = snd flags"
    "u16_at ?data 4 = word_of_nat (length qs)" "u16_at ?data 6 = word_of_nat (length rs)"
    by (simp_all add: encode_dns_response_def u16_bytes_def u32_bytes_def u16_at_def be16_bytes nth_append)
  have counts: "unat (word_of_nat (length qs) :: u16) = length qs" "unat (word_of_nat (length rs) :: u16) = length rs"
    using assms(3,4) by (simp_all add: unat_of_nat)
  have "skip_questions ?data (length qs) 12 = Some (12 + length (concat (map encode_question qs)))"
    using skip_questions_encoded [OF assms(1), of ?head] size by (simp add: encode_dns_response_def)
  moreover have "find_txt ?data (length rs) (12 + length (concat (map encode_question qs))) = first_published rs"
    using find_txt_encoded [OF assms(2), of "?head @ concat (map encode_question qs)" rest] size
    by (simp add: encode_dns_response_def)
  moreover have "word_of_nat (length rs) = (0 :: u16) \<longleftrightarrow> rs = []" using counts(2) by (cases rs) auto
  ultimately have version: "extract_txt_answer ?data (u16_at ?data 4) (u16_at ?data 6) = first_published rs"
    unfolding extract_txt_answer_def fields(5,6) counts by simp
  show ?thesis unfolding parse_dns_response_def version fields(2-4) using fields(1) by simp
qed

text \<open>A resolver that answers a question for its version with a compressed name.\<close>

definition bind_name :: dns_name where
  "bind_name = \<lparr>dn_labels = [string_bytes ''version'', string_bytes ''bind''], dn_pointer = None\<rparr>"

definition bind_answer :: "dns_name \<times> u16 \<times> u32 \<times> dns_data" where
  "bind_answer = (\<lparr>dn_labels = [], dn_pointer = Some (0, 12)\<rparr>, 3, 0, Txt [string_bytes ''9.18''])"

theorem published_version_is_read_witness:
  "parse_dns_response (encode_dns_response 7 (0x84, 0) 0 [(bind_name, 16, 3)] [bind_answer] []) 7 =
     Some \<lparr>di_response_code = 0, di_version = Some ''9.18'', di_transport = Udp\<rparr>"
proof -
  have ok: "list_all question_ok [(bind_name, 16, 3)]" by code_simp
  have rec: "list_all record_ok [bind_answer]"
    by (simp add: bind_answer_def record_ok_def name_ok_def string_bytes_def)
  have version: "first_published [bind_answer] = Some ''9.18''" by code_simp
  show ?thesis
    using published_version_is_read [OF ok rec, of 7 "(0x84, 0)" 0 "[]" 7] by (simp add: version)
qed

section \<open>What a telnet server says is what is read\<close>

text \<open>A greeting as a server writes it: bytes of text between negotiations.\<close>

datatype telnet_item = Said u8 | Negotiate u8 u8 | Subnegotiate bytes | Command u8

fun encode_telnet :: "telnet_item \<Rightarrow> bytes" where
  "encode_telnet (Said b) = (if b = IAC then [IAC, IAC] else [b])"
| "encode_telnet (Negotiate command opt) = [IAC, command, opt]"
| "encode_telnet (Subnegotiate bs) = [IAC, SB] @ bs @ [IAC, SE]"
| "encode_telnet (Command command) = [IAC, command]"

fun telnet_ok :: "telnet_item \<Rightarrow> bool" where
  "telnet_ok (Said b) = True"
| "telnet_ok (Negotiate command opt) = (WILL \<le> command \<and> command \<le> DONT)"
| "telnet_ok (Subnegotiate bs) = (\<not> sublist [IAC, SE] bs)"
| "telnet_ok (Command command) = (command < SB)"

fun said :: "telnet_item list \<Rightarrow> bytes" where
  "said [] = []"
| "said (Said b # items) = b # said items"
| "said (_ # items) = said items"

fun negotiates :: "telnet_item \<Rightarrow> bool" where
  "negotiates (Said b) = (b = IAC)"
| "negotiates _ = True"

lemma after_subnegotiation_encoded:
  "\<not> sublist [IAC, SE] bs \<Longrightarrow> after_subnegotiation (bs @ IAC # SE # rest) = rest"
proof (induction bs rule: after_subnegotiation.induct)
  case (1 a b bs)
  then have "\<not> (a = IAC \<and> b = SE)" "\<not> sublist [IAC, SE] (b # bs)"
    using sublist_appendI [of "[IAC, SE]" "[]" bs] by (auto simp: sublist_Cons_right)
  with 1 show ?case by simp
qed simp_all

lemma greeting_text_item:
  assumes "telnet_ok i"
  shows "greeting_text (encode_telnet i @ rest) =
    (said [i] @ fst (greeting_text rest), negotiates i \<or> snd (greeting_text rest))"
proof (cases i)
  case (Command command)
  then have "command < SB" using assms by simp
  then have "command \<noteq> IAC" "command \<noteq> SB" "\<not> WILL \<le> command"
    by (auto simp: not_le intro: order.strict_trans)
  with Command show ?thesis by simp
next
  case (Negotiate command opt)
  then have "command \<noteq> IAC" "command \<noteq> SB" using assms by auto
  with Negotiate assms show ?thesis by simp
qed (use assms in \<open>auto simp: case_prod_unfold Let_def after_subnegotiation_encoded\<close>)

lemma greeting_text_encoded:
  "list_all telnet_ok items \<Longrightarrow>
     greeting_text (concat (map encode_telnet items)) = (said items, list_ex negotiates items)"
proof (induction items)
  case (Cons i items)
  then show ?case by (cases i) (simp_all add: greeting_text_item del: greeting_text.simps encode_telnet.simps)
qed simp

text \<open>
  Negotiation never touches a greeting. Whatever a server says, with any negotiations of options,
  subnegotiations and commands in between, the lines that are read are those of the bytes it said, and
  the bytes that arrived are kept; negotiation is reported exactly when there was some. No line is
  empty or has a control character, so the greeting can be printed.
\<close>

theorem greeting_survives_negotiation:
  assumes "list_all telnet_ok items"
  shows "parse_banner (concat (map encode_telnet items)) =
       \<lparr>tb_lines = greeting_lines (said items), tb_negotiated = list_ex negotiates items,
        tb_raw = concat (map encode_telnet items)\<rparr> \<and>
     list_all (\<lambda>line. \<exists>cs. line = utf8_encode cs \<and> cs \<noteq> [] \<and> list_all (\<lambda>c. \<not> is_control c) cs)
       (greeting_lines (said items))"
proof
  show "list_all (\<lambda>line. \<exists>cs. line = utf8_encode cs \<and> cs \<noteq> [] \<and> list_all (\<lambda>c. \<not> is_control c) cs)
      (greeting_lines (said items))"
    unfolding list_all_iff greeting_lines_def
  proof clarsimp
    fix line assume ne: "utf8_encode (sanitize (trim line)) \<noteq> []"
    then have "sanitize (trim line) \<noteq> []" by (auto simp: utf8_encode_def utf8_encode_nat_def)
    then show "\<exists>cs. utf8_encode (sanitize (trim line)) = utf8_encode cs \<and> cs \<noteq> [] \<and> (\<forall>c \<in> set cs. \<not> is_control c)"
      using sanitize_no_control by blast
  qed
qed (simp add: parse_banner_def greeting_text_encoded [OF assms])

text \<open>The greeting of a router: three options, a subnegotiation and a line of text.\<close>

definition a_greeting :: "telnet_item list" where
  "a_greeting = [Negotiate 251 1, Subnegotiate [24, 0, 65], Negotiate 251 3, Command 241] @
     map Said (string_bytes (''Welcome'' @ crlf))"

theorem greeting_survives_negotiation_witness:
  "tb_lines (parse_banner (concat (map encode_telnet a_greeting))) = [''Welcome''] \<and>
   tb_negotiated (parse_banner (concat (map encode_telnet a_greeting)))"
proof -
  have ok: "list_all telnet_ok a_greeting"
    by (simp add: a_greeting_def string_bytes_def crlf_def sublist_Cons_right prefix_Cons)
  have "greeting_lines (said a_greeting) = [''Welcome'']" "list_ex negotiates a_greeting" by code_simp+
  then show ?thesis using greeting_survives_negotiation [OF ok] by simp
qed

section \<open>Where the code and its documents part\<close>

text \<open>
  A byte 255 inside a subnegotiation is written twice; when 240 follows it, the scan takes the second
  half of the pair for the end, and what is left of the subnegotiation is shown as text.
\<close>

lemma subnegotiation_ends_early:
  "fst (greeting_text ([IAC, SB, 24] @ [IAC, IAC, SE, 65] @ [IAC, SE])) = [65]"
  by code_simp

text \<open>What has been read is given up when the deadline passes between two reads.\<close>

lemma greeting_dropped_at_deadline:
  "read_greeting 2048 [(False, Piece (b # bs)), (True, e)] = None" if "length bs < 2047"
  using that by (simp add: Let_def)

end
