(* ===== verification/Secure_Clients.thy ===== *)
theory Secure_Clients
  imports Clients Capture Tlv
begin

text \<open>
  The two clients that read a name out of a protocol they do not speak to the end: the SMB2 negotiation
  (\<open>src/src/probes/smb.rs\<close>) with its NTLM target information, and the TLS handshake
  (\<open>src/src/probes/tls.rs\<close>) with its certificate. Names of the target information are round trips
  through UTF-16; a certificate is found wherever a server puts it in its first flight; the names taken
  from it are distinct and are names. The attribute-value pairs are one more format of the locale of
  type-length-value sequences.
\<close>

section \<open>Little-endian fields and one read\<close>

definition le16 :: "u16 \<Rightarrow> bytes" where
  "le16 w = rev (u16_bytes w)"

definition le32 :: "u32 \<Rightarrow> bytes" where
  "le32 w = rev (u32_bytes w)"

definition le64 :: "u64 \<Rightarrow> bytes" where
  "le64 w = rev (be_bytes 8 w)"

text \<open>One \<open>read\<close> into a buffer.\<close>

fun first_read :: "nat \<Rightarrow> read_event list \<Rightarrow> bytes option" where
  "first_read room (Piece bs # _) = Some (take room bs)"
| "first_read room _ = None"

section \<open>SMB\<close>

definition SMB2_ID :: bytes where
  "SMB2_ID = [0xFE, 0x53, 0x4D, 0x42]"

definition smb2_negotiate :: bytes where
  "smb2_negotiate =
     SMB2_ID @ le16 64 @ le16 0 @ le32 0 @ le16 0 @ le16 0 @ le32 0 @ le32 0 @ le64 1 @ le32 0 @ le32 0 @
     le64 0 @ replicate 16 0 @
     le16 36 @ le16 2 @ le16 1 @ le16 0 @ le32 0x7F @ replicate 16 0x11 @ le64 0 @
     le16 0x0202 @ le16 0x0210"

definition build_smb2_negotiate_request :: bytes where
  "build_smb2_negotiate_request =
     (let smb_len = length smb2_negotiate
      in [0, word_of_nat (smb_len div 65536), word_of_nat (smb_len div 256), word_of_nat smb_len] @ smb2_negotiate)"

fun u16_units :: "bytes \<Rightarrow> nat list" where
  "u16_units (lo # hi # rest) = unat (be16 hi lo) # u16_units rest"
| "u16_units _ = []"

text \<open>\<open>String::from_utf16\<close>: a lone surrogate is an error.\<close>

fun from_utf16 :: "nat list \<Rightarrow> chars option" where
  "from_utf16 [] = Some []"
| "from_utf16 (u # us) =
     (if u < 0xD800 \<or> 0xE000 \<le> u then map_option ((#) u) (from_utf16 us)
      else if 0xDC00 \<le> u then None
      else case us of
             [] \<Rightarrow> None
           | v # rest \<Rightarrow>
               if 0xDC00 \<le> v \<and> v < 0xE000
               then map_option ((#) (0x10000 + (u - 0xD800) * 1024 + (v - 0xDC00))) (from_utf16 rest)
               else None)"

definition decode_utf16le :: "bytes \<Rightarrow> string option" where
  "decode_utf16le data =
     (if odd (length data) then None else map_option utf8_encode (from_utf16 (u16_units data)))"

definition smb_default :: smb_info where
  "smb_default =
     \<lparr>sm_computer_name = None, sm_domain_name = None, sm_dns_computer_name = None,
      sm_dns_domain_name = None, sm_dialect = None\<rparr>"

text \<open>The next pair: none at the end of the list and where a pair does not fit.\<close>

definition av_next :: "bytes \<Rightarrow> (u16 \<times> bytes \<times> bytes) option" where
  "av_next data =
     (if length data < 4 then None
      else let av_id = u16_le_at data 0; av_len = unat (u16_le_at data 2)
           in if av_id = 0 then None
              else if length data < 4 + av_len then None
              else Some (av_id, take av_len (drop 4 data), drop (4 + av_len) data))"

definition note_pair :: "u16 \<times> bytes \<Rightarrow> smb_info \<Rightarrow> smb_info" where
  "note_pair p info = (case p of (av_id, val) \<Rightarrow>
     if av_id = 1 then info\<lparr>sm_computer_name := decode_utf16le val\<rparr>
     else if av_id = 2 then info\<lparr>sm_domain_name := decode_utf16le val\<rparr>
     else if av_id = 3 then info\<lparr>sm_dns_computer_name := decode_utf16le val\<rparr>
     else if av_id = 4 then info\<lparr>sm_dns_domain_name := decode_utf16le val\<rparr>
     else info)"

definition NTLM_SIGNATURE :: bytes where
  "NTLM_SIGNATURE = [0x4E, 0x54, 0x4C, 0x4D, 0x53, 0x53, 0x50, 0]"

text \<open>What begins with the first occurrence of a sequence of bytes.\<close>

fun from_first :: "bytes \<Rightarrow> bytes \<Rightarrow> bytes option" where
  "from_first sig [] = (if sig = [] then Some [] else None)"
| "from_first sig (b # bs) =
     (if take (length sig) (b # bs) = sig then Some (b # bs) else from_first sig bs)"

definition parse_ntlmssp_av_pairs :: "bytes \<Rightarrow> smb_info" where
  "parse_ntlmssp_av_pairs data =
     (case from_first NTLM_SIGNATURE data of
        None \<Rightarrow> smb_default
      | Some ntlm \<Rightarrow>
          if length ntlm < 48 then smb_default
          else let len = unat (u16_le_at ntlm 40); offset = unat (u32_le_at ntlm 44)
               in if length ntlm < offset + len then smb_default
                  else fold note_pair (walk av_next (take len (drop offset ntlm))) smb_default)"

definition dialect_name :: "u16 \<Rightarrow> string" where
  "dialect_name code =
     (if code = 0x0202 then ''SMB 2.0.2''
      else if code = 0x0210 then ''SMB 2.1''
      else if code = 0x0300 then ''SMB 3.0''
      else if code = 0x0302 then ''SMB 3.0.2''
      else if code = 0x0311 then ''SMB 3.1.1''
      else ''SMB2'')"

definition parse_smb2_response :: "bytes \<Rightarrow> smb_info option" where
  "parse_smb2_response buf =
     (if length buf < 68 then None
      else if take 4 (drop 4 buf) \<noteq> SMB2_ID \<and> take 4 buf \<noteq> SMB2_ID then None
      else let smb = (if take 4 (drop 4 buf) = SMB2_ID then drop 4 buf else buf)
           in if length smb < 68 then None
              else let code = (if 72 \<le> length smb then u16_le_at smb 68 else 0);
                       info = (parse_ntlmssp_av_pairs smb)\<lparr>sm_dialect := Some (dialect_name code)\<rparr>
                   in if sm_computer_name info \<noteq> None \<or> sm_domain_name info \<noteq> None then Some info else None)"

definition probe_smb :: "client_env \<Rightarrow> endpoint \<Rightarrow> u16 \<Rightarrow> smb_info option" where
  "probe_smb env target port =
     (case ask_tcp env (endpoint_socket_addr target port) build_smb2_negotiate_request of
        None \<Rightarrow> None
      | Some events \<Rightarrow>
          (case first_read 4096 events of
             None \<Rightarrow> None
           | Some got \<Rightarrow> if got = [] then None else parse_smb2_response got))"

section \<open>TLS\<close>

definition hello_body :: bytes where
  "hello_body =
     (let ciphers = [0xC0, 0x2B, 0xC0, 0x2F, 0xC0, 0x30, 0x13, 0x01, 0x13, 0x02, 0x00, 0x2F];
          groups = [0x00, 0x1D, 0x00, 0x17, 0x00, 0x18];
          ext_body = u16_bytes 0x000A @ u16_bytes (word_of_nat (length groups + 2)) @
            u16_bytes (word_of_nat (length groups)) @ groups
      in [0x03, 0x03] @ replicate 32 0x42 @ [0x00] @ u16_bytes (word_of_nat (length ciphers)) @ ciphers @
         [0x01, 0x00] @ u16_bytes (word_of_nat (length ext_body)) @ ext_body)"

definition build_client_hello :: bytes where
  "build_client_hello =
     (let body_len = length hello_body;
          handshake = [0x01, word_of_nat (body_len div 65536), word_of_nat (body_len div 256),
            word_of_nat body_len] @ hello_body
      in [0x16, 0x03, 0x01] @ u16_bytes (word_of_nat (length handshake)) @ handshake)"

text \<open>The end of the computation in a panic, or a result.\<close>

datatype 'a guarded = Panicked | Done 'a

text \<open>The bytes of a long length, most significant first, in a register of 64 bits.\<close>

fun asn1_length :: "nat \<Rightarrow> bytes \<Rightarrow> u64 \<Rightarrow> (u64 \<times> bytes) option" where
  "asn1_length 0 data len = Some (len, data)"
| "asn1_length (Suc n) [] len = None"
| "asn1_length (Suc n) (b # bs) len = asn1_length n bs (push_bit 8 len OR ucast b)"

text \<open>
  The string at an offset of a certificate; \<open>data\<close> is the certificate from that offset on. The sum of
  offset and length is one of 64 bits: past the end of the type it panics, in a checked build at the
  addition, in another at the slice that ends before it begins.
\<close>

definition parse_asn1_string :: "nat \<Rightarrow> bytes \<Rightarrow> string option guarded" where
  "parse_asn1_string offset data =
     (case data of
        tag # l # rest \<Rightarrow>
          if tag \<notin> {0x0C, 0x13, 0x14, 0x16} then Done None
          else (case (if l AND 0x80 \<noteq> 0 then asn1_length (unat (l AND 0x7F)) rest 0 else Some (ucast l, rest)) of
                  None \<Rightarrow> Done None
                | Some (len, body) \<Rightarrow>
                    if 2 ^ 64 \<le> int (offset + (length data - length body)) + uint len then Panicked
                    else if length body < unat len then Done None
                    else Done (Some (text_of (take (unat len) body))))
      | _ \<Rightarrow> Done None)"

definition OID_COMMON_NAME :: bytes where
  "OID_COMMON_NAME = [0x55, 0x04, 0x03]"

definition OID_SUBJECT_ALT_NAME :: bytes where
  "OID_SUBJECT_ALT_NAME = [0x55, 0x1D, 0x11]"

definition certificate_default :: tls_certificate where
  "certificate_default = \<lparr>tc_common_name = None, tc_alt_names = [], tc_issuer_cn = None\<rparr>"

definition note_common_name :: "string \<Rightarrow> tls_certificate \<Rightarrow> tls_certificate" where
  "note_common_name cn info =
     (if cn \<noteq> [] \<and> tc_common_name info = None then info\<lparr>tc_common_name := Some cn\<rparr>
      else if cn \<noteq> [] \<and> tc_issuer_cn info = None then info\<lparr>tc_issuer_cn := Some cn\<rparr>
      else info)"

fun scan_common_names :: "nat \<Rightarrow> bytes \<Rightarrow> tls_certificate \<Rightarrow> tls_certificate guarded" where
  "scan_common_names i [] info = Done info"
| "scan_common_names i (b # bs) info =
     (if length (b # bs) \<le> 5 then Done info
      else if take 3 (b # bs) \<noteq> OID_COMMON_NAME then scan_common_names (Suc i) bs info
      else case parse_asn1_string (i + 3) (drop 3 (b # bs)) of
             Panicked \<Rightarrow> Panicked
           | Done None \<Rightarrow> scan_common_names (Suc i) bs info
           | Done (Some cn) \<Rightarrow> scan_common_names (Suc i) bs (note_common_name cn info))"

definition is_dns_char :: "char \<Rightarrow> bool" where
  "is_dns_char c \<longleftrightarrow> is_ascii_alphanumeric c \<or> c = CHR ''.'' \<or> c = CHR ''-'' \<or> c = CHR ''_''"

definition is_plausible_dns_name :: "string \<Rightarrow> bool" where
  "is_plausible_dns_name name =
     (if name = [] \<or> 253 < length name then False
      else let body = (case strip_prefix name ''*.'' of Some rest \<Rightarrow> rest | None \<Rightarrow> name)
           in if body = [] then False
              else list_all is_dns_char body \<and> list_ex is_ascii_alphanumeric body \<and>
                   \<not> starts_with body ''.'' \<and> \<not> ends_with body ''.'')"

fun scan_window :: "bytes \<Rightarrow> string list \<Rightarrow> string list" where
  "scan_window [] names = names"
| "scan_window (b # bs) names =
     (if length (b # bs) \<le> 2 then names
      else let len = unat (hd bs); name = text_of (take len (tl bs))
           in scan_window bs
                (if b = 0x82 \<and> 2 + len \<le> length (b # bs) \<and> is_plausible_dns_name name \<and> name \<notin> set names
                 then names @ [name] else names))"

fun scan_alt_names :: "bytes \<Rightarrow> string list \<Rightarrow> string list" where
  "scan_alt_names [] names = names"
| "scan_alt_names (b # bs) names =
     (if length (b # bs) \<le> 7 then names
      else scan_alt_names bs
             (if take 3 (b # bs) = OID_SUBJECT_ALT_NAME then scan_window (take 512 (b # bs)) names else names))"

definition parse_x509_certificate :: "bytes \<Rightarrow> tls_certificate guarded" where
  "parse_x509_certificate cert =
     (case scan_common_names 0 cert certificate_default of
        Panicked \<Rightarrow> Panicked
      | Done info \<Rightarrow> Done (info\<lparr>tc_alt_names := scan_alt_names cert (tc_alt_names info)\<rparr>))"

definition u24_at :: "bytes \<Rightarrow> nat \<Rightarrow> nat" where
  "u24_at data i = unat (data ! i) * 65536 + unat (data ! (i + 1)) * 256 + unat (data ! (i + 2))"

text \<open>
  The handshake messages of a record with \<open>left\<close> bytes to its end: the certificate, or where the
  reading of records goes on.
\<close>

function scan_handshakes :: "nat \<Rightarrow> bytes \<Rightarrow> tls_certificate guarded + bytes" where
  "scan_handshakes left s =
     (if left \<le> 4 then Inr s
      else let hs_len = u24_at s 1; body = drop 4 s
           in if s ! 0 = 0x0B
              then (if left < 7 then scan_handshakes (left - 4) body
                    else if left < 10 then scan_handshakes (left - 7) (drop 3 body)
                    else let cert = drop 6 body; n = u24_at body 3
                         in if n \<le> length cert then Inl (parse_x509_certificate (take n cert))
                            else scan_handshakes (left - 10) cert)
              else scan_handshakes (left - 4 - hs_len) (drop hs_len body))"
  by pat_completeness auto
termination by (relation "measure fst") auto

declare scan_handshakes.simps [simp del]

lemma scan_handshakes_shorter: "scan_handshakes left s = Inr rest \<Longrightarrow> length rest \<le> length s"
proof (induction left s arbitrary: rest rule: scan_handshakes.induct)
  case (1 left s)
  from 1(5) show ?case
    using 1(1-4) by (subst (asm) scan_handshakes.simps) (fastforce simp: Let_def split: if_splits)
qed

function parse_tls_response :: "bytes \<Rightarrow> tls_certificate option guarded" where
  "parse_tls_response s =
     (if length s \<le> 5 then Done None
      else let n = unat (u16_at s 3); body = drop 5 s
           in if s ! 0 \<noteq> 0x16 then parse_tls_response (drop n body)
              else case scan_handshakes (min n (length body)) body of
                     Inl Panicked \<Rightarrow> Panicked
                   | Inl (Done cert) \<Rightarrow> Done (Some cert)
                   | Inr rest \<Rightarrow> parse_tls_response rest)"
  by pat_completeness auto
termination
  by (relation "measure length") (auto dest!: scan_handshakes_shorter)

declare parse_tls_response.simps [simp del]

definition probe_tls_certificate :: "client_env \<Rightarrow> endpoint \<Rightarrow> u16 \<Rightarrow> tls_certificate option guarded" where
  "probe_tls_certificate env target port =
     (case ask_tcp env (endpoint_socket_addr target port) build_client_hello of
        None \<Rightarrow> Done None
      | Some events \<Rightarrow>
          (case first_read 8192 events of
             None \<Rightarrow> Done None
           | Some got \<Rightarrow> if got = [] then Done None else parse_tls_response got))"

section \<open>The names of a challenge are what is read\<close>

definition to_utf16 :: "nat \<Rightarrow> nat list" where
  "to_utf16 c =
     (if c < 0x10000 then [c] else [0xD800 + (c - 0x10000) div 1024, 0xDC00 + (c - 0x10000) mod 1024])"

definition utf16le :: "chars \<Rightarrow> bytes" where
  "utf16le cs = concat (map (\<lambda>u. le16 (word_of_nat u)) (concat (map to_utf16 cs)))"

lemma from_utf16_encoded: "list_all scalar cs \<Longrightarrow> from_utf16 (concat (map to_utf16 cs)) = Some cs"
proof (induction cs)
  case (Cons c cs)
  then have c: "scalar c" and rest: "from_utf16 (concat (map to_utf16 cs)) = Some cs" by simp_all
  show ?case
  proof (cases "c < 0x10000")
    case True
    then have "to_utf16 c = [c]" by (simp add: to_utf16_def)
    with c rest True show ?thesis by (auto simp: scalar_def)
  next
    case False
    define k where "k = c - 0x10000"
    then have k: "c = 0x10000 + k" "k < 0x100000" using False c by (auto simp: scalar_def)
    have "k div 1024 < 1024" "k mod 1024 < 1024" using k(2) by (auto simp: less_mult_imp_div_less)
    moreover have "k div 1024 * 1024 + k mod 1024 = k" by simp
    moreover have "to_utf16 c = [0xD800 + k div 1024, 0xDC00 + k mod 1024]" by (simp add: to_utf16_def k(1))
    ultimately show ?thesis using rest k(1) by simp
  qed
qed simp

lemma units_small: "list_all scalar cs \<Longrightarrow> u \<in> set (concat (map to_utf16 cs)) \<Longrightarrow> u < 65536"
  by (induction cs) (auto simp: to_utf16_def scalar_def split: if_splits)

lemma u16_units_encoded:
  "(\<And>u. u \<in> set us \<Longrightarrow> u < 65536) \<Longrightarrow> u16_units (concat (map (\<lambda>u. le16 (word_of_nat u)) us)) = us"
  by (induction us) (simp_all add: le16_def u16_bytes_def be16_bytes unat_of_nat)

lemma decode_utf16le_encoded:
  assumes "list_all scalar cs"
  shows "decode_utf16le (utf16le cs) = Some (utf8_encode cs)"
proof -
  have "even (length (concat (map (\<lambda>u. le16 (word_of_nat u)) us)))" for us
    by (induction us) (simp_all add: le16_def)
  then show ?thesis
    unfolding decode_utf16le_def utf16le_def
    using u16_units_encoded [of "concat (map to_utf16 cs)", OF units_small [OF assms]] from_utf16_encoded [OF assms]
    by (simp only: not_True_eq_False if_False option.map)
qed

definition av_enc :: "u16 \<Rightarrow> bytes \<Rightarrow> bytes" where
  "av_enc av_id val = le16 av_id @ le16 (word_of_nat (length val)) @ val"

definition av_ok :: "u16 \<times> bytes \<Rightarrow> bool" where
  "av_ok p = (fst p \<noteq> 0 \<and> length (snd p) < 65536)"

interpretation av: tlv_format av_next av_enc av_ok
proof
  fix bs t v rest
  assume "av_next bs = Some (t, v, rest)"
  then have "4 \<le> length bs" "v = take (unat (u16_le_at bs 2)) (drop 4 bs)"
    "rest = drop (4 + unat (u16_le_at bs 2)) bs"
    by (auto simp: av_next_def Let_def split: if_splits)
  then have "take 4 bs \<noteq> []" "bs = take 4 bs @ v @ rest"
    by (auto, metis add.commute append_take_drop_id drop_drop)
  then show "\<exists>head. head \<noteq> [] \<and> bs = head @ v @ rest" by blast
next
  fix t v rest assume ok: "av_ok (t, v)"
  have "u16_le_at (av_enc t v @ rest) 0 = t" "u16_le_at (av_enc t v @ rest) 2 = word_of_nat (length v)"
    by (simp_all add: av_enc_def le16_def u16_bytes_def u16_le_at_def be16_bytes)
  moreover have "unat (word_of_nat (length v) :: u16) = length v" using ok by (simp add: av_ok_def unat_of_nat)
  ultimately show "av_next (av_enc t v @ rest) = Some (t, v, rest)"
    using ok by (simp add: av_next_def Let_def av_ok_def) (simp add: av_enc_def le16_def)
qed

text \<open>
  The target information of a challenge: names, in UTF-16, under their identifiers. It stands where
  the offset field says, after the fixed fields and whatever else the payload holds before it.
\<close>

definition name_pairs :: "(u16 \<times> chars) list \<Rightarrow> (u16 \<times> bytes) list" where
  "name_pairs ps = map (\<lambda>(i, cs). (i, utf16le cs)) ps"

definition target_info :: "(u16 \<times> chars) list \<Rightarrow> bytes" where
  "target_info ps = concat (map (\<lambda>(i, v). av_enc i v) (name_pairs ps)) @ le16 0 @ le16 0"

definition encode_challenge :: "bytes \<Rightarrow> u16 \<Rightarrow> bytes \<Rightarrow> (u16 \<times> chars) list \<Rightarrow> bytes" where
  "encode_challenge fixed allocated payload ps =
     NTLM_SIGNATURE @ fixed @ le16 (word_of_nat (length (target_info ps))) @ le16 allocated @
     le32 (word_of_nat (48 + length payload)) @ payload @ target_info ps"

definition names_ok :: "(u16 \<times> chars) list \<Rightarrow> bool" where
  "names_ok ps = (list_all (\<lambda>(i, cs). i \<noteq> 0 \<and> list_all scalar cs) ps \<and> length (target_info ps) < 65536)"

definition named :: "u16 \<Rightarrow> (u16 \<times> chars) list \<Rightarrow> string option" where
  "named i ps = map_option utf8_encode (map_of (rev ps) i)"

lemma pair_shorter: "p \<in> set ps \<Longrightarrow> length (utf16le (snd p)) \<le> length (target_info ps)"
  by (induction ps) (auto simp: target_info_def name_pairs_def av_enc_def)

lemma walk_target_info:
  assumes "names_ok ps"
  shows "walk av_next (target_info ps) = name_pairs ps"
proof -
  have "list_all av_ok (name_pairs ps)"
    using assms pair_shorter by (fastforce simp: names_ok_def name_pairs_def av_ok_def list_all_iff)
  moreover have "av_next (le16 0 @ le16 0) = None"
    by (simp add: av_next_def le16_def u16_bytes_def u16_le_at_def be16_def)
  then have "walk av_next (le16 0 @ le16 0) = []" using av.walk_unfold [of "le16 0 @ le16 0"] by simp
  ultimately show ?thesis unfolding target_info_def using av.walk_enc by simp
qed

lemma fold_note_pairs:
  "list_all (\<lambda>(i, cs). i \<noteq> 0 \<and> list_all scalar cs) ps \<Longrightarrow>
     fold note_pair (name_pairs ps) smb_default =
       \<lparr>sm_computer_name = named 1 ps, sm_domain_name = named 2 ps, sm_dns_computer_name = named 3 ps,
        sm_dns_domain_name = named 4 ps, sm_dialect = None\<rparr>"
proof (induction ps rule: rev_induct)
  case (snoc p ps)
  obtain i cs where p: "p = (i, cs)" by (cases p)
  have "fold note_pair (name_pairs (ps @ [p])) smb_default =
      note_pair (i, utf16le cs) (fold note_pair (name_pairs ps) smb_default)"
    by (simp add: name_pairs_def p)
  also have "fold note_pair (name_pairs ps) smb_default =
       \<lparr>sm_computer_name = named 1 ps, sm_domain_name = named 2 ps, sm_dns_computer_name = named 3 ps,
        sm_dns_domain_name = named 4 ps, sm_dialect = None\<rparr>"
    using snoc by simp
  finally show ?case
    using snoc.prems by (auto simp: p note_pair_def named_def decode_utf16le_encoded)
qed (simp add: name_pairs_def smb_default_def named_def)

lemma from_first_placed:
  "\<not> sublist sig (pre @ butlast sig) \<Longrightarrow> sig \<noteq> [] \<Longrightarrow> from_first sig (pre @ sig @ post) = Some (sig @ post)"
proof (induction pre)
  case Nil
  then show ?case by (cases sig) simp_all
next
  case (Cons b pre)
  have "take (length sig) (b # pre @ sig @ post) \<noteq> sig"
  proof
    assume eq: "take (length sig) (b # pre @ sig @ post) = sig"
    have "b # pre @ sig @ post = (b # pre @ butlast sig) @ (List.last sig # post)"
      using Cons.prems(2) by simp
    moreover have "length sig \<le> length (b # pre @ butlast sig)" by simp
    ultimately have "take (length sig) (b # pre @ sig @ post) = take (length sig) (b # pre @ butlast sig)"
      by (simp only: take_append) simp
    with eq have "prefix sig ((b # pre) @ butlast sig)"
      using take_is_prefix [of "length sig" "b # pre @ butlast sig"] by simp
    then show False using Cons.prems(1) prefix_imp_sublist by blast
  qed
  moreover have "\<not> sublist sig (pre @ butlast sig)"
    using Cons.prems(1) by (simp add: sublist_Cons_right)
  ultimately show ?case using Cons by simp
qed

lemma pairs_read:
  assumes "from_first NTLM_SIGNATURE data = Some ntlm" and "48 \<le> length ntlm"
    and "unat (u16_le_at ntlm 40) = n" and "unat (u32_le_at ntlm 44) = offset"
    and "offset + n \<le> length ntlm" and "take n (drop offset ntlm) = info"
  shows "parse_ntlmssp_av_pairs data = fold note_pair (walk av_next info) smb_default"
  using assms by (simp add: parse_ntlmssp_av_pairs_def)

text \<open>
  C37: the names a Windows host or a file server gives itself are what is read. Take a negotiation
  response in its four-byte frame that holds an NTLM challenge, with any header in which the NTLM
  signature does not occur earlier, any fixed part, any allocated length, any payload before the target
  information and anything after it, whose target information names the host in well-formed text under
  any identifiers. If it names neither a computer nor a domain there is no result, even where it gives
  DNS names; otherwise each of the four names is the last one given under its identifier, and the
  dialect is that of the response.
\<close>

theorem smb_names_round_trip:
  assumes "names_ok ps" and "length framing = 4" and "68 \<le> length header" and "length fixed = 32"
    and "48 + length payload < 2 ^ 32"
    and "\<not> sublist NTLM_SIGNATURE (SMB2_ID @ header @ butlast NTLM_SIGNATURE)"
  shows "parse_smb2_response (framing @ SMB2_ID @ header @ encode_challenge fixed allocated payload ps @ rest) =
     (if named 1 ps = None \<and> named 2 ps = None then None
      else Some \<lparr>sm_computer_name = named 1 ps, sm_domain_name = named 2 ps, sm_dns_computer_name = named 3 ps,
                 sm_dns_domain_name = named 4 ps, sm_dialect = Some (dialect_name (u16_le_at header 64))\<rparr>)"
proof -
  let ?info = "target_info ps"
  let ?len = "le16 (word_of_nat (length ?info))"
  let ?smb = "SMB2_ID @ header @ encode_challenge fixed allocated payload ps @ rest"
  let ?at = "48 + length payload"
  let ?ntlm = "NTLM_SIGNATURE @ fixed @ ?len @ le16 allocated @ le32 (word_of_nat ?at) @ payload @ ?info @ rest"
  have sizes: "length NTLM_SIGNATURE = 8" "length SMB2_ID = 4" "length (le16 w) = 2" "length (le32 v) = 4" for w v
    by (simp_all add: NTLM_SIGNATURE_def SMB2_ID_def le16_def le32_def u32_bytes_def)
  have fits: "unat (word_of_nat (length ?info) :: u16) = length ?info"
    using assms(1) by (simp add: names_ok_def unat_of_nat)
  have le16_placed: "u16_le_at (pre @ le16 w @ post) (length pre) = w" for pre post w
    by (simp add: u16_le_at_def le16_def u16_bytes_def nth_append be16_bytes)
  have le32_placed: "u32_le_at (pre @ le32 w @ post) (length pre) = w" for pre post w
    by (simp add: u32_le_at_def le32_def u32_bytes_def nth_append be32_bytes)
  have len: "u16_le_at ?ntlm 40 = word_of_nat (length ?info)"
    using le16_placed [of "NTLM_SIGNATURE @ fixed"] assms(4) by (simp add: sizes)
  have "unat (word_of_nat ?at :: u32) = ?at" using assms(5) by (subst unat_of_nat) simp
  then have off: "unat (u32_le_at ?ntlm 44) = ?at"
    using le32_placed [of "NTLM_SIGNATURE @ fixed @ ?len @ le16 allocated"] assms(4) by (simp add: sizes)
  have body: "take (length ?info) (drop ?at ?ntlm) = ?info" using assms(4) by (simp add: sizes)
  have "from_first NTLM_SIGNATURE ?smb = Some ?ntlm"
    using from_first_placed [of NTLM_SIGNATURE "SMB2_ID @ header"] assms(6)
    by (simp add: encode_challenge_def NTLM_SIGNATURE_def)
  moreover have "48 \<le> length ?ntlm" "?at + length ?info \<le> length ?ntlm" using assms(4) by (simp_all add: sizes)
  ultimately have "parse_ntlmssp_av_pairs ?smb = fold note_pair (walk av_next ?info) smb_default"
    using pairs_read [of ?smb ?ntlm "length ?info" ?at ?info] len fits off body by (simp del: length_append append_assoc)
  also have "\<dots> = \<lparr>sm_computer_name = named 1 ps, sm_domain_name = named 2 ps, sm_dns_computer_name = named 3 ps,
        sm_dns_domain_name = named 4 ps, sm_dialect = None\<rparr>"
    using assms(1) fold_note_pairs by (simp add: walk_target_info names_ok_def)
  finally have names: "parse_ntlmssp_av_pairs ?smb =
      \<lparr>sm_computer_name = named 1 ps, sm_domain_name = named 2 ps, sm_dns_computer_name = named 3 ps,
        sm_dns_domain_name = named 4 ps, sm_dialect = None\<rparr>" .
  have "u16_le_at ?smb 68 = u16_le_at header 64"
    using assms(3) by (simp add: u16_le_at_def nth_append sizes)
  then show ?thesis
    using assms(2,3) names by (auto simp: parse_smb2_response_def Let_def sizes)
qed

text \<open>A server that names its computer and its workgroup, after its target name.\<close>

definition some_names :: "(u16 \<times> chars) list" where
  "some_names = [(2, [87, 71]), (1, [78, 65, 83])]"

theorem smb_names_round_trip_witness:
  "map_option sm_computer_name (parse_smb2_response
     ([0, 0, 0, 0] @ SMB2_ID @ replicate 68 0 @ encode_challenge (replicate 32 0) 64 [87, 0, 71, 0] some_names @ [])) =
   Some (Some ''NAS'')"
proof -
  have ok: "names_ok some_names"
    by (simp add: some_names_def names_ok_def scalar_def target_info_def name_pairs_def av_enc_def utf16le_def
        to_utf16_def le16_def)
  have sig: "\<not> sublist NTLM_SIGNATURE (SMB2_ID @ replicate 68 0 @ butlast NTLM_SIGNATURE)" by code_simp
  have names: "named 1 some_names = Some ''NAS''" by code_simp
  show ?thesis
    using smb_names_round_trip [OF ok _ _ _ _ sig, of "[0, 0, 0, 0]" "replicate 32 0" "[87, 0, 71, 0]" 64 "[]"] by (simp add: names)
qed

section \<open>The certificate of a flight is found\<close>

definition u24_bytes :: "nat \<Rightarrow> bytes" where
  "u24_bytes n = [word_of_nat (n div 65536), word_of_nat (n div 256 mod 256), word_of_nat (n mod 256)]"

definition tls_record :: "u8 \<times> u16 \<times> bytes \<Rightarrow> bytes" where
  "tls_record r = (case r of (type, version, body) \<Rightarrow>
     type # u16_bytes version @ u16_bytes (word_of_nat (length body)) @ body)"

definition tls_handshake :: "u8 \<times> bytes \<Rightarrow> bytes" where
  "tls_handshake m = (case m of (type, body) \<Rightarrow> type # u24_bytes (length body) @ body)"

definition certificate_message :: "nat \<Rightarrow> bytes \<Rightarrow> bytes \<Rightarrow> bytes" where
  "certificate_message declared cert chain = u24_bytes declared @ u24_bytes (length cert) @ cert @ chain"

definition record_skipped :: "u8 \<times> u16 \<times> bytes \<Rightarrow> bool" where
  "record_skipped r = (fst r \<noteq> 0x16 \<and> length (snd (snd r)) < 65536)"

definition message_skipped :: "u8 \<times> bytes \<Rightarrow> bool" where
  "message_skipped m = (fst m \<noteq> 0x0B \<and> length (snd m) < 16777216)"

lemma length_u24_bytes [simp]: "length (u24_bytes n) = 3"
  by (simp add: u24_bytes_def)

lemma u24_placed:
  assumes "n < 16777216" and "length pre = i"
  shows "u24_at (pre @ u24_bytes n @ post) i = n"
proof -
  have "unat (word_of_nat (n div 65536) :: u8) = n div 65536"
    "unat (word_of_nat (n div 256 mod 256) :: u8) = n div 256 mod 256"
    "unat (word_of_nat (n mod 256) :: u8) = n mod 256"
    using assms(1) by (simp_all add: unat_of_nat)
  moreover have "n div 65536 * 65536 + n div 256 mod 256 * 256 + n mod 256 = n"
  proof -
    have "n div 65536 = n div 256 div 256" by (simp add: div_mult2_eq [symmetric])
    then show ?thesis using div_mult_mod_eq [of n 256] div_mult_mod_eq [of "n div 256" 256] by linarith
  qed
  ultimately show ?thesis using assms(2) by (auto simp: u24_at_def u24_bytes_def nth_append)
qed

lemma scan_message:
  assumes "message_skipped m" and "4 < left"
  shows "scan_handshakes left (tls_handshake m @ rest) = scan_handshakes (left - length (tls_handshake m)) rest"
proof -
  obtain type body where m: "m = (type, body)" by (cases m)
  then have ok: "type \<noteq> 0x0B" "length body < 16777216" using assms(1) by (simp_all add: message_skipped_def)
  have "u24_at (tls_handshake m @ rest) 1 = length body"
    using u24_placed [OF ok(2), of "[type]" 1 "body @ rest"] by (simp add: m tls_handshake_def)
  then show ?thesis
    using assms(2) ok(1) by (subst scan_handshakes.simps) (simp add: m tls_handshake_def)
qed

lemma scan_messages:
  "list_all message_skipped ms \<Longrightarrow> length (concat (map tls_handshake ms)) + 4 < left \<Longrightarrow>
     scan_handshakes left (concat (map tls_handshake ms) @ rest) =
       scan_handshakes (left - length (concat (map tls_handshake ms))) rest"
proof (induction ms arbitrary: left)
  case (Cons m ms)
  then have "4 < left" by simp
  with Cons have "scan_handshakes left (tls_handshake m @ concat (map tls_handshake ms) @ rest) =
      scan_handshakes (left - length (tls_handshake m)) (concat (map tls_handshake ms) @ rest)"
    by (intro scan_message) simp_all
  with Cons show ?case by simp
qed simp

lemma scan_certificate:
  assumes "length cert < 16777216" and "10 \<le> left"
  shows "scan_handshakes left (tls_handshake (0x0B, certificate_message declared cert chain) @ rest) =
     Inl (parse_x509_certificate cert)"
proof -
  let ?m = "certificate_message declared cert chain"
  let ?s = "tls_handshake (0x0B, ?m) @ rest"
  have "u24_at (drop 4 ?s) 3 = length cert"
    using u24_placed [OF assms(1), of "u24_bytes declared" 3 "cert @ chain @ rest"]
    by (simp add: tls_handshake_def certificate_message_def)
  moreover have "drop 6 (drop 4 ?s) = cert @ chain @ rest" "?s ! 0 = 0x0B"
    by (simp_all add: tls_handshake_def certificate_message_def)
  ultimately show ?thesis
    using assms(2) by (subst scan_handshakes.simps) (simp add: Let_def del: drop_append drop_drop append_assoc length_drop)
qed

lemma skip_records:
  "list_all record_skipped rs \<Longrightarrow> rest \<noteq> [] \<Longrightarrow>
     parse_tls_response (concat (map tls_record rs) @ rest) = parse_tls_response rest"
proof (induction rs)
  case (Cons r rs)
  obtain type version body where r: "r = (type, version, body)" by (cases r)
  have ok: "type \<noteq> 0x16" "length body < 65536" using Cons.prems(1) by (simp_all add: r record_skipped_def)
  have "u16_at (tls_record r @ s) 3 = word_of_nat (length body)" for s
    using u16_placed [of "type # u16_bytes version" 3 _ "body @ s"] by (simp add: r tls_record_def)
  moreover have "unat (word_of_nat (length body) :: u16) = length body" using ok(2) by (simp add: unat_of_nat)
  moreover have "5 < length (tls_record r @ concat (map tls_record rs) @ rest)"
    using Cons.prems(2) by (cases rest) (simp_all add: r tls_record_def)
  moreover have "drop 5 (tls_record r @ s) = body @ s" "(tls_record r @ s) ! 0 = type"
    "drop (length body) (body @ s) = s" for s
    by (simp_all add: r tls_record_def)
  ultimately have "parse_tls_response (tls_record r @ concat (map tls_record rs) @ rest) =
      parse_tls_response (concat (map tls_record rs) @ rest)"
    using ok(1) by (subst parse_tls_response.simps) (simp add: Let_def not_le del: drop_append length_append)
  with Cons show ?case by simp
qed simp

lemma window_names:
  "distinct names \<and> list_all is_plausible_dns_name names \<Longrightarrow>
     distinct (scan_window w names) \<and> list_all is_plausible_dns_name (scan_window w names)"
  by (induction w names rule: scan_window.induct) (auto simp: Let_def)

lemma alt_names_are_names:
  "distinct names \<and> list_all is_plausible_dns_name names \<Longrightarrow>
     distinct (scan_alt_names cert names) \<and> list_all is_plausible_dns_name (scan_alt_names cert names)"
proof (induction cert names rule: scan_alt_names.induct)
  case (2 b bs names)
  let ?names = "if take 3 (b # bs) = OID_SUBJECT_ALT_NAME then scan_window (take 512 (b # bs)) names else names"
  have "distinct ?names \<and> list_all is_plausible_dns_name ?names"
    using 2(2) window_names [of names "take 512 (b # bs)"] by presburger
  with 2 show ?case unfolding scan_alt_names.simps(2) by presburger
qed simp

text \<open>
  The certificate of a server is found in its first flight. Whatever records of other types come
  first, and whatever handshake messages stand before the certificate in its record and bytes after it,
  the first certificate of the chain is the one that is read; and whatever bytes a certificate consists
  of, the alternative names taken from it are distinct and each is a plausible DNS name.
\<close>

theorem certificate_is_found:
  assumes "list_all record_skipped records" and "list_all message_skipped messages"
    and "body = concat (map tls_handshake messages) @
      tls_handshake (0x0B, certificate_message declared cert chain) @ after_it"
    and "length body < 65536"
  shows "parse_tls_response (concat (map tls_record records) @ tls_record (0x16, version, body) @ rest) =
       (case parse_x509_certificate cert of Panicked \<Rightarrow> Panicked | Done info \<Rightarrow> Done (Some info)) \<and>
     (case parse_x509_certificate cert of
        Panicked \<Rightarrow> True
      | Done info \<Rightarrow> distinct (tc_alt_names info) \<and> list_all is_plausible_dns_name (tc_alt_names info))"
proof
  let ?r = "tls_record (0x16, version, body) @ rest"
  let ?c = "tls_handshake (0x0B, certificate_message declared cert chain)"
  have sizes: "length (concat (map tls_handshake messages)) + 10 + length cert \<le> length body"
    by (simp add: assms(3) tls_handshake_def certificate_message_def)
  have len: "unat (u16_at ?r 3) = length body"
    using u16_placed [of "0x16 # u16_bytes version" 3 "word_of_nat (length body)" "body @ rest"] assms(4)
    by (simp add: tls_record_def unat_of_nat)
  have "scan_handshakes (length body) (body @ rest) = Inl (parse_x509_certificate cert)"
  proof -
    have "scan_handshakes (length body) (concat (map tls_handshake messages) @ ?c @ after_it @ rest) =
        scan_handshakes (length body - length (concat (map tls_handshake messages))) (?c @ after_it @ rest)"
      using sizes by (intro scan_messages [OF assms(2)]) simp
    also have "\<dots> = Inl (parse_x509_certificate cert)"
      using sizes assms(4) by (intro scan_certificate) simp_all
    finally show ?thesis by (simp add: assms(3))
  qed
  moreover have "body \<noteq> []" using sizes by auto
  then have "drop 5 ?r = body @ rest" "?r ! 0 = 0x16" "5 < length ?r" by (simp_all add: tls_record_def)
  ultimately have "parse_tls_response ?r =
      (case parse_x509_certificate cert of Panicked \<Rightarrow> Panicked | Done info \<Rightarrow> Done (Some info))"
    by (subst parse_tls_response.simps) (simp add: len Let_def split: guarded.split del: drop_append append_assoc)
  moreover have "?r \<noteq> []" by (simp add: tls_record_def)
  ultimately show "parse_tls_response (concat (map tls_record records) @ ?r) =
      (case parse_x509_certificate cert of Panicked \<Rightarrow> Panicked | Done info \<Rightarrow> Done (Some info))"
    by (simp add: skip_records [OF assms(1)])
  have "tc_alt_names info = []" if "scan_common_names i bs certificate_default = Done info" for i bs info
  proof -
    have "tc_alt_names info = tc_alt_names start" if "scan_common_names i bs start = Done info" for start
      using that
      by (induction i bs start rule: scan_common_names.induct)
        (auto simp: note_common_name_def split: if_splits guarded.splits option.splits)
    from this [OF that] show ?thesis by (simp add: certificate_default_def)
  qed
  then show "case parse_x509_certificate cert of
      Panicked \<Rightarrow> True
    | Done info \<Rightarrow> distinct (tc_alt_names info) \<and> list_all is_plausible_dns_name (tc_alt_names info)"
    using alt_names_are_names [of "[]" cert] by (auto simp: parse_x509_certificate_def split: guarded.splits)
qed

text \<open>
  A flight that ends in a certificate: an alert record, then a server hello and the certificate of one
  name, which stands here for the whole chain.
\<close>

definition named_certificate :: bytes where
  "named_certificate = [0x30, 0x82, 1, 0] @ OID_COMMON_NAME @ [0x0C, 2, 0x6E, 0x31] @ [0x30, 0]"

theorem certificate_is_found_witness:
  "parse_tls_response (concat (map tls_record [(0x15, 0x0303, [1, 0])]) @
      tls_record (0x16, 0x0303, concat (map tls_handshake [(2, [3, 3])]) @
        tls_handshake (0x0B, certificate_message 16 named_certificate []) @ []) @ []) =
   Done (Some \<lparr>tc_common_name = Some ''n1'', tc_alt_names = [], tc_issuer_cn = None\<rparr>)"
proof -
  have cert: "parse_x509_certificate named_certificate =
      Done \<lparr>tc_common_name = Some ''n1'', tc_alt_names = [], tc_issuer_cn = None\<rparr>"
    by code_simp
  have size: "length named_certificate = 13" by (simp add: named_certificate_def OID_COMMON_NAME_def)
  show ?thesis
    by (subst certificate_is_found [THEN conjunct1, OF _ _ refl])
      (simp_all add: cert size record_skipped_def message_skipped_def tls_handshake_def certificate_message_def)
qed

section \<open>Where the code and its documents part\<close>

text \<open>
  In a certificate the issuer comes before the subject. The first common name is recorded as that of the
  subject, and so the name of the authority is reported as the name of the device.
\<close>

lemma issuer_reported_as_subject:
  "parse_x509_certificate
     ([0x30, 0] @ OID_COMMON_NAME @ [0x0C, 2, 0x43, 0x41] @ [0x30, 0] @ OID_COMMON_NAME @ [0x0C, 2, 0x6E, 0x31] @ [0x30, 0]) =
   Done \<lparr>tc_common_name = Some ''CA'', tc_alt_names = [], tc_issuer_cn = Some ''n1''\<rparr>"
  by code_simp

text \<open>A length of eight bytes of ones ends the task in a panic: the sum with the offset leaves the type.\<close>

lemma long_length_panics:
  "parse_x509_certificate (OID_COMMON_NAME @ [0x0C, 0x88] @ replicate 8 0xFF) = Panicked"
  by code_simp

end
