(* ===== verification/Relay.thy ===== *)
theory Relay
  imports Bundle Limits "HOL-Library.Multiset"
begin

text \<open>
  The store-and-forward relay (\<open>src/src/federation/relay.rs\<close>): the queue of envelopes, the proof of
  identity of a connection and its requests. The clock, the hash, the curve and the order in which a
  \<open>HashMap\<close> is iterated are arguments; time counts nanoseconds. Proved are what the file says of
  itself: everything the relay holds is bounded, whoever connects and whatever is asked, and no envelope
  is handed out that a proven peer has not deposited for that mailbox, nor twice.
\<close>

section \<open>The queue\<close>

definition MAX_QUEUED_ENVELOPES :: nat where
  "MAX_QUEUED_ENVELOPES = 256"

definition MAX_TOTAL_BYTES :: nat where
  "MAX_TOTAL_BYTES = 256 * 1024 * 1024"

definition MAX_MAILBOXES :: nat where
  "MAX_MAILBOXES = 4096"

definition ENVELOPE_TTL :: int where
  "ENVELOPE_TTL = 24 * 60 * 60 * 1000000000"

record held =
  hl_bytes :: bytes
  hl_deposited :: int

type_synonym mailboxes = "(string, held list) hash_map"

record relay_queue =
  rq_mailboxes :: mailboxes
  rq_total_bytes :: nat

record relay_env =
  re_curve :: ed25519
  re_sha256 :: "bytes \<Rightarrow> bytes"
  re_order :: "mailboxes \<Rightarrow> mailboxes"

datatype relay_error = RelayLimit limit_error | RelayFull string | Unauthenticated

definition queue_new :: relay_queue where
  "queue_new = \<lparr>rq_mailboxes = [], rq_total_bytes = 0\<rparr>"

definition box_bytes :: "held list \<Rightarrow> nat" where
  "box_bytes queue = sum_list (map (\<lambda>h. length (hl_bytes h)) queue)"

definition boxes_bytes :: "mailboxes \<Rightarrow> nat" where
  "boxes_bytes boxes = sum_list (map (\<lambda>b. box_bytes (snd b)) boxes)"

definition expire_older_than :: "int \<Rightarrow> int \<Rightarrow> relay_queue \<Rightarrow> relay_queue" where
  "expire_older_than now ttl q =
     (let boxes = filter (\<lambda>b. snd b \<noteq> [])
            (map (\<lambda>(name, queue). (name, filter (\<lambda>h. max 0 (now - hl_deposited h) < ttl) queue)) (rq_mailboxes q))
      in \<lparr>rq_mailboxes = boxes, rq_total_bytes = boxes_bytes boxes\<rparr>)"

definition expire :: "int \<Rightarrow> relay_queue \<Rightarrow> relay_queue" where
  "expire now q = expire_older_than now ENVELOPE_TTL q"

text \<open>\<open>min_by_key\<close>: the first of the least.\<close>

fun first_min :: "(string \<times> int) list \<Rightarrow> string option" where
  "first_min [] = None"
| "first_min [(name, t)] = Some name"
| "first_min ((name, t) # (name', t') # rest) =
     (if t \<le> t' then first_min ((name, t) # rest) else first_min ((name', t') # rest))"

definition oldest :: "relay_env \<Rightarrow> relay_queue \<Rightarrow> string option" where
  "oldest env q =
     first_min (List.map_filter
       (\<lambda>(name, queue). case queue of [] \<Rightarrow> None | h # _ \<Rightarrow> Some (name, hl_deposited h))
       (re_order env (rq_mailboxes q)))"

definition discard_oldest :: "relay_env \<Rightarrow> relay_queue \<Rightarrow> relay_queue option" where
  "discard_oldest env q =
     (case oldest env q of
        None \<Rightarrow> None
      | Some name \<Rightarrow>
          (case hm_get (rq_mailboxes q) name of
             Some (dropped # rest) \<Rightarrow>
               Some \<lparr>rq_mailboxes =
                       (if rest = [] then hm_remove name (rq_mailboxes q) else hm_insert name rest (rq_mailboxes q)),
                     rq_total_bytes = rq_total_bytes q - length (hl_bytes dropped)\<rparr>
           | _ \<Rightarrow> None))"

definition boxes_count :: "mailboxes \<Rightarrow> nat" where
  "boxes_count boxes = sum_list (map (\<lambda>b. length (snd b)) boxes)"

lemma boxes_count_update:
  "hm_get boxes name = Some queue \<Longrightarrow> length rest < length queue \<Longrightarrow>
     boxes_count (hm_insert name rest boxes) < boxes_count boxes"
  by (induction boxes) (auto simp: boxes_count_def)

lemma boxes_count_delete:
  "hm_get boxes name = Some queue \<Longrightarrow> queue \<noteq> [] \<Longrightarrow> boxes_count (hm_remove name boxes) < boxes_count boxes"
proof (induction boxes)
  case (Cons b boxes)
  have "boxes_count (hm_remove name boxes) \<le> boxes_count boxes" for boxes
    by (induction boxes) (auto simp: boxes_count_def)
  from this [of boxes] Cons show ?case
    by (cases b) (auto simp: boxes_count_def length_greater_0_conv [symmetric] simp del: length_greater_0_conv)
qed simp

lemma discard_shrinks: "discard_oldest env q = Some q' \<Longrightarrow> boxes_count (rq_mailboxes q') < boxes_count (rq_mailboxes q)"
  by (auto simp: discard_oldest_def boxes_count_update boxes_count_delete split: option.splits list.splits if_splits)

text \<open>Discarding until an envelope fits; false when nothing is left to discard.\<close>

function make_room :: "relay_env \<Rightarrow> nat \<Rightarrow> relay_queue \<Rightarrow> bool \<times> relay_queue" where
  "make_room env need q =
     (if rq_total_bytes q + need \<le> MAX_TOTAL_BYTES then (True, q)
      else case discard_oldest env q of None \<Rightarrow> (False, q) | Some q' \<Rightarrow> make_room env need q')"
  by pat_completeness auto
termination by (relation "measure (\<lambda>(env, need, q). boxes_count (rq_mailboxes q))") (auto dest: discard_shrinks)

declare make_room.simps [simp del]

definition deposit ::
    "relay_env \<Rightarrow> int \<Rightarrow> string \<Rightarrow> bytes \<Rightarrow> relay_queue \<Rightarrow> (relay_error + unit) \<times> relay_queue" where
  "deposit env now mailbox envelope q0 =
     (case check_frame_length (length envelope) MAX_ENVELOPE_BYTES of
        Inl e \<Rightarrow> (Inl (RelayLimit e), q0)
      | Inr _ \<Rightarrow>
          (let q1 = expire now q0
           in if hm_get (rq_mailboxes q1) mailbox = None \<and> MAX_MAILBOXES \<le> length (rq_mailboxes q1)
              then (Inl (RelayFull ''mailboxes''), q1)
              else (case make_room env (length envelope) q1 of
                      (False, q2) \<Rightarrow> (Inl (RelayFull ''bytes''), q2)
                    | (True, q2) \<Rightarrow>
                        (let queue = (case hm_get (rq_mailboxes q2) mailbox of Some queue \<Rightarrow> queue | None \<Rightarrow> []);
                             full = MAX_QUEUED_ENVELOPES \<le> length queue;
                             kept = (if full then tl queue else queue);
                             left = (if full then rq_total_bytes q2 - length (hl_bytes (hd queue))
                                      else rq_total_bytes q2)
                         in (Inr (), \<lparr>rq_mailboxes = hm_insert mailbox
                                        (kept @ [\<lparr>hl_bytes = envelope, hl_deposited = now\<rparr>]) (rq_mailboxes q2),
                                      rq_total_bytes = left + length envelope\<rparr>)))))"

definition collect :: "int \<Rightarrow> string \<Rightarrow> relay_queue \<Rightarrow> bytes list \<times> relay_queue" where
  "collect now mailbox q0 =
     (let q = expire now q0; held = (case hm_get (rq_mailboxes q) mailbox of Some queue \<Rightarrow> queue | None \<Rightarrow> [])
      in (map hl_bytes held,
          \<lparr>rq_mailboxes = hm_remove mailbox (rq_mailboxes q),
           rq_total_bytes = fold (\<lambda>h n. n - length (hl_bytes h)) held (rq_total_bytes q)\<rparr>))"

definition waiting :: "relay_queue \<Rightarrow> string \<Rightarrow> nat" where
  "waiting q mailbox = (case hm_get (rq_mailboxes q) mailbox of Some queue \<Rightarrow> length queue | None \<Rightarrow> 0)"

definition held_bytes :: "relay_queue \<Rightarrow> nat" where
  "held_bytes q = rq_total_bytes q"

section \<open>Connections\<close>

definition mailbox_of :: "relay_env \<Rightarrow> peer_id \<Rightarrow> peer_id \<Rightarrow> string" where
  "mailbox_of env sender recipient =
     encode_hex (take 16 (re_sha256 env (map char_byte
       (''idnx-relay-mailbox-v1'' @ peer_to_hex sender @ ''->'' @ peer_to_hex recipient))))"

datatype relay_request = Authenticate string string | Deposit string string | Collect string

datatype relay_response =
    Challenge string | Authenticated | Accepted | Envelopes "string list" | Refused string

definition challenge_payload :: "bytes \<Rightarrow> bytes" where
  "challenge_payload nonce = map char_byte ''idnx-relay-challenge-v1'' @ [10] @ nonce"

record relay_client =
  cl_nonce :: bytes
  cl_identity :: "peer_id option"

definition client_new :: "bytes \<Rightarrow> relay_client" where
  "client_new nonce = \<lparr>cl_nonce = nonce, cl_identity = None\<rparr>"

definition challenge :: "relay_client \<Rightarrow> relay_response" where
  "challenge client = Challenge (encode_hex (cl_nonce client))"

fun limit_error_text :: "limit_error \<Rightarrow> string" where
  "limit_error_text (TooLarge limit claimed) =
     ''frame claims '' @ decimal (int claimed) @ '' bytes, limit is '' @ decimal (int limit)"
| "limit_error_text (TooManyRecords limit claimed) =
     ''bundle claims '' @ decimal (int claimed) @ '' records, limit is '' @ decimal (int limit)"
| "limit_error_text (TextTooLong field limit n) =
     field @ '' is '' @ decimal (int n) @ '' bytes, limit is '' @ decimal (int limit)"

fun relay_error_text :: "relay_error \<Rightarrow> string" where
  "relay_error_text (RelayLimit e) = limit_error_text e"
| "relay_error_text (RelayFull what) = ''relay is at its '' @ what @ '' limit''"
| "relay_error_text Unauthenticated = ''client did not prove it holds the identity it claimed''"

definition refused :: "relay_error \<Rightarrow> relay_response" where
  "refused e = Refused (relay_error_text e)"

definition authenticate ::
    "relay_env \<Rightarrow> string \<Rightarrow> string \<Rightarrow> relay_client \<Rightarrow> (relay_error + unit) \<times> relay_client" where
  "authenticate env peer signature client =
     (case (peer_from_hex (re_curve env) peer, decode_hex signature) of
        (Inr p, Some s) \<Rightarrow>
          (case peer_verify (re_curve env) p (challenge_payload (cl_nonce client)) s of
             Inl _ \<Rightarrow> (Inl Unauthenticated, client)
           | Inr _ \<Rightarrow> (Inr (), client\<lparr>cl_identity := Some p\<rparr>))
      | _ \<Rightarrow> (Inl Unauthenticated, client))"

definition handle ::
    "relay_env \<Rightarrow> int \<Rightarrow> relay_request \<Rightarrow> relay_client \<Rightarrow> relay_queue \<Rightarrow>
     relay_response \<times> relay_client \<times> relay_queue" where
  "handle env now request client q =
     (case request of
        Authenticate peer signature \<Rightarrow>
          (case authenticate env peer signature client of
             (Inr _, client') \<Rightarrow> (Authenticated, client', q)
           | (Inl e, client') \<Rightarrow> (refused e, client', q))
      | Deposit recipient envelope \<Rightarrow>
          (case (cl_identity client, peer_from_hex (re_curve env) recipient, decode_hex envelope) of
             (Some identity, Inr p, Some data) \<Rightarrow>
               (case deposit env now (mailbox_of env identity p) data q of
                  (Inr _, q') \<Rightarrow> (Accepted, client, q')
                | (Inl e, q') \<Rightarrow> (refused e, client, q'))
           | _ \<Rightarrow> (refused Unauthenticated, client, q))
      | Collect sender \<Rightarrow>
          (case (cl_identity client, peer_from_hex (re_curve env) sender) of
             (Some identity, Inr p) \<Rightarrow>
               (case collect now (mailbox_of env p identity) q of
                  (es, q') \<Rightarrow> (Envelopes (map encode_hex es), client, q'))
           | _ \<Rightarrow> (refused Unauthenticated, client, q)))"

section \<open>The relay under load\<close>

text \<open>
  Connections come and ask in any order; each request is handled under the lock of the queue. The log
  has, for each request, the nonce and the identity of its connection, the request and the response.
\<close>

datatype relay_event = Opened nat bytes | Asked nat int relay_request

type_synonym relay_log = "(bytes \<times> peer_id option \<times> relay_request \<times> relay_response) list"

record relay_system =
  ry_clients :: "nat \<rightharpoonup> relay_client"
  ry_queue :: relay_queue
  ry_log :: relay_log

definition relay_start :: relay_system where
  "relay_start = \<lparr>ry_clients = Map.empty, ry_queue = queue_new, ry_log = []\<rparr>"

fun relay_step :: "relay_env \<Rightarrow> relay_event \<Rightarrow> relay_system \<Rightarrow> relay_system" where
  "relay_step env (Opened i nonce) sys = sys\<lparr>ry_clients := (ry_clients sys)(i \<mapsto> client_new nonce)\<rparr>"
| "relay_step env (Asked i now request) sys =
     (case ry_clients sys i of
        None \<Rightarrow> sys
      | Some client \<Rightarrow>
          (case handle env now request client (ry_queue sys) of
             (response, client', q) \<Rightarrow>
               \<lparr>ry_clients = (ry_clients sys)(i \<mapsto> client'), ry_queue = q,
                ry_log = ry_log sys @ [(cl_nonce client, cl_identity client, request, response)]\<rparr>))"

definition relay_run :: "relay_env \<Rightarrow> relay_event list \<Rightarrow> relay_system" where
  "relay_run env evs = fold (relay_step env) evs relay_start"

section \<open>Everything is bounded\<close>

definition box_ok :: "held list \<Rightarrow> bool" where
  "box_ok queue \<longleftrightarrow>
     queue \<noteq> [] \<and> length queue \<le> MAX_QUEUED_ENVELOPES \<and>
     list_all (\<lambda>h. length (hl_bytes h) \<le> MAX_ENVELOPE_BYTES) queue"

definition relay_ok :: "relay_queue \<Rightarrow> bool" where
  "relay_ok q \<longleftrightarrow>
     hm_ok (rq_mailboxes q) \<and> rq_total_bytes q = boxes_bytes (rq_mailboxes q) \<and>
     rq_total_bytes q \<le> MAX_TOTAL_BYTES \<and> length (rq_mailboxes q) \<le> MAX_MAILBOXES \<and>
     list_all (\<lambda>b. box_ok (snd b)) (rq_mailboxes q)"

definition box :: "relay_queue \<Rightarrow> string \<Rightarrow> held list" where
  "box q name = (case hm_get (rq_mailboxes q) name of Some queue \<Rightarrow> queue | None \<Rightarrow> [])"

lemma box_bytes_simps [simp]:
  "box_bytes [] = 0" "box_bytes (h # queue) = length (hl_bytes h) + box_bytes queue"
  "box_bytes (a @ b) = box_bytes a + box_bytes b"
  by (simp_all add: box_bytes_def)

lemma boxes_bytes_simps [simp]:
  "boxes_bytes [] = 0" "boxes_bytes (b # boxes) = box_bytes (snd b) + boxes_bytes boxes"
  by (simp_all add: boxes_bytes_def)

lemma boxes_bytes_insert:
  "boxes_bytes (hm_insert name queue boxes) +
     (case hm_get boxes name of Some old \<Rightarrow> box_bytes old | None \<Rightarrow> 0) = boxes_bytes boxes + box_bytes queue"
  by (induction boxes) auto

lemma boxes_bytes_remove:
  "hm_ok boxes \<Longrightarrow> boxes_bytes (hm_remove name boxes) +
     (case hm_get boxes name of Some old \<Rightarrow> box_bytes old | None \<Rightarrow> 0) = boxes_bytes boxes"
proof (induction boxes)
  case (Cons b boxes)
  have "hm_remove name boxes = boxes" if "name \<notin> fst ` set boxes"
    using that by (simp add: delete_id)
  with Cons show ?case by (cases b) (auto simp: hm_ok_def image_iff split: option.split)
qed simp

lemma length_insert:
  "length (hm_insert name queue boxes) = (if hm_get boxes name = None then Suc (length boxes) else length boxes)"
  by (induction boxes) auto

lemma length_remove: "length (hm_remove name boxes) \<le> length boxes"
  by (induction boxes) auto

lemma boxes_insert_ok:
  "list_all (\<lambda>b. box_ok (snd b)) boxes \<Longrightarrow> box_ok queue \<Longrightarrow> list_all (\<lambda>b. box_ok (snd b)) (hm_insert name queue boxes)"
  by (induction boxes) auto

lemma boxes_remove_ok:
  "list_all (\<lambda>b. box_ok (snd b)) boxes \<Longrightarrow> list_all (\<lambda>b. box_ok (snd b)) (hm_remove name boxes)"
  by (induction boxes) auto

lemma get_box_ok: "relay_ok q \<Longrightarrow> hm_get (rq_mailboxes q) name = Some queue \<Longrightarrow> box_ok queue"
  using map_of_SomeD by (fastforce simp: relay_ok_def list_all_iff)

lemma relay_ok_expire: "relay_ok q \<Longrightarrow> relay_ok (expire now q)"
proof -
  let ?keep = "\<lambda>h. max 0 (now - hl_deposited h) < ENVELOPE_TTL"
  let ?boxes = "map (\<lambda>(name, queue). (name, filter ?keep queue)) (rq_mailboxes q)"
  let ?kept = "filter (\<lambda>b. snd b \<noteq> []) ?boxes"
  assume ok: "relay_ok q"
  have "map fst ?boxes = map fst (rq_mailboxes q)" by (induction "rq_mailboxes q") auto
  then have "hm_ok ?kept" using ok by (metis (no_types, lifting) distinct_map_filter hm_ok_def relay_ok_def)
  moreover have bytes: "box_bytes (filter ?keep queue) \<le> box_bytes queue" for queue
    by (induction queue) auto
  have "boxes_bytes (filter (\<lambda>b. snd b \<noteq> []) (map (\<lambda>(name, queue). (name, filter ?keep queue)) boxes)) \<le>
      boxes_bytes boxes" for boxes
  proof (induction boxes)
    case (Cons b boxes)
    with bytes [of "snd b"] show ?case by (cases b) (auto intro: add_le_mono trans_le_add2)
  qed simp
  then have "boxes_bytes ?kept \<le> MAX_TOTAL_BYTES" using ok le_trans by (fastforce simp: relay_ok_def)
  moreover have "length ?kept \<le> length ?boxes" by (rule length_filter_le)
  then have "length ?kept \<le> MAX_MAILBOXES" using ok by (simp only: relay_ok_def length_map) linarith
  moreover have "list_all (\<lambda>b. box_ok (snd b)) ?kept"
    using ok by (fastforce simp: relay_ok_def list_all_iff box_ok_def intro: order_trans [OF length_filter_le])
  ultimately show ?thesis by (simp add: relay_ok_def expire_def expire_older_than_def Let_def)
qed

lemma relay_ok_discard:
  assumes "relay_ok q" and "discard_oldest env q = Some q'"
  shows "relay_ok q'" and "length (rq_mailboxes q') \<le> length (rq_mailboxes q)"
proof -
  obtain name dropped rest where get: "hm_get (rq_mailboxes q) name = Some (dropped # rest)"
    and q': "q' = \<lparr>rq_mailboxes =
       (if rest = [] then hm_remove name (rq_mailboxes q) else hm_insert name rest (rq_mailboxes q)),
       rq_total_bytes = rq_total_bytes q - length (hl_bytes dropped)\<rparr>"
    using assms(2) by (auto simp: discard_oldest_def split: option.splits list.splits)
  have box: "box_ok (dropped # rest)" using assms(1) get by (rule get_box_ok)
  have ok: "hm_ok (rq_mailboxes q)" "rq_total_bytes q = boxes_bytes (rq_mailboxes q)"
    "rq_total_bytes q \<le> MAX_TOTAL_BYTES" "length (rq_mailboxes q) \<le> MAX_MAILBOXES"
    "list_all (\<lambda>b. box_ok (snd b)) (rq_mailboxes q)" using assms(1) by (simp_all add: relay_ok_def)
  show shorter: "length (rq_mailboxes q') \<le> length (rq_mailboxes q)"
    using get by (simp add: q' length_insert length_remove)
  have "hm_ok (rq_mailboxes q')" using ok(1) by (auto simp: q')
  moreover have "rq_total_bytes q' = boxes_bytes (rq_mailboxes q')"
    using boxes_bytes_insert [of name rest "rq_mailboxes q"] boxes_bytes_remove [OF ok(1), of name] get ok(2)
    by (auto simp: q')
  moreover have "list_all (\<lambda>b. box_ok (snd b)) (rq_mailboxes q')"
    using ok(5) box by (auto simp: q' intro!: boxes_insert_ok boxes_remove_ok) (auto simp: box_ok_def)
  moreover have "rq_total_bytes q' \<le> rq_total_bytes q" by (simp add: q')
  ultimately show "relay_ok q'" using ok(3,4) shorter by (simp add: relay_ok_def)
qed

lemma relay_ok_make_room:
  "relay_ok q \<Longrightarrow> make_room env need q = (fits, q') \<Longrightarrow>
     relay_ok q' \<and> length (rq_mailboxes q') \<le> length (rq_mailboxes q) \<and>
     (fits \<longrightarrow> rq_total_bytes q' + need \<le> MAX_TOTAL_BYTES)"
proof (induction env need q rule: make_room.induct)
  case (1 env need q)
  from 1(3) show ?case
    using 1(1) 1(2) relay_ok_discard [OF 1(2), of env]
    by (subst (asm) make_room.simps) (force split: if_splits option.splits)
qed

lemma box_bytes_insert:
  "boxes_bytes (hm_insert name queue (rq_mailboxes q)) + box_bytes (box q name) =
     boxes_bytes (rq_mailboxes q) + box_bytes queue"
  using boxes_bytes_insert [of name queue "rq_mailboxes q"] by (simp add: box_def split: option.splits)

lemma box_bytes_le: "hm_ok (rq_mailboxes q) \<Longrightarrow> box_bytes (box q name) \<le> boxes_bytes (rq_mailboxes q)"
  using boxes_bytes_remove [of "rq_mailboxes q" name] by (simp add: box_def split: option.splits)

lemma length_remove_less: "hm_get boxes name \<noteq> None \<Longrightarrow> length (hm_remove name boxes) < length boxes"
proof (induction boxes)
  case (Cons b boxes)
  then show ?case using length_remove [of name boxes] by (cases b) (auto simp: less_Suc_eq_le)
qed simp

lemma discard_keeps_or_shrinks:
  assumes "discard_oldest env q = Some q'" and "hm_get (rq_mailboxes q) name \<noteq> None"
  shows "length (rq_mailboxes q') \<le> length (rq_mailboxes q) \<and>
    (hm_get (rq_mailboxes q') name \<noteq> None \<or> length (rq_mailboxes q') < length (rq_mailboxes q))"
  using assms length_remove_less [of "rq_mailboxes q"]
  by (auto simp: discard_oldest_def length_insert length_remove update_conv' delete_conv'
      split: option.splits list.splits if_splits)

lemma make_room_length:
  "make_room env need q = (fits, q') \<Longrightarrow> length (rq_mailboxes q') \<le> length (rq_mailboxes q)"
proof (induction env need q rule: make_room.induct)
  case (1 env need q)
  have "length (rq_mailboxes q1) \<le> length (rq_mailboxes q)" if "discard_oldest env q = Some q1" for q1
    using that by (auto simp: discard_oldest_def length_insert length_remove split: option.splits list.splits if_splits)
  with 1 show ?case by (subst (asm) (2) make_room.simps) (force split: if_splits option.splits dest: le_trans)
qed

lemma mailbox_gone:
  "make_room env need q = (fits, q') \<Longrightarrow> hm_get (rq_mailboxes q) name \<noteq> None \<Longrightarrow>
     length (rq_mailboxes q') \<le> length (rq_mailboxes q) \<and>
     (hm_get (rq_mailboxes q') name \<noteq> None \<or> length (rq_mailboxes q') < length (rq_mailboxes q))"
proof (induction env need q rule: make_room.induct)
  case (1 env need q)
  show ?case
  proof (cases "rq_total_bytes q + need \<le> MAX_TOTAL_BYTES \<or> discard_oldest env q = None")
    case True
    then show ?thesis using 1(2,3) by (subst (asm) make_room.simps) (auto split: if_splits)
  next
    case False
    then obtain q1 where q1: "discard_oldest env q = Some q1" by auto
    then have run: "make_room env need q1 = (fits, q')"
      using 1(2) False by (subst (asm) make_room.simps) (auto split: if_splits)
    note step = discard_keeps_or_shrinks [OF q1 1(3)]
    have mono: "length (rq_mailboxes q') \<le> length (rq_mailboxes q1)"
      using run by (rule make_room_length)
    show ?thesis
    proof (cases "hm_get (rq_mailboxes q1) name")
      case None
      with step mono show ?thesis by auto
    next
      case (Some _)
      with 1(1) [OF _ q1 run] False step show ?thesis by force
    qed
  qed
qed

lemma relay_ok_deposit:
  assumes "relay_ok q"
  shows "relay_ok (snd (deposit env now mailbox envelope q))"
proof (cases "length envelope \<le> MAX_ENVELOPE_BYTES \<and>
    \<not> (hm_get (rq_mailboxes (expire now q)) mailbox = None \<and> MAX_MAILBOXES \<le> length (rq_mailboxes (expire now q)))")
  case False
  then show ?thesis
    using assms relay_ok_expire [OF assms, of now] by (auto simp: deposit_def check_frame_length_def Let_def)
next
  case True
  let ?q1 = "expire now q"
  obtain fits q2 where room: "make_room env (length envelope) ?q1 = (fits, q2)" by fastforce
  note ok1 = relay_ok_expire [OF assms, of now]
  from relay_ok_make_room [OF ok1 room] have ok2: "relay_ok q2"
    and fewer: "length (rq_mailboxes q2) \<le> length (rq_mailboxes ?q1)"
    and space: "fits \<Longrightarrow> rq_total_bytes q2 + length envelope \<le> MAX_TOTAL_BYTES" by auto
  show ?thesis
  proof (cases fits)
    case False
    with True room ok2 show ?thesis by (auto simp: deposit_def check_frame_length_def Let_def)
  next
    case fits: True
    let ?queue = "box q2 mailbox"
    let ?full = "MAX_QUEUED_ENVELOPES \<le> length ?queue"
    let ?kept = "if ?full then tl ?queue else ?queue"
    let ?new = "\<lparr>hl_bytes = envelope, hl_deposited = now\<rparr>"
    let ?left = "if ?full then rq_total_bytes q2 - length (hl_bytes (hd ?queue)) else rq_total_bytes q2"
    let ?boxes = "hm_insert mailbox (?kept @ [?new]) (rq_mailboxes q2)"
    have result: "snd (deposit env now mailbox envelope q) =
        \<lparr>rq_mailboxes = ?boxes, rq_total_bytes = ?left + length envelope\<rparr>"
      using True room fits by (auto simp: deposit_def check_frame_length_def Let_def box_def)
    have old: "?queue = [] \<or> box_ok ?queue" using get_box_ok [OF ok2] by (auto simp: box_def split: option.split)
    have "length ?queue \<le> MAX_QUEUED_ENVELOPES" "0 < MAX_QUEUED_ENVELOPES"
      using old by (auto simp: box_ok_def MAX_QUEUED_ENVELOPES_def)
    then have "length (?kept @ [?new]) \<le> MAX_QUEUED_ENVELOPES" by auto
    moreover have "list_all (\<lambda>h. length (hl_bytes h) \<le> MAX_ENVELOPE_BYTES) (?kept @ [?new])"
      using old True by (cases ?queue) (auto simp: box_ok_def)
    ultimately have "box_ok (?kept @ [?new])" by (simp add: box_ok_def)
    then have "list_all (\<lambda>b. box_ok (snd b)) ?boxes" using ok2 by (intro boxes_insert_ok) (auto simp: relay_ok_def)
    moreover have "length ?boxes \<le> MAX_MAILBOXES"
    proof (cases "hm_get (rq_mailboxes ?q1) mailbox")
      case None
      then show ?thesis using True fewer by (auto simp: length_insert)
    next
      case (Some _)
      then show ?thesis
        using mailbox_gone [OF room, of mailbox] ok1 by (auto simp: length_insert relay_ok_def)
    qed
    moreover have "hm_ok ?boxes" using ok2 by (auto simp: relay_ok_def)
    moreover have "?left + length envelope = boxes_bytes ?boxes"
    proof -
      have "boxes_bytes ?boxes + box_bytes ?queue = boxes_bytes (rq_mailboxes q2) + (box_bytes ?kept + length envelope)"
        using box_bytes_insert [of mailbox "?kept @ [?new]" q2] by simp
      moreover have "rq_total_bytes q2 = boxes_bytes (rq_mailboxes q2)" using ok2 by (simp add: relay_ok_def)
      moreover have "box_bytes ?queue \<le> boxes_bytes (rq_mailboxes q2)"
        using box_bytes_le ok2 by (simp add: relay_ok_def)
      moreover have "?full \<Longrightarrow> ?queue \<noteq> []" by (auto simp: MAX_QUEUED_ENVELOPES_def)
      ultimately show ?thesis by (cases ?queue) (auto split: if_splits)
    qed
    moreover have "?left \<le> rq_total_bytes q2" by simp
    then have "?left + length envelope \<le> MAX_TOTAL_BYTES" using space [OF fits] by linarith
    ultimately show ?thesis unfolding result by (simp add: relay_ok_def)
  qed
qed

lemma relay_ok_collect:
  assumes "relay_ok q"
  shows "relay_ok (snd (collect now mailbox q))"
proof -
  let ?q = "expire now q"
  have ok: "relay_ok ?q" by (rule relay_ok_expire [OF assms])
  have "fold (\<lambda>h n. n - length (hl_bytes h)) queue n = n - box_bytes queue" for queue n
    by (induction queue arbitrary: n) simp_all
  then have result: "snd (collect now mailbox q) =
      \<lparr>rq_mailboxes = hm_remove mailbox (rq_mailboxes ?q),
       rq_total_bytes = rq_total_bytes ?q - box_bytes (box ?q mailbox)\<rparr>"
    by (simp add: collect_def Let_def box_def)
  have "boxes_bytes (hm_remove mailbox (rq_mailboxes ?q)) + box_bytes (box ?q mailbox) = boxes_bytes (rq_mailboxes ?q)"
    using boxes_bytes_remove [of "rq_mailboxes ?q" mailbox] ok by (simp add: box_def relay_ok_def split: option.splits)
  then show ?thesis
    using ok length_remove [of mailbox "rq_mailboxes ?q"]
    unfolding result by (auto simp: relay_ok_def boxes_remove_ok)
qed

lemma relay_ok_handle:
  "relay_ok q \<Longrightarrow> relay_ok (snd (snd (handle env now request client q)))"
  using relay_ok_deposit relay_ok_collect
  by (fastforce simp: handle_def case_prod_unfold split: relay_request.split option.split sum.split)

lemma relay_ok_run: "relay_ok (ry_queue (relay_run env evs))"
proof -
  have "relay_ok (ry_queue (fold (relay_step env) evs sys))" if "relay_ok (ry_queue sys)" for sys
    using that
  proof (induction evs arbitrary: sys)
    case (Cons ev evs)
    have "relay_ok (ry_queue (relay_step env ev sys))"
      using Cons.prems relay_ok_handle by (cases ev) (auto simp: case_prod_unfold split: option.split)
    with Cons show ?case by simp
  qed simp
  moreover have "relay_ok (ry_queue relay_start)"
    by (simp add: relay_start_def queue_new_def relay_ok_def MAX_TOTAL_BYTES_def MAX_MAILBOXES_def)
  ultimately show ?thesis unfolding relay_run_def .
qed

text \<open>An envelope of an allowed size always finds room.\<close>

lemma first_min_Some: "xs \<noteq> [] \<Longrightarrow> \<exists>name. first_min xs = Some name \<and> name \<in> fst ` set xs"
proof (induction xs rule: first_min.induct)
  case (3 name t name' t' rest)
  then show ?case by (cases "t \<le> t'") auto
qed simp_all

lemma oldest_exists:
  assumes "relay_ok q" and "mset (re_order env (rq_mailboxes q)) = mset (rq_mailboxes q)"
    and "rq_mailboxes q \<noteq> []"
  shows "discard_oldest env q \<noteq> None"
proof -
  let ?first = "\<lambda>(name, queue). case queue of [] \<Rightarrow> None | h # _ \<Rightarrow> Some (name :: string, hl_deposited h)"
  let ?order = "re_order env (rq_mailboxes q)"
  have same: "set ?order = set (rq_mailboxes q)" using assms(2) by (metis set_mset_mset)
  have full: "snd b \<noteq> []" if "b \<in> set (rq_mailboxes q)" for b
    using that assms(1) by (auto simp: relay_ok_def list_all_iff box_ok_def)
  obtain b where b: "b \<in> set (rq_mailboxes q)" using assms(3) by (cases "rq_mailboxes q") auto
  with full [OF b] same have "\<exists>x. x \<in> set (List.map_filter ?first ?order)"
    by (cases b; cases "snd b") (force simp: List.map_filter_def)+
  then have "List.map_filter ?first ?order \<noteq> []" by auto
  from first_min_Some [OF this] obtain name where name: "oldest env q = Some name"
    "name \<in> fst ` set (List.map_filter ?first ?order)" by (auto simp: oldest_def)
  then obtain x b where "fst x = name" "b \<in> set ?order" "?first b = Some x"
    by (auto simp: List.map_filter_def)
  then have "name \<in> fst ` set (rq_mailboxes q)"
    using same by (cases b; cases "snd b") (auto simp: rev_image_eqI)
  then obtain queue where queue: "hm_get (rq_mailboxes q) name = Some queue"
    by (metis (no_types, lifting) domIff dom_map_of_conv_image_fst not_Some_eq)
  then have "queue \<noteq> []" using get_box_ok [OF assms(1)] by (auto simp: box_ok_def)
  with name(1) queue show ?thesis by (cases queue) (simp_all add: discard_oldest_def)
qed

lemma room_is_made:
  assumes order: "\<And>boxes. mset (re_order env boxes) = mset boxes"
  shows "relay_ok q \<Longrightarrow> need \<le> MAX_TOTAL_BYTES \<Longrightarrow> fst (make_room env need q)"
  using order
proof (induction env need q rule: make_room.induct)
  case (1 env need q)
  show ?case
  proof (cases "rq_total_bytes q + need \<le> MAX_TOTAL_BYTES")
    case False
    then have "rq_mailboxes q \<noteq> []" using 1(2,3) by (auto simp: relay_ok_def)
    then obtain q' where q': "discard_oldest env q = Some q'" using oldest_exists [OF 1(2) 1(4)] by auto
    have "fst (make_room env need q')"
      by (rule 1(1) [OF False q' relay_ok_discard(1) [OF 1(2) q'] 1(3,4)])
    with False q' show ?thesis by (subst make_room.simps) simp
  qed (simp add: make_room.simps)
qed

lemma box_expire:
  "hm_ok (rq_mailboxes q) \<Longrightarrow>
     box (expire now q) name = filter (\<lambda>h. max 0 (now - hl_deposited h) < ENVELOPE_TTL) (box q name)"
proof -
  let ?keep = "\<lambda>h. max 0 (now - hl_deposited h) < ENVELOPE_TTL"
  have "(case hm_get (filter (\<lambda>b. snd b \<noteq> []) (map (\<lambda>(n, queue). (n, filter ?keep queue)) boxes)) name of
      Some queue \<Rightarrow> queue | None \<Rightarrow> []) =
    filter ?keep (case hm_get boxes name of Some queue \<Rightarrow> queue | None \<Rightarrow> [])" if "hm_ok boxes" for boxes
    using that
  proof (induction boxes)
    case (Cons b boxes)
    obtain n queue where b: "b = (n, queue)" by (cases b)
    have "hm_get (filter (\<lambda>b. snd b \<noteq> []) (map (\<lambda>(n, queue). (n, filter ?keep queue)) boxes)) n = None"
      using Cons.prems by (auto simp: hm_ok_def b map_of_eq_None_iff image_iff)
    moreover have "hm_ok boxes" using Cons.prems by (simp add: hm_ok_def)
    ultimately show ?case using Cons.IH by (auto simp: b)
  qed simp
  then show "hm_ok (rq_mailboxes q) \<Longrightarrow> ?thesis"
    by (simp add: box_def expire_def expire_older_than_def Let_def)
qed

text \<open>What of a mailbox has not expired yet, and the mailboxes where that is anything.\<close>

definition unexpired :: "int \<Rightarrow> relay_queue \<Rightarrow> string \<Rightarrow> held list" where
  "unexpired now q name = filter (\<lambda>h. now - hl_deposited h < ENVELOPE_TTL) (box q name)"

definition live :: "int \<Rightarrow> relay_queue \<Rightarrow> string set" where
  "live now q = {name \<in> fst ` set (rq_mailboxes q). unexpired now q name \<noteq> []}"

lemma box_expire_unexpired: "relay_ok q \<Longrightarrow> box (expire now q) name = unexpired now q name"
  by (auto simp: box_expire relay_ok_def unexpired_def ENVELOPE_TTL_def intro: filter_cong)

lemma box_none: "relay_ok q \<Longrightarrow> hm_get (rq_mailboxes q) name = None \<longleftrightarrow> box q name = []"
  using get_box_ok [of q name] by (auto simp: box_def box_ok_def split: option.split)

lemma live_exactly: "name \<in> live now q \<longleftrightarrow> unexpired now q name \<noteq> []"
proof -
  have "name \<in> fst ` set (rq_mailboxes q)" if "box q name \<noteq> []"
    using that by (auto simp: box_def map_of_eq_None_iff split: option.splits) (metis map_of_eq_None_iff not_None_eq)
  moreover have "box q name \<noteq> []" if "unexpired now q name \<noteq> []" using that by (auto simp: unexpired_def)
  ultimately show ?thesis by (auto simp: live_def)
qed

lemma expire_names:
  assumes "relay_ok q"
  shows "hm_get (rq_mailboxes (expire now q)) name = None \<longleftrightarrow> name \<notin> live now q"
    and "length (rq_mailboxes (expire now q)) = card (live now q)"
proof -
  note ok = relay_ok_expire [OF assms, of now]
  show names: "hm_get (rq_mailboxes (expire now q)) name = None \<longleftrightarrow> name \<notin> live now q" for name
    using assms by (simp add: box_none [OF ok] box_expire_unexpired live_exactly)
  then have "live now q = set (map fst (rq_mailboxes (expire now q)))"
    by (auto simp: map_of_eq_None_iff simp del: not_None_eq)
  moreover have "distinct (map fst (rq_mailboxes (expire now q)))" using ok by (simp add: relay_ok_def hm_ok_def)
  ultimately show "length (rq_mailboxes (expire now q)) = card (live now q)"
    by (simp add: distinct_card del: set_map)
qed

lemma deposit_outcome:
  assumes order: "\<And>boxes. mset (re_order env boxes) = mset boxes" and ok: "relay_ok q"
  shows "fst (deposit env now mailbox envelope q) =
     (if MAX_ENVELOPE_BYTES < length envelope
      then Inl (RelayLimit (TooLarge MAX_ENVELOPE_BYTES (length envelope)))
      else if mailbox \<notin> live now q \<and> card (live now q) = MAX_MAILBOXES then Inl (RelayFull ''mailboxes'')
      else Inr ())"
proof -
  have "fst (make_room env (length envelope) (expire now q))" if "length envelope \<le> MAX_ENVELOPE_BYTES"
    using that by (intro room_is_made [OF order] relay_ok_expire [OF ok])
      (simp add: MAX_ENVELOPE_BYTES_def MAX_TOTAL_BYTES_def)
  moreover have "card (live now q) \<le> MAX_MAILBOXES"
    using relay_ok_expire [OF ok, of now] by (simp add: relay_ok_def expire_names [OF ok])
  ultimately show ?thesis
    by (auto simp: deposit_def check_frame_length_def Let_def case_prod_unfold expire_names [OF ok] split: bool.split)
qed

lemma deposit_stores:
  assumes "fst (deposit env now mailbox envelope q) = Inr ()"
  shows "\<exists>kept. box (snd (deposit env now mailbox envelope q)) mailbox =
     kept @ [\<lparr>hl_bytes = envelope, hl_deposited = now\<rparr>]"
  using assms
  by (auto simp: deposit_def Let_def case_prod_unfold box_def update_conv' split: sum.splits if_splits bool.splits)

text \<open>While there is room nothing that has not expired is given up.\<close>

lemma deposit_keeps:
  assumes ok: "relay_ok q" and "fst (deposit env now mailbox envelope q) = Inr ()"
    and "held_bytes (expire now q) + length envelope \<le> MAX_TOTAL_BYTES"
    and "length (unexpired now q mailbox) < MAX_QUEUED_ENVELOPES"
  shows "box (snd (deposit env now mailbox envelope q)) name =
     unexpired now q name @ (if name = mailbox then [\<lparr>hl_bytes = envelope, hl_deposited = now\<rparr>] else [])"
proof -
  have "make_room env (length envelope) (expire now q) = (True, expire now q)"
    using assms(3) by (simp add: make_room.simps held_bytes_def)
  then have "box (snd (deposit env now mailbox envelope q)) name =
      box (expire now q) name @ (if name = mailbox then [\<lparr>hl_bytes = envelope, hl_deposited = now\<rparr>] else [])"
    using assms(2,4) box_expire_unexpired [OF ok, of now mailbox, unfolded box_def]
    by (auto simp: deposit_def Let_def box_def update_conv' split: sum.splits if_splits)
  then show ?thesis by (simp add: box_expire_unexpired [OF ok])
qed

text \<open>
  C27: the relay cannot be exhausted and does not stop working. Whoever connects, whatever is asked and
  however long the run, the relay holds at most 4096 mailboxes of at most 256 envelopes of at most a
  mebibyte, at most 256 mebibytes in all, and its count of bytes is exact. Whatever the order in which
  the map is iterated, the outcome of a deposit is determined: it is too large; or its mailbox has
  nothing unexpired in it and 4096 others have; or it is accepted, and then the envelope is the last
  of its mailbox. While the bytes and the mailbox have room, every mailbox keeps all that has not
  expired.
\<close>

theorem relay_is_bounded:
  assumes "\<And>boxes. mset (re_order env boxes) = mset boxes"
  shows "let q = ry_queue (relay_run env evs); r = deposit env now mailbox envelope q;
       new = \<lparr>hl_bytes = envelope, hl_deposited = now\<rparr>
     in relay_ok q \<and> relay_ok (snd r) \<and>
       fst r = (if MAX_ENVELOPE_BYTES < length envelope
                then Inl (RelayLimit (TooLarge MAX_ENVELOPE_BYTES (length envelope)))
                else if mailbox \<notin> live now q \<and> card (live now q) = MAX_MAILBOXES
                then Inl (RelayFull ''mailboxes'')
                else Inr ()) \<and>
       (fst r = Inr () \<longrightarrow> (\<exists>kept. box (snd r) mailbox = kept @ [new])) \<and>
       (fst r = Inr () \<and> held_bytes (expire now q) + length envelope \<le> MAX_TOTAL_BYTES \<and>
          length (unexpired now q mailbox) < MAX_QUEUED_ENVELOPES \<longrightarrow>
          (\<forall>name. box (snd r) name = unexpired now q name @ (if name = mailbox then [new] else [])))"
proof -
  let ?q = "ry_queue (relay_run env evs)"
  have ok: "relay_ok ?q" by (rule relay_ok_run)
  show ?thesis
    unfolding Let_def
  proof (intro conjI impI allI)
    show "fst (deposit env now mailbox envelope ?q) =
       (if MAX_ENVELOPE_BYTES < length envelope
        then Inl (RelayLimit (TooLarge MAX_ENVELOPE_BYTES (length envelope)))
        else if mailbox \<notin> live now ?q \<and> card (live now ?q) = MAX_MAILBOXES then Inl (RelayFull ''mailboxes'')
        else Inr ())"
      using assms ok by (rule deposit_outcome)
  qed (simp_all add: ok relay_ok_deposit deposit_stores deposit_keeps)
qed

section \<open>Mail is what a proven peer deposited\<close>

abbreviation waiting_in :: "relay_queue \<Rightarrow> string \<Rightarrow> string multiset" where
  "waiting_in q name \<equiv> mset (map (\<lambda>h. encode_hex (hl_bytes h)) (box q name))"

text \<open>What an entry of the log put into a mailbox, and what it took out of it.\<close>

fun put_into :: "relay_env \<Rightarrow> string \<Rightarrow> bytes \<times> peer_id option \<times> relay_request \<times> relay_response \<Rightarrow> string multiset" where
  "put_into env name (_, Some me, Deposit recipient envelope, Accepted) =
     (case (peer_from_hex (re_curve env) recipient, decode_hex envelope) of
        (Inr p, Some data) \<Rightarrow> if mailbox_of env me p = name then {#encode_hex data#} else {#}
      | _ \<Rightarrow> {#})"
| "put_into env name _ = {#}"

fun taken_from :: "relay_env \<Rightarrow> string \<Rightarrow> bytes \<times> peer_id option \<times> relay_request \<times> relay_response \<Rightarrow> string multiset" where
  "taken_from env name (_, Some me, Collect sender, Envelopes es) =
     (case peer_from_hex (re_curve env) sender of
        Inr p \<Rightarrow> if mailbox_of env p me = name then mset es else {#}
      | _ \<Rightarrow> {#})"
| "taken_from env name _ = {#}"

definition deposited :: "relay_env \<Rightarrow> string \<Rightarrow> relay_log \<Rightarrow> string multiset" where
  "deposited env name log = sum_list (map (put_into env name) log)"

definition collected :: "relay_env \<Rightarrow> string \<Rightarrow> relay_log \<Rightarrow> string multiset" where
  "collected env name log = sum_list (map (taken_from env name) log)"

text \<open>A connection has proved an identity: it signed the challenge of this very connection.\<close>

definition proven :: "relay_env \<Rightarrow> relay_log \<Rightarrow> bytes \<Rightarrow> peer_id \<Rightarrow> bool" where
  "proven env log nonce p \<longleftrightarrow>
     (\<exists>before peer signature data. (nonce, before, Authenticate peer signature, Authenticated) \<in> set log \<and>
        peer_from_hex (re_curve env) peer = Inr p \<and> decode_hex signature = Some data \<and>
        peer_verify (re_curve env) p (challenge_payload nonce) data = Inr ())"

definition served :: "relay_response \<Rightarrow> bool" where
  "served r = (case r of Accepted \<Rightarrow> True | Envelopes _ \<Rightarrow> True | _ \<Rightarrow> False)"

lemma waiting_expire: "hm_ok (rq_mailboxes q) \<Longrightarrow> waiting_in (expire now q) name \<subseteq># waiting_in q name"
  by (simp add: box_expire image_mset_subseteq_mono multiset_filter_subset flip: mset_map mset_filter)
    (metis mset_filter mset_map image_mset_subseteq_mono multiset_filter_subset)

lemma waiting_discard:
  assumes "discard_oldest env q = Some q'"
  shows "waiting_in q' name \<subseteq># waiting_in q name"
proof -
  obtain n dropped rest where get: "hm_get (rq_mailboxes q) n = Some (dropped # rest)"
    and q': "rq_mailboxes q' =
       (if rest = [] then hm_remove n (rq_mailboxes q) else hm_insert n rest (rq_mailboxes q))"
    using assms by (auto simp: discard_oldest_def split: option.splits list.splits)
  have "box q' name = (if name = n then rest else box q name)"
    using get by (auto simp: box_def q' update_conv' delete_conv')
  moreover have "box q n = dropped # rest" using get by (simp add: box_def)
  ultimately show ?thesis by auto
qed

lemma waiting_make_room: "make_room env need q = (fits, q') \<Longrightarrow> waiting_in q' name \<subseteq># waiting_in q name"
proof (induction env need q rule: make_room.induct)
  case (1 env need q)
  show ?case
  proof (cases "rq_total_bytes q + need \<le> MAX_TOTAL_BYTES \<or> discard_oldest env q = None")
    case True
    then show ?thesis using 1(2) by (subst (asm) make_room.simps) (auto split: if_splits)
  next
    case False
    then obtain q1 where q1: "discard_oldest env q = Some q1" by auto
    then have "make_room env need q1 = (fits, q')"
      using 1(2) False by (subst (asm) make_room.simps) (auto split: if_splits)
    with 1(1) [OF _ q1] False waiting_discard [OF q1, of name] show ?thesis
      using subset_mset.order_trans by blast
  qed
qed

lemma waiting_deposit:
  assumes "relay_ok q"
  shows "waiting_in (snd (deposit env now mailbox envelope q)) name \<subseteq>#
    waiting_in q name +
    (if fst (deposit env now mailbox envelope q) = Inr () \<and> mailbox = name then {#encode_hex envelope#} else {#})"
proof -
  let ?q1 = "expire now q"
  have e: "waiting_in ?q1 name \<subseteq># waiting_in q name" using assms by (intro waiting_expire) (simp add: relay_ok_def)
  obtain fits q2 where room: "make_room env (length envelope) ?q1 = (fits, q2)" by fastforce
  have r: "waiting_in q2 name \<subseteq># waiting_in q name"
    using waiting_make_room [OF room] e subset_mset.order_trans by blast
  have tail: "image_mset f (mset (tl xs)) \<subseteq># image_mset f (mset xs)" for f :: "held \<Rightarrow> string" and xs
    by (cases xs) auto
  show ?thesis
  proof (cases "length envelope \<le> MAX_ENVELOPE_BYTES \<and> fits \<and>
      \<not> (hm_get (rq_mailboxes ?q1) mailbox = None \<and> MAX_MAILBOXES \<le> length (rq_mailboxes ?q1))")
    case False
    then show ?thesis
      using e r room by (auto simp: deposit_def check_frame_length_def Let_def split: bool.split)
  next
    case True
    let ?queue = "box q2 mailbox"
    let ?kept = "if MAX_QUEUED_ENVELOPES \<le> length ?queue then tl ?queue else ?queue"
    have "fst (deposit env now mailbox envelope q) = Inr ()"
      "box (snd (deposit env now mailbox envelope q)) name =
        (if mailbox = name then ?kept @ [\<lparr>hl_bytes = envelope, hl_deposited = now\<rparr>] else box q2 name)"
      using True room by (auto simp: deposit_def check_frame_length_def Let_def box_def update_conv')
    then show ?thesis using r tail subset_mset.order_trans by (auto intro: subset_mset.order_trans)
  qed
qed

lemma waiting_collect:
  assumes "relay_ok q"
  shows "(if mailbox = name then mset (map encode_hex (fst (collect now mailbox q))) else {#}) +
    waiting_in (snd (collect now mailbox q)) name \<subseteq># waiting_in q name"
proof -
  have "waiting_in (expire now q) name \<subseteq># waiting_in q name"
    using assms by (intro waiting_expire) (simp add: relay_ok_def)
  then show ?thesis by (auto simp: collect_def Let_def box_def delete_conv' comp_def)
qed

lemma waiting_handle:
  assumes "relay_ok q" and "handle env now request client q = (response, client', q')"
  shows "taken_from env name (nonce, cl_identity client, request, response) + waiting_in q' name \<subseteq>#
    waiting_in q name + put_into env name (nonce, cl_identity client, request, response)"
proof (cases request)
  case (Authenticate peer signature)
  then show ?thesis
    using assms(2) by (auto simp: handle_def refused_def split: prod.splits sum.splits)
next
  case (Deposit recipient envelope)
  show ?thesis
  proof (cases "\<exists>me p data. cl_identity client = Some me \<and> peer_from_hex (re_curve env) recipient = Inr p \<and>
      decode_hex envelope = Some data")
    case False
    then show ?thesis
      using assms(2) by (auto simp: handle_def Deposit refused_def split: option.splits sum.splits)
  next
    case True
    then obtain me p data where known: "cl_identity client = Some me"
      "peer_from_hex (re_curve env) recipient = Inr p" "decode_hex envelope = Some data" by auto
    show ?thesis
      using assms(2) waiting_deposit [OF assms(1), of env now "mailbox_of env me p" data name]
      by (auto simp: handle_def Deposit refused_def known split: prod.splits sum.splits)
  qed
next
  case (Collect sender)
  show ?thesis
  proof (cases "\<exists>me p. cl_identity client = Some me \<and> peer_from_hex (re_curve env) sender = Inr p")
    case False
    then show ?thesis
      using assms(2) by (auto simp: handle_def Collect refused_def split: option.splits sum.splits)
  next
    case True
    then obtain me p where known: "cl_identity client = Some me"
      "peer_from_hex (re_curve env) sender = Inr p" by auto
    show ?thesis
      using assms(2) waiting_collect [OF assms(1), of "mailbox_of env p me" name now]
      by (auto simp: handle_def Collect known split: prod.splits)
  qed
qed

text \<open>The identity of a connection changes only by a proof, and nothing is served without one.\<close>

lemma handle_identity:
  assumes "handle env now request client q = (response, client', q')"
  shows "cl_nonce client' = cl_nonce client"
    and "served response \<Longrightarrow> cl_identity client \<noteq> None"
    and "cl_identity client' = cl_identity client \<or>
      (\<exists>p. cl_identity client' = Some p \<and>
        proven env [(cl_nonce client, cl_identity client, request, response)] (cl_nonce client) p)"
  using assms
  by (auto simp: handle_def refused_def served_def authenticate_def proven_def
      split: relay_request.splits prod.splits sum.splits option.splits)

lemma proven_mono: "proven env log nonce p \<Longrightarrow> set log \<subseteq> set log' \<Longrightarrow> proven env log' nonce p"
  by (fastforce simp: proven_def)

definition served_when_proven :: "relay_env \<Rightarrow> relay_log \<Rightarrow> bool" where
  "served_when_proven env log \<longleftrightarrow>
     (\<forall>k < length log. case log ! k of (nonce, who, request, response) \<Rightarrow>
        served response \<longrightarrow> (\<exists>p. who = Some p \<and> proven env (take k log) nonce p))"

lemma served_when_proven_append:
  "served_when_proven env log \<Longrightarrow> (served response \<Longrightarrow> \<exists>p. who = Some p \<and> proven env log nonce p) \<Longrightarrow>
     served_when_proven env (log @ [(nonce, who, request, response)])"
  by (auto simp: served_when_proven_def nth_append less_Suc_eq)

definition mail_ok :: "relay_env \<Rightarrow> relay_system \<Rightarrow> bool" where
  "mail_ok env sys \<longleftrightarrow>
     relay_ok (ry_queue sys) \<and>
     (\<forall>name. collected env name (ry_log sys) + waiting_in (ry_queue sys) name \<subseteq># deposited env name (ry_log sys)) \<and>
     (\<forall>i client p. ry_clients sys i = Some client \<longrightarrow> cl_identity client = Some p \<longrightarrow>
        proven env (ry_log sys) (cl_nonce client) p) \<and>
     served_when_proven env (ry_log sys)"

lemma mail_ok_step:
  assumes "mail_ok env sys"
  shows "mail_ok env (relay_step env ev sys)"
proof (cases ev)
  case (Opened i nonce)
  with assms show ?thesis by (auto simp: mail_ok_def client_new_def split: if_splits)
next
  case (Asked i now request)
  show ?thesis
  proof (cases "ry_clients sys i")
    case None
    with assms Asked show ?thesis by simp
  next
    case (Some client)
    obtain response client' q' where h: "handle env now request client (ry_queue sys) = (response, client', q')"
      by (metis prod_cases3)
    let ?entry = "(cl_nonce client, cl_identity client, request, response)"
    let ?log = "ry_log sys @ [?entry]"
    let ?sys = "\<lparr>ry_clients = (ry_clients sys)(i \<mapsto> client'), ry_queue = q', ry_log = ?log\<rparr>"
    have step: "relay_step env ev sys = ?sys" using Asked Some h by simp
    have ok: "relay_ok (ry_queue sys)"
      and mail: "\<And>name. collected env name (ry_log sys) + waiting_in (ry_queue sys) name \<subseteq># deposited env name (ry_log sys)"
      and ids: "\<And>i client p. ry_clients sys i = Some client \<Longrightarrow> cl_identity client = Some p \<Longrightarrow>
        proven env (ry_log sys) (cl_nonce client) p"
      and past: "served_when_proven env (ry_log sys)"
      using assms unfolding mail_ok_def by (simp, blast, blast, blast)
    have older: "proven env ?log nonce p" if "proven env (ry_log sys) nonce p" for nonce p
      using that by (rule proven_mono) auto
    have newer: "proven env ?log nonce p" if "proven env [?entry] nonce p" for nonce p
      using that by (rule proven_mono) auto
    have "relay_ok q'" using relay_ok_handle [OF ok, of env now request client] h by simp
    moreover have "collected env name ?log + waiting_in q' name \<subseteq># deposited env name ?log" for name
    proof -
      note add = subset_mset.add_mono [OF mail [of name] subset_mset.order_refl [of "put_into env name ?entry"]]
      note new = subset_mset.add_mono [OF subset_mset.order_refl [of "collected env name (ry_log sys)"]
        waiting_handle [OF ok h, of name "cl_nonce client"]]
      show ?thesis
        using subset_mset.order_trans [OF new] add by (simp add: collected_def deposited_def ac_simps)
    qed
    moreover have "proven env ?log (cl_nonce c) p"
      if "(if j = i then Some client' else ry_clients sys j) = Some c" "cl_identity c = Some p" for j c p
      using that older newer ids [OF Some] ids [of j c] handle_identity(1,3) [OF h] by (auto split: if_splits)
    moreover have "served_when_proven env ?log"
      using handle_identity(2) [OF h] ids [OF Some] by (intro served_when_proven_append [OF past]) auto
    ultimately show ?thesis unfolding step mail_ok_def relay_system.simps fun_upd_apply by blast
  qed
qed

lemma mail_ok_run: "mail_ok env (relay_run env evs)"
proof -
  have "mail_ok env (fold (relay_step env) evs sys)" if "mail_ok env sys" for sys
    using that
  proof (induction evs arbitrary: sys)
    case (Cons ev evs)
    from Cons.IH [OF mail_ok_step [OF Cons.prems]] show ?case by simp
  qed simp
  moreover have "mail_ok env relay_start"
    by (simp add: mail_ok_def relay_start_def queue_new_def relay_ok_def MAX_TOTAL_BYTES_def MAX_MAILBOXES_def
        collected_def deposited_def box_def served_when_proven_def)
  ultimately show ?thesis unfolding relay_run_def .
qed

text \<open>
  C28: the relay delivers what was deposited, to whom it was deposited for. In any run, with any
  connections, requests and times, the envelopes handed out from a mailbox are, with their multiplicity,
  among those a deposit into that mailbox had accepted, so that none is forged, altered or handed out
  twice; and every request that was served came on a connection that had signed the challenge of this
  very connection with the key of the identity the mailbox is derived from.
\<close>

theorem relay_delivers_what_was_deposited:
  "collected env name (ry_log (relay_run env evs)) \<subseteq># deposited env name (ry_log (relay_run env evs)) \<and>
   served_when_proven env (ry_log (relay_run env evs))"
  using mail_ok_run [of env evs]
  by (auto simp: mail_ok_def intro: subset_mset.order_trans [OF mset_subset_eq_add_left])

text \<open>
  A run that delivers: a peer of the sample curve deposits an envelope for another, who collects it, once.
\<close>

definition sample_relay :: relay_env where
  "sample_relay = \<lparr>re_curve = sample_curve, re_sha256 = (\<lambda>data. data), re_order = (\<lambda>boxes. boxes)\<rparr>"

definition sample_peer :: "8 word \<Rightarrow> bytes" where
  "sample_peer k = replicate 32 k"

definition sample_letter :: bytes where
  "sample_letter = [5]"

definition sample_events :: "relay_event list" where
  "sample_events =
     [Opened 0 [1], Opened 1 [2],
      Asked 0 0 (Deposit (encode_hex (sample_peer 9)) (encode_hex sample_letter)),
      Asked 0 1 (Authenticate (encode_hex (sample_peer 7)) (encode_hex (sample_peer 7 @ sample_peer 7))),
      Asked 0 2 (Deposit (encode_hex (sample_peer 9)) (encode_hex sample_letter)),
      Asked 1 3 (Authenticate (encode_hex (sample_peer 9)) (encode_hex (sample_peer 9 @ sample_peer 9))),
      Asked 1 4 (Collect (encode_hex (sample_peer 7))),
      Asked 1 5 (Collect (encode_hex (sample_peer 7)))]"

lemma sample_known:
  "peer_from_hex sample_curve (encode_hex (sample_peer k)) = Inr (PeerId (sample_peer k))"
  "peer_verify sample_curve (PeerId (sample_peer k)) data (sample_peer k @ sample_peer k) = Inr ()"
  by (simp_all add: peer_from_hex_def sample_curve_def decode_encode_hex sample_peer_def)

lemma length_letter: "length sample_letter = 1"
  by (simp add: sample_letter_def)

lemma sample_delivery:
  "map (snd \<circ> snd \<circ> snd) (ry_log (relay_run sample_relay sample_events)) =
     [refused Unauthenticated, Authenticated, Accepted, Authenticated, Envelopes [encode_hex sample_letter], Envelopes []]"
  by (simp add: relay_run_def sample_events_def relay_start_def queue_new_def handle_def client_new_def
      authenticate_def sample_relay_def sample_known decode_encode_hex deposit_def collect_def Let_def
      check_frame_length_def MAX_ENVELOPE_BYTES_def MAX_TOTAL_BYTES_def MAX_QUEUED_ENVELOPES_def MAX_MAILBOXES_def
      expire_def expire_older_than_def ENVELOPE_TTL_def make_room.simps length_letter
      del: peer_verify.simps)

theorem relay_is_bounded_witness:
  "relay_ok (ry_queue (relay_run sample_relay sample_events)) \<and>
   fst (deposit sample_relay 6 ''box'' [1, 2] (ry_queue (relay_run sample_relay sample_events))) = Inr ()"
proof -
  have empty: "rq_mailboxes (ry_queue (relay_run sample_relay sample_events)) = []"
    by (simp add: relay_run_def sample_events_def relay_start_def queue_new_def handle_def client_new_def
        authenticate_def sample_relay_def sample_known decode_encode_hex deposit_def collect_def Let_def
        check_frame_length_def MAX_ENVELOPE_BYTES_def MAX_TOTAL_BYTES_def MAX_QUEUED_ENVELOPES_def MAX_MAILBOXES_def
        expire_def expire_older_than_def ENVELOPE_TTL_def make_room.simps length_letter
        del: peer_verify.simps)
  have "\<And>boxes. mset (re_order sample_relay boxes) = mset boxes" by (simp add: sample_relay_def)
  from relay_is_bounded [OF this, of sample_events 6 "''box''" "[1, 2]"] show ?thesis
    by (simp add: Let_def live_def empty MAX_ENVELOPE_BYTES_def MAX_MAILBOXES_def)
qed

end
