(* ===== verification/Session.thy ===== *)
theory Session
  imports Relay Ra Text_Safety
begin

text \<open>
  Sessions between peers and the protocol over a stream (\<open>src/src/federation/session.rs\<close>,
  \<open>transport.rs\<close>): the signed handshake, the agreed key, sealing and opening, the frames and the bounds
  on a message. The primitives (Ed25519, X25519, HKDF, ChaCha20-Poly1305, SHA-256) and the JSON encodings
  are one argument; the random secret of an offer is an argument of it. A stream is what is still to be
  read and what was written.
\<close>

section \<open>The primitives\<close>

datatype wire_handshake = WireHandshake string string string

datatype message = BundleMessage evidence_bundle | Ack u64 string | Reject u64 string | Idle

record session_env =
  se_curve :: ed25519
  se_public :: "bytes \<Rightarrow> bytes"
  se_shared :: "bytes \<Rightarrow> bytes \<Rightarrow> bytes"
  se_hkdf :: "bytes \<Rightarrow> bytes \<Rightarrow> bytes \<Rightarrow> bytes option"
  se_encrypt :: "bytes \<Rightarrow> bytes \<Rightarrow> bytes \<Rightarrow> bytes \<Rightarrow> bytes option"
  se_decrypt :: "bytes \<Rightarrow> bytes \<Rightarrow> bytes \<Rightarrow> bytes \<Rightarrow> bytes option"
  se_sha256 :: "bytes \<Rightarrow> bytes"
  se_handshake_to_json :: "wire_handshake \<Rightarrow> bytes option"
  se_handshake_from_json :: "bytes \<Rightarrow> wire_handshake option"
  se_to_json :: "message \<Rightarrow> bytes option"
  se_from_json :: "bytes \<Rightarrow> message option"

section \<open>The handshake\<close>

definition HKDF_INFO :: bytes where
  "HKDF_INFO = map char_byte ''idnx-federation-session-v1''"

record handshake =
  hs_peer :: peer_id
  hs_ephemeral :: bytes
  hs_signature :: bytes

definition signed_ephemeral :: "bytes \<Rightarrow> bytes" where
  "signed_ephemeral ephemeral = map char_byte ''idnx-ephemeral-v1'' @ [10] @ ephemeral"

definition handshake_verify :: "session_env \<Rightarrow> handshake \<Rightarrow> identity_error + unit" where
  "handshake_verify env h =
     peer_verify (se_curve env) (hs_peer h) (signed_ephemeral (hs_ephemeral h)) (hs_signature h)"

record session_offer =
  of_secret :: bytes
  of_handshake :: handshake

definition offer_new :: "session_env \<Rightarrow> bytes \<Rightarrow> peer_key \<Rightarrow> session_offer" where
  "offer_new env secret key =
     (let ephemeral = se_public env secret
      in \<lparr>of_secret = secret,
          of_handshake =
            \<lparr>hs_peer = key_id (se_curve env) key, hs_ephemeral = ephemeral,
             hs_signature = key_sign (se_curve env) key (signed_ephemeral ephemeral)\<rparr>\<rparr>)"

datatype session_error =
    IdentityError identity_error
  | WrongPeer string string
  | KeyDerivation
  | Cipher
  | SessionLimit limit_error
  | CounterExhausted

record session =
  ss_key :: bytes
  ss_peer :: peer_id
  ss_send_prefix :: u8
  ss_receive_prefix :: u8
  ss_sent :: u64
  ss_authentication_code :: string

text \<open>Arrays and text compare as their bytes do.\<close>

fun bytes_le :: "bytes \<Rightarrow> bytes \<Rightarrow> bool" where
  "bytes_le [] _ = True"
| "bytes_le (_ # _) [] = False"
| "bytes_le (a # as) (b # bs) = (a < b \<or> a = b \<and> bytes_le as bs)"

definition text_le :: "string \<Rightarrow> string \<Rightarrow> bool" where
  "text_le a b = bytes_le (map char_byte a) (map char_byte b)"

definition be_value :: "bytes \<Rightarrow> 'a::len word" where
  "be_value bs = fold (\<lambda>b a. push_bit 8 a OR ucast b) bs 0"

definition three_digits :: "nat \<Rightarrow> string" where
  "three_digits n = map (\<lambda>d. char_of (48 + d)) [n div 100 mod 10, n div 10 mod 10, n mod 10]"

definition authentication_code :: "session_env \<Rightarrow> peer_id \<Rightarrow> peer_id \<Rightarrow> string" where
  "authentication_code env a b =
     (let (first, second) =
            (if text_le (peer_to_hex a) (peer_to_hex b) then (peer_to_hex a, peer_to_hex b)
             else (peer_to_hex b, peer_to_hex a));
          digest = se_sha256 env (map char_byte (''idnx-pairing-code-v1'' @ first @ second));
          code = unat (be_value (take 4 digest) :: u32) mod 1000000
      in three_digits (code div 1000) @ ''-'' @ three_digits (code mod 1000))"

definition accept :: "session_env \<Rightarrow> session_offer \<Rightarrow> handshake \<Rightarrow> peer_id \<Rightarrow> session_error + session" where
  "accept env mine theirs expected =
     (case handshake_verify env theirs of
        Inl e \<Rightarrow> Inl (IdentityError e)
      | Inr _ \<Rightarrow>
          if hs_peer theirs \<noteq> expected then Inl (WrongPeer (peer_to_hex expected) (peer_to_hex (hs_peer theirs)))
          else
            (let ours = hs_ephemeral (of_handshake mine); their = hs_ephemeral theirs;
                 shared = se_shared env (of_secret mine) their;
                 we_are_first = bytes_le ours their;
                 salt = (if we_are_first then ours @ their else their @ ours)
             in case se_hkdf env salt shared HKDF_INFO of
                  None \<Rightarrow> Inl KeyDerivation
                | Some key \<Rightarrow>
                    Inr \<lparr>ss_key = key, ss_peer = hs_peer theirs,
                         ss_send_prefix = (if we_are_first then 0 else 1),
                         ss_receive_prefix = (if we_are_first then 1 else 0), ss_sent = 0,
                         ss_authentication_code =
                           authentication_code env (hs_peer (of_handshake mine)) (hs_peer theirs)\<rparr>))"

section \<open>Sealing and opening\<close>

definition nonce :: "u8 \<Rightarrow> u64 \<Rightarrow> bytes" where
  "nonce direction counter = [direction, 0, 0, 0] @ be_bytes 8 counter"

definition seal ::
    "session_env \<Rightarrow> session \<Rightarrow> bytes \<Rightarrow> bytes \<Rightarrow> (session_error + bytes) \<times> session" where
  "seal env s plaintext associated =
     (let counter = ss_sent s
      in if counter = -1 then (Inl CounterExhausted, s)
         else
           (let s' = s\<lparr>ss_sent := counter + 1\<rparr>
            in case se_encrypt env (ss_key s) (nonce (ss_send_prefix s) counter) associated plaintext of
                 None \<Rightarrow> (Inl Cipher, s')
               | Some ciphertext \<Rightarrow> (Inr (be_bytes 8 counter @ ciphertext), s')))"

definition open_sealed :: "session_env \<Rightarrow> session \<Rightarrow> bytes \<Rightarrow> bytes \<Rightarrow> session_error + bytes" where
  "open_sealed env s framed associated =
     (case check_frame_length (length framed) MAX_ENVELOPE_BYTES of
        Inl e \<Rightarrow> Inl (SessionLimit e)
      | Inr _ \<Rightarrow>
          if length framed < 8 then Inl Cipher
          else
            (let counter = be_value (take 8 framed)
             in case se_decrypt env (ss_key s) (nonce (ss_receive_prefix s) counter) associated (drop 8 framed) of
                  None \<Rightarrow> Inl Cipher
                | Some plaintext \<Rightarrow> Inr plaintext))"

fun identity_error_text :: "identity_error \<Rightarrow> string" where
  "identity_error_text Malformed = ''malformed peer identity''"
| "identity_error_text BadSignature = ''signature does not verify''"

fun session_error_text :: "session_error \<Rightarrow> string" where
  "session_error_text (IdentityError e) = identity_error_text e"
| "session_error_text (WrongPeer expected offered) =
     ''handshake is from peer '' @ take 16 offered @ '' but '' @ take 16 expected @ '' was expected''"
| "session_error_text KeyDerivation = ''session key derivation failed''"
| "session_error_text Cipher = ''message could not be decrypted''"
| "session_error_text (SessionLimit e) = limit_error_text e"
| "session_error_text CounterExhausted = ''session message counter exhausted''"

definition ephemeral_hex :: "handshake \<Rightarrow> string" where
  "ephemeral_hex h = encode_hex (hs_ephemeral h)"

section \<open>Frames\<close>

datatype transport_error = TransportIo string | TransportMalformed string | TransportLimit limit_error | TransportSession session_error

fun transport_error_text :: "transport_error \<Rightarrow> string" where
  "transport_error_text (TransportIo e) = e"
| "transport_error_text (TransportMalformed what) = ''malformed '' @ what"
| "transport_error_text (TransportLimit e) = limit_error_text e"
| "transport_error_text (TransportSession e) = session_error_text e"

text \<open>
  A stream: the bytes that will arrive and the error after them, the bytes written, the number of further
  bytes that can be written (all of them for \<open>None\<close>) and the errors of a write and a flush.
\<close>

record stream =
  st_incoming :: bytes
  st_closed :: string
  st_written :: bytes
  st_room :: "nat option"
  st_broken :: string
  st_flush :: "string option"

definition stream_read :: "nat \<Rightarrow> stream \<Rightarrow> (transport_error + bytes) \<times> stream" where
  "stream_read n st =
     (if length (st_incoming st) < n then (Inl (TransportIo (st_closed st)), st\<lparr>st_incoming := []\<rparr>)
      else (Inr (take n (st_incoming st)), st\<lparr>st_incoming := drop n (st_incoming st)\<rparr>))"

definition stream_write :: "bytes \<Rightarrow> stream \<Rightarrow> (transport_error + unit) \<times> stream" where
  "stream_write data st =
     (case st_room st of
        None \<Rightarrow> (Inr (), st\<lparr>st_written := st_written st @ data\<rparr>)
      | Some n \<Rightarrow>
          if length data \<le> n then (Inr (), st\<lparr>st_written := st_written st @ data, st_room := Some (n - length data)\<rparr>)
          else (Inl (TransportIo (st_broken st)), st\<lparr>st_written := st_written st @ take n data, st_room := Some 0\<rparr>))"

definition stream_flush :: "stream \<Rightarrow> transport_error + unit" where
  "stream_flush st = (case st_flush st of None \<Rightarrow> Inr () | Some e \<Rightarrow> Inl (TransportIo e))"

definition read_frame :: "stream \<Rightarrow> (transport_error + bytes) \<times> stream" where
  "read_frame st =
     (case stream_read 4 st of
        (Inl e, st1) \<Rightarrow> (Inl e, st1)
      | (Inr len, st1) \<Rightarrow>
          (let claimed = unat (be_value len :: u32)
           in case check_frame_length claimed MAX_ENVELOPE_BYTES of
                Inl e \<Rightarrow> (Inl (TransportLimit e), st1)
              | Inr _ \<Rightarrow> stream_read claimed st1))"

definition write_frame :: "bytes \<Rightarrow> stream \<Rightarrow> (transport_error + unit) \<times> stream" where
  "write_frame payload st =
     (case check_frame_length (length payload) MAX_ENVELOPE_BYTES of
        Inl e \<Rightarrow> (Inl (TransportLimit e), st)
      | Inr _ \<Rightarrow>
          (case stream_write (be_bytes 4 (word_of_nat (length payload) :: u32)) st of
             (Inl e, st1) \<Rightarrow> (Inl e, st1)
           | (Inr _, st1) \<Rightarrow>
               (case stream_write payload st1 of
                  (Inl e, st2) \<Rightarrow> (Inl e, st2)
                | (Inr _, st2) \<Rightarrow> (stream_flush st2, st2))))"

section \<open>The protocol\<close>

definition FRAME_CONTEXT :: bytes where
  "FRAME_CONTEXT = map char_byte ''idnx-federation-frame-v1''"

definition from_handshake :: "handshake \<Rightarrow> wire_handshake" where
  "from_handshake h = WireHandshake (peer_to_hex (hs_peer h)) (encode_hex (hs_ephemeral h)) (encode_hex (hs_signature h))"

definition array_from_hex :: "nat \<Rightarrow> string \<Rightarrow> bytes option" where
  "array_from_hex n text =
     (case decode_hex text of None \<Rightarrow> None | Some data \<Rightarrow> if length data = n then Some data else None)"

fun to_handshake :: "session_env \<Rightarrow> wire_handshake \<Rightarrow> transport_error + handshake" where
  "to_handshake env (WireHandshake peer ephemeral signature) =
     (case peer_from_hex (se_curve env) peer of
        Inl _ \<Rightarrow> Inl (TransportMalformed ''peer'')
      | Inr p \<Rightarrow>
          (case array_from_hex 32 ephemeral of
             None \<Rightarrow> Inl (TransportMalformed ''ephemeral key'')
           | Some e \<Rightarrow>
               (case array_from_hex 64 signature of
                  None \<Rightarrow> Inl (TransportMalformed ''signature'')
                | Some s \<Rightarrow> Inr \<lparr>hs_peer = p, hs_ephemeral = e, hs_signature = s\<rparr>)))"

definition bundle_digest :: "session_env \<Rightarrow> evidence_bundle \<Rightarrow> string" where
  "bundle_digest env b =
     encode_hex (take 16 (se_sha256 env
       (be_bytes 2 (bu_schema_version b) @ map char_byte (bu_peer b) @ be_bytes 8 (bu_sequence b) @
        map char_byte (bu_signature b))))"

text \<open>The two halves of a handshake: what is written first, and what is read then.\<close>

definition answer_handshake ::
    "session_env \<Rightarrow> session_offer \<Rightarrow> peer_id option \<Rightarrow> stream \<Rightarrow> (transport_error + session) \<times> stream" where
  "answer_handshake env mine expected st =
     (case read_frame st of
        (Inl e, st1) \<Rightarrow> (Inl e, st1)
      | (Inr data, st1) \<Rightarrow>
          (case se_handshake_from_json env data of
             None \<Rightarrow> (Inl (TransportMalformed ''handshake''), st1)
           | Some wire \<Rightarrow>
               (case to_handshake env wire of
                  Inl e \<Rightarrow> (Inl e, st1)
                | Inr theirs \<Rightarrow>
                    (case accept env mine theirs (case expected of Some p \<Rightarrow> p | None \<Rightarrow> hs_peer theirs) of
                       Inl e \<Rightarrow> (Inl (TransportSession e), st1)
                     | Inr s \<Rightarrow> (Inr s, st1)))))"

definition greet :: "session_env \<Rightarrow> session_offer \<Rightarrow> stream \<Rightarrow> (transport_error + unit) \<times> stream" where
  "greet env mine st =
     (case se_handshake_to_json env (from_handshake (of_handshake mine)) of
        None \<Rightarrow> (Inl (TransportMalformed ''handshake''), st)
      | Some ours \<Rightarrow> write_frame ours st)"

definition do_handshake ::
    "session_env \<Rightarrow> bytes \<Rightarrow> peer_key \<Rightarrow> peer_id option \<Rightarrow> stream \<Rightarrow> (transport_error + session) \<times> stream" where
  "do_handshake env secret key expected st =
     (let mine = offer_new env secret key
      in case greet env mine st of
           (Inl e, st1) \<Rightarrow> (Inl e, st1)
         | (Inr _, st1) \<Rightarrow> answer_handshake env mine expected st1)"

definition send :: "session_env \<Rightarrow> session \<Rightarrow> message \<Rightarrow> stream \<Rightarrow> (transport_error + unit) \<times> session \<times> stream" where
  "send env s message st =
     (case se_to_json env message of
        None \<Rightarrow> (Inl (TransportMalformed ''message''), s, st)
      | Some plaintext \<Rightarrow>
          (case seal env s plaintext FRAME_CONTEXT of
             (Inl e, s') \<Rightarrow> (Inl (TransportSession e), s', st)
           | (Inr sealed, s') \<Rightarrow> (case write_frame sealed st of (r, st') \<Rightarrow> (r, s', st'))))"

fun check_fields :: "(string \<times> string) list \<Rightarrow> transport_error + unit" where
  "check_fields [] = Inr ()"
| "check_fields ((field, v) # rest) =
     (case check_text field v (if str_contains field ''vantage'' then MAX_VANTAGE_BYTES else MAX_TEXT_BYTES) of
        Inl e \<Rightarrow> Inl (TransportLimit e)
      | Inr _ \<Rightarrow> check_fields rest)"

fun check_message :: "message \<Rightarrow> transport_error + unit" where
  "check_message (BundleMessage b) =
     (case res_bind (check_record_count (length (bu_records b))) (\<lambda>_.
           res_bind (check_text ''vantage'' (bu_vantage b) MAX_VANTAGE_BYTES) (\<lambda>_.
           res_bind (check_text ''peer'' (bu_peer b) MAX_TEXT_BYTES) (\<lambda>_.
           check_text ''signature'' (bu_signature b) MAX_TEXT_BYTES))) of
        Inl e \<Rightarrow> Inl (TransportLimit e)
      | Inr _ \<Rightarrow> check_fields (concat (map evidence_text_fields (bu_records b))))"
| "check_message _ = Inr ()"

definition receive :: "session_env \<Rightarrow> session \<Rightarrow> stream \<Rightarrow> (transport_error + message) \<times> stream" where
  "receive env s st =
     (case read_frame st of
        (Inl e, st1) \<Rightarrow> (Inl e, st1)
      | (Inr sealed, st1) \<Rightarrow>
          (case open_sealed env s sealed FRAME_CONTEXT of
             Inl e \<Rightarrow> (Inl (TransportSession e), st1)
           | Inr plaintext \<Rightarrow>
               (case se_from_json env plaintext of
                  None \<Rightarrow> (Inl (TransportMalformed ''message''), st1)
                | Some message \<Rightarrow>
                    (case check_message message of Inl e \<Rightarrow> (Inl e, st1) | Inr _ \<Rightarrow> (Inr message, st1)))))"

definition reconnect_delay :: "u32 \<Rightarrow> nat" where
  "reconnect_delay consecutive_failures = min (500 * 2 ^ min (unat consecutive_failures) 8) 60000"

section \<open>A conversation\<close>

text \<open>
  Two ends and the bytes between them. An end says a message or hears one, in any order; hearing waits while
  nothing has arrived. Each end keeps what it sent and received, its errors and the nonces it encrypted under.
\<close>

record talk_end =
  te_session :: session
  te_inbox :: bytes
  te_sent :: "message list"
  te_received :: "message list"
  te_failed :: "transport_error list"
  te_nonces :: "(bytes \<times> bytes) list"

definition end_new :: "session \<Rightarrow> talk_end" where
  "end_new s = \<lparr>te_session = s, te_inbox = [], te_sent = [], te_received = [], te_failed = [], te_nonces = []\<rparr>"

definition open_stream :: "bytes \<Rightarrow> bytes \<Rightarrow> stream" where
  "open_stream incoming written =
     \<lparr>st_incoming = incoming, st_closed = ''closed'', st_written = written, st_room = None, st_broken = [],
      st_flush = None\<rparr>"

lemma open_stream_simps [simp]:
  "st_incoming (open_stream i w) = i" "st_written (open_stream i w) = w"
  by (simp_all add: open_stream_def)

text \<open>
  The key and the nonce the cipher is handed when a message is sealed. They are observed at the cipher:
  the message is sealed once more with a cipher that writes down what it was called with.
\<close>

definition recording :: "session_env \<Rightarrow> session_env" where
  "recording env = env\<lparr>se_encrypt := (\<lambda>k n a m. Some (word_of_nat (length n) # n @ k))\<rparr>"

definition recorded :: "bytes \<Rightarrow> bytes \<times> bytes" where
  "recorded c = (let size = unat (hd c) in (drop size (tl c), take size (tl c)))"

definition nonces_of :: "session_env \<Rightarrow> session \<Rightarrow> message \<Rightarrow> (bytes \<times> bytes) list" where
  "nonces_of env s m =
     (case se_to_json env m of
        None \<Rightarrow> []
      | Some plaintext \<Rightarrow>
          (case seal (recording env) s plaintext FRAME_CONTEXT of
             (Inl _, _) \<Rightarrow> []
           | (Inr framed, _) \<Rightarrow> [recorded (drop 8 framed)]))"

lemma nonces_of_sealed:
  "nonces_of env s m =
     (if se_to_json env m = None \<or> ss_sent s = -1 then [] else [(ss_key s, nonce (ss_send_prefix s) (ss_sent s))])"
  by (simp add: nonces_of_def recording_def recorded_def seal_def Let_def nonce_def split: option.split)

definition say :: "session_env \<Rightarrow> message \<Rightarrow> talk_end \<times> talk_end \<Rightarrow> talk_end \<times> talk_end" where
  "say env m ends =
     (case ends of (x, y) \<Rightarrow>
        (case send env (te_session x) m (open_stream [] (te_inbox y)) of
           (r, s, st) \<Rightarrow>
             (x\<lparr>te_session := s,
                te_sent := (case r of Inr _ \<Rightarrow> te_sent x @ [m] | Inl _ \<Rightarrow> te_sent x),
                te_failed := (case r of Inr _ \<Rightarrow> te_failed x | Inl e \<Rightarrow> te_failed x @ [e]),
                te_nonces := te_nonces x @ nonces_of env (te_session x) m\<rparr>,
              y\<lparr>te_inbox := st_written st\<rparr>)))"

definition hear :: "session_env \<Rightarrow> talk_end \<Rightarrow> talk_end" where
  "hear env x =
     (if te_inbox x = [] then x
      else case receive env (te_session x) (open_stream (te_inbox x) []) of
             (Inr m, st) \<Rightarrow> x\<lparr>te_inbox := st_incoming st, te_received := te_received x @ [m]\<rparr>
           | (Inl e, st) \<Rightarrow> x\<lparr>te_inbox := st_incoming st, te_failed := te_failed x @ [e]\<rparr>)"

datatype talk_event = FirstSays message | SecondSays message | FirstHears | SecondHears

fun talk_step :: "session_env \<Rightarrow> talk_event \<Rightarrow> talk_end \<times> talk_end \<Rightarrow> talk_end \<times> talk_end" where
  "talk_step env (FirstSays m) ends = say env m ends"
| "talk_step env (SecondSays m) (x, y) = prod.swap (say env m (y, x))"
| "talk_step env FirstHears (x, y) = (hear env x, y)"
| "talk_step env SecondHears (x, y) = (x, hear env y)"

definition talk :: "session_env \<Rightarrow> talk_event list \<Rightarrow> session \<Rightarrow> session \<Rightarrow> talk_end \<times> talk_end" where
  "talk env evs a b = fold (talk_step env) evs (end_new a, end_new b)"

text \<open>The greetings cross, and each end answers the other's.\<close>

definition meet ::
    "session_env \<Rightarrow> bytes \<Rightarrow> peer_key \<Rightarrow> peer_id option \<Rightarrow> bytes \<Rightarrow> peer_key \<Rightarrow> peer_id option \<Rightarrow>
     (transport_error + session) \<times> (transport_error + session)" where
  "meet env s1 k1 expected1 s2 k2 expected2 =
     (let first = snd (greet env (offer_new env s1 k1) (open_stream [] []))
      in let second = snd (do_handshake env s2 k2 expected2 (open_stream (st_written first) []))
      in (fst (do_handshake env s1 k1 expected1 (open_stream (st_written second) [])),
          fst (do_handshake env s2 k2 expected2 (open_stream (st_written first) []))))"

section \<open>No nonce is used twice\<close>

lemma nonce_inject: "nonce p c = nonce p' c' \<longleftrightarrow> p = p' \<and> c = c'"
proof -
  have "be_bytes 8 c = be_bytes 8 c' \<longleftrightarrow> c = c'" using be_bytes_inject [of 8 c c'] by auto
  then show ?thesis by (auto simp: nonce_def)
qed

lemma less_successor: "c \<noteq> -1 \<Longrightarrow> c < c + (1 :: u64)"
proof -
  assume "c \<noteq> -1"
  then have "1 + c \<noteq> 0" by (metis add.commute eq_neg_iff_add_eq_0)
  then have "unat (1 + c) = Suc (unat c)" by (rule unatSuc)
  then show ?thesis by (simp add: word_less_nat_alt add.commute)
qed

definition nonces_fresh :: "talk_end \<Rightarrow> bool" where
  "nonces_fresh x \<longleftrightarrow> distinct (te_nonces x) \<and>
     list_all (\<lambda>(k, n). k = ss_key (te_session x) \<and>
       (\<exists>c < ss_sent (te_session x). n = nonce (ss_send_prefix (te_session x)) c)) (te_nonces x)"

lemma nonces_fresh_shape:
  "nonces_fresh x \<Longrightarrow> (k, n) \<in> set (te_nonces x) \<Longrightarrow> \<exists>c. n = nonce (ss_send_prefix (te_session x)) c"
  by (fastforce simp: nonces_fresh_def list_all_iff)

lemma send_session:
  assumes "send env s m st = (r, s', st')"
  shows "ss_key s' = ss_key s" and "ss_send_prefix s' = ss_send_prefix s"
    and "ss_receive_prefix s' = ss_receive_prefix s"
    and "ss_sent s' = (if se_to_json env m = None \<or> ss_sent s = -1 then ss_sent s else ss_sent s + 1)"
  using assms by (auto simp: send_def seal_def Let_def split: option.splits sum.splits prod.splits if_splits)

lemma nonces_fresh_say:
  assumes "nonces_fresh x"
  shows "nonces_fresh (fst (say env m (x, y)))"
proof -
  obtain r s st where send: "send env (te_session x) m (open_stream [] (te_inbox y)) = (r, s, st)"
    by (metis prod_cases3)
  note s = send_session [OF send]
  show ?thesis
  proof (cases "se_to_json env m = None \<or> ss_sent (te_session x) = -1")
    case True
    then show ?thesis using assms s by (auto simp: nonces_fresh_def say_def send nonces_of_sealed)
  next
    case False
    then have less: "ss_sent (te_session x) < ss_sent (te_session x) + 1" by (intro less_successor) simp
    then show ?thesis
      using assms s False less_trans [OF _ less]
      by (auto simp: nonces_fresh_def say_def send nonces_of_sealed list_all_iff nonce_inject)
  qed
qed

lemma say_frame:
  assumes "say env m (x, y) = (x', y')"
  shows "te_session y' = te_session y" and "te_nonces y' = te_nonces y"
    and "ss_key (te_session x') = ss_key (te_session x)"
    and "ss_send_prefix (te_session x') = ss_send_prefix (te_session x)"
  using assms send_session [of env "te_session x" m] by (auto simp: say_def split: prod.splits)

lemma hear_frame: "te_session (hear env x) = te_session x" "te_nonces (hear env x) = te_nonces x"
  by (auto simp: hear_def split: prod.split sum.split)

definition directions_ok :: "talk_end \<times> talk_end \<Rightarrow> bool" where
  "directions_ok ends \<longleftrightarrow>
     nonces_fresh (fst ends) \<and> nonces_fresh (snd ends) \<and>
     ss_send_prefix (te_session (fst ends)) \<noteq> ss_send_prefix (te_session (snd ends))"

lemma directions_ok_step: "directions_ok ends \<Longrightarrow> directions_ok (talk_step env ev ends)"
proof -
  assume ok: "directions_ok ends"
  obtain x y where ends: "ends = (x, y)" by fastforce
  have fresh: "nonces_fresh x" "nonces_fresh y" and differ: "ss_send_prefix (te_session x) \<noteq> ss_send_prefix (te_session y)"
    using ok by (simp_all add: directions_ok_def ends)
  have say: "nonces_fresh x' \<and> nonces_fresh y' \<and> ss_send_prefix (te_session x') = ss_send_prefix (te_session x) \<and>
      ss_send_prefix (te_session y') = ss_send_prefix (te_session y)"
    if "say env m (x, y) = (x', y')" "nonces_fresh x" "nonces_fresh y" for m x y x' y'
    using that nonces_fresh_say [of x env m y] say_frame [OF that(1)] by (simp add: nonces_fresh_def)
  show ?thesis
  proof (cases ev)
    case (FirstSays m)
    obtain x' y' where said: "say env m (x, y) = (x', y')" by fastforce
    from say [OF this fresh] FirstSays said differ show ?thesis by (simp add: directions_ok_def ends)
  next
    case (SecondSays m)
    obtain x' y' where said: "say env m (y, x) = (x', y')" by fastforce
    from say [OF this fresh(2,1)] SecondSays said differ show ?thesis by (simp add: directions_ok_def ends)
  next
    case FirstHears
    then show ?thesis using fresh differ by (simp add: directions_ok_def ends hear_frame nonces_fresh_def)
  next
    case SecondHears
    then show ?thesis using fresh differ by (simp add: directions_ok_def ends hear_frame nonces_fresh_def)
  qed
qed

lemma directions_ok_talk:
  "ss_send_prefix a \<noteq> ss_send_prefix b \<Longrightarrow> directions_ok (talk env evs a b)"
proof -
  assume d: "ss_send_prefix a \<noteq> ss_send_prefix b"
  have "directions_ok (fold (talk_step env) evs ends)" if "directions_ok ends" for ends
    using that by (induction evs arbitrary: ends) (simp_all add: directions_ok_step)
  moreover have "directions_ok (end_new a, end_new b)"
    using d by (simp add: directions_ok_def nonces_fresh_def end_new_def)
  ultimately show ?thesis unfolding talk_def .
qed

lemma bytes_le_total: "bytes_le a b \<or> bytes_le b a"
  by (induction a b rule: bytes_le.induct) auto

lemma bytes_le_antisym: "bytes_le a b \<Longrightarrow> bytes_le b a \<Longrightarrow> a = b"
  by (induction a b rule: bytes_le.induct) (auto elim: bytes_le.elims)

lemma bytes_le_swap: "a \<noteq> b \<Longrightarrow> bytes_le b a = (\<not> bytes_le a b)"
  using bytes_le_total bytes_le_antisym by blast

lemma accepted:
  assumes "accept env mine theirs expected = Inr s"
  shows "hs_peer theirs = expected" and "ss_peer s = expected"
    and "handshake_verify env theirs = Inr ()"
    and "ss_send_prefix s = (if bytes_le (hs_ephemeral (of_handshake mine)) (hs_ephemeral theirs) then 0 else 1)"
    and "ss_receive_prefix s = (if bytes_le (hs_ephemeral (of_handshake mine)) (hs_ephemeral theirs) then 1 else 0)"
  using assms by (auto simp: accept_def Let_def split: sum.splits if_splits option.splits)

lemma nonces_fresh_distinct:
  assumes "nonces_fresh x"
  shows "distinct (map snd (te_nonces x))"
proof -
  have "fst p = ss_key (te_session x)" if "p \<in> set (te_nonces x)" for p
    using that assms by (cases p) (auto simp: nonces_fresh_def list_all_iff)
  then have "inj_on snd (set (te_nonces x))" by (intro inj_onI prod_eqI) simp_all
  then show ?thesis using assms by (simp add: nonces_fresh_def distinct_map)
qed

text \<open>A message counts as sent only if it was encrypted.\<close>

definition all_sealed :: "talk_end \<Rightarrow> bool" where
  "all_sealed x \<longleftrightarrow> length (te_sent x) \<le> length (te_nonces x)"

lemma sent_was_sealed: "send env s m st = (Inr u, s', st') \<Longrightarrow> length (nonces_of env s m) = 1"
  by (auto simp: send_def seal_def nonces_of_sealed Let_def split: option.splits sum.splits prod.splits if_splits)

lemma all_sealed_say: "all_sealed x \<Longrightarrow> all_sealed (fst (say env m (x, y)))"
  using sent_was_sealed [of env "te_session x" m] by (auto simp: all_sealed_def say_def split: prod.split sum.split)

lemma say_keeps_other: "all_sealed y \<Longrightarrow> all_sealed (snd (say env m (x, y)))"
  by (auto simp: all_sealed_def say_def split: prod.split)

lemma all_sealed_hear: "all_sealed x \<Longrightarrow> all_sealed (hear env x)"
  by (auto simp: all_sealed_def hear_def split: prod.split sum.split)

lemma all_sealed_talk: "all_sealed (fst (talk env evs a b)) \<and> all_sealed (snd (talk env evs a b))"
proof -
  have step: "all_sealed (fst (talk_step env ev ends)) \<and> all_sealed (snd (talk_step env ev ends))"
    if "all_sealed (fst ends) \<and> all_sealed (snd ends)" for ev ends
    using that by (cases ends; cases ev) (simp_all add: all_sealed_say say_keeps_other all_sealed_hear)
  have "all_sealed (fst (fold (talk_step env) evs ends)) \<and> all_sealed (snd (fold (talk_step env) evs ends))"
    if "all_sealed (fst ends) \<and> all_sealed (snd ends)" for ends
    using that by (induction evs arbitrary: ends) (simp_all add: step)
  then show ?thesis unfolding talk_def by (simp add: all_sealed_def end_new_def)
qed

text \<open>
  C26: a nonce is never used twice in a session. Whatever the primitives, the messages and the order in
  which two ends of a session send and receive, messages that fail included, the nonces that sealing
  hands to the cipher at the two ends are all different, provided only that their ephemeral keys are;
  and each end hands over at least one for every message that counts as sent.
\<close>

theorem nonces_never_repeat:
  assumes "accept env x (of_handshake y) p = Inr a" and "accept env y (of_handshake x) q = Inr b"
    and "hs_ephemeral (of_handshake x) \<noteq> hs_ephemeral (of_handshake y)"
  shows "let (first, second) = talk env evs a b
    in distinct (map snd (te_nonces first @ te_nonces second)) \<and>
       length (te_sent first) \<le> length (te_nonces first) \<and>
       length (te_sent second) \<le> length (te_nonces second)"
proof -
  obtain first second where ends: "talk env evs a b = (first, second)" by fastforce
  have "ss_send_prefix a \<noteq> ss_send_prefix b"
    using accepted(4) [OF assms(1)] accepted(4) [OF assms(2)] bytes_le_swap [OF assms(3)] by simp
  from directions_ok_talk [OF this, of env evs] have ok: "nonces_fresh first" "nonces_fresh second"
      "ss_send_prefix (te_session first) \<noteq> ss_send_prefix (te_session second)"
    by (simp_all add: ends directions_ok_def)
  have "False" if "(k, n) \<in> set (te_nonces first)" "(l, n) \<in> set (te_nonces second)" for k l n
    using nonces_fresh_shape [OF ok(1) that(1)] nonces_fresh_shape [OF ok(2) that(2)] ok(3)
    by (auto simp: nonce_inject)
  then have "snd ` set (te_nonces first) \<inter> snd ` set (te_nonces second) = {}" by fastforce
  moreover note nonces_fresh_distinct [OF ok(1)] nonces_fresh_distinct [OF ok(2)] all_sealed_talk [of env evs a b]
  ultimately show ?thesis by (simp add: ends all_sealed_def)
qed

section \<open>What is said is heard\<close>

text \<open>
  What the primitives document: a shared secret does not depend on the side, keys can be derived, and the
  cipher returns what was encrypted under the same key, nonce and context, at the cost of a tag of 16 bytes.
\<close>

definition primitives_ok :: "session_env \<Rightarrow> bool" where
  "primitives_ok env \<longleftrightarrow>
     (\<forall>a b. se_shared env a (se_public env b) = se_shared env b (se_public env a)) \<and>
     (\<forall>a. length (se_public env a) = 32) \<and> (\<forall>salt secret info. se_hkdf env salt secret info \<noteq> None) \<and>
     (\<forall>k n a m. \<exists>c. se_encrypt env k n a m = Some c \<and> length c = length m + 16 \<and> se_decrypt env k n a c = Some m)"

text \<open>The encodings return what they encoded, within the size of a frame.\<close>

definition greeting_carried :: "session_env \<Rightarrow> handshake \<Rightarrow> bool" where
  "greeting_carried env h \<longleftrightarrow>
     (\<exists>j. se_handshake_to_json env (from_handshake h) = Some j \<and> length j \<le> MAX_ENVELOPE_BYTES \<and>
        se_handshake_from_json env j = Some (from_handshake h))"

definition carried :: "session_env \<Rightarrow> message \<Rightarrow> bool" where
  "carried env m \<longleftrightarrow>
     (\<exists>p. se_to_json env m = Some p \<and> se_from_json env p = Some m \<and> length p + 24 \<le> MAX_ENVELOPE_BYTES \<and>
        check_message m = Inr ())"

definition framed :: "bytes \<Rightarrow> bytes" where
  "framed payload = be_bytes 4 (word_of_nat (length payload) :: u32) @ payload"

lemma be_value_bytes: "LENGTH('a) \<le> 8 * n \<Longrightarrow> be_value (be_bytes n w) = (w :: 'a::len word)"
  by (simp add: be_value_def fold_be_bytes take_bit_word_eq_self)

lemma read_framed:
  assumes "length payload \<le> MAX_ENVELOPE_BYTES"
  shows "read_frame (open_stream (framed payload @ rest) w) = (Inr payload, open_stream rest w)"
proof -
  have "unat (word_of_nat (length payload) :: u32) = length payload"
    using assms by (simp add: MAX_ENVELOPE_BYTES_def unsigned_of_nat take_bit_nat_eq_self_iff)
  then show ?thesis
    using assms by (simp add: read_frame_def stream_read_def open_stream_def framed_def be_value_bytes check_frame_length_def)
qed

lemma write_framed:
  "length payload \<le> MAX_ENVELOPE_BYTES \<Longrightarrow>
     write_frame payload (open_stream i w) = (Inr (), open_stream i (w @ framed payload))"
  by (simp add: write_frame_def check_frame_length_def stream_write_def stream_flush_def open_stream_def framed_def)

text \<open>The frame of a message that is the one with a given counter.\<close>

definition frame_of :: "session_env \<Rightarrow> session \<Rightarrow> u64 \<Rightarrow> message \<Rightarrow> bytes" where
  "frame_of env s counter m =
     framed (be_bytes 8 counter @
       the (se_encrypt env (ss_key s) (nonce (ss_send_prefix s) counter) FRAME_CONTEXT (the (se_to_json env m))))"

lemma frame_of_nonempty: "frame_of env s c m \<noteq> []"
  by (simp add: frame_of_def framed_def be_bytes_def)

lemma carriedE:
  assumes "primitives_ok env" and "carried env m"
  obtains p c where "se_to_json env m = Some p" and "se_from_json env p = Some m" and "check_message m = Inr ()"
    and "se_encrypt env k n a p = Some c" and "se_decrypt env k n a c = Some p"
    and "length c + 8 \<le> MAX_ENVELOPE_BYTES"
proof -
  obtain p where p: "se_to_json env m = Some p" "se_from_json env p = Some m" "length p + 24 \<le> MAX_ENVELOPE_BYTES"
    "check_message m = Inr ()" using assms(2) unfolding carried_def by blast
  obtain c where c: "se_encrypt env k n a p = Some c" "length c = length p + 16" "se_decrypt env k n a c = Some p"
    using assms(1) unfolding primitives_ok_def by blast
  from c(2) p(3) have "length c + 8 \<le> MAX_ENVELOPE_BYTES" by simp
  with p c that show ?thesis by blast
qed

lemma send_carried:
  assumes "primitives_ok env" and "carried env m" and "ss_sent s \<noteq> -1"
  shows "send env s m (open_stream i w) =
    (Inr (), s\<lparr>ss_sent := ss_sent s + 1\<rparr>, open_stream i (w @ frame_of env s (ss_sent s) m))"
proof -
  obtain p c where "se_to_json env m = Some p" "se_encrypt env (ss_key s) (nonce (ss_send_prefix s) (ss_sent s)) FRAME_CONTEXT p = Some c"
    "length c + 8 \<le> MAX_ENVELOPE_BYTES" using carriedE [OF assms(1,2)] .
  then show ?thesis using assms(3) by (simp add: send_def seal_def Let_def write_framed frame_of_def)
qed

lemma receive_carried:
  assumes "primitives_ok env" and "carried env m"
    and "ss_key s' = ss_key s" and "ss_receive_prefix s' = ss_send_prefix s"
  shows "receive env s' (open_stream (frame_of env s c m @ rest) w) = (Inr m, open_stream rest w)"
proof -
  obtain p e where "se_to_json env m = Some p" "se_from_json env p = Some m" "check_message m = Inr ()"
    "se_encrypt env (ss_key s) (nonce (ss_send_prefix s) c) FRAME_CONTEXT p = Some e"
    "se_decrypt env (ss_key s) (nonce (ss_send_prefix s) c) FRAME_CONTEXT e = Some p"
    "length e + 8 \<le> MAX_ENVELOPE_BYTES" using carriedE [OF assms(1,2)] .
  then show ?thesis
    by (simp add: receive_def frame_of_def read_framed open_sealed_def check_frame_length_def be_value_bytes assms(3,4))
qed

text \<open>One direction: what is in flight is what was sent and not yet received.\<close>

definition flows :: "session_env \<Rightarrow> talk_end \<Rightarrow> talk_end \<Rightarrow> bool" where
  "flows env x y \<longleftrightarrow>
     ss_key (te_session y) = ss_key (te_session x) \<and>
     ss_receive_prefix (te_session y) = ss_send_prefix (te_session x) \<and>
     list_all (carried env) (te_sent x) \<and>
     ss_sent (te_session x) = word_of_nat (length (te_sent x)) \<and>
     length (te_received y) \<le> length (te_sent x) \<and>
     te_received y = take (length (te_received y)) (te_sent x) \<and>
     te_inbox y = concat (map (\<lambda>i. frame_of env (te_session x) (word_of_nat i) (te_sent x ! i))
       [length (te_received y) ..< length (te_sent x)])"

lemma frame_of_sent [simp]: "frame_of env (s\<lparr>ss_sent := n\<rparr>) = frame_of env s"
  by (simp add: frame_of_def fun_eq_iff)

lemma word_small: "n < 2 ^ 64 - 1 \<Longrightarrow> word_of_nat n \<noteq> (-1 :: u64)"
proof
  assume n: "n < 2 ^ 64 - 1" and "word_of_nat n = (-1 :: u64)"
  then have "(word_of_nat (Suc n) :: u64) = 0" by simp
  then have "2 ^ 64 dvd Suc n" by (simp only: word_of_nat_eq_0_iff) simp
  then have "2 ^ 64 \<le> Suc n" by (rule dvd_imp_le) simp
  with n show False by simp
qed

lemma flows_say:
  assumes "primitives_ok env" and "carried env m" and "flows env x y" and "length (te_sent x) < 2 ^ 64 - 1"
    and "say env m (x, y) = (x', y')"
  shows "flows env x' y'" and "te_sent x' = te_sent x @ [m]" and "te_sent y' = te_sent y"
    and "te_failed x' = te_failed x" and "te_failed y' = te_failed y"
    and "te_inbox x' = te_inbox x" and "te_received x' = te_received x"
    and "te_session y' = te_session y" and "\<exists>n. te_session x' = (te_session x)\<lparr>ss_sent := n\<rparr>"
    and "te_received y' = te_received y"
proof -
  let ?s = "te_session x"
  have sent: "ss_sent ?s \<noteq> -1" using assms(3,4) word_small by (auto simp: flows_def)
  have said: "x' = x\<lparr>te_session := ?s\<lparr>ss_sent := ss_sent ?s + 1\<rparr>, te_sent := te_sent x @ [m],
      te_nonces := te_nonces x @ nonces_of env ?s m\<rparr>" "y' = y\<lparr>te_inbox := te_inbox y @ frame_of env ?s (ss_sent ?s) m\<rparr>"
    using assms(5) by (auto simp: say_def send_carried [OF assms(1,2) sent])
  show "te_sent x' = te_sent x @ [m]" "te_sent y' = te_sent y" "te_failed x' = te_failed x" "te_failed y' = te_failed y"
    "te_inbox x' = te_inbox x" "te_received x' = te_received x" "te_session y' = te_session y"
    "\<exists>n. te_session x' = (te_session x)\<lparr>ss_sent := n\<rparr>" "te_received y' = te_received y"
    by (auto simp: said)
  show "flows env x' y'"
    using assms(2,3) by (auto simp: flows_def said nth_append intro!: arg_cong [where f = concat])
qed

lemma flows_hear:
  assumes "primitives_ok env" and "flows env x y"
  shows "flows env x (hear env y)" and "te_failed (hear env y) = te_failed y"
    and "te_sent (hear env y) = te_sent y"
proof -
  let ?k = "length (te_received y)" and ?n = "length (te_sent x)"
  let ?f = "\<lambda>i. frame_of env (te_session x) (word_of_nat i) (te_sent x ! i)"
  have f: "ss_key (te_session y) = ss_key (te_session x)" "ss_receive_prefix (te_session y) = ss_send_prefix (te_session x)"
    "list_all (carried env) (te_sent x)" "?k \<le> ?n" "te_received y = take ?k (te_sent x)"
    "te_inbox y = concat (map ?f [?k ..< ?n])"
    using assms(2) by (simp_all add: flows_def)
  show "flows env x (hear env y)" "te_failed (hear env y) = te_failed y" "te_sent (hear env y) = te_sent y"
  proof (atomize (full), cases "?k < ?n")
    case False
    then have "hear env y = y" using f(6) by (simp add: hear_def)
    then show "flows env x (hear env y) \<and> te_failed (hear env y) = te_failed y \<and> te_sent (hear env y) = te_sent y"
      using assms(2) by simp
  next
    case True
    let ?m = "te_sent x ! ?k" and ?rest = "concat (map ?f [Suc ?k ..< ?n])"
    have inbox: "te_inbox y = ?f ?k @ ?rest" using True f(6) by (simp add: upt_conv_Cons)
    have "carried env ?m" using True f(3) by (simp add: list_all_length)
    from receive_carried [OF assms(1) this f(1,2)]
    have "receive env (te_session y) (open_stream (te_inbox y) []) = (Inr ?m, open_stream ?rest [])"
      unfolding inbox .
    then have heard: "hear env y = y\<lparr>te_inbox := ?rest, te_received := te_received y @ [?m]\<rparr>"
      using inbox frame_of_nonempty by (simp add: hear_def)
    have "te_received y @ [?m] = take (Suc ?k) (te_sent x)"
      using True f(5) by (simp add: take_Suc_conv_app_nth)
    then show "flows env x (hear env y) \<and> te_failed (hear env y) = te_failed y \<and> te_sent (hear env y) = te_sent y"
      using assms(2) True by (simp add: flows_def heard)
  qed
qed

definition said :: "bool \<Rightarrow> talk_event list \<Rightarrow> message list" where
  "said first evs =
     List.map_filter (\<lambda>ev. case ev of FirstSays m \<Rightarrow> if first then Some m else None
       | SecondSays m \<Rightarrow> if first then None else Some m | _ \<Rightarrow> None) evs"

definition event_carried :: "session_env \<Rightarrow> talk_event \<Rightarrow> bool" where
  "event_carried env ev = (case ev of FirstSays m \<Rightarrow> carried env m | SecondSays m \<Rightarrow> carried env m | _ \<Rightarrow> True)"

definition talk_ok :: "session_env \<Rightarrow> talk_end \<times> talk_end \<Rightarrow> bool" where
  "talk_ok env ends \<longleftrightarrow>
     flows env (fst ends) (snd ends) \<and> flows env (snd ends) (fst ends) \<and>
     te_failed (fst ends) = [] \<and> te_failed (snd ends) = []"

lemma flows_other:
  assumes "flows env y x"
    and "te_inbox x' = te_inbox x" and "te_received x' = te_received x" and "te_session x' = (te_session x)\<lparr>ss_sent := n\<rparr>"
    and "te_session y' = te_session y" and "te_sent y' = te_sent y"
  shows "flows env y' x'"
  using assms by (simp add: flows_def)

lemma hear_keeps: "te_session (hear env x) = te_session x" "te_sent (hear env x) = te_sent x"
  by (auto simp: hear_def split: prod.split sum.split)

lemma flows_after_hear: "flows env x y \<Longrightarrow> flows env (hear env x) y"
  by (simp add: flows_def hear_keeps)

lemma talk_ok_say:
  assumes "primitives_ok env" and "carried env m" and "talk_ok env (x, y)" and "length (te_sent x) < 2 ^ 64 - 1"
    and "say env m (x, y) = (x', y')"
  shows "talk_ok env (x', y')" and "te_sent x' = te_sent x @ [m]" and "te_sent y' = te_sent y"
proof -
  have "flows env x y" "flows env y x" using assms(3) by (simp_all add: talk_ok_def)
  note say = flows_say [OF assms(1,2) \<open>flows env x y\<close> assms(4,5)]
  obtain n where "te_session x' = (te_session x)\<lparr>ss_sent := n\<rparr>" using say(9) by blast
  from flows_other [OF \<open>flows env y x\<close> say(6,7) this say(8,3)]
  show "talk_ok env (x', y')" using say(1,4,5) assms(3) by (simp add: talk_ok_def)
  show "te_sent x' = te_sent x @ [m]" "te_sent y' = te_sent y" by (rule say(2), rule say(3))
qed

lemma talk_ok_swap: "talk_ok env (x, y) \<longleftrightarrow> talk_ok env (y, x)"
  by (auto simp: talk_ok_def)

lemma talk_ok_step:
  assumes "primitives_ok env" and "event_carried env ev" and "talk_ok env ends"
    and "length (te_sent (fst ends)) < 2 ^ 64 - 1" and "length (te_sent (snd ends)) < 2 ^ 64 - 1"
  shows "talk_ok env (talk_step env ev ends)"
    and "te_sent (fst (talk_step env ev ends)) = te_sent (fst ends) @ said True [ev]"
    and "te_sent (snd (talk_step env ev ends)) = te_sent (snd ends) @ said False [ev]"
proof -
  obtain x y where ends: "ends = (x, y)" by fastforce
  have ok: "talk_ok env (x, y)" "talk_ok env (y, x)" using assms(3) talk_ok_swap by (auto simp: ends)
  have small: "length (te_sent x) < 2 ^ 64 - 1" "length (te_sent y) < 2 ^ 64 - 1" using assms(4,5) by (simp_all add: ends)
  show "talk_ok env (talk_step env ev ends)"
    "te_sent (fst (talk_step env ev ends)) = te_sent (fst ends) @ said True [ev]"
    "te_sent (snd (talk_step env ev ends)) = te_sent (snd ends) @ said False [ev]"
  proof (atomize (full), cases ev)
    case (FirstSays m)
    obtain x' y' where "say env m (x, y) = (x', y')" by fastforce
    with FirstSays talk_ok_say [OF assms(1) _ ok(1) small(1) this] assms(2)
    show "talk_ok env (talk_step env ev ends) \<and>
      te_sent (fst (talk_step env ev ends)) = te_sent (fst ends) @ said True [ev] \<and>
      te_sent (snd (talk_step env ev ends)) = te_sent (snd ends) @ said False [ev]"
      by (simp add: ends said_def List.map_filter_def event_carried_def)
  next
    case (SecondSays m)
    obtain x' y' where "say env m (y, x) = (x', y')" by fastforce
    with SecondSays talk_ok_say [OF assms(1) _ ok(2) small(2) this] assms(2)
    show "talk_ok env (talk_step env ev ends) \<and>
      te_sent (fst (talk_step env ev ends)) = te_sent (fst ends) @ said True [ev] \<and>
      te_sent (snd (talk_step env ev ends)) = te_sent (snd ends) @ said False [ev]"
      by (simp add: ends said_def List.map_filter_def event_carried_def talk_ok_swap)
  next
    case FirstHears
    have "flows env y x" "flows env x y" "te_failed x = []" "te_failed y = []" using ok by (simp_all add: talk_ok_def)
    with flows_hear [OF assms(1), of y x] flows_after_hear [of env x y] FirstHears
    show "talk_ok env (talk_step env ev ends) \<and>
      te_sent (fst (talk_step env ev ends)) = te_sent (fst ends) @ said True [ev] \<and>
      te_sent (snd (talk_step env ev ends)) = te_sent (snd ends) @ said False [ev]"
      by (simp add: ends said_def List.map_filter_def talk_ok_def)
  next
    case SecondHears
    have "flows env y x" "flows env x y" "te_failed x = []" "te_failed y = []" using ok by (simp_all add: talk_ok_def)
    with flows_hear [OF assms(1), of x y] flows_after_hear [of env y x] SecondHears
    show "talk_ok env (talk_step env ev ends) \<and>
      te_sent (fst (talk_step env ev ends)) = te_sent (fst ends) @ said True [ev] \<and>
      te_sent (snd (talk_step env ev ends)) = te_sent (snd ends) @ said False [ev]"
      by (simp add: ends said_def List.map_filter_def talk_ok_def)
  qed
qed

lemma said_simps: "said b [] = []" "said b (ev # evs) = said b [ev] @ said b evs"
  by (simp_all add: said_def List.map_filter_def)

lemma length_said: "length (said b evs) \<le> length evs"
  by (simp add: said_def List.map_filter_def)

lemma talk_ok_fold:
  assumes "primitives_ok env"
  shows "talk_ok env ends \<Longrightarrow> list_all (event_carried env) evs \<Longrightarrow>
    length (te_sent (fst ends)) + length evs < 2 ^ 64 - 1 \<Longrightarrow>
    length (te_sent (snd ends)) + length evs < 2 ^ 64 - 1 \<Longrightarrow>
    talk_ok env (fold (talk_step env) evs ends) \<and>
    te_sent (fst (fold (talk_step env) evs ends)) = te_sent (fst ends) @ said True evs \<and>
    te_sent (snd (fold (talk_step env) evs ends)) = te_sent (snd ends) @ said False evs"
proof (induction evs arbitrary: ends)
  case Nil
  then show ?case by (simp add: said_simps)
next
  case (Cons ev evs)
  have ev: "event_carried env ev" and evs: "list_all (event_carried env) evs" using Cons.prems(2) by simp_all
  have small: "length (te_sent (fst ends)) < 2 ^ 64 - 1" "length (te_sent (snd ends)) < 2 ^ 64 - 1"
    using Cons.prems(3,4) by simp_all
  note step = talk_ok_step [OF assms ev Cons.prems(1) small]
  have "length (te_sent (fst (talk_step env ev ends))) + length evs < 2 ^ 64 - 1"
    "length (te_sent (snd (talk_step env ev ends))) + length evs < 2 ^ 64 - 1"
    using Cons.prems(3,4) length_said [of True "[ev]"] length_said [of False "[ev]"] by (simp_all add: step(2,3))
  from Cons.IH [OF step(1) evs this] show ?case
    by (simp add: step(2,3) said_simps(2) [of True ev evs] said_simps(2) [of False ev evs])
qed

section \<open>Both ends agree\<close>

lemma text_le_swap: "\<not> text_le a b \<Longrightarrow> text_le b a"
  using bytes_le_total by (auto simp: text_le_def)

lemma text_le_antisym: "text_le a b \<Longrightarrow> text_le b a \<Longrightarrow> a = b"
  by (metis bytes_le_antisym map_char_byte_inject text_le_def)

lemma authentication_code_sym: "authentication_code env a b = authentication_code env b a"
proof (cases "peer_to_hex a = peer_to_hex b")
  case False
  then have "text_le (peer_to_hex b) (peer_to_hex a) = (\<not> text_le (peer_to_hex a) (peer_to_hex b))"
    using text_le_swap text_le_antisym by blast
  then show ?thesis by (simp add: authentication_code_def Let_def)
qed (simp add: authentication_code_def)

lemma offered_handshake:
  assumes "ed25519_correct (se_curve env) seed"
  shows "handshake_verify env (of_handshake (offer_new env secret (PeerKey seed))) = Inr ()"
  using assms by (simp add: handshake_verify_def offer_new_def Let_def ed25519_correct_def)

lemma wire_handshake_round_trip:
  assumes "ed25519_correct (se_curve env) seed" and "length (se_public env secret) = 32"
  shows "to_handshake env (from_handshake (of_handshake (offer_new env secret (PeerKey seed)))) =
    Inr (of_handshake (offer_new env secret (PeerKey seed)))"
  using assms
  by (simp add: from_handshake_def offer_new_def Let_def ed25519_correct_def peer_from_hex_def array_from_hex_def
      decode_encode_hex)

text \<open>The key of the two ends, and the session of one of them.\<close>

definition agreed :: "session_env \<Rightarrow> bytes \<Rightarrow> peer_key \<Rightarrow> bytes \<Rightarrow> peer_key \<Rightarrow> session" where
  "agreed env mine k1 other k2 =
     (let e1 = se_public env mine; e2 = se_public env other; first = bytes_le e1 e2
      in \<lparr>ss_key = the (se_hkdf env (if first then e1 @ e2 else e2 @ e1) (se_shared env mine e2) HKDF_INFO),
          ss_peer = key_id (se_curve env) k2, ss_send_prefix = (if first then 0 else 1),
          ss_receive_prefix = (if first then 1 else 0), ss_sent = 0,
          ss_authentication_code = authentication_code env (key_id (se_curve env) k1) (key_id (se_curve env) k2)\<rparr>)"

lemma accept_agreed:
  assumes "primitives_ok env" and "ed25519_correct (se_curve env) seed2"
  shows "accept env (offer_new env s1 k1) (of_handshake (offer_new env s2 (PeerKey seed2)))
      (key_id (se_curve env) (PeerKey seed2)) = Inr (agreed env s1 k1 s2 (PeerKey seed2))"
proof -
  have "se_hkdf env salt secret info \<noteq> None" for salt secret info
    using assms(1) unfolding primitives_ok_def by blast
  then have "\<exists>key. se_hkdf env salt secret info = Some key" for salt secret info by blast
  then obtain key where key: "se_hkdf env (let e1 = se_public env s1; e2 = se_public env s2 in if bytes_le e1 e2 then e1 @ e2 else e2 @ e1)
      (se_shared env s1 (se_public env s2)) HKDF_INFO = Some key" by blast
  note v = offered_handshake [OF assms(2), of s2]
  show ?thesis
    unfolding accept_def v using key
    by (simp add: agreed_def offer_new_def Let_def)
qed

lemma agreed_match:
  assumes "primitives_ok env" and "se_public env s1 \<noteq> se_public env s2"
  shows "ss_key (agreed env s2 k2 s1 k1) = ss_key (agreed env s1 k1 s2 k2)"
    and "ss_receive_prefix (agreed env s2 k2 s1 k1) = ss_send_prefix (agreed env s1 k1 s2 k2)"
    and "ss_authentication_code (agreed env s2 k2 s1 k1) = ss_authentication_code (agreed env s1 k1 s2 k2)"
proof -
  have "se_shared env s1 (se_public env s2) = se_shared env s2 (se_public env s1)"
    using assms(1) unfolding primitives_ok_def by blast
  then show "ss_key (agreed env s2 k2 s1 k1) = ss_key (agreed env s1 k1 s2 k2)"
    "ss_receive_prefix (agreed env s2 k2 s1 k1) = ss_send_prefix (agreed env s1 k1 s2 k2)"
    "ss_authentication_code (agreed env s2 k2 s1 k1) = ss_authentication_code (agreed env s1 k1 s2 k2)"
    using bytes_le_swap [OF assms(2)] authentication_code_sym [of env "key_id (se_curve env) k2"]
    by (simp_all add: agreed_def Let_def)
qed

lemma talk_ok_start:
  assumes "primitives_ok env" and "se_public env s1 \<noteq> se_public env s2"
  shows "talk_ok env (end_new (agreed env s1 k1 s2 k2), end_new (agreed env s2 k2 s1 k1))"
  using agreed_match [OF assms] agreed_match [OF assms(1) assms(2) [symmetric]]
  by (simp add: talk_ok_def flows_def end_new_def) (simp add: agreed_def Let_def)

lemma greet_carried:
  assumes "greeting_carried env (of_handshake mine)"
  obtains j where "\<forall>i w. greet env mine (open_stream i w) = (Inr (), open_stream i (w @ framed j))"
    and "length j \<le> MAX_ENVELOPE_BYTES"
    and "se_handshake_from_json env j = Some (from_handshake (of_handshake mine))"
proof -
  obtain j where j: "se_handshake_to_json env (from_handshake (of_handshake mine)) = Some j"
    "length j \<le> MAX_ENVELOPE_BYTES" "se_handshake_from_json env j = Some (from_handshake (of_handshake mine))"
    using assms unfolding greeting_carried_def by blast
  then have "greet env mine (open_stream i w) = (Inr (), open_stream i (w @ framed j))" for i w
    by (simp add: greet_def write_framed)
  with j(2,3) that show ?thesis by blast
qed

lemma meet_agreed:
  assumes "primitives_ok env" and "ed25519_correct (se_curve env) seed1" and "ed25519_correct (se_curve env) seed2"
    and "greeting_carried env (of_handshake (offer_new env s1 (PeerKey seed1)))"
    and "greeting_carried env (of_handshake (offer_new env s2 (PeerKey seed2)))"
  shows "meet env s1 (PeerKey seed1) (Some (key_id (se_curve env) (PeerKey seed2)))
      s2 (PeerKey seed2) (Some (key_id (se_curve env) (PeerKey seed1))) =
    (Inr (agreed env s1 (PeerKey seed1) s2 (PeerKey seed2)), Inr (agreed env s2 (PeerKey seed2) s1 (PeerKey seed1)))"
proof -
  let ?k1 = "PeerKey seed1" and ?k2 = "PeerKey seed2"
  have len: "length (se_public env s) = 32" for s using assms(1) by (simp add: primitives_ok_def)
  obtain j1 where j1: "\<forall>i w. greet env (offer_new env s1 ?k1) (open_stream i w) = (Inr (), open_stream i (w @ framed j1))"
    "length j1 \<le> MAX_ENVELOPE_BYTES"
    "se_handshake_from_json env j1 = Some (from_handshake (of_handshake (offer_new env s1 ?k1)))"
    using greet_carried [OF assms(4)] .
  obtain j2 where j2: "\<forall>i w. greet env (offer_new env s2 ?k2) (open_stream i w) = (Inr (), open_stream i (w @ framed j2))"
    "length j2 \<le> MAX_ENVELOPE_BYTES"
    "se_handshake_from_json env j2 = Some (from_handshake (of_handshake (offer_new env s2 ?k2)))"
    using greet_carried [OF assms(5)] .
  have one: "do_handshake env s1 ?k1 (Some (key_id (se_curve env) ?k2)) (open_stream (framed j2) []) =
      (Inr (agreed env s1 ?k1 s2 ?k2), open_stream [] (framed j1))"
    using read_framed [OF j2(2), of "[]"]
    by (simp add: do_handshake_def answer_handshake_def j1(1) j2(3) wire_handshake_round_trip [OF assms(3) len]
        accept_agreed [OF assms(1,3)] del: key_id.simps)
  have two: "do_handshake env s2 ?k2 (Some (key_id (se_curve env) ?k1)) (open_stream (framed j1) []) =
      (Inr (agreed env s2 ?k2 s1 ?k1), open_stream [] (framed j2))"
    using read_framed [OF j1(2), of "[]"]
    by (simp add: do_handshake_def answer_handshake_def j2(1) j1(3) wire_handshake_round_trip [OF assms(2) len]
        accept_agreed [OF assms(1,2)] del: key_id.simps)
  show ?thesis by (simp add: meet_def Let_def j1(1) one two del: key_id.simps)
qed

text \<open>
  C25: two peers that expect each other understand each other. Their handshakes over a stream give each a
  session with the other's identity and both the same code to compare; and then, however sending and
  receiving interleave, nothing fails, each end receives exactly the messages the other sent, in order,
  and all of them once nothing is in flight.
\<close>

theorem conversation_is_delivered:
  assumes "primitives_ok env" and "ed25519_correct (se_curve env) seed1" and "ed25519_correct (se_curve env) seed2"
    and "se_public env s1 \<noteq> se_public env s2"
    and "greeting_carried env (of_handshake (offer_new env s1 (PeerKey seed1)))"
    and "greeting_carried env (of_handshake (offer_new env s2 (PeerKey seed2)))"
    and "list_all (event_carried env) evs" and "length evs < 2 ^ 64 - 1"
  shows "case meet env s1 (PeerKey seed1) (Some (PeerId (ed_public (se_curve env) seed2)))
        s2 (PeerKey seed2) (Some (PeerId (ed_public (se_curve env) seed1))) of
      (Inr a, Inr b) \<Rightarrow>
        ss_peer a = PeerId (ed_public (se_curve env) seed2) \<and> ss_peer b = PeerId (ed_public (se_curve env) seed1) \<and>
        ss_authentication_code a = ss_authentication_code b \<and>
        (case talk env evs a b of (x, y) \<Rightarrow>
           te_failed x = [] \<and> te_failed y = [] \<and>
           te_received y = take (length (te_received y)) (said True evs) \<and>
           te_received x = take (length (te_received x)) (said False evs) \<and>
           (te_inbox y = []) = (te_received y = said True evs) \<and>
           (te_inbox x = []) = (te_received x = said False evs))
    | _ \<Rightarrow> False"
proof -
  let ?a = "agreed env s1 (PeerKey seed1) s2 (PeerKey seed2)"
  let ?b = "agreed env s2 (PeerKey seed2) s1 (PeerKey seed1)"
  obtain x y where talk: "talk env evs ?a ?b = (x, y)" by fastforce
  have "talk_ok env (x, y)" and sent: "te_sent x = said True evs" "te_sent y = said False evs"
    using talk_ok_fold [OF assms(1) talk_ok_start [OF assms(1,4)] assms(7), of "PeerKey seed1" "PeerKey seed2"] assms(8) talk
    by (simp_all add: talk_def) (simp_all add: end_new_def)
  then have x: "flows env y x" "flows env x y" "te_failed x = []" "te_failed y = []" by (simp_all add: talk_ok_def)
  have all: "(te_inbox y = []) = (te_received y = te_sent x)" if "flows env x y" for x y
    using that frame_of_nonempty by (auto simp: flows_def dest: arg_cong [where f = length])
  have part: "te_received y = take (length (te_received y)) (te_sent x)" if "flows env x y" for x y
    using that by (simp add: flows_def)
  show ?thesis
    using x(3,4) all [OF x(1)] all [OF x(2)] part [OF x(1)] part [OF x(2)] agreed_match(3) [OF assms(1,4)]
      meet_agreed [OF assms(1,2,3,5,6)]
    by (simp add: talk sent) (simp add: agreed_def Let_def)
qed

section \<open>Two peers that talk\<close>

text \<open>Primitives and encodings of the right shape, for the witnesses.\<close>

definition byte_char :: "u8 \<Rightarrow> char" where
  "byte_char b = char_of (unat b)"

definition plain_session :: session_env where
  "plain_session =
     \<lparr>se_curve = sample_curve, se_public = (\<lambda>a. take 32 (a @ replicate 32 0)), se_shared = (\<lambda>a b. []),
      se_hkdf = (\<lambda>salt secret info. Some salt), se_encrypt = (\<lambda>k n a m. Some (m @ replicate 16 0)),
      se_decrypt = (\<lambda>k n a c. Some (take (length c - 16) c)), se_sha256 = (\<lambda>data. data),
      se_handshake_to_json = (\<lambda>h. case h of WireHandshake p e s \<Rightarrow> Some (map char_byte (p @ e @ s))),
      se_handshake_from_json = (\<lambda>j. Some (WireHandshake (map byte_char (take 64 j))
        (map byte_char (take 64 (drop 64 j))) (map byte_char (drop 128 j)))),
      se_to_json = (\<lambda>m. case m of Idle \<Rightarrow> Some [0] | Ack n d \<Rightarrow> Some (be_bytes 8 n @ map char_byte d) | _ \<Rightarrow> None),
      se_from_json = (\<lambda>p. if p = [0] then Some Idle
        else Some (Ack (be_value (take 8 p)) (map byte_char (drop 8 p))))\<rparr>"

definition plain_seed :: "u8 \<Rightarrow> bytes" where
  "plain_seed k = replicate 32 k"

lemma plain_primitives: "primitives_ok plain_session"
  by (auto simp: primitives_ok_def plain_session_def)

lemma plain_signature: "ed25519_correct (se_curve plain_session) (plain_seed k)"
  by (simp add: ed25519_correct_def plain_session_def sample_curve_def plain_seed_def)

lemma byte_char_byte [simp]: "byte_char (char_byte c) = c"
proof -
  have "unat (word_of_nat (of_char c) :: u8) = of_char c mod 256" by (simp add: unsigned_of_nat take_bit_eq_mod)
  then have "unat (of_char c :: u8) = of_char c" by (simp add: of_nat_of_char)
  then show ?thesis by (simp add: byte_char_def char_byte_def)
qed

lemma plain_greeting: "greeting_carried plain_session (of_handshake (offer_new plain_session s (PeerKey (plain_seed k))))"
  by (simp add: greeting_carried_def from_handshake_def offer_new_def Let_def plain_session_def sample_curve_def
      plain_seed_def length_encode_hex MAX_ENVELOPE_BYTES_def comp_def)

lemma plain_carried: "carried plain_session Idle" "carried plain_session (Ack n [])"
proof -
  show "carried plain_session Idle" by (simp add: carried_def plain_session_def MAX_ENVELOPE_BYTES_def)
  have "be_bytes 8 n \<noteq> [0]" by (rule notI) (drule arg_cong [where f = length], simp)
  then show "carried plain_session (Ack n [])"
    by (simp add: carried_def plain_session_def MAX_ENVELOPE_BYTES_def be_value_bytes)
qed

theorem conversation_is_delivered_witness:
  "case meet plain_session [1] (PeerKey (plain_seed 7)) (Some (PeerId (ed_public (se_curve plain_session) (plain_seed 9))))
        [2] (PeerKey (plain_seed 9)) (Some (PeerId (ed_public (se_curve plain_session) (plain_seed 7)))) of
      (Inr a, Inr b) \<Rightarrow>
        ss_peer a = PeerId (ed_public (se_curve plain_session) (plain_seed 9)) \<and>
        ss_peer b = PeerId (ed_public (se_curve plain_session) (plain_seed 7)) \<and>
        ss_authentication_code a = ss_authentication_code b \<and>
        (case talk plain_session [FirstSays (Ack 5 []), SecondSays Idle, SecondHears, FirstSays Idle] a b of (x, y) \<Rightarrow>
           te_failed x = [] \<and> te_failed y = [] \<and>
           te_received y = take (length (te_received y)) (said True [FirstSays (Ack 5 []), SecondSays Idle, SecondHears, FirstSays Idle]) \<and>
           te_received x = take (length (te_received x)) (said False [FirstSays (Ack 5 []), SecondSays Idle, SecondHears, FirstSays Idle]) \<and>
           (te_inbox y = []) = (te_received y = said True [FirstSays (Ack 5 []), SecondSays Idle, SecondHears, FirstSays Idle]) \<and>
           (te_inbox x = []) = (te_received x = said False [FirstSays (Ack 5 []), SecondSays Idle, SecondHears, FirstSays Idle]))
    | _ \<Rightarrow> False"
proof (rule conversation_is_delivered [OF plain_primitives plain_signature plain_signature _ plain_greeting plain_greeting])
  show "se_public plain_session [1] \<noteq> se_public plain_session [2]" by (simp add: plain_session_def)
qed (simp_all add: event_carried_def plain_carried)

theorem nonces_never_repeat_witness:
  "let (first, second) = talk plain_session [FirstSays Idle, SecondSays Idle, FirstSays (Ack 1 [])]
       (agreed plain_session [1] (PeerKey (plain_seed 7)) [2] (PeerKey (plain_seed 9)))
       (agreed plain_session [2] (PeerKey (plain_seed 9)) [1] (PeerKey (plain_seed 7)))
   in distinct (map snd (te_nonces first @ te_nonces second)) \<and>
      length (te_sent first) \<le> length (te_nonces first) \<and>
      length (te_sent second) \<le> length (te_nonces second)"
  by (rule nonces_never_repeat [OF accept_agreed [OF plain_primitives plain_signature]
        accept_agreed [OF plain_primitives plain_signature]])
    (simp add: offer_new_def Let_def plain_session_def)

section \<open>Bounds and codes\<close>

lemma check_fields_ok:
  "check_fields fields' = Inr () \<Longrightarrow>
     list_all (\<lambda>(field, v). length v \<le> (if str_contains field ''vantage'' then MAX_VANTAGE_BYTES else MAX_TEXT_BYTES)) fields'"
  by (induction fields' rule: check_fields.induct) (auto simp: check_text_def split: if_splits)

text \<open>A message that was received is bounded in every field, and cost no more than a frame to read.\<close>

lemma received_is_bounded:
  assumes "receive env s st = (Inr (BundleMessage b), st')"
  shows "length (bu_records b) \<le> MAX_RECORDS" and "length (bu_vantage b) \<le> MAX_VANTAGE_BYTES"
    and "length (bu_peer b) \<le> MAX_TEXT_BYTES" and "length (bu_signature b) \<le> MAX_TEXT_BYTES"
    and "list_all (list_all (\<lambda>(field, v). length v \<le> (if str_contains field ''vantage'' then MAX_VANTAGE_BYTES
      else MAX_TEXT_BYTES)) \<circ> evidence_text_fields) (bu_records b)"
    and "length (st_incoming st) \<le> length (st_incoming st') + 4 + MAX_ENVELOPE_BYTES"
proof -
  have read: "\<exists>sealed. read_frame st = (Inr sealed, st')" and ok: "check_message (BundleMessage b) = Inr ()"
    using assms by (auto simp: receive_def split: prod.splits sum.splits option.splits)
  from ok show "length (bu_records b) \<le> MAX_RECORDS" "length (bu_vantage b) \<le> MAX_VANTAGE_BYTES"
    "length (bu_peer b) \<le> MAX_TEXT_BYTES" "length (bu_signature b) \<le> MAX_TEXT_BYTES"
    by (auto simp: check_record_count_def check_text_def res_bind_def split: sum.splits if_splits)
  have "check_fields (concat (map evidence_text_fields (bu_records b))) = Inr ()"
    using ok by (auto split: sum.splits)
  from check_fields_ok [OF this] show "list_all (list_all (\<lambda>(field, v). length v \<le> (if str_contains field ''vantage''
      then MAX_VANTAGE_BYTES else MAX_TEXT_BYTES)) \<circ> evidence_text_fields) (bu_records b)"
    by (simp add: list_all_iff)
  show "length (st_incoming st) \<le> length (st_incoming st') + 4 + MAX_ENVELOPE_BYTES"
    using read by (auto simp: read_frame_def stream_read_def check_frame_length_def Let_def split: prod.splits sum.splits if_splits)
qed

text \<open>
  The code that operators compare has a million values and depends on the identities alone, so that for any
  identity there are different counterparts with the same code.
\<close>

lemma codes_collide:
  "\<exists>p q. p \<noteq> q \<and> length p = 32 \<and> length q = 32 \<and> authentication_code env a (PeerId p) = authentication_code env a (PeerId q)"
proof -
  let ?f = "\<lambda>w :: 256 word. authentication_code env a (PeerId (be_bytes 32 w))"
  let ?code = "\<lambda>n :: nat. three_digits (n div 1000) @ ''-'' @ three_digits (n mod 1000)"
  have "range ?f \<subseteq> ?code ` {..< 1000000}" by (auto simp: authentication_code_def Let_def case_prod_unfold)
  then have "card (range ?f) \<le> card (?code ` {..< 1000000})" by (intro card_mono) simp_all
  also have "\<dots> \<le> 1000000" by (rule order_trans [OF card_image_le]) simp_all
  also have "\<dots> < card (UNIV :: 256 word set)" by (simp add: card_word)
  finally have "\<not> inj ?f" by (metis card_image less_irrefl)
  then obtain v w where "v \<noteq> w" "?f v = ?f w" unfolding inj_def by blast
  moreover have "be_bytes 32 v \<noteq> be_bytes 32 w" using \<open>v \<noteq> w\<close> be_bytes_inject [of 32 v w] by auto
  ultimately show ?thesis by (metis length_be_bytes)
qed

end
