(* ===== verification/Json_Text.thy ===== *)
theory Json_Text
  imports Text_Safety
begin

text \<open>
  JSON as a browser reads it (RFC 8259), for the document that \<open>output::embeddable_json\<close> writes into a
  script element. The reader is a specification: it has no counterpart in the repository. It turns a
  text into values, whose strings are UTF-16 units, and accepts nothing outside the grammar. The fuel of
  its recursion bounds the nesting; twice the length of the text is enough for every text.
\<close>

section \<open>A JSON reader\<close>

datatype json =
    JNull
  | JBool bool
  | JNumber chars
  | JString "nat list"
  | JArray "json list"
  | JObject "(nat list \<times> json) list"

fun skip_ws :: "chars \<Rightarrow> chars" where
  "skip_ws [] = []"
| "skip_ws (c # cs) = (if c \<in> {32, 9, 10, 13} then skip_ws cs else c # cs)"

definition hex_unit :: "nat \<Rightarrow> nat option" where
  "hex_unit c =
     (if 48 \<le> c \<and> c \<le> 57 then Some (c - 48)
      else if 65 \<le> c \<and> c \<le> 70 then Some (c - 55)
      else if 97 \<le> c \<and> c \<le> 102 then Some (c - 87)
      else None)"

definition simple_escape :: "nat \<Rightarrow> nat option" where
  "simple_escape c =
     map_of [(34, 34), (92, 92), (47, 47), (98, 8), (102, 12), (110, 10), (114, 13), (116, 9)] c"

definition utf16_units :: "nat \<Rightarrow> nat list" where
  "utf16_units c =
     (if c < 0x10000 then [c]
      else [0xD800 + (c - 0x10000) div 1024, 0xDC00 + (c - 0x10000) mod 1024])"

definition in_front :: "nat list \<Rightarrow> (nat list \<times> chars) option \<Rightarrow> (nat list \<times> chars) option" where
  "in_front us r = map_option (\<lambda>(s, rest). (us @ s, rest)) r"

text \<open>The rest of a string after its opening quote, with what follows the closing one.\<close>

fun read_string :: "chars \<Rightarrow> (nat list \<times> chars) option" where
  "read_string [] = None"
| "read_string (c # cs) =
     (if c = 34 then Some ([], cs)
      else if c = 92 then
        (case cs of
           [] \<Rightarrow> None
         | e # rest \<Rightarrow>
             if e = 117 then
               (case rest of
                  h1 # h2 # h3 # h4 # rest' \<Rightarrow>
                    (case (hex_unit h1, hex_unit h2, hex_unit h3, hex_unit h4) of
                       (Some a, Some b, Some x, Some d) \<Rightarrow>
                         in_front [((a * 16 + b) * 16 + x) * 16 + d] (read_string rest')
                     | _ \<Rightarrow> None)
                | _ \<Rightarrow> None)
             else (case simple_escape e of
                     None \<Rightarrow> None
                   | Some v \<Rightarrow> in_front [v] (read_string rest)))
      else if c < 32 then None
      else in_front (utf16_units c) (read_string cs))"

definition is_digit :: "nat \<Rightarrow> bool" where
  "is_digit c \<longleftrightarrow> 48 \<le> c \<and> c \<le> 57"

definition number_char :: "nat \<Rightarrow> bool" where
  "number_char c \<longleftrightarrow> is_digit c \<or> c \<in> {43, 45, 46, 69, 101}"

definition exponent_ok :: "chars \<Rightarrow> bool" where
  "exponent_ok cs =
     (case cs of
        [] \<Rightarrow> True
      | e # rest \<Rightarrow>
          e \<in> {69, 101} \<and>
          (let ds = (case rest of s # rest' \<Rightarrow> if s \<in> {43, 45} then rest' else rest | [] \<Rightarrow> [])
           in ds \<noteq> [] \<and> list_all is_digit ds))"

definition fraction_ok :: "chars \<Rightarrow> bool" where
  "fraction_ok cs =
     (case cs of
        d # rest \<Rightarrow>
          if d = 46 then takeWhile is_digit rest \<noteq> [] \<and> exponent_ok (dropWhile is_digit rest)
          else exponent_ok cs
      | [] \<Rightarrow> True)"

definition number_ok :: "chars \<Rightarrow> bool" where
  "number_ok cs =
     (let unsigned = (case cs of m # rest \<Rightarrow> if m = 45 then rest else cs | [] \<Rightarrow> []);
          ds = takeWhile is_digit unsigned
      in ds \<noteq> [] \<and> (hd ds = 48 \<longrightarrow> ds = [48]) \<and> fraction_ok (dropWhile is_digit unsigned))"

fun strip :: "chars \<Rightarrow> chars \<Rightarrow> chars option" where
  "strip [] cs = Some cs"
| "strip (p # ps) (c # cs) = (if p = c then strip ps cs else None)"
| "strip (p # ps) [] = None"

definition read_atom :: "nat \<Rightarrow> chars \<Rightarrow> (json \<times> chars) option" where
  "read_atom c cs =
     (if c = 110 then map_option (Pair JNull) (strip [117, 108, 108] cs)
      else if c = 116 then map_option (Pair (JBool True)) (strip [114, 117, 101] cs)
      else if c = 102 then map_option (Pair (JBool False)) (strip [97, 108, 115, 101] cs)
      else if number_char c \<and> number_ok (c # takeWhile number_char cs)
      then Some (JNumber (c # takeWhile number_char cs), dropWhile number_char cs)
      else None)"

fun read_value :: "nat \<Rightarrow> chars \<Rightarrow> (json \<times> chars) option"
  and read_elements :: "nat \<Rightarrow> chars \<Rightarrow> (json list \<times> chars) option"
  and read_members :: "nat \<Rightarrow> chars \<Rightarrow> ((nat list \<times> json) list \<times> chars) option" where
  "read_value 0 cs = None"
| "read_value (Suc n) cs =
     (case skip_ws cs of
        [] \<Rightarrow> None
      | c # rest \<Rightarrow>
          if c = 34 then map_option (\<lambda>(s, r). (JString s, r)) (read_string rest)
          else if c = 91 then
            (case skip_ws rest of
               [] \<Rightarrow> None
             | d # r \<Rightarrow>
                 if d = 93 then Some (JArray [], r)
                 else map_option (\<lambda>(vs, r). (JArray vs, r)) (read_elements n rest))
          else if c = 123 then
            (case skip_ws rest of
               [] \<Rightarrow> None
             | d # r \<Rightarrow>
                 if d = 125 then Some (JObject [], r)
                 else map_option (\<lambda>(ms, r). (JObject ms, r)) (read_members n rest))
          else read_atom c rest)"
| "read_elements 0 cs = None"
| "read_elements (Suc n) cs =
     (case read_value n cs of
        None \<Rightarrow> None
      | Some (v, r) \<Rightarrow>
          (case skip_ws r of
             [] \<Rightarrow> None
           | d # r' \<Rightarrow>
               if d = 93 then Some ([v], r')
               else if d = 44 then map_option (\<lambda>(vs, q). (v # vs, q)) (read_elements n r')
               else None))"
| "read_members 0 cs = None"
| "read_members (Suc n) cs =
     (case strip [34] (skip_ws cs) of
        None \<Rightarrow> None
      | Some rest \<Rightarrow>
          (case read_string rest of
             None \<Rightarrow> None
           | Some (k, r) \<Rightarrow>
               (case strip [58] (skip_ws r) of
                  None \<Rightarrow> None
                | Some r' \<Rightarrow>
                    (case read_value n r' of
                       None \<Rightarrow> None
                     | Some (v, q) \<Rightarrow>
                         (case skip_ws q of
                            [] \<Rightarrow> None
                          | d # q' \<Rightarrow>
                              if d = 125 then Some ([(k, v)], q')
                              else if d = 44 then map_option (\<lambda>(ms, z). ((k, v) # ms, z)) (read_members n q')
                              else None)))))"

definition json_parse :: "chars \<Rightarrow> json option" where
  "json_parse cs =
     (case read_value (2 * length cs) cs of
        None \<Rightarrow> None
      | Some (v, rest) \<Rightarrow> if skip_ws rest = [] then Some v else None)"

section \<open>Embedding keeps what is read\<close>

abbreviation emb :: "chars \<Rightarrow> chars" where
  "emb \<equiv> embeddable_json"

lemma emb_Nil [simp]: "emb [] = []"
  by (simp add: embeddable_json_def)

lemma emb_inert: "html_inert c \<Longrightarrow> emb (c # cs) = c # emb cs"
  by (simp add: embeddable_Cons escape_char_plain)

lemma emb_special: "\<not> html_inert c \<Longrightarrow> \<exists>h1 h2 h3 h4. emb (c # cs) = 92 # 117 # h1 # h2 # h3 # h4 # emb cs"
  by (auto simp: embeddable_Cons escape_char_def bs_u_def html_inert_def)

text \<open>Every character with a meaning in the grammar stays as it is.\<close>

lemma syntax_inert [simp]:
  "html_inert 9" "html_inert 10" "html_inert 13" "html_inert 32" "html_inert 34" "html_inert 44"
  "html_inert 58" "html_inert 91" "html_inert 92" "html_inert 93" "html_inert 117" "html_inert 123" "html_inert 125"
  "html_inert 97" "html_inert 101" "html_inert 102" "html_inert 108" "html_inert 110" "html_inert 114" "html_inert 115" "html_inert 116"
  by (simp_all add: html_inert_def)

lemma hex_unit_inert: "hex_unit c = Some v \<Longrightarrow> html_inert c"
  by (auto simp: hex_unit_def html_inert_def split: if_splits)

lemma simple_escape_inert: "simple_escape c = Some v \<Longrightarrow> html_inert c"
  by (auto simp: simple_escape_def html_inert_def split: if_splits)

lemma number_char_inert: "number_char c \<Longrightarrow> html_inert c"
  by (auto simp: number_char_def is_digit_def html_inert_def)

lemma skip_ws_emb: "skip_ws (emb cs) = emb (skip_ws cs)"
proof (induction cs)
  case (Cons c cs)
  show ?case
  proof (cases "html_inert c")
    case True
    then show ?thesis using Cons by (auto simp: emb_inert)
  next
    case False
    then have "c \<notin> {32, 9, 10, 13}" by (auto simp: html_inert_def)
    then show ?thesis using emb_special [OF False, of cs] by auto
  qed
qed simp

lemma skip_ws_emb_Cons: "skip_ws cs = c # rest \<Longrightarrow> html_inert c \<Longrightarrow> skip_ws (emb cs) = c # emb rest"
  by (simp add: skip_ws_emb emb_inert)

lemma skip_ws_emb_other:
  assumes "skip_ws cs = d # r" and "d \<noteq> x" and "x \<noteq> 92"
  shows "\<exists>d' r'. skip_ws (emb cs) = d' # r' \<and> d' \<noteq> x"
  using assms emb_special [of d r] by (cases "html_inert d") (auto simp: skip_ws_emb emb_inert)

lemma strip_emb: "strip ps cs = Some rest \<Longrightarrow> list_all html_inert ps \<Longrightarrow> strip ps (emb cs) = Some (emb rest)"
  by (induction ps cs rule: strip.induct) (auto simp: emb_inert split: if_splits)

lemma number_emb:
  "takeWhile number_char (emb cs) = takeWhile number_char cs \<and> dropWhile number_char (emb cs) = emb (dropWhile number_char cs)"
proof (induction cs)
  case (Cons c cs)
  show ?case
  proof (cases "html_inert c")
    case True
    then show ?thesis using Cons by (simp add: emb_inert)
  next
    case False
    then have "\<not> number_char c" using number_char_inert by blast
    moreover have "\<not> number_char 92" by (simp add: number_char_def is_digit_def)
    ultimately show ?thesis using emb_special [OF False, of cs] by auto
  qed
qed simp

lemma read_atom_emb: "read_atom c cs = Some (v, rest) \<Longrightarrow> html_inert c \<and> read_atom c (emb cs) = Some (v, emb rest)"
  using number_emb [of cs] number_char_inert [of c] strip_emb [of _ cs]
  by (auto simp: read_atom_def split: if_splits)

lemma in_front_Some: "in_front us r = Some (s, rest) \<longleftrightarrow> (\<exists>t. r = Some (t, rest) \<and> s = us @ t)"
  by (auto simp: in_front_def)

text \<open>A character that is escaped reads as itself.\<close>

lemma read_string_escaped:
  "c \<noteq> 34 \<Longrightarrow> c \<noteq> 92 \<Longrightarrow> 32 \<le> c \<Longrightarrow>
     read_string (emb (c # cs)) = in_front (utf16_units c) (read_string (emb cs))"
  by (auto simp: embeddable_Cons escape_char_def bs_u_def hex_unit_def utf16_units_def)

lemma read_string_emb: "read_string cs = Some (s, rest) \<Longrightarrow> read_string (emb cs) = Some (s, emb rest)"
proof (induction cs arbitrary: s rule: read_string.induct)
  case (2 c cs)
  consider "c = 34" | "c = 92" | "c \<noteq> 34" "c \<noteq> 92" by blast
  then show ?case
  proof cases
    case 1
    with "2.prems" show ?thesis by (simp add: emb_inert)
  next
    case c: 2
    with "2.prems" obtain e tail where cs: "cs = e # tail" by (cases cs) auto
    show ?thesis
    proof (cases "e = 117")
      case u: True
      obtain h1 h2 h3 h4 q a b x d t where
        q: "tail = h1 # h2 # h3 # h4 # q"
        and h: "hex_unit h1 = Some a" "hex_unit h2 = Some b" "hex_unit h3 = Some x" "hex_unit h4 = Some d"
        and t: "read_string q = Some (t, rest)" "s = (((a * 16 + b) * 16 + x) * 16 + d) # t"
        using "2.prems" c cs u by (auto simp: in_front_Some split: list.splits option.splits)
      have "read_string (emb q) = Some (t, emb rest)"
        using "2.IH"(1) [OF _ c cs u q refl refl refl] c h t by auto
      then show ?thesis using h t by (simp add: c cs u q emb_inert hex_unit_inert in_front_Some)
    next
      case False
      then obtain x t where x: "simple_escape e = Some x"
        and t: "read_string tail = Some (t, rest)" "s = x # t"
        using "2.prems" c cs by (auto simp: in_front_Some split: option.splits)
      have "read_string (emb tail) = Some (t, emb rest)"
        using "2.IH"(2) [OF _ c cs False x] c t by simp
      then show ?thesis using x t False by (simp add: c cs emb_inert simple_escape_inert in_front_Some)
    qed
  next
    case 3
    with "2.prems" obtain t where t: "read_string cs = Some (t, rest)" "s = utf16_units c @ t" "32 \<le> c"
      by (auto simp: in_front_Some split: if_splits)
    have "read_string (emb cs) = Some (t, emb rest)" using "2.IH"(3) [OF 3] t by simp
    then show ?thesis using t 3 by (simp add: read_string_escaped in_front_Some del: read_string.simps)
  qed
qed simp

lemma read_emb:
  "read_value n cs = Some (v, rest) \<Longrightarrow> read_value n (emb cs) = Some (v, emb rest)"
  "read_elements n cs = Some (vs, rest) \<Longrightarrow> read_elements n (emb cs) = Some (vs, emb rest)"
  "read_members n cs = Some (ms, rest) \<Longrightarrow> read_members n (emb cs) = Some (ms, emb rest)"
proof (induction n cs and n cs and n cs arbitrary: v rest and vs rest and ms rest
    rule: read_value_read_elements_read_members.induct)
  case (2 n cs)
  from "2.prems" obtain c q where q: "skip_ws cs = c # q" by (auto split: list.splits)
  show ?case
  proof (cases "c = 91 \<or> c = 123")
    case False
    then have "html_inert c"
      using "2.prems" q read_atom_emb [of c q v rest] by (auto split: if_splits)
    then show ?thesis
      using "2.prems" False q skip_ws_emb_Cons [OF q] read_atom_emb [of c q v rest] read_string_emb [of q]
      by (auto split: if_splits)
  next
    case True
    then have first: "skip_ws (emb cs) = c # emb q" using skip_ws_emb_Cons [OF q] by auto
    obtain d r where d: "skip_ws q = d # r" using "2.prems" q True by (auto split: list.splits)
    show ?thesis
    proof (cases "d = (if c = 91 then 93 else 125)")
      case closed: True
      then have "skip_ws (emb q) = d # emb r" using skip_ws_emb_Cons [OF d] True by auto
      then show ?thesis using "2.prems" q d first True closed by auto
    next
      case False
      then obtain d' r' where "skip_ws (emb q) = d' # r'" "d' \<noteq> (if c = 91 then 93 else 125)"
        using skip_ws_emb_other [OF d False] by (auto split: if_splits)
      then show ?thesis
        using "2.prems" "2.IH"(1) [OF q _ _ d] "2.IH"(2) [OF q _ _ _ d] q d first True False by auto
    qed
  qed
next
  case (4 n cs)
  from "4.prems" obtain v r d r' where v: "read_value n cs = Some (v, r)" "skip_ws r = d # r'" "d = 93 \<or> d = 44"
    by (auto split: option.splits list.splits if_splits)
  have "skip_ws (emb r) = d # emb r'" using v(2,3) skip_ws_emb_Cons by auto
  then show ?case
    using "4.prems" v "4.IH"(1) [OF v(1)] "4.IH"(2) [OF v(1) refl v(2)] by (auto split: if_splits)
next
  case (6 n cs)
  from "6.prems" obtain q k r r' v z d z' where q: "strip [34] (skip_ws cs) = Some q" "read_string q = Some (k, r)"
    "strip [58] (skip_ws r) = Some r'" and v: "read_value n r' = Some (v, z)" "skip_ws z = d # z'" "d = 125 \<or> d = 44"
    by (auto split: option.splits list.splits if_splits simp del: strip.simps)
  have "strip [34] (skip_ws (emb cs)) = Some (emb q)" "read_string (emb q) = Some (k, emb r)"
    "strip [58] (skip_ws (emb r)) = Some (emb r')"
    using q by (simp_all add: skip_ws_emb strip_emb read_string_emb del: strip.simps)
  moreover have "skip_ws (emb z) = d # emb z'" using v(2,3) skip_ws_emb_Cons by auto
  ultimately show ?case
    using "6.prems" q v "6.IH"(1) [OF q(1,2) refl q(3) v(1)] "6.IH"(2) [OF q(1,2) refl q(3) v(1) refl v(2)]
    by (auto split: if_splits simp del: strip.simps)
qed simp_all

section \<open>The fuel is enough\<close>

lemma skip_ws_length: "length (skip_ws cs) \<le> length cs"
  by (induction cs) auto

lemma skip_ws_shorter: "skip_ws cs = c # rest \<Longrightarrow> length rest < length cs"
  using skip_ws_length [of cs] by simp

lemma strip_length: "strip ps cs = Some rest \<Longrightarrow> length cs = length ps + length rest"
  by (induction ps cs rule: strip.induct) (auto split: if_splits)

lemma read_string_shorter: "read_string cs = Some (s, rest) \<Longrightarrow> length rest < length cs"
proof (induction cs arbitrary: s rule: read_string.induct)
  case (2 c cs)
  then show ?case
    by (fastforce simp: in_front_Some split: if_splits list.splits option.splits)
qed simp

lemma read_atom_length: "read_atom c cs = Some (v, rest) \<Longrightarrow> length rest \<le> length cs"
  by (auto simp: read_atom_def dest: strip_length split: if_splits)
    (simp add: length_dropWhile_le)

text \<open>A value ends before the text does, and any fuel from the bound on reads it.\<close>

lemma read_enough:
  "read_value n cs = Some (v, rest) \<Longrightarrow>
     length rest < length cs \<and> (\<forall>m \<ge> 2 * length cs. read_value m cs = Some (v, rest))"
  "read_elements n cs = Some (vs, rest) \<Longrightarrow>
     length rest < length cs \<and> (\<forall>m \<ge> Suc (2 * length cs). read_elements m cs = Some (vs, rest))"
  "read_members n cs = Some (ms, rest) \<Longrightarrow>
     length rest < length cs \<and> (\<forall>m \<ge> Suc (2 * length cs). read_members m cs = Some (ms, rest))"
proof (induction n cs and n cs and n cs arbitrary: v rest and vs rest and ms rest
    rule: read_value_read_elements_read_members.induct)
  case (2 n cs)
  from "2.prems" obtain c q where q: "skip_ws cs = c # q" by (auto split: list.splits)
  note less = skip_ws_shorter [OF q]
  have fuel: "\<exists>k. m = Suc k \<and> Suc (2 * length q) \<le> k" if "2 * length cs \<le> m" for m
    using less that by (intro exI [of _ "m - 1"]) simp
  show ?case
  proof (cases "c = 91 \<or> c = 123")
    case False
    then show ?thesis
      using "2.prems" q less read_atom_length [of c q v rest] read_string_shorter [of q]
      by (auto dest!: fuel split: if_splits)
  next
    case True
    obtain d r where d: "skip_ws q = d # r" using "2.prems" q True by (auto split: list.splits)
    note shorter = skip_ws_shorter [OF d]
    show ?thesis
    proof (cases "d = (if c = 91 then 93 else 125)")
      case closed: True
      then show ?thesis using "2.prems" q d True less shorter by (auto dest!: fuel)
    next
      case False
      show ?thesis
      proof (cases "c = 91")
        case array: True
        then have open_array: "d \<noteq> 93" using False by simp
        then obtain us where "read_elements n q = Some (us, rest)" "v = JArray us"
          using "2.prems" q d array by auto
        moreover note "2.IH"(1) [OF q _ array d open_array this(1)]
        ultimately show ?thesis using q d array open_array less by (auto dest!: fuel)
      next
        case object: False
        then have c: "c = 123" and open_object: "d \<noteq> 125" using True False by simp_all
        then obtain us where "read_members n q = Some (us, rest)" "v = JObject us"
          using "2.prems" q d by auto
        moreover note "2.IH"(2) [OF q _ object c d open_object this(1)]
        ultimately show ?thesis using q d c open_object less by (auto dest!: fuel)
      qed
    qed
  qed
next
  case (4 n cs)
  from "4.prems" obtain v r d r' where v: "read_value n cs = Some (v, r)" "skip_ws r = d # r'" "d = 93 \<or> d = 44"
    by (auto split: option.splits list.splits if_splits)
  note one = "4.IH"(1) [OF v(1)] and shorter = skip_ws_shorter [OF v(2)]
  have fuel: "\<exists>k. m = Suc k \<and> 2 * length cs \<le> k" if "Suc (2 * length cs) \<le> m" for m
    using that by (intro exI [of _ "m - 1"]) simp
  show ?case
  proof (cases "d = 93")
    case True
    then show ?thesis using "4.prems" v one shorter by (auto dest!: fuel)
  next
    case False
    with v(3) have d: "d = 44" by simp
    then obtain vs' where vs': "read_elements n r' = Some (vs', rest)" "vs = v # vs'"
      using "4.prems" v by auto
    note more = "4.IH"(2) [OF v(1) refl v(2) False d vs'(1)]
    have "Suc (2 * length r') \<le> k" if "2 * length cs \<le> k" for k using one shorter that by simp
    then show ?thesis using v vs' one more shorter d by (auto dest!: fuel)
  qed
next
  case (6 n cs)
  from "6.prems" obtain q k r r' v z d z' where q: "strip [34] (skip_ws cs) = Some q" "read_string q = Some (k, r)"
    "strip [58] (skip_ws r) = Some r'" and v: "read_value n r' = Some (v, z)" "skip_ws z = d # z'" "d = 125 \<or> d = 44"
    by (auto split: option.splits list.splits if_splits simp del: strip.simps)
  have "length q < length cs" "length r < length q" "length r' < length r"
    using strip_length [OF q(1)] strip_length [OF q(3)] skip_ws_length [of cs] skip_ws_length [of r]
      read_string_shorter [OF q(2)] by simp_all
  then have sizes: "length r' < length cs" by simp
  note one = "6.IH"(1) [OF q(1,2) refl q(3) v(1)] and shorter = skip_ws_shorter [OF v(2)]
  have fuel: "\<exists>k. m = Suc k \<and> 2 * length r' \<le> k \<and> Suc (2 * length z') \<le> k" if "Suc (2 * length cs) \<le> m" for m
    using that sizes conjunct1 [OF one] shorter by (intro exI [of _ "m - 1"]) linarith
  show ?case
  proof (cases "d = 125")
    case True
    then show ?thesis using "6.prems" q v one shorter sizes by (auto dest!: fuel simp del: strip.simps)
  next
    case False
    with v(3) have d: "d = 44" by simp
    then obtain ms' where ms': "read_members n z' = Some (ms', rest)" "ms = (k, v) # ms'"
      using "6.prems" q v by (auto simp del: strip.simps)
    note more = "6.IH"(2) [OF q(1,2) refl q(3) v(1) refl v(2) False d ms'(1)]
    show ?thesis using q v ms' one more shorter d sizes by (auto dest!: fuel simp del: strip.simps)
  qed
qed simp_all

lemma json_parse_iff: "json_parse cs = Some v \<longleftrightarrow> (\<exists>n rest. read_value n cs = Some (v, rest) \<and> skip_ws rest = [])"
proof
  assume "json_parse cs = Some v"
  then show "\<exists>n rest. read_value n cs = Some (v, rest) \<and> skip_ws rest = []"
    unfolding json_parse_def by (simp split: option.splits prod.splits if_splits) blast
next
  assume "\<exists>n rest. read_value n cs = Some (v, rest) \<and> skip_ws rest = []"
  then obtain n rest where n: "read_value n cs = Some (v, rest)" and rest: "skip_ws rest = []" by blast
  have "read_value (2 * length cs) cs = Some (v, rest)" using read_enough(1) [OF n] by blast
  with rest show "json_parse cs = Some v" by (simp add: json_parse_def)
qed

section \<open>The embedded document\<close>

text \<open>
  C34: a JSON document embedded in the page cannot leave its script element and means the same. The
  escaped text has no character that is special to HTML or ends a line in JavaScript; and if the
  document is JSON, with objects, arrays, strings, numbers and literals by the grammar, then the escaped
  text is JSON too and has the same value.
\<close>

theorem embedded_json_is_inert_and_equal:
  assumes "json_parse json = Some v"
  shows "list_all html_inert (embeddable_json json) \<and> json_parse (embeddable_json json) = Some v"
proof
  show "list_all html_inert (embeddable_json json)" by (simp add: list_all_iff embeddable_json_inert)
  obtain n rest where "read_value n json = Some (v, rest)" "skip_ws rest = []"
    using assms by (auto simp: json_parse_iff)
  then have "read_value n (emb json) = Some (v, emb rest)" "skip_ws (emb rest) = []"
    by (simp_all add: read_emb skip_ws_emb)
  then show "json_parse (embeddable_json json) = Some v" by (auto simp: json_parse_iff)
qed

text \<open>The document \<open>{"a": ["</b>", -1.5e3, null]}\<close>.\<close>

definition sample_document :: chars where
  "sample_document =
     [123, 34, 97, 34, 58, 32, 91, 34, 60, 47, 98, 62, 34, 44, 32, 45, 49, 46, 53, 101, 51, 44, 110, 117, 108, 108, 93, 125]"

lemmas reading =
  sample_document_def read_atom_def number_ok_def fraction_ok_def exponent_ok_def number_char_def is_digit_def
  in_front_def utf16_units_def

lemma sample_document_read:
  "json_parse sample_document =
     Some (JObject [([97], JArray [JString [60, 47, 98, 62], JNumber [45, 49, 46, 53, 101, 51], JNull])])"
  unfolding json_parse_iff
  by (intro exI [of _ "Suc (Suc (Suc (Suc (Suc (Suc (Suc 0))))))"] exI [of _ "[]"]) (simp add: reading)

theorem embedded_json_is_inert_and_equal_witness:
  "list_all html_inert (embeddable_json sample_document) \<and>
   json_parse (embeddable_json sample_document) =
     Some (JObject [([97], JArray [JString [60, 47, 98, 62], JNumber [45, 49, 46, 53, 101, 51], JNull])])"
  by (rule embedded_json_is_inert_and_equal) (rule sample_document_read)

end
