(* ===== verification/Spec2Isabelle.thy ===== *)
theory Spec2Isabelle
  imports Graph_Props Ledger_Props Limits Usm_State Snmp_Props Snmp_V3_Props Passive_Props Engine_Props Management Secure_Clients Session Json_Text
begin

text \<open>
  Verification of the core of \<open>idnx\<close>, a network discovery program in Rust: it collects evidence
  about the networks and devices around a machine, from its own probes and from peers, and builds a
  topology graph in which every statement has a source. Paths below are relative to \<open>src/src\<close>.

  \<^bold>\<open>Parts and how they interact.\<close> The engine (\<open>engine/\<close>) works through a queue of
  networks and devices: it sweeps each network with its providers, interrogates each device, and drains
  the passive sources, until nothing new is found. Providers (\<open>providers/\<close>) ask through probes
  (\<open>probes/\<close>), which speak ICMP, RIP, OSPF, IS-IS, LLDP, CDP, MNDP, SNMP, HTTP, DNS, telnet, SMB, TLS and
  NAT-PMP over sockets bound to the chosen interface (\<open>net/\<close>), and turn what probes return into evidence
  (\<open>topology/evidence.rs\<close>), which the graph absorbs (\<open>topology/graph.rs\<close>) under the rules for
  identities and observation domains (\<open>topology/realm.rs\<close>) and for roles (\<open>topology/role.rs\<close>). Peers
  exchange signed bundles of evidence (\<open>federation/\<close>) over encrypted sessions or through a relay that
  holds sealed envelopes, and a ledger decides which of them may reach the graph. Text that came from the network is made safe before it is printed (\<open>text.rs\<close>,
  \<open>output/safe.rs\<close>).

  \<^bold>\<open>Theories and sources.\<close>

    \<^item> \<open>Idnx_Prelude\<close>, \<open>Rust_Maps\<close>, \<open>Net_Types\<close>, \<open>Net_Bytes\<close>, \<open>Ip_Text\<close>, \<open>Rust_Text\<close>, \<open>Tlv\<close>: integers at
      their width, the parts of the standard library the sources use (strings, \<open>BTreeMap\<close> and
      \<open>HashMap\<close> behind the locale \<open>rust_map\<close>, addresses and their text, UTF-8 with replacement),
      big-endian fields, netmasks, the Internet checksum, and the walk over type-length-value
      elements behind the locales \<open>tlv_reader\<close> and \<open>tlv_format\<close>.
    \<^item> \<open>Evidence\<close>, \<open>Role\<close>, \<open>Realm\<close>: \<open>topology/evidence.rs\<close>, \<open>role.rs\<close>, \<open>realm.rs\<close>, one definition per
      function.
    \<^item> \<open>Graph_Types\<close>, \<open>Graph\<close>, \<open>Graph_Query\<close>: \<open>topology/graph.rs\<close>. \<open>TopologyGraph\<close> is the record
      \<open>topology_graph\<close>; \<open>absorb\<close> is \<open>absorb_fact\<close> with one definition per arm of its match;
      \<open>merge_address_identities\<close> and \<open>finalize_roles\<close> follow their loops; the queries are in
      \<open>Graph_Query\<close>. \<open>Graph_Runs\<close> has the step relation of a run (absorb, merge, finalise) and its
      reachable states. \<open>Graph_Inv\<close>, \<open>Graph_Sources\<close>, \<open>Graph_Grow\<close>, \<open>Graph_Merge\<close> hold the invariants,
      \<open>Graph_Props\<close> the properties.
    \<^item> \<open>Identity\<close>, \<open>Wire\<close>, \<open>Limits\<close>, \<open>Bundle\<close>, \<open>Ledger\<close>: the files of these names in \<open>federation/\<close>;
      \<open>Ledger_Props\<close> has the histories of a ledger and what they guarantee. \<open>Relay\<close>: \<open>federation/relay.rs\<close>,
      the queue of a relay and its connections, with runs of events; \<open>Session\<close>: \<open>federation/session.rs\<close> and
      \<open>transport.rs\<close>, the handshake, sealing and opening, frames over a stream, and two ends that talk.
    \<^item> \<open>Text_Safety\<close>: \<open>text.rs\<close> and \<open>output/safe.rs\<close>; \<open>Json_Text\<close>: a reader of JSON, which is a specification,
      and what it reads from an embedded document.
    \<^item> \<open>Icmp\<close>: \<open>probes/path.rs\<close>, \<open>probes/icmp_mask.rs\<close>, \<open>probes/attempt.rs\<close>. \<open>Rip\<close>, \<open>Ospf\<close>, \<open>Isis\<close>: the
      decoders of these names. \<open>Neighbours\<close>: \<open>probes/cdp.rs\<close>, \<open>lldp.rs\<close>, \<open>mndp.rs\<close>.
    \<^item> \<open>Snmp_Ber\<close>, \<open>Snmp\<close>: \<open>probes/snmp.rs\<close>, the codec and the client; \<open>Inet_Route\<close>:
      \<open>probes/inet_route.rs\<close>; \<open>Usm_State\<close>: \<open>probes/usm_state.rs\<close> with the salts of \<open>usm.rs\<close>; \<open>Usm\<close>: keys,
      tags and encryption of \<open>probes/usm.rs\<close>; \<open>Snmp_V3\<close>: \<open>probes/snmp_v3.rs\<close>. \<open>Snmp_Codec\<close>, \<open>Snmp_Props\<close>
      and \<open>Snmp_V3_Props\<close> hold their properties.
    \<^item> \<open>Sweep\<close>: the reading loop of \<open>net/linklayer.rs\<close> and, behind the locale \<open>sweep\<close>, what the sweeps of
      \<open>Arp\<close> (\<open>probes/arp.rs\<close>) and \<open>Ndp\<close> (\<open>probes/ndp.rs\<close>) share; \<open>Ra\<close>: \<open>probes/ra.rs\<close>.
    \<^item> \<open>Capture\<close>: \<open>net/capture.rs\<close> and \<open>net/pcap.rs\<close>; \<open>Frames\<close>: the decoder \<open>probes/passive.rs\<close>, which calls
      the decoders above; \<open>Passive_Source\<close>: \<open>providers/passive.rs\<close>, the conversion of facts into evidence
      and the observation that the capture thread fills and the engine drains, as interleaved steps;
      \<open>Passive_Props\<close> their properties.
    \<^item> \<open>Binding\<close>: \<open>net/endpoint.rs\<close>, \<open>net/interface.rs\<close>, \<open>net/socket.rs\<close> and \<open>net/vantage.rs\<close>, where a socket
      is the list of calls it is opened with and the operating system answers each; \<open>Providers\<close>:
      \<open>providers/mod.rs\<close>, the interface between engine and providers.
    \<^item> \<open>Target\<close>: the data of \<open>providers/target.rs\<close>, \<open>providers/vendor.rs\<close> and the status of a port in
      \<open>engine/scanner.rs\<close>; \<open>Interrogate\<close>: the interrogation of one device, the rest of \<open>target.rs\<close>, over a
      record of what each client returns.
    \<^item> \<open>Http\<close>: \<open>probes/http.rs\<close>, from the bytes of a response to the prefixes, links and titles in it;
      \<open>Management\<close>: \<open>probes/management.rs\<close>, and the interrogation with these two in place; \<open>Clients\<close>:
      \<open>probes/natpmp.rs\<close>, \<open>dns.rs\<close>, \<open>telnet.rs\<close>; \<open>Secure_Clients\<close>: \<open>probes/smb.rs\<close>, \<open>tls.rs\<close>, where a
      computation may end in a panic.
    \<^item> \<open>Enrich\<close>: \<open>engine/enrich.rs\<close>, the queue of devices and the tasks that interrogate them; \<open>Engine\<close>:
      \<open>engine/orchestrator.rs\<close>, the loop over scopes and devices; \<open>Engine_Props\<close> its properties.

  \<^bold>\<open>How the code is modelled.\<close> State is passed explicitly; an early return with an error is \<open>None\<close>
  or \<open>Inl\<close>. A cursor into a slice is the list that is left after it. What the clock, the random
  source, a socket or the iteration order of a hash map gives is an argument. What an exchange
  receives is the list of the events before its timeout, so a loop over a socket is a recursion on
  that list. Concurrent tasks are a list of results in the order in which they complete, any of which
  may be a panic. Code of other crates is a parameter: truncation of a prefix by \<open>ipnet\<close> (\<open>ipnet_ops\<close>),
  the signature scheme, JSON and hashing; what a property needs of them is a hypothesis with an
  instance in its witness.

  \<^bold>\<open>What the properties show.\<close> Of the graph: every reachable state is well formed; each node and each
  network comes from evidence; a dispute is permanent; only a validated reply takes an address from
  its owner; a validated reply that contradicts one still standing makes a dispute; absorbing removes no node, name or
  grade, and an address leaves a node only into the record of what it handed over; a peer's evidence never
  changes what is known locally and never makes an address a target. Of the federation: replays are
  refused, a receipt works once, preparing takes a bundle whole or not at all, a signature binds every
  field, a conversation is delivered in order, no nonce reaches the cipher twice, and a relay stays within
  its bounds, says exactly when it refuses and hands out only what was deposited. Of the decoders: what a device sent is what is read (RIP, OSPF,
  IS-IS, LLDP, SNMP and its route index), nothing is read from outside a container, secrets do not
  leave, and hellos or unverifiable packets establish nothing. Of the SNMP client: an accepted answer
  is an answer to the request, a walk against a conforming agent returns exactly the subtree, and
  against any agent it ends, in order; an SNMPv3 message is read as it was written and verifies
  exactly when it was signed. Of the link: a sweep keeps exactly the valid answers to requests that
  left. Of passive observation: no decoded fact is lost or repeated between the threads, which frames put
  a prefix on a VLAN, that a router advertisement is read as it was sent, and that capture files and buffers are
  split at their records. Of the engine: a run that reports convergence has swept every network and
  asked every device it could, whatever it swept it was entitled to sweep, and each source is finished
  once; the queue of devices is exact, with infrastructure first. Of an interrogation: a network it reports was labelled as its own
  by a page of the device or advertised by it, the audit of a management surface is bounded and asks for
  nothing that acts, the record of what was asked adds up, and sockets are bound to addresses of the chosen interface, IPv6
  multicast excepted, which is aimed by its index. Of
  the other clients: what a resolver, a telnet server, a file server or a TLS server publishes is what is
  read. In this theory: a bundle the ledger prepared stays confined when the graph
  absorbs it.

  \<^bold>\<open>Bounds and termination.\<close> Every definition is total. Loops are recursions on the list that is
  left or on the number the code counts; \<open>walk\<close> takes the length of its input as the bound, which is
  enough because an element takes at least one byte (\<open>walk_unfold\<close> in \<open>tlv_reader\<close>). The JSON reader has
  fuel of twice the length of the text, which reads all that any fuel reads (\<open>json_parse_iff\<close>). Decimal text is
  printed with twenty digits, the width of a 64-bit integer. Arithmetic is that of a release build on
  a 64-bit machine: it wraps where the code does not check.

  \<^bold>\<open>Not modelled.\<close> The remaining probes (DHCP requests, UPnP, the reachability batches, the AI
  service); \<open>providers/network.rs\<close>, which composes the probes of a network sweep, \<open>providers/local.rs\<close> and
  the routing tables, which read the operating system; the views and exports, which render results;
  discovery, the evidence source and the state file of the federation; operating system calls (sockets, opening a
  capture, interface tables); the primitives of cryptography, which other crates provide; memory that
  is zeroed on drop (\<open>secret.rs\<close>). Of what is left, the network provider and the store of the federation
  are the parts that carry rules of their own.
\<close>

section \<open>A peer's bundle in this machine's graph\<close>

lemma prepared_attributed:
  assumes "prepare env now b l = Some (Inr p, l')" and "ev \<in> set (pr_evidence p)"
  shows "ev_origin ev = Some (bundle_origin (peer_to_hex (pr_peer p)) b)"
  using assms(1)
proof (cases rule: prepare_cases)
  case (reserved peer evidence)
  then show ?thesis
    using convert_records_attributed [OF reserved(4)] assms(2) by (auto simp: list_all_iff)
qed simp

lemma absorbed_bundle:
  "absorbed (ops @ map OpAbsorb evs) = absorbed ops \<union> set evs"
  by (auto simp: absorbed_def)

text \<open>
  C2: what a paired peer sends is confined. Once the ledger has prepared a bundle and its
  evidence is absorbed, in any state, no address of this machine's own observation domain that is
  not globally unique has a different owner, binding or dispute than before; and everything the
  graph then offers for interrogation was already seen by this machine itself, so no bundle can
  make it send a probe to an address only the peer named.
\<close>

theorem federated_bundle_is_confined:
  assumes "prepare env now b l = Some (Inr p, l')"
  shows "(is_globally_unique_address a \<or> same_slot (a, z, Local) g (run (map OpAbsorb (pr_evidence p)) g)) \<and>
     set (pivot_addresses (run (ops @ map OpAbsorb (pr_evidence p)) graph_new)) \<union>
       set (candidate_addresses (run (ops @ map OpAbsorb (pr_evidence p)) graph_new)) \<subseteq>
     {x. seen_here (absorbed ops) x}"
proof
  have origin: "ev_origin ev = Some (bundle_origin (peer_to_hex (pr_peer p)) b)"
    if "ev \<in> set (pr_evidence p)" for ev
    by (rule prepared_attributed [OF assms that])
  have "realm_of (ev_origin ev) \<noteq> Local" if "OpAbsorb ev \<in> set (map OpAbsorb (pr_evidence p))" for ev
    using that origin by (auto simp: realm_of_def)
  from run_isolated [where a = a and z = z and g = g, OF _ this]
  show "is_globally_unique_address a \<or> same_slot (a, z, Local) g (run (map OpAbsorb (pr_evidence p)) g)"
    by blast
  have "seen_here (absorbed (ops @ map OpAbsorb (pr_evidence p))) x \<Longrightarrow> seen_here (absorbed ops) x" for x
    unfolding absorbed_bundle using origin by (auto simp: seen_here_def is_remote_def)
  then show "set (pivot_addresses (run (ops @ map OpAbsorb (pr_evidence p)) graph_new)) \<union>
      set (candidate_addresses (run (ops @ map OpAbsorb (pr_evidence p)) graph_new)) \<subseteq>
      {x. seen_here (absorbed ops) x}"
    using interrogated_seen [of _ "ops @ map OpAbsorb (pr_evidence p)"] by blast
qed

theorem federated_bundle_is_confined_witness:
  "\<exists>p l'. prepare sample_env 0 (sample_bundle 4) sample_ledger = Some (Inr p, l') \<and>
     pr_evidence p \<noteq> [] \<and> \<not> is_globally_unique_address sample_ip \<and>
     same_slot (sample_ip, None, Local) (run [sample_claim (CHR ''1'') ArpProbe] graph_new)
       (run (map OpAbsorb (pr_evidence p)) (run [sample_claim (CHR ''1'') ArpProbe] graph_new))"
proof -
  obtain p l' where p: "prepare sample_env 0 (sample_bundle 4) sample_ledger = Some (Inr p, l')"
      "pr_evidence p \<noteq> []"
    by (simp add: sample_prepare [of 0 4])
  have "\<not> is_globally_unique_address sample_ip" by code_simp
  with federated_bundle_is_confined [OF p(1), of sample_ip None] p show ?thesis by blast
qed

end
